(* ===== verification/Prelude.thy ===== *)
theory Prelude
  imports Main "HOL-Library.Word" "HOL-Library.Sublist"
begin

text \<open>
  Shared vocabulary of the development: machine words and byte strings, the
  outcome of a Go call (a value, an error, a panic), sequencing of fallible
  stateful calls, little-endian byte order (\<open>encoding/binary\<close>), full reads of a
  byte stream (\<open>io.ReadFull\<close>), and the generic lemmas the components use.
\<close>

unbundle bit_operations_syntax

named_theorems act_simps \<open>unfolding rules for sequenced actions\<close>
named_theorems code_defs \<open>status codes and other constants of the source\<close>

section \<open>Machine types\<close>

type_synonym byte = "8 word"
type_synonym bytes = "8 word list"
type_synonym u8 = "8 word"
type_synonym u16 = "16 word"
type_synonym u32 = "32 word"
type_synonym u64 = "64 word"
type_synonym StatusCode = "32 word"

section \<open>Outcomes of calls\<close>

text \<open>
  A Go call returns a value, returns an error, or panics. Status codes are
  errors in this program (\<open>StatusCode\<close> has an \<open>Error\<close> method). \<open>NoFuel\<close> is not
  an outcome of the program: it marks a model run whose nesting bound was too
  small, and the theorems about fuelled functions show it does not occur.
\<close>

datatype goerr =
    Status StatusCode
  | ErrShortWrite
  | ErrEOF
  | ErrUnexpectedEOF
  | ErrUnsupportedType
  | ErrOther string

datatype 'a res = Ok 'a | Err goerr | Panic | NoFuel

type_synonym ('s, 'a) act = "'s \<Rightarrow> 'a res \<times> 's"

definition ret :: "'a \<Rightarrow> ('s, 'a) act" where
  "ret x = (\<lambda>s. (Ok x, s))"

definition throw :: "goerr \<Rightarrow> ('s, 'a) act" where
  "throw e = (\<lambda>s. (Err e, s))"

definition panic :: "('s, 'a) act" where
  "panic = (\<lambda>s. (Panic, s))"

definition nofuel :: "('s, 'a) act" where
  "nofuel = (\<lambda>s. (NoFuel, s))"

definition bnd :: "('s, 'a) act \<Rightarrow> ('a \<Rightarrow> ('s, 'b) act) \<Rightarrow> ('s, 'b) act" where
  "bnd m f = (\<lambda>s. case m s of
      (Ok x, s') \<Rightarrow> f x s'
    | (Err e, s') \<Rightarrow> (Err e, s')
    | (Panic, s') \<Rightarrow> (Panic, s')
    | (NoFuel, s') \<Rightarrow> (NoFuel, s'))"

definition andthen :: "('s, unit) act \<Rightarrow> ('s, 'b) act \<Rightarrow> ('s, 'b) act" where
  "andthen m n = bnd m (\<lambda>_. n)"

text \<open>\<open>if err := m; err != nil { return e }\<close>\<close>

definition orfail :: "goerr \<Rightarrow> ('s, 'a) act \<Rightarrow> ('s, 'a) act" where
  "orfail e m = (\<lambda>s. case m s of
      (Err _, s') \<Rightarrow> (Err e, s')
    | r \<Rightarrow> r)"

fun seqs :: "('s, unit) act list \<Rightarrow> ('s, unit) act" where
  "seqs [] = ret ()"
| "seqs (m # ms) = andthen m (seqs ms)"

text \<open>\<open>if c { m }\<close>, with the default when the branch is not taken.\<close>

definition when_set :: "bool \<Rightarrow> 'a \<Rightarrow> ('s, 'a) act \<Rightarrow> ('s, 'a) act" where
  "when_set c d m = (if c then m else ret d)"

section \<open>Status codes used by the components\<close>

definition Good :: StatusCode where "Good = 0"
definition BadEncodingError :: StatusCode where "BadEncodingError = 0x80060000"
definition BadDecodingError :: StatusCode where "BadDecodingError = 0x80070000"
definition BadTimeout :: StatusCode where "BadTimeout = 0x800A0000"
definition BadDataTypeIDUnknown :: StatusCode where "BadDataTypeIDUnknown = 0x80110000"
definition BadNoContinuationPoints :: StatusCode where "BadNoContinuationPoints = 0x804B0000"
definition BadTooManySessions :: StatusCode where "BadTooManySessions = 0x80560000"
definition BadTooManySubscriptions :: StatusCode where "BadTooManySubscriptions = 0x80770000"
definition BadTooManyPublishRequests :: StatusCode where "BadTooManyPublishRequests = 0x80780000"
definition BadIndexRangeInvalid :: StatusCode where "BadIndexRangeInvalid = 0x80360000"
definition BadIndexRangeNoData :: StatusCode where "BadIndexRangeNoData = 0x80370000"
definition BadSecurityPolicyRejected :: StatusCode where "BadSecurityPolicyRejected = 0x80550000"

definition SecurityPolicyURINone :: string where
  "SecurityPolicyURINone = ''http://opcfoundation.org/UA/SecurityPolicy#None''"

lemmas status_code_defs [code_defs] =
  Good_def BadEncodingError_def BadDecodingError_def BadTimeout_def BadDataTypeIDUnknown_def
  BadNoContinuationPoints_def BadTooManySessions_def BadTooManySubscriptions_def
  BadTooManyPublishRequests_def BadIndexRangeInvalid_def BadIndexRangeNoData_def

section \<open>Little-endian byte order\<close>

text \<open>\<open>binary.LittleEndian.PutUintN\<close> and \<open>binary.LittleEndian.UintN\<close>.\<close>

definition le_bytes :: "nat \<Rightarrow> 'a::len word \<Rightarrow> bytes" where
  "le_bytes n v = map (\<lambda>i. ucast (drop_bit (8 * i) v)) [0..<n]"

fun le_word :: "bytes \<Rightarrow> 'a::len word" where
  "le_word [] = 0"
| "le_word (b # bs) = ucast b OR push_bit 8 (le_word bs)"

section \<open>Reading from a byte stream\<close>

text \<open>
  \<open>io.ReadFull(r, buf)\<close> with \<open>len(buf) = n\<close>: nothing is read for \<open>n = 0\<close>; a stream
  that ends early is consumed and the call fails.
\<close>

definition ReadFull :: "nat \<Rightarrow> (bytes, bytes) act" where
  "ReadFull n = (\<lambda>bs.
     if n \<le> length bs then (Ok (take n bs), drop n bs)
     else if bs = [] then (Err ErrEOF, [])
     else (Err ErrUnexpectedEOF, []))"

text \<open>\<open>for i := range temp { if err := read(&temp[i]); err != nil { return err } }\<close>\<close>

fun read_n :: "(bytes, 'a) act \<Rightarrow> nat \<Rightarrow> (bytes, 'a list) act" where
  "read_n rd 0 = ret []"
| "read_n rd (Suc n) = bnd rd (\<lambda>x. bnd (read_n rd n) (\<lambda>xs. ret (x # xs)))"

section \<open>Lemmas on actions\<close>

lemma bnd_ret [simp]: "bnd (ret x) f = f x"
  by (simp add: bnd_def ret_def)

lemma ret_apply [simp]: "ret x s = (Ok x, s)"
  by (simp add: ret_def)

lemma throw_apply [simp]: "throw e s = (Err e, s)"
  by (simp add: throw_def)

lemma panic_apply [simp]: "panic s = (Panic, s)"
  by (simp add: panic_def)

lemma nofuel_apply [simp]: "nofuel s = (NoFuel, s)"
  by (simp add: nofuel_def)

lemma bnd_Ok: "m s = (Ok x, s') \<Longrightarrow> bnd m f s = f x s'"
  by (simp add: bnd_def)

lemma bnd_Err: "m s = (Err e, s') \<Longrightarrow> bnd m f s = (Err e, s')"
  by (simp add: bnd_def)

lemma bnd_Panic: "m s = (Panic, s') \<Longrightarrow> bnd m f s = (Panic, s')"
  by (simp add: bnd_def)

lemma andthen_Ok: "m s = (Ok (), s') \<Longrightarrow> andthen m n s = n s'"
  by (simp add: andthen_def bnd_def)

lemma andthen_Err: "m s = (Err e, s') \<Longrightarrow> andthen m n s = (Err e, s')"
  by (simp add: andthen_def bnd_def)

lemma orfail_Ok: "m s = (Ok x, s') \<Longrightarrow> orfail e m s = (Ok x, s')"
  by (simp add: orfail_def)

lemma orfail_Err: "m s = (Err e', s') \<Longrightarrow> orfail e m s = (Err e, s')"
  by (simp add: orfail_def)

lemma orfail_Panic: "m s = (Panic, s') \<Longrightarrow> orfail e m s = (Panic, s')"
  by (simp add: orfail_def)

lemma bnd_eq_Ok_conv:
  "bnd m f s = (Ok y, s'') \<longleftrightarrow> (\<exists>x s'. m s = (Ok x, s') \<and> f x s' = (Ok y, s''))"
  by (auto simp: bnd_def split: prod.splits res.splits)

lemma orfail_eq_Ok_conv [simp]: "orfail e m s = (Ok y, s') \<longleftrightarrow> m s = (Ok y, s')"
  by (auto simp: orfail_def split: prod.splits res.splits)

lemmas act_Ok_simps [act_simps] = bnd_Ok andthen_Ok orfail_Ok
lemmas act_Err_simps [act_simps] = bnd_Err andthen_Err orfail_Err

section \<open>Lemmas on little-endian bytes\<close>

lemma length_le_bytes [simp]: "length (le_bytes n v) = n"
  by (simp add: le_bytes_def)

lemma le_bytes_eq_Nil_iff [simp]: "le_bytes n v = [] \<longleftrightarrow> n = 0"
  by (simp add: le_bytes_def)

lemma bit_le_word:
  "bit (le_word bs :: 'a::len word) k \<longleftrightarrow>
     k < LENGTH('a) \<and> k < 8 * length bs \<and> bit (bs ! (k div 8)) (k mod 8)"
proof (induction bs arbitrary: k)
  case Nil
  then show ?case by simp
next
  case (Cons b bs)
  show ?case
  proof (cases "k < 8")
    case True
    then show ?thesis by (simp add: bit_simps) 
  next
    case False
    then have k: "k div 8 = Suc ((k - 8) div 8)" "k mod 8 = (k - 8) mod 8"
      by (simp_all add: le_div_geq le_mod_geq)
    have "\<not> bit b k" using False bit_imp_le_length [of b k] by auto
    with False show ?thesis
      by (auto simp: bit_simps Cons.IH k)
  qed
qed

lemma nth_le_bytes: "i < n \<Longrightarrow> le_bytes n v ! i = ucast (drop_bit (8 * i) v)"
  by (simp add: le_bytes_def)

lemma le_word_le_bytes:
  assumes "8 * n = LENGTH('a::len)"
  shows "le_word (le_bytes n (v :: 'a word)) = v"
proof (rule bit_word_eqI)
  fix k assume k: "k < LENGTH('a)"
  with assms have d: "k div 8 < n" by simp
  have "8 * (k div 8) + k mod 8 = k" by simp
  with k d assms show "bit (le_word (le_bytes n v) :: 'a word) k = bit v k"
    by (simp add: bit_le_word nth_le_bytes bit_simps)
qed

lemma le_bytes_le_word:
  assumes "length bs = n" and "8 * n \<le> LENGTH('a::len)"
  shows "le_bytes n (le_word bs :: 'a word) = bs"
proof (rule nth_equalityI)
  fix i assume "i < length (le_bytes n (le_word bs :: 'a word))"
  then have i: "i < n" by simp
  show "le_bytes n (le_word bs :: 'a word) ! i = bs ! i"
  proof (rule bit_word_eqI)
    fix k assume k: "k < LENGTH(8)"
    with i have "8 * i + k < 8 * n" by simp
    then show "bit (le_bytes n (le_word bs :: 'a word) ! i) k = bit (bs ! i) k"
      using i k assms by (simp add: nth_le_bytes bit_simps bit_le_word)
  qed
qed (use assms in simp)

section \<open>Lemmas on reading\<close>

lemma ReadFull_append [simp]: "length p = n \<Longrightarrow> ReadFull n (p @ rest) = (Ok p, rest)"
  by (simp add: ReadFull_def)

lemma ReadFull_0 [simp]: "ReadFull 0 bs = (Ok [], bs)"
  by (simp add: ReadFull_def)

lemma ReadFull_no_panic [simp]:
  "fst (ReadFull n bs) \<noteq> Panic" "fst (ReadFull n bs) \<noteq> NoFuel"
  by (simp_all add: ReadFull_def)

lemma ReadFull_OkD: "ReadFull n bs = (Ok x, bs') \<Longrightarrow> bs = x @ bs' \<and> length x = n"
  by (auto simp: ReadFull_def split: if_splits)

text \<open>What is left of a stream after a read is a suffix of it.\<close>

definition consumes :: "(bytes, 'a) act \<Rightarrow> bool" where
  "consumes m \<longleftrightarrow> (\<forall>bs. suffix (snd (m bs)) bs)"

lemma consumesD: "consumes m \<Longrightarrow> suffix (snd (m bs)) bs"
  by (simp add: consumes_def)

lemma consumes_ReadFull [intro, simp]: "consumes (ReadFull n)"
  by (auto simp: consumes_def ReadFull_def suffix_drop)

lemma consumes_basic [intro, simp]:
  "consumes (ret x)" "consumes (throw e)" "consumes panic" "consumes nofuel"
  by (simp_all add: consumes_def)

lemma consumes_bnd [intro]:
  assumes "consumes m" and "\<And>x. consumes (f x)"
  shows "consumes (bnd m f)"
proof (unfold consumes_def, intro allI)
  fix bs
  obtain r s' where m: "m bs = (r, s')" by (cases "m bs")
  with consumesD [OF assms(1), of bs] have s': "suffix s' bs" by simp
  show "suffix (snd (bnd m f bs)) bs"
  proof (cases r)
    case (Ok x)
    with m have "bnd m f bs = f x s'" by (simp add: bnd_def)
    with s' consumesD [OF assms(2)] show ?thesis
      by (auto intro: suffix_order.trans)
  qed (use m s' in \<open>auto simp: bnd_def\<close>)
qed

lemma consumes_andthen [intro]: "consumes m \<Longrightarrow> consumes n \<Longrightarrow> consumes (andthen m n)"
  unfolding andthen_def by (rule consumes_bnd)

lemma consumes_orfail [intro]: "consumes m \<Longrightarrow> consumes (orfail e m)"
  by (auto simp: consumes_def orfail_def split: prod.splits res.splits)
     (metis snd_conv)+

lemma consumes_if [intro]: "consumes m \<Longrightarrow> consumes n \<Longrightarrow> consumes (if c then m else n)"
  by simp

lemma consumes_read_n [intro]: "consumes rd \<Longrightarrow> consumes (read_n rd n)"
  by (induction n) auto

lemma read_n_map:
  assumes "\<And>x rest. x \<in> set xs \<Longrightarrow> rd (f x @ rest) = (Ok (g x), rest)"
  shows "read_n rd (length xs) (concat (map f xs) @ rest) = (Ok (map g xs), rest)"
  using assms
proof (induction xs)
  case Nil
  then show ?case by simp
next
  case (Cons x xs)
  then have "rd (f x @ concat (map f xs) @ rest) = (Ok (g x), concat (map f xs) @ rest)"
    by simp
  with Cons show ?case by (simp add: bnd_Ok)
qed

lemma sint_int32_len:
  assumes "n < 2 ^ 31"
  shows "sint (word_of_nat n :: 32 word) = int n"
proof -
  have "signed_take_bit 31 (int n) = int n"
    using assms by (simp add: signed_take_bit_int_eq_self_iff)
  then show ?thesis by (simp add: signed_of_nat)
qed

end
