(* ===== verification/Go_Text.thy ===== *)
theory Go_Text
  imports Prelude
begin

text \<open>
  The parts of Go's standard library that the textual forms use: strings as byte
  sequences, \<open>strings.HasPrefix\<close>, \<open>strings.Index\<close> and \<open>strings.Split\<close> for a one-byte
  separator, decimal printing (\<open>%d\<close>), \<open>strconv.ParseUint(s, 10, bits)\<close> and
  \<open>base64.StdEncoding\<close>. Each comes with the round trip its callers need.
\<close>

section \<open>Strings and bytes\<close>

definition str_bytes :: "string \<Rightarrow> bytes" where
  "str_bytes s = map (\<lambda>c. word_of_nat (of_char c)) s"

definition bytes_str :: "bytes \<Rightarrow> string" where
  "bytes_str bs = map (\<lambda>b. char_of (unat b)) bs"

lemma length_str_bytes [simp]: "length (str_bytes s) = length s"
  by (simp add: str_bytes_def)

lemma str_bytes_eq_Nil_iff [simp]: "str_bytes s = [] \<longleftrightarrow> s = []"
  by (simp add: str_bytes_def)

lemma unat_of_char: "unat (word_of_nat (of_char c) :: byte) = of_char c"
  by (simp add: unat_of_nat)

lemma bytes_str_str_bytes [simp]: "bytes_str (str_bytes s) = s"
  by (induction s) (simp_all add: str_bytes_def bytes_str_def unat_of_char del: unat_of_nat)

lemma str_bytes_bytes_str [simp]: "str_bytes (bytes_str bs) = bs"
proof (induction bs)
  case Nil
  then show ?case by (simp add: str_bytes_def bytes_str_def)
next
  case (Cons b bs)
  have "unat b < 256" using unsigned_less [of b, where ?'a = nat] by simp
  then have "(of_char (char_of (unat b) :: char) :: nat) = unat b" by (simp add: of_char_of)
  with Cons show ?case by (simp add: str_bytes_def bytes_str_def)
qed

section \<open>Searching\<close>

definition HasPrefix :: "string \<Rightarrow> string \<Rightarrow> bool" where
  "HasPrefix s p \<longleftrightarrow> take (length p) s = p"

text \<open>\<open>strings.Index(s, c)\<close> for a single character; \<open>None\<close> is \<open>-1\<close>.\<close>

fun Index :: "string \<Rightarrow> char \<Rightarrow> nat option" where
  "Index [] c = None"
| "Index (x # xs) c = (if x = c then Some 0 else map_option Suc (Index xs c))"

text \<open>\<open>strings.Split(s, sep)\<close> for a one-character separator: always at least one piece.\<close>

fun Split :: "string \<Rightarrow> char \<Rightarrow> string list" where
  "Split [] c = [[]]"
| "Split (x # xs) c =
     (if x = c then [] # Split xs c
      else case Split xs c of p # ps \<Rightarrow> (x # p) # ps | [] \<Rightarrow> [[x]])"

lemma Index_append: "c \<notin> set xs \<Longrightarrow> Index (xs @ c # ys) c = Some (length xs)"
  by (induction xs) auto

lemma Index_None: "Index xs c = None \<longleftrightarrow> c \<notin> set xs"
  by (induction xs) auto

lemma HasPrefix_append [simp]: "HasPrefix (p @ s) p"
  by (simp add: HasPrefix_def)

lemma Split_nonempty [simp]: "Split s c \<noteq> []"
  by (cases s) (auto split: list.splits)

lemma Split_no_sep: "c \<notin> set s \<Longrightarrow> Split s c = [s]"
  by (induction s) auto

lemma Split_append: "c \<notin> set s \<Longrightarrow> Split (s @ c # t) c = s # Split t c"
  by (induction s) auto

section \<open>Decimal numbers\<close>

definition digit_char :: "nat \<Rightarrow> char" where
  "digit_char d = char_of (48 + d)"

definition digit_val :: "char \<Rightarrow> nat option" where
  "digit_val c = (let n = of_char c in if 48 \<le> n \<and> n \<le> 57 then Some (n - 48) else None)"

fun show_nat :: "nat \<Rightarrow> string" where
  "show_nat n = (if n < 10 then [digit_char n] else show_nat (n div 10) @ [digit_char (n mod 10)])"

declare show_nat.simps [simp del]

text \<open>
  \<open>strconv.ParseUint(s, 10, bits)\<close>: the value and the error. A syntax error gives
  0, a value above \<open>maxVal = 2 ^ bits - 1\<close> gives \<open>maxVal\<close>; the scan stops at the
  first error.
\<close>

datatype numerr = ErrSyntax | ErrRange

fun parse_digits :: "nat \<Rightarrow> nat \<Rightarrow> string \<Rightarrow> nat \<times> numerr option" where
  "parse_digits maxVal n [] = (n, None)"
| "parse_digits maxVal n (c # cs) =
     (case digit_val c of
        None \<Rightarrow> (0, Some ErrSyntax)
      | Some d \<Rightarrow> if n * 10 + d > maxVal then (maxVal, Some ErrRange)
                  else parse_digits maxVal (n * 10 + d) cs)"

definition ParseUint :: "string \<Rightarrow> nat \<Rightarrow> nat \<times> numerr option" where
  "ParseUint s bits = (if s = [] then (0, Some ErrSyntax) else parse_digits (2 ^ bits - 1) 0 s)"

lemma digit_val_digit_char [simp]: "d < 10 \<Longrightarrow> digit_val (digit_char d) = Some d"
  by (simp add: digit_val_def digit_char_def of_char_of)

lemma digit_char_range: "d < 10 \<Longrightarrow> 48 \<le> (of_char (digit_char d) :: nat) \<and> (of_char (digit_char d) :: nat) \<le> 57"
  by (simp add: digit_char_def of_char_of)

lemma show_nat_nonempty [simp]: "show_nat n \<noteq> []"
  by (subst show_nat.simps) simp

lemma show_nat_chars: "c \<in> set (show_nat n) \<Longrightarrow> 48 \<le> (of_char c :: nat) \<and> (of_char c :: nat) \<le> 57"
proof (induction n rule: show_nat.induct)
  case (1 n)
  show ?case
  proof (cases "n < 10")
    case True
    with "1.prems" show ?thesis by (simp add: show_nat.simps [of n] digit_char_range)
  next
    case False
    with 1 show ?thesis by (auto simp: show_nat.simps [of n] digit_char_range)
  qed
qed

lemma show_nat_no_sep [simp]:
  "CHR '';'' \<notin> set (show_nat n)" "CHR '':'' \<notin> set (show_nat n)"
  using show_nat_chars [of "CHR '';''" n] show_nat_chars [of "CHR '':''" n] by auto

lemma parse_digits_append:
  "parse_digits m n xs = (k, None) \<Longrightarrow> parse_digits m n (xs @ ys) = parse_digits m k ys"
  by (induction xs arbitrary: n) (auto split: option.splits if_splits)

lemma parse_digits_show_nat: "n \<le> m \<Longrightarrow> parse_digits m 0 (show_nat n) = (n, None)"
proof (induction n rule: show_nat.induct)
  case (1 n)
  show ?case
  proof (cases "n < 10")
    case True
    with "1.prems" show ?thesis by (simp add: show_nat.simps [of n])
  next
    case False
    then have "parse_digits m 0 (show_nat (n div 10)) = (n div 10, None)"
      using 1 by simp
    then have "parse_digits m 0 (show_nat n) = parse_digits m (n div 10) [digit_char (n mod 10)]"
      using False by (simp add: show_nat.simps [of n] parse_digits_append)
    also have "\<dots> = (n, None)"
      using "1.prems" by (simp add: mult.commute)
    finally show ?thesis .
  qed
qed

lemma ParseUint_show_nat: "n < 2 ^ bits \<Longrightarrow> ParseUint (show_nat n) bits = (n, None)"
  by (simp add: ParseUint_def parse_digits_show_nat)

lemma parse_digits_bound: "n \<le> m \<Longrightarrow> fst (parse_digits m n s) \<le> m"
  by (induction s arbitrary: n) (auto split: option.splits)

lemma ParseUint_bound: "fst (ParseUint s bits) < 2 ^ bits"
proof -
  have "fst (parse_digits (2 ^ bits - 1) 0 s) \<le> 2 ^ bits - 1"
    by (rule parse_digits_bound) simp
  moreover have "(2 ^ bits - 1 :: nat) < 2 ^ bits" by simp
  ultimately have "fst (parse_digits (2 ^ bits - 1) 0 s) < 2 ^ bits" by (rule le_less_trans)
  then show ?thesis by (simp add: ParseUint_def)
qed

section \<open>Base64\<close>

definition b64_alphabet :: string where
  "b64_alphabet = ''ABCDEFGHIJKLMNOPQRSTUVWXYZabcdefghijklmnopqrstuvwxyz0123456789+/''"

definition b64_char :: "nat \<Rightarrow> char" where
  "b64_char i = b64_alphabet ! i"

definition b64_val :: "char \<Rightarrow> nat option" where
  "b64_val c = Index b64_alphabet c"

fun b64_encode :: "bytes \<Rightarrow> string" where
  "b64_encode [] = []"
| "b64_encode [a] =
     [b64_char (unat a div 4), b64_char (unat a mod 4 * 16), CHR ''='', CHR ''='']"
| "b64_encode [a, b] =
     [b64_char (unat a div 4), b64_char (unat a mod 4 * 16 + unat b div 16),
      b64_char (unat b mod 16 * 4), CHR ''='']"
| "b64_encode (a # b # c # bs) =
     b64_char (unat a div 4) # b64_char (unat a mod 4 * 16 + unat b div 16)
     # b64_char (unat b mod 16 * 4 + unat c div 64) # b64_char (unat c mod 64)
     # b64_encode bs"

text \<open>One group of four characters, padding only in the last group.\<close>

fun b64_decode_groups :: "string \<Rightarrow> bytes option" where
  "b64_decode_groups [] = Some []"
| "b64_decode_groups (w # x # y # z # r) =
     (case (b64_val w, b64_val x) of
        (Some i, Some j) \<Rightarrow>
          (if y = CHR ''='' then
             (if z = CHR ''='' \<and> r = [] then Some [word_of_nat (i * 4 + j div 16)] else None)
           else case b64_val y of
             None \<Rightarrow> None
           | Some k \<Rightarrow>
               (if z = CHR ''='' then
                  (if r = [] then
                     Some [word_of_nat (i * 4 + j div 16), word_of_nat (j mod 16 * 16 + k div 4)]
                   else None)
                else case (b64_val z, b64_decode_groups r) of
                  (Some l, Some bs) \<Rightarrow>
                    Some (word_of_nat (i * 4 + j div 16) # word_of_nat (j mod 16 * 16 + k div 4)
                          # word_of_nat (k mod 4 * 64 + l) # bs)
                | _ \<Rightarrow> None))
      | _ \<Rightarrow> None)"
| "b64_decode_groups _ = None"

text \<open>The decoder skips carriage returns and line feeds.\<close>

definition b64_decode :: "string \<Rightarrow> bytes option" where
  "b64_decode s = b64_decode_groups (filter (\<lambda>c. c \<noteq> CHR 0x0A \<and> c \<noteq> CHR 0x0D) s)"

lemma b64_alphabet_facts:
  "length b64_alphabet = 64" "distinct b64_alphabet"
  "CHR ''='' \<notin> set b64_alphabet" "CHR 0x0A \<notin> set b64_alphabet" "CHR 0x0D \<notin> set b64_alphabet"
  by (simp_all add: b64_alphabet_def)

lemma Index_nth: "distinct xs \<Longrightarrow> i < length xs \<Longrightarrow> Index xs (xs ! i) = Some i"
proof (induction xs arbitrary: i)
  case Nil
  then show ?case by simp
next
  case (Cons x xs)
  then show ?case by (cases i) auto
qed

lemma b64_val_char [simp]: "i < 64 \<Longrightarrow> b64_val (b64_char i) = Some i"
  by (simp add: b64_val_def b64_char_def Index_nth b64_alphabet_facts)

lemma b64_char_neq [simp]:
  assumes "i < 64"
  shows "b64_char i \<noteq> CHR ''=''" "b64_char i \<noteq> CHR 0x0A" "b64_char i \<noteq> CHR 0x0D"
proof -
  have "b64_char i \<in> set b64_alphabet"
    using assms by (simp add: b64_char_def b64_alphabet_facts)
  then show "b64_char i \<noteq> CHR ''=''" "b64_char i \<noteq> CHR 0x0A" "b64_char i \<noteq> CHR 0x0D"
    using b64_alphabet_facts by metis+
qed

lemma byte_parts:
  fixes a :: byte
  shows "unat a div 4 < 64" "unat a div 16 < 16" "unat a div 64 < 4" "unat a < 256"
  using unsigned_less [of a, where ?'a = nat] by (simp_all add: div_less_iff_less_mult)

lemma b64_index_bounds:
  fixes a b :: byte
  shows "unat a mod 4 * 16 < 64" "unat a mod 4 * 16 + unat b div 16 < 64"
    "unat a mod 16 * 4 < 64" "unat a mod 16 * 4 + unat b div 64 < 64"
proof -
  have "unat a mod 4 < 4" "unat a mod 16 < 16" by simp_all
  with byte_parts [of b] show "unat a mod 4 * 16 < 64" "unat a mod 4 * 16 + unat b div 16 < 64"
    "unat a mod 16 * 4 < 64" "unat a mod 16 * 4 + unat b div 64 < 64"
    by linarith+
qed

lemma b64_index_arith:
  "(m * 16 + q) div 16 = m" "(m * 16 + q) mod 16 = q"  if "q < 16" for m q :: nat
  using that by simp_all

lemma b64_index_arith4:
  "(m * 4 + q) div 4 = m" "(m * 4 + q) mod 4 = q"  if "q < 4" for m q :: nat
  using that by simp_all

lemmas b64_simps = b64_index_bounds b64_index_arith b64_index_arith4 byte_parts

lemma b64_encode_no_newline:
  "c \<in> set (b64_encode bs) \<Longrightarrow> c \<noteq> CHR 0x0A \<and> c \<noteq> CHR 0x0D"
  by (induction bs rule: b64_encode.induct) (auto simp: b64_simps)

lemma b64_decode_groups_encode: "b64_decode_groups (b64_encode bs) = Some bs"
proof (induction bs rule: b64_encode.induct)
  case (4 a b c bs)
  then show ?case by (simp add: b64_simps)
qed (simp_all add: b64_simps)

lemma b64_decode_encode: "b64_decode (b64_encode bs) = Some bs"
proof -
  have "filter (\<lambda>c. c \<noteq> CHR 0x0A \<and> c \<noteq> CHR 0x0D) (b64_encode bs) = b64_encode bs"
    by (rule filter_True) (use b64_encode_no_newline in blast)
  then show ?thesis by (simp add: b64_decode_def b64_decode_groups_encode)
qed

end
