(* ===== verification/Identifiers.thy ===== *)
theory Identifiers
  imports Go_Text
begin

text \<open>
  Identifiers and names of the OPC UA data model (\<open>ua/nodeid.go\<close>,
  \<open>ua/expanded_nodeid.go\<close>, \<open>ua/qualified_name.go\<close>, \<open>ua/localized_text.go\<close>): the
  data types, their textual forms, and the conversions between node ids and
  expanded node ids through a table of namespace URIs. The text form of a GUID
  belongs to the third-party \<open>uuid\<close> package and is a parameter.
\<close>

section \<open>Data\<close>

text \<open>\<open>uuid.UUID\<close> is an array of 16 bytes.\<close>

datatype UUID = UUID byte byte byte byte byte byte byte byte byte byte byte byte byte byte byte byte

definition nilGuid :: UUID where
  "nilGuid = UUID 0 0 0 0 0 0 0 0 0 0 0 0 0 0 0 0"

type_synonym ByteString = bytes

datatype NodeID =
    NodeIDNumeric u16 u32
  | NodeIDString u16 string
  | NodeIDGUID u16 UUID
  | NodeIDOpaque u16 ByteString

record ExpandedNodeID =
  en_ServerIndex :: u32
  en_NamespaceURI :: string
  en_NodeID :: "NodeID option"

record QualifiedName =
  qn_NamespaceIndex :: u16
  qn_Name :: string

record LocalizedText =
  lt_Text :: string
  lt_Locale :: string

fun NamespaceIndex :: "NodeID \<Rightarrow> u16" where
  "NamespaceIndex (NodeIDNumeric ns _) = ns"
| "NamespaceIndex (NodeIDString ns _) = ns"
| "NamespaceIndex (NodeIDGUID ns _) = ns"
| "NamespaceIndex (NodeIDOpaque ns _) = ns"

fun with_ns :: "u16 \<Rightarrow> NodeID \<Rightarrow> NodeID" where
  "with_ns ns (NodeIDNumeric _ i) = NodeIDNumeric ns i"
| "with_ns ns (NodeIDString _ i) = NodeIDString ns i"
| "with_ns ns (NodeIDGUID _ i) = NodeIDGUID ns i"
| "with_ns ns (NodeIDOpaque _ i) = NodeIDOpaque ns i"

definition NewExpandedNodeID :: "NodeID option \<Rightarrow> ExpandedNodeID" where
  "NewExpandedNodeID n = \<lparr>en_ServerIndex = 0, en_NamespaceURI = [], en_NodeID = n\<rparr>"

definition NilExpandedNodeID :: ExpandedNodeID where
  "NilExpandedNodeID = \<lparr>en_ServerIndex = 0, en_NamespaceURI = [], en_NodeID = None\<rparr>"

section \<open>Node ids as text\<close>

definition ns_prefix :: "u16 \<Rightarrow> string" where
  "ns_prefix ns = (if ns = 0 then [] else ''ns='' @ show_nat (unat ns) @ '';'')"

fun NodeID_String :: "(UUID \<Rightarrow> string) \<Rightarrow> NodeID \<Rightarrow> string" where
  "NodeID_String ushow (NodeIDNumeric ns i) = ns_prefix ns @ ''i='' @ show_nat (unat i)"
| "NodeID_String ushow (NodeIDString ns i) = ns_prefix ns @ ''s='' @ i"
| "NodeID_String ushow (NodeIDGUID ns i) = ns_prefix ns @ ''g='' @ ushow i"
| "NodeID_String ushow (NodeIDOpaque ns i) = ns_prefix ns @ ''b='' @ b64_encode i"

text \<open>The part of \<open>ParseNodeID\<close> after the namespace index.\<close>

definition parse_node_id_body :: "(string \<Rightarrow> UUID option) \<Rightarrow> nat \<Rightarrow> string \<Rightarrow> NodeID option" where
  "parse_node_id_body uparse ns s =
     (if HasPrefix s ''i='' then
        (case ParseUint (drop 2 s) 32 of
           (i, Some _) \<Rightarrow> None
         | (i, None) \<Rightarrow> if i = 0 \<and> ns = 0 then None
                        else Some (NodeIDNumeric (word_of_nat ns) (word_of_nat i)))
      else if HasPrefix s ''s='' then Some (NodeIDString (word_of_nat ns) (drop 2 s))
      else if HasPrefix s ''g='' then
        map_option (NodeIDGUID (word_of_nat ns)) (uparse (drop 2 s))
      else if HasPrefix s ''b='' then
        map_option (NodeIDOpaque (word_of_nat ns)) (b64_decode (drop 2 s))
      else None)"

definition ParseNodeID :: "(string \<Rightarrow> UUID option) \<Rightarrow> string \<Rightarrow> NodeID option" where
  "ParseNodeID uparse s =
     (if HasPrefix s ''ns='' then
        (case Index s (CHR '';'') of
           None \<Rightarrow> None
         | Some pos \<Rightarrow>
             (case ParseUint (drop 3 (take pos s)) 16 of
                (ns, Some _) \<Rightarrow> None
              | (ns, None) \<Rightarrow> parse_node_id_body uparse ns (drop (pos + 1) s)))
      else parse_node_id_body uparse 0 s)"

section \<open>Expanded node ids as text\<close>

definition ExpandedNodeID_String :: "(UUID \<Rightarrow> string) \<Rightarrow> ExpandedNodeID \<Rightarrow> string" where
  "ExpandedNodeID_String ushow n =
     (if en_ServerIndex n > 0 then ''svr='' @ show_nat (unat (en_ServerIndex n)) @ '';'' else []) @
     (if length (en_NamespaceURI n) > 0 then ''nsu='' @ en_NamespaceURI n @ '';'' else []) @
     (case en_NodeID n of Some n2 \<Rightarrow> NodeID_String ushow n2 | None \<Rightarrow> ''i=0'')"

text \<open>The part of \<open>ParseExpandedNodeID\<close> after the server index.\<close>

definition parse_expanded_rest :: "(string \<Rightarrow> UUID option) \<Rightarrow> nat \<Rightarrow> string \<Rightarrow> ExpandedNodeID" where
  "parse_expanded_rest uparse svr s =
     (if HasPrefix s ''nsu='' then
        (case Index s (CHR '';'') of
           None \<Rightarrow> NilExpandedNodeID
         | Some pos \<Rightarrow>
             \<lparr>en_ServerIndex = word_of_nat svr, en_NamespaceURI = drop 4 (take pos s),
              en_NodeID = ParseNodeID uparse (drop (pos + 1) s)\<rparr>)
      else \<lparr>en_ServerIndex = word_of_nat svr, en_NamespaceURI = [],
            en_NodeID = ParseNodeID uparse s\<rparr>)"

definition ParseExpandedNodeID :: "(string \<Rightarrow> UUID option) \<Rightarrow> string \<Rightarrow> ExpandedNodeID" where
  "ParseExpandedNodeID uparse s =
     (if HasPrefix s ''svr='' then
        (case Index s (CHR '';'') of
           None \<Rightarrow> NilExpandedNodeID
         | Some pos \<Rightarrow>
             (case ParseUint (drop 4 (take pos s)) 32 of
                (svr, Some _) \<Rightarrow> NilExpandedNodeID
              | (svr, None) \<Rightarrow> parse_expanded_rest uparse svr (drop (pos + 1) s)))
      else parse_expanded_rest uparse 0 s)"

section \<open>Qualified names and localized text as text\<close>

definition QualifiedName_String :: "QualifiedName \<Rightarrow> string" where
  "QualifiedName_String a = show_nat (unat (qn_NamespaceIndex a)) @ '':'' @ qn_Name a"

text \<open>
  On a range error \<open>strconv.ParseUint\<close> still returns its maximum, and the source
  uses that value as the namespace index of the unparsed name.
\<close>

definition ParseQualifiedName :: "string \<Rightarrow> QualifiedName" where
  "ParseQualifiedName s =
     (case Index s (CHR '':'') of
        None \<Rightarrow> \<lparr>qn_NamespaceIndex = 0, qn_Name = s\<rparr>
      | Some pos \<Rightarrow>
          (case ParseUint (take pos s) 16 of
             (ns, Some _) \<Rightarrow> \<lparr>qn_NamespaceIndex = word_of_nat ns, qn_Name = s\<rparr>
           | (ns, None) \<Rightarrow> \<lparr>qn_NamespaceIndex = word_of_nat ns, qn_Name = drop (pos + 1) s\<rparr>))"

definition ParseBrowsePath :: "string \<Rightarrow> QualifiedName list" where
  "ParseBrowsePath s =
     (if length s = 0 then [] else map ParseQualifiedName (Split s (CHR ''/'')))"

definition LocalizedText_String :: "LocalizedText \<Rightarrow> string" where
  "LocalizedText_String a =
     (if lt_Locale a = [] then lt_Text a else lt_Text a @ '' ('' @ lt_Locale a @ '')'')"

section \<open>Conversions through the namespace table\<close>

text \<open>\<open>uint16(len(namespaceURIs))\<close> wraps at 65536 entries.\<close>

definition ToExpandedNodeID :: "NodeID option \<Rightarrow> string list \<Rightarrow> ExpandedNodeID" where
  "ToExpandedNodeID n uris =
     (case n of
        None \<Rightarrow> NilExpandedNodeID
      | Some n2 \<Rightarrow>
          if NamespaceIndex n2 > 0 \<and> NamespaceIndex n2 < word_of_nat (length uris) then
            \<lparr>en_ServerIndex = 0, en_NamespaceURI = uris ! unat (NamespaceIndex n2),
             en_NodeID = Some (with_ns 0 n2)\<rparr>
          else \<lparr>en_ServerIndex = 0, en_NamespaceURI = [], en_NodeID = Some n2\<rparr>)"

fun find_uri :: "string list \<Rightarrow> string \<Rightarrow> nat \<Rightarrow> nat option" where
  "find_uri [] u i = None"
| "find_uri (x # xs) u i = (if x = u then Some i else find_uri xs u (i + 1))"

definition ToNodeID :: "ExpandedNodeID \<Rightarrow> string list \<Rightarrow> NodeID option" where
  "ToNodeID n uris =
     (if en_NamespaceURI n = [] then en_NodeID n
      else case find_uri uris (en_NamespaceURI n) 0 of
        None \<Rightarrow> None
      | Some i \<Rightarrow> map_option (with_ns (word_of_nat i)) (en_NodeID n))"

section \<open>Lemmas on text\<close>

lemma unat_less_pow [simp]: "unat (x :: u16) < 65536" "unat (y :: u32) < 4294967296"
  using unsigned_less [of x, where ?'a = nat] unsigned_less [of y, where ?'a = nat] by simp_all

lemma drop_Suc_length_append: "drop (Suc (length xs)) (xs @ c # ys) = ys"
  by simp

lemma parse_node_id_prefix:
  assumes "c \<noteq> CHR ''n''"
  shows "ParseNodeID uparse (ns_prefix ns @ c # r) = parse_node_id_body uparse (unat ns) (c # r)"
proof (cases "ns = 0")
  case True
  have "\<not> HasPrefix (c # r) ''ns=''"
    using assms by (simp add: HasPrefix_def)
  with True show ?thesis by (simp add: ns_prefix_def ParseNodeID_def)
next
  case False
  let ?d = "''ns='' @ show_nat (unat ns)"
  have eq: "ns_prefix ns @ c # r = ?d @ CHR '';'' # c # r" using False by (simp add: ns_prefix_def)
  have idx: "Index (?d @ CHR '';'' # c # r) (CHR '';'') = Some (length ?d)"
    by (rule Index_append) simp
  have "ParseUint (show_nat (unat ns)) 16 = (unat ns, None)"
    by (rule ParseUint_show_nat) simp
  then show ?thesis
    unfolding eq ParseNodeID_def idx by (simp add: HasPrefix_def)
qed

definition nodeid_canonical :: "NodeID \<Rightarrow> bool" where
  "nodeid_canonical n \<longleftrightarrow> n \<noteq> NodeIDNumeric 0 0"

lemma ParseNodeID_String:
  assumes "\<And>u. uparse (ushow u) = Some u" and "nodeid_canonical n"
  shows "ParseNodeID uparse (NodeID_String ushow n) = Some n"
proof (cases n)
  case (NodeIDNumeric ns i)
  have "ParseUint (show_nat (unat i)) 32 = (unat i, None)"
    by (rule ParseUint_show_nat) simp
  moreover have "unat i = 0 \<longrightarrow> unat ns \<noteq> 0"
    using assms(2) NodeIDNumeric by (auto simp: nodeid_canonical_def unat_eq_zero)
  ultimately have "parse_node_id_body uparse (unat ns) (''i='' @ show_nat (unat i)) = Some n"
    using NodeIDNumeric by (auto simp: parse_node_id_body_def HasPrefix_def)
  then show ?thesis
    using NodeIDNumeric by (simp add: parse_node_id_prefix)
next
  case (NodeIDString ns i)
  then show ?thesis by (simp add: parse_node_id_prefix parse_node_id_body_def HasPrefix_def)
next
  case (NodeIDGUID ns i)
  then show ?thesis
    by (simp add: parse_node_id_prefix parse_node_id_body_def HasPrefix_def assms(1))
next
  case (NodeIDOpaque ns i)
  then show ?thesis
    by (simp add: parse_node_id_prefix parse_node_id_body_def HasPrefix_def b64_decode_encode)
qed

lemma NodeID_String_heads:
  "\<exists>c cs. NodeID_String ushow n = c # cs \<and> c \<in> set ''nisgb''
      \<and> \<not> HasPrefix (NodeID_String ushow n) ''nsu=''"
  by (cases n) (auto simp: ns_prefix_def HasPrefix_def)

lemma parse_expanded_rest_String:
  assumes "CHR '';'' \<notin> set uri" and "ParseNodeID uparse t = n" and "\<not> HasPrefix t ''nsu=''"
  shows "parse_expanded_rest uparse svr ((if length uri > 0 then ''nsu='' @ uri @ '';'' else []) @ t)
       = \<lparr>en_ServerIndex = word_of_nat svr, en_NamespaceURI = uri, en_NodeID = n\<rparr>"
proof (cases "uri = []")
  case True
  with assms show ?thesis by (simp add: parse_expanded_rest_def)
next
  case False
  let ?d = "''nsu='' @ uri"
  have idx: "Index (?d @ CHR '';'' # t) (CHR '';'') = Some (length ?d)"
    by (rule Index_append) (use assms in simp)
  have eq: "(if length uri > 0 then ''nsu='' @ uri @ '';'' else []) @ t = ?d @ CHR '';'' # t"
    using False by simp
  show ?thesis
    unfolding eq parse_expanded_rest_def idx using assms(2) by (simp add: HasPrefix_def)
qed

lemma ParseExpandedNodeID_String:
  assumes u: "\<And>u. uparse (ushow u) = Some u"
    and n: "\<And>n. en_NodeID e = Some n \<Longrightarrow> nodeid_canonical n"
    and uri: "CHR '';'' \<notin> set (en_NamespaceURI e)"
  shows "ParseExpandedNodeID uparse (ExpandedNodeID_String ushow e) = e"
proof -
  let ?t = "case en_NodeID e of Some n2 \<Rightarrow> NodeID_String ushow n2 | None \<Rightarrow> ''i=0''"
  let ?r = "(if length (en_NamespaceURI e) > 0 then ''nsu='' @ en_NamespaceURI e @ '';'' else []) @ ?t"
  have "ParseNodeID uparse ''i=0'' = None"
    by (simp add: ParseNodeID_def parse_node_id_body_def HasPrefix_def ParseUint_def digit_val_def)
  then have t: "ParseNodeID uparse ?t = en_NodeID e"
    using n by (auto simp: ParseNodeID_String [OF u] split: option.splits)
  have nsu: "\<not> HasPrefix ?t ''nsu=''"
    using NodeID_String_heads [of ushow] by (auto simp: HasPrefix_def split: option.splits)
  note rest = parse_expanded_rest_String [OF uri t nsu]
  show ?thesis
  proof (cases "en_ServerIndex e = 0")
    case True
    have "\<not> HasPrefix ?r ''svr=''"
    proof (cases "en_NamespaceURI e")
      case Nil
      then show ?thesis
        by (cases "en_NodeID e"; cases "the (en_NodeID e)")
           (auto simp: HasPrefix_def ns_prefix_def)
    qed (simp add: HasPrefix_def)
    with True rest [of 0] show ?thesis
      by (simp add: ExpandedNodeID_String_def ParseExpandedNodeID_def)
  next
    case False
    let ?d = "''svr='' @ show_nat (unat (en_ServerIndex e))"
    have eq: "ExpandedNodeID_String ushow e = ?d @ CHR '';'' # ?r"
      using False by (simp add: ExpandedNodeID_String_def word_neq_0_conv)
    have idx: "Index (?d @ CHR '';'' # ?r) (CHR '';'') = Some (length ?d)"
      by (rule Index_append) simp
    have "ParseUint (show_nat (unat (en_ServerIndex e))) 32 = (unat (en_ServerIndex e), None)"
      by (rule ParseUint_show_nat) simp
    then show ?thesis
      unfolding eq ParseExpandedNodeID_def idx
      using rest [of "unat (en_ServerIndex e)"] by (simp add: HasPrefix_def)
  qed
qed

lemma ParseQualifiedName_String: "ParseQualifiedName (QualifiedName_String a) = a"
proof -
  let ?d = "show_nat (unat (qn_NamespaceIndex a))"
  have idx: "Index (?d @ CHR '':'' # qn_Name a) (CHR '':'') = Some (length ?d)"
    by (rule Index_append) simp
  have eq: "QualifiedName_String a = ?d @ CHR '':'' # qn_Name a"
    by (simp add: QualifiedName_String_def)
  have "ParseUint ?d 16 = (unat (qn_NamespaceIndex a), None)"
    by (rule ParseUint_show_nat) simp
  then show ?thesis
    unfolding eq ParseQualifiedName_def idx by simp
qed

section \<open>Lemmas on conversions\<close>

lemma find_uri_nth:
  "distinct uris \<Longrightarrow> i < length uris \<Longrightarrow> find_uri uris (uris ! i) k = Some (k + i)"
proof (induction uris arbitrary: i k)
  case Nil
  then show ?case by simp
next
  case (Cons x xs)
  then show ?case by (cases i) auto
qed

lemma with_ns_with_ns [simp]: "with_ns a (with_ns b n) = with_ns a n"
  by (cases n) auto

lemma with_ns_self [simp]: "with_ns (NamespaceIndex n) n = n"
  by (cases n) auto

lemma ToNodeID_ToExpandedNodeID:
  assumes "distinct uris" and "[] \<notin> set uris" and "length uris < 65536"
  shows "ToNodeID (ToExpandedNodeID n uris) uris = n"
proof (cases n)
  case None
  then show ?thesis by (simp add: ToExpandedNodeID_def NilExpandedNodeID_def ToNodeID_def)
next
  case (Some m)
  show ?thesis
  proof (cases "NamespaceIndex m > 0 \<and> NamespaceIndex m < word_of_nat (length uris)")
    case True
    then have lt: "unat (NamespaceIndex m) < length uris"
      using assms(3) by (auto simp: word_less_nat_alt unat_of_nat)
    then have "uris ! unat (NamespaceIndex m) \<noteq> []"
      using assms(2) nth_mem by fastforce
    with True Some show ?thesis
      by (simp add: ToExpandedNodeID_def ToNodeID_def find_uri_nth [OF assms(1) lt])
  next
    case False
    with Some show ?thesis by (auto simp: ToExpandedNodeID_def ToNodeID_def)
  qed
qed

end
