(* ===== verification/Bytes_Writer.thy ===== *)
theory Bytes_Writer
  imports Prelude
begin

text \<open>
  The fixed-size byte sink of \<open>ua/bytes_writer.go\<close> and the sinks an encoder may
  write to. \<open>Writer\<close> is the struct with its slice and write index;
  \<open>io_writer\<close> is the dynamic type of the encoder's \<open>io.Writer\<close>: the program's own
  \<open>Writer\<close>, or a \<open>buffer.BufferAt\<close> of the third-party buffer package, whose
  methods are the parameter \<open>bufops\<close>. The locale \<open>buffer_at\<close> states what the
  encoder relies on from such a buffer; the program's \<open>Writer\<close> satisfies it.
\<close>

section \<open>Writer\<close>

record Writer =
  w_s :: bytes
  w_i :: nat

definition NewWriter :: "bytes \<Rightarrow> Writer" where
  "NewWriter b = \<lparr>w_s = b, w_i = 0\<rparr>"

definition Writer_Len :: "Writer \<Rightarrow> nat" where
  "Writer_Len w = w_i w"

definition Writer_Size :: "Writer \<Rightarrow> nat" where
  "Writer_Size w = length (w_s w)"

text \<open>Go's \<open>copy(s[at:], p)\<close>: the new slice and the number of bytes copied.\<close>

definition copy_at :: "bytes \<Rightarrow> nat \<Rightarrow> bytes \<Rightarrow> bytes \<times> nat" where
  "copy_at s at p = (let n = min (length s - at) (length p)
     in (take at s @ take n p @ drop (at + n) s, n))"

definition Writer_Write :: "bytes \<Rightarrow> Writer \<Rightarrow> (nat \<times> goerr option) \<times> Writer" where
  "Writer_Write p w =
     (if w_i w \<ge> length (w_s w) then ((0, Some ErrShortWrite), w)
      else let (s', n) = copy_at (w_s w) (w_i w) p;
               w' = w\<lparr>w_s := s', w_i := w_i w + n\<rparr>
           in if n < length p then ((n, Some ErrShortWrite), w') else ((n, None), w'))"

definition Writer_WriteAt :: "bytes \<Rightarrow> int \<Rightarrow> Writer \<Rightarrow> (nat \<times> goerr option) res \<times> Writer" where
  "Writer_WriteAt p offset w =
     (if offset \<ge> int (w_i w) then (Ok (0, Some ErrShortWrite), w)
      else if offset < 0 then (Panic, w)
      else let (s', n) = copy_at (w_s w) (nat offset) p;
               w' = w\<lparr>w_s := s'\<rparr>
           in if n < length p then (Ok (n, Some ErrShortWrite), w') else (Ok (n, None), w'))"

definition Writer_Bytes :: "Writer \<Rightarrow> bytes" where
  "Writer_Bytes w = take (w_i w) (w_s w)"

definition Writer_inv :: "Writer \<Rightarrow> bool" where
  "Writer_inv w \<longleftrightarrow> w_i w \<le> length (w_s w)"

definition Writer_room :: "Writer \<Rightarrow> nat" where
  "Writer_room w = length (w_s w) - w_i w"

section \<open>The sinks of an encoder\<close>

record 'b bufops =
  bo_Write :: "bytes \<Rightarrow> ('b, unit) act"
  bo_Len :: "'b \<Rightarrow> nat"
  bo_WriteAt :: "bytes \<Rightarrow> nat \<Rightarrow> ('b, unit) act"

datatype 'b io_writer = BytesWriter Writer | BufferAt 'b

text \<open>A Go \<open>(n, err)\<close> pair whose count the caller drops.\<close>

definition drop_count :: "(nat \<times> goerr option) \<times> 's \<Rightarrow> unit res \<times> 's" where
  "drop_count r = (case r of ((n, None), s) \<Rightarrow> (Ok (), s) | ((n, Some e), s) \<Rightarrow> (Err e, s))"

definition io_Write :: "'b bufops \<Rightarrow> bytes \<Rightarrow> ('b io_writer, unit) act" where
  "io_Write ops p = (\<lambda>w. case w of
       BytesWriter x \<Rightarrow> (case drop_count (Writer_Write p x) of (r, x') \<Rightarrow> (r, BytesWriter x'))
     | BufferAt b \<Rightarrow> (case bo_Write ops p b of (r, b') \<Rightarrow> (r, BufferAt b')))"

text \<open>The methods of the program's own \<open>Writer\<close>, seen as a buffer.\<close>

definition writer_ops :: "Writer bufops" where
  "writer_ops = \<lparr>
     bo_Write = (\<lambda>p w. drop_count (Writer_Write p w)),
     bo_Len = Writer_Len,
     bo_WriteAt = (\<lambda>p off w. case Writer_WriteAt p (int off) w of
         (Ok r, w') \<Rightarrow> drop_count (r, w')
       | (Err e, w') \<Rightarrow> (Err e, w')
       | (Panic, w') \<Rightarrow> (Panic, w')
       | (NoFuel, w') \<Rightarrow> (NoFuel, w'))\<rparr>"

section \<open>Lemmas on Writer\<close>

lemma copy_at_len:
  assumes "at \<le> length s"
  shows "length (fst (copy_at s at p)) = length s"
  using assms by (auto simp: copy_at_def Let_def min_def)

lemma NewWriter_simps [simp]:
  "Writer_inv (NewWriter b)" "Writer_Bytes (NewWriter b) = []" "Writer_room (NewWriter b) = length b"
  by (simp_all add: NewWriter_def Writer_inv_def Writer_Bytes_def Writer_room_def)

lemma Writer_Write_state:
  assumes "Writer_inv w" and "Writer_Write p w = (r, w')"
  shows "Writer_inv w' \<and> Writer_Size w' = Writer_Size w
       \<and> Writer_Bytes w' = Writer_Bytes w @ take (Writer_room w) p
       \<and> Writer_room w' = Writer_room w - length p"
  using assms
  by (auto simp: Writer_Write_def copy_at_def Let_def Writer_inv_def Writer_Size_def
      Writer_Bytes_def Writer_room_def min_def split: if_splits)

lemma Writer_Write_result:
  assumes "Writer_inv w"
  shows "fst (Writer_Write p w) =
     (min (Writer_room w) (length p),
      if Writer_room w = 0 \<or> Writer_room w < length p then Some ErrShortWrite else None)"
  using assms
  by (auto simp: Writer_Write_def copy_at_def Let_def Writer_inv_def Writer_room_def min_def)

lemma Writer_WriteAt_inside:
  assumes "Writer_inv w" and "off + length p \<le> w_i w" and "p \<noteq> []"
  shows "\<exists>w'. Writer_WriteAt p (int off) w = (Ok (length p, None), w') \<and> Writer_inv w'
     \<and> Writer_Bytes w' = take off (Writer_Bytes w) @ p @ drop (off + length p) (Writer_Bytes w)
     \<and> Writer_room w' = Writer_room w"
proof -
  let ?s' = "take off (w_s w) @ p @ drop (off + length p) (w_s w)"
  have fit: "off + length p \<le> length (w_s w)" using assms by (simp add: Writer_inv_def)
  have "0 < length p" using assms(3) by simp
  with assms(2) have "off < w_i w" by linarith
  with fit have eq: "Writer_WriteAt p (int off) w = (Ok (length p, None), w\<lparr>w_s := ?s'\<rparr>)"
    by (simp add: Writer_WriteAt_def copy_at_def Let_def)
  have "take (w_i w) ?s' = take off (Writer_Bytes w) @ p @ drop (off + length p) (Writer_Bytes w)"
    using assms(2) fit by (simp add: Writer_Bytes_def take_drop)
  with eq assms(1) fit show ?thesis
    by (simp add: Writer_inv_def Writer_room_def Writer_Bytes_def)
qed

section \<open>What an encoder relies on from its sink\<close>

locale buffer_at =
  fixes ops :: "'b bufops"
    and bcontent :: "'b \<Rightarrow> bytes"
    and broom :: "'b \<Rightarrow> nat"
    and binv :: "'b \<Rightarrow> bool"
  assumes Write_law: "binv b \<Longrightarrow>
      (\<exists>b'. bo_Write ops p b = (Ok (), b') \<and> binv b' \<and> length p \<le> broom b
          \<and> bcontent b' = bcontent b @ p \<and> broom b' = broom b - length p)
    \<or> (broom b \<le> length p \<and> (\<exists>e b'. bo_Write ops p b = (Err e, b') \<and> binv b'))"
    and Len_law: "binv b \<Longrightarrow> bo_Len ops b = length (bcontent b)"
    and WriteAt_law: "binv b \<Longrightarrow> off + length p \<le> length (bcontent b) \<Longrightarrow> p \<noteq> [] \<Longrightarrow>
      \<exists>b'. bo_WriteAt ops p off b = (Ok (), b') \<and> binv b' \<and> broom b' = broom b
         \<and> bcontent b' = take off (bcontent b) @ p @ drop (off + length p) (bcontent b)"
begin

definition content :: "'b io_writer \<Rightarrow> bytes" where
  "content w = (case w of BytesWriter x \<Rightarrow> Writer_Bytes x | BufferAt b \<Rightarrow> bcontent b)"

definition room :: "'b io_writer \<Rightarrow> nat" where
  "room w = (case w of BytesWriter x \<Rightarrow> Writer_room x | BufferAt b \<Rightarrow> broom b)"

definition sink_ok :: "'b io_writer \<Rightarrow> bool" where
  "sink_ok w = (case w of BytesWriter x \<Rightarrow> Writer_inv x | BufferAt b \<Rightarrow> binv b)"

definition same_kind :: "'b io_writer \<Rightarrow> 'b io_writer \<Rightarrow> bool" where
  "same_kind w w' = (case w of BytesWriter _ \<Rightarrow> (\<exists>x. w' = BytesWriter x)
                             | BufferAt _ \<Rightarrow> (\<exists>b. w' = BufferAt b))"

text \<open>
  \<open>wrote w w' bs\<close>: the step from \<open>w\<close> to \<open>w'\<close> appended exactly \<open>bs\<close>.
  \<open>emits m bs\<close>: the action either appends exactly \<open>bs\<close>, or reports
  \<open>BadEncodingError\<close> because the sink had no more room than \<open>bs\<close> needs.
\<close>

definition wrote :: "'b io_writer \<Rightarrow> 'b io_writer \<Rightarrow> bytes \<Rightarrow> bool" where
  "wrote w w' bs \<longleftrightarrow> sink_ok w' \<and> same_kind w w' \<and> length bs \<le> room w
     \<and> content w' = content w @ bs \<and> room w' = room w - length bs"

definition emits :: "('b io_writer, unit) act \<Rightarrow> bytes \<Rightarrow> bool" where
  "emits m bs \<longleftrightarrow> (\<forall>w. sink_ok w \<longrightarrow>
       (\<exists>w'. m w = (Ok (), w') \<and> wrote w w' bs)
     \<or> (room w \<le> length bs \<and> (\<exists>w'. m w = (Err (Status BadEncodingError), w') \<and> sink_ok w')))"

lemma emits_cases:
  assumes "emits m bs" and "sink_ok w"
  obtains (wrote) w' where "m w = (Ok (), w')" and "wrote w w' bs"
  | (full) w' where "room w \<le> length bs" and "m w = (Err (Status BadEncodingError), w')"
      and "sink_ok w'"
  using assms unfolding emits_def by blast

lemma same_kind_refl [simp]: "same_kind w w"
  by (simp add: same_kind_def split: io_writer.splits)

lemma same_kind_trans: "same_kind w w' \<Longrightarrow> same_kind w' w'' \<Longrightarrow> same_kind w w''"
  by (auto simp: same_kind_def split: io_writer.splits)

lemma wrote_Nil [simp]: "sink_ok w \<Longrightarrow> wrote w w []"
  by (simp add: wrote_def)

lemma wrote_append: "wrote w w' bs \<Longrightarrow> wrote w' w'' cs \<Longrightarrow> wrote w w'' (bs @ cs)"
  by (auto simp: wrote_def intro: same_kind_trans)

lemma emits_ret [simp]: "emits (ret ()) []"
  by (simp add: emits_def)

lemma io_Write_cases:
  assumes "sink_ok w"
  shows "(\<exists>w'. io_Write ops p w = (Ok (), w') \<and> wrote w w' p)
       \<or> (room w \<le> length p \<and> (\<exists>e w'. io_Write ops p w = (Err e, w') \<and> sink_ok w'))"
proof (cases w)
  case (BytesWriter x)
  obtain n e x' where x': "Writer_Write p x = ((n, e), x')" by (cases "Writer_Write p x") auto
  have inv: "Writer_inv x" using assms BytesWriter by (simp add: sink_ok_def)
  note st = Writer_Write_state [OF inv x'] and re = Writer_Write_result [OF inv, of p]
  show ?thesis
    using st re x' BytesWriter
    by (auto simp: io_Write_def drop_count_def sink_ok_def wrote_def content_def room_def
        same_kind_def split: if_splits)
next
  case (BufferAt b)
  then show ?thesis
    using Write_law [of b p] assms
    by (auto simp: io_Write_def sink_ok_def wrote_def content_def room_def same_kind_def)
qed

lemma emits_io_Write: "emits (orfail (Status BadEncodingError) (io_Write ops p)) p"
  unfolding emits_def
proof (intro allI impI)
  fix w assume "sink_ok w"
  then show "(\<exists>w'. orfail (Status BadEncodingError) (io_Write ops p) w = (Ok (), w') \<and> wrote w w' p)
    \<or> (room w \<le> length p \<and> (\<exists>w'. orfail (Status BadEncodingError) (io_Write ops p) w
          = (Err (Status BadEncodingError), w') \<and> sink_ok w'))"
    using io_Write_cases [of w p] by (auto simp: orfail_def)
qed

lemma emits_andthen:
  assumes m: "emits m bs" and n: "emits n cs"
  shows "emits (andthen m n) (bs @ cs)"
  unfolding emits_def
proof (intro allI impI)
  fix w assume w: "sink_ok w"
  from m w show "(\<exists>w'. andthen m n w = (Ok (), w') \<and> wrote w w' (bs @ cs))
    \<or> (room w \<le> length (bs @ cs) \<and> (\<exists>w'. andthen m n w = (Err (Status BadEncodingError), w')
          \<and> sink_ok w'))"
  proof (cases rule: emits_cases)
    case (wrote w')
    then have w': "sink_ok w'" by (simp add: wrote_def)
    from n w' show ?thesis
    proof (cases rule: emits_cases)
      case wrote': (wrote w'')
      with wrote show ?thesis by (auto simp: andthen_Ok intro: wrote_append)
    next
      case (full w'')
      with wrote show ?thesis by (auto simp: andthen_Ok wrote_def)
    qed
  next
    case (full w')
    then show ?thesis by (auto simp: andthen_Err)
  qed
qed

lemma emits_orfail:
  assumes "emits m bs"
  shows "emits (orfail (Status BadEncodingError) m) bs"
  unfolding emits_def
proof (intro allI impI)
  fix w assume "sink_ok w"
  with assms show "(\<exists>w'. orfail (Status BadEncodingError) m w = (Ok (), w') \<and> wrote w w' bs)
    \<or> (room w \<le> length bs \<and> (\<exists>w'. orfail (Status BadEncodingError) m w
          = (Err (Status BadEncodingError), w') \<and> sink_ok w'))"
    by (cases rule: emits_cases) (auto simp: orfail_def)
qed

lemma emits_if:
  "(c \<Longrightarrow> emits m bs) \<Longrightarrow> (\<not> c \<Longrightarrow> emits n cs) \<Longrightarrow>
   emits (if c then m else n) (if c then bs else cs)"
  by simp

lemma emits_seqs:
  "list_all2 emits ms bss \<Longrightarrow> emits (seqs ms) (concat bss)"
proof (induction ms arbitrary: bss)
  case Nil
  then show ?case by (simp add: emits_def)
next
  case (Cons m ms)
  then obtain bs bss' where "bss = bs # bss'" "emits m bs" "list_all2 emits ms bss'"
    by (auto simp: list_all2_Cons1)
  with Cons.IH show ?case by (simp add: emits_andthen)
qed

lemma emits_seqs_map:
  "(\<And>x. x \<in> set xs \<Longrightarrow> emits (f x) (g x)) \<Longrightarrow> emits (seqs (map f xs)) (concat (map g xs))"
  by (rule emits_seqs) (simp add: list_all2_conv_all_nth)

lemma emits_room:
  assumes "emits m bs" and "sink_ok w" and "length bs < room w"
  shows "\<exists>w'. m w = (Ok (), w') \<and> wrote w w' bs"
  using assms by (cases rule: emits_cases) auto

lemma emits_no_room:
  assumes "emits m bs" and "sink_ok w" and "room w < length bs"
  shows "\<exists>w'. m w = (Err (Status BadEncodingError), w')"
  using assms by (cases rule: emits_cases) (auto simp: wrote_def)

end

interpretation writer: buffer_at writer_ops Writer_Bytes Writer_room Writer_inv
proof
  fix b :: Writer and p :: bytes
  assume b: "Writer_inv b"
  obtain n e b' where b': "Writer_Write p b = ((n, e), b')" by (cases "Writer_Write p b") auto
  show "(\<exists>b'. bo_Write writer_ops p b = (Ok (), b') \<and> Writer_inv b' \<and> length p \<le> Writer_room b
          \<and> Writer_Bytes b' = Writer_Bytes b @ p \<and> Writer_room b' = Writer_room b - length p)
    \<or> (Writer_room b \<le> length p \<and> (\<exists>e b'. bo_Write writer_ops p b = (Err e, b') \<and> Writer_inv b'))"
    using Writer_Write_state [OF b b'] Writer_Write_result [OF b, of p] b'
    by (auto simp: writer_ops_def drop_count_def split: if_splits)
next
  fix b :: Writer
  assume "Writer_inv b"
  then show "bo_Len writer_ops b = length (Writer_Bytes b)"
    by (simp add: writer_ops_def Writer_Len_def Writer_inv_def Writer_Bytes_def)
next
  fix b :: Writer and off :: nat and p :: bytes
  assume b: "Writer_inv b" and off: "off + length p \<le> length (Writer_Bytes b)" and p: "p \<noteq> []"
  then have "off + length p \<le> w_i b" by (simp add: Writer_Bytes_def)
  from Writer_WriteAt_inside [OF b this p] show "\<exists>b'. bo_WriteAt writer_ops p off b = (Ok (), b')
      \<and> Writer_inv b' \<and> Writer_room b' = Writer_room b
      \<and> Writer_Bytes b' = take off (Writer_Bytes b) @ p @ drop (off + length p) (Writer_Bytes b)"
    by (auto simp: writer_ops_def drop_count_def)
qed

end
