(* ===== verification/Wire_Primitives.thy ===== *)
theory Wire_Primitives
  imports Identifiers Bytes_Writer
begin

text \<open>
  The UA binary encoding of the values without nested variants
  (\<open>ua/binary_encoder.go\<close>, \<open>ua/binary_decoder.go\<close>): integers, floating point bit
  patterns, strings, times, GUIDs, node ids, names. \<open>WriteX\<close> and \<open>ReadX\<close>
  translate the methods of the encoder and decoder; \<open>wire_X\<close> is the wire format
  as a pure function. Every \<open>WriteX\<close> emits \<open>wire_X\<close> on any sink that keeps the
  buffer contract, and every \<open>ReadX\<close> reads it back.
\<close>

named_theorems reads \<open>a reader applied to the wire format of a value\<close>

section \<open>Steps\<close>

abbreviation enc_try :: "('s, 'a) act \<Rightarrow> ('s, 'a) act" where
  "enc_try \<equiv> orfail (Status BadEncodingError)"

abbreviation dec_try :: "('s, 'a) act \<Rightarrow> ('s, 'a) act" where
  "dec_try \<equiv> orfail (Status BadDecodingError)"

definition enc_steps :: "('s, unit) act list \<Rightarrow> ('s, unit) act" where
  "enc_steps ms = seqs (map enc_try ms)"

definition opt_step :: "bool \<Rightarrow> ('s, unit) act \<Rightarrow> ('s, unit) act" where
  "opt_step c m = (if c then m else ret ())"

definition WriteRaw :: "'b bufops \<Rightarrow> bytes \<Rightarrow> ('b io_writer, unit) act" where
  "WriteRaw ops p = enc_try (io_Write ops p)"

section \<open>Integers and floating point numbers\<close>

definition WriteBoolean :: "'b bufops \<Rightarrow> bool \<Rightarrow> ('b io_writer, unit) act" where
  "WriteBoolean ops v = WriteRaw ops [if v then 1 else 0]"

definition WriteSByte :: "'b bufops \<Rightarrow> u8 \<Rightarrow> ('b io_writer, unit) act" where
  "WriteSByte ops v = WriteRaw ops [v]"

definition WriteByte :: "'b bufops \<Rightarrow> u8 \<Rightarrow> ('b io_writer, unit) act" where
  "WriteByte ops v = WriteRaw ops [v]"

definition WriteInt16 :: "'b bufops \<Rightarrow> u16 \<Rightarrow> ('b io_writer, unit) act" where
  "WriteInt16 ops v = WriteRaw ops (le_bytes 2 v)"

definition WriteUInt16 :: "'b bufops \<Rightarrow> u16 \<Rightarrow> ('b io_writer, unit) act" where
  "WriteUInt16 ops v = WriteRaw ops (le_bytes 2 v)"

definition WriteInt32 :: "'b bufops \<Rightarrow> u32 \<Rightarrow> ('b io_writer, unit) act" where
  "WriteInt32 ops v = WriteRaw ops (le_bytes 4 v)"

definition WriteUInt32 :: "'b bufops \<Rightarrow> u32 \<Rightarrow> ('b io_writer, unit) act" where
  "WriteUInt32 ops v = WriteRaw ops (le_bytes 4 v)"

definition WriteInt64 :: "'b bufops \<Rightarrow> u64 \<Rightarrow> ('b io_writer, unit) act" where
  "WriteInt64 ops v = WriteRaw ops (le_bytes 8 v)"

definition WriteUInt64 :: "'b bufops \<Rightarrow> u64 \<Rightarrow> ('b io_writer, unit) act" where
  "WriteUInt64 ops v = WriteRaw ops (le_bytes 8 v)"

text \<open>A floating point number is its IEEE bit pattern (\<open>math.Float32bits\<close>, \<open>math.Float64bits\<close>).\<close>

definition WriteFloat :: "'b bufops \<Rightarrow> u32 \<Rightarrow> ('b io_writer, unit) act" where
  "WriteFloat ops v = WriteRaw ops (le_bytes 4 v)"

definition WriteDouble :: "'b bufops \<Rightarrow> u64 \<Rightarrow> ('b io_writer, unit) act" where
  "WriteDouble ops v = WriteRaw ops (le_bytes 8 v)"

definition ReadBoolean :: "(bytes, bool) act" where
  "ReadBoolean = bnd (dec_try (ReadFull 1)) (\<lambda>p. ret (p ! 0 \<noteq> 0))"

definition ReadSByte :: "(bytes, u8) act" where
  "ReadSByte = bnd (dec_try (ReadFull 1)) (\<lambda>p. ret (p ! 0))"

definition ReadByte :: "(bytes, u8) act" where
  "ReadByte = bnd (dec_try (ReadFull 1)) (\<lambda>p. ret (p ! 0))"

definition ReadInt16 :: "(bytes, u16) act" where
  "ReadInt16 = bnd (dec_try (ReadFull 2)) (\<lambda>p. ret (le_word p))"

definition ReadUInt16 :: "(bytes, u16) act" where
  "ReadUInt16 = bnd (dec_try (ReadFull 2)) (\<lambda>p. ret (le_word p))"

definition ReadInt32 :: "(bytes, u32) act" where
  "ReadInt32 = bnd (dec_try (ReadFull 4)) (\<lambda>p. ret (le_word p))"

definition ReadUInt32 :: "(bytes, u32) act" where
  "ReadUInt32 = bnd (dec_try (ReadFull 4)) (\<lambda>p. ret (le_word p))"

definition ReadInt64 :: "(bytes, u64) act" where
  "ReadInt64 = bnd (dec_try (ReadFull 8)) (\<lambda>p. ret (le_word p))"

definition ReadUInt64 :: "(bytes, u64) act" where
  "ReadUInt64 = bnd (dec_try (ReadFull 8)) (\<lambda>p. ret (le_word p))"

definition ReadFloat :: "(bytes, u32) act" where
  "ReadFloat = bnd (dec_try (ReadFull 4)) (\<lambda>p. ret (le_word p))"

definition ReadDouble :: "(bytes, u64) act" where
  "ReadDouble = bnd (dec_try (ReadFull 8)) (\<lambda>p. ret (le_word p))"

definition wire_Boolean :: "bool \<Rightarrow> bytes" where
  "wire_Boolean v = [if v then 1 else 0]"

section \<open>Strings\<close>

definition WriteString :: "'b bufops \<Rightarrow> string \<Rightarrow> ('b io_writer, unit) act" where
  "WriteString ops v =
     (if length v = 0 then WriteInt32 ops (-1)
      else seqs [enc_try (WriteInt32 ops (word_of_nat (length v))), WriteRaw ops (str_bytes v)])"

definition WriteByteString :: "'b bufops \<Rightarrow> ByteString \<Rightarrow> ('b io_writer, unit) act" where
  "WriteByteString ops v =
     (if length v = 0 then WriteInt32 ops (-1)
      else seqs [enc_try (WriteInt32 ops (word_of_nat (length v))), WriteRaw ops v])"

definition WriteXMLElement :: "'b bufops \<Rightarrow> string \<Rightarrow> ('b io_writer, unit) act" where
  "WriteXMLElement ops v = WriteString ops v"

definition ReadString :: "(bytes, string) act" where
  "ReadString = bnd (dec_try ReadInt32) (\<lambda>n.
     if sint n < 0 then ret []
     else bnd (dec_try (ReadFull (nat (sint n)))) (\<lambda>p. ret (bytes_str p)))"

definition ReadByteString :: "(bytes, ByteString) act" where
  "ReadByteString = bnd (dec_try ReadInt32) (\<lambda>n.
     if sint n \<le> 0 then ret []
     else bnd (dec_try (ReadFull (nat (sint n)))) ret)"

definition ReadXMLElement :: "(bytes, string) act" where
  "ReadXMLElement = bnd (dec_try ReadString) ret"

definition wire_ByteString :: "bytes \<Rightarrow> bytes" where
  "wire_ByteString v = (if v = [] then le_bytes 4 (-1 :: u32)
     else concat [le_bytes 4 (word_of_nat (length v) :: u32), v])"

definition wire_String :: "string \<Rightarrow> bytes" where
  "wire_String v = wire_ByteString (str_bytes v)"

text \<open>Lengths that fit a signed 32-bit integer.\<close>

definition len_ok :: "'a list \<Rightarrow> bool" where
  "len_ok xs \<longleftrightarrow> length xs < 2 ^ 31"

section \<open>Times\<close>

text \<open>
  A \<open>time.Time\<close> in UTC: seconds of the Unix epoch and nanoseconds below \<open>10 ^ 9\<close>.
  The zero time is the start of year 1.
\<close>

datatype gotime = Time (Unix: u64) (Nanosecond: nat)

definition zeroTime :: gotime where
  "zeroTime = Time (- 62135596800) 0"

definition IsZero :: "gotime \<Rightarrow> bool" where
  "IsZero t \<longleftrightarrow> t = zeroTime"

definition date_ticks :: "gotime \<Rightarrow> u64" where
  "date_ticks v = (Unix v + 11644473600) * 10000000 + word_of_nat (Nanosecond v div 100)"

definition clamp_ticks :: "u64 \<Rightarrow> u64" where
  "clamp_ticks ticks =
     (let t = (if sint ticks < 0 then 0 else ticks)
      in if sint t \<ge> 2650467743990000000 then 0x7FFFFFFFFFFFFFFF else t)"

definition WriteDateTime :: "'b bufops \<Rightarrow> gotime \<Rightarrow> ('b io_writer, unit) act" where
  "WriteDateTime ops v = enc_try (WriteInt64 ops (clamp_ticks (date_ticks v)))"

text \<open>\<open>time.Unix(ticks/10000000-11644473600, (ticks%10000000)*100)\<close> for the clamped, non-negative ticks.\<close>

definition ticks_time :: "u64 \<Rightarrow> gotime" where
  "ticks_time ticks =
     (let t0 = (if sint ticks < 0 then 0 else ticks);
          t = (if t0 = 0x7FFFFFFFFFFFFFFF then 2650467743990000000 else t0)
      in Time (word_of_nat (unat t div 10000000) - 11644473600) (unat t mod 10000000 * 100))"

definition ReadDateTime :: "(bytes, gotime) act" where
  "ReadDateTime = bnd (dec_try ReadInt64) (\<lambda>ticks. ret (ticks_time ticks))"

definition wire_DateTime :: "gotime \<Rightarrow> bytes" where
  "wire_DateTime v = le_bytes 8 (clamp_ticks (date_ticks v))"

section \<open>GUIDs\<close>

fun guid_head :: "UUID \<Rightarrow> bytes" where
  "guid_head (UUID a0 a1 a2 a3 a4 a5 a6 a7 a8 a9 a10 a11 a12 a13 a14 a15) =
     [a3, a2, a1, a0, a5, a4, a7, a6]"

fun guid_tail :: "UUID \<Rightarrow> bytes" where
  "guid_tail (UUID a0 a1 a2 a3 a4 a5 a6 a7 a8 a9 a10 a11 a12 a13 a14 a15) =
     [a8, a9, a10, a11, a12, a13, a14, a15]"

definition WriteGUID :: "'b bufops \<Rightarrow> UUID \<Rightarrow> ('b io_writer, unit) act" where
  "WriteGUID ops v = seqs [WriteRaw ops (guid_head v), WriteRaw ops (guid_tail v)]"

definition ReadGUID :: "(bytes, UUID) act" where
  "ReadGUID = bnd (dec_try (ReadFull 8)) (\<lambda>p. bnd (dec_try (ReadFull 8)) (\<lambda>q.
     ret (UUID (p ! 3) (p ! 2) (p ! 1) (p ! 0) (p ! 5) (p ! 4) (p ! 7) (p ! 6)
               (q ! 0) (q ! 1) (q ! 2) (q ! 3) (q ! 4) (q ! 5) (q ! 6) (q ! 7))))"

definition wire_GUID :: "UUID \<Rightarrow> bytes" where
  "wire_GUID v = concat [guid_head v, guid_tail v]"

section \<open>Node ids\<close>

fun WriteNodeID :: "'b bufops \<Rightarrow> NodeID option \<Rightarrow> ('b io_writer, unit) act" where
  "WriteNodeID ops (Some (NodeIDNumeric ns i)) =
     (if i \<le> 255 \<and> ns = 0 then enc_steps [WriteByte ops 0x00, WriteByte ops (ucast i)]
      else if i \<le> 65535 \<and> ns \<le> 255 then
        enc_steps [WriteByte ops 0x01, WriteByte ops (ucast ns), WriteUInt16 ops (ucast i)]
      else enc_steps [WriteByte ops 0x02, WriteUInt16 ops ns, WriteUInt32 ops i])"
| "WriteNodeID ops (Some (NodeIDString ns i)) =
     enc_steps [WriteByte ops 0x03, WriteUInt16 ops ns, WriteString ops i]"
| "WriteNodeID ops (Some (NodeIDGUID ns i)) =
     enc_steps [WriteByte ops 0x04, WriteUInt16 ops ns, WriteGUID ops i]"
| "WriteNodeID ops (Some (NodeIDOpaque ns i)) =
     enc_steps [WriteByte ops 0x05, WriteUInt16 ops ns, WriteByteString ops i]"
| "WriteNodeID ops None = enc_steps [WriteUInt16 ops 0]"

definition ReadNodeID :: "(bytes, NodeID option) act" where
  "ReadNodeID = bnd (dec_try ReadByte) (\<lambda>b.
     if b = 0x00 then
       bnd (dec_try ReadByte) (\<lambda>i.
         if i = 0 then ret None else ret (Some (NodeIDNumeric 0 (ucast i))))
     else if b = 0x01 then
       bnd (dec_try ReadByte) (\<lambda>ns. bnd (dec_try ReadUInt16) (\<lambda>i.
         ret (Some (NodeIDNumeric (ucast ns) (ucast i)))))
     else if b = 0x02 then
       bnd (dec_try ReadUInt16) (\<lambda>ns. bnd (dec_try ReadUInt32) (\<lambda>i.
         ret (Some (NodeIDNumeric ns i))))
     else if b = 0x03 then
       bnd (dec_try ReadUInt16) (\<lambda>ns. bnd (dec_try ReadString) (\<lambda>i.
         if ns = 0 \<and> i = [] then ret None else ret (Some (NodeIDString ns i))))
     else if b = 0x04 then
       bnd (dec_try ReadUInt16) (\<lambda>ns. bnd (dec_try ReadGUID) (\<lambda>i.
         if ns = 0 \<and> i = nilGuid then ret None else ret (Some (NodeIDGUID ns i))))
     else if b = 0x05 then
       bnd (dec_try ReadUInt16) (\<lambda>ns. bnd (dec_try ReadByteString) (\<lambda>i.
         if ns = 0 \<and> i = [] then ret None else ret (Some (NodeIDOpaque ns i))))
     else throw (Status BadDecodingError))"

text \<open>The encoding of the id after the flag byte: the flag, the namespace index, the id.\<close>

fun wire_node_body :: "byte \<Rightarrow> u16 \<Rightarrow> NodeID \<Rightarrow> bytes" where
  "wire_node_body f ns (NodeIDNumeric _ i) =
     (if i \<le> 255 \<and> ns = 0 then concat [[0x00 OR f], [ucast i]]
      else if i \<le> 65535 \<and> ns \<le> 255 then concat [[0x01 OR f], [ucast ns], le_bytes 2 (ucast i :: u16)]
      else concat [[0x02 OR f], le_bytes 2 ns, le_bytes 4 i])"
| "wire_node_body f ns (NodeIDString _ i) = concat [[0x03 OR f], le_bytes 2 ns, wire_String i]"
| "wire_node_body f ns (NodeIDGUID _ i) = concat [[0x04 OR f], le_bytes 2 ns, wire_GUID i]"
| "wire_node_body f ns (NodeIDOpaque _ i) = concat [[0x05 OR f], le_bytes 2 ns, wire_ByteString i]"

definition wire_NodeID :: "NodeID option \<Rightarrow> bytes" where
  "wire_NodeID n = (case n of None \<Rightarrow> le_bytes 2 (0 :: u16)
     | Some m \<Rightarrow> wire_node_body 0 (NamespaceIndex m) m)"

text \<open>Null ids of every kind decode to the nil node id.\<close>

definition norm_NodeID :: "NodeID option \<Rightarrow> NodeID option" where
  "norm_NodeID n =
     (if n \<in> {Some (NodeIDNumeric 0 0), Some (NodeIDString 0 []), Some (NodeIDGUID 0 nilGuid),
             Some (NodeIDOpaque 0 [])} then None else n)"

fun nodeid_len_ok :: "NodeID \<Rightarrow> bool" where
  "nodeid_len_ok (NodeIDString _ i) = len_ok i"
| "nodeid_len_ok (NodeIDOpaque _ i) = len_ok i"
| "nodeid_len_ok _ = True"

section \<open>Expanded node ids\<close>

definition WriteExpandedNodeID :: "'b bufops \<Rightarrow> ExpandedNodeID \<Rightarrow> ('b io_writer, unit) act" where
  "WriteExpandedNodeID ops v =
     (let b = (if en_ServerIndex v > 0 then 0x40 else 0) OR
              (if length (en_NamespaceURI v) > 0 then 0x80 else 0);
          ns = (\<lambda>x. if b AND 0x80 \<noteq> 0 then 0 else x)
      in seqs [
        (case en_NodeID v of
           Some (NodeIDNumeric n i) \<Rightarrow>
             (if i \<le> 255 \<and> ns n = 0 then enc_steps [WriteByte ops (0x00 OR b), WriteByte ops (ucast i)]
              else if i \<le> 65535 \<and> ns n \<le> 255 then
                enc_steps [WriteByte ops (0x01 OR b), WriteByte ops (ucast (ns n)), WriteUInt16 ops (ucast i)]
              else enc_steps [WriteByte ops (0x02 OR b), WriteUInt16 ops (ns n), WriteUInt32 ops i])
         | Some (NodeIDString n i) \<Rightarrow>
             enc_steps [WriteByte ops (0x03 OR b), WriteUInt16 ops (ns n), WriteString ops i]
         | Some (NodeIDGUID n i) \<Rightarrow>
             enc_steps [WriteByte ops (0x04 OR b), WriteUInt16 ops (ns n), WriteGUID ops i]
         | Some (NodeIDOpaque n i) \<Rightarrow>
             enc_steps [WriteByte ops (0x05 OR b), WriteUInt16 ops (ns n), WriteByteString ops i]
         | None \<Rightarrow> enc_steps [WriteUInt16 ops 0]),
        opt_step (b AND 0x80 \<noteq> 0) (enc_try (WriteString ops (en_NamespaceURI v))),
        opt_step (b AND 0x40 \<noteq> 0) (enc_try (WriteUInt32 ops (en_ServerIndex v)))])"

definition read_expanded_node :: "byte \<Rightarrow> (bytes, NodeID option) act" where
  "read_expanded_node k =
     (if k = 0x00 then
        bnd (dec_try ReadByte) (\<lambda>i. ret (if i = 0 then None else Some (NodeIDNumeric 0 (ucast i))))
      else if k = 0x01 then
        bnd (dec_try ReadByte) (\<lambda>ns. bnd (dec_try ReadUInt16) (\<lambda>i.
          ret (Some (NodeIDNumeric (ucast ns) (ucast i)))))
      else if k = 0x02 then
        bnd (dec_try ReadUInt16) (\<lambda>ns. bnd (dec_try ReadUInt32) (\<lambda>i.
          ret (Some (NodeIDNumeric ns i))))
      else if k = 0x03 then
        bnd (dec_try ReadUInt16) (\<lambda>ns. bnd (dec_try ReadString) (\<lambda>i. ret (Some (NodeIDString ns i))))
      else if k = 0x04 then
        bnd (dec_try ReadUInt16) (\<lambda>ns. bnd (dec_try ReadGUID) (\<lambda>i. ret (Some (NodeIDGUID ns i))))
      else if k = 0x05 then
        bnd (dec_try ReadUInt16) (\<lambda>ns. bnd (dec_try ReadByteString) (\<lambda>i. ret (Some (NodeIDOpaque ns i))))
      else throw (Status BadDecodingError))"

definition ReadExpandedNodeID :: "(bytes, ExpandedNodeID) act" where
  "ReadExpandedNodeID = bnd (dec_try ReadByte) (\<lambda>b.
     bnd (read_expanded_node (b AND 0x0F)) (\<lambda>n.
     bnd (when_set (b AND 0x80 \<noteq> 0) [] (dec_try ReadString)) (\<lambda>nsu.
     bnd (when_set (b AND 0x40 \<noteq> 0) 0 (dec_try ReadUInt32)) (\<lambda>svr.
     ret \<lparr>en_ServerIndex = svr, en_NamespaceURI = nsu, en_NodeID = n\<rparr>))))"

definition expanded_flags :: "ExpandedNodeID \<Rightarrow> byte" where
  "expanded_flags v = (if en_ServerIndex v > 0 then 0x40 else 0) OR
     (if en_NamespaceURI v \<noteq> [] then 0x80 else 0)"

definition wire_ExpandedNodeID :: "ExpandedNodeID \<Rightarrow> bytes" where
  "wire_ExpandedNodeID v = concat [
     (case en_NodeID v of None \<Rightarrow> le_bytes 2 (0 :: u16)
      | Some m \<Rightarrow> wire_node_body (expanded_flags v)
                    (if en_NamespaceURI v \<noteq> [] then 0 else NamespaceIndex m) m),
     (if en_NamespaceURI v \<noteq> [] then wire_String (en_NamespaceURI v) else []),
     (if en_ServerIndex v > 0 then le_bytes 4 (en_ServerIndex v) else [])]"

definition norm_ExpandedNodeID :: "ExpandedNodeID \<Rightarrow> ExpandedNodeID" where
  "norm_ExpandedNodeID v = v\<lparr>en_NodeID :=
     (case en_NodeID v of None \<Rightarrow> None
      | Some m \<Rightarrow> let m' = (if en_NamespaceURI v \<noteq> [] then with_ns 0 m else m)
                  in if m' = NodeIDNumeric 0 0 then None else Some m')\<rparr>"

section \<open>Status codes and names\<close>

definition WriteStatusCode :: "'b bufops \<Rightarrow> StatusCode \<Rightarrow> ('b io_writer, unit) act" where
  "WriteStatusCode ops v = enc_try (WriteUInt32 ops v)"

definition WriteQualifiedName :: "'b bufops \<Rightarrow> QualifiedName \<Rightarrow> ('b io_writer, unit) act" where
  "WriteQualifiedName ops v =
     seqs [enc_try (WriteUInt16 ops (qn_NamespaceIndex v)), WriteString ops (qn_Name v)]"

definition WriteLocalizedText :: "'b bufops \<Rightarrow> LocalizedText \<Rightarrow> ('b io_writer, unit) act" where
  "WriteLocalizedText ops v =
     (let b = (if lt_Locale v \<noteq> [] then 1 else 0) OR (if lt_Text v \<noteq> [] then 2 else 0) :: byte
      in seqs [enc_try (WriteByte ops b),
               opt_step (b AND 1 \<noteq> 0) (enc_try (WriteString ops (lt_Locale v))),
               opt_step (b AND 2 \<noteq> 0) (enc_try (WriteString ops (lt_Text v)))])"

definition ReadStatusCode :: "(bytes, StatusCode) act" where
  "ReadStatusCode = bnd (dec_try ReadUInt32) ret"

definition ReadQualifiedName :: "(bytes, QualifiedName) act" where
  "ReadQualifiedName = bnd (dec_try ReadUInt16) (\<lambda>ns. bnd (dec_try ReadString) (\<lambda>name.
     ret \<lparr>qn_NamespaceIndex = ns, qn_Name = name\<rparr>))"

definition ReadLocalizedText :: "(bytes, LocalizedText) act" where
  "ReadLocalizedText = bnd (dec_try ReadByte) (\<lambda>b.
     bnd (when_set (b AND 1 \<noteq> 0) [] (dec_try ReadString)) (\<lambda>locale.
     bnd (when_set (b AND 2 \<noteq> 0) [] (dec_try ReadString)) (\<lambda>txt.
     ret \<lparr>lt_Text = txt, lt_Locale = locale\<rparr>)))"

definition wire_QualifiedName :: "QualifiedName \<Rightarrow> bytes" where
  "wire_QualifiedName v = concat [le_bytes 2 (qn_NamespaceIndex v), wire_String (qn_Name v)]"

definition wire_LocalizedText :: "LocalizedText \<Rightarrow> bytes" where
  "wire_LocalizedText v = concat [
     [(if lt_Locale v \<noteq> [] then 1 else 0) OR (if lt_Text v \<noteq> [] then 2 else 0)],
     (if lt_Locale v \<noteq> [] then wire_String (lt_Locale v) else []),
     (if lt_Text v \<noteq> [] then wire_String (lt_Text v) else [])]"

section \<open>Every writer emits the wire format\<close>

lemmas wire_defs = wire_Boolean_def wire_ByteString_def wire_String_def wire_DateTime_def
  wire_GUID_def wire_NodeID_def wire_ExpandedNodeID_def wire_QualifiedName_def
  wire_LocalizedText_def

lemma ext_flag_bits:
  "((if p then 0x40 else 0) OR (if q then 0x80 else 0) :: byte) AND 0x80 \<noteq> 0 \<longleftrightarrow> q"
  "((if p then 0x40 else 0) OR (if q then 0x80 else 0) :: byte) AND 0x40 \<noteq> 0 \<longleftrightarrow> p"
  by (cases p; cases q; simp)+

lemma text_flag_bits:
  "((if p then 1 else 0) OR (if q then 2 else 0) :: byte) AND 1 \<noteq> 0 \<longleftrightarrow> p"
  "((if p then 1 else 0) OR (if q then 2 else 0) :: byte) AND 2 \<noteq> 0 \<longleftrightarrow> q"
  by (cases p; cases q; simp)+

context buffer_at
begin

lemma emits_enc_steps: "list_all2 emits ms bss \<Longrightarrow> emits (enc_steps ms) (concat bss)"
  unfolding enc_steps_def
  by (rule emits_seqs) (simp add: list_all2_conv_all_nth emits_orfail)

lemma emits_opt_step: "(c \<Longrightarrow> emits m bs) \<Longrightarrow> emits (opt_step c m) (if c then bs else [])"
  by (simp add: opt_step_def emits_def)

lemma emits_WriteRaw: "emits (WriteRaw ops p) p"
  unfolding WriteRaw_def by (rule emits_io_Write)

lemma emits_ints:
  "emits (WriteBoolean ops b) (wire_Boolean b)" "emits (WriteSByte ops u) [u]"
  "emits (WriteByte ops u) [u]" "emits (WriteInt16 ops w) (le_bytes 2 w)"
  "emits (WriteUInt16 ops w) (le_bytes 2 w)" "emits (WriteInt32 ops d) (le_bytes 4 d)"
  "emits (WriteUInt32 ops d) (le_bytes 4 d)" "emits (WriteInt64 ops q) (le_bytes 8 q)"
  "emits (WriteUInt64 ops q) (le_bytes 8 q)" "emits (WriteFloat ops d) (le_bytes 4 d)"
  "emits (WriteDouble ops q) (le_bytes 8 q)"
  by (simp_all add: WriteBoolean_def WriteSByte_def WriteByte_def WriteInt16_def WriteUInt16_def
      WriteInt32_def WriteUInt32_def WriteInt64_def WriteUInt64_def WriteFloat_def WriteDouble_def
      wire_Boolean_def emits_WriteRaw)

lemma emits_ByteString: "emits (WriteByteString ops v) (wire_ByteString v)"
proof (cases "v = []")
  case True
  then show ?thesis by (simp add: WriteByteString_def wire_ByteString_def emits_ints)
next
  case False
  have "emits (seqs [enc_try (WriteInt32 ops (word_of_nat (length v))), WriteRaw ops v])
     (concat [le_bytes 4 (word_of_nat (length v) :: u32), v])"
    by (rule emits_seqs) (simp add: emits_ints emits_WriteRaw emits_orfail)
  with False show ?thesis by (simp add: WriteByteString_def wire_ByteString_def del: seqs.simps)
qed

lemma WriteString_as_ByteString: "WriteString ops v = WriteByteString ops (str_bytes v)"
  by (simp add: WriteString_def WriteByteString_def)

lemma emits_String: "emits (WriteString ops v) (wire_String v)"
  by (simp add: WriteString_as_ByteString wire_String_def emits_ByteString)

lemma emits_XMLElement: "emits (WriteXMLElement ops v) (wire_String v)"
  by (simp add: WriteXMLElement_def emits_String)

lemma emits_DateTime: "emits (WriteDateTime ops v) (wire_DateTime v)"
  by (simp add: WriteDateTime_def wire_DateTime_def emits_orfail emits_ints)

lemma emits_GUID: "emits (WriteGUID ops v) (wire_GUID v)"
  unfolding WriteGUID_def wire_GUID_def
  by (rule emits_seqs) (simp add: emits_WriteRaw)

lemmas emits_basic = emits_ints emits_WriteRaw emits_ByteString emits_String emits_XMLElement
  emits_DateTime emits_GUID

lemma emits_NodeID: "emits (WriteNodeID ops n) (wire_NodeID n)"
proof (cases n)
  case None
  have "emits (enc_steps [WriteUInt16 ops 0]) (concat [le_bytes 2 (0 :: u16)])"
    by (rule emits_enc_steps) (simp add: emits_basic)
  with None show ?thesis by (simp add: wire_NodeID_def)
next
  case (Some m)
  show ?thesis
    by (cases m)
       (auto simp: Some wire_NodeID_def emits_basic simp del: concat.simps intro!: emits_enc_steps)
qed

lemma emits_node_case:
  "emits (case n of
      Some (NodeIDNumeric k i) \<Rightarrow>
        (if i \<le> 255 \<and> ns k = 0 then enc_steps [WriteByte ops (0x00 OR b), WriteByte ops (ucast i)]
         else if i \<le> 65535 \<and> ns k \<le> 255 then
           enc_steps [WriteByte ops (0x01 OR b), WriteByte ops (ucast (ns k)), WriteUInt16 ops (ucast i)]
         else enc_steps [WriteByte ops (0x02 OR b), WriteUInt16 ops (ns k), WriteUInt32 ops i])
    | Some (NodeIDString k i) \<Rightarrow>
        enc_steps [WriteByte ops (0x03 OR b), WriteUInt16 ops (ns k), WriteString ops i]
    | Some (NodeIDGUID k i) \<Rightarrow>
        enc_steps [WriteByte ops (0x04 OR b), WriteUInt16 ops (ns k), WriteGUID ops i]
    | Some (NodeIDOpaque k i) \<Rightarrow>
        enc_steps [WriteByte ops (0x05 OR b), WriteUInt16 ops (ns k), WriteByteString ops i]
    | None \<Rightarrow> enc_steps [WriteUInt16 ops 0])
   (case n of None \<Rightarrow> le_bytes 2 (0 :: u16) | Some m \<Rightarrow> wire_node_body b (ns (NamespaceIndex m)) m)"
proof (cases n)
  case None
  then show ?thesis using emits_NodeID [of None] by (simp add: wire_NodeID_def)
next
  case (Some m)
  show ?thesis
    by (cases m) (auto simp: Some emits_basic simp del: concat.simps intro!: emits_enc_steps)
qed

lemma emits_ExpandedNodeID: "emits (WriteExpandedNodeID ops v) (wire_ExpandedNodeID v)"
proof -
  let ?b = "(if en_ServerIndex v > 0 then 0x40 else 0) OR
              (if length (en_NamespaceURI v) > 0 then 0x80 else 0) :: byte"
  let ?ns = "\<lambda>x. if length (en_NamespaceURI v) > 0 then 0 else x"
  have b: "expanded_flags v = ?b" by (simp add: expanded_flags_def)
  have uri: "(en_NamespaceURI v \<noteq> []) = (length (en_NamespaceURI v) > 0)" by simp
  show ?thesis
    unfolding WriteExpandedNodeID_def wire_ExpandedNodeID_def Let_def ext_flag_bits uri b
    by (rule emits_seqs)
       (simp only: list_all2_Cons list_all2_Nil2 simp_thms,
        intro conjI emits_node_case emits_opt_step emits_orfail emits_basic)
qed

lemma emits_StatusCode: "emits (WriteStatusCode ops v) (le_bytes 4 v)"
  by (simp add: WriteStatusCode_def emits_orfail emits_basic)

lemma emits_QualifiedName: "emits (WriteQualifiedName ops v) (wire_QualifiedName v)"
  unfolding WriteQualifiedName_def wire_QualifiedName_def
  by (rule emits_seqs) (simp add: emits_orfail emits_basic)

lemma emits_LocalizedText: "emits (WriteLocalizedText ops v) (wire_LocalizedText v)"
  unfolding WriteLocalizedText_def wire_LocalizedText_def Let_def text_flag_bits
  by (rule emits_seqs)
     (simp only: list_all2_Cons list_all2_Nil2 simp_thms,
      intro conjI emits_opt_step emits_orfail emits_basic)

lemmas emits_scalar = emits_basic emits_NodeID emits_ExpandedNodeID emits_StatusCode
  emits_QualifiedName emits_LocalizedText

end

section \<open>Every reader reads the wire format back\<close>

lemma reads_ints [reads]:
  "ReadBoolean (wire_Boolean b @ rest) = (Ok b, rest)"
  "ReadSByte (u # rest) = (Ok u, rest)"
  "ReadByte (u # rest) = (Ok u, rest)"
  "ReadInt16 (le_bytes 2 w @ rest) = (Ok w, rest)"
  "ReadUInt16 (le_bytes 2 w @ rest) = (Ok w, rest)"
  "ReadInt32 (le_bytes 4 d @ rest) = (Ok d, rest)"
  "ReadUInt32 (le_bytes 4 d @ rest) = (Ok d, rest)"
  "ReadInt64 (le_bytes 8 q @ rest) = (Ok q, rest)"
  "ReadUInt64 (le_bytes 8 q @ rest) = (Ok q, rest)"
  "ReadFloat (le_bytes 4 d @ rest) = (Ok d, rest)"
  "ReadDouble (le_bytes 8 q @ rest) = (Ok q, rest)"
  using ReadFull_append [of "[u]" 1 rest] ReadFull_append [of "wire_Boolean b" 1 rest]
  by (simp_all add: ReadBoolean_def ReadSByte_def ReadByte_def ReadInt16_def ReadUInt16_def
      ReadInt32_def ReadUInt32_def ReadInt64_def ReadUInt64_def ReadFloat_def ReadDouble_def
      bnd_Ok orfail_Ok le_word_le_bytes wire_Boolean_def)

lemma len_ok_str_bytes [simp]: "len_ok (str_bytes s) = len_ok s"
  by (simp add: len_ok_def)

lemma reads_ByteString [reads]:
  assumes "len_ok v"
  shows "ReadByteString (wire_ByteString v @ rest) = (Ok v, rest)"
proof (cases "v = []")
  case True
  then show ?thesis
    by (simp add: ReadByteString_def wire_ByteString_def reads bnd_Ok orfail_Ok)
next
  case False
  have s: "sint (word_of_nat (length v) :: u32) = int (length v)"
    using assms by (intro sint_int32_len) (simp add: len_ok_def)
  with False show ?thesis
    by (simp add: ReadByteString_def wire_ByteString_def reads bnd_Ok orfail_Ok)
qed

lemma reads_String [reads]:
  assumes "len_ok v"
  shows "ReadString (wire_String v @ rest) = (Ok v, rest)"
proof (cases "v = []")
  case True
  then show ?thesis
    by (simp add: ReadString_def wire_String_def wire_ByteString_def reads bnd_Ok orfail_Ok)
next
  case False
  have s: "sint (word_of_nat (length v) :: u32) = int (length v)"
    using assms by (intro sint_int32_len) (simp add: len_ok_def)
  with False show ?thesis
    by (simp add: ReadString_def wire_String_def wire_ByteString_def reads bnd_Ok orfail_Ok)
qed

lemma reads_XMLElement [reads]:
  "len_ok v \<Longrightarrow> ReadXMLElement (wire_String v @ rest) = (Ok v, rest)"
  by (simp add: ReadXMLElement_def reads bnd_Ok orfail_Ok)

lemma reads_GUID [reads]: "ReadGUID (wire_GUID v @ rest) = (Ok v, rest)"
proof (cases v)
  case (UUID a0 a1 a2 a3 a4 a5 a6 a7 a8 a9 a10 a11 a12 a13 a14 a15)
  then show ?thesis
    using ReadFull_append [of "guid_head v" 8 "guid_tail v @ rest"]
      ReadFull_append [of "guid_tail v" 8 rest]
    by (simp add: ReadGUID_def wire_GUID_def bnd_Ok orfail_Ok)
qed

text \<open>The time that survives the wire: 100 ns ticks of the range 1601 to 9999.\<close>

definition norm_time :: "gotime \<Rightarrow> gotime" where
  "norm_time t = ticks_time (clamp_ticks (date_ticks t))"

lemma reads_DateTime [reads]: "ReadDateTime (wire_DateTime v @ rest) = (Ok (norm_time v), rest)"
  by (simp add: ReadDateTime_def wire_DateTime_def norm_time_def reads bnd_Ok orfail_Ok)

lemma ucast_narrow:
  "i \<le> 255 \<Longrightarrow> (ucast (ucast i :: byte) :: u32) = i"
  "j \<le> 255 \<Longrightarrow> (ucast (ucast j :: byte) :: u16) = j"
  "i \<le> 65535 \<Longrightarrow> (ucast (ucast i :: u16) :: u32) = i"
  for i :: u32 and j :: u16
  by (rule word_unat_eq_iff [THEN iffD2];
      simp add: word_le_nat_alt unsigned_ucast_eq unsigned_take_bit_eq take_bit_nat_eq_self)+

lemma ucast_byte_eq_0: "i \<le> 255 \<Longrightarrow> (ucast i :: byte) = 0 \<longleftrightarrow> i = 0" for i :: u32
  using ucast_narrow(1) [of i] by fastforce

lemmas nodeid_reads = reads bnd_Ok orfail_Ok ucast_narrow ucast_byte_eq_0

lemma reads_NodeID [reads]:
  assumes "\<And>m. n = Some m \<Longrightarrow> nodeid_len_ok m"
  shows "ReadNodeID (wire_NodeID n @ rest) = (Ok (norm_NodeID n), rest)"
proof (cases n)
  case None
  have "le_bytes 2 (0 :: u16) = [0, 0]" by (simp add: le_bytes_def upt_rec)
  with None show ?thesis
    by (simp add: ReadNodeID_def wire_NodeID_def norm_NodeID_def nodeid_reads)
next
  case (Some m)
  then show ?thesis
    using assms
    by (cases m)
       (auto simp: ReadNodeID_def wire_NodeID_def norm_NodeID_def nodeid_reads)
qed

lemma expanded_flag_bits:
  assumes "k \<in> {0, 1, 2, 3, 4, 5}"
  shows "(k OR expanded_flags v) AND 0x0F = k"
    "(k OR expanded_flags v) AND 0x80 \<noteq> 0 \<longleftrightarrow> en_NamespaceURI v \<noteq> []"
    "(k OR expanded_flags v) AND 0x40 \<noteq> 0 \<longleftrightarrow> en_ServerIndex v > 0"
  using assms by (auto simp: expanded_flags_def)

text \<open>What \<open>ReadExpandedNodeID\<close> does after the node part, for the flags the encoder sets.\<close>

lemma reads_expanded_rest:
  assumes "len_ok (en_NamespaceURI v)" and "k \<in> {0, 1, 2, 3, 4, 5}"
    and body: "\<And>r. read_expanded_node k (body @ r) = (Ok n, r)"
  shows "ReadExpandedNodeID ((k OR expanded_flags v) # body
      @ (if en_NamespaceURI v \<noteq> [] then wire_String (en_NamespaceURI v) else [])
      @ (if en_ServerIndex v > 0 then le_bytes 4 (en_ServerIndex v) else []) @ rest)
    = (Ok (v\<lparr>en_NodeID := n\<rparr>), rest)"
  using assms(1)
  by (cases "en_NamespaceURI v = []"; cases "en_ServerIndex v = 0")
     (simp_all add: ReadExpandedNodeID_def reads bnd_Ok orfail_Ok when_set_def body word_gt_0
        expanded_flag_bits [OF assms(2), simplified word_gt_0 not_not])

lemma reads_ExpandedNodeID [reads]:
  assumes "en_NodeID v = Some m" and "nodeid_len_ok m" and uri: "len_ok (en_NamespaceURI v)"
  shows "ReadExpandedNodeID (wire_ExpandedNodeID v @ rest) = (Ok (norm_ExpandedNodeID v), rest)"
proof -
  let ?ns = "if en_NamespaceURI v \<noteq> [] then 0 else NamespaceIndex m"
  have "\<exists>k body. k \<in> {0, 1, 2, 3, 4, 5}
      \<and> wire_node_body (expanded_flags v) ?ns m = (k OR expanded_flags v) # body
      \<and> (\<forall>r. read_expanded_node k (body @ r) = (Ok (en_NodeID (norm_ExpandedNodeID v)), r))"
  proof (cases m)
    case (NodeIDNumeric x i)
    then consider
        (two) "i \<le> 255 \<and> ?ns = 0"
      | (four) "\<not> (i \<le> 255 \<and> ?ns = 0)" "i \<le> 65535 \<and> ?ns \<le> 255"
      | (full) "\<not> (i \<le> 255 \<and> ?ns = 0)" "\<not> (i \<le> 65535 \<and> ?ns \<le> 255)"
      by blast
    then show ?thesis
    proof cases
      case two
      with NodeIDNumeric assms show ?thesis
        by (intro exI [of _ 0] exI [of _ "[ucast i]"])
           (auto simp: read_expanded_node_def nodeid_reads norm_ExpandedNodeID_def)
    next
      case four
      with NodeIDNumeric assms show ?thesis
        by (intro exI [of _ 1] exI [of _ "ucast ?ns # le_bytes 2 (ucast i :: u16)"])
           (auto simp: read_expanded_node_def nodeid_reads norm_ExpandedNodeID_def split: if_splits)
    next
      case full
      with NodeIDNumeric assms show ?thesis
        by (intro exI [of _ 2] exI [of _ "le_bytes 2 ?ns @ le_bytes 4 i"])
           (auto simp: read_expanded_node_def nodeid_reads norm_ExpandedNodeID_def split: if_splits)
    qed
  next
    case (NodeIDString x i)
    with assms show ?thesis
      by (intro exI [of _ 3] exI [of _ "le_bytes 2 ?ns @ wire_String i"])
         (auto simp: read_expanded_node_def nodeid_reads norm_ExpandedNodeID_def)
  next
    case (NodeIDGUID x i)
    with assms show ?thesis
      by (intro exI [of _ 4] exI [of _ "le_bytes 2 ?ns @ wire_GUID i"])
         (auto simp: read_expanded_node_def nodeid_reads norm_ExpandedNodeID_def)
  next
    case (NodeIDOpaque x i)
    with assms show ?thesis
      by (intro exI [of _ 5] exI [of _ "le_bytes 2 ?ns @ wire_ByteString i"])
         (auto simp: read_expanded_node_def nodeid_reads norm_ExpandedNodeID_def)
  qed
  then obtain k body where k: "k \<in> {0, 1, 2, 3, 4, 5}"
    and w: "wire_node_body (expanded_flags v) ?ns m = (k OR expanded_flags v) # body"
    and r: "\<And>r. read_expanded_node k (body @ r) = (Ok (en_NodeID (norm_ExpandedNodeID v)), r)"
    by blast
  have "v\<lparr>en_NodeID := en_NodeID (norm_ExpandedNodeID v)\<rparr> = norm_ExpandedNodeID v"
    by (simp add: norm_ExpandedNodeID_def)
  then show ?thesis
    using reads_expanded_rest [OF uri k r, of rest] assms(1)
    by (simp only: wire_ExpandedNodeID_def w option.case concat.simps append_Nil2 append_Cons append_assoc)
qed

text \<open>
  The encoder writes the namespace URI and the server index of an expanded node id
  even when its node id is nil, but without the flags that announce them: the
  reader takes the two zero bytes and leaves the rest in the stream.
\<close>

lemma reads_ExpandedNodeID_nil:
  assumes "en_NodeID v = None"
  shows "ReadExpandedNodeID (wire_ExpandedNodeID v @ rest) =
    (Ok NilExpandedNodeID,
     (if en_NamespaceURI v \<noteq> [] then wire_String (en_NamespaceURI v) else [])
      @ (if en_ServerIndex v > 0 then le_bytes 4 (en_ServerIndex v) else []) @ rest)"
proof -
  have "le_bytes 2 (0 :: u16) = [0, 0]" by (simp add: le_bytes_def upt_rec)
  then have "wire_ExpandedNodeID v @ rest = 0 # 0 #
     (if en_NamespaceURI v \<noteq> [] then wire_String (en_NamespaceURI v) else [])
      @ (if en_ServerIndex v > 0 then le_bytes 4 (en_ServerIndex v) else []) @ rest"
    using assms by (simp add: wire_ExpandedNodeID_def)
  then show ?thesis
    by (simp only:)
       (simp add: ReadExpandedNodeID_def read_expanded_node_def reads bnd_Ok orfail_Ok when_set_def
         NilExpandedNodeID_def)
qed

lemma reads_StatusCode [reads]: "ReadStatusCode (le_bytes 4 v @ rest) = (Ok v, rest)"
  by (simp add: ReadStatusCode_def reads bnd_Ok orfail_Ok)

lemma reads_QualifiedName [reads]:
  "len_ok (qn_Name v) \<Longrightarrow> ReadQualifiedName (wire_QualifiedName v @ rest) = (Ok v, rest)"
  by (simp add: ReadQualifiedName_def wire_QualifiedName_def reads bnd_Ok orfail_Ok)

lemma reads_LocalizedText [reads]:
  assumes "len_ok (lt_Text v)" and "len_ok (lt_Locale v)"
  shows "ReadLocalizedText (wire_LocalizedText v @ rest) = (Ok v, rest)"
  using assms
  by (cases "lt_Text v = []"; cases "lt_Locale v = []")
     (simp_all add: ReadLocalizedText_def wire_LocalizedText_def reads bnd_Ok orfail_Ok when_set_def)

section \<open>Times inside the range of the wire format\<close>

definition time_ok :: "gotime \<Rightarrow> bool" where
  "time_ok t \<longleftrightarrow> - 11644473600 \<le> sint (Unix t) \<and> sint (Unix t) < 253402300799
     \<and> Nanosecond t < 1000000000 \<and> Nanosecond t mod 100 = 0"

lemma norm_time_id:
  assumes "time_ok t"
  shows "norm_time t = t"
proof -
  define S where "S = sint (Unix t)"
  define N where "N = Nanosecond t div 100"
  define K where "K = (S + 11644473600) * 10000000 + int N"
  have S: "- 11644473600 \<le> S" "S < 253402300799" and N: "N < 10000000" "N * 100 = Nanosecond t"
    using assms by (auto simp: time_ok_def S_def N_def)
  have U: "Unix t = word_of_int S" by (simp add: S_def)
  have K: "0 \<le> K" "K < 2650467743990000000" using S N(1) by (auto simp: K_def)
  have ticks: "date_ticks t = word_of_int K"
    by (simp add: date_ticks_def U K_def N_def flip: of_nat_div)
  have u: "uint (word_of_int K :: u64) = K"
    using K by (simp add: uint_word_of_int take_bit_int_eq_self)
  have s: "sint (word_of_int K :: u64) = K"
    using K by (simp add: signed_of_int signed_take_bit_int_eq_self)
  have "clamp_ticks (date_ticks t) = word_of_int K"
    using K s by (simp add: clamp_ticks_def ticks Let_def)
  moreover have "(word_of_int K :: u64) \<noteq> 0x7FFFFFFFFFFFFFFF"
  proof
    assume "(word_of_int K :: u64) = 0x7FFFFFFFFFFFFFFF"
    then have "uint (word_of_int K :: u64) = uint (0x7FFFFFFFFFFFFFFF :: u64)" by simp
    with u K show False by simp
  qed
  moreover have "unat (word_of_int K :: u64) = nat K"
    using u by (simp add: unat_eq_nat_uint)
  moreover have "nat K div 10000000 = nat (S + 11644473600)" "nat K mod 10000000 = N"
  proof -
    have "nat K = nat (S + 11644473600) * 10000000 + N"
      using S by (simp add: K_def nat_add_distrib nat_mult_distrib)
    then show "nat K div 10000000 = nat (S + 11644473600)" "nat K mod 10000000 = N"
      using N(1) by simp_all
  qed
  ultimately have "norm_time t = Time (word_of_nat (nat (S + 11644473600)) - 11644473600) (N * 100)"
    using s K by (simp add: norm_time_def ticks_time_def Let_def)
  also have "(word_of_nat (nat (S + 11644473600)) :: u64) = word_of_int (S + 11644473600)"
    using S by simp
  finally show ?thesis
    using N(2) U by (cases t) (simp)
qed

lemma zeroTime_not_ok [simp]: "\<not> time_ok zeroTime"
  by (simp add: time_ok_def zeroTime_def)


end
