(* ===== verification/Wire_Scalars.thy ===== *)
theory Wire_Scalars
  imports Wire_Primitives
begin

text \<open>
  The scalar types a variant can hold, one constructor per Go type, and the
  array writers and readers of \<open>ua/binary_encoder.go\<close> and \<open>ua/binary_decoder.go\<close>,
  one definition per method. A nil slice is \<open>None\<close>. The dispatch functions choose
  the method for a scalar type the way the type switches of \<open>WriteVariant\<close> and
  \<open>ReadVariant\<close> and the reflection of \<open>getEncoder\<close> and \<open>getDecoder\<close> do.
\<close>

section \<open>Scalar types and values\<close>

datatype stype =
    KBool
  | KInt8
  | KUint8
  | KInt16
  | KUint16
  | KInt32
  | KUint32
  | KInt64
  | KUint64
  | KFloat32
  | KFloat64
  | KString
  | KDateTime
  | KGUID
  | KByteString
  | KXMLElement
  | KNodeID
  | KExpandedNodeID
  | KStatusCode
  | KQualifiedName
  | KLocalizedText

datatype scalar =
    SBool (un_Bool: bool)
  | SInt8 (un_Int8: u8)
  | SUint8 (un_Uint8: u8)
  | SInt16 (un_Int16: u16)
  | SUint16 (un_Uint16: u16)
  | SInt32 (un_Int32: u32)
  | SUint32 (un_Uint32: u32)
  | SInt64 (un_Int64: u64)
  | SUint64 (un_Uint64: u64)
  | SFloat32 (un_Float32: u32)
  | SFloat64 (un_Float64: u64)
  | SString (un_String: string)
  | SDateTime (un_DateTime: gotime)
  | SGUID (un_GUID: UUID)
  | SByteString (un_ByteString: ByteString)
  | SXMLElement (un_XMLElement: string)
  | SNodeID (un_NodeID: "NodeID option")
  | SExpandedNodeID (un_ExpandedNodeID: ExpandedNodeID)
  | SStatusCode (un_StatusCode: StatusCode)
  | SQualifiedName (un_QualifiedName: QualifiedName)
  | SLocalizedText (un_LocalizedText: LocalizedText)

fun stype_of :: "scalar \<Rightarrow> stype" where
  "stype_of (SBool _) = KBool"
| "stype_of (SInt8 _) = KInt8"
| "stype_of (SUint8 _) = KUint8"
| "stype_of (SInt16 _) = KInt16"
| "stype_of (SUint16 _) = KUint16"
| "stype_of (SInt32 _) = KInt32"
| "stype_of (SUint32 _) = KUint32"
| "stype_of (SInt64 _) = KInt64"
| "stype_of (SUint64 _) = KUint64"
| "stype_of (SFloat32 _) = KFloat32"
| "stype_of (SFloat64 _) = KFloat64"
| "stype_of (SString _) = KString"
| "stype_of (SDateTime _) = KDateTime"
| "stype_of (SGUID _) = KGUID"
| "stype_of (SByteString _) = KByteString"
| "stype_of (SXMLElement _) = KXMLElement"
| "stype_of (SNodeID _) = KNodeID"
| "stype_of (SExpandedNodeID _) = KExpandedNodeID"
| "stype_of (SStatusCode _) = KStatusCode"
| "stype_of (SQualifiedName _) = KQualifiedName"
| "stype_of (SLocalizedText _) = KLocalizedText"

text \<open>\<open>VariantTypeBoolean\<close> to \<open>VariantTypeLocalizedText\<close>.\<close>

fun variant_code :: "stype \<Rightarrow> byte" where
  "variant_code KBool = 1"
| "variant_code KInt8 = 2"
| "variant_code KUint8 = 3"
| "variant_code KInt16 = 4"
| "variant_code KUint16 = 5"
| "variant_code KInt32 = 6"
| "variant_code KUint32 = 7"
| "variant_code KInt64 = 8"
| "variant_code KUint64 = 9"
| "variant_code KFloat32 = 10"
| "variant_code KFloat64 = 11"
| "variant_code KString = 12"
| "variant_code KDateTime = 13"
| "variant_code KGUID = 14"
| "variant_code KByteString = 15"
| "variant_code KXMLElement = 16"
| "variant_code KNodeID = 17"
| "variant_code KExpandedNodeID = 18"
| "variant_code KStatusCode = 19"
| "variant_code KQualifiedName = 20"
| "variant_code KLocalizedText = 21"

section \<open>Array writers\<close>

text \<open>
  The common shape of the array writers: \<open>-1\<close> for nil, otherwise the length as
  \<open>int32\<close> and the elements, each failing with \<open>BadEncodingError\<close>.
\<close>

definition write_array :: "'b bufops \<Rightarrow> ('b io_writer, unit) act list option \<Rightarrow> ('b io_writer, unit) act" where
  "write_array ops xs = (case xs of
       None \<Rightarrow> WriteInt32 ops (-1)
     | Some ms \<Rightarrow> enc_steps (WriteInt32 ops (word_of_nat (length ms)) # ms))"

definition WriteBooleanArray :: "'b bufops \<Rightarrow> bool list option \<Rightarrow> ('b io_writer, unit) act" where
  "WriteBooleanArray ops v = write_array ops (map_option (map (WriteBoolean ops)) v)"

definition WriteSByteArray :: "'b bufops \<Rightarrow> u8 list option \<Rightarrow> ('b io_writer, unit) act" where
  "WriteSByteArray ops v = write_array ops (map_option (map (WriteSByte ops)) v)"

definition WriteByteArray :: "'b bufops \<Rightarrow> bytes option \<Rightarrow> ('b io_writer, unit) act" where
  "WriteByteArray ops v = (case v of
       None \<Rightarrow> WriteInt32 ops (-1)
     | Some bs \<Rightarrow> seqs [enc_try (WriteInt32 ops (word_of_nat (length bs))), WriteRaw ops bs])"

definition WriteInt16Array :: "'b bufops \<Rightarrow> u16 list option \<Rightarrow> ('b io_writer, unit) act" where
  "WriteInt16Array ops v = write_array ops (map_option (map (WriteInt16 ops)) v)"

definition WriteUInt16Array :: "'b bufops \<Rightarrow> u16 list option \<Rightarrow> ('b io_writer, unit) act" where
  "WriteUInt16Array ops v = write_array ops (map_option (map (WriteUInt16 ops)) v)"

definition WriteInt32Array :: "'b bufops \<Rightarrow> u32 list option \<Rightarrow> ('b io_writer, unit) act" where
  "WriteInt32Array ops v = write_array ops (map_option (map (WriteInt32 ops)) v)"

definition WriteUInt32Array :: "'b bufops \<Rightarrow> u32 list option \<Rightarrow> ('b io_writer, unit) act" where
  "WriteUInt32Array ops v = write_array ops (map_option (map (WriteUInt32 ops)) v)"

definition WriteInt64Array :: "'b bufops \<Rightarrow> u64 list option \<Rightarrow> ('b io_writer, unit) act" where
  "WriteInt64Array ops v = write_array ops (map_option (map (WriteInt64 ops)) v)"

definition WriteUInt64Array :: "'b bufops \<Rightarrow> u64 list option \<Rightarrow> ('b io_writer, unit) act" where
  "WriteUInt64Array ops v = write_array ops (map_option (map (WriteUInt64 ops)) v)"

definition WriteFloatArray :: "'b bufops \<Rightarrow> u32 list option \<Rightarrow> ('b io_writer, unit) act" where
  "WriteFloatArray ops v = write_array ops (map_option (map (WriteFloat ops)) v)"

definition WriteDoubleArray :: "'b bufops \<Rightarrow> u64 list option \<Rightarrow> ('b io_writer, unit) act" where
  "WriteDoubleArray ops v = write_array ops (map_option (map (WriteDouble ops)) v)"

definition WriteStringArray :: "'b bufops \<Rightarrow> string list option \<Rightarrow> ('b io_writer, unit) act" where
  "WriteStringArray ops v = write_array ops (map_option (map (WriteString ops)) v)"

definition WriteDateTimeArray :: "'b bufops \<Rightarrow> gotime list option \<Rightarrow> ('b io_writer, unit) act" where
  "WriteDateTimeArray ops v = write_array ops (map_option (map (WriteDateTime ops)) v)"

definition WriteGUIDArray :: "'b bufops \<Rightarrow> UUID list option \<Rightarrow> ('b io_writer, unit) act" where
  "WriteGUIDArray ops v = write_array ops (map_option (map (WriteGUID ops)) v)"

definition WriteByteStringArray :: "'b bufops \<Rightarrow> ByteString list option \<Rightarrow> ('b io_writer, unit) act" where
  "WriteByteStringArray ops v = write_array ops (map_option (map (WriteByteString ops)) v)"

definition WriteXMLElementArray :: "'b bufops \<Rightarrow> string list option \<Rightarrow> ('b io_writer, unit) act" where
  "WriteXMLElementArray ops v = write_array ops (map_option (map (WriteXMLElement ops)) v)"

definition WriteNodeIDArray :: "'b bufops \<Rightarrow> NodeID option list option \<Rightarrow> ('b io_writer, unit) act" where
  "WriteNodeIDArray ops v = write_array ops (map_option (map (WriteNodeID ops)) v)"

definition WriteExpandedNodeIDArray :: "'b bufops \<Rightarrow> ExpandedNodeID list option \<Rightarrow> ('b io_writer, unit) act" where
  "WriteExpandedNodeIDArray ops v = write_array ops (map_option (map (WriteExpandedNodeID ops)) v)"

definition WriteStatusCodeArray :: "'b bufops \<Rightarrow> StatusCode list option \<Rightarrow> ('b io_writer, unit) act" where
  "WriteStatusCodeArray ops v = write_array ops (map_option (map (WriteStatusCode ops)) v)"

definition WriteQualifiedNameArray :: "'b bufops \<Rightarrow> QualifiedName list option \<Rightarrow> ('b io_writer, unit) act" where
  "WriteQualifiedNameArray ops v = write_array ops (map_option (map (WriteQualifiedName ops)) v)"

definition WriteLocalizedTextArray :: "'b bufops \<Rightarrow> LocalizedText list option \<Rightarrow> ('b io_writer, unit) act" where
  "WriteLocalizedTextArray ops v = write_array ops (map_option (map (WriteLocalizedText ops)) v)"

section \<open>Array readers\<close>

text \<open>
  The common shape of the array readers: a negative length is nil. The element
  reader's error is passed on as it is; most readers wrap it in \<open>BadDecodingError\<close>.
\<close>

definition read_array :: "(bytes, 'a) act \<Rightarrow> (bytes, 'a list option) act" where
  "read_array rd = bnd (dec_try ReadInt32) (\<lambda>n.
     if sint n < 0 then ret None
     else bnd (read_n rd (nat (sint n))) (\<lambda>xs. ret (Some xs)))"

definition ReadBooleanArray :: "(bytes, bool list option) act" where
  "ReadBooleanArray = read_array ReadBoolean"

definition ReadSByteArray :: "(bytes, u8 list option) act" where
  "ReadSByteArray = read_array ReadSByte"

definition ReadByteArray :: "(bytes, bytes option) act" where
  "ReadByteArray = bnd (dec_try ReadInt32) (\<lambda>n.
     if sint n < 0 then ret None
     else bnd (ReadFull (nat (sint n))) (\<lambda>p. ret (Some p)))"

definition ReadInt16Array :: "(bytes, u16 list option) act" where
  "ReadInt16Array = read_array ReadInt16"

definition ReadUInt16Array :: "(bytes, u16 list option) act" where
  "ReadUInt16Array = read_array ReadUInt16"

definition ReadInt32Array :: "(bytes, u32 list option) act" where
  "ReadInt32Array = read_array ReadInt32"

definition ReadUInt32Array :: "(bytes, u32 list option) act" where
  "ReadUInt32Array = read_array ReadUInt32"

definition ReadInt64Array :: "(bytes, u64 list option) act" where
  "ReadInt64Array = read_array ReadInt64"

definition ReadUInt64Array :: "(bytes, u64 list option) act" where
  "ReadUInt64Array = read_array ReadUInt64"

definition ReadFloatArray :: "(bytes, u32 list option) act" where
  "ReadFloatArray = read_array ReadFloat"

definition ReadDoubleArray :: "(bytes, u64 list option) act" where
  "ReadDoubleArray = read_array ReadDouble"

definition ReadStringArray :: "(bytes, string list option) act" where
  "ReadStringArray = read_array (dec_try ReadString)"

definition ReadDateTimeArray :: "(bytes, gotime list option) act" where
  "ReadDateTimeArray = read_array (dec_try ReadDateTime)"

definition ReadGUIDArray :: "(bytes, UUID list option) act" where
  "ReadGUIDArray = read_array (dec_try ReadGUID)"

definition ReadByteStringArray :: "(bytes, ByteString list option) act" where
  "ReadByteStringArray = read_array (dec_try ReadByteString)"

definition ReadXMLElementArray :: "(bytes, string list option) act" where
  "ReadXMLElementArray = read_array (dec_try ReadXMLElement)"

definition ReadNodeIDArray :: "(bytes, NodeID option list option) act" where
  "ReadNodeIDArray = read_array (dec_try ReadNodeID)"

definition ReadExpandedNodeIDArray :: "(bytes, ExpandedNodeID list option) act" where
  "ReadExpandedNodeIDArray = read_array (dec_try ReadExpandedNodeID)"

definition ReadStatusCodeArray :: "(bytes, StatusCode list option) act" where
  "ReadStatusCodeArray = read_array (dec_try ReadStatusCode)"

definition ReadQualifiedNameArray :: "(bytes, QualifiedName list option) act" where
  "ReadQualifiedNameArray = read_array (dec_try ReadQualifiedName)"

definition ReadLocalizedTextArray :: "(bytes, LocalizedText list option) act" where
  "ReadLocalizedTextArray = read_array (dec_try ReadLocalizedText)"

section \<open>Dispatch on the scalar type\<close>

text \<open>The cases \<open>bool\<close> to \<open>LocalizedText\<close> of \<open>WriteVariant\<close>; a nil \<open>NodeID\<close> is the nil variant.\<close>

fun WriteVariantScalar :: "'b bufops \<Rightarrow> scalar \<Rightarrow> ('b io_writer, unit) act" where
  "WriteVariantScalar ops (SBool v) = enc_steps [WriteByte ops 1, WriteBoolean ops v]"
| "WriteVariantScalar ops (SInt8 v) = enc_steps [WriteByte ops 2, WriteSByte ops v]"
| "WriteVariantScalar ops (SUint8 v) = enc_steps [WriteByte ops 3, WriteByte ops v]"
| "WriteVariantScalar ops (SInt16 v) = enc_steps [WriteByte ops 4, WriteInt16 ops v]"
| "WriteVariantScalar ops (SUint16 v) = enc_steps [WriteByte ops 5, WriteUInt16 ops v]"
| "WriteVariantScalar ops (SInt32 v) = enc_steps [WriteByte ops 6, WriteInt32 ops v]"
| "WriteVariantScalar ops (SUint32 v) = enc_steps [WriteByte ops 7, WriteUInt32 ops v]"
| "WriteVariantScalar ops (SInt64 v) = enc_steps [WriteByte ops 8, WriteInt64 ops v]"
| "WriteVariantScalar ops (SUint64 v) = enc_steps [WriteByte ops 9, WriteUInt64 ops v]"
| "WriteVariantScalar ops (SFloat32 v) = enc_steps [WriteByte ops 10, WriteFloat ops v]"
| "WriteVariantScalar ops (SFloat64 v) = enc_steps [WriteByte ops 11, WriteDouble ops v]"
| "WriteVariantScalar ops (SString v) = enc_steps [WriteByte ops 12, WriteString ops v]"
| "WriteVariantScalar ops (SDateTime v) = enc_steps [WriteByte ops 13, WriteDateTime ops v]"
| "WriteVariantScalar ops (SGUID v) = enc_steps [WriteByte ops 14, WriteGUID ops v]"
| "WriteVariantScalar ops (SByteString v) = enc_steps [WriteByte ops 15, WriteByteString ops v]"
| "WriteVariantScalar ops (SXMLElement v) = enc_steps [WriteByte ops 16, WriteXMLElement ops v]"
| "WriteVariantScalar ops (SNodeID None) = WriteByte ops 0"
| "WriteVariantScalar ops (SNodeID (Some v)) = enc_steps [WriteByte ops 17, WriteNodeID ops (Some v)]"
| "WriteVariantScalar ops (SExpandedNodeID v) = enc_steps [WriteByte ops 18, WriteExpandedNodeID ops v]"
| "WriteVariantScalar ops (SStatusCode v) = enc_steps [WriteByte ops 19, WriteStatusCode ops v]"
| "WriteVariantScalar ops (SQualifiedName v) = enc_steps [WriteByte ops 20, WriteQualifiedName ops v]"
| "WriteVariantScalar ops (SLocalizedText v) = enc_steps [WriteByte ops 21, WriteLocalizedText ops v]"

text \<open>The array method of each element type, for a slice of that type.\<close>

fun WriteScalarArray :: "'b bufops \<Rightarrow> stype \<Rightarrow> scalar list option \<Rightarrow> ('b io_writer, unit) act" where
  "WriteScalarArray ops KBool xs = WriteBooleanArray ops (map_option (map un_Bool) xs)"
| "WriteScalarArray ops KInt8 xs = WriteSByteArray ops (map_option (map un_Int8) xs)"
| "WriteScalarArray ops KUint8 xs = WriteByteArray ops (map_option (map un_Uint8) xs)"
| "WriteScalarArray ops KInt16 xs = WriteInt16Array ops (map_option (map un_Int16) xs)"
| "WriteScalarArray ops KUint16 xs = WriteUInt16Array ops (map_option (map un_Uint16) xs)"
| "WriteScalarArray ops KInt32 xs = WriteInt32Array ops (map_option (map un_Int32) xs)"
| "WriteScalarArray ops KUint32 xs = WriteUInt32Array ops (map_option (map un_Uint32) xs)"
| "WriteScalarArray ops KInt64 xs = WriteInt64Array ops (map_option (map un_Int64) xs)"
| "WriteScalarArray ops KUint64 xs = WriteUInt64Array ops (map_option (map un_Uint64) xs)"
| "WriteScalarArray ops KFloat32 xs = WriteFloatArray ops (map_option (map un_Float32) xs)"
| "WriteScalarArray ops KFloat64 xs = WriteDoubleArray ops (map_option (map un_Float64) xs)"
| "WriteScalarArray ops KString xs = WriteStringArray ops (map_option (map un_String) xs)"
| "WriteScalarArray ops KDateTime xs = WriteDateTimeArray ops (map_option (map un_DateTime) xs)"
| "WriteScalarArray ops KGUID xs = WriteGUIDArray ops (map_option (map un_GUID) xs)"
| "WriteScalarArray ops KByteString xs = WriteByteStringArray ops (map_option (map un_ByteString) xs)"
| "WriteScalarArray ops KXMLElement xs = WriteXMLElementArray ops (map_option (map un_XMLElement) xs)"
| "WriteScalarArray ops KNodeID xs = WriteNodeIDArray ops (map_option (map un_NodeID) xs)"
| "WriteScalarArray ops KExpandedNodeID xs = WriteExpandedNodeIDArray ops (map_option (map un_ExpandedNodeID) xs)"
| "WriteScalarArray ops KStatusCode xs = WriteStatusCodeArray ops (map_option (map un_StatusCode) xs)"
| "WriteScalarArray ops KQualifiedName xs = WriteQualifiedNameArray ops (map_option (map un_QualifiedName) xs)"
| "WriteScalarArray ops KLocalizedText xs = WriteLocalizedTextArray ops (map_option (map un_LocalizedText) xs)"

text \<open>The scalar cases of \<open>ReadVariant\<close> (every failure is \<open>BadDecodingError\<close>).\<close>

fun ReadVariantScalar :: "stype \<Rightarrow> (bytes, scalar) act" where
  "ReadVariantScalar KBool = bnd (dec_try ReadBoolean) (\<lambda>v. ret (SBool v))"
| "ReadVariantScalar KInt8 = bnd (dec_try ReadSByte) (\<lambda>v. ret (SInt8 v))"
| "ReadVariantScalar KUint8 = bnd (dec_try ReadByte) (\<lambda>v. ret (SUint8 v))"
| "ReadVariantScalar KInt16 = bnd (dec_try ReadInt16) (\<lambda>v. ret (SInt16 v))"
| "ReadVariantScalar KUint16 = bnd (dec_try ReadUInt16) (\<lambda>v. ret (SUint16 v))"
| "ReadVariantScalar KInt32 = bnd (dec_try ReadInt32) (\<lambda>v. ret (SInt32 v))"
| "ReadVariantScalar KUint32 = bnd (dec_try ReadUInt32) (\<lambda>v. ret (SUint32 v))"
| "ReadVariantScalar KInt64 = bnd (dec_try ReadInt64) (\<lambda>v. ret (SInt64 v))"
| "ReadVariantScalar KUint64 = bnd (dec_try ReadUInt64) (\<lambda>v. ret (SUint64 v))"
| "ReadVariantScalar KFloat32 = bnd (dec_try ReadFloat) (\<lambda>v. ret (SFloat32 v))"
| "ReadVariantScalar KFloat64 = bnd (dec_try ReadDouble) (\<lambda>v. ret (SFloat64 v))"
| "ReadVariantScalar KString = bnd (dec_try ReadString) (\<lambda>v. ret (SString v))"
| "ReadVariantScalar KDateTime = bnd (dec_try ReadDateTime) (\<lambda>v. ret (SDateTime v))"
| "ReadVariantScalar KGUID = bnd (dec_try ReadGUID) (\<lambda>v. ret (SGUID v))"
| "ReadVariantScalar KByteString = bnd (dec_try ReadByteString) (\<lambda>v. ret (SByteString v))"
| "ReadVariantScalar KXMLElement = bnd (dec_try ReadXMLElement) (\<lambda>v. ret (SXMLElement v))"
| "ReadVariantScalar KNodeID = bnd (dec_try ReadNodeID) (\<lambda>v. ret (SNodeID v))"
| "ReadVariantScalar KExpandedNodeID = bnd (dec_try ReadExpandedNodeID) (\<lambda>v. ret (SExpandedNodeID v))"
| "ReadVariantScalar KStatusCode = bnd (dec_try ReadStatusCode) (\<lambda>v. ret (SStatusCode v))"
| "ReadVariantScalar KQualifiedName = bnd (dec_try ReadQualifiedName) (\<lambda>v. ret (SQualifiedName v))"
| "ReadVariantScalar KLocalizedText = bnd (dec_try ReadLocalizedText) (\<lambda>v. ret (SLocalizedText v))"

text \<open>The array method of each element type.\<close>

fun ReadScalarArray :: "stype \<Rightarrow> (bytes, scalar list option) act" where
  "ReadScalarArray KBool = bnd (dec_try ReadBooleanArray) (\<lambda>v. ret (map_option (map SBool) v))"
| "ReadScalarArray KInt8 = bnd (dec_try ReadSByteArray) (\<lambda>v. ret (map_option (map SInt8) v))"
| "ReadScalarArray KUint8 = bnd (dec_try ReadByteArray) (\<lambda>v. ret (map_option (map SUint8) v))"
| "ReadScalarArray KInt16 = bnd (dec_try ReadInt16Array) (\<lambda>v. ret (map_option (map SInt16) v))"
| "ReadScalarArray KUint16 = bnd (dec_try ReadUInt16Array) (\<lambda>v. ret (map_option (map SUint16) v))"
| "ReadScalarArray KInt32 = bnd (dec_try ReadInt32Array) (\<lambda>v. ret (map_option (map SInt32) v))"
| "ReadScalarArray KUint32 = bnd (dec_try ReadUInt32Array) (\<lambda>v. ret (map_option (map SUint32) v))"
| "ReadScalarArray KInt64 = bnd (dec_try ReadInt64Array) (\<lambda>v. ret (map_option (map SInt64) v))"
| "ReadScalarArray KUint64 = bnd (dec_try ReadUInt64Array) (\<lambda>v. ret (map_option (map SUint64) v))"
| "ReadScalarArray KFloat32 = bnd (dec_try ReadFloatArray) (\<lambda>v. ret (map_option (map SFloat32) v))"
| "ReadScalarArray KFloat64 = bnd (dec_try ReadDoubleArray) (\<lambda>v. ret (map_option (map SFloat64) v))"
| "ReadScalarArray KString = bnd (dec_try ReadStringArray) (\<lambda>v. ret (map_option (map SString) v))"
| "ReadScalarArray KDateTime = bnd (dec_try ReadDateTimeArray) (\<lambda>v. ret (map_option (map SDateTime) v))"
| "ReadScalarArray KGUID = bnd (dec_try ReadGUIDArray) (\<lambda>v. ret (map_option (map SGUID) v))"
| "ReadScalarArray KByteString = bnd (dec_try ReadByteStringArray) (\<lambda>v. ret (map_option (map SByteString) v))"
| "ReadScalarArray KXMLElement = bnd (dec_try ReadXMLElementArray) (\<lambda>v. ret (map_option (map SXMLElement) v))"
| "ReadScalarArray KNodeID = bnd (dec_try ReadNodeIDArray) (\<lambda>v. ret (map_option (map SNodeID) v))"
| "ReadScalarArray KExpandedNodeID = bnd (dec_try ReadExpandedNodeIDArray) (\<lambda>v. ret (map_option (map SExpandedNodeID) v))"
| "ReadScalarArray KStatusCode = bnd (dec_try ReadStatusCodeArray) (\<lambda>v. ret (map_option (map SStatusCode) v))"
| "ReadScalarArray KQualifiedName = bnd (dec_try ReadQualifiedNameArray) (\<lambda>v. ret (map_option (map SQualifiedName) v))"
| "ReadScalarArray KLocalizedText = bnd (dec_try ReadLocalizedTextArray) (\<lambda>v. ret (map_option (map SLocalizedText) v))"

text \<open>
  The reflective encoder and decoder choose by the kind of the type: named string
  types are strings, \<open>StatusCode\<close> is a \<open>uint32\<close>. \<open>uuid.UUID\<close> is an array, a kind
  that \<open>getEncoder\<close> and \<open>getDecoder\<close> do not know.
\<close>

fun enc_kind :: "'b bufops \<Rightarrow> scalar \<Rightarrow> ('b io_writer, unit) act" where
  "enc_kind ops (SBool v) = WriteBoolean ops v"
| "enc_kind ops (SInt8 v) = WriteSByte ops v"
| "enc_kind ops (SUint8 v) = WriteByte ops v"
| "enc_kind ops (SInt16 v) = WriteInt16 ops v"
| "enc_kind ops (SUint16 v) = WriteUInt16 ops v"
| "enc_kind ops (SInt32 v) = WriteInt32 ops v"
| "enc_kind ops (SUint32 v) = WriteUInt32 ops v"
| "enc_kind ops (SInt64 v) = WriteInt64 ops v"
| "enc_kind ops (SUint64 v) = WriteUInt64 ops v"
| "enc_kind ops (SFloat32 v) = WriteFloat ops v"
| "enc_kind ops (SFloat64 v) = WriteDouble ops v"
| "enc_kind ops (SString v) = WriteString ops v"
| "enc_kind ops (SDateTime v) = WriteDateTime ops v"
| "enc_kind ops (SGUID v) = throw ErrUnsupportedType"
| "enc_kind ops (SByteString v) = WriteString ops (bytes_str v)"
| "enc_kind ops (SXMLElement v) = WriteString ops v"
| "enc_kind ops (SNodeID v) = WriteNodeID ops v"
| "enc_kind ops (SExpandedNodeID v) = WriteExpandedNodeID ops v"
| "enc_kind ops (SStatusCode v) = WriteUInt32 ops v"
| "enc_kind ops (SQualifiedName v) = WriteQualifiedName ops v"
| "enc_kind ops (SLocalizedText v) = WriteLocalizedText ops v"

fun dec_kind :: "stype \<Rightarrow> (bytes, scalar) act" where
  "dec_kind KBool = bnd ReadBoolean (\<lambda>v. ret (SBool v))"
| "dec_kind KInt8 = bnd ReadSByte (\<lambda>v. ret (SInt8 v))"
| "dec_kind KUint8 = bnd ReadByte (\<lambda>v. ret (SUint8 v))"
| "dec_kind KInt16 = bnd ReadInt16 (\<lambda>v. ret (SInt16 v))"
| "dec_kind KUint16 = bnd ReadUInt16 (\<lambda>v. ret (SUint16 v))"
| "dec_kind KInt32 = bnd ReadInt32 (\<lambda>v. ret (SInt32 v))"
| "dec_kind KUint32 = bnd ReadUInt32 (\<lambda>v. ret (SUint32 v))"
| "dec_kind KInt64 = bnd ReadInt64 (\<lambda>v. ret (SInt64 v))"
| "dec_kind KUint64 = bnd ReadUInt64 (\<lambda>v. ret (SUint64 v))"
| "dec_kind KFloat32 = bnd ReadFloat (\<lambda>v. ret (SFloat32 v))"
| "dec_kind KFloat64 = bnd ReadDouble (\<lambda>v. ret (SFloat64 v))"
| "dec_kind KString = bnd ReadString (\<lambda>v. ret (SString v))"
| "dec_kind KDateTime = bnd ReadDateTime (\<lambda>v. ret (SDateTime v))"
| "dec_kind KGUID = throw ErrUnsupportedType"
| "dec_kind KByteString = bnd ReadString (\<lambda>v. ret (SByteString (str_bytes v)))"
| "dec_kind KXMLElement = bnd ReadString (\<lambda>v. ret (SXMLElement v))"
| "dec_kind KNodeID = bnd ReadNodeID (\<lambda>v. ret (SNodeID v))"
| "dec_kind KExpandedNodeID = bnd ReadExpandedNodeID (\<lambda>v. ret (SExpandedNodeID v))"
| "dec_kind KStatusCode = bnd ReadUInt32 (\<lambda>v. ret (SStatusCode v))"
| "dec_kind KQualifiedName = bnd ReadQualifiedName (\<lambda>v. ret (SQualifiedName v))"
| "dec_kind KLocalizedText = bnd ReadLocalizedText (\<lambda>v. ret (SLocalizedText v))"

section \<open>Wire format of scalars\<close>

fun wire_scalar :: "scalar \<Rightarrow> bytes" where
  "wire_scalar (SBool v) = wire_Boolean v"
| "wire_scalar (SInt8 v) = [v]"
| "wire_scalar (SUint8 v) = [v]"
| "wire_scalar (SInt16 v) = le_bytes 2 v"
| "wire_scalar (SUint16 v) = le_bytes 2 v"
| "wire_scalar (SInt32 v) = le_bytes 4 v"
| "wire_scalar (SUint32 v) = le_bytes 4 v"
| "wire_scalar (SInt64 v) = le_bytes 8 v"
| "wire_scalar (SUint64 v) = le_bytes 8 v"
| "wire_scalar (SFloat32 v) = le_bytes 4 v"
| "wire_scalar (SFloat64 v) = le_bytes 8 v"
| "wire_scalar (SString v) = wire_String v"
| "wire_scalar (SDateTime v) = wire_DateTime v"
| "wire_scalar (SGUID v) = wire_GUID v"
| "wire_scalar (SByteString v) = wire_ByteString v"
| "wire_scalar (SXMLElement v) = wire_String v"
| "wire_scalar (SNodeID v) = wire_NodeID v"
| "wire_scalar (SExpandedNodeID v) = wire_ExpandedNodeID v"
| "wire_scalar (SStatusCode v) = le_bytes 4 v"
| "wire_scalar (SQualifiedName v) = wire_QualifiedName v"
| "wire_scalar (SLocalizedText v) = wire_LocalizedText v"

definition wire_array :: "bytes list option \<Rightarrow> bytes" where
  "wire_array xs = (case xs of None \<Rightarrow> le_bytes 4 (-1 :: u32)
     | Some bss \<Rightarrow> concat (le_bytes 4 (word_of_nat (length bss) :: u32) # bss))"

text \<open>
  Scalars the wire format carries without loss: lengths below \<open>2 ^ 31\<close>, times in
  range and in whole ticks, node ids that are not null ids, expanded node ids
  without a namespace index beside a namespace URI and, when their node id is nil,
  without a namespace URI and a server index.
\<close>

fun scalar_ok :: "scalar \<Rightarrow> bool" where
  "scalar_ok (SString v) = len_ok v"
| "scalar_ok (SDateTime v) = time_ok v"
| "scalar_ok (SByteString v) = len_ok v"
| "scalar_ok (SXMLElement v) = len_ok v"
| "scalar_ok (SNodeID v) = (norm_NodeID v = v \<and> (case v of None \<Rightarrow> True | Some m \<Rightarrow> nodeid_len_ok m))"
| "scalar_ok (SExpandedNodeID v) = (norm_ExpandedNodeID v = v \<and> len_ok (en_NamespaceURI v) \<and>
     (case en_NodeID v of None \<Rightarrow> en_NamespaceURI v = [] \<and> en_ServerIndex v = 0
      | Some m \<Rightarrow> nodeid_len_ok m))"
| "scalar_ok (SQualifiedName v) = len_ok (qn_Name v)"
| "scalar_ok (SLocalizedText v) = (len_ok (lt_Text v) \<and> len_ok (lt_Locale v))"
| "scalar_ok _ = True"

section \<open>Scalars and their arrays are emitted\<close>

lemmas write_array_defs = WriteBooleanArray_def WriteSByteArray_def WriteByteArray_def
  WriteInt16Array_def WriteUInt16Array_def WriteInt32Array_def WriteUInt32Array_def
  WriteInt64Array_def WriteUInt64Array_def WriteFloatArray_def WriteDoubleArray_def
  WriteStringArray_def WriteDateTimeArray_def WriteGUIDArray_def WriteByteStringArray_def
  WriteXMLElementArray_def WriteNodeIDArray_def WriteExpandedNodeIDArray_def
  WriteStatusCodeArray_def WriteQualifiedNameArray_def WriteLocalizedTextArray_def

lemmas read_array_defs = ReadBooleanArray_def ReadSByteArray_def ReadByteArray_def
  ReadInt16Array_def ReadUInt16Array_def ReadInt32Array_def ReadUInt32Array_def
  ReadInt64Array_def ReadUInt64Array_def ReadFloatArray_def ReadDoubleArray_def
  ReadStringArray_def ReadDateTimeArray_def ReadGUIDArray_def ReadByteStringArray_def
  ReadXMLElementArray_def ReadNodeIDArray_def ReadExpandedNodeIDArray_def
  ReadStatusCodeArray_def ReadQualifiedNameArray_def ReadLocalizedTextArray_def

definition wire_variant_scalar :: "scalar \<Rightarrow> bytes" where
  "wire_variant_scalar s = (if s = SNodeID None then [0]
     else concat [[variant_code (stype_of s)], wire_scalar s])"

context buffer_at
begin

lemma emits_write_array:
  assumes "\<And>x. x \<in> set xs \<Longrightarrow> emits (f x) (g x)"
  shows "emits (write_array ops (Some (map f xs))) (wire_array (Some (map g xs)))"
  unfolding write_array_def wire_array_def option.case length_map
  by (rule emits_enc_steps) (simp add: emits_scalar list.rel_map list.rel_refl_strong assms)

lemma emits_write_array_nil: "emits (write_array ops None) (wire_array None)"
  by (simp add: write_array_def wire_array_def emits_scalar)

lemma emits_WriteVariantScalar: "emits (WriteVariantScalar ops s) (wire_variant_scalar s)"
proof (cases "s = SNodeID None")
  case True
  then show ?thesis by (simp add: wire_variant_scalar_def emits_scalar)
next
  case False
  let ?w = "concat [[variant_code (stype_of s)], wire_scalar s]"
  have "emits (WriteVariantScalar ops s) ?w"
  proof (cases s)
    case (SNodeID n)
    with False obtain m where "n = Some m" by auto
    with SNodeID show ?thesis
      by (auto simp: emits_scalar simp del: concat.simps intro!: emits_enc_steps)
  qed (auto simp: emits_scalar simp del: concat.simps intro!: emits_enc_steps)
  with False show ?thesis by (simp add: wire_variant_scalar_def)
qed

lemma emits_scalar_elem:
  "stype_of s = KBool \<Longrightarrow> emits (WriteBoolean ops (un_Bool s)) (wire_scalar s)"
  "stype_of s = KInt8 \<Longrightarrow> emits (WriteSByte ops (un_Int8 s)) (wire_scalar s)"
  "stype_of s = KInt16 \<Longrightarrow> emits (WriteInt16 ops (un_Int16 s)) (wire_scalar s)"
  "stype_of s = KUint16 \<Longrightarrow> emits (WriteUInt16 ops (un_Uint16 s)) (wire_scalar s)"
  "stype_of s = KInt32 \<Longrightarrow> emits (WriteInt32 ops (un_Int32 s)) (wire_scalar s)"
  "stype_of s = KUint32 \<Longrightarrow> emits (WriteUInt32 ops (un_Uint32 s)) (wire_scalar s)"
  "stype_of s = KInt64 \<Longrightarrow> emits (WriteInt64 ops (un_Int64 s)) (wire_scalar s)"
  "stype_of s = KUint64 \<Longrightarrow> emits (WriteUInt64 ops (un_Uint64 s)) (wire_scalar s)"
  "stype_of s = KFloat32 \<Longrightarrow> emits (WriteFloat ops (un_Float32 s)) (wire_scalar s)"
  "stype_of s = KFloat64 \<Longrightarrow> emits (WriteDouble ops (un_Float64 s)) (wire_scalar s)"
  "stype_of s = KString \<Longrightarrow> emits (WriteString ops (un_String s)) (wire_scalar s)"
  "stype_of s = KDateTime \<Longrightarrow> emits (WriteDateTime ops (un_DateTime s)) (wire_scalar s)"
  "stype_of s = KGUID \<Longrightarrow> emits (WriteGUID ops (un_GUID s)) (wire_scalar s)"
  "stype_of s = KByteString \<Longrightarrow> emits (WriteByteString ops (un_ByteString s)) (wire_scalar s)"
  "stype_of s = KXMLElement \<Longrightarrow> emits (WriteXMLElement ops (un_XMLElement s)) (wire_scalar s)"
  "stype_of s = KNodeID \<Longrightarrow> emits (WriteNodeID ops (un_NodeID s)) (wire_scalar s)"
  "stype_of s = KExpandedNodeID \<Longrightarrow> emits (WriteExpandedNodeID ops (un_ExpandedNodeID s)) (wire_scalar s)"
  "stype_of s = KStatusCode \<Longrightarrow> emits (WriteStatusCode ops (un_StatusCode s)) (wire_scalar s)"
  "stype_of s = KQualifiedName \<Longrightarrow> emits (WriteQualifiedName ops (un_QualifiedName s)) (wire_scalar s)"
  "stype_of s = KLocalizedText \<Longrightarrow> emits (WriteLocalizedText ops (un_LocalizedText s)) (wire_scalar s)"
  by (cases s; simp add: emits_scalar)+

lemma concat_byte_scalars:
  "(\<And>x. x \<in> set xs \<Longrightarrow> stype_of x = KUint8) \<Longrightarrow> concat (map wire_scalar xs) = map un_Uint8 xs"
proof (induction xs)
  case (Cons x xs)
  then have "stype_of x = KUint8" by simp
  then show ?case using Cons by (cases x) auto
qed simp

lemma emits_WriteByteArray:
  "emits (WriteByteArray ops (Some bs)) (concat [le_bytes 4 (word_of_nat (length bs) :: u32), bs])"
  unfolding WriteByteArray_def option.case
  by (rule emits_seqs) (simp add: emits_scalar emits_orfail)

lemma emits_WriteScalarArray:
  assumes ty: "\<And>x. x \<in> set xs \<Longrightarrow> stype_of x = k"
  shows "emits (WriteScalarArray ops k (Some xs)) (wire_array (Some (map wire_scalar xs)))"
proof (cases "k = KUint8")
  case True
  with ty have "\<And>x. x \<in> set xs \<Longrightarrow> stype_of x = KUint8" by simp
  then have "concat (map wire_scalar xs) = map un_Uint8 xs" by (rule concat_byte_scalars)
  with True show ?thesis
    using emits_WriteByteArray [of "map un_Uint8 xs"]
    by (simp add: wire_array_def)
next
  case False
  with ty show ?thesis
    by (cases k)
       (simp_all add: write_array_defs comp_def emits_write_array emits_scalar_elem)
qed

lemma emits_WriteScalarArray_nil: "emits (WriteScalarArray ops k None) (wire_array None)"
  by (cases k) (simp_all add: write_array_defs write_array_def wire_array_def emits_scalar)

lemma emits_enc_kind: "stype_of s \<noteq> KGUID \<Longrightarrow> emits (enc_kind ops s) (wire_scalar s)"
  by (cases s) (simp_all add: emits_scalar wire_String_def WriteString_as_ByteString)

end

section \<open>Scalars and their arrays are read back\<close>

lemma reads_ReadVariantScalar:
  assumes "scalar_ok s"
  shows "ReadVariantScalar (stype_of s) (wire_scalar s @ rest) = (Ok s, rest)"
  using assms
proof (cases s)
  case (SExpandedNodeID v)
  show ?thesis
  proof (cases "en_NodeID v")
    case None
    then have v: "v = NilExpandedNodeID"
      using assms SExpandedNodeID by (cases v) (simp add: NilExpandedNodeID_def)
    then have "ReadExpandedNodeID (wire_ExpandedNodeID v @ rest) = (Ok v, rest)"
      using reads_ExpandedNodeID_nil [OF None, of rest] by (simp add: NilExpandedNodeID_def)
    with SExpandedNodeID show ?thesis by (simp add: bnd_Ok orfail_Ok)
  next
    case (Some m)
    with assms SExpandedNodeID show ?thesis
      by (simp add: reads bnd_Ok orfail_Ok)
  qed
next
  case (SNodeID v)
  then have "ReadNodeID (wire_NodeID v @ rest) = (Ok v, rest)"
    using assms reads_NodeID [of v rest] by (cases v) auto
  with SNodeID show ?thesis by (simp add: bnd_Ok orfail_Ok)
qed (simp_all add: reads bnd_Ok orfail_Ok norm_time_id)

lemma reads_byte_string_as_string:
  "len_ok v \<Longrightarrow> ReadString (wire_ByteString v @ rest) = (Ok (bytes_str v), rest)"
  using reads_String [of "bytes_str v" rest] len_ok_str_bytes [of "bytes_str v"]
  by (simp add: wire_String_def)

lemma reads_dec_kind:
  assumes "scalar_ok s" and "stype_of s \<noteq> KGUID"
  shows "dec_kind (stype_of s) (wire_scalar s @ rest) = (Ok s, rest)"
proof (cases s)
  case (SByteString v)
  with assms show ?thesis by (simp add: reads_byte_string_as_string bnd_Ok)
next
  case (SStatusCode v)
  then show ?thesis by (simp add: reads bnd_Ok)
qed (use assms reads_ReadVariantScalar [OF assms(1), of rest]
      in \<open>auto simp: bnd_eq_Ok_conv ReadXMLElement_def\<close>)

lemma read_array_wire:
  assumes "len_ok xs" and "\<And>x rest. x \<in> set xs \<Longrightarrow> rd (f x @ rest) = (Ok (g x), rest)"
  shows "read_array rd (wire_array (Some (map f xs)) @ rest) = (Ok (Some (map g xs)), rest)"
proof -
  have s: "sint (word_of_nat (length xs) :: u32) = int (length xs)"
    using assms(1) by (intro sint_int32_len) (simp add: len_ok_def)
  from read_n_map [where f = f and g = g and rd = rd, OF assms(2)]
  have "read_n rd (length xs) (concat (map f xs) @ rest) = (Ok (map g xs), rest)" by simp
  with s show ?thesis
    by (simp add: read_array_def wire_array_def reads bnd_Ok orfail_Ok)
qed

lemma read_array_wire_nil: "read_array rd (wire_array None @ rest) = (Ok None, rest)"
  by (simp add: read_array_def wire_array_def reads bnd_Ok orfail_Ok)

lemma reads_scalar_elem:
  assumes "scalar_ok s"
  shows
  "stype_of s = KBool \<Longrightarrow> ReadBoolean (wire_scalar s @ rest) = (Ok (un_Bool s), rest)"
  "stype_of s = KInt8 \<Longrightarrow> ReadSByte (wire_scalar s @ rest) = (Ok (un_Int8 s), rest)"
  "stype_of s = KInt16 \<Longrightarrow> ReadInt16 (wire_scalar s @ rest) = (Ok (un_Int16 s), rest)"
  "stype_of s = KUint16 \<Longrightarrow> ReadUInt16 (wire_scalar s @ rest) = (Ok (un_Uint16 s), rest)"
  "stype_of s = KInt32 \<Longrightarrow> ReadInt32 (wire_scalar s @ rest) = (Ok (un_Int32 s), rest)"
  "stype_of s = KUint32 \<Longrightarrow> ReadUInt32 (wire_scalar s @ rest) = (Ok (un_Uint32 s), rest)"
  "stype_of s = KInt64 \<Longrightarrow> ReadInt64 (wire_scalar s @ rest) = (Ok (un_Int64 s), rest)"
  "stype_of s = KUint64 \<Longrightarrow> ReadUInt64 (wire_scalar s @ rest) = (Ok (un_Uint64 s), rest)"
  "stype_of s = KFloat32 \<Longrightarrow> ReadFloat (wire_scalar s @ rest) = (Ok (un_Float32 s), rest)"
  "stype_of s = KFloat64 \<Longrightarrow> ReadDouble (wire_scalar s @ rest) = (Ok (un_Float64 s), rest)"
  "stype_of s = KString \<Longrightarrow> ReadString (wire_scalar s @ rest) = (Ok (un_String s), rest)"
  "stype_of s = KDateTime \<Longrightarrow> ReadDateTime (wire_scalar s @ rest) = (Ok (un_DateTime s), rest)"
  "stype_of s = KGUID \<Longrightarrow> ReadGUID (wire_scalar s @ rest) = (Ok (un_GUID s), rest)"
  "stype_of s = KByteString \<Longrightarrow> ReadByteString (wire_scalar s @ rest) = (Ok (un_ByteString s), rest)"
  "stype_of s = KXMLElement \<Longrightarrow> ReadXMLElement (wire_scalar s @ rest) = (Ok (un_XMLElement s), rest)"
  "stype_of s = KNodeID \<Longrightarrow> ReadNodeID (wire_scalar s @ rest) = (Ok (un_NodeID s), rest)"
  "stype_of s = KExpandedNodeID \<Longrightarrow> ReadExpandedNodeID (wire_scalar s @ rest) = (Ok (un_ExpandedNodeID s), rest)"
  "stype_of s = KStatusCode \<Longrightarrow> ReadStatusCode (wire_scalar s @ rest) = (Ok (un_StatusCode s), rest)"
  "stype_of s = KQualifiedName \<Longrightarrow> ReadQualifiedName (wire_scalar s @ rest) = (Ok (un_QualifiedName s), rest)"
  "stype_of s = KLocalizedText \<Longrightarrow> ReadLocalizedText (wire_scalar s @ rest) = (Ok (un_LocalizedText s), rest)"
  using reads_ReadVariantScalar [OF assms, of rest]
  by (cases s; auto simp: bnd_eq_Ok_conv)+

lemma mk_un_scalar:
  "stype_of s = KBool \<Longrightarrow> SBool (un_Bool s) = s" "stype_of s = KInt8 \<Longrightarrow> SInt8 (un_Int8 s) = s"
  "stype_of s = KUint8 \<Longrightarrow> SUint8 (un_Uint8 s) = s" "stype_of s = KInt16 \<Longrightarrow> SInt16 (un_Int16 s) = s"
  "stype_of s = KUint16 \<Longrightarrow> SUint16 (un_Uint16 s) = s" "stype_of s = KInt32 \<Longrightarrow> SInt32 (un_Int32 s) = s"
  "stype_of s = KUint32 \<Longrightarrow> SUint32 (un_Uint32 s) = s" "stype_of s = KInt64 \<Longrightarrow> SInt64 (un_Int64 s) = s"
  "stype_of s = KUint64 \<Longrightarrow> SUint64 (un_Uint64 s) = s"
  "stype_of s = KFloat32 \<Longrightarrow> SFloat32 (un_Float32 s) = s" "stype_of s = KFloat64 \<Longrightarrow> SFloat64 (un_Float64 s) = s"
  "stype_of s = KString \<Longrightarrow> SString (un_String s) = s" "stype_of s = KDateTime \<Longrightarrow> SDateTime (un_DateTime s) = s"
  "stype_of s = KGUID \<Longrightarrow> SGUID (un_GUID s) = s" "stype_of s = KByteString \<Longrightarrow> SByteString (un_ByteString s) = s"
  "stype_of s = KXMLElement \<Longrightarrow> SXMLElement (un_XMLElement s) = s" "stype_of s = KNodeID \<Longrightarrow> SNodeID (un_NodeID s) = s"
  "stype_of s = KExpandedNodeID \<Longrightarrow> SExpandedNodeID (un_ExpandedNodeID s) = s"
  "stype_of s = KStatusCode \<Longrightarrow> SStatusCode (un_StatusCode s) = s"
  "stype_of s = KQualifiedName \<Longrightarrow> SQualifiedName (un_QualifiedName s) = s"
  "stype_of s = KLocalizedText \<Longrightarrow> SLocalizedText (un_LocalizedText s) = s"
  by (cases s; simp)+

lemma reads_ByteArray:
  assumes "len_ok bs"
  shows "ReadByteArray (concat [le_bytes 4 (word_of_nat (length bs) :: u32), bs] @ rest) = (Ok (Some bs), rest)"
proof -
  have "sint (word_of_nat (length bs) :: u32) = int (length bs)"
    using assms by (intro sint_int32_len) (simp add: len_ok_def)
  then show ?thesis by (simp add: ReadByteArray_def reads bnd_Ok orfail_Ok)
qed

text \<open>A reader of typed elements, tagged with the constructor of their scalar type.\<close>

lemma reads_tagged_array:
  assumes len: "len_ok xs" and ok: "\<And>x. x \<in> set xs \<Longrightarrow> stype_of x = k \<and> scalar_ok x"
    and rd: "\<And>s rest. scalar_ok s \<Longrightarrow> stype_of s = k \<Longrightarrow> rd (wire_scalar s @ rest) = (Ok (un s), rest)"
    and mk: "\<And>s. stype_of s = k \<Longrightarrow> mk (un s) = s"
  shows "bnd (dec_try (read_array rd)) (\<lambda>v. ret (map_option (map mk) v))
      (wire_array (Some (map wire_scalar xs)) @ rest) = (Ok (Some xs), rest)"
    and "bnd (dec_try (read_array (dec_try rd))) (\<lambda>v. ret (map_option (map mk) v))
      (wire_array (Some (map wire_scalar xs)) @ rest) = (Ok (Some xs), rest)"
proof -
  have "map (\<lambda>x. mk (un x)) xs = xs" by (rule map_idI) (use ok mk in blast)
  moreover have "read_array rd (wire_array (Some (map wire_scalar xs)) @ rest) = (Ok (Some (map un xs)), rest)"
    by (rule read_array_wire [OF len]) (use ok rd in blast)
  moreover have "read_array (dec_try rd) (wire_array (Some (map wire_scalar xs)) @ rest)
      = (Ok (Some (map un xs)), rest)"
    by (rule read_array_wire [OF len]) (use ok rd in \<open>simp add: orfail_Ok\<close>)
  ultimately show
    "bnd (dec_try (read_array rd)) (\<lambda>v. ret (map_option (map mk) v))
      (wire_array (Some (map wire_scalar xs)) @ rest) = (Ok (Some xs), rest)"
    "bnd (dec_try (read_array (dec_try rd))) (\<lambda>v. ret (map_option (map mk) v))
      (wire_array (Some (map wire_scalar xs)) @ rest) = (Ok (Some xs), rest)"
    by (simp_all add: bnd_Ok orfail_Ok comp_def)
qed

lemma reads_ScalarArray:
  assumes len: "len_ok xs" and ok: "\<And>x. x \<in> set xs \<Longrightarrow> stype_of x = k \<and> scalar_ok x"
  shows "ReadScalarArray k (wire_array (Some (map wire_scalar xs)) @ rest) = (Ok (Some xs), rest)"
proof (cases "k = KUint8")
  case True
  have c: "concat (map wire_scalar xs) = map un_Uint8 xs"
    by (rule writer.concat_byte_scalars) (use ok True in blast)
  have m: "map (\<lambda>x. SUint8 (un_Uint8 x)) xs = xs"
    by (rule map_idI) (use ok True mk_un_scalar in blast)
  have "len_ok (map un_Uint8 xs)" using len by (simp add: len_ok_def)
  from reads_ByteArray [OF this, of rest] c m True show ?thesis
    by (simp add: wire_array_def bnd_Ok orfail_Ok comp_def)
next
  case False
  with ok show ?thesis
    by (induct k)
       (unfold ReadScalarArray.simps read_array_defs;
         (rule reads_tagged_array [OF len];
            (erule (1) reads_scalar_elem | erule mk_un_scalar | blast)) | simp)+
qed

lemma reads_ScalarArray_nil:
  "ReadScalarArray k (wire_array None @ rest) = (Ok None, rest)"
  by (cases k)
     (simp_all add: read_array_defs read_array_wire_nil bnd_Ok orfail_Ok,
      simp add: wire_array_def reads bnd_Ok orfail_Ok)

end
