(* ===== verification/Codec.thy ===== *)
theory Codec
  imports Wire_Scalars
begin

text \<open>
  The recursive part of the UA binary codec: variants, data values, extension
  objects, diagnostic infos, and the reflective encoder and decoder for structs.
  \<open>goval\<close> is a Go value with its dynamic type, \<open>gotype\<close> the types the reflection
  meets. The encoder functions recurse on the value; the decoder functions carry
  a fuel for the nesting of variants and extension objects, which is enough when
  it exceeds the length of the input.
\<close>

section \<open>Types and values\<close>

datatype DiagnosticInfo = DiagnosticInfo
  (di_SymbolicID: "u32 option") (di_NamespaceURI: "u32 option") (di_Locale: "u32 option")
  (di_LocalizedText: "u32 option") (di_AdditionalInfo: "string option")
  (di_InnerStatusCode: "StatusCode option") (di_InnerDiagnosticInfo: "DiagnosticInfo option")

text \<open>
  Kinds of types: scalars, named integer types (enumerations), the two interface
  types, the structs with a codec of their own, other structs by name and field
  types, pointers to structs, slices.
\<close>

datatype gotype =
    TScalar stype
  | TEnum string
  | TExtensionObject
  | TVariant
  | TDataValue
  | TDiagnosticInfo
  | TStruct string "gotype list"
  | TPtr string "gotype list"
  | TSlice gotype

datatype goval =
    VNil
  | VScalar (un_Scalar: scalar)
  | VEnum string u32
  | VDataValue goval StatusCode gotime u16 gotime u16
  | VDiagnosticInfo DiagnosticInfo
  | VStruct string "gotype list" "goval list"
  | VPtr string "gotype list" "goval list option"
  | VSlice gotype "goval list option"

text \<open>\<open>reflect.TypeOf(v)\<close>; nil has no type.\<close>

fun type_of :: "goval \<Rightarrow> gotype option" where
  "type_of VNil = None"
| "type_of (VScalar s) = Some (TScalar (stype_of s))"
| "type_of (VEnum n _) = Some (TEnum n)"
| "type_of (VDataValue _ _ _ _ _ _) = Some TDataValue"
| "type_of (VDiagnosticInfo _) = Some TDiagnosticInfo"
| "type_of (VStruct n ts _) = Some (TStruct n ts)"
| "type_of (VPtr n ts _) = Some (TPtr n ts)"
| "type_of (VSlice t _) = Some (TSlice t)"

text \<open>\<open>if typ.Kind() == reflect.Ptr { typ = typ.Elem() }\<close>\<close>

fun elem_type :: "gotype \<Rightarrow> gotype" where
  "elem_type (TPtr n ts) = TStruct n ts"
| "elem_type t = t"

section \<open>The registry of encoding ids\<close>

text \<open>\<open>binaryEncodingTypes\<close> and \<open>binaryEncodingIDs\<close> of \<open>ua/binary_registry.go\<close>.\<close>

record registry =
  encodingTypes :: "ExpandedNodeID \<rightharpoonup> gotype"
  encodingIDs :: "gotype \<rightharpoonup> ExpandedNodeID"

definition emptyRegistry :: registry where
  "emptyRegistry = \<lparr>encodingTypes = Map.empty, encodingIDs = Map.empty\<rparr>"

definition RegisterBinaryEncodingID :: "gotype \<Rightarrow> ExpandedNodeID \<Rightarrow> (registry, unit) act" where
  "RegisterBinaryEncodingID typ i = (\<lambda>r.
     (case encodingTypes r i of
        Some t \<Rightarrow> if t \<noteq> typ then (Panic, r) else
          (case encodingIDs r typ of
             Some n \<Rightarrow> if n \<noteq> i then (Panic, r\<lparr>encodingTypes := (encodingTypes r)(i := None)\<rparr>)
                       else (Ok (), r)
           | None \<Rightarrow> (Ok (), r\<lparr>encodingIDs := (encodingIDs r)(typ \<mapsto> i)\<rparr>))
      | None \<Rightarrow>
          (let r1 = r\<lparr>encodingTypes := (encodingTypes r)(i \<mapsto> typ)\<rparr>
           in case encodingIDs r typ of
             Some n \<Rightarrow> if n \<noteq> i then (Panic, r1\<lparr>encodingTypes := (encodingTypes r1)(i := None)\<rparr>)
                       else (Ok (), r1)
           | None \<Rightarrow> (Ok (), r1\<lparr>encodingIDs := (encodingIDs r1)(typ \<mapsto> i)\<rparr>))))"

definition FindBinaryEncodingIDForType :: "registry \<Rightarrow> gotype \<Rightarrow> ExpandedNodeID option" where
  "FindBinaryEncodingIDForType r typ = encodingIDs r typ"

definition FindTypeForBinaryEncodingID :: "registry \<Rightarrow> ExpandedNodeID \<Rightarrow> gotype option" where
  "FindTypeForBinaryEncodingID r i = encodingTypes r i"

section \<open>Diagnostic infos\<close>

fun WriteDiagnosticInfo :: "'b bufops \<Rightarrow> DiagnosticInfo \<Rightarrow> ('b io_writer, unit) act" where
  "WriteDiagnosticInfo ops (DiagnosticInfo symb nsu loc txt add st inner) =
     (let b = (if symb \<noteq> None then 1 else 0) OR (if nsu \<noteq> None then 2 else 0) OR
              (if loc \<noteq> None then 8 else 0) OR (if txt \<noteq> None then 4 else 0) OR
              (if add \<noteq> None then 16 else 0) OR (if st \<noteq> None then 32 else 0) OR
              (if inner \<noteq> None then 64 else 0) :: byte
      in seqs [WriteByte ops b,
        (case symb of Some x \<Rightarrow> WriteInt32 ops x | None \<Rightarrow> ret ()),
        (case nsu of Some x \<Rightarrow> WriteInt32 ops x | None \<Rightarrow> ret ()),
        (case loc of Some x \<Rightarrow> WriteInt32 ops x | None \<Rightarrow> ret ()),
        (case txt of Some x \<Rightarrow> WriteInt32 ops x | None \<Rightarrow> ret ()),
        (case add of Some x \<Rightarrow> WriteString ops x | None \<Rightarrow> ret ()),
        (case st of Some x \<Rightarrow> WriteStatusCode ops x | None \<Rightarrow> ret ()),
        (case inner of Some x \<Rightarrow> WriteDiagnosticInfo ops x | None \<Rightarrow> ret ())])"

text \<open>
  The decoder reads each announced field through the nil pointer of a fresh
  struct: once the bytes are read, the store through it panics.
\<close>

definition store_nil :: "(bytes, 'a) act \<Rightarrow> (bytes, unit) act" where
  "store_nil m = bnd (dec_try m) (\<lambda>_. panic)"

fun ReadDiagnosticInfo :: "nat \<Rightarrow> (bytes, DiagnosticInfo) act" where
  "ReadDiagnosticInfo 0 = nofuel"
| "ReadDiagnosticInfo (Suc fuel) = bnd (dec_try ReadByte) (\<lambda>b.
     bnd (when_set (b AND 1 \<noteq> 0) () (store_nil ReadInt32)) (\<lambda>_.
     bnd (when_set (b AND 2 \<noteq> 0) () (store_nil ReadInt32)) (\<lambda>_.
     bnd (when_set (b AND 8 \<noteq> 0) () (store_nil ReadInt32)) (\<lambda>_.
     bnd (when_set (b AND 4 \<noteq> 0) () (store_nil ReadInt32)) (\<lambda>_.
     bnd (when_set (b AND 16 \<noteq> 0) () (store_nil ReadString)) (\<lambda>_.
     bnd (when_set (b AND 32 \<noteq> 0) () (store_nil ReadStatusCode)) (\<lambda>_.
     bnd (when_set (b AND 64 \<noteq> 0) () (store_nil (ReadDiagnosticInfo fuel))) (\<lambda>_.
     ret (DiagnosticInfo None None None None None None None)))))))))"

section \<open>What the reflection supports\<close>

text \<open>
  \<open>getEncoder\<close> (and \<open>getDecoder\<close>, which has the same cases): whether an encoder can
  be built for the type. Structs are checked field by field before anything is
  written.
\<close>

fun codec_for :: "gotype \<Rightarrow> bool" and codec_for_fields :: "gotype list \<Rightarrow> bool" where
  "codec_for (TScalar k) = (k \<noteq> KGUID)"
| "codec_for (TEnum _) = True"
| "codec_for TExtensionObject = True"
| "codec_for TVariant = True"
| "codec_for TDataValue = True"
| "codec_for TDiagnosticInfo = True"
| "codec_for (TStruct _ ts) = codec_for_fields ts"
| "codec_for (TPtr _ ts) = codec_for_fields ts"
| "codec_for (TSlice t) = codec_for t"
| "codec_for_fields [] = True"
| "codec_for_fields (t # ts) = (codec_for t \<and> codec_for_fields ts)"

section \<open>Multi-dimensional arrays\<close>

fun slice_elems :: "goval \<Rightarrow> goval list" where
  "slice_elems (VSlice _ (Some xs)) = xs"
| "slice_elems _ = []"

definition flatten2D :: "goval list \<Rightarrow> goval list" where
  "flatten2D sl = concat (map slice_elems sl)"

definition flatten3D :: "goval list \<Rightarrow> goval list" where
  "flatten3D sl = concat (map (\<lambda>s. concat (map slice_elems (slice_elems s))) sl)"

definition dims2D :: "goval list \<Rightarrow> u32 list" where
  "dims2D sl = (case sl of [] \<Rightarrow> [0, 0]
     | s # _ \<Rightarrow> [word_of_nat (length sl), word_of_nat (length (slice_elems s))])"

definition dims3D :: "goval list \<Rightarrow> u32 list" where
  "dims3D sl = (case sl of [] \<Rightarrow> [0, 0, 0]
     | s # _ \<Rightarrow> (case slice_elems s of [] \<Rightarrow> [0, 0, 0]
         | s2 # _ \<Rightarrow> [word_of_nat (length sl), word_of_nat (length (slice_elems s)),
                      word_of_nat (length (slice_elems s2))]))"

text \<open>The element types with array cases in \<open>WriteVariant\<close>, and their type code.\<close>

fun array_code :: "gotype \<Rightarrow> byte option" where
  "array_code (TScalar k) = Some (variant_code k)"
| "array_code TExtensionObject = Some 22"
| "array_code TDataValue = Some 23"
| "array_code TVariant = Some 24"
| "array_code _ = None"

text \<open>The cases of \<open>WriteVariant\<close> for slices: element type, type byte, flat elements, dimensions.\<close>

definition slice_plan :: "gotype \<Rightarrow> goval list option \<Rightarrow> (gotype \<times> byte \<times> goval list option \<times> u32 list option) option" where
  "slice_plan t xs =
     (case array_code t of
        Some c \<Rightarrow> Some (t, c OR 0x80, xs, None)
      | None \<Rightarrow> (case t of
          TSlice e \<Rightarrow>
            (let ys = (case xs of None \<Rightarrow> [] | Some ys \<Rightarrow> ys)
             in case array_code e of
               Some c \<Rightarrow> Some (e, c OR 0x80 OR 0x40, Some (flatten2D ys), Some (dims2D ys))
             | None \<Rightarrow> (case e of
                 TSlice e2 \<Rightarrow> (case array_code e2 of
                     Some c \<Rightarrow> Some (e2, c OR 0x80 OR 0x40, Some (flatten3D ys), Some (dims3D ys))
                   | None \<Rightarrow> None)
               | _ \<Rightarrow> None))
        | _ \<Rightarrow> None))"

section \<open>Writing an extension object body\<close>

text \<open>The size of the pooled byte slices of the fallback.\<close>

definition pool_size :: nat where
  "pool_size = 64 * 1024"

text \<open>
  The body of an extension object, written by \<open>body\<close>. On a \<open>BufferAt\<close> the length is
  written as zero first and patched in place afterwards; on another sink the body
  goes to a pooled buffer of 64 KiB and is copied as a byte array.
\<close>

definition write_ext_body :: "'b bufops \<Rightarrow> ('b io_writer, unit) act \<Rightarrow> ('b io_writer, unit) act" where
  "write_ext_body ops body = (\<lambda>w. case w of
       BufferAt b0 \<Rightarrow>
         (let mark = bo_Len ops b0 in
          bnd (enc_try (io_Write ops (replicate 4 0))) (\<lambda>_ w1.
            case w1 of
              BytesWriter x \<Rightarrow> (Panic, w1)
            | BufferAt b1 \<Rightarrow>
                (let start = bo_Len ops b1 in
                 bnd (enc_try body) (\<lambda>_ w2.
                   case w2 of
                     BytesWriter x \<Rightarrow> (Panic, w2)
                   | BufferAt b2 \<Rightarrow>
                       (case bo_WriteAt ops (le_bytes 4 (word_of_nat (bo_Len ops b2 - start) :: u32)) mark b2 of
                          (Ok _, b3) \<Rightarrow> (Ok (), BufferAt b3)
                        | (Err _, b3) \<Rightarrow> (Err (Status BadEncodingError), BufferAt b3)
                        | (Panic, b3) \<Rightarrow> (Panic, BufferAt b3)
                        | (NoFuel, b3) \<Rightarrow> (NoFuel, BufferAt b3))) w1)) w)
     | BytesWriter x \<Rightarrow>
         (case body (BytesWriter (NewWriter (replicate pool_size 0))) of
            (Ok _, BytesWriter y) \<Rightarrow> enc_try (WriteByteArray ops (Some (Writer_Bytes y))) w
          | (Ok _, BufferAt y) \<Rightarrow> (Panic, w)
          | (Err _, _) \<Rightarrow> (Err (Status BadEncodingError), w)
          | (Panic, _) \<Rightarrow> (Panic, w)
          | (NoFuel, _) \<Rightarrow> (NoFuel, w)))"

section \<open>The encoder\<close>

lemma size_mem_list: "(x :: goval) \<in> set xs \<Longrightarrow> size x \<le> size_list size xs"
  by (rule size_list_estimation' [OF _ order_refl])

lemma size_slice_elems: "x \<in> set (slice_elems s) \<Longrightarrow> size x < size s"
  by (induction s rule: slice_elems.induct) (auto dest: size_mem_list)

lemma size_flatten2D: "x \<in> set (flatten2D ys) \<Longrightarrow> size x < Suc (size_list size ys)"
proof -
  assume "x \<in> set (flatten2D ys)"
  then obtain s where "s \<in> set ys" "x \<in> set (slice_elems s)" by (auto simp: flatten2D_def)
  then have "size x < size s" "size s < Suc (size_list size ys)"
    by (simp_all add: size_slice_elems size_list_estimation' less_Suc_eq_le)
  then show ?thesis by simp
qed

lemma size_flatten3D: "x \<in> set (flatten3D ys) \<Longrightarrow> size x < Suc (size_list size ys)"
proof -
  assume "x \<in> set (flatten3D ys)"
  then obtain s r where "s \<in> set ys" "r \<in> set (slice_elems s)" "x \<in> set (slice_elems r)"
    by (auto simp: flatten3D_def)
  then have "size x < size r" "size r < size s" "size s < Suc (size_list size ys)"
    by (simp_all add: size_slice_elems size_list_estimation' less_Suc_eq_le)
  then show ?thesis by simp
qed

lemma size_slice_plan:
  assumes "slice_plan t xs = Some (e, c, Some ys, d)" and "x \<in> set ys"
  shows "size x < size (VSlice t xs)"
proof (cases xs)
  case None
  then have "ys = []"
    using assms(1) by (auto simp: slice_plan_def flatten2D_def flatten3D_def Let_def
        split: option.splits gotype.splits)
  with assms(2) show ?thesis by simp
next
  case (Some zs)
  then have "ys = zs \<or> ys = flatten2D zs \<or> ys = flatten3D zs"
    using assms(1) by (auto simp: slice_plan_def Let_def split: option.splits gotype.splits)
  then have "size x < Suc (size_list size zs)"
    using assms(2) size_flatten2D size_flatten3D
    by (auto simp: less_Suc_eq_le intro: size_list_estimation')
  with Some show ?thesis by simp
qed

function (sequential)
  enc_type :: "'b bufops \<Rightarrow> registry \<Rightarrow> string list \<Rightarrow> gotype \<Rightarrow> goval \<Rightarrow> ('b io_writer, unit) act" and
  enc_fields :: "'b bufops \<Rightarrow> registry \<Rightarrow> string list \<Rightarrow> gotype list \<Rightarrow> goval list \<Rightarrow> ('b io_writer, unit) act" and
  WriteVariant :: "'b bufops \<Rightarrow> registry \<Rightarrow> string list \<Rightarrow> goval \<Rightarrow> ('b io_writer, unit) act" and
  WriteExtensionObject :: "'b bufops \<Rightarrow> registry \<Rightarrow> string list \<Rightarrow> goval \<Rightarrow> ('b io_writer, unit) act" and
  enc_dyn :: "'b bufops \<Rightarrow> registry \<Rightarrow> string list \<Rightarrow> goval \<Rightarrow> ('b io_writer, unit) act" and
  WriteDataValue :: "'b bufops \<Rightarrow> registry \<Rightarrow> string list \<Rightarrow> goval \<Rightarrow> ('b io_writer, unit) act"
where
  "enc_type ops reg uris t v = (case t of
       TExtensionObject \<Rightarrow> WriteExtensionObject ops reg uris v
     | TVariant \<Rightarrow> WriteVariant ops reg uris v
     | TPtr _ ts \<Rightarrow> (case v of
           VPtr _ _ (Some vs) \<Rightarrow> enc_fields ops reg uris ts vs
         | _ \<Rightarrow> throw (Status BadEncodingError))
     | _ \<Rightarrow> enc_dyn ops reg uris v)"
| "enc_fields ops reg uris [] vs = ret ()"
| "enc_fields ops reg uris (t # ts) [] = panic"
| "enc_fields ops reg uris (t # ts) (v # vs) =
     andthen (enc_type ops reg uris t v) (enc_fields ops reg uris ts vs)"
| "WriteVariant ops reg uris v = (case v of
       VNil \<Rightarrow> WriteByte ops 0
     | VScalar s \<Rightarrow> WriteVariantScalar ops s
     | VSlice t xs \<Rightarrow> (case slice_plan t xs of
           None \<Rightarrow> throw (Status BadEncodingError)
         | Some (e, c, ys, dims) \<Rightarrow>
             enc_steps ([WriteByte ops c,
               (case e of
                  TScalar k \<Rightarrow> WriteScalarArray ops k (map_option (map un_Scalar) ys)
                | TExtensionObject \<Rightarrow>
                    write_array ops (map_option (map (\<lambda>x. WriteExtensionObject ops reg uris x)) ys)
                | TDataValue \<Rightarrow>
                    write_array ops (map_option (map (\<lambda>x. WriteDataValue ops reg uris x)) ys)
                | _ \<Rightarrow> write_array ops (map_option (map (\<lambda>x. WriteVariant ops reg uris x)) ys))]
               @ (case dims of None \<Rightarrow> [] | Some d \<Rightarrow> [WriteInt32Array ops (Some d)])))
     | VEnum _ _ \<Rightarrow> throw (Status BadEncodingError)
     | VPtr _ _ _ \<Rightarrow> throw (Status BadEncodingError)
     | _ \<Rightarrow> enc_steps [WriteByte ops 22, WriteExtensionObject ops reg uris v])"
| "WriteExtensionObject ops reg uris v = (case type_of v of
       None \<Rightarrow> enc_steps [WriteNodeID ops None, WriteByte ops 0x00]
     | Some t \<Rightarrow> (case FindBinaryEncodingIDForType reg (elem_type t) of
           None \<Rightarrow> throw (Status BadEncodingError)
         | Some i \<Rightarrow>
             seqs [enc_try (WriteNodeID ops (ToNodeID i uris)), enc_try (WriteByte ops 0x01),
               write_ext_body ops
                 (if codec_for (elem_type t) then enc_dyn ops reg uris v else throw ErrUnsupportedType)]))"
| "enc_dyn ops reg uris v = (case v of
       VNil \<Rightarrow> panic
     | VScalar s \<Rightarrow> enc_kind ops s
     | VEnum _ x \<Rightarrow> WriteInt32 ops x
     | VDataValue _ _ _ _ _ _ \<Rightarrow> WriteDataValue ops reg uris v
     | VDiagnosticInfo d \<Rightarrow> WriteDiagnosticInfo ops d
     | VStruct _ ts vs \<Rightarrow> enc_fields ops reg uris ts vs
     | VPtr _ ts None \<Rightarrow> (if ts = [] then ret () else panic)
     | VPtr _ ts (Some vs) \<Rightarrow> enc_fields ops reg uris ts vs
     | VSlice t xs \<Rightarrow>
         (if t = TScalar KUint8 then WriteByteArray ops (map_option (map (\<lambda>x. un_Uint8 (un_Scalar x))) xs)
          else case xs of
            None \<Rightarrow> WriteInt32 ops 0
          | Some ys \<Rightarrow> (if ys = [] then WriteInt32 ops 0
              else seqs (WriteInt32 ops (word_of_nat (length ys))
                         # map (\<lambda>y. enc_type ops reg uris t y) ys))))"
| "WriteDataValue ops reg uris v = (case v of
       VDataValue val st srct srcp srvt srvp \<Rightarrow>
         (let b = (if val \<noteq> VNil then 1 else 0) OR (if st \<noteq> 0 then 2 else 0) OR
                  (if \<not> IsZero srct then 4 else 0) OR (if srcp \<noteq> 0 then 16 else 0) OR
                  (if \<not> IsZero srvt then 8 else 0) OR (if srvp \<noteq> 0 then 32 else 0) :: byte
          in seqs [WriteByte ops b,
            opt_step (b AND 1 \<noteq> 0) (enc_try (WriteVariant ops reg uris val)),
            opt_step (b AND 2 \<noteq> 0) (enc_try (WriteUInt32 ops st)),
            opt_step (b AND 4 \<noteq> 0) (enc_try (WriteDateTime ops srct)),
            opt_step (b AND 16 \<noteq> 0) (enc_try (WriteUInt16 ops srcp)),
            opt_step (b AND 8 \<noteq> 0) (enc_try (WriteDateTime ops srvt)),
            opt_step (b AND 32 \<noteq> 0) (enc_try (WriteUInt16 ops srvp))])
     | _ \<Rightarrow> panic)"
  by pat_completeness auto
termination
  by (relation "inv_image (less_than <*lex*> less_than) (\<lambda>a. case a of
        Inl (Inl (_, _, _, _, v)) \<Rightarrow> (size v, 4)
      | Inl (Inr (Inl (_, _, _, _, vs))) \<Rightarrow> (size_list size vs, 5)
      | Inl (Inr (Inr (_, _, _, v))) \<Rightarrow> (size v, 3)
      | Inr (Inl (_, _, _, v)) \<Rightarrow> (size v, 2)
      | Inr (Inr (Inl (_, _, _, v))) \<Rightarrow> (size v, 1)
      | Inr (Inr (Inr (_, _, _, v))) \<Rightarrow> (size v, 0 :: nat))")
     (auto dest: size_slice_plan size_mem_list simp: less_Suc_eq_le)

text \<open>The equations unfold at every value; the proofs use them at given constructors.\<close>

declare enc_type.simps [simp del] WriteVariant.simps [simp del] WriteExtensionObject.simps [simp del]
  enc_dyn.simps [simp del] WriteDataValue.simps [simp del]

text \<open>The array writers of the recursive element types and the entry point.\<close>

definition WriteExtensionObjectArray :: "'b bufops \<Rightarrow> registry \<Rightarrow> string list \<Rightarrow> goval list option \<Rightarrow> ('b io_writer, unit) act" where
  "WriteExtensionObjectArray ops reg uris v = write_array ops (map_option (map (WriteExtensionObject ops reg uris)) v)"

definition WriteDataValueArray :: "'b bufops \<Rightarrow> registry \<Rightarrow> string list \<Rightarrow> goval list option \<Rightarrow> ('b io_writer, unit) act" where
  "WriteDataValueArray ops reg uris v = write_array ops (map_option (map (WriteDataValue ops reg uris)) v)"

definition WriteVariantArray :: "'b bufops \<Rightarrow> registry \<Rightarrow> string list \<Rightarrow> goval list option \<Rightarrow> ('b io_writer, unit) act" where
  "WriteVariantArray ops reg uris v = write_array ops (map_option (map (WriteVariant ops reg uris)) v)"

definition WriteDiagnosticInfoArray :: "'b bufops \<Rightarrow> DiagnosticInfo list option \<Rightarrow> ('b io_writer, unit) act" where
  "WriteDiagnosticInfoArray ops v = write_array ops (map_option (map (WriteDiagnosticInfo ops)) v)"

definition Encode :: "'b bufops \<Rightarrow> registry \<Rightarrow> string list \<Rightarrow> goval \<Rightarrow> ('b io_writer, unit) act" where
  "Encode ops reg uris v = (case type_of v of
       None \<Rightarrow> panic
     | Some t \<Rightarrow> if codec_for (elem_type t) then enc_dyn ops reg uris v else throw ErrUnsupportedType)"

section \<open>The decoder\<close>

text \<open>The type codes 1 to 25 of \<open>ReadVariant\<close>.\<close>

definition variant_elem :: "byte \<Rightarrow> gotype option" where
  "variant_elem c =
     map_of (zip [1, 2, 3, 4, 5, 6, 7, 8, 9, 10, 11, 12, 13, 14, 15, 16, 17, 18, 19, 20, 21, 22, 23, 24, 25]
       (map TScalar [KBool, KInt8, KUint8, KInt16, KUint16, KInt32, KUint32, KInt64, KUint64, KFloat32,
          KFloat64, KString, KDateTime, KGUID, KByteString, KXMLElement, KNodeID, KExpandedNodeID,
          KStatusCode, KQualifiedName, KLocalizedText]
        @ [TExtensionObject, TDataValue, TVariant, TDiagnosticInfo])) c"

text \<open>A nil \<open>NodeID\<close> stored in a variant is the nil variant.\<close>

definition scalar_variant :: "scalar \<Rightarrow> goval" where
  "scalar_variant s = (if s = SNodeID None then VNil else VScalar s)"

text \<open>
  \<open>res[i], vals = vals[:d], vals[d:]\<close> for \<open>n\<close> rows. \<open>None\<close> is the panic of a slice
  expression out of range.
\<close>

fun take_rows :: "nat \<Rightarrow> int \<Rightarrow> 'a list \<Rightarrow> ('a list list \<times> 'a list) option" where
  "take_rows 0 d vals = Some ([], vals)"
| "take_rows (Suc n) d vals =
     (if d < 0 \<or> int (length vals) < d then None
      else case take_rows n d (drop (nat d) vals) of
        None \<Rightarrow> None
      | Some (rs, r) \<Rightarrow> Some (take (nat d) vals # rs, r))"

fun take_blocks :: "nat \<Rightarrow> int \<Rightarrow> int \<Rightarrow> 'a list \<Rightarrow> 'a list list list option" where
  "take_blocks 0 d1 d2 vals = Some []"
| "take_blocks (Suc n) d1 d2 vals =
     (if d1 < 0 then None
      else case take_rows (nat d1) d2 vals of
        None \<Rightarrow> None
      | Some (rs, r) \<Rightarrow> map_option (\<lambda>bs. rs # bs) (take_blocks n d1 d2 r))"

definition split2D :: "gotype \<Rightarrow> int \<Rightarrow> int \<Rightarrow> goval list \<Rightarrow> goval option" where
  "split2D e d0 d1 vals =
     (if d0 < 0 then None
      else map_option (\<lambda>(rs, _). VSlice (TSlice e) (Some (map (\<lambda>r. VSlice e (Some r)) rs)))
             (take_rows (nat d0) d1 vals))"

definition split3D :: "gotype \<Rightarrow> int \<Rightarrow> int \<Rightarrow> int \<Rightarrow> goval list \<Rightarrow> goval option" where
  "split3D e d0 d1 d2 vals =
     (if d0 < 0 then None
      else map_option (\<lambda>bs. VSlice (TSlice (TSlice e))
               (Some (map (\<lambda>rs. VSlice (TSlice e) (Some (map (\<lambda>r. VSlice e (Some r)) rs))) bs)))
             (take_blocks (nat d0) d1 d2 vals))"

definition split_dims :: "gotype \<Rightarrow> goval list option \<Rightarrow> u32 list option \<Rightarrow> (bytes, goval) act" where
  "split_dims e vals dims =
     (let vs = (case vals of None \<Rightarrow> [] | Some vs \<Rightarrow> vs) in
      case dims of
        Some [d0, d1] \<Rightarrow>
          (case split2D e (sint d0) (sint d1) vs of None \<Rightarrow> panic | Some v \<Rightarrow> ret v)
      | Some [d0, d1, d2] \<Rightarrow>
          (case split3D e (sint d0) (sint d1) (sint d2) vs of None \<Rightarrow> panic | Some v \<Rightarrow> ret v)
      | _ \<Rightarrow> throw (Status BadDecodingError))"

text \<open>\<open>if err := dec.ReadVariant(&v); err != nil { statusCode = BadDataTypeIDUnknown }\<close>\<close>

definition variant_or_status :: "(bytes, goval) act \<Rightarrow> (bytes, goval \<times> StatusCode) act" where
  "variant_or_status m = (\<lambda>s. case m s of
       (Ok v, s') \<Rightarrow> (Ok (v, 0), s')
     | (Err _, s') \<Rightarrow> (Ok (VNil, BadDataTypeIDUnknown), s')
     | (Panic, s') \<Rightarrow> (Panic, s')
     | (NoFuel, s') \<Rightarrow> (NoFuel, s'))"

function (sequential)
  ReadVariant :: "registry \<Rightarrow> string list \<Rightarrow> nat \<Rightarrow> (bytes, goval) act" and
  ReadExtensionObject :: "registry \<Rightarrow> string list \<Rightarrow> nat \<Rightarrow> (bytes, goval) act" and
  ReadDataValue :: "registry \<Rightarrow> string list \<Rightarrow> nat \<Rightarrow> (bytes, goval) act" and
  dec_type :: "registry \<Rightarrow> string list \<Rightarrow> nat \<Rightarrow> gotype \<Rightarrow> (bytes, goval) act" and
  dec_fields :: "registry \<Rightarrow> string list \<Rightarrow> nat \<Rightarrow> gotype list \<Rightarrow> (bytes, goval list) act" and
  read_elem_array :: "registry \<Rightarrow> string list \<Rightarrow> nat \<Rightarrow> gotype \<Rightarrow> (bytes, goval list option) act"
where
  "ReadVariant reg uris 0 = nofuel"
| "ReadVariant reg uris (Suc fuel) = bnd (dec_try ReadByte) (\<lambda>b.
     if b AND 0x80 = 0 then
       (if b AND 0x3F = 0 then ret VNil
        else case variant_elem (b AND 0x3F) of
          None \<Rightarrow> throw (Status BadDecodingError)
        | Some (TScalar k) \<Rightarrow> bnd (ReadVariantScalar k) (\<lambda>x. ret (scalar_variant x))
        | Some TExtensionObject \<Rightarrow> ReadExtensionObject reg uris fuel
        | Some TDataValue \<Rightarrow> dec_try (ReadDataValue reg uris fuel)
        | Some TVariant \<Rightarrow> dec_try (ReadVariant reg uris fuel)
        | Some _ \<Rightarrow> bnd (dec_try (ReadDiagnosticInfo fuel)) (\<lambda>d. ret (VDiagnosticInfo d)))
     else if b AND 0x40 = 0 then
       (if b AND 0x3F = 0 then ret VNil
        else case variant_elem (b AND 0x3F) of
          None \<Rightarrow> throw (Status BadDecodingError)
        | Some e \<Rightarrow> bnd (dec_try (read_elem_array reg uris fuel e)) (\<lambda>xs. ret (VSlice e xs)))
     else
       (if b AND 0x3F = 0 then ret VNil
        else case variant_elem (b AND 0x3F) of
          None \<Rightarrow> throw (Status BadDecodingError)
        | Some e \<Rightarrow> bnd (dec_try (read_elem_array reg uris fuel e)) (\<lambda>xs.
            bnd (dec_try ReadInt32Array) (\<lambda>dims. split_dims e xs dims))))"
| "ReadExtensionObject reg uris 0 = nofuel"
| "ReadExtensionObject reg uris (Suc fuel) = bnd (dec_try ReadNodeID) (\<lambda>nodeID.
     bnd (dec_try ReadByte) (\<lambda>b.
       if b = 0x00 then ret VNil
       else if b = 0x01 then
         (case FindTypeForBinaryEncodingID reg (ToExpandedNodeID nodeID uris) of
            Some typ \<Rightarrow> bnd (dec_try ReadInt32) (\<lambda>_.
              if codec_for typ then dec_try (dec_type reg uris fuel typ)
              else throw (Status BadDecodingError))
          | None \<Rightarrow> bnd (dec_try ReadByteArray) (\<lambda>_. ret VNil))
       else if b = 0x02 then bnd (dec_try ReadXMLElement) (\<lambda>_. ret VNil)
       else throw (Status BadDecodingError)))"
| "ReadDataValue reg uris fuel = bnd (dec_try ReadByte) (\<lambda>b.
     bnd (when_set (b AND 1 \<noteq> 0) (VNil, 0) (variant_or_status (ReadVariant reg uris fuel))) (\<lambda>vs.
     bnd (when_set (b AND 2 \<noteq> 0 \<and> snd vs = 0) (snd vs) (dec_try ReadStatusCode)) (\<lambda>st.
     bnd (when_set (b AND 4 \<noteq> 0) zeroTime (dec_try ReadDateTime)) (\<lambda>srct.
     bnd (when_set (b AND 16 \<noteq> 0) 0 (dec_try ReadUInt16)) (\<lambda>srcp.
     bnd (when_set (b AND 8 \<noteq> 0) zeroTime (dec_try ReadDateTime)) (\<lambda>srvt.
     bnd (when_set (b AND 32 \<noteq> 0) 0 (dec_try ReadUInt16)) (\<lambda>srvp.
     ret (VDataValue (fst vs) st srct srcp srvt srvp))))))))"
| "dec_type reg uris fuel t = (case t of
       TScalar k \<Rightarrow> bnd (dec_kind k) (\<lambda>x. ret (VScalar x))
     | TEnum n \<Rightarrow> bnd ReadInt32 (\<lambda>x. ret (VEnum n x))
     | TExtensionObject \<Rightarrow> ReadExtensionObject reg uris fuel
     | TVariant \<Rightarrow> ReadVariant reg uris fuel
     | TDataValue \<Rightarrow> ReadDataValue reg uris fuel
     | TDiagnosticInfo \<Rightarrow> bnd (ReadDiagnosticInfo fuel) (\<lambda>d. ret (VDiagnosticInfo d))
     | TStruct n ts \<Rightarrow> bnd (dec_fields reg uris fuel ts) (\<lambda>vs. ret (VStruct n ts vs))
     | TPtr n ts \<Rightarrow> bnd (dec_fields reg uris fuel ts) (\<lambda>vs. ret (VPtr n ts (Some vs)))
     | TSlice e \<Rightarrow>
         (if e = TScalar KUint8 then
            bnd ReadByteArray (\<lambda>xs. ret (VSlice e (map_option (map (\<lambda>x. VScalar (SUint8 x))) xs)))
          else bnd ReadInt32 (\<lambda>n.
            if sint n \<le> 0 then ret (VSlice e (Some []))
            else bnd (read_n (dec_type reg uris fuel e) (nat (sint n))) (\<lambda>xs. ret (VSlice e (Some xs))))))"
| "dec_fields reg uris fuel [] = ret []"
| "dec_fields reg uris fuel (t # ts) = bnd (dec_type reg uris fuel t) (\<lambda>v.
     bnd (dec_fields reg uris fuel ts) (\<lambda>vs. ret (v # vs)))"
| "read_elem_array reg uris fuel e = (case e of
       TScalar k \<Rightarrow> bnd (ReadScalarArray k) (\<lambda>xs. ret (map_option (map VScalar) xs))
     | TExtensionObject \<Rightarrow> read_array (dec_try (ReadExtensionObject reg uris fuel))
     | TDataValue \<Rightarrow> read_array (dec_try (ReadDataValue reg uris fuel))
     | TVariant \<Rightarrow> read_array (dec_try (ReadVariant reg uris fuel))
     | _ \<Rightarrow> read_array (dec_try (bnd (ReadDiagnosticInfo fuel) (\<lambda>d. ret (VDiagnosticInfo d)))))"
  by pat_completeness auto
termination
  by (relation "inv_image (less_than <*lex*> less_than) (\<lambda>a. case a of
        Inl (Inl (_, _, f)) \<Rightarrow> (f, 0)
      | Inl (Inr (Inl (_, _, f))) \<Rightarrow> (f, 0)
      | Inl (Inr (Inr (_, _, f))) \<Rightarrow> (f, 1)
      | Inr (Inl (_, _, f, t)) \<Rightarrow> (f, 2 + size t)
      | Inr (Inr (Inl (_, _, f, ts))) \<Rightarrow> (f, 2 + size_list size ts)
      | Inr (Inr (Inr (_, _, f, t))) \<Rightarrow> (f, 2 :: nat))") auto

definition Decode :: "registry \<Rightarrow> string list \<Rightarrow> nat \<Rightarrow> gotype \<Rightarrow> (bytes, goval) act" where
  "Decode reg uris fuel t =
     (if codec_for t then dec_type reg uris fuel t else throw ErrUnsupportedType)"

declare ReadDataValue.simps [simp del] dec_type.simps [simp del] read_elem_array.simps [simp del]
  ReadVariant.simps(2) [simp del] ReadExtensionObject.simps(2) [simp del]

section \<open>The registry stays consistent\<close>

text \<open>Ids and types are in one-to-one correspondence.\<close>

definition registry_inv :: "registry \<Rightarrow> bool" where
  "registry_inv r \<longleftrightarrow> (\<forall>i t. encodingTypes r i = Some t \<longleftrightarrow> encodingIDs r t = Some i)"

definition conflicts :: "registry \<Rightarrow> gotype \<Rightarrow> ExpandedNodeID \<Rightarrow> bool" where
  "conflicts r typ i \<longleftrightarrow> (case encodingTypes r i of None \<Rightarrow> False | Some t \<Rightarrow> t \<noteq> typ)
     \<or> (case encodingIDs r typ of None \<Rightarrow> False | Some n \<Rightarrow> n \<noteq> i)"

lemma registry_inv_empty: "registry_inv emptyRegistry"
  by (simp add: registry_inv_def emptyRegistry_def)

lemma Register_conflict:
  assumes "registry_inv r" and "conflicts r typ i"
  shows "RegisterBinaryEncodingID typ i r = (Panic, r)"
proof (cases "encodingTypes r i")
  case None
  then have "(encodingTypes r)(i := None) = encodingTypes r" by auto
  with None assms show ?thesis
    by (auto simp: RegisterBinaryEncodingID_def conflicts_def Let_def split: option.splits)
next
  case (Some t)
  moreover have "encodingIDs r t = Some i" using assms(1) Some by (simp add: registry_inv_def)
  ultimately show ?thesis
    using assms by (auto simp: RegisterBinaryEncodingID_def conflicts_def split: option.splits)
qed

lemma Register_fresh:
  assumes "registry_inv r" and "\<not> conflicts r typ i"
  shows "RegisterBinaryEncodingID typ i r =
    (Ok (), r\<lparr>encodingTypes := (encodingTypes r)(i \<mapsto> typ), encodingIDs := (encodingIDs r)(typ \<mapsto> i)\<rparr>)"
proof (cases "encodingTypes r i")
  case None
  then have "encodingTypes r i \<noteq> Some typ" by simp
  then have "encodingIDs r typ \<noteq> Some i" using assms(1) by (simp add: registry_inv_def)
  moreover have "encodingIDs r typ = Some n \<Longrightarrow> n = i" for n using assms(2) by (simp add: conflicts_def)
  ultimately have "encodingIDs r typ = None" by (cases "encodingIDs r typ") auto
  with None show ?thesis by (simp add: RegisterBinaryEncodingID_def)
next
  case (Some t)
  then have t: "t = typ" using assms(2) by (simp add: conflicts_def)
  with Some have "encodingIDs r typ = Some i" using assms(1) by (simp add: registry_inv_def)
  with Some t show ?thesis
    by (simp add: RegisterBinaryEncodingID_def fun_upd_idem)
qed

lemma Register_inv:
  assumes "registry_inv r"
  shows "registry_inv (snd (RegisterBinaryEncodingID typ i r))"
proof (cases "conflicts r typ i")
  case True
  with assms show ?thesis by (simp add: Register_conflict)
next
  case False
  with assms have "\<And>t. encodingTypes r i = Some t \<Longrightarrow> t = typ" "\<And>n. encodingIDs r typ = Some n \<Longrightarrow> n = i"
    by (auto simp: conflicts_def split: option.splits)
  with assms False show ?thesis by (auto simp: Register_fresh registry_inv_def)
qed

end
