(* ===== verification/Float64.thy ===== *)
theory Float64
  imports Prelude "HOL-Library.Log_Nat"
begin

text \<open>
  Go's \<open>float64\<close> as far as the components use it: IEEE 754 binary64 values as
  rationals with infinities and NaN (the sign of zero is not kept), rounding to
  nearest with ties to even, and the operations of the source (comparison,
  product, quotient, \<open>math.Mod\<close>, conversion from and to \<open>uint32\<close>).
\<close>

datatype float64 = NaN | Inf bool | Fin rat

section \<open>Rounding\<close>

text \<open>The exponent \<open>e\<close> with \<open>2 ^ e \<le> x < 2 ^ (e + 1)\<close>.\<close>

definition expo :: "rat \<Rightarrow> int" where
  "expo x = (let (p, q) = quotient_of x; e = bitlen p - bitlen q
     in if x < 2 powi e then e - 1 else e)"

definition half_even :: "rat \<Rightarrow> int" where
  "half_even y = (let f = \<lfloor>y\<rfloor>; d = y - of_int f
     in if d < 1 / 2 then f else if 1 / 2 < d then f + 1 else if even f then f else f + 1)"

definition round_pos :: "rat \<Rightarrow> rat" where
  "round_pos x = (let u = 2 powi (max (expo x) (- 1022) - 52) in of_int (half_even (x / u)) * u)"

definition fin_round :: "rat \<Rightarrow> float64" where
  "fin_round x =
     (if x = 0 then Fin 0
      else let r = round_pos \<bar>x\<bar>
           in if 2 ^ 1024 \<le> r then Inf (x < 0) else Fin (if x < 0 then - r else r))"

section \<open>Operations\<close>

fun f_less :: "float64 \<Rightarrow> float64 \<Rightarrow> bool" where
  "f_less (Fin x) (Fin y) = (x < y)"
| "f_less (Inf s) (Fin y) = s"
| "f_less (Fin x) (Inf s) = (\<not> s)"
| "f_less (Inf s) (Inf s') = (s \<and> \<not> s')"
| "f_less _ _ = False"

fun IsNaN :: "float64 \<Rightarrow> bool" where
  "IsNaN NaN = True"
| "IsNaN _ = False"

fun f_mul :: "float64 \<Rightarrow> float64 \<Rightarrow> float64" where
  "f_mul (Fin x) (Fin y) = fin_round (x * y)"
| "f_mul (Fin x) (Inf s) = (if x = 0 then NaN else Inf (s \<noteq> (x < 0)))"
| "f_mul (Inf s) (Fin y) = (if y = 0 then NaN else Inf (s \<noteq> (y < 0)))"
| "f_mul (Inf s) (Inf s') = Inf (s \<noteq> s')"
| "f_mul _ _ = NaN"

fun f_div :: "float64 \<Rightarrow> float64 \<Rightarrow> float64" where
  "f_div (Fin x) (Fin y) = (if y = 0 then (if x = 0 then NaN else Inf (x < 0)) else fin_round (x / y))"
| "f_div (Fin x) (Inf s) = Fin 0"
| "f_div (Inf s) (Fin y) = Inf (s \<noteq> (y < 0))"
| "f_div _ _ = NaN"

definition rat_trunc :: "rat \<Rightarrow> int" where
  "rat_trunc x = (if x < 0 then - \<lfloor>- x\<rfloor> else \<lfloor>x\<rfloor>)"

text \<open>\<open>math.Mod\<close> is exact.\<close>

fun f_mod :: "float64 \<Rightarrow> float64 \<Rightarrow> float64" where
  "f_mod (Fin x) (Fin y) = (if y = 0 then NaN else Fin (x - y * of_int (rat_trunc (x / y))))"
| "f_mod (Fin x) (Inf s) = Fin x"
| "f_mod _ _ = NaN"

definition f_of_u32 :: "u32 \<Rightarrow> float64" where
  "f_of_u32 n = Fin (of_nat (unat n))"

text \<open>
  \<open>uint32(x)\<close>: truncation. Out of range the result depends on the platform; the
  components do not convert such values (theorems of \<open>Subscription\<close>).
\<close>

fun f_to_u32 :: "float64 \<Rightarrow> u32" where
  "f_to_u32 (Fin x) = word_of_int (rat_trunc x)"
| "f_to_u32 _ = 0"

section \<open>Lemmas\<close>

lemma bitlen_bounds_rat:
  assumes "0 < p"
  shows "2 powi (bitlen p - 1) \<le> (of_int p :: rat)" and "(of_int p :: rat) < 2 powi (bitlen p)"
proof -
  have b: "1 \<le> bitlen p" using assms bitlen_eq_zero_iff [of p] bitlen_nonneg [of p] by linarith
  have "(of_int (2 ^ nat (bitlen p - 1)) :: rat) \<le> of_int p" "(of_int p :: rat) < of_int (2 ^ nat (bitlen p))"
    using bitlen_bounds [OF assms] by (simp_all only: of_int_le_iff of_int_less_iff)
  with b show "2 powi (bitlen p - 1) \<le> (of_int p :: rat)" "(of_int p :: rat) < 2 powi (bitlen p)"
    by (simp_all add: power_int_def)
qed

lemma expo_le:
  assumes "0 < x"
  shows "2 powi (expo x) \<le> x"
proof -
  obtain p q where pq: "quotient_of x = (p, q)" by (cases "quotient_of x")
  have q: "0 < q" and x: "x = of_int p / of_int q"
    using quotient_of_denom_pos [OF pq] quotient_of_div [OF pq] by simp_all
  have p: "0 < p" using assms q x by (simp add: zero_less_divide_iff)
  have "2 powi (bitlen p - 1 - bitlen q) = 2 powi (bitlen p - 1) / (2 powi (bitlen q) :: rat)"
    by (simp add: power_int_diff)
  also have "\<dots> \<le> of_int p / of_int q"
    using bitlen_bounds_rat [OF p] bitlen_bounds_rat [OF q] p q by (intro frac_le) simp_all
  finally have "2 powi (bitlen p - bitlen q - 1) \<le> x" using x by (simp add: algebra_simps)
  then show ?thesis by (simp add: expo_def pq Let_def)
qed

lemma half_even_ge: "of_int k \<le> y \<Longrightarrow> k \<le> half_even y"
  by (auto simp: half_even_def Let_def le_floor_iff [symmetric])

lemma half_even_le: "y \<le> of_int k \<Longrightarrow> half_even y \<le> k"
proof -
  assume y: "y \<le> of_int k"
  then have f: "\<lfloor>y\<rfloor> \<le> k" by linarith
  show ?thesis
  proof (cases "\<lfloor>y\<rfloor> = k")
    case True
    with y have "y - of_int \<lfloor>y\<rfloor> < 1 / 2" by simp
    with f show ?thesis by (simp add: half_even_def Let_def)
  next
    case False
    with f show ?thesis by (simp add: half_even_def Let_def)
  qed
qed

text \<open>Small integers are representable, so rounding does not cross them.\<close>

lemma unit_of_int:
  assumes "e \<le> 52"
  shows "(of_int m :: rat) = of_int (m * 2 ^ nat (52 - e)) * 2 powi (e - 52)"
proof -
  have "(2 :: rat) ^ nat (52 - e) * 2 powi (e - 52) = 2 powi (52 - e) * 2 powi (e - 52)"
    using assms by (simp add: power_int_def)
  also have "\<dots> = 1" by (simp flip: power_int_add)
  finally show ?thesis by simp
qed

lemma round_pos_ge:
  assumes x: "0 < x" and m: "of_int m \<le> x" "m \<le> 2 ^ 53"
  shows "of_int m \<le> round_pos x"
proof -
  let ?e = "max (expo x) (- 1022)" let ?u = "2 powi (?e - 52) :: rat"
  have u: "0 < ?u" by simp
  show ?thesis
  proof (cases "?e \<le> 52")
    case True
    let ?k = "m * 2 ^ nat (52 - ?e)"
    have mk: "of_int m = of_int ?k * ?u" by (rule unit_of_int [OF True])
    then have "of_int ?k \<le> x / ?u" using m(1) u by (simp only: pos_le_divide_eq)
    then have "?k \<le> half_even (x / ?u)" by (rule half_even_ge)
    then have "of_int ?k * ?u \<le> of_int (half_even (x / ?u)) * ?u" using u by (intro mult_right_mono) (simp_all only: of_int_le_iff less_imp_le)
    with mk show ?thesis by (simp only: round_pos_def Let_def)
  next
    case False
    then have e: "?e = expo x" "53 \<le> ?e" by linarith+
    have split: "(2 :: rat) powi ?e = of_int (2 ^ 52) * ?u"
    proof -
      have "(2 :: rat) powi ?e = 2 powi (52 + (?e - 52))" by simp
      also have "\<dots> = 2 powi 52 * ?u" by (rule power_int_add) simp
      finally show ?thesis by simp
    qed
    have "of_int (2 ^ 52) \<le> x / ?u"
      using expo_le [OF x] u split e(1) by (simp only: pos_le_divide_eq)
    then have "2 ^ 52 \<le> half_even (x / ?u)" by (rule half_even_ge)
    then have "of_int (2 ^ 52) * ?u \<le> of_int (half_even (x / ?u)) * ?u" using u by (intro mult_right_mono) (simp_all only: of_int_le_iff less_imp_le)
    moreover have "of_int m \<le> (2 :: rat) powi ?e"
    proof -
      have "(of_int m :: rat) \<le> of_int (2 ^ 53)" using m(2) by (simp only: of_int_le_iff)
      also have "\<dots> = 2 powi 53" by simp
      also have "\<dots> \<le> 2 powi ?e" using e(2) by (intro power_int_increasing) simp_all
      finally show ?thesis .
    qed
    ultimately show ?thesis using split by (simp only: round_pos_def Let_def)
  qed
qed

lemma round_pos_le:
  assumes x: "0 < x" and m: "x \<le> of_int m" "m < 2 ^ 53"
  shows "round_pos x \<le> of_int m"
proof -
  let ?e = "max (expo x) (- 1022)" let ?u = "2 powi (?e - 52) :: rat"
  have u: "0 < ?u" by simp
  have e: "?e \<le> 52"
  proof (rule ccontr)
    assume "\<not> ?e \<le> 52"
    then have "53 \<le> expo x" by linarith
    then have "(2 :: rat) powi 53 \<le> 2 powi (expo x)" by (intro power_int_increasing) simp_all
    with expo_le [OF x] m(1) have "of_int (2 ^ 53) \<le> (of_int m :: rat)" by simp
    with m(2) show False by (simp only: of_int_le_iff)
  qed
  let ?k = "m * 2 ^ nat (52 - ?e)"
  have mk: "of_int m = of_int ?k * ?u" by (rule unit_of_int [OF e])
  then have "x / ?u \<le> of_int ?k" using m(1) u by (simp only: pos_divide_le_eq)
  then have "half_even (x / ?u) \<le> ?k" by (rule half_even_le)
  then have "of_int (half_even (x / ?u)) * ?u \<le> of_int ?k * ?u" using u by (intro mult_right_mono) (simp_all only: of_int_le_iff less_imp_le)
  with mk show ?thesis by (simp only: round_pos_def Let_def)
qed

lemma fin_round_bounds:
  assumes "of_int a \<le> x" "x \<le> of_int b" and "0 \<le> a" and "b < 2 ^ 53"
  shows "\<exists>r. fin_round x = Fin r \<and> of_int a \<le> r \<and> r \<le> of_int b"
proof (cases "x = 0")
  case True
  with assms show ?thesis by (simp add: fin_round_def)
next
  case False
  have a0: "(0 :: rat) \<le> of_int a" using assms(3) by simp
  with False assms(1) have x: "0 < x" by linarith
  have "a \<le> b" using assms(1,2) by (metis of_int_le_iff order_trans)
  with assms(4) have "of_int a \<le> round_pos x" "round_pos x \<le> of_int b"
    using round_pos_ge [OF x assms(1)] round_pos_le [OF x assms(2,4)] by simp_all
  moreover have "round_pos x < 2 ^ 1024"
  proof -
    have "round_pos x \<le> of_int b" by fact
    also have "\<dots> < of_int (2 ^ 1024)" using assms(4) by (simp only: of_int_less_iff) (rule order.strict_trans, assumption, simp)
    finally show ?thesis by simp
  qed
  ultimately show ?thesis using x False by (simp add: fin_round_def Let_def)
qed

lemma fin_round_int:
  assumes "0 \<le> n" and "n < 2 ^ 53"
  shows "fin_round (of_int n) = Fin (of_int n)"
  using fin_round_bounds [of n "of_int n" n] assms by auto

end
