(* ===== verification/Session.thy ===== *)
theory Session
  imports Codec Float64 "HOL-Library.AList"
begin

text \<open>
  A session of the server (\<open>server/session.go\<close>): the queue of publish requests a
  client has parked, the continuation points of its browse calls, its identity and
  its expiry. Instants are nanoseconds; a handler runs at one instant \<open>now\<close>. Writing
  a response to a secure channel is the parameter \<open>wr\<close> (the channel, the request id
  and the response give the error, if any); the operations return the responses
  they wrote. The pair of counters the struct has for each service is a function of
  the service. The descriptive fields of the client, which no handler reads back, are
  left out.
\<close>

section \<open>Messages\<close>

type_synonym instant = int

definition instant_of :: "gotime \<Rightarrow> instant" where
  "instant_of t = sint (Unix t) * 1000000000 + int (Nanosecond t)"

record DataValue =
  Value :: goval
  StatusCode_of :: StatusCode
  SourceTimestamp :: gotime
  SourcePicoseconds :: u16
  ServerTimestamp :: gotime
  ServerPicoseconds :: u16

datatype notification =
    DataChangeNotification "(u32 \<times> DataValue) list"
  | EventNotificationList "(u32 \<times> goval list) list"
  | StatusChangeNotification StatusCode

record NotificationMessage =
  nm_SequenceNumber :: u32
  nm_PublishTime :: instant
  nm_NotificationData :: "notification list"

record PublishRequest =
  pr_RequestHandle :: u32
  pr_Timestamp :: gotime
  pr_TimeoutHint :: u32
  pr_SubscriptionAcknowledgements :: "(u32 \<times> u32) list"

text \<open>The result the \<open>Browse\<close> and \<open>BrowseNext\<close> services give for one node or continuation point.\<close>

datatype 'rd browse_result =
    BrowseStatus StatusCode
  | BrowseRefs "bytes option" "'rd list"

record ReferenceDescription =
  rd_ReferenceTypeID :: "NodeID option"
  rd_IsForward :: bool
  rd_NodeID :: ExpandedNodeID
  rd_BrowseName :: QualifiedName
  rd_DisplayName :: LocalizedText
  rd_NodeClass :: u32
  rd_TypeDefinition :: "ExpandedNodeID"

record BrowsePathTarget =
  bt_TargetID :: ExpandedNodeID
  RemainingPathIndex :: u32

datatype response =
    ServiceFault u32 StatusCode
  | PublishResponse (resp_RequestHandle: u32) (resp_SubscriptionID: u32)
      (resp_AvailableSequenceNumbers: "u32 list") (resp_MoreNotifications: bool)
      (resp_NotificationMessage: NotificationMessage) (resp_Results: "StatusCode list")
  | CreateSubscriptionResponse u32 u32 float64 u32 u32
  | ModifySubscriptionResponse u32 float64 u32 u32
  | SetPublishingModeResponse u32 "StatusCode list"
  | DeleteSubscriptionsResponse u32 "StatusCode list"
  | RepublishResponse u32 NotificationMessage
  | SetMonitoringModeResponse u32 "StatusCode list"
  | DeleteMonitoredItemsResponse u32 "StatusCode list"
  | SetTriggeringResponse u32 "StatusCode list" "StatusCode list"
  | CloseSessionResponse u32
  | CancelResponse u32 u32
  | ReadResponse u32 "DataValue list"
  | WriteResponse u32 "StatusCode list"
  | BrowseResponse u32 "ReferenceDescription browse_result list"
  | BrowseNextResponse u32 "ReferenceDescription browse_result list"
  | TranslateBrowsePathsResponse u32 "(StatusCode \<times> BrowsePathTarget list) list"
  | RegisterNodesResponse u32 "NodeID option list"
  | UnregisterNodesResponse u32
  | AbortMessage StatusCode

type_synonym channel = nat
type_synonym sent = "(channel \<times> u32 \<times> response) list"
type_synonym ch_write = "channel \<Rightarrow> u32 \<Rightarrow> response \<Rightarrow> goerr option"

record publishOp =
  op_ch :: channel
  op_requestId :: u32
  op_req :: PublishRequest
  op_results :: "StatusCode list"

record stateChangeOp =
  sc_subscriptionId :: u32
  sc_message :: NotificationMessage

section \<open>State\<close>

record 'rd browseCP =
  cp_data :: "'rd list"
  cp_max :: int

datatype identity =
    NoIdentity
  | AnonymousIdentity
  | UserNameIdentity string string
  | X509Identity bytes
  | IssuedIdentity bytes

datatype MessageSecurityMode = ModeInvalid | ModeNone | ModeSign | ModeSignAndEncrypt

text \<open>The services with a counter of calls and a counter of errors.\<close>

datatype service =
    SvcRead | SvcHistoryRead | SvcWrite | SvcHistoryUpdate | SvcCall | SvcCreateMonitoredItems
  | SvcModifyMonitoredItems | SvcSetMonitoringMode | SvcSetTriggering | SvcDeleteMonitoredItems
  | SvcCreateSubscription | SvcModifySubscription | SvcSetPublishingMode | SvcPublish | SvcRepublish
  | SvcTransferSubscriptions | SvcDeleteSubscriptions | SvcBrowse | SvcBrowseNext
  | SvcTranslateBrowsePaths | SvcRegisterNodes | SvcUnregisterNodes

text \<open>
  A channel or map that is nil is \<open>None\<close>; the buffered channels hold at most 64
  elements.
\<close>

record 'rd Session =
  sessionId :: "NodeID option"
  sessionName :: string
  authenticationToken :: "NodeID option"
  timeout :: float64
  userIdentity :: identity
  sessionNonce :: ByteString
  lastAccess :: instant
  publishRequests :: "publishOp list option"
  stateChanges :: "stateChangeOp list"
  channelId :: u32
  securityMode :: MessageSecurityMode
  securityPolicyURI :: string
  clientCertificate :: ByteString
  browseCPs :: "(u32 \<times> 'rd browseCP) list option"
  lastBrowseCP :: u32
  maxBrowseContinuationPoints :: int
  requestCount :: u32
  errorCount :: u32
  svcCount :: "service \<Rightarrow> u32"
  svcErrorCount :: "service \<Rightarrow> u32"
  clientUserIdOfSession :: string
  authenticationMechanism :: string
  clientUserIdHistory :: "string list"

definition queue_cap :: nat where
  "queue_cap = 64"

definition NewSession :: "instant \<Rightarrow> NodeID option \<Rightarrow> string \<Rightarrow> NodeID option \<Rightarrow> ByteString \<Rightarrow> float64 \<Rightarrow>
    ByteString \<Rightarrow> u32 \<Rightarrow> 'rd Session" where
  "NewSession now sid name token nonce tmo cert maxCP = \<lparr>
     sessionId = sid, sessionName = name, authenticationToken = token, timeout = tmo,
     userIdentity = NoIdentity, sessionNonce = nonce, lastAccess = now,
     publishRequests = Some [], stateChanges = [], channelId = 0, securityMode = ModeNone,
     securityPolicyURI = SecurityPolicyURINone, clientCertificate = [],
     browseCPs = Some [], lastBrowseCP = 0, maxBrowseContinuationPoints = uint maxCP,
     requestCount = 0, errorCount = 0, svcCount = (\<lambda>_. 0), svcErrorCount = (\<lambda>_. 0),
     clientUserIdOfSession = [], authenticationMechanism = [], clientUserIdHistory = []\<rparr>"

section \<open>Expiry and identity\<close>

text \<open>\<open>time.Duration.Milliseconds\<close> and \<open>int64(f)\<close> truncate towards zero.\<close>

definition quot_int :: "int \<Rightarrow> int \<Rightarrow> int" where
  "quot_int a b = (if a < 0 then - ((- a) div b) else a div b)"

fun f_to_i64 :: "float64 \<Rightarrow> int" where
  "f_to_i64 (Fin x) = rat_trunc x"
| "f_to_i64 _ = - (2 ^ 63)"

definition Session_IsExpired :: "instant \<Rightarrow> 'rd Session \<Rightarrow> bool" where
  "Session_IsExpired now s \<longleftrightarrow> quot_int (now - lastAccess s) 1000000 > f_to_i64 (timeout s)"

definition Session_delete :: "'rd Session \<Rightarrow> 'rd Session" where
  "Session_delete s = s\<lparr>authenticationToken := None, userIdentity := NoIdentity, channelId := 0,
     securityMode := ModeNone, securityPolicyURI := SecurityPolicyURINone, sessionNonce := [],
     clientCertificate := [], publishRequests := None, browseCPs := None, clientUserIdHistory := []\<rparr>"

definition SetUserIdentity :: "identity \<Rightarrow> 'rd Session \<Rightarrow> 'rd Session" where
  "SetUserIdentity value s =
     (let (who, mech) = (case value of
          IssuedIdentity _ \<Rightarrow> (''<issued>'', ''Issued'')
        | X509Identity _ \<Rightarrow> (''<certificate>'', ''X509'')
        | UserNameIdentity n _ \<Rightarrow> (n, ''UserName'')
        | _ \<Rightarrow> (''<anonymous>'', ''Anonymous''))
      in s\<lparr>userIdentity := value, clientUserIdOfSession := who, authenticationMechanism := mech,
           clientUserIdHistory := clientUserIdHistory s @ [who]\<rparr>)"

definition SetSessionNonce :: "ByteString \<Rightarrow> 'rd Session \<Rightarrow> 'rd Session" where
  "SetSessionNonce v s = s\<lparr>sessionNonce := v\<rparr>"

definition SetLastAccess :: "instant \<Rightarrow> 'rd Session \<Rightarrow> 'rd Session" where
  "SetLastAccess v s = s\<lparr>lastAccess := v\<rparr>"

definition SetSecureChannelId :: "u32 \<Rightarrow> 'rd Session \<Rightarrow> 'rd Session" where
  "SetSecureChannelId v s = s\<lparr>channelId := v\<rparr>"

definition SetSecurityMode :: "MessageSecurityMode \<Rightarrow> 'rd Session \<Rightarrow> 'rd Session" where
  "SetSecurityMode v s = s\<lparr>securityMode := v\<rparr>"

definition SetSecurityPolicyURI :: "string \<Rightarrow> 'rd Session \<Rightarrow> 'rd Session" where
  "SetSecurityPolicyURI v s = s\<lparr>securityPolicyURI := v\<rparr>"

section \<open>Publish requests\<close>

text \<open>
  \<open>addPublishRequest\<close> retries until the queue takes the request. Outer \<open>None\<close>: the
  call blocks for ever, as a receive from a nil channel does.
\<close>

fun add_publish :: "ch_write \<Rightarrow> publishOp \<Rightarrow> publishOp list \<Rightarrow> goerr option \<times> sent \<times> publishOp list" where
  "add_publish wr x q =
     (if length q < queue_cap then (None, [], q @ [x])
      else case q of
        [] \<Rightarrow> (None, [], [x])
      | op # q' \<Rightarrow>
          (let f = ServiceFault (pr_RequestHandle (op_req op)) BadTooManyPublishRequests
           in case wr (op_ch op) (op_requestId op) f of
                Some e \<Rightarrow> (Some e, [], q')
              | None \<Rightarrow> (case add_publish wr x q' of
                  (r, out, q'') \<Rightarrow> (r, (op_ch op, op_requestId op, f) # out, q''))))"

definition addPublishRequest ::
    "ch_write \<Rightarrow> publishOp \<Rightarrow> 'rd Session \<Rightarrow> (goerr option \<times> sent \<times> 'rd Session) option" where
  "addPublishRequest wr x s = (case publishRequests s of
       None \<Rightarrow> None
     | Some q \<Rightarrow> (case add_publish wr x q of
         (r, out, q') \<Rightarrow> Some (r, out, s\<lparr>publishRequests := Some q'\<rparr>)))"

definition op_expired :: "instant \<Rightarrow> publishOp \<Rightarrow> bool" where
  "op_expired now op \<longleftrightarrow> now > instant_of (pr_Timestamp (op_req op)) + uint (pr_TimeoutHint (op_req op)) * 1000000"

fun remove_publish ::
    "ch_write \<Rightarrow> instant \<Rightarrow> publishOp list \<Rightarrow> (publishOp option \<times> goerr option) \<times> sent \<times> publishOp list" where
  "remove_publish wr now [] = ((None, None), [], [])"
| "remove_publish wr now (op # q) =
     (if op_expired now op then
        (let f = ServiceFault (pr_RequestHandle (op_req op)) BadTimeout
         in case wr (op_ch op) (op_requestId op) f of
              Some e \<Rightarrow> ((None, Some e), [], q)
            | None \<Rightarrow> (case remove_publish wr now q of
                (r, out, q') \<Rightarrow> (r, (op_ch op, op_requestId op, f) # out, q')))
      else ((Some op, None), [], q))"

definition removePublishRequest ::
    "ch_write \<Rightarrow> instant \<Rightarrow> 'rd Session \<Rightarrow> (publishOp option \<times> goerr option) \<times> sent \<times> 'rd Session" where
  "removePublishRequest wr now s = (case publishRequests s of
       None \<Rightarrow> ((None, None), [], s)
     | Some q \<Rightarrow> (case remove_publish wr now q of
         (r, out, q') \<Rightarrow> (r, out, s\<lparr>publishRequests := Some q'\<rparr>)))"

section \<open>Browse continuation points\<close>

definition addBrowseContinuationPoint :: "'rd list \<Rightarrow> int \<Rightarrow> ('rd Session, bytes) act" where
  "addBrowseContinuationPoint data mx = (\<lambda>s.
     (let cps = (case browseCPs s of None \<Rightarrow> [] | Some m \<Rightarrow> m) in
      if maxBrowseContinuationPoints s > 0 \<and> int (length cps) \<ge> maxBrowseContinuationPoints s
      then (Err (Status BadNoContinuationPoints), s)
      else let i = lastBrowseCP s + 1; s1 = s\<lparr>lastBrowseCP := i\<rparr> in
        (case browseCPs s of
           None \<Rightarrow> (Panic, s1)
         | Some m \<Rightarrow> (Ok (le_bytes 4 i), s1\<lparr>browseCPs := Some (AList.update i \<lparr>cp_data = data, cp_max = mx\<rparr> m)\<rparr>))))"

definition removeBrowseContinuationPoint ::
    "bytes option \<Rightarrow> ('rd Session, ('rd list \<times> int) option) act" where
  "removeBrowseContinuationPoint cp = (\<lambda>s. case cp of
       None \<Rightarrow> (Ok None, s)
     | Some bs \<Rightarrow>
         (if length bs < 4 then (Panic, s)
          else let i = le_word (take 4 bs); m = (case browseCPs s of None \<Rightarrow> [] | Some m \<Rightarrow> m) in
            (case map_of m i of
               Some x \<Rightarrow> (Ok (Some (cp_data x, cp_max x)), s\<lparr>browseCPs := Some (AList.delete i m)\<rparr>)
             | None \<Rightarrow> (Ok None, s))))"

definition BadContinuationPointInvalid :: StatusCode where
  "BadContinuationPointInvalid = 0x804A0000"

definition browseNext :: "bool \<Rightarrow> bytes \<Rightarrow> ('rd Session, 'rd browse_result) act" where
  "browseNext release cp =
     (if cp = [] then ret (BrowseStatus Good)
      else bnd (removeBrowseContinuationPoint (Some cp)) (\<lambda>r. case r of
          None \<Rightarrow> ret (BrowseStatus BadContinuationPointInvalid)
        | Some (rds, mx) \<Rightarrow>
            (if release then ret (BrowseStatus 0)
             else if int (length rds) > mx then
               (if mx < 0 then panic
                else (\<lambda>s. case addBrowseContinuationPoint (drop (nat mx) rds) mx s of
                     (Ok cp', s') \<Rightarrow> (Ok (BrowseRefs (Some cp') (take (nat mx) rds)), s')
                   | (Err _, s') \<Rightarrow> (Ok (BrowseStatus BadNoContinuationPoints), s')
                   | (Panic, s') \<Rightarrow> (Panic, s')
                   | (NoFuel, s') \<Rightarrow> (NoFuel, s')))
             else ret (BrowseRefs None rds))))"

section \<open>The queue of publish requests\<close>

declare add_publish.simps [simp del]

lemma add_publish_room: "length q < queue_cap \<Longrightarrow> add_publish wr x q = (None, [], q @ [x])"
  by (simp add: add_publish.simps)

lemma add_publish_full:
  assumes "length (op # q) = queue_cap"
  shows "add_publish wr x (op # q) =
    (let f = ServiceFault (pr_RequestHandle (op_req op)) BadTooManyPublishRequests
     in case wr (op_ch op) (op_requestId op) f of
          Some e \<Rightarrow> (Some e, [], q)
        | None \<Rightarrow> (None, [(op_ch op, op_requestId op, f)], q @ [x]))"
  using assms by (subst add_publish.simps) (auto simp: Let_def add_publish_room split: option.splits)

lemma add_publish_bounded:
  assumes "length q \<le> queue_cap" and "add_publish wr x q = (r, out, q')"
  shows "length q' \<le> queue_cap \<and> (r = None \<longrightarrow> last q' = x \<and> q' \<noteq> [])"
proof (cases "length q < queue_cap")
  case True
  with assms show ?thesis by (auto simp: add_publish_room)
next
  case False
  with assms(1) have len: "length q = queue_cap" by simp
  then obtain op t where q: "q = op # t" by (cases q) (auto simp: queue_cap_def)
  with add_publish_full [of op t wr x] len assms(2) show ?thesis
    by (auto simp: Let_def split: option.splits)
qed

lemma remove_publish_fresh:
  "remove_publish wr now q = ((Some op, e), out, q') \<Longrightarrow> \<not> op_expired now op \<and> e = None \<and> (\<exists>pre. q = pre @ op # q')"
proof (induction q arbitrary: out)
  case (Cons a q)
  show ?case
  proof (cases "op_expired now a")
    case True
    with Cons.prems obtain out' where "remove_publish wr now q = ((Some op, e), out', q')"
      by (auto simp: Let_def split: option.splits prod.splits)
    from Cons.IH [OF this] show ?thesis by (metis append_Cons)
  next
    case False
    with Cons.prems show ?thesis by auto
  qed
qed simp

text \<open>When the channels accept the faults, every expired request in front is answered with a timeout.\<close>

definition timeout_fault :: "publishOp \<Rightarrow> channel \<times> u32 \<times> response" where
  "timeout_fault op = (op_ch op, op_requestId op, ServiceFault (pr_RequestHandle (op_req op)) BadTimeout)"

lemma remove_publish_spec:
  assumes "\<And>op. op \<in> set (takeWhile (op_expired now) q) \<Longrightarrow>
     wr (op_ch op) (op_requestId op) (ServiceFault (pr_RequestHandle (op_req op)) BadTimeout) = None"
  shows "remove_publish wr now q =
    ((case dropWhile (op_expired now) q of [] \<Rightarrow> None | op # _ \<Rightarrow> Some op, None),
     map timeout_fault (takeWhile (op_expired now) q), tl (dropWhile (op_expired now) q))"
  using assms by (induction q) (simp_all add: timeout_fault_def)

lemma remove_publish_length:
  "remove_publish wr now q = (r, out, q') \<Longrightarrow> length q' \<le> length q"
  by (induction q arbitrary: r out q') (fastforce simp: Let_def split: if_splits option.splits prod.splits)+

section \<open>Invariant\<close>

definition queue_ok :: "publishOp list option \<Rightarrow> bool" where
  "queue_ok q \<longleftrightarrow> (case q of None \<Rightarrow> True | Some q \<Rightarrow> length q \<le> queue_cap)"

definition cps_ok :: "int \<Rightarrow> (u32 \<times> 'rd browseCP) list option \<Rightarrow> bool" where
  "cps_ok mx cps \<longleftrightarrow> (case cps of None \<Rightarrow> True
     | Some m \<Rightarrow> distinct (map fst m) \<and> (mx > 0 \<longrightarrow> int (length m) \<le> mx))"

definition session_inv :: "'rd Session \<Rightarrow> bool" where
  "session_inv s \<longleftrightarrow> queue_ok (publishRequests s) \<and> cps_ok (maxBrowseContinuationPoints s) (browseCPs s)"

lemmas session_inv_defs = session_inv_def queue_ok_def cps_ok_def

lemma session_inv_New: "session_inv (NewSession now sid name token nonce tmo cert maxCP)"
  by (simp add: session_inv_defs NewSession_def)

lemma session_inv_delete: "session_inv (Session_delete s)"
  by (simp add: session_inv_defs Session_delete_def)

lemma session_inv_SetUserIdentity: "session_inv s \<Longrightarrow> session_inv (SetUserIdentity v s)"
  by (cases v) (simp_all add: session_inv_def SetUserIdentity_def)

lemma session_inv_queue:
  "session_inv s \<Longrightarrow> length q \<le> queue_cap \<Longrightarrow> session_inv (s\<lparr>publishRequests := Some q\<rparr>)"
  by (simp add: session_inv_def queue_ok_def)

lemma session_inv_addPublish:
  assumes inv: "session_inv s" and add: "addPublishRequest wr x s = Some (r, out, s')"
  shows "session_inv s'"
proof -
  from add obtain q q' where q: "publishRequests s = Some q" "add_publish wr x q = (r, out, q')"
      "s' = s\<lparr>publishRequests := Some q'\<rparr>"
    by (auto simp: addPublishRequest_def split: option.splits prod.splits)
  moreover have "length q \<le> queue_cap" using inv q(1) by (simp add: session_inv_defs)
  ultimately show ?thesis using inv add_publish_bounded [of q wr x r out q'] by (simp add: session_inv_queue)
qed

lemma session_inv_removePublish:
  assumes inv: "session_inv s" and rem: "removePublishRequest wr now s = (r, out, s')"
  shows "session_inv s'"
proof (cases "publishRequests s")
  case None
  with assms show ?thesis by (simp add: removePublishRequest_def)
next
  case (Some q)
  with rem obtain q' where q': "remove_publish wr now q = (r, out, q')" "s' = s\<lparr>publishRequests := Some q'\<rparr>"
    by (auto simp: removePublishRequest_def split: prod.splits)
  moreover have "length q \<le> queue_cap" using inv Some by (simp add: session_inv_defs)
  ultimately show ?thesis using inv remove_publish_length [OF q'(1)] by (simp add: session_inv_queue)
qed

lemma length_update: "length (AList.update k v m) = (if k \<in> fst ` set m then length m else Suc (length m))"
  by (induction m) auto

lemma length_delete_le: "length (AList.delete k m) \<le> length m"
  by (simp add: AList.delete_eq)

lemma session_inv_addBrowse:
  assumes "session_inv s"
  shows "session_inv (snd (addBrowseContinuationPoint d mx s))"
  using assms
  by (auto simp: session_inv_defs addBrowseContinuationPoint_def Let_def length_update distinct_update
      split: option.splits)

lemma session_inv_removeBrowse:
  assumes "session_inv s"
  shows "session_inv (snd (removeBrowseContinuationPoint cp s))"
proof -
  have "distinct (map fst (AList.delete k m))" if "distinct (map fst m)" for k and m :: "(u32 \<times> 'a browseCP) list"
    using that by (rule distinct_delete)
  moreover have "int (length (AList.delete k m)) \<le> n" if "int (length m) \<le> n" for k and m :: "(u32 \<times> 'a browseCP) list" and n
    using that length_delete_le [of k m] by linarith
  ultimately show ?thesis
    using assms by (auto simp: session_inv_defs removeBrowseContinuationPoint_def Let_def split: option.splits)
qed

section \<open>Paging through a browse result\<close>

lemma le_word_take4: "le_word (take 4 (le_bytes 4 (i :: u32))) = i"
  by (simp add: le_word_le_bytes)

text \<open>A client that follows the continuation points.\<close>

fun drain :: "nat \<Rightarrow> bytes \<Rightarrow> ('rd Session, 'rd list) act" where
  "drain 0 cp = nofuel"
| "drain (Suc n) cp = bnd (browseNext False cp) (\<lambda>r. case r of
       BrowseRefs None rds \<Rightarrow> ret rds
     | BrowseRefs (Some cp') rds \<Rightarrow> bnd (drain n cp') (\<lambda>rest. ret (rds @ rest))
     | BrowseStatus c \<Rightarrow> throw (Status c))"

lemma length_delete_mem:
  "map_of m k = Some v \<Longrightarrow> length (AList.delete k m) < length m"
  by (induction m) (auto simp: length_delete_le less_Suc_eq_le split: if_splits)

lemma browseNext_page:
  assumes inv: "session_inv s" and m: "browseCPs s = Some m" "map_of m i = Some \<lparr>cp_data = d, cp_max = mx\<rparr>"
    and mx: "0 < mx" "mx < int (length d)"
  shows "browseNext False (le_bytes 4 i) s =
     (Ok (BrowseRefs (Some (le_bytes 4 (lastBrowseCP s + 1))) (take (nat mx) d)),
      s\<lparr>lastBrowseCP := lastBrowseCP s + 1,
        browseCPs := Some (AList.update (lastBrowseCP s + 1) \<lparr>cp_data = drop (nat mx) d, cp_max = mx\<rparr> (AList.delete i m))\<rparr>)"
proof -
  have "length (AList.delete i m) < length m" using m(2) by (rule length_delete_mem)
  then have "\<not> (maxBrowseContinuationPoints s > 0 \<and> int (length (AList.delete i m)) \<ge> maxBrowseContinuationPoints s)"
    using inv m(1) by (auto simp: session_inv_defs)
  with m mx show ?thesis
    by (simp add: browseNext_def removeBrowseContinuationPoint_def addBrowseContinuationPoint_def
        le_word_le_bytes bnd_def Let_def)
qed

lemma drain_all:
  assumes "session_inv s" and "browseCPs s = Some m" and "map_of m i = Some \<lparr>cp_data = d, cp_max = mx\<rparr>"
    and "0 < mx" and "length d < n"
  shows "\<exists>s'. drain n (le_bytes 4 i) s = (Ok d, s')"
  using assms
proof (induction n arbitrary: s m i d)
  case (Suc n)
  show ?case
  proof (cases "mx < int (length d)")
    case False
    with Suc.prems show ?thesis
      by (simp add: browseNext_def removeBrowseContinuationPoint_def le_word_le_bytes bnd_def Let_def)
  next
    case True
    note page = browseNext_page [OF Suc.prems(1-4) True]
    let ?j = "lastBrowseCP s + 1"
    let ?m = "AList.update ?j \<lparr>cp_data = drop (nat mx) d, cp_max = mx\<rparr> (AList.delete i m)"
    let ?s = "s\<lparr>lastBrowseCP := ?j, browseCPs := Some ?m\<rparr>"
    have "session_inv ?s"
      using Suc.prems(1,2) length_delete_mem [OF Suc.prems(3)]
      by (auto simp: session_inv_defs length_update distinct_update distinct_delete)
    moreover have "map_of ?m ?j = Some \<lparr>cp_data = drop (nat mx) d, cp_max = mx\<rparr>" by (simp add: update_conv')
    moreover have "length (drop (nat mx) d) < n" using Suc.prems(4,5) True by auto
    ultimately obtain s' where "drain n (le_bytes 4 ?j) ?s = (Ok (drop (nat mx) d), s')"
      using Suc.IH [of ?s ?m ?j "drop (nat mx) d"] Suc.prems(4) by auto
    with page show ?thesis by (simp add: bnd_Ok)
  qed
qed simp

lemma removeBrowse_short:
  "length bs < 4 \<Longrightarrow> removeBrowseContinuationPoint (Some bs) s = (Panic, s)"
  by (simp add: removeBrowseContinuationPoint_def)

section \<open>Reachable sessions\<close>

text \<open>
  The states a session goes through: any sequence of the operations of
  \<open>session.go\<close>, with whatever the channels answer. An operation that blocks has no
  step.
\<close>

inductive session_reach :: "'rd Session \<Rightarrow> bool" where
  new: "session_reach (NewSession now sid name token nonce tmo cert maxCP)"
| add: "session_reach s \<Longrightarrow> addPublishRequest wr x s = Some (r, out, s') \<Longrightarrow> session_reach s'"
| remove: "session_reach s \<Longrightarrow> removePublishRequest wr now s = (res, out, s') \<Longrightarrow> session_reach s'"
| add_cp: "session_reach s \<Longrightarrow> session_reach (snd (addBrowseContinuationPoint d mx s))"
| remove_cp: "session_reach s \<Longrightarrow> session_reach (snd (removeBrowseContinuationPoint cp s))"
| identify: "session_reach s \<Longrightarrow> session_reach (SetUserIdentity v s)"
| nonce: "session_reach s \<Longrightarrow> session_reach (SetSessionNonce n s)"
| access: "session_reach s \<Longrightarrow> session_reach (SetLastAccess t s)"
| channel: "session_reach s \<Longrightarrow> session_reach (SetSecureChannelId c s)"
| mode: "session_reach s \<Longrightarrow> session_reach (SetSecurityMode m s)"
| policy: "session_reach s \<Longrightarrow> session_reach (SetSecurityPolicyURI u s)"
| delete: "session_reach s \<Longrightarrow> session_reach (Session_delete s)"

lemma session_inv_setters:
  "session_inv s \<Longrightarrow> session_inv (SetSessionNonce n s)"
  "session_inv s \<Longrightarrow> session_inv (SetLastAccess t s)"
  "session_inv s \<Longrightarrow> session_inv (SetSecureChannelId c s)"
  "session_inv s \<Longrightarrow> session_inv (SetSecurityMode m s)"
  "session_inv s \<Longrightarrow> session_inv (SetSecurityPolicyURI u s)"
  by (simp_all add: session_inv_def SetSessionNonce_def SetLastAccess_def SetSecureChannelId_def SetSecurityMode_def
    SetSecurityPolicyURI_def)

lemma session_reach_inv: "session_reach s \<Longrightarrow> session_inv s"
proof (induction rule: session_reach.induct)
  case (add s wr x r out s')
  from session_inv_addPublish [OF add.IH add.hyps(2)] show ?case .
next
  case (remove s wr now res out s')
  from session_inv_removePublish [OF remove.IH remove.hyps(2)] show ?case .
qed (rule session_inv_New session_inv_addBrowse session_inv_removeBrowse session_inv_SetUserIdentity
       session_inv_setters session_inv_delete; assumption?)+

end
