(* ===== verification/Monitored_Item.thy ===== *)
theory Monitored_Item
  imports Session
begin

text \<open>
  The monitored items of a subscription (\<open>server/datachange_monitored_item.go\<close>,
  \<open>server/event_monitored_item.go\<close>): sampling and filtering of data changes, the
  bounded notification queue, triggering. An operation that touches the
  subscription of the item or the items it triggers returns these effects beside
  the new item. The value the server reads for an item is an argument.
\<close>

section \<open>Floats of variants\<close>

text \<open>The bit patterns of \<open>float32\<close> and \<open>float64\<close> values in variants.\<close>

definition f64_of_bits :: "u64 \<Rightarrow> float64" where
  "f64_of_bits w =
     (let s = bit w 63; e = uint (drop_bit 52 w AND 0x7FF); f = uint (w AND 0xFFFFFFFFFFFFF)
      in if e = 0x7FF then (if f = 0 then Inf s else NaN)
         else let m = (if e = 0 then of_int f * 2 powi (- 1074) else of_int (2 ^ 52 + f) * 2 powi (e - 1075))
              in Fin (if s then - m else m))"

definition f32_of_bits :: "u32 \<Rightarrow> float64" where
  "f32_of_bits w =
     (let s = bit w 31; e = uint (drop_bit 23 w AND 0xFF); f = uint (w AND 0x7FFFFF)
      in if e = 0xFF then (if f = 0 then Inf s else NaN)
         else let m = (if e = 0 then of_int f * 2 powi (- 149) else of_int (2 ^ 23 + f) * 2 powi (e - 150))
              in Fin (if s then - m else m))"

definition f_eq :: "float64 \<Rightarrow> float64 \<Rightarrow> bool" where
  "f_eq a b \<longleftrightarrow> a \<noteq> NaN \<and> a = b"

definition f_le :: "float64 \<Rightarrow> float64 \<Rightarrow> bool" where
  "f_le a b \<longleftrightarrow> f_less a b \<or> f_eq a b"

fun f_sub :: "float64 \<Rightarrow> float64 \<Rightarrow> float64" where
  "f_sub (Fin x) (Fin y) = fin_round (x - y)"
| "f_sub (Fin x) (Inf s) = Inf (\<not> s)"
| "f_sub (Inf s) (Fin y) = Inf s"
| "f_sub (Inf s) (Inf s') = (if s = s' then NaN else Inf s)"
| "f_sub _ _ = NaN"

fun f_abs :: "float64 \<Rightarrow> float64" where
  "f_abs (Fin x) = Fin \<bar>x\<bar>"
| "f_abs (Inf s) = Inf False"
| "f_abs NaN = NaN"

text \<open>\<open>reflect.DeepEqual\<close> on variants that do not share memory.\<close>

fun scalar_eq :: "scalar \<Rightarrow> scalar \<Rightarrow> bool" where
  "scalar_eq (SFloat32 a) s = (case s of SFloat32 b \<Rightarrow> f_eq (f32_of_bits a) (f32_of_bits b) | _ \<Rightarrow> False)"
| "scalar_eq (SFloat64 a) s = (case s of SFloat64 b \<Rightarrow> f_eq (f64_of_bits a) (f64_of_bits b) | _ \<Rightarrow> False)"
| "scalar_eq r s = (r = s)"

fun deep_equal :: "goval \<Rightarrow> goval \<Rightarrow> bool" and deep_equal_list :: "goval list \<Rightarrow> goval list \<Rightarrow> bool" where
  "deep_equal VNil w = (w = VNil)"
| "deep_equal (VScalar a) w = (case w of VScalar b \<Rightarrow> scalar_eq a b | _ \<Rightarrow> False)"
| "deep_equal (VEnum n x) w = (w = VEnum n x)"
| "deep_equal (VDataValue v st a b c d) w = (case w of
       VDataValue v' st' a' b' c' d' \<Rightarrow> deep_equal v v' \<and> (st, a, b, c, d) = (st', a', b', c', d')
     | _ \<Rightarrow> False)"
| "deep_equal (VDiagnosticInfo d) w = (w = VDiagnosticInfo d)"
| "deep_equal (VStruct n ts vs) w = (case w of
       VStruct n' ts' vs' \<Rightarrow> n = n' \<and> ts = ts' \<and> deep_equal_list vs vs' | _ \<Rightarrow> False)"
| "deep_equal (VPtr n ts None) w = (w = VPtr n ts None)"
| "deep_equal (VPtr n ts (Some vs)) w = (case w of
       VPtr n' ts' (Some vs') \<Rightarrow> n = n' \<and> ts = ts' \<and> deep_equal_list vs vs' | _ \<Rightarrow> False)"
| "deep_equal (VSlice t None) w = (w = VSlice t None)"
| "deep_equal (VSlice t (Some xs)) w = (case w of
       VSlice t' (Some ys) \<Rightarrow> t = t' \<and> deep_equal_list xs ys | _ \<Rightarrow> False)"
| "deep_equal_list [] ys = (ys = [])"
| "deep_equal_list (x # xs) ys = (case ys of [] \<Rightarrow> False | y # ys' \<Rightarrow> deep_equal x y \<and> deep_equal_list xs ys')"

section \<open>Deadband\<close>

text \<open>
  \<open>equalDeadbandAbsolute\<close>. Integers are subtracted at 64 bits. The elements of a
  slice are compared as \<open>reflect.Value\<close> structs, which no case accepts, so a slice
  of other than bytes only equals another when it is empty or shares its memory
  (\<open>shared\<close>); the same holds of a GUID, which is an array.
\<close>

definition int_close :: "int \<Rightarrow> float64 \<Rightarrow> bool" where
  "int_close d deadband = f_le (f_abs (fin_round (of_int d))) deadband"

fun scalar_deadband :: "scalar \<Rightarrow> scalar \<Rightarrow> float64 \<Rightarrow> bool" where
  "scalar_deadband (SInt8 a) s db = (case s of SInt8 b \<Rightarrow> int_close (sint (scast a - scast b :: u64)) db | _ \<Rightarrow> False)"
| "scalar_deadband (SInt16 a) s db = (case s of SInt16 b \<Rightarrow> int_close (sint (scast a - scast b :: u64)) db | _ \<Rightarrow> False)"
| "scalar_deadband (SInt32 a) s db = (case s of SInt32 b \<Rightarrow> int_close (sint (scast a - scast b :: u64)) db | _ \<Rightarrow> False)"
| "scalar_deadband (SInt64 a) s db = (case s of SInt64 b \<Rightarrow> int_close (sint (a - b)) db | _ \<Rightarrow> False)"
| "scalar_deadband (SUint8 a) s db = (case s of SUint8 b \<Rightarrow> int_close (uint (ucast a - ucast b :: u64)) db | _ \<Rightarrow> False)"
| "scalar_deadband (SUint16 a) s db = (case s of SUint16 b \<Rightarrow> int_close (uint (ucast a - ucast b :: u64)) db | _ \<Rightarrow> False)"
| "scalar_deadband (SUint32 a) s db = (case s of SUint32 b \<Rightarrow> int_close (uint (ucast a - ucast b :: u64)) db | _ \<Rightarrow> False)"
| "scalar_deadband (SStatusCode a) s db = (case s of SStatusCode b \<Rightarrow> int_close (uint (ucast a - ucast b :: u64)) db | _ \<Rightarrow> False)"
| "scalar_deadband (SUint64 a) s db = (case s of SUint64 b \<Rightarrow> int_close (uint (a - b)) db | _ \<Rightarrow> False)"
| "scalar_deadband (SFloat32 a) s db = (case s of SFloat32 b \<Rightarrow> f_le (f_abs (f_sub (f32_of_bits a) (f32_of_bits b))) db | _ \<Rightarrow> False)"
| "scalar_deadband (SFloat64 a) s db = (case s of SFloat64 b \<Rightarrow> f_le (f_abs (f_sub (f64_of_bits a) (f64_of_bits b))) db | _ \<Rightarrow> False)"
| "scalar_deadband _ s db = False"

fun equalDeadbandAbsolute :: "bool \<Rightarrow> goval \<Rightarrow> goval \<Rightarrow> float64 \<Rightarrow> bool" where
  "equalDeadbandAbsolute shared VNil p db = (p = VNil)"
| "equalDeadbandAbsolute shared (VScalar a) p db = (case p of VScalar b \<Rightarrow> scalar_deadband a b db | _ \<Rightarrow> False)"
| "equalDeadbandAbsolute shared (VEnum n a) p db = (case p of
       VEnum n' b \<Rightarrow> n = n' \<and> int_close (sint (scast a - scast b :: u64)) db | _ \<Rightarrow> False)"
| "equalDeadbandAbsolute shared (VSlice t xs) p db = (case p of
       VSlice t' ys \<Rightarrow> t = t' \<and> (xs = None \<longleftrightarrow> ys = None) \<and>
         (let xs' = (case xs of None \<Rightarrow> [] | Some l \<Rightarrow> l); ys' = (case ys of None \<Rightarrow> [] | Some l \<Rightarrow> l)
          in length xs' = length ys' \<and>
             (shared \<or> (if t = TScalar KUint8 then xs' = ys' else xs' = [])))
     | _ \<Rightarrow> False)"
| "equalDeadbandAbsolute shared c p db = False"

section \<open>Filters\<close>

datatype MonitoringMode = Disabled | Sampling | Reporting

datatype DataChangeTrigger = TriggerStatus | TriggerStatusValue | TriggerStatusValueTimestamp | TriggerOther

datatype DeadbandType = DeadbandNone | DeadbandAbsolute | DeadbandPercent | DeadbandOther

record DataChangeFilter =
  Trigger :: DataChangeTrigger
  DeadbandType_of :: DeadbandType
  DeadbandValue :: float64

text \<open>The filters of events, and what a client may send as a filter.\<close>

record SimpleAttributeOperand =
  so_TypeDefinitionID :: "NodeID option"
  so_BrowsePath :: "QualifiedName list"
  so_AttributeID :: u32
  so_IndexRange :: string

datatype FilterOperand =
    LiteralOperand goval
  | SimpleAttribute SimpleAttributeOperand
  | ElementOperand u32
  | OtherOperand

record ContentFilterElement =
  FilterOperator :: u32
  FilterOperands :: "FilterOperand list"

record EventFilter =
  SelectClauses :: "SimpleAttributeOperand list"
  WhereClause :: "ContentFilterElement list"

datatype monitoring_filter =
    NilFilter
  | ADataChangeFilter DataChangeFilter
  | AnEventFilter EventFilter
  | OtherFilter

record ReadValueID =
  rv_NodeID :: "NodeID option"
  rv_AttributeID :: u32
  rv_IndexRange :: string
  rv_DataEncoding :: QualifiedName

datatype TimestampsToReturn = TimestampsSource | TimestampsServer | TimestampsBoth | TimestampsNeither | TimestampsInvalid

definition withTimestamps :: "DataValue \<Rightarrow> TimestampsToReturn \<Rightarrow> DataValue" where
  "withTimestamps v ttr = (case ttr of
       TimestampsSource \<Rightarrow> v\<lparr>SourcePicoseconds := 0, ServerTimestamp := zeroTime, ServerPicoseconds := 0\<rparr>
     | TimestampsServer \<Rightarrow> v\<lparr>SourceTimestamp := zeroTime, SourcePicoseconds := 0, ServerPicoseconds := 0\<rparr>
     | TimestampsNeither \<Rightarrow> v\<lparr>SourceTimestamp := zeroTime, SourcePicoseconds := 0,
                             ServerTimestamp := zeroTime, ServerPicoseconds := 0\<rparr>
     | _ \<Rightarrow> v)"

definition value_change :: "bool \<Rightarrow> DataChangeFilter \<Rightarrow> DataValue \<Rightarrow> DataValue \<Rightarrow> bool" where
  "value_change shared dcf c p = (case DeadbandType_of dcf of
       DeadbandNone \<Rightarrow> \<not> deep_equal (Value c) (Value p)
     | DeadbandAbsolute \<Rightarrow> \<not> equalDeadbandAbsolute shared (Value c) (Value p) (DeadbandValue dcf)
     | DeadbandPercent \<Rightarrow> True
     | DeadbandOther \<Rightarrow> True)"

definition isDataChange :: "bool \<Rightarrow> DataChangeFilter \<Rightarrow> DataValue \<Rightarrow> DataValue \<Rightarrow> bool" where
  "isDataChange shared dcf c p =
     (let status = (StatusCode_of c AND 0xFFFFF000 \<noteq> StatusCode_of p AND 0xFFFFF000) in
      case Trigger dcf of
        TriggerStatus \<Rightarrow> status
      | TriggerStatusValue \<Rightarrow> status \<or> value_change shared dcf c p
      | TriggerStatusValueTimestamp \<Rightarrow>
          status \<or> SourceTimestamp c \<noteq> SourceTimestamp p \<or> value_change shared dcf c p
      | TriggerOther \<Rightarrow> True)"

section \<open>Status codes\<close>

definition IsGood :: "StatusCode \<Rightarrow> bool" where
  "IsGood c \<longleftrightarrow> c AND 0xC0000000 = 0x00000000"

definition IsBad :: "StatusCode \<Rightarrow> bool" where
  "IsBad c \<longleftrightarrow> c AND 0xC0000000 = 0x80000000"

definition IsUncertain :: "StatusCode \<Rightarrow> bool" where
  "IsUncertain c \<longleftrightarrow> c AND 0xC0000000 = 0x40000000"

definition IsStructureChanged :: "StatusCode \<Rightarrow> bool" where
  "IsStructureChanged c \<longleftrightarrow> c AND 0x00008000 = 0x00008000"

definition IsSemanticsChanged :: "StatusCode \<Rightarrow> bool" where
  "IsSemanticsChanged c \<longleftrightarrow> c AND 0x00004000 = 0x00004000"

definition IsOverflow :: "StatusCode \<Rightarrow> bool" where
  "IsOverflow c \<longleftrightarrow> c AND 0x00000C00 = 0x00000400 \<and> c AND 0x00000080 = 0x00000080"

definition BadWaitingForInitialData :: StatusCode where
  "BadWaitingForInitialData = 0x80320000"

section \<open>Data change items\<close>

definition maxQueueSize :: u32 where
  "maxQueueSize = 1024"

definition maxSamplingInterval :: float64 where
  "maxSamplingInterval = Fin 60000"

record DataChangeMonitoredItem =
  dc_id :: u32
  dc_itemToMonitor :: ReadValueID
  dc_monitoringMode :: MonitoringMode
  dc_clientHandle :: u32
  dc_samplingInterval :: float64
  dc_queueSize :: u32
  dc_discardOldest :: bool
  dc_timestampsToReturn :: TimestampsToReturn
  dc_minSamplingInterval :: float64
  dc_queue :: "DataValue list"
  dc_hasNode :: bool
  dc_dataChangeFilter :: DataChangeFilter
  dc_previousQueuedValue :: DataValue
  dc_prequeue :: "DataValue list"
  dc_ts :: instant
  dc_ti :: int
  dc_triggeredItems :: "u32 list"
  dc_triggered :: bool

definition initialValue :: DataValue where
  "initialValue = \<lparr>Value = VNil, StatusCode_of = BadWaitingForInitialData, SourceTimestamp = zeroTime,
     SourcePicoseconds = 0, ServerTimestamp = zeroTime, ServerPicoseconds = 0\<rparr>"

text \<open>
  Trimming: the loop pops from the front or the back while the queue is too long.
  The overflow bit is then set on a copy of an element of the queue, because
  \<open>Front\<close> and \<open>Back\<close> of the deque return values: the queue does not change.
\<close>

fun pop_front_to :: "nat \<Rightarrow> 'a list \<Rightarrow> 'a list" where
  "pop_front_to n [] = []"
| "pop_front_to n (x # xs) = (if length (x # xs) > n then pop_front_to n xs else x # xs)"

function pop_back_to :: "nat \<Rightarrow> 'a list \<Rightarrow> 'a list" where
  "pop_back_to n xs = (if length xs > n then pop_back_to n (butlast xs) else xs)"
  by pat_completeness auto
termination by (relation "measure (\<lambda>(n, xs). length xs)") auto

declare pop_back_to.simps [simp del]

definition clampQueueSize :: "u32 \<Rightarrow> u32" where
  "clampQueueSize q = (let q1 = (if q > maxQueueSize then maxQueueSize else q) in if q1 < 1 then 1 else q1)"

definition DataChange_setQueueSize :: "u32 \<Rightarrow> DataChangeMonitoredItem \<Rightarrow> DataChangeMonitoredItem" where
  "DataChange_setQueueSize q mi =
     (let n = clampQueueSize q in
      mi\<lparr>dc_queueSize := n,
         dc_queue := (if dc_discardOldest mi then pop_front_to (unat n) (dc_queue mi)
                      else pop_back_to (unat n) (dc_queue mi))\<rparr>)"

text \<open>
  \<open>pub\<close> is the publishing interval of the subscription, \<open>nodeMin\<close> the minimum
  sampling interval of the node when it is a variable. Attribute 13 is the value.
\<close>

definition f_max :: "float64 \<Rightarrow> float64 \<Rightarrow> float64" where
  "f_max lo x = (if f_less x lo then lo else x)"

definition DataChange_setSamplingInterval ::
    "float64 \<Rightarrow> float64 option \<Rightarrow> float64 \<Rightarrow> DataChangeMonitoredItem \<Rightarrow> DataChangeMonitoredItem" where
  "DataChange_setSamplingInterval pub nodeMin x mi =
     (let x1 = (if f_less x (Fin 0) then pub else x);
          x2 = f_max (dc_minSamplingInterval mi) x1;
          x3 = (if f_less maxSamplingInterval x2 then maxSamplingInterval else x2);
          x4 = (if rv_AttributeID (dc_itemToMonitor mi) = 13 then (case nodeMin of None \<Rightarrow> x3 | Some m \<Rightarrow> f_max m x3) else x3)
      in mi\<lparr>dc_samplingInterval := x4, dc_ti := f_to_i64 x4 * 1000000\<rparr>)"

definition DataChange_setFilter :: "monitoring_filter \<Rightarrow> DataChangeMonitoredItem \<Rightarrow> DataChangeMonitoredItem" where
  "DataChange_setFilter f mi = mi\<lparr>dc_dataChangeFilter := (case f of ADataChangeFilter dcf \<Rightarrow> dcf
     | _ \<Rightarrow> \<lparr>Trigger = TriggerStatusValue, DeadbandType_of = DeadbandNone, DeadbandValue = Fin 0\<rparr>)\<rparr>"

definition DataChange_startMonitoring :: "instant \<Rightarrow> DataValue \<Rightarrow> DataChangeMonitoredItem \<Rightarrow> DataChangeMonitoredItem" where
  "DataChange_startMonitoring now readv mi =
     (if dc_monitoringMode mi = Disabled then mi\<lparr>dc_ts := now\<rparr>
      else mi\<lparr>dc_ts := now, dc_prequeue := dc_prequeue mi @ [readv]\<rparr>)"

record MonitoringParameters =
  mp_ClientHandle :: u32
  mp_SamplingInterval :: float64
  mp_Filter :: monitoring_filter
  mp_QueueSize :: u32
  mp_DiscardOldest :: bool

definition NewDataChangeMonitoredItem ::
    "instant \<Rightarrow> DataValue \<Rightarrow> float64 \<Rightarrow> float64 option \<Rightarrow> u32 \<Rightarrow> ReadValueID \<Rightarrow> MonitoringMode \<Rightarrow> MonitoringParameters \<Rightarrow>
     TimestampsToReturn \<Rightarrow> float64 \<Rightarrow> DataChangeMonitoredItem" where
  "NewDataChangeMonitoredItem now readv pub nodeMin i rv mode ps ttr minS =
     (let mi = \<lparr>dc_id = i, dc_itemToMonitor = rv, dc_monitoringMode = mode,
          dc_clientHandle = mp_ClientHandle ps, dc_samplingInterval = Fin 0, dc_queueSize = 0,
          dc_discardOldest = mp_DiscardOldest ps, dc_timestampsToReturn = ttr,
          dc_minSamplingInterval = minS, dc_queue = [], dc_hasNode = True,
          dc_dataChangeFilter = \<lparr>Trigger = TriggerStatus, DeadbandType_of = DeadbandNone, DeadbandValue = Fin 0\<rparr>,
          dc_previousQueuedValue = initialValue, dc_prequeue = [], dc_ts = 0, dc_ti = 0,
          dc_triggeredItems = [], dc_triggered = False\<rparr>
      in DataChange_startMonitoring now readv
           (DataChange_setFilter (mp_Filter ps)
             (DataChange_setSamplingInterval pub nodeMin (mp_SamplingInterval ps)
               (DataChange_setQueueSize (mp_QueueSize ps) mi))))"

definition DataChange_Modify ::
    "instant \<Rightarrow> DataValue \<Rightarrow> float64 \<Rightarrow> float64 option \<Rightarrow> MonitoringParameters \<Rightarrow> DataChangeMonitoredItem \<Rightarrow>
     (float64 \<times> u32) \<times> DataChangeMonitoredItem" where
  "DataChange_Modify now readv pub nodeMin ps mi =
     (let mi' = DataChange_startMonitoring now readv
           (DataChange_setFilter (mp_Filter ps)
             (DataChange_setSamplingInterval pub nodeMin (mp_SamplingInterval ps)
               (DataChange_setQueueSize (mp_QueueSize ps)
                 (mi\<lparr>dc_clientHandle := mp_ClientHandle ps, dc_discardOldest := mp_DiscardOldest ps\<rparr>))))
      in ((dc_samplingInterval mi', dc_queueSize mi'), mi'))"

definition DataChange_Delete :: "DataChangeMonitoredItem \<Rightarrow> DataChangeMonitoredItem" where
  "DataChange_Delete mi = mi\<lparr>dc_queue := [], dc_hasNode := False, dc_previousQueuedValue := initialValue,
     dc_prequeue := [], dc_triggeredItems := []\<rparr>"

text \<open>The count is what the call adds to \<open>disabledMonitoredItemCount\<close> of the subscription.\<close>

definition DataChange_SetMonitoringMode ::
    "instant \<Rightarrow> DataValue \<Rightarrow> MonitoringMode \<Rightarrow> DataChangeMonitoredItem \<Rightarrow> DataChangeMonitoredItem \<times> u32" where
  "DataChange_SetMonitoringMode now readv mode mi =
     (if dc_monitoringMode mi = mode then (mi, 0)
      else let mi1 = mi\<lparr>dc_monitoringMode := mode\<rparr> in
        if mode = Disabled
        then (DataChange_startMonitoring now readv (mi1\<lparr>dc_queue := [], dc_previousQueuedValue := initialValue\<rparr>), 1)
        else (DataChange_startMonitoring now readv mi1, - 1))"

definition DataChange_Poll :: "DataValue \<Rightarrow> DataChangeMonitoredItem \<Rightarrow> DataChangeMonitoredItem" where
  "DataChange_Poll readv mi = (if dc_hasNode mi then mi\<lparr>dc_prequeue := dc_prequeue mi @ [readv]\<rparr> else mi)"

definition DataChange_AddTriggeredItem :: "u32 \<Rightarrow> DataChangeMonitoredItem \<Rightarrow> bool \<times> DataChangeMonitoredItem" where
  "DataChange_AddTriggeredItem i mi = (True, mi\<lparr>dc_triggeredItems := dc_triggeredItems mi @ [i]\<rparr>)"

fun index_of :: "'a \<Rightarrow> 'a list \<Rightarrow> nat option" where
  "index_of i [] = None"
| "index_of i (x # xs) = (if x = i then Some 0 else map_option Suc (index_of i xs))"

text \<open>The last element takes the place of the removed one.\<close>

definition swap_remove :: "'a \<Rightarrow> 'a list \<Rightarrow> bool \<times> 'a list" where
  "swap_remove i xs = (case index_of i xs of
       None \<Rightarrow> (False, xs)
     | Some k \<Rightarrow> (True, butlast (xs[k := last xs])))"

definition DataChange_RemoveTriggeredItem :: "u32 \<Rightarrow> DataChangeMonitoredItem \<Rightarrow> bool \<times> DataChangeMonitoredItem" where
  "DataChange_RemoveTriggeredItem i mi =
     (case swap_remove i (dc_triggeredItems mi) of (r, xs) \<Rightarrow> (r, mi\<lparr>dc_triggeredItems := xs\<rparr>))"

text \<open>
  What an enqueue does outside the item: how much it adds to
  \<open>monitoringQueueOverflowCount\<close> of the subscription, and which items it triggers.
\<close>

type_synonym effects = "nat \<times> u32 list"

fun pop_front_below :: "nat \<Rightarrow> 'a list \<Rightarrow> 'a list" where
  "pop_front_below n [] = []"
| "pop_front_below n (x # xs) = (if length (x # xs) \<ge> n then pop_front_below n xs else x # xs)"

function pop_back_below :: "nat \<Rightarrow> 'a list \<Rightarrow> 'a list" where
  "pop_back_below n xs = (if xs \<noteq> [] \<and> length xs \<ge> n then pop_back_below n (butlast xs) else xs)"
  by pat_completeness auto
termination by (relation "measure (\<lambda>(n, xs). length xs)") auto

declare pop_back_below.simps [simp del]

text \<open>
  As in \<open>setQueueSize\<close>, the overflow bit is set on a copy. (A queue size of zero,
  for which the loop would pop an empty deque, does not occur.)
\<close>

definition push_bounded :: "bool \<Rightarrow> nat \<Rightarrow> 'a \<Rightarrow> 'a list \<Rightarrow> 'a list \<times> bool" where
  "push_bounded oldest n x q =
     ((if oldest then pop_front_below n q else pop_back_below n q) @ [x], length q \<ge> n)"

definition DataChange_enqueue :: "DataValue \<Rightarrow> DataChangeMonitoredItem \<Rightarrow> DataChangeMonitoredItem \<times> effects" where
  "DataChange_enqueue v mi =
     (case push_bounded (dc_discardOldest mi) (unat (dc_queueSize mi)) v (dc_queue mi) of
        (q, overflow) \<Rightarrow> (mi\<lparr>dc_queue := q\<rparr>,
          (if overflow \<and> dc_queueSize mi > 1 then 1 else 0, dc_triggeredItems mi)))"

text \<open>\<open>for i := 0; i < max; i++\<close> over the queue; \<open>max\<close> may be negative.\<close>

definition DataChange_notifications :: "int \<Rightarrow> DataChangeMonitoredItem \<Rightarrow> DataValue list \<times> bool \<times> DataChangeMonitoredItem" where
  "DataChange_notifications mx mi =
     (let out = take (nat mx) (dc_queue mi); rest = drop (nat mx) (dc_queue mi); mr = (rest \<noteq> [])
      in (out, mr, mi\<lparr>dc_queue := rest, dc_triggered := (dc_triggered mi \<and> mr)\<rparr>))"

text \<open>The inner loop: the last value whose server timestamp is not after \<open>ts\<close>.\<close>

fun take_due :: "instant \<Rightarrow> DataValue \<Rightarrow> DataValue list \<Rightarrow> DataValue \<times> DataValue list" where
  "take_due ts v [] = (v, [])"
| "take_due ts v (p # ps) = (if instant_of (ServerTimestamp p) \<le> ts then take_due ts p ps else (v, p # ps))"

definition plus_effects :: "effects \<Rightarrow> effects \<Rightarrow> effects" where
  "plus_effects a b = (fst a + fst b, snd a @ snd b)"

text \<open>\<open>if mi.isDataChange(v, prev) { mi.enqueue(...); mi.previousQueuedValue = v }\<close>\<close>

definition offer :: "(DataValue \<Rightarrow> DataValue \<Rightarrow> bool) \<Rightarrow> DataValue \<Rightarrow> DataChangeMonitoredItem \<Rightarrow> DataChangeMonitoredItem \<times> effects" where
  "offer shared v mi =
     (if isDataChange (shared v (dc_previousQueuedValue mi)) (dc_dataChangeFilter mi) v (dc_previousQueuedValue mi)
      then (case DataChange_enqueue (withTimestamps v (dc_timestampsToReturn mi)) mi of
              (mi', e) \<Rightarrow> (mi'\<lparr>dc_previousQueuedValue := v\<rparr>, e))
      else (mi, (0, [])))"

text \<open>The loop over the sampling intervals; it is entered with a positive interval only.\<close>

function sample_loop ::
    "(DataValue \<Rightarrow> DataValue \<Rightarrow> bool) \<Rightarrow> instant \<Rightarrow> DataValue \<Rightarrow> DataChangeMonitoredItem \<Rightarrow> DataChangeMonitoredItem \<times> effects" where
  "sample_loop shared tn v mi =
     (if dc_ti mi \<le> 0 \<or> dc_ts mi > tn then (mi, (0, []))
      else case take_due (dc_ts mi) v (dc_prequeue mi) of
        (v', ps) \<Rightarrow> (case offer shared v' (mi\<lparr>dc_prequeue := ps\<rparr>) of
          (mi', e) \<Rightarrow> (case sample_loop shared tn v' (mi'\<lparr>dc_ts := dc_ts mi + dc_ti mi\<rparr>) of
            (mi'', e') \<Rightarrow> (mi'', plus_effects e e'))))"
  by pat_completeness auto
termination
  by (relation "measure (\<lambda>(_, tn, _, mi). nat (tn + 1 - dc_ts mi))") auto

declare sample_loop.simps [simp del]

fun drain_prequeue ::
    "(DataValue \<Rightarrow> DataValue \<Rightarrow> bool) \<Rightarrow> DataValue list \<Rightarrow> DataChangeMonitoredItem \<Rightarrow> DataChangeMonitoredItem \<times> effects" where
  "drain_prequeue shared [] mi = (mi\<lparr>dc_prequeue := []\<rparr>, (0, []))"
| "drain_prequeue shared (v # vs) mi =
     (case offer shared v (mi\<lparr>dc_prequeue := vs\<rparr>) of
        (mi', e) \<Rightarrow> (case drain_prequeue shared vs mi' of (mi'', e') \<Rightarrow> (mi'', plus_effects e e')))"

definition DataChange_notificationsAvailable ::
    "(DataValue \<Rightarrow> DataValue \<Rightarrow> bool) \<Rightarrow> DataValue \<Rightarrow> instant \<Rightarrow> bool \<Rightarrow> DataChangeMonitoredItem \<Rightarrow>
     bool \<times> DataChangeMonitoredItem \<times> effects" where
  "DataChange_notificationsAvailable shared readv tn resend mi =
     (if dc_monitoringMode mi = Disabled then (False, mi\<lparr>dc_ts := tn\<rparr>, (0, []))
      else case (if dc_ti mi > 0 then sample_loop shared tn (dc_previousQueuedValue mi) mi
                 else drain_prequeue shared (dc_prequeue mi) mi) of
        (mi1, e1) \<Rightarrow>
          (case (if resend \<and> dc_monitoringMode mi1 = Reporting \<and> dc_queue mi1 = []
                 then (case DataChange_enqueue (withTimestamps readv (dc_timestampsToReturn mi1)) mi1 of
                         (mi', e) \<Rightarrow> (mi'\<lparr>dc_previousQueuedValue := readv\<rparr>, e))
                 else (mi1, (0, []))) of
             (mi2, e2) \<Rightarrow>
               (dc_queue mi2 \<noteq> [] \<and> (dc_monitoringMode mi2 = Reporting \<or> dc_triggered mi2),
                mi2, plus_effects e1 e2)))"

section \<open>Event items\<close>

record EventMonitoredItem =
  ev_id :: u32
  ev_itemToMonitor :: ReadValueID
  ev_monitoringMode :: MonitoringMode
  ev_clientHandle :: u32
  ev_samplingInterval :: float64
  ev_queueSize :: u32
  ev_discardOldest :: bool
  ev_queue :: "goval list list"
  ev_hasNode :: bool
  ev_eventFilter :: EventFilter
  ev_triggeredItems :: "u32 list"
  ev_triggered :: bool

definition Event_setQueueSize :: "u32 \<Rightarrow> EventMonitoredItem \<Rightarrow> EventMonitoredItem" where
  "Event_setQueueSize q mi =
     mi\<lparr>ev_queueSize := maxQueueSize,
        ev_queue := (if ev_discardOldest mi then pop_front_to (unat maxQueueSize) (ev_queue mi)
                     else pop_back_to (unat maxQueueSize) (ev_queue mi))\<rparr>"

definition Event_setSamplingInterval :: "float64 \<Rightarrow> EventMonitoredItem \<Rightarrow> EventMonitoredItem" where
  "Event_setSamplingInterval x mi = mi\<lparr>ev_samplingInterval := Fin 0\<rparr>"

definition Event_setFilter :: "monitoring_filter \<Rightarrow> EventMonitoredItem \<Rightarrow> EventMonitoredItem" where
  "Event_setFilter f mi = mi\<lparr>ev_eventFilter := (case f of AnEventFilter ef \<Rightarrow> ef
     | _ \<Rightarrow> \<lparr>SelectClauses = [], WhereClause = []\<rparr>)\<rparr>"

definition NewEventMonitoredItem :: "u32 \<Rightarrow> ReadValueID \<Rightarrow> MonitoringMode \<Rightarrow> MonitoringParameters \<Rightarrow> EventMonitoredItem" where
  "NewEventMonitoredItem i rv mode ps =
     Event_setFilter (mp_Filter ps) (Event_setSamplingInterval (mp_SamplingInterval ps) (Event_setQueueSize (mp_QueueSize ps)
       \<lparr>ev_id = i, ev_itemToMonitor = rv, ev_monitoringMode = mode, ev_clientHandle = mp_ClientHandle ps,
        ev_samplingInterval = Fin 0, ev_queueSize = 0, ev_discardOldest = mp_DiscardOldest ps,
        ev_queue = [], ev_hasNode = True, ev_eventFilter = \<lparr>SelectClauses = [], WhereClause = []\<rparr>,
        ev_triggeredItems = [], ev_triggered = False\<rparr>))"

definition Event_Modify :: "MonitoringParameters \<Rightarrow> EventMonitoredItem \<Rightarrow> (float64 \<times> u32) \<times> EventMonitoredItem" where
  "Event_Modify ps mi =
     (let mi' = Event_setFilter (mp_Filter ps) (Event_setSamplingInterval (mp_SamplingInterval ps) (Event_setQueueSize (mp_QueueSize ps)
           (mi\<lparr>ev_clientHandle := mp_ClientHandle ps, ev_discardOldest := mp_DiscardOldest ps\<rparr>)))
      in ((ev_samplingInterval mi', ev_queueSize mi'), mi'))"

definition Event_Delete :: "EventMonitoredItem \<Rightarrow> EventMonitoredItem" where
  "Event_Delete mi = mi\<lparr>ev_queue := [], ev_hasNode := False, ev_triggeredItems := []\<rparr>"

definition Event_SetMonitoringMode :: "MonitoringMode \<Rightarrow> EventMonitoredItem \<Rightarrow> EventMonitoredItem \<times> u32" where
  "Event_SetMonitoringMode mode mi =
     (if ev_monitoringMode mi = mode then (mi, 0)
      else let mi1 = mi\<lparr>ev_monitoringMode := mode\<rparr>
        in if mode = Disabled then (mi1\<lparr>ev_queue := []\<rparr>, 1) else (mi1, - 1))"

definition Event_enqueue :: "goval list \<Rightarrow> EventMonitoredItem \<Rightarrow> EventMonitoredItem \<times> effects" where
  "Event_enqueue v mi =
     (case push_bounded (ev_discardOldest mi) (unat (ev_queueSize mi)) v (ev_queue mi) of
        (q, overflow) \<Rightarrow> (mi\<lparr>ev_queue := q\<rparr>,
          (if overflow \<and> ev_queueSize mi > 1 then 1 else 0, ev_triggeredItems mi)))"

definition Event_notifications :: "int \<Rightarrow> EventMonitoredItem \<Rightarrow> goval list list \<times> bool \<times> EventMonitoredItem" where
  "Event_notifications mx mi =
     (let out = take (nat mx) (ev_queue mi); rest = drop (nat mx) (ev_queue mi); mr = (rest \<noteq> [])
      in (out, mr, mi\<lparr>ev_queue := rest, ev_triggered := (ev_triggered mi \<and> mr)\<rparr>))"

definition Event_notificationsAvailable :: "EventMonitoredItem \<Rightarrow> bool" where
  "Event_notificationsAvailable mi \<longleftrightarrow> ev_monitoringMode mi \<noteq> Disabled \<and>
     ev_queue mi \<noteq> [] \<and> (ev_monitoringMode mi = Reporting \<or> ev_triggered mi)"

definition Event_AddTriggeredItem :: "u32 \<Rightarrow> EventMonitoredItem \<Rightarrow> bool \<times> EventMonitoredItem" where
  "Event_AddTriggeredItem i mi = (True, mi\<lparr>ev_triggeredItems := ev_triggeredItems mi @ [i]\<rparr>)"

definition Event_RemoveTriggeredItem :: "u32 \<Rightarrow> EventMonitoredItem \<Rightarrow> bool \<times> EventMonitoredItem" where
  "Event_RemoveTriggeredItem i mi =
     (case swap_remove i (ev_triggeredItems mi) of (r, xs) \<Rightarrow> (r, mi\<lparr>ev_triggeredItems := xs\<rparr>))"


section \<open>Lemmas on the queues\<close>

lemma pop_front_to_eq: "pop_front_to n xs = drop (length xs - n) xs"
  by (induction xs) (auto simp: Suc_diff_le)

lemma pop_back_to_eq: "pop_back_to n xs = take n xs"
proof (induction n xs rule: pop_back_to.induct)
  case (1 n xs)
  show ?case
  proof (cases "n < length xs")
    case True
    with 1 have "pop_back_to n xs = take n (butlast xs)" by (subst pop_back_to.simps) simp
    also have "\<dots> = take n xs" using True by (simp add: take_butlast)
    finally show ?thesis .
  next
    case False
    then show ?thesis by (subst pop_back_to.simps) simp
  qed
qed

lemma pop_front_below_eq: "0 < n \<Longrightarrow> pop_front_below n xs = drop (Suc (length xs) - n) xs"
  by (induction xs) (auto simp: Suc_diff_le)

lemma pop_back_below_eq: "0 < n \<Longrightarrow> pop_back_below n xs = take (n - 1) xs"
proof (induction n xs rule: pop_back_below.induct)
  case (1 n xs)
  show ?case
  proof (cases "xs \<noteq> [] \<and> length xs \<ge> n")
    case True
    with 1 have "pop_back_below n xs = take (n - 1) (butlast xs)" by (subst pop_back_below.simps) simp
    also have "\<dots> = take (n - 1) xs" using True \<open>0 < n\<close> by (intro take_butlast) linarith
    finally show ?thesis .
  next
    case False
    with \<open>0 < n\<close> show ?thesis by (subst pop_back_below.simps) auto
  qed
qed

lemma push_bounded_eq:
  assumes "0 < n"
  shows "fst (push_bounded oldest n x q) =
    (if oldest then drop (Suc (length q) - n) (q @ [x]) else take (n - 1) q @ [x])"
proof -
  have "drop (Suc (length q) - n) (q @ [x]) = drop (Suc (length q) - n) q @ [x]"
    using assms by simp
  with assms show ?thesis by (simp add: push_bounded_def pop_front_below_eq pop_back_below_eq)
qed

section \<open>The contract of a notification queue\<close>

locale notification_queue =
  fixes pending :: "'i \<Rightarrow> 'n list"
    and capacity :: "'i \<Rightarrow> nat"
    and oldest :: "'i \<Rightarrow> bool"
    and push :: "'n \<Rightarrow> 'i \<Rightarrow> 'i"
    and pull :: "int \<Rightarrow> 'i \<Rightarrow> 'n list \<times> bool \<times> 'i"
  assumes push_law: "0 < capacity i \<Longrightarrow> pending (push x i) =
      (if oldest i then drop (Suc (length (pending i)) - capacity i) (pending i @ [x])
       else take (capacity i - 1) (pending i) @ [x])"
    and push_keeps: "capacity (push x i) = capacity i" "oldest (push x i) = oldest i"
    and pull_law: "pull mx i = (out, mr, i') \<Longrightarrow>
      out = take (nat mx) (pending i) \<and> pending i' = drop (nat mx) (pending i) \<and> (mr \<longleftrightarrow> pending i' \<noteq> [])
      \<and> capacity i' = capacity i"
begin

lemma push_bounded: "0 < capacity i \<Longrightarrow> length (pending (push x i)) \<le> capacity i"
  by (auto simp: push_law)

lemma push_last: "0 < capacity i \<Longrightarrow> pending (push x i) \<noteq> [] \<and> last (pending (push x i)) = x"
  by (auto simp: push_law)

lemma pull_fifo: "pull mx i = (out, mr, i') \<Longrightarrow> out @ pending i' = pending i \<and> int (length out) \<le> max 0 mx"
  using pull_law [of mx i out mr i'] by auto

lemma fold_push_keeps:
  "capacity (fold push xs i) = capacity i \<and> oldest (fold push xs i) = oldest i"
  by (induction xs arbitrary: i) (simp_all add: push_keeps)

text \<open>Discarding the oldest, the queue holds the most recent entries.\<close>

lemma fold_push_recent:
  assumes "0 < capacity i" and "oldest i" and "length (pending i) \<le> capacity i"
  shows "pending (fold push xs i) = drop (length (pending i @ xs) - capacity i) (pending i @ xs)"
  using assms
proof (induction xs arbitrary: i)
  case (Cons x xs)
  let ?p = "pending i" and ?c = "capacity i"
  have p: "pending (push x i) = drop (Suc (length ?p) - ?c) (?p @ [x])" using Cons.prems by (simp add: push_law)
  have "pending (fold push (x # xs) i) = drop (length (pending (push x i) @ xs) - ?c) (pending (push x i) @ xs)"
    using Cons.IH [of "push x i"] Cons.prems push_bounded [of i x] by (simp add: push_keeps)
  also have "\<dots> = drop (length (?p @ x # xs) - ?c) (?p @ x # xs)"
  proof (cases "length ?p < ?c")
    case True
    with p show ?thesis by simp
  next
    case False
    with Cons.prems(3) have l: "length ?p = ?c" by simp
    let ?L = "?p @ x # xs"
    have "pending (push x i) = drop 1 (?p @ [x])" using p l by simp
    then have L: "pending (push x i) @ xs = drop 1 ?L"
      using l Cons.prems(1) by (cases ?p) simp_all
    have "length ?L = ?c + Suc (length xs)" using l by simp
    then show ?thesis unfolding L by (simp only: drop_drop length_drop) (simp add: Suc_diff_le)
  qed
  finally show ?case .
qed simp

end

interpretation data_queue: notification_queue dc_queue "\<lambda>mi. unat (dc_queueSize mi)" dc_discardOldest
  "\<lambda>v mi. fst (DataChange_enqueue v mi)" DataChange_notifications
proof
  fix i :: DataChangeMonitoredItem and x
  show "0 < unat (dc_queueSize i) \<Longrightarrow> dc_queue (fst (DataChange_enqueue x i)) =
      (if dc_discardOldest i then drop (Suc (length (dc_queue i)) - unat (dc_queueSize i)) (dc_queue i @ [x])
       else take (unat (dc_queueSize i) - 1) (dc_queue i) @ [x])"
    using push_bounded_eq [of "unat (dc_queueSize i)" "dc_discardOldest i" x "dc_queue i"]
    by (simp add: DataChange_enqueue_def case_prod_beta)
  show "unat (dc_queueSize (fst (DataChange_enqueue x i))) = unat (dc_queueSize i)"
    "dc_discardOldest (fst (DataChange_enqueue x i)) = dc_discardOldest i"
    by (simp_all add: DataChange_enqueue_def split: prod.splits)
next
  fix mx i out mr i'
  assume "DataChange_notifications mx i = (out, mr, i')"
  then show "out = take (nat mx) (dc_queue i) \<and> dc_queue i' = drop (nat mx) (dc_queue i) \<and>
      mr = (dc_queue i' \<noteq> []) \<and> unat (dc_queueSize i') = unat (dc_queueSize i)"
    by (auto simp: DataChange_notifications_def Let_def)
qed

interpretation event_queue: notification_queue ev_queue "\<lambda>mi. unat (ev_queueSize mi)" ev_discardOldest
  "\<lambda>v mi. fst (Event_enqueue v mi)" Event_notifications
proof
  fix i :: EventMonitoredItem and x
  show "0 < unat (ev_queueSize i) \<Longrightarrow> ev_queue (fst (Event_enqueue x i)) =
      (if ev_discardOldest i then drop (Suc (length (ev_queue i)) - unat (ev_queueSize i)) (ev_queue i @ [x])
       else take (unat (ev_queueSize i) - 1) (ev_queue i) @ [x])"
    using push_bounded_eq [of "unat (ev_queueSize i)" "ev_discardOldest i" x "ev_queue i"]
    by (simp add: Event_enqueue_def case_prod_beta)
  show "unat (ev_queueSize (fst (Event_enqueue x i))) = unat (ev_queueSize i)"
    "ev_discardOldest (fst (Event_enqueue x i)) = ev_discardOldest i"
    by (simp_all add: Event_enqueue_def split: prod.splits)
next
  fix mx i out mr i'
  assume "Event_notifications mx i = (out, mr, i')"
  then show "out = take (nat mx) (ev_queue i) \<and> ev_queue i' = drop (nat mx) (ev_queue i) \<and>
      mr = (ev_queue i' \<noteq> []) \<and> unat (ev_queueSize i') = unat (ev_queueSize i)"
    by (auto simp: Event_notifications_def Let_def)
qed

section \<open>Invariant of an item\<close>

definition data_item_ok :: "DataChangeMonitoredItem \<Rightarrow> bool" where
  "data_item_ok mi \<longleftrightarrow> 1 \<le> dc_queueSize mi \<and> dc_queueSize mi \<le> maxQueueSize
     \<and> length (dc_queue mi) \<le> unat (dc_queueSize mi)"

lemma clampQueueSize_bounds: "1 \<le> clampQueueSize q" "clampQueueSize q \<le> maxQueueSize"
  by (auto simp: clampQueueSize_def Let_def maxQueueSize_def word_less_nat_alt word_le_nat_alt)

lemma data_item_ok_setQueueSize: "data_item_ok (DataChange_setQueueSize q mi)"
  by (auto simp: data_item_ok_def DataChange_setQueueSize_def Let_def clampQueueSize_bounds
      pop_front_to_eq pop_back_to_eq)

lemma data_item_ok_pos: "data_item_ok mi \<Longrightarrow> 0 < unat (dc_queueSize mi)"
  by (auto simp: data_item_ok_def word_le_nat_alt)

lemma data_item_ok_enqueue:
  assumes "data_item_ok mi"
  shows "data_item_ok (fst (DataChange_enqueue v mi))"
proof -
  have "dc_queueSize (fst (DataChange_enqueue v mi)) = dc_queueSize mi"
    by (simp add: DataChange_enqueue_def split: prod.splits)
  with assms data_queue.push_bounded [OF data_item_ok_pos [OF assms], of v] show ?thesis
    by (simp add: data_item_ok_def)
qed

lemma data_item_ok_update [simp]:
  "data_item_ok (mi\<lparr>dc_ts := t\<rparr>) = data_item_ok mi"
  "data_item_ok (mi\<lparr>dc_prequeue := p\<rparr>) = data_item_ok mi"
  "data_item_ok (mi\<lparr>dc_previousQueuedValue := v\<rparr>) = data_item_ok mi"
  "data_item_ok (mi\<lparr>dc_monitoringMode := m\<rparr>) = data_item_ok mi"
  "data_item_ok (mi\<lparr>dc_dataChangeFilter := f\<rparr>) = data_item_ok mi"
  "data_item_ok (mi\<lparr>dc_samplingInterval := x\<rparr>) = data_item_ok mi"
  "data_item_ok (mi\<lparr>dc_ti := d\<rparr>) = data_item_ok mi"
  "data_item_ok (mi\<lparr>dc_triggered := b\<rparr>) = data_item_ok mi"
  "data_item_ok (mi\<lparr>dc_triggeredItems := xs\<rparr>) = data_item_ok mi"
  by (simp_all add: data_item_ok_def)

lemma data_item_ok_offer: "data_item_ok mi \<Longrightarrow> data_item_ok (fst (offer shared v mi))"
  using data_item_ok_enqueue [of mi] by (auto simp: offer_def split: prod.splits) (metis fst_conv)

lemma data_item_ok_sample_loop: "data_item_ok mi \<Longrightarrow> data_item_ok (fst (sample_loop shared tn v mi))"
proof (induction shared tn v mi rule: sample_loop.induct)
  case (1 shared tn v mi)
  show ?case
  proof (cases "dc_ti mi \<le> 0 \<or> dc_ts mi > tn")
    case True
    with 1 show ?thesis by (subst sample_loop.simps) simp
  next
    case False
    obtain v' ps where vp: "take_due (dc_ts mi) v (dc_prequeue mi) = (v', ps)" by fastforce
    obtain mi' e where off: "offer shared v' (mi\<lparr>dc_prequeue := ps\<rparr>) = (mi', e)"
      by (cases "offer shared v' (mi\<lparr>dc_prequeue := ps\<rparr>)")
    have "data_item_ok (mi'\<lparr>dc_ts := dc_ts mi + dc_ti mi\<rparr>)"
      using data_item_ok_offer [of "mi\<lparr>dc_prequeue := ps\<rparr>" shared v'] off "1.prems" by simp
    with "1.IH" [OF False vp [symmetric] off [symmetric]] False vp off show ?thesis
      by (subst sample_loop.simps) (simp add: case_prod_beta)
  qed
qed

lemma data_item_ok_drain: "data_item_ok mi \<Longrightarrow> data_item_ok (fst (drain_prequeue shared vs mi))"
proof (induction vs arbitrary: mi)
  case (Cons v vs)
  obtain mi' e where off: "offer shared v (mi\<lparr>dc_prequeue := vs\<rparr>) = (mi', e)"
    by (cases "offer shared v (mi\<lparr>dc_prequeue := vs\<rparr>)")
  then have "data_item_ok mi'" using data_item_ok_offer [of "mi\<lparr>dc_prequeue := vs\<rparr>" shared v] Cons.prems by simp
  from Cons.IH [OF this] off show ?case by (simp add: case_prod_beta)
qed simp

lemma data_item_ok_notificationsAvailable:
  "data_item_ok mi \<Longrightarrow> data_item_ok (fst (snd (DataChange_notificationsAvailable shared readv tn resend mi)))"
  by (simp add: DataChange_notificationsAvailable_def case_prod_beta data_item_ok_sample_loop
      data_item_ok_drain data_item_ok_enqueue)

lemma data_item_ok_New: "data_item_ok (NewDataChangeMonitoredItem now readv pub nodeMin i rv mode ps ttr minS)"
  by (simp add: NewDataChangeMonitoredItem_def DataChange_startMonitoring_def DataChange_setFilter_def
      DataChange_setSamplingInterval_def data_item_ok_setQueueSize Let_def)

lemma data_item_ok_Modify: "data_item_ok (snd (DataChange_Modify now readv pub nodeMin ps mi))"
  by (simp add: DataChange_Modify_def DataChange_startMonitoring_def DataChange_setFilter_def
      DataChange_setSamplingInterval_def data_item_ok_setQueueSize Let_def)

lemma data_item_ok_SetMonitoringMode:
  "data_item_ok mi \<Longrightarrow> data_item_ok (fst (DataChange_SetMonitoringMode now readv mode mi))"
  by (auto simp: DataChange_SetMonitoringMode_def DataChange_startMonitoring_def Let_def data_item_ok_def)

lemma data_item_ok_notifications:
  "data_item_ok mi \<Longrightarrow> DataChange_notifications mx mi = (out, mr, mi') \<Longrightarrow> data_item_ok mi'"
  by (auto simp: DataChange_notifications_def data_item_ok_def Let_def)

lemma data_item_ok_others:
  "data_item_ok mi \<Longrightarrow> data_item_ok (DataChange_Delete mi)"
  "data_item_ok mi \<Longrightarrow> data_item_ok (DataChange_Poll readv mi)"
  by (simp_all add: DataChange_Delete_def DataChange_Poll_def data_item_ok_def)

section \<open>What is enqueued\<close>

text \<open>The values that pass the filter, each compared with the last one that passed.\<close>

fun kept :: "(DataValue \<Rightarrow> DataValue \<Rightarrow> bool) \<Rightarrow> DataChangeFilter \<Rightarrow> DataValue \<Rightarrow> DataValue list \<Rightarrow> DataValue list" where
  "kept shared f p [] = []"
| "kept shared f p (v # vs) =
     (if isDataChange (shared v p) f v p then v # kept shared f v vs else kept shared f p vs)"

lemma offer_skip:
  "\<not> isDataChange (shared v (dc_previousQueuedValue mi)) (dc_dataChangeFilter mi) v (dc_previousQueuedValue mi)
   \<Longrightarrow> offer shared v mi = (mi, (0, []))"
  by (simp add: offer_def)

lemma drain_prequeue_queue:
  "dc_queue (fst (drain_prequeue shared vs mi)) =
     fold (\<lambda>v q. fst (push_bounded (dc_discardOldest mi) (unat (dc_queueSize mi)) v q))
       (map (\<lambda>v. withTimestamps v (dc_timestampsToReturn mi))
         (kept shared (dc_dataChangeFilter mi) (dc_previousQueuedValue mi) vs)) (dc_queue mi)"
proof (induction vs arbitrary: mi)
  case (Cons v vs)
  show ?case
    by (simp add: offer_def DataChange_enqueue_def Cons.IH case_prod_beta)
qed simp

lemma fold_enqueue_queue:
  "dc_queue (fold (\<lambda>v mi. fst (DataChange_enqueue v mi)) xs mi) =
     fold (\<lambda>v q. fst (push_bounded (dc_discardOldest mi) (unat (dc_queueSize mi)) v q)) xs (dc_queue mi)"
  by (induction xs arbitrary: mi) (simp_all add: DataChange_enqueue_def case_prod_beta)

lemma drain_prequeue_recent:
  assumes ok: "data_item_ok mi" and "dc_discardOldest mi"
    and new_def: "new = map (\<lambda>v. withTimestamps v (dc_timestampsToReturn mi))
      (kept shared (dc_dataChangeFilter mi) (dc_previousQueuedValue mi) vs)"
  shows "dc_queue (fst (drain_prequeue shared vs mi)) =
    drop (length (dc_queue mi @ new) - unat (dc_queueSize mi)) (dc_queue mi @ new)"
  using data_queue.fold_push_recent [OF data_item_ok_pos [OF ok] assms(2), of new] ok
  by (simp add: drain_prequeue_queue fold_enqueue_queue new_def data_item_ok_def)

text \<open>No value in the queue is changed by an overflow.\<close>

lemma push_bounded_set: "set (fst (push_bounded oldest n x q)) \<subseteq> insert x (set q)"
proof -
  have "set (pop_front_below n q) \<subseteq> set q" by (induction q) auto
  moreover have "set (pop_back_below n q) \<subseteq> set q"
  proof (induction n q rule: pop_back_below.induct)
    case (1 n xs)
    then show ?case by (subst pop_back_below.simps) (auto dest: in_set_butlastD)
  qed
  ultimately show ?thesis by (auto simp: push_bounded_def)
qed

lemma enqueue_unmarked: "set (dc_queue (fst (DataChange_enqueue v mi))) \<subseteq> insert v (set (dc_queue mi))"
  using push_bounded_set [of "dc_discardOldest mi" "unat (dc_queueSize mi)" v "dc_queue mi"]
  by (simp add: DataChange_enqueue_def case_prod_beta)

section \<open>The deadband of unsigned values\<close>

lemma int_close_wrapped:
  assumes "2 ^ 53 \<le> d" and "db < 2 ^ 53"
  shows "\<not> int_close d (Fin db)"
proof -
  have d: "(0 :: rat) < of_int d" using assms(1) by simp
  have "(of_int (2 ^ 53) :: rat) \<le> of_int d" using assms(1) by (simp only: of_int_le_iff)
  then have r: "(2 :: rat) ^ 53 \<le> round_pos (of_int d)" using round_pos_ge [OF d, of "2 ^ 53"] by simp
  show ?thesis
  proof (cases "2 ^ 1024 \<le> round_pos (of_int d)")
    case True
    with d show ?thesis by (simp add: int_close_def fin_round_def Let_def f_le_def f_eq_def)
  next
    case False
    have "(0 :: rat) \<le> 2 ^ 53" by simp
    then have "db < round_pos (of_int d)" "0 \<le> round_pos (of_int d)" using r assms(2) by linarith+
    with d False show ?thesis by (simp add: int_close_def fin_round_def Let_def f_le_def f_eq_def)
  qed
qed

lemma uint_sub_wrapped:
  fixes a b :: u32
  assumes "a < b"
  shows "2 ^ 53 \<le> uint (ucast a - ucast b :: u64)"
proof -
  have ab: "uint a < uint b" "uint b < 4294967296" "0 \<le> uint a"
    using assms uint_bounded [of b] by (simp_all add: word_less_def)
  have "uint (ucast a - ucast b :: u64) = (uint a - uint b) mod 18446744073709551616"
    using ab by (simp add: uint_word_ariths unsigned_ucast_eq take_bit_int_eq_self)
  also have "\<dots> = (uint a - uint b + 18446744073709551616) mod 18446744073709551616" by simp
  also have "\<dots> = uint a - uint b + 18446744073709551616" using ab by (intro mod_pos_pos_trivial) linarith+
  finally have "uint (ucast a - ucast b :: u64) = uint a - uint b + 18446744073709551616" .
  moreover have "9007199254740992 \<le> uint a - uint b + 18446744073709551616" using ab by linarith
  ultimately show ?thesis by simp
qed

lemma deadband_uint32_decrease:
  assumes "a < b" and "db < 2 ^ 53"
  shows "\<not> equalDeadbandAbsolute shared (VScalar (SUint32 a)) (VScalar (SUint32 b)) (Fin db)"
  using int_close_wrapped [OF uint_sub_wrapped [OF assms(1)] assms(2)] by simp

lemma deadband_uint32_increase:
  fixes a b :: u32
  assumes "b \<le> a"
  shows "equalDeadbandAbsolute shared (VScalar (SUint32 a)) (VScalar (SUint32 b)) (Fin db)
    \<longleftrightarrow> of_int (uint a - uint b) \<le> db"
proof -
  have ab: "uint b \<le> uint a" "uint a < 4294967296" "0 \<le> uint b"
    using assms uint_bounded [of a] by (simp_all add: word_le_def)
  have "uint (ucast a - ucast b :: u64) = (uint a - uint b) mod 18446744073709551616"
    using ab by (simp add: uint_word_ariths unsigned_ucast_eq take_bit_int_eq_self)
  also have "\<dots> = uint a - uint b" using ab by (intro mod_pos_pos_trivial) linarith+
  finally have "uint (ucast a - ucast b :: u64) = uint a - uint b" .
  moreover have "uint a - uint b < 9007199254740992" using ab by linarith
  with ab have "fin_round (of_int (uint a - uint b)) = Fin (of_int (uint a - uint b))"
    by (intro fin_round_int) simp_all
  ultimately show ?thesis
    using ab by (simp add: int_close_def f_le_def f_eq_def del: of_int_diff) auto
qed

section \<open>Reachable items\<close>

inductive data_item_reach :: "DataChangeMonitoredItem \<Rightarrow> bool" where
  new: "data_item_reach (NewDataChangeMonitoredItem now readv pub nodeMin i rv mode ps ttr minS)"
| modify: "data_item_reach mi \<Longrightarrow> data_item_reach (snd (DataChange_Modify now readv pub nodeMin ps mi))"
| mode: "data_item_reach mi \<Longrightarrow> data_item_reach (fst (DataChange_SetMonitoringMode now readv mode mi))"
| sample: "data_item_reach mi \<Longrightarrow>
    data_item_reach (fst (snd (DataChange_notificationsAvailable shared readv tn rs mi)))"
| notify: "data_item_reach mi \<Longrightarrow> DataChange_notifications mx mi = (out, mr, mi') \<Longrightarrow> data_item_reach mi'"
| poll: "data_item_reach mi \<Longrightarrow> data_item_reach (DataChange_Poll readv mi)"
| trigger: "data_item_reach mi \<Longrightarrow> data_item_reach (snd (DataChange_AddTriggeredItem t mi))"
| untrigger: "data_item_reach mi \<Longrightarrow> data_item_reach (snd (DataChange_RemoveTriggeredItem t mi))"
| delete: "data_item_reach mi \<Longrightarrow> data_item_reach (DataChange_Delete mi)"

lemma data_item_ok_triggers:
  "data_item_ok mi \<Longrightarrow> data_item_ok (snd (DataChange_AddTriggeredItem t mi))"
  "data_item_ok mi \<Longrightarrow> data_item_ok (snd (DataChange_RemoveTriggeredItem t mi))"
  by (simp_all add: DataChange_AddTriggeredItem_def DataChange_RemoveTriggeredItem_def split: prod.splits)

lemma data_item_reach_ok: "data_item_reach mi \<Longrightarrow> data_item_ok mi"
proof (induction rule: data_item_reach.induct)
  case (notify mi mx out mr mi')
  from data_item_ok_notifications [OF notify.IH notify.hyps(2)] show ?case .
qed (rule data_item_ok_New data_item_ok_Modify data_item_ok_SetMonitoringMode data_item_ok_notificationsAvailable
       data_item_ok_others data_item_ok_triggers; assumption?)+

end
