(* ===== verification/Subscription.thy ===== *)
theory Subscription
  imports Monitored_Item
begin

text \<open>
  Subscriptions (\<open>server/subscription.go\<close>): revision of the requested parameters,
  the items, acknowledgement and retransmission, and the publishing cycle. The loop
  over the map of items runs in an unspecified order, so the operations with such a
  loop take the order of the visited ids. \<open>env\<close> gives what the operations take from
  outside: the write to a channel, the value the server reads for an item, and
  whether two slices share memory.
\<close>

section \<open>State\<close>

datatype MonitoredItem = DataItem DataChangeMonitoredItem | EventItem EventMonitoredItem

text \<open>
  The channel that ends the publishing goroutine. A session is referred to by its
  address.
\<close>

datatype done_chan = NilChan | OpenChan | ClosedChan

type_synonym items = "(u32 \<times> MonitoredItem) list"

record Subscription =
  sub_id :: u32
  publishingInterval :: float64
  maxLifetimeCount :: u32
  maxKeepAliveCount :: u32
  maxNotificationsPerPublish :: u32
  publishingEnabled :: bool
  priority :: byte
  nextSequenceNumber :: u32
  cancelPublishing :: done_chan
  sub_items :: "items option"
  keepAliveCount :: u32
  lifetimeCount :: u32
  moreNotifications :: bool
  isLate :: bool
  resend :: bool
  sub_session :: "nat option"
  retransmissionQueue :: "NotificationMessage list option"
  sub_sessionId :: "NodeID option"
  modifyCount :: u32
  republishRequestCount :: u32
  republishMessageRequestCount :: u32
  republishMessageCount :: u32
  publishRequestCount :: u32
  notificationsCount :: u32
  dataChangeNotificationsCount :: u32
  eventNotificationsCount :: u32
  unacknowledgedMessageCount :: u32
  latePublishRequestCount :: u32
  monitoredItemCount :: u32
  disabledMonitoredItemCount :: u32
  monitoringQueueOverflowCount :: u32

definition hasSession :: "Subscription \<Rightarrow> bool" where
  "hasSession s \<longleftrightarrow> sub_session s \<noteq> None"

lemma hasSession_keeps [simp]:
  "hasSession (s\<lparr>keepAliveCount := k\<rparr>) = hasSession s"
  "hasSession (s\<lparr>lifetimeCount := k\<rparr>) = hasSession s"
  "hasSession (s\<lparr>isLate := b\<rparr>) = hasSession s"
  "hasSession (s\<lparr>sub_items := its\<rparr>) = hasSession s"
  "hasSession (s\<lparr>resend := b\<rparr>) = hasSession s"
  "hasSession (s\<lparr>cancelPublishing := c\<rparr>) = hasSession s"
  "hasSession (s\<lparr>monitoringQueueOverflowCount := k\<rparr>) = hasSession s"
  by (simp_all add: hasSession_def)

record env =
  env_write :: ch_write
  env_read :: "u32 \<Rightarrow> DataValue"
  env_shared :: "DataValue \<Rightarrow> DataValue \<Rightarrow> bool"

definition minPublishingInterval :: float64 where "minPublishingInterval = Fin 125"
definition maxPublishingInterval :: float64 where "maxPublishingInterval = Fin 60000"
definition minLifetime :: float64 where "minLifetime = Fin 10000"
definition maxLifetime :: float64 where "maxLifetime = Fin 3600000"
definition maxRetransmissionQueueLength :: nat where "maxRetransmissionQueueLength = 128"

section \<open>Revision of the parameters\<close>

definition setPublishingInterval :: "float64 \<Rightarrow> Subscription \<Rightarrow> Subscription" where
  "setPublishingInterval x s =
     (let x1 = (if IsNaN x then minPublishingInterval else x);
          x2 = (if f_less x1 minPublishingInterval then minPublishingInterval else x1);
          x3 = (if f_less maxPublishingInterval x2 then maxPublishingInterval else x2)
      in s\<lparr>publishingInterval := x3\<rparr>)"

text \<open>\<open>uint32(whole / interval)\<close>, plus one when the division leaves a remainder.\<close>

definition intervals_in :: "float64 \<Rightarrow> float64 \<Rightarrow> u32" where
  "intervals_in whole interval =
     (let n = f_to_u32 (f_div whole interval)
      in if n < 0xFFFFFFFF \<and> \<not> f_eq (f_mod whole interval) (Fin 0) then n + 1 else n)"

definition setMaxKeepAliveCount :: "u32 \<Rightarrow> Subscription \<Rightarrow> Subscription" where
  "setMaxKeepAliveCount n s =
     (let n0 = (if n = 0 then 3 else n);
          iv = publishingInterval s;
          n1 = (if f_less maxLifetime (f_mul (f_of_u32 n0) iv) then intervals_in maxLifetime iv else n0);
          n2 = (if f_less maxPublishingInterval (f_mul (f_of_u32 n1) iv)
                then intervals_in maxPublishingInterval iv else n1)
      in s\<lparr>maxKeepAliveCount := n2\<rparr>)"

text \<open>\<open>math.MaxUint32 / 3\<close> is \<open>0x55555555\<close>; \<open>math.MaxFloat64\<close> exceeds every interval compared with it.\<close>

definition maxFloat64 :: float64 where
  "maxFloat64 = Fin ((2 - 1 / 2 ^ 52) * 2 ^ 1023)"

definition setLifetimeCount :: "u32 \<Rightarrow> Subscription \<Rightarrow> Subscription" where
  "setLifetimeCount n s =
     (let iv = publishingInterval s; ka = maxKeepAliveCount s;
          n1 = (if f_less maxLifetime (f_mul (f_of_u32 n) iv) then intervals_in maxLifetime iv else n);
          n2 = (if ka < 0x55555555 then (if ka * 3 > n1 then ka * 3 else n1) else 0xFFFFFFFF);
          li = (if ka < 0x55555555 then f_mul (f_of_u32 n2) iv else maxFloat64);
          n3 = (if f_less iv minLifetime \<and> f_less li minLifetime then intervals_in minLifetime iv else n2)
      in s\<lparr>maxLifetimeCount := n3\<rparr>)"

definition setMaxNotificationsPerPublish :: "u32 \<Rightarrow> Subscription \<Rightarrow> Subscription" where
  "setMaxNotificationsPerPublish n s =
     s\<lparr>maxNotificationsPerPublish := (if n > 0 then n else 0x7FFFFFFF)\<rparr>"

definition NewSubscription ::
    "nat \<Rightarrow> NodeID option \<Rightarrow> u32 \<Rightarrow> float64 \<Rightarrow> u32 \<Rightarrow> u32 \<Rightarrow> u32 \<Rightarrow> bool \<Rightarrow> byte \<Rightarrow> Subscription" where
  "NewSubscription sess sid i interval lifetime keepAlive maxNotif enabled prio =
     setMaxNotificationsPerPublish maxNotif (setLifetimeCount lifetime (setMaxKeepAliveCount keepAlive
       (setPublishingInterval interval
         \<lparr>sub_id = i, publishingInterval = Fin 0, maxLifetimeCount = 0, maxKeepAliveCount = 0,
          maxNotificationsPerPublish = 0, publishingEnabled = enabled, priority = prio,
          nextSequenceNumber = 1, cancelPublishing = NilChan, sub_items = Some [],
          keepAliveCount = 0, lifetimeCount = 0, moreNotifications = False, isLate = False,
          resend = False, sub_session = Some sess, retransmissionQueue = Some [],
          sub_sessionId = sid, modifyCount = 0, republishRequestCount = 0, republishMessageRequestCount = 0,
          republishMessageCount = 0, publishRequestCount = 0, notificationsCount = 0,
          dataChangeNotificationsCount = 0, eventNotificationsCount = 0,
          unacknowledgedMessageCount = 0, latePublishRequestCount = 0, monitoredItemCount = 0,
          disabledMonitoredItemCount = 0, monitoringQueueOverflowCount = 0\<rparr>)))"

section \<open>Publishing on and off\<close>

definition startPublishing :: "Subscription \<Rightarrow> Subscription" where
  "startPublishing s = s\<lparr>cancelPublishing := OpenChan\<rparr>"

text \<open>Closing a nil or a closed channel panics.\<close>

definition stopPublishing :: "(Subscription, unit) act" where
  "stopPublishing = (\<lambda>s. if cancelPublishing s = OpenChan
     then (Ok (), s\<lparr>cancelPublishing := ClosedChan\<rparr>) else (Panic, s))"

definition Subscription_IsExpired :: "Subscription \<Rightarrow> bool" where
  "Subscription_IsExpired s \<longleftrightarrow> lifetimeCount s \<ge> maxLifetimeCount s"

definition deleteImpl :: "(Subscription, unit) act" where
  "deleteImpl = bnd stopPublishing (\<lambda>_ s.
     (Ok (), s\<lparr>sub_items := None, retransmissionQueue := None, sub_session := None\<rparr>))"

definition SetPublishingMode :: "bool \<Rightarrow> Subscription \<Rightarrow> Subscription" where
  "SetPublishingMode enabled s = s\<lparr>publishingEnabled := enabled, lifetimeCount := 0\<rparr>"

definition Subscription_Modify :: "float64 \<Rightarrow> u32 \<Rightarrow> u32 \<Rightarrow> u32 \<Rightarrow> byte \<Rightarrow> (Subscription, unit) act" where
  "Subscription_Modify interval lifetime keepAlive maxNotif prio = bnd stopPublishing (\<lambda>_ s.
     (let s1 = setMaxNotificationsPerPublish maxNotif (setLifetimeCount lifetime
                 (setMaxKeepAliveCount keepAlive (setPublishingInterval interval s)))
      in (Ok (), startPublishing (s1\<lparr>priority := prio, lifetimeCount := 0, modifyCount := modifyCount s1 + 1\<rparr>))))"

definition resendData :: "Subscription \<Rightarrow> Subscription" where
  "resendData s = s\<lparr>resend := True\<rparr>"

section \<open>Items\<close>

fun item_id :: "MonitoredItem \<Rightarrow> u32" where
  "item_id (DataItem mi) = dc_id mi"
| "item_id (EventItem mi) = ev_id mi"

fun item_mode :: "MonitoredItem \<Rightarrow> MonitoringMode" where
  "item_mode (DataItem mi) = dc_monitoringMode mi"
| "item_mode (EventItem mi) = ev_monitoringMode mi"

fun item_triggered :: "MonitoredItem \<Rightarrow> bool" where
  "item_triggered (DataItem mi) = dc_triggered mi"
| "item_triggered (EventItem mi) = ev_triggered mi"

fun SetTriggered :: "bool \<Rightarrow> MonitoredItem \<Rightarrow> MonitoredItem" where
  "SetTriggered v (DataItem mi) = DataItem (mi\<lparr>dc_triggered := v\<rparr>)"
| "SetTriggered v (EventItem mi) = EventItem (mi\<lparr>ev_triggered := v\<rparr>)"

definition items_of :: "Subscription \<Rightarrow> items" where
  "items_of s = (case sub_items s of None \<Rightarrow> [] | Some its \<Rightarrow> its)"

definition FindItem :: "u32 \<Rightarrow> Subscription \<Rightarrow> MonitoredItem option" where
  "FindItem i s = map_of (items_of s) i"

definition AppendItem :: "MonitoredItem \<Rightarrow> (Subscription, bool) act" where
  "AppendItem item = (\<lambda>s.
     if FindItem (item_id item) s \<noteq> None then (Ok False, s)
     else case sub_items s of
       None \<Rightarrow> (Panic, s)
     | Some its \<Rightarrow> (Ok True,
         s\<lparr>sub_items := Some (AList.update (item_id item) item its),
           monitoredItemCount := monitoredItemCount s + 1,
           disabledMonitoredItemCount := disabledMonitoredItemCount s + (if item_mode item = Disabled then 1 else 0)\<rparr>))"

definition DeleteItem :: "u32 \<Rightarrow> Subscription \<Rightarrow> bool \<times> Subscription" where
  "DeleteItem i s = (case FindItem i s of
       None \<Rightarrow> (False, s)
     | Some item \<Rightarrow> (True,
         s\<lparr>sub_items := map_option (AList.delete i) (sub_items s),
           monitoredItemCount := monitoredItemCount s - 1,
           disabledMonitoredItemCount := disabledMonitoredItemCount s - (if item_mode item = Disabled then 1 else 0)\<rparr>))"

text \<open>\<open>SetMonitoringMode\<close> of an item, with its effect on the count of disabled items.\<close>

definition setItemMode :: "env \<Rightarrow> instant \<Rightarrow> u32 \<Rightarrow> MonitoringMode \<Rightarrow> Subscription \<Rightarrow> Subscription" where
  "setItemMode en now i mode s = (case FindItem i s of
       None \<Rightarrow> s
     | Some item \<Rightarrow>
         (let (item', d) = (case item of
               DataItem mi \<Rightarrow> (case DataChange_SetMonitoringMode now (env_read en i) mode mi of (mi', d) \<Rightarrow> (DataItem mi', d))
             | EventItem mi \<Rightarrow> (case Event_SetMonitoringMode mode mi of (mi', d) \<Rightarrow> (EventItem mi', d)))
          in s\<lparr>sub_items := map_option (AList.update i item') (sub_items s),
               disabledMonitoredItemCount := disabledMonitoredItemCount s + d\<rparr>))"

section \<open>Acknowledgement\<close>

text \<open>\<open>container/list\<close>: the first message with the sequence number is removed.\<close>

fun remove_seq :: "u32 \<Rightarrow> NotificationMessage list \<Rightarrow> NotificationMessage list option" where
  "remove_seq n [] = None"
| "remove_seq n (m # q) = (if nm_SequenceNumber m = n then Some q else map_option (Cons m) (remove_seq n q))"

definition acknowledge :: "u32 \<Rightarrow> (Subscription, bool) act" where
  "acknowledge n = (\<lambda>s. case retransmissionQueue s of
       None \<Rightarrow> (Panic, s)
     | Some q \<Rightarrow> (case remove_seq n q of
           None \<Rightarrow> (Ok False, s)
         | Some q' \<Rightarrow> (Ok True, s\<lparr>retransmissionQueue := Some q'\<rparr>)))"

section \<open>Publishing\<close>

definition trigger_items :: "u32 list \<Rightarrow> items \<Rightarrow> items" where
  "trigger_items ids its = fold (\<lambda>i its. case map_of its i of
       None \<Rightarrow> its | Some it \<Rightarrow> AList.update i (SetTriggered True it) its) ids its"

text \<open>
  \<open>for _, item := range s.items { if item.notificationsAvailable(...) { ... } }\<close>:
  whether some item has notifications, the items, the overflows.
\<close>

fun poll_items :: "env \<Rightarrow> instant \<Rightarrow> bool \<Rightarrow> u32 list \<Rightarrow> items \<Rightarrow> bool \<times> items \<times> nat" where
  "poll_items en tn rs [] its = (False, its, 0)"
| "poll_items en tn rs (i # is) its = (case map_of its i of
       None \<Rightarrow> poll_items en tn rs is its
     | Some (EventItem mi) \<Rightarrow>
         (case poll_items en tn rs is its of (b, its', n) \<Rightarrow> (Event_notificationsAvailable mi \<or> b, its', n))
     | Some (DataItem mi) \<Rightarrow>
         (case DataChange_notificationsAvailable (env_shared en) (env_read en i) tn rs mi of
            (r, mi', (ov, trig)) \<Rightarrow>
              (case poll_items en tn rs is (trigger_items trig (AList.update i (DataItem mi') its)) of
                 (b, its', n) \<Rightarrow> (r \<or> b, its', ov + n))))"

text \<open>The loop that takes the notifications of the reporting and triggered items.\<close>

fun collect :: "u32 list \<Rightarrow> int \<Rightarrow> items \<Rightarrow>
    (u32 \<times> DataValue) list \<times> (u32 \<times> goval list) list \<times> bool \<times> items" where
  "collect [] mx its = ([], [], False, its)"
| "collect (i # is) mx its = (case map_of its i of
       None \<Rightarrow> collect is mx its
     | Some it \<Rightarrow>
         (if item_mode it \<noteq> Reporting \<and> \<not> item_triggered it then collect is mx its
          else case it of
            EventItem mi \<Rightarrow>
              (case Event_notifications mx mi of (out, mr1, mi') \<Rightarrow>
                (case collect is (mx - int (length out)) (AList.update i (EventItem mi') its) of
                   (ds, es, m, its') \<Rightarrow> (ds, map (Pair (ev_clientHandle mi)) out @ es, mr1 \<or> m, its')))
          | DataItem mi \<Rightarrow>
              (case DataChange_notifications mx mi of (out, mr1, mi') \<Rightarrow>
                (case collect is (mx - int (length out)) (AList.update i (DataItem mi') its) of
                   (ds, es, m, its') \<Rightarrow> (map (Pair (dc_clientHandle mi)) out @ ds, es, mr1 \<or> m, its')))))"

text \<open>
  The loop that makes room removes one message at most: \<open>e.Next()\<close> of a removed
  element is nil.
\<close>

definition push_retransmission :: "NotificationMessage \<Rightarrow> NotificationMessage list \<Rightarrow> NotificationMessage list" where
  "push_retransmission nm q =
     (if length q \<ge> maxRetransmissionQueueLength then tl q else q) @ [nm]"

datatype outcome = Returned "goerr option" | Panicked | Blocked

text \<open>
  The result of a cycle: how it ended, the responses written, whether the manager
  was told to drop the subscription, and the new states.
\<close>

type_synonym 'rd cycle = "outcome \<times> sent \<times> bool \<times> Subscription \<times> 'rd Session"

text \<open>The data message: collected notifications, retransmission queue, response.\<close>

definition publish_data ::
    "env \<Rightarrow> instant \<Rightarrow> u32 list \<Rightarrow> channel \<Rightarrow> u32 \<Rightarrow> PublishRequest \<Rightarrow> StatusCode list \<Rightarrow> Subscription \<Rightarrow>
     (goerr option \<times> bool \<times> nat \<times> Subscription) option \<times> sent" where
  "publish_data en tn ord ch rid req results s =
     (case (collect ord (int (unat (maxNotificationsPerPublish s))) (items_of s), retransmissionQueue s) of
        (_, None) \<Rightarrow> (None, [])
      | ((mins, efls, mr, its), Some q) \<Rightarrow>
          (let nd = (if mins \<noteq> [] then [DataChangeNotification mins] else [])
                    @ (if efls \<noteq> [] then [EventNotificationList efls] else []);
               nm = \<lparr>nm_SequenceNumber = nextSequenceNumber s, nm_PublishTime = tn, nm_NotificationData = nd\<rparr>;
               q' = push_retransmission nm q;
               avail = map nm_SequenceNumber q';
               s1 = s\<lparr>sub_items := map_option (\<lambda>_. its) (sub_items s),
                      eventNotificationsCount := eventNotificationsCount s + word_of_nat (length efls),
                      dataChangeNotificationsCount := dataChangeNotificationsCount s + word_of_nat (length mins),
                      notificationsCount := notificationsCount s + word_of_nat (length mins + length efls),
                      retransmissionQueue := Some q'\<rparr>;
               r = PublishResponse (pr_RequestHandle req) (sub_id s) avail mr nm results
           in case env_write en ch rid r of
                Some e \<Rightarrow> (Some (Some e, mr, length avail, s1), [])
              | None \<Rightarrow> (Some (None, mr, length avail, s1), [(ch, rid, r)])))"

text \<open>The keep-alive message: no notification, the sequence number is not used up.\<close>

definition publish_keepalive ::
    "env \<Rightarrow> instant \<Rightarrow> channel \<Rightarrow> u32 \<Rightarrow> PublishRequest \<Rightarrow> StatusCode list \<Rightarrow> Subscription \<Rightarrow>
     (goerr option \<times> nat) option \<times> sent" where
  "publish_keepalive en now ch rid req results s = (case retransmissionQueue s of
       None \<Rightarrow> (None, [])
     | Some q \<Rightarrow>
         (let avail = map nm_SequenceNumber q;
              nm = \<lparr>nm_SequenceNumber = nextSequenceNumber s, nm_PublishTime = now, nm_NotificationData = []\<rparr>;
              r = PublishResponse (pr_RequestHandle req) (sub_id s) avail False nm results
          in case env_write en ch rid r of
               Some e \<Rightarrow> (Some (Some e, length avail), [])
             | None \<Rightarrow> (Some (None, length avail), [(ch, rid, r)])))"

text \<open>No publish request is queued: the subscription is late, and expires after too many cycles.\<close>

definition expire :: "instant \<Rightarrow> Subscription \<Rightarrow> 'rd Session \<Rightarrow> 'rd cycle" where
  "expire now s sess =
     (let nm = \<lparr>nm_SequenceNumber = nextSequenceNumber s, nm_PublishTime = now,
                nm_NotificationData = [StatusChangeNotification BadTimeout]\<rparr>
      in if length (stateChanges sess) \<ge> queue_cap then (Blocked, [], False, s, sess)
         else let sess' = sess\<lparr>stateChanges := stateChanges sess @ [\<lparr>sc_subscriptionId = sub_id s, sc_message = nm\<rparr>]\<rparr>;
                  s1 = s\<lparr>nextSequenceNumber := nextSequenceNumber s + 1\<rparr>
              in case deleteImpl s1 of
                   (Ok _, s2) \<Rightarrow> (Returned None, [], True, s2, sess')
                 | (_, s2) \<Rightarrow> (Panicked, [], True, s2, sess'))"

text \<open>The two cases of the switch of \<open>publish\<close>: notifications to send, or nothing to send.\<close>

definition publish_available ::
    "env \<Rightarrow> instant \<Rightarrow> instant \<Rightarrow> u32 list \<Rightarrow> Subscription \<Rightarrow> 'rd Session \<Rightarrow> 'rd cycle" where
  "publish_available en tn now ord2 s sess =
     (if \<not> hasSession s then (Returned None, [], False, s, sess)
      else case removePublishRequest (env_write en) now sess of
        ((_, Some e), out, sess1) \<Rightarrow> (Returned (Some e), out, False, s, sess1)
      | ((Some op, None), out, sess1) \<Rightarrow>
          (case publish_data en tn ord2 (op_ch op) (op_requestId op) (op_req op) (op_results op) s of
             (None, out') \<Rightarrow> (Panicked, out @ out', False, s, sess1)
           | (Some (Some e, _, _, s1), out') \<Rightarrow> (Returned (Some e), out @ out', False, s1, sess1)
           | (Some (None, mr, n, s1), out') \<Rightarrow>
               (Returned None, out @ out', False,
                s1\<lparr>unacknowledgedMessageCount := word_of_nat n, publishRequestCount := publishRequestCount s1 + 1,
                   nextSequenceNumber := nextSequenceNumber s1 + 1, keepAliveCount := 0, lifetimeCount := 0,
                   isLate := False, moreNotifications := mr\<rparr>, sess1))
      | ((None, None), out, sess1) \<Rightarrow>
          (let s1 = s\<lparr>isLate := True, lifetimeCount := lifetimeCount s + 1\<rparr> in
           if lifetimeCount s1 \<ge> maxLifetimeCount s1
           then (case expire now s1 sess1 of (r, out', d, s2, sess2) \<Rightarrow> (r, out @ out', d, s2, sess2))
           else (Returned None, out, False, s1, sess1)))"

definition publish_idle :: "env \<Rightarrow> instant \<Rightarrow> Subscription \<Rightarrow> 'rd Session \<Rightarrow> 'rd cycle" where
  "publish_idle en now s sess =
     (let s1 = s\<lparr>keepAliveCount := keepAliveCount s + 1\<rparr> in
      if keepAliveCount s1 \<ge> maxKeepAliveCount s1 \<or> publishRequestCount s1 = 0 then
        (if \<not> hasSession s1 then (Returned None, [], False, s1, sess)
         else case removePublishRequest (env_write en) now sess of
           ((_, Some e), out, sess1) \<Rightarrow> (Returned (Some e), out, False, s1, sess1)
         | ((Some op, None), out, sess1) \<Rightarrow>
             (case publish_keepalive en now (op_ch op) (op_requestId op) (op_req op) (op_results op) s1 of
                (None, out') \<Rightarrow> (Panicked, out @ out', False, s1, sess1)
              | (Some (Some e, _), out') \<Rightarrow> (Returned (Some e), out @ out', False, s1, sess1)
              | (Some (None, n), out') \<Rightarrow>
                  (Returned None, out @ out', False,
                   s1\<lparr>unacknowledgedMessageCount := word_of_nat n, publishRequestCount := publishRequestCount s1 + 1,
                      keepAliveCount := 0, lifetimeCount := 0, isLate := False\<rparr>, sess1))
         | ((None, None), out, sess1) \<Rightarrow>
             (let s2 = s1\<lparr>isLate := True, lifetimeCount := lifetimeCount s1 + 1\<rparr> in
              if lifetimeCount s2 = maxLifetimeCount s2
              then (case expire now s2 sess1 of (r, out', d, s3, sess2) \<Rightarrow> (r, out @ out', d, s3, sess2))
              else (Returned None, out, False, s2, sess1)))
      else (Returned None, [], False, s1, sess))"

definition publish :: "env \<Rightarrow> instant \<Rightarrow> instant \<Rightarrow> u32 list \<Rightarrow> u32 list \<Rightarrow> Subscription \<Rightarrow> 'rd Session \<Rightarrow> 'rd cycle" where
  "publish en tn now ord1 ord2 s0 sess =
     (case poll_items en tn (resend s0) ord1 (items_of s0) of (avail, its, ov) \<Rightarrow>
        let s = s0\<lparr>sub_items := map_option (\<lambda>_. its) (sub_items s0), resend := False,
                   monitoringQueueOverflowCount := monitoringQueueOverflowCount s0 + word_of_nat ov\<rparr> in
        if avail \<and> publishingEnabled s then publish_available en tn now ord2 s sess
        else publish_idle en now s sess)"

text \<open>A publish request that arrives while the subscription is late. The first result says whether it was used.\<close>

definition handleLatePublishRequest ::
    "env \<Rightarrow> instant \<Rightarrow> u32 list \<Rightarrow> u32 list \<Rightarrow> channel \<Rightarrow> u32 \<Rightarrow> PublishRequest \<Rightarrow> StatusCode list \<Rightarrow> Subscription \<Rightarrow>
     bool \<times> outcome \<times> sent \<times> Subscription" where
  "handleLatePublishRequest en tn ord1 ord2 ch rid req results s0 =
     (if \<not> isLate s0 then (False, Returned None, [], s0)
      else case poll_items en tn False ord1 (items_of s0) of (avail, its, ov) \<Rightarrow>
        let s = s0\<lparr>sub_items := map_option (\<lambda>_. its) (sub_items s0),
                   monitoringQueueOverflowCount := monitoringQueueOverflowCount s0 + word_of_nat ov\<rparr> in
        if avail \<and> publishingEnabled s then
          (case publish_data en tn ord2 ch rid req results s of
             (None, out) \<Rightarrow> (False, Panicked, out, s)
           | (Some (Some e, _, _, s1), out) \<Rightarrow> (True, Returned (Some e), out, s1)
           | (Some (None, mr, n, s1), out) \<Rightarrow>
               (True, Returned None, out,
                s1\<lparr>publishRequestCount := publishRequestCount s1 + 1,
                   latePublishRequestCount := latePublishRequestCount s1 + 1,
                   unacknowledgedMessageCount := word_of_nat n,
                   nextSequenceNumber := nextSequenceNumber s1 + 1, keepAliveCount := 0, lifetimeCount := 0,
                   moreNotifications := mr, isLate := (isLate s1 \<and> mr)\<rparr>))
        else if keepAliveCount s \<ge> maxKeepAliveCount s \<or> publishRequestCount s = 0 then
          (case publish_keepalive en tn ch rid req
                  (replicate (length (pr_SubscriptionAcknowledgements req)) 0) s of
             (None, out) \<Rightarrow> (False, Panicked, out, s)
           | (Some (Some e, _), out) \<Rightarrow> (True, Returned (Some e), out, s)
           | (Some (None, n), out) \<Rightarrow>
               (True, Returned None, out,
                s\<lparr>publishRequestCount := publishRequestCount s + 1,
                  latePublishRequestCount := latePublishRequestCount s + 1,
                  unacknowledgedMessageCount := word_of_nat n,
                  keepAliveCount := 0, lifetimeCount := 0, isLate := False\<rparr>))
        else (False, Returned None, [], s))"

section \<open>The revised parameters\<close>

definition interval_ok :: "float64 \<Rightarrow> bool" where
  "interval_ok x \<longleftrightarrow> (\<exists>q. x = Fin q \<and> 125 \<le> q \<and> q \<le> 60000)"

lemma setPublishingInterval_ok: "interval_ok (publishingInterval (setPublishingInterval x s))"
  by (cases x) (auto simp: interval_ok_def setPublishingInterval_def Let_def
      minPublishingInterval_def maxPublishingInterval_def)

lemma rat_trunc_bounds:
  assumes "of_int a \<le> r" "r \<le> of_int b" "0 \<le> a"
  shows "a \<le> rat_trunc r \<and> rat_trunc r \<le> b"
proof -
  have "0 \<le> r" using assms(1,3) by (meson of_int_0_le_iff order_trans)
  moreover have "a \<le> \<lfloor>r\<rfloor>" using assms(1) by (simp add: le_floor_iff)
  moreover have "\<lfloor>r\<rfloor> \<le> b" using assms(2) by linarith
  ultimately show ?thesis by (simp add: rat_trunc_def)
qed

lemma intervals_in_bounds:
  assumes iv: "125 \<le> iv" and a: "of_int a \<le> of_int t / iv" and b: "of_int t / iv \<le> of_int b"
    and "0 \<le> a" and "b < 2 ^ 31"
  shows "a \<le> uint (intervals_in (Fin (of_int t)) (Fin iv)) \<and> uint (intervals_in (Fin (of_int t)) (Fin iv)) \<le> b + 1"
proof -
  have b53: "b < 2 ^ 53" using assms(5) by simp
  obtain r where r: "fin_round (of_int t / iv) = Fin r" "of_int a \<le> r" "r \<le> of_int b"
    using fin_round_bounds [OF a b assms(4) b53] by blast
  let ?n = "rat_trunc r"
  have n: "a \<le> ?n" "?n \<le> b" using rat_trunc_bounds [OF r(2,3) assms(4)] by simp_all
  have nn: "0 \<le> ?n" "?n < 2 ^ 31" using n assms(4,5) by linarith+
  have u: "uint (word_of_int ?n :: u32) = ?n" using nn by (simp add: uint_word_of_int take_bit_int_eq_self)
  have u1: "uint (word_of_int ?n + 1 :: u32) = ?n + 1"
    using nn u by (simp add: uint_word_ariths)
  have d: "f_to_u32 (f_div (Fin (of_int t)) (Fin iv)) = word_of_int ?n"
    using iv r(1) by simp
  show ?thesis
    using n u u1 by (simp add: intervals_in_def Let_def d del: f_div.simps)
qed

lemma fin_round_ge:
  assumes "of_int m \<le> x" "0 < m" "m \<le> 2 ^ 53"
  shows "f_less (Fin y) (fin_round x) \<or> of_int m \<le> y"
proof -
  have m0: "(0 :: rat) < of_int m" using assms(2) by simp
  with assms(1) have x: "0 < x" by linarith
  have "of_int m \<le> round_pos x" by (rule round_pos_ge [OF x assms(1,3)])
  with x show ?thesis by (auto simp: fin_round_def Let_def)
qed

lemma mul_not_less:
  assumes "\<not> f_less (Fin (of_int t)) (fin_round x)" "0 \<le> t" "t < 2 ^ 53"
  shows "x < of_int (t + 1)"
  using fin_round_ge [of "t + 1" x "of_int t"] assms by fastforce

lemma mul_less:
  assumes "f_less (fin_round x) (Fin (of_int t))" "0 < t" "t < 2 ^ 53"
  shows "x < of_int t"
proof (rule ccontr)
  assume "\<not> x < of_int t"
  then have ge: "of_int t \<le> x" by simp
  moreover have t0: "(0 :: rat) < of_int t" using assms(2) by simp
  ultimately have x: "0 < x" by linarith
  have "of_int t \<le> round_pos x" by (rule round_pos_ge [OF x ge]) (use assms(3) in simp)
  with x assms(1) show False by (auto simp: fin_round_def Let_def split: if_splits)
qed

text \<open>The interval fits at least \<open>t div 60000\<close> and at most \<open>t\<close> times into \<open>t * 125\<close>.\<close>

lemma quotient_bounds:
  fixes iv :: rat
  assumes "125 \<le> iv" "iv \<le> 60000" "0 \<le> t"
  shows "of_int (t div 60000) \<le> of_int t / iv" "of_int (t * 125) / iv \<le> of_int t"
proof -
  have iv: "0 < iv" using assms(1) by linarith
  have "of_int (t div 60000) * iv \<le> of_int (t div 60000) * 60000"
    using assms(2,3) by (intro mult_left_mono) (simp_all add: pos_imp_zdiv_nonneg_iff)
  also have "\<dots> = of_int (t div 60000 * 60000)" by simp
  also have "\<dots> \<le> of_int t" by (simp only: of_int_le_iff div_times_less_eq_dividend)
  finally show "of_int (t div 60000) \<le> of_int t / iv" using iv by (simp add: pos_le_divide_eq)
  have "of_int t * 125 \<le> of_int t * iv" using assms(1,3) by (intro mult_left_mono) simp_all
  then show "of_int (t * 125) / iv \<le> of_int t" using iv by (simp add: pos_divide_le_eq)
qed

lemma count_bound:
  fixes iv :: rat
  assumes "125 \<le> iv" and "of_nat (unat n) * iv < of_int (t + 1)"
  shows "int (unat n) * 125 \<le> t"
proof -
  have "(of_int (int (unat n) * 125) :: rat) = of_nat (unat n) * 125" by simp
  also have "\<dots> \<le> of_nat (unat n) * iv" by (rule mult_left_mono [OF assms(1) of_nat_0_le_iff])
  also have "\<dots> < of_int (t + 1)" by fact
  finally have "int (unat n) * 125 < t + 1" by (simp only: of_int_less_iff)
  then show ?thesis by simp
qed

lemma maxKeepAliveCount_ok:
  assumes "interval_ok (publishingInterval s)"
  shows "1 \<le> uint (maxKeepAliveCount (setMaxKeepAliveCount n s)) \<and> uint (maxKeepAliveCount (setMaxKeepAliveCount n s)) \<le> 481"
proof -
  obtain iv where iv: "publishingInterval s = Fin iv" "125 \<le> iv" "iv \<le> 60000"
    using assms by (auto simp: interval_ok_def)
  define n0 where "n0 = (if n = 0 then 3 else n)"
  define n1 where "n1 = (if f_less maxLifetime (f_mul (f_of_u32 n0) (Fin iv)) then intervals_in maxLifetime (Fin iv) else n0)"
  define big where "big \<longleftrightarrow> f_less maxPublishingInterval (f_mul (f_of_u32 n1) (Fin iv))"
  have eq: "maxKeepAliveCount (setMaxKeepAliveCount n s) = (if big then intervals_in maxPublishingInterval (Fin iv) else n1)"
    by (simp add: setMaxKeepAliveCount_def Let_def iv(1) n0_def n1_def big_def)
  have "60 \<le> uint (intervals_in maxLifetime (Fin iv))"
    using intervals_in_bounds [OF iv(2), of 60 3600000 28800] quotient_bounds [OF iv(2,3), of 3600000] quotient_bounds [OF iv(2,3), of 28800]
    by (simp add: maxLifetime_def)
  moreover have "1 \<le> uint n0" by (auto simp: n0_def uint_0_iff linorder_not_le int_one_le_iff_zero_less order_less_le)
  ultimately have n1: "1 \<le> uint n1" by (auto simp: n1_def)
  show ?thesis
  proof (cases big)
    case True
    with eq show ?thesis
      using intervals_in_bounds [OF iv(2), of 1 60000 480] quotient_bounds [OF iv(2,3), of 60000] quotient_bounds [OF iv(2,3), of 480]
      by (simp add: maxPublishingInterval_def)
  next
    case False
    then have "of_nat (unat n1) * iv < of_int (60000 + 1)"
      by (intro mul_not_less) (simp_all add: big_def maxPublishingInterval_def f_of_u32_def)
    from count_bound [OF iv(2) this] have "uint n1 * 125 \<le> 60000" by simp
    with False eq n1 show ?thesis by simp
  qed
qed

lemma uint_times3: "uint ka \<le> 481 \<Longrightarrow> uint (ka * 3 :: u32) = uint ka * 3"
  by (simp add: uint_word_ariths)

lemma maxLifetimeCount_ok:
  assumes "interval_ok (publishingInterval s)" and ka: "1 \<le> uint (maxKeepAliveCount s)" "uint (maxKeepAliveCount s) \<le> 481"
  shows "3 * uint (maxKeepAliveCount s) \<le> uint (maxLifetimeCount (setLifetimeCount n s))
    \<and> uint (maxLifetimeCount (setLifetimeCount n s)) \<le> 28801"
proof -
  obtain iv where iv: "publishingInterval s = Fin iv" "125 \<le> iv" "iv \<le> 60000"
    using assms by (auto simp: interval_ok_def)
  let ?ka = "maxKeepAliveCount s"
  define n1 where "n1 = (if f_less maxLifetime (f_mul (f_of_u32 n) (Fin iv)) then intervals_in maxLifetime (Fin iv) else n)"
  define n2 where "n2 = (if ?ka * 3 > n1 then ?ka * 3 else n1)"
  define small where "small \<longleftrightarrow> f_less (Fin iv) minLifetime \<and> f_less (f_mul (f_of_u32 n2) (Fin iv)) minLifetime"
  have ka3: "uint (?ka * 3) = uint ?ka * 3" using ka(2) by (rule uint_times3)
  have "?ka < 0x55555555" using ka(2) by (simp add: word_less_def)
  then have eq: "maxLifetimeCount (setLifetimeCount n s) = (if small then intervals_in minLifetime (Fin iv) else n2)"
    by (simp add: setLifetimeCount_def Let_def iv(1) n1_def n2_def small_def)
  have n1: "uint n1 \<le> 28801"
  proof (cases "f_less maxLifetime (f_mul (f_of_u32 n) (Fin iv))")
    case True
    then show ?thesis
      using intervals_in_bounds [OF iv(2), of 60 3600000 28800] quotient_bounds [OF iv(2,3), of 3600000] quotient_bounds [OF iv(2,3), of 28800]
      by (simp add: n1_def maxLifetime_def)
  next
    case False
    then have "of_nat (unat n) * iv < of_int (3600000 + 1)"
      by (intro mul_not_less) (simp_all add: maxLifetime_def f_of_u32_def)
    from count_bound [OF iv(2) this] False show ?thesis by (simp add: n1_def)
  qed
  have n2: "3 * uint ?ka \<le> uint n2" "uint n2 \<le> 28801"
    using n1 ka3 ka(2) by (auto simp: n2_def word_less_def)
  show ?thesis
  proof (cases small)
    case True
    then have "of_nat (unat n2) * iv < of_int 10000"
      by (intro mul_less) (simp_all add: small_def minLifetime_def f_of_u32_def)
    then have "of_int (uint n2) \<le> of_int 10000 / iv"
      using iv(2) by (simp add: pos_le_divide_eq less_imp_le)
    with intervals_in_bounds [OF iv(2), of "uint n2" 10000 80] quotient_bounds [OF iv(2,3), of 80] True eq n2
    show ?thesis by (simp add: minLifetime_def)
  next
    case False
    with eq n2 show ?thesis by simp
  qed
qed

definition params_ok :: "Subscription \<Rightarrow> bool" where
  "params_ok s \<longleftrightarrow> interval_ok (publishingInterval s)
     \<and> 1 \<le> uint (maxKeepAliveCount s) \<and> uint (maxKeepAliveCount s) \<le> 481
     \<and> 3 * uint (maxKeepAliveCount s) \<le> uint (maxLifetimeCount s) \<and> uint (maxLifetimeCount s) \<le> 28801
     \<and> maxNotificationsPerPublish s \<noteq> 0"

lemma setLifetimeCount_keeps [simp]:
  "publishingInterval (setLifetimeCount n s) = publishingInterval s"
  "maxKeepAliveCount (setLifetimeCount n s) = maxKeepAliveCount s"
  by (simp_all add: setLifetimeCount_def Let_def)

lemma revise_params_ok:
  "params_ok (setMaxNotificationsPerPublish mn (setLifetimeCount lt (setMaxKeepAliveCount ka (setPublishingInterval iv s))))"
proof -
  let ?s1 = "setPublishingInterval iv s"
  let ?s2 = "setMaxKeepAliveCount ka ?s1"
  have i1: "interval_ok (publishingInterval ?s1)" by (rule setPublishingInterval_ok)
  moreover have "publishingInterval ?s2 = publishingInterval ?s1"
    by (simp add: setMaxKeepAliveCount_def Let_def)
  ultimately have i2: "interval_ok (publishingInterval ?s2)" by simp
  note k = maxKeepAliveCount_ok [OF i1, of ka]
  note l = maxLifetimeCount_ok [OF i2, of lt] 
  show ?thesis
    using i2 k l by (auto simp: params_ok_def setMaxNotificationsPerPublish_def)
qed

lemma NewSubscription_params_ok: "params_ok (NewSubscription sess sid i iv lt ka mn en prio)"
  unfolding NewSubscription_def by (rule revise_params_ok)

lemma Modify_params_ok:
  assumes "Subscription_Modify iv lt ka mn prio s = (Ok (), s')"
  shows "params_ok s'"
proof -
  obtain s0 where s0: "stopPublishing s = (Ok (), s0)"
    and s': "s' = (let s1 = setMaxNotificationsPerPublish mn (setLifetimeCount lt (setMaxKeepAliveCount ka (setPublishingInterval iv s0)))
       in startPublishing (s1\<lparr>priority := prio, lifetimeCount := 0, modifyCount := modifyCount s1 + 1\<rparr>))"
    using assms by (auto simp: Subscription_Modify_def bnd_eq_Ok_conv Let_def)
  show ?thesis
    using revise_params_ok [of mn lt ka iv s0] by (simp add: s' params_ok_def startPublishing_def Let_def)
qed

section \<open>What a cycle sends\<close>

lemma collect_bound:
  "collect ord mx its = (ds, es, m, its') \<Longrightarrow> int (length ds + length es) \<le> max 0 mx"
proof (induction ord arbitrary: mx its ds es m its')
  case (Cons i ord)
  show ?case
  proof (cases "map_of its i")
    case None
    with Cons show ?thesis by simp
  next
    case (Some it)
    show ?thesis
    proof (cases "item_mode it \<noteq> Reporting \<and> \<not> item_triggered it")
      case True
      with Cons Some show ?thesis by simp
    next
      case act: False
      show ?thesis
      proof (cases it)
        case (DataItem mi)
        obtain out m1 mi' where n: "DataChange_notifications mx mi = (out, m1, mi')" by (cases "DataChange_notifications mx mi")
        obtain ds1 es1 m2 its1 where c: "collect ord (mx - int (length out)) (AList.update i (DataItem mi') its) = (ds1, es1, m2, its1)"
          by (cases "collect ord (mx - int (length out)) (AList.update i (DataItem mi') its)")
        from data_queue.pull_fifo [OF n] Cons.IH [OF c] Cons.prems Some act DataItem n c show ?thesis by auto
      next
        case (EventItem mi)
        obtain out m1 mi' where n: "Event_notifications mx mi = (out, m1, mi')" by (cases "Event_notifications mx mi")
        obtain ds1 es1 m2 its1 where c: "collect ord (mx - int (length out)) (AList.update i (EventItem mi') its) = (ds1, es1, m2, its1)"
          by (cases "collect ord (mx - int (length out)) (AList.update i (EventItem mi') its)")
        from event_queue.pull_fifo [OF n] Cons.IH [OF c] Cons.prems Some act EventItem n c show ?thesis by auto
      qed
    qed
  qed
qed simp

fun notification_count :: "notification \<Rightarrow> nat" where
  "notification_count (DataChangeNotification xs) = length xs"
| "notification_count (EventNotificationList xs) = length xs"
| "notification_count (StatusChangeNotification _) = 0"

definition message_count :: "NotificationMessage \<Rightarrow> nat" where
  "message_count nm = sum_list (map notification_count (nm_NotificationData nm))"

lemma publish_data_cases:
  assumes "publish_data en tn ord ch rid req results s = (res, out)" and q: "retransmissionQueue s = Some q"
  obtains nm mr n s1 e where "res = Some (e, mr, n, s1)"
    and "nm_SequenceNumber nm = nextSequenceNumber s"
    and "message_count nm \<le> unat (maxNotificationsPerPublish s)"
    and "retransmissionQueue s1 = Some (push_retransmission nm q)"
    and "nextSequenceNumber s1 = nextSequenceNumber s" and "sub_id s1 = sub_id s"
    and "n = length (push_retransmission nm q)"
    and "out = (if e = None then [(ch, rid, PublishResponse (pr_RequestHandle req) (sub_id s)
            (map nm_SequenceNumber (push_retransmission nm q)) mr nm results)] else [])"
proof -
  obtain mins efls mr its where c: "collect ord (int (unat (maxNotificationsPerPublish s))) (items_of s) = (mins, efls, mr, its)"
    by (cases "collect ord (int (unat (maxNotificationsPerPublish s))) (items_of s)")
  from collect_bound [OF this] have le: "length mins + length efls \<le> unat (maxNotificationsPerPublish s)"
    by (simp only: max_def of_nat_le_iff of_nat_0_le_iff if_True)
  define nm where "nm = \<lparr>nm_SequenceNumber = nextSequenceNumber s, nm_PublishTime = tn, nm_NotificationData =
      (if mins \<noteq> [] then [DataChangeNotification mins] else []) @ (if efls \<noteq> [] then [EventNotificationList efls] else [])\<rparr>"
  define r where "r = PublishResponse (pr_RequestHandle req) (sub_id s) (map nm_SequenceNumber (push_retransmission nm q)) mr nm results"
  define s1 where "s1 = s\<lparr>sub_items := map_option (\<lambda>_. its) (sub_items s),
      eventNotificationsCount := eventNotificationsCount s + word_of_nat (length efls),
      dataChangeNotificationsCount := dataChangeNotificationsCount s + word_of_nat (length mins),
      notificationsCount := notificationsCount s + word_of_nat (length mins + length efls),
      retransmissionQueue := Some (push_retransmission nm q)\<rparr>"
  have eq: "publish_data en tn ord ch rid req results s =
      (Some (env_write en ch rid r, mr, length (push_retransmission nm q), s1),
       if env_write en ch rid r = None then [(ch, rid, r)] else [])"
    unfolding publish_data_def c q nm_def r_def s1_def by (simp add: Let_def split: option.split)
  show thesis
  proof (rule that)
    show "res = Some (env_write en ch rid r, mr, length (push_retransmission nm q), s1)"
      "out = (if env_write en ch rid r = None then [(ch, rid, PublishResponse (pr_RequestHandle req) (sub_id s)
            (map nm_SequenceNumber (push_retransmission nm q)) mr nm results)] else [])"
      using eq assms(1) by (simp_all add: r_def)
    show "message_count nm \<le> unat (maxNotificationsPerPublish s)"
      using le by (simp add: message_count_def nm_def)
  qed (simp_all add: nm_def s1_def)
qed

section \<open>Sequence numbers and the retransmission queue\<close>

text \<open>How many messages ago a message was numbered; sequence numbers wrap.\<close>

definition age :: "u32 \<Rightarrow> NotificationMessage \<Rightarrow> nat" where
  "age n m = unat (n - nm_SequenceNumber m)"

text \<open>
  The retransmission queue is bounded, and its sequence numbers are distinct, in
  the order of sending and all used up.
\<close>

definition queue_inv :: "u32 \<Rightarrow> NotificationMessage list \<Rightarrow> bool" where
  "queue_inv n q \<longleftrightarrow> length q \<le> maxRetransmissionQueueLength
     \<and> sorted_wrt (\<lambda>m m'. age n m' < age n m) q \<and> (\<forall>m\<in>set q. 0 < age n m)"

definition seq_inv :: "Subscription \<Rightarrow> bool" where
  "seq_inv s \<longleftrightarrow> (case retransmissionQueue s of None \<Rightarrow> True | Some q \<Rightarrow> queue_inv (nextSequenceNumber s) q)"

definition young :: "Subscription \<Rightarrow> bool" where
  "young s \<longleftrightarrow> (case retransmissionQueue s of None \<Rightarrow> True
     | Some q \<Rightarrow> list_all (\<lambda>m. age (nextSequenceNumber s) m < 2 ^ 32 - 1) q)"

lemma queue_inv_distinct: "queue_inv n q \<Longrightarrow> distinct (map nm_SequenceNumber q)"
proof (induction q)
  case (Cons m q)
  then have "queue_inv n q" and "\<And>m'. m' \<in> set q \<Longrightarrow> age n m' < age n m" by (auto simp: queue_inv_def)
  with Cons.IH show ?case by (force simp: age_def)
qed simp

lemma length_push_retransmission:
  "length q \<le> maxRetransmissionQueueLength \<Longrightarrow> length (push_retransmission nm q) \<le> maxRetransmissionQueueLength"
  by (auto simp: push_retransmission_def maxRetransmissionQueueLength_def)

lemma age_Suc:
  assumes "age n m < 2 ^ 32 - 1"
  shows "age (n + 1) m = Suc (age n m)"
proof -
  let ?d = "n - nm_SequenceNumber m"
  have "1 + ?d \<noteq> 0"
  proof
    assume "1 + ?d = 0"
    then have "?d = - 1" by (metis add.commute add_eq_0_iff)
    with assms show False by (simp add: age_def unsigned_minus_1_eq_mask mask_eq_exp_minus_1)
  qed
  then have "unat (1 + ?d) = Suc (unat ?d)" by (rule unatSuc)
  then show ?thesis by (simp add: age_def add_diff_eq add.commute)
qed

lemma queue_inv_push:
  assumes inv: "queue_inv n q" and y: "list_all (\<lambda>m. age n m < 2 ^ 32 - 1) q" and nm: "nm_SequenceNumber nm = n"
  shows "queue_inv (n + 1) (push_retransmission nm q)"
proof -
  define q' where "q' = (if length q \<ge> maxRetransmissionQueueLength then tl q else q)"
  have sub: "set q' \<subseteq> set q" by (cases q) (auto simp: q'_def)
  have "sorted_wrt (\<lambda>m m'. age n m' < age n m) q'"
    using inv by (cases q) (auto simp: q'_def queue_inv_def)
  then have "sorted_wrt (\<lambda>m m'. age (n + 1) m' < age (n + 1) m) q'"
    by (rule sorted_wrt_mono_rel [rotated]) (use sub y in \<open>auto simp: age_Suc list_all_iff subset_iff\<close>)
  moreover have "age (n + 1) nm = 1" by (simp add: age_def nm)
  moreover have "1 < age (n + 1) m" if "m \<in> set q'" for m
    using that sub y inv by (auto simp: age_Suc list_all_iff queue_inv_def subset_iff)
  moreover have "length (q' @ [nm]) \<le> maxRetransmissionQueueLength"
    using inv by (auto simp: q'_def queue_inv_def maxRetransmissionQueueLength_def)
  ultimately show ?thesis
    unfolding queue_inv_def push_retransmission_def q'_def [symmetric] sorted_wrt_append
    by (auto intro: less_trans [OF zero_less_one])
qed

lemma expire_cases:
  assumes "expire now s sess = (r, out, d, s', sess')"
  shows "r = Returned None \<and> d \<and> retransmissionQueue s' = None
    \<or> r \<in> {Blocked, Panicked}"
  using assms
  by (auto simp: expire_def deleteImpl_def bnd_def stopPublishing_def Let_def split: if_splits)

text \<open>A cycle sends data, fails to send it, ends the subscription, or leaves the queue alone.\<close>

definition same_queue :: "Subscription \<Rightarrow> Subscription \<Rightarrow> bool" where
  "same_queue s s' \<longleftrightarrow> retransmissionQueue s' = retransmissionQueue s \<and> nextSequenceNumber s' = nextSequenceNumber s"

lemma publish_idle_cases:
  assumes "publish_idle en now s sess = (r, out, d, s', sess')"
  shows "same_queue s s' \<and> \<not> d \<or> r = Returned None \<and> d \<and> retransmissionQueue s' = None \<or> r \<in> {Blocked, Panicked}"
  using assms
  by (auto simp: publish_idle_def Let_def same_queue_def split: if_splits option.splits prod.splits dest!: expire_cases)

lemma publish_available_cases:
  assumes "publish_available en tn now ord s sess = (r, out, d, s', sess')"
  obtains (quiet) "same_queue s s'" "\<not> d"
  | (sent) q nm ch rid h mr res pre where "r = Returned None" "\<not> d" "retransmissionQueue s = Some q"
      "nm_SequenceNumber nm = nextSequenceNumber s"
      "message_count nm \<le> unat (maxNotificationsPerPublish s)"
      "retransmissionQueue s' = Some (push_retransmission nm q)"
      "nextSequenceNumber s' = nextSequenceNumber s + 1"
      "out = pre @ [(ch, rid, PublishResponse h (sub_id s) (map nm_SequenceNumber (push_retransmission nm q)) mr nm res)]"
  | (failed) q nm e where "r = Returned (Some e)" "\<not> d" "retransmissionQueue s = Some q"
      "nm_SequenceNumber nm = nextSequenceNumber s"
      "retransmissionQueue s' = Some (push_retransmission nm q)" "nextSequenceNumber s' = nextSequenceNumber s"
  | (gone) "r = Returned None" "d" "retransmissionQueue s' = None"
  | (stuck) "r \<in> {Blocked, Panicked}"
proof (cases "hasSession s")
  case False
  with assms quiet show ?thesis by (auto simp: publish_available_def same_queue_def)
next
  case True
  obtain op e out1 sess1 where rem: "removePublishRequest (env_write en) now sess = ((op, e), out1, sess1)"
    by (cases "removePublishRequest (env_write en) now sess") auto
  show ?thesis
  proof (cases e)
    case (Some e')
    with assms rem True quiet show ?thesis by (cases op) (auto simp: publish_available_def same_queue_def)
  next
    case e: None
    show ?thesis
    proof (cases op)
      case None
      with assms rem True e quiet gone stuck show ?thesis
        by (auto simp: publish_available_def same_queue_def Let_def split: if_splits prod.splits dest!: expire_cases)
    next
      case (Some x)
      show ?thesis
      proof (cases "retransmissionQueue s")
        case None
        with assms rem True e Some stuck show ?thesis
          by (auto simp: publish_available_def publish_data_def)
      next
        case q: (Some q)
        obtain res out2 where pd: "publish_data en tn ord (op_ch x) (op_requestId x) (op_req x) (op_results x) s = (res, out2)"
          by (cases "publish_data en tn ord (op_ch x) (op_requestId x) (op_req x) (op_results x) s")
        from pd q obtain nm mr n s1 e2 where d: "res = Some (e2, mr, n, s1)"
            "nm_SequenceNumber nm = nextSequenceNumber s"
            "message_count nm \<le> unat (maxNotificationsPerPublish s)"
            "retransmissionQueue s1 = Some (push_retransmission nm q)"
            "nextSequenceNumber s1 = nextSequenceNumber s"
            "out2 = (if e2 = None then [(op_ch x, op_requestId x, PublishResponse (pr_RequestHandle (op_req x)) (sub_id s)
              (map nm_SequenceNumber (push_retransmission nm q)) mr nm (op_results x))] else [])"
          by (rule publish_data_cases)
        show ?thesis
        proof (cases e2)
          case None
          have eq: "(r, out, d, s', sess') = (Returned None, out1 @ out2, False,
                s1\<lparr>unacknowledgedMessageCount := word_of_nat n, publishRequestCount := publishRequestCount s1 + 1,
                   nextSequenceNumber := nextSequenceNumber s1 + 1, keepAliveCount := 0, lifetimeCount := 0,
                   isLate := False, moreNotifications := mr\<rparr>, sess1)"
            using assms rem True e Some pd d(1) None by (simp add: publish_available_def)
          show ?thesis
            by (rule sent [where q = q and nm = nm and pre = out1 and ch = "op_ch x" and rid = "op_requestId x"
                 and h = "pr_RequestHandle (op_req x)" and mr = mr and res = "op_results x"])
               (use eq q d None in simp_all)
        next
          case e2: (Some e3)
          have eq: "(r, out, d, s', sess') = (Returned (Some e3), out1 @ out2, False, s1, sess1)"
            using assms rem True e Some pd d(1) e2 by (simp add: publish_available_def)
          show ?thesis by (rule failed [where e = e3 and q = q and nm = nm]) (use eq q d in simp_all)
        qed
      qed
    qed
  qed
qed

section \<open>Sequence numbers and expiry\<close>

text \<open>One cycle, from the cases of its two branches.\<close>

lemma seq_inv_same: "same_queue s s' \<Longrightarrow> seq_inv s' = seq_inv s"
  by (auto simp: seq_inv_def same_queue_def split: option.splits)

definition polled :: "env \<Rightarrow> instant \<Rightarrow> u32 list \<Rightarrow> Subscription \<Rightarrow> bool \<times> Subscription" where
  "polled en tn ord s0 = (case poll_items en tn (resend s0) ord (items_of s0) of (avail, its, ov) \<Rightarrow>
     (avail, s0\<lparr>sub_items := map_option (\<lambda>_. its) (sub_items s0), resend := False,
                monitoringQueueOverflowCount := monitoringQueueOverflowCount s0 + word_of_nat ov\<rparr>))"

lemma publish_polled:
  "publish en tn now ord1 ord2 s sess = (case polled en tn ord1 s of (avail, s1) \<Rightarrow>
     if avail \<and> publishingEnabled s1 then publish_available en tn now ord2 s1 sess else publish_idle en now s1 sess)"
  by (simp add: publish_def polled_def Let_def split: prod.splits)

lemma polled_keeps:
  assumes "polled en tn ord s = (avail, s1)"
  shows "same_queue s s1" "sub_id s1 = sub_id s" "maxNotificationsPerPublish s1 = maxNotificationsPerPublish s"
    "keepAliveCount s1 = keepAliveCount s" "lifetimeCount s1 = lifetimeCount s" "isLate s1 = isLate s"
    "maxKeepAliveCount s1 = maxKeepAliveCount s" "maxLifetimeCount s1 = maxLifetimeCount s"
    "hasSession s1 = hasSession s" "cancelPublishing s1 = cancelPublishing s"
    "publishRequestCount s1 = publishRequestCount s" "publishingEnabled s1 = publishingEnabled s"
  using assms by (auto simp: polled_def same_queue_def split: prod.splits)

lemma publish_seq_inv:
  assumes pub: "publish en tn now ord1 ord2 s sess = (Returned None, out, d, s', sess')"
    and inv: "seq_inv s" and "young s"
  shows "seq_inv s'"
proof -
  obtain avail s1 where p: "polled en tn ord1 s = (avail, s1)" by (cases "polled en tn ord1 s")
  note same = polled_keeps(1) [OF p]
  show ?thesis
  proof (cases "avail \<and> publishingEnabled s1")
    case True
    with pub p have "publish_available en tn now ord2 s1 sess = (Returned None, out, d, s', sess')"
      by (simp add: publish_polled)
    then show ?thesis
    proof (cases rule: publish_available_cases)
      case quiet
      with same inv show ?thesis by (simp add: seq_inv_same)
    next
      case (sent q nm)
      with same have q: "retransmissionQueue s = Some q" "nm_SequenceNumber nm = nextSequenceNumber s"
        by (simp_all add: same_queue_def)
      from queue_inv_push [of "nextSequenceNumber s" q nm] inv \<open>young s\<close> q
      have "queue_inv (nextSequenceNumber s + 1) (push_retransmission nm q)" by (simp add: seq_inv_def young_def)
      with sent same show ?thesis by (simp add: seq_inv_def same_queue_def)
    qed (simp_all add: seq_inv_def)
  next
    case False
    with pub p have "publish_idle en now s1 sess = (Returned None, out, d, s', sess')"
      by (auto simp: publish_polled)
    from publish_idle_cases [OF this] same inv show ?thesis by (auto simp: seq_inv_same) (simp add: seq_inv_def)
  qed
qed

text \<open>
  The ticks of the publishing goroutine: each takes the tick's time, the time read
  during the cycle and the two orders of the items. It ends when the subscription is
  dropped (\<open>done\<close> is closed); the errors of \<open>publish\<close> are ignored.
\<close>

fun publish_ticks :: "env \<Rightarrow> (instant \<times> instant \<times> u32 list \<times> u32 list) list \<Rightarrow> Subscription \<Rightarrow> 'rd Session \<Rightarrow>
    bool \<times> Subscription \<times> 'rd Session" where
  "publish_ticks en [] s sess = (False, s, sess)"
| "publish_ticks en ((tn, now, ord1, ord2) # ts) s sess =
     (case publish en tn now ord1 ord2 s sess of
        (Returned e, out, d, s', sess') \<Rightarrow> (if d then (True, s', sess') else publish_ticks en ts s' sess')
      | (_, out, d, s', sess') \<Rightarrow> (False, s', sess'))"

text \<open>A cycle that finds no publish request moves one of the two counters.\<close>

definition patience :: "Subscription \<Rightarrow> nat" where
  "patience s = (unat (maxKeepAliveCount s) - unat (keepAliveCount s)) + (unat (maxLifetimeCount s) - unat (lifetimeCount s))"

definition waiting :: "Subscription \<Rightarrow> bool" where
  "waiting s \<longleftrightarrow> hasSession s \<and> cancelPublishing s = OpenChan \<and> lifetimeCount s < maxLifetimeCount s
     \<and> unat (keepAliveCount s) + patience s < 2 ^ 32"

definition starved :: "'rd Session \<Rightarrow> bool" where
  "starved sess \<longleftrightarrow> publishRequests sess = Some [] \<and> length (stateChanges sess) < queue_cap"

lemma removePublish_starved: "starved sess \<Longrightarrow> removePublishRequest wr now sess = ((None, None), [], sess)"
  by (auto simp: starved_def removePublishRequest_def)

lemma expire_drops:
  assumes "starved sess" and "cancelPublishing s = OpenChan"
  shows "\<exists>s' sess'. expire now s sess = (Returned None, [], True, s', sess')"
  using assms by (simp add: expire_def starved_def deleteImpl_def bnd_def stopPublishing_def Let_def)

definition one_step :: "Subscription \<Rightarrow> 'rd Session \<Rightarrow> 'rd cycle \<Rightarrow> bool" where
  "one_step s sess c \<longleftrightarrow> (\<exists>out s' sess'. c = (Returned None, out, True, s', sess'))
     \<or> (\<exists>out s'. c = (Returned None, out, False, s', sess) \<and> waiting s' \<and> patience s' < patience s)"

lemma unat_inc: "unat (x :: u32) < 4294967295 \<Longrightarrow> unat (x + 1) = unat x + 1"
  by (simp add: unat_plus_if')

lemma unat_inc_less: "x < y \<Longrightarrow> unat (x + 1) = unat x + 1" for x y :: u32
  using unat_less_pow(2) [of y] unfolding word_less_nat_alt by (intro unat_inc) linarith

lemma available_step:
  assumes w: "waiting s" and st: "starved sess"
  shows "one_step s sess (publish_available en tn now ord s sess)"
proof -
  let ?s = "s\<lparr>isLate := True, lifetimeCount := lifetimeCount s + 1\<rparr>"
  have lt: "unat (lifetimeCount s + 1) = unat (lifetimeCount s) + 1"
    using w by (intro unat_inc_less [of _ "maxLifetimeCount s"]) (simp add: waiting_def)
  show ?thesis
  proof (cases "lifetimeCount s + 1 \<ge> maxLifetimeCount s")
    case True
    from expire_drops [OF st, of ?s now] w obtain s' sess' where
      "expire now ?s sess = (Returned None, [], True, s', sess')" by (auto simp: waiting_def)
    with True w show ?thesis
      by (simp add: one_step_def publish_available_def removePublish_starved [OF st] waiting_def Let_def)
  next
    case False
    then have "unat (lifetimeCount s) + 1 < unat (maxLifetimeCount s)" by (simp add: word_le_nat_alt lt not_le)
    with False w lt show ?thesis
      by (auto simp: one_step_def publish_available_def removePublish_starved [OF st] waiting_def Let_def patience_def)
  qed
qed

lemma idle_step:
  assumes w: "waiting s" and st: "starved sess"
  shows "one_step s sess (publish_idle en now s sess)"
proof -
  let ?k = "s\<lparr>keepAliveCount := keepAliveCount s + 1\<rparr>"
  let ?s = "s\<lparr>keepAliveCount := keepAliveCount s + 1, isLate := True, lifetimeCount := lifetimeCount s + 1\<rparr>"
  have lt: "unat (lifetimeCount s + 1) = unat (lifetimeCount s) + 1"
    using w by (intro unat_inc_less [of _ "maxLifetimeCount s"]) (simp add: waiting_def)
  have ka: "unat (keepAliveCount s + 1) = unat (keepAliveCount s) + 1"
    using w by (intro unat_inc) (auto simp: waiting_def patience_def word_less_nat_alt)
  note simps = one_step_def publish_idle_def removePublish_starved [OF st] Let_def
  show ?thesis
  proof (cases "keepAliveCount s + 1 \<ge> maxKeepAliveCount s \<or> publishRequestCount s = 0")
    case due: True
    show ?thesis
    proof (cases "lifetimeCount s + 1 = maxLifetimeCount s")
      case True
      from expire_drops [OF st, of ?s now] w obtain s' sess' where
        "expire now ?s sess = (Returned None, [], True, s', sess')" by (auto simp: waiting_def)
      with True due w show ?thesis by (simp add: simps waiting_def)
    next
      case False
      moreover have "unat (lifetimeCount s) < unat (maxLifetimeCount s)" using w by (simp add: waiting_def word_less_nat_alt)
      moreover from False have "unat (lifetimeCount s) + 1 \<noteq> unat (maxLifetimeCount s)"
        using lt by (metis word_unat_eq_iff)
      ultimately show ?thesis using due w lt ka
        by (auto simp add: simps waiting_def patience_def word_less_nat_alt)
    qed
  next
    case False
    then have "unat (keepAliveCount s) + 1 < unat (maxKeepAliveCount s)" by (simp add: word_le_nat_alt ka not_le)
    with False w ka show ?thesis by (simp add: simps waiting_def patience_def)
  qed
qed

lemma publish_step:
  assumes w: "waiting s" and st: "starved sess"
  shows "one_step s sess (publish en tn now ord1 ord2 s sess)"
proof -
  obtain avail s1 where p: "polled en tn ord1 s = (avail, s1)" by (cases "polled en tn ord1 s")
  have same: "waiting s1" "patience s1 = patience s" using w by (simp_all add: waiting_def patience_def polled_keeps [OF p])
  then have "one_step s1 sess c \<Longrightarrow> one_step s sess c" for c :: "'a cycle" by (simp add: one_step_def)
  then show ?thesis
    by (simp add: publish_polled p available_step [OF same(1) st] idle_step [OF same(1) st])
qed

lemma starved_dropped:
  assumes "waiting s" and "starved sess" and "patience s \<le> length ticks"
  shows "\<exists>s' sess'. publish_ticks en ticks s sess = (True, s', sess')"
  using assms
proof (induction ticks arbitrary: s)
  case Nil
  then show ?case by (simp add: waiting_def patience_def word_less_nat_alt)
next
  case (Cons t ticks)
  obtain tn now ord1 ord2 where t: "t = (tn, now, ord1, ord2)" by (cases t)
  from publish_step [OF Cons.prems(1,2), of en tn now ord1 ord2] show ?case
    unfolding one_step_def
  proof (elim disjE exE conjE)
    fix out s' assume "publish en tn now ord1 ord2 s sess = (Returned None, out, False, s', sess)"
      and s': "waiting s'" "patience s' < patience s"
    with Cons.IH [OF s'(1) Cons.prems(2)] Cons.prems(3) show ?thesis by (simp add: t)
  qed (simp add: t)
qed

lemma New_waiting: "waiting (startPublishing (NewSubscription sess sid i iv lt ka mn en prio))"
proof -
  let ?s = "NewSubscription sess sid i iv lt ka mn en prio"
  have "params_ok ?s" by (rule NewSubscription_params_ok)
  moreover have "hasSession ?s" "keepAliveCount ?s = 0" "lifetimeCount ?s = 0"
    by (simp_all add: hasSession_def NewSubscription_def setMaxNotificationsPerPublish_def setLifetimeCount_def setMaxKeepAliveCount_def
      setPublishingInterval_def Let_def)
  moreover from \<open>params_ok ?s\<close> have "unat (maxKeepAliveCount ?s) \<le> 481" "unat (maxLifetimeCount ?s) \<le> 28801"
    "0 < unat (maxLifetimeCount ?s)"
    unfolding params_ok_def uint_nat by linarith+
  ultimately show ?thesis
    by (auto simp: waiting_def startPublishing_def patience_def word_less_nat_alt)
qed

section \<open>Acknowledgement and the counts of items\<close>

definition numbers :: "Subscription \<Rightarrow> u32 list" where
  "numbers s = (case retransmissionQueue s of None \<Rightarrow> [] | Some q \<Rightarrow> map nm_SequenceNumber q)"

lemma remove_seq_None: "remove_seq n q = None \<longleftrightarrow> n \<notin> nm_SequenceNumber ` set q"
  by (induction q) auto

lemma remove_seq_filter:
  "remove_seq n q = Some q' \<Longrightarrow> distinct (map nm_SequenceNumber q) \<Longrightarrow> q' = filter (\<lambda>m. nm_SequenceNumber m \<noteq> n) q"
proof (induction q arbitrary: q')
  case (Cons m q)
  show ?case
  proof (cases "nm_SequenceNumber m = n")
    case True
    with Cons.prems have "q' = q" and "\<forall>x \<in> set q. nm_SequenceNumber x \<noteq> n" by (auto simp: image_iff)
    then have "filter (\<lambda>m. nm_SequenceNumber m \<noteq> n) q = q'" by (metis (mono_tags, lifting) filter_True)
    with True show ?thesis by simp
  next
    case False
    with Cons show ?thesis by auto
  qed
qed simp

lemma queue_inv_filter: "queue_inv n q \<Longrightarrow> queue_inv n (filter P q)"
  by (auto simp: queue_inv_def intro: sorted_wrt_filter le_trans [OF length_filter_le])

lemma acknowledge_spec:
  assumes "seq_inv s" and q: "retransmissionQueue s \<noteq> None"
  shows "\<exists>s'. acknowledge n s = (Ok (n \<in> set (numbers s)), s') \<and> seq_inv s'
     \<and> numbers s' = filter (\<lambda>k. k \<noteq> n) (numbers s)"
proof -
  from q obtain qs where qs: "retransmissionQueue s = Some qs" by auto
  with assms(1) have inv: "queue_inv (nextSequenceNumber s) qs" by (simp add: seq_inv_def)
  show ?thesis
  proof (cases "remove_seq n qs")
    case None
    then have "n \<notin> set (numbers s)" by (simp add: numbers_def qs remove_seq_None)
    moreover from this have "filter (\<lambda>k. k \<noteq> n) (numbers s) = numbers s" by (metis (mono_tags, lifting) filter_True)
    ultimately show ?thesis using None qs assms(1) by (simp add: acknowledge_def)
  next
    case (Some q')
    then have "n \<in> set (numbers s)"
      by (metis remove_seq_None numbers_def qs option.simps(3) option.simps(5) list.set_map)
    moreover have "q' = filter (\<lambda>m. nm_SequenceNumber m \<noteq> n) qs"
      using remove_seq_filter [OF Some] queue_inv_distinct [OF inv] by simp
    ultimately show ?thesis using Some qs queue_inv_filter [OF inv]
      by (simp add: acknowledge_def numbers_def seq_inv_def filter_map o_def)
  qed
qed

text \<open>The counters a client reads as diagnostics agree with the table of items.\<close>

definition disabled_items :: "items \<Rightarrow> u32 list" where
  "disabled_items its = map fst (filter (\<lambda>(i, it). item_mode it = Disabled) its)"

definition counts_ok :: "Subscription \<Rightarrow> bool" where
  "counts_ok s \<longleftrightarrow> distinct (map fst (items_of s))
     \<and> monitoredItemCount s = word_of_nat (length (items_of s))
     \<and> disabledMonitoredItemCount s = word_of_nat (length (disabled_items (items_of s)))"

lemma update_fresh: "map_of m k = None \<Longrightarrow> AList.update k v m = m @ [(k, v)]"
  by (induction m) (auto split: if_splits)

lemma counts_ok_Append:
  assumes "counts_ok s" and "AppendItem item s = (Ok b, s')"
  shows "counts_ok s'"
proof (cases "FindItem (item_id item) s")
  case None
  with assms(2) obtain its where its: "sub_items s = Some its" by (cases "sub_items s") (auto simp: AppendItem_def)
  with None have fresh: "map_of its (item_id item) = None" by (simp add: FindItem_def items_of_def)
  then have "item_id item \<notin> fst ` set its" by (simp add: map_of_eq_None_iff)
  with assms None its show ?thesis
    by (auto simp: AppendItem_def counts_ok_def items_of_def update_fresh [OF fresh] disabled_items_def)
next
  case (Some it)
  with assms show ?thesis by (simp add: AppendItem_def)
qed

lemma length_delete_eq:
  assumes "distinct (map fst m)" and "map_of m k = Some v"
  shows "length (filter P m) = length (filter P (AList.delete k m)) + (if P (k, v) then 1 else 0)"
  using assms
proof (induction m)
  case (Cons a m)
  show ?case
  proof (cases "fst a = k")
    case True
    with Cons.prems have "k \<notin> fst ` set m" "a = (k, v)" by (auto simp: prod_eq_iff)
    then show ?thesis by (simp add: delete_id)
  next
    case False
    with Cons show ?thesis by (auto simp: AList.delete_eq)
  qed
qed simp

lemma counts_ok_Delete:
  assumes "counts_ok s"
  shows "counts_ok (snd (DeleteItem i s))"
proof (cases "FindItem i s")
  case (Some it)
  then obtain its where its: "sub_items s = Some its" "map_of its i = Some it"
    by (auto simp: FindItem_def items_of_def split: option.splits)
  with assms have d: "distinct (map fst its)" by (simp add: counts_ok_def items_of_def)
  from length_delete_eq [OF d its(2), of "\<lambda>_. True"] length_delete_eq [OF d its(2), of "\<lambda>(i, it). item_mode it = Disabled"]
  show ?thesis using assms Some its d
    by (auto simp: DeleteItem_def counts_ok_def items_of_def disabled_items_def distinct_delete)
qed (use assms in \<open>simp add: DeleteItem_def\<close>)

lemma item_set_mode:
  "DataChange_SetMonitoringMode now v mode mi = (mi', d) \<Longrightarrow> dc_monitoringMode mi' = mode
     \<and> d = (if dc_monitoringMode mi = mode then 0 else if mode = Disabled then 1 else - 1)"
  "Event_SetMonitoringMode mode ei = (ei', d) \<Longrightarrow> ev_monitoringMode ei' = mode
     \<and> d = (if ev_monitoringMode ei = mode then 0 else if mode = Disabled then 1 else - 1)"
  by (auto simp: DataChange_SetMonitoringMode_def Event_SetMonitoringMode_def DataChange_startMonitoring_def Let_def
      split: if_splits)

text \<open>The count of disabled items survives a change of mode only from or to \<open>Disabled\<close>.\<close>

lemma filter_update:
  assumes "distinct (map fst m)" and "map_of m k = Some v"
  shows "length (filter P (AList.update k v' m)) + (if P (k, v) then 1 else 0) = length (filter P m) + (if P (k, v') then 1 else 0)"
  using assms
proof (induction m)
  case (Cons a m)
  then show ?case by (cases "fst a = k") auto
qed simp

lemma setItemMode_counts:
  assumes ok: "counts_ok s" and it: "FindItem i s = Some it" and "item_mode it \<noteq> mode"
  shows "counts_ok (setItemMode en now i mode s) \<longleftrightarrow> item_mode it = Disabled \<or> mode = Disabled"
proof -
  obtain its where its: "sub_items s = Some its" "map_of its i = Some it"
    using it by (auto simp: FindItem_def items_of_def split: option.splits)
  with ok have d: "distinct (map fst its)" by (simp add: counts_ok_def items_of_def)
  obtain it' where it': "item_mode it' = mode" and
    eq: "setItemMode en now i mode s = s\<lparr>sub_items := Some (AList.update i it' its),
      disabledMonitoredItemCount := disabledMonitoredItemCount s + (if mode = Disabled then 1 else - 1)\<rparr>"
  proof (cases it)
    case (DataItem mi)
    obtain mi' dd where m: "DataChange_SetMonitoringMode now (env_read en i) mode mi = (mi', dd)" by force
    with item_set_mode(1) [OF m] DataItem it its \<open>item_mode it \<noteq> mode\<close> that [of "DataItem mi'"] show ?thesis
      by (simp add: setItemMode_def)
  next
    case (EventItem mi)
    obtain mi' dd where m: "Event_SetMonitoringMode mode mi = (mi', dd)" by force
    with item_set_mode(2) [OF m] EventItem it its \<open>item_mode it \<noteq> mode\<close> that [of "EventItem mi'"] show ?thesis
      by (simp add: setItemMode_def)
  qed
  let ?n = "length (filter (\<lambda>(i, it). item_mode it = Disabled) its)"
  let ?n' = "length (filter (\<lambda>(i, it). item_mode it = Disabled) (AList.update i it' its))"
  have n': "?n' + (if item_mode it = Disabled then 1 else 0) = ?n + (if mode = Disabled then 1 else 0)"
    using filter_update [OF d its(2), of "\<lambda>(i, it). item_mode it = Disabled" it'] it' by simp
  have "counts_ok (setItemMode en now i mode s) \<longleftrightarrow>
      (of_nat ?n + (if mode = Disabled then 1 else - 1) :: u32) = of_nat ?n'"
    using ok its d filter_update [OF d its(2), of "\<lambda>_. True" it']
    by (simp add: eq counts_ok_def items_of_def disabled_items_def distinct_update)
  also have "\<dots> \<longleftrightarrow> item_mode it = Disabled \<or> mode = Disabled"
    using n' assms(3) by (cases "item_mode it = Disabled"; cases "mode = Disabled") (auto dest!: sym [of "Suc _"])
  finally show ?thesis .
qed

lemma New_patience: "patience (startPublishing (NewSubscription sess sid i iv lt ka mn en prio)) \<le> 29282"
proof -
  let ?s = "NewSubscription sess sid i iv lt ka mn en prio"
  have "params_ok ?s" by (rule NewSubscription_params_ok)
  then have "unat (maxKeepAliveCount ?s) \<le> 481" "unat (maxLifetimeCount ?s) \<le> 28801"
    unfolding params_ok_def uint_nat by linarith+
  then show ?thesis by (simp add: patience_def startPublishing_def)
qed

end
