(* ===== verification/Codec_Wire.thy ===== *)
theory Codec_Wire
  imports Codec
begin

text \<open>
  The wire format of the recursive types as pure functions, and the theorem that
  the encoder emits it. \<open>ok_*\<close> are the values concerned: with the flag off, the
  well-typed values the encoder accepts; with the flag on, those the wire format
  also carries without loss (the decoder's read-back theorem is in
  \<open>Codec_Roundtrip\<close>).
\<close>

section \<open>Wire format\<close>

fun wire_DiagnosticInfo :: "DiagnosticInfo \<Rightarrow> bytes" where
  "wire_DiagnosticInfo (DiagnosticInfo symb nsu loc txt add st inner) = concat [
     [(if symb \<noteq> None then 1 else 0) OR (if nsu \<noteq> None then 2 else 0) OR
      (if loc \<noteq> None then 8 else 0) OR (if txt \<noteq> None then 4 else 0) OR
      (if add \<noteq> None then 16 else 0) OR (if st \<noteq> None then 32 else 0) OR
      (if inner \<noteq> None then 64 else 0)],
     (case symb of Some x \<Rightarrow> le_bytes 4 x | None \<Rightarrow> []),
     (case nsu of Some x \<Rightarrow> le_bytes 4 x | None \<Rightarrow> []),
     (case loc of Some x \<Rightarrow> le_bytes 4 x | None \<Rightarrow> []),
     (case txt of Some x \<Rightarrow> le_bytes 4 x | None \<Rightarrow> []),
     (case add of Some x \<Rightarrow> wire_String x | None \<Rightarrow> []),
     (case st of Some x \<Rightarrow> le_bytes 4 x | None \<Rightarrow> []),
     (case inner of Some x \<Rightarrow> wire_DiagnosticInfo x | None \<Rightarrow> [])]"

definition data_value_flags :: "goval \<Rightarrow> StatusCode \<Rightarrow> gotime \<Rightarrow> u16 \<Rightarrow> gotime \<Rightarrow> u16 \<Rightarrow> byte" where
  "data_value_flags val st srct srcp srvt srvp =
     (if val \<noteq> VNil then 1 else 0) OR (if st \<noteq> 0 then 2 else 0) OR
     (if \<not> IsZero srct then 4 else 0) OR (if srcp \<noteq> 0 then 16 else 0) OR
     (if \<not> IsZero srvt then 8 else 0) OR (if srvp \<noteq> 0 then 32 else 0)"

text \<open>An extension object with a body: the id, the encoding byte, the length, the body.\<close>

definition wire_ext_body :: "NodeID option \<Rightarrow> bytes \<Rightarrow> bytes" where
  "wire_ext_body n body = concat [wire_NodeID n, [1],
     concat [le_bytes 4 (word_of_nat (length body) :: u32), body]]"

function (sequential)
  wire_type :: "registry \<Rightarrow> string list \<Rightarrow> gotype \<Rightarrow> goval \<Rightarrow> bytes" and
  wire_fields :: "registry \<Rightarrow> string list \<Rightarrow> gotype list \<Rightarrow> goval list \<Rightarrow> bytes" and
  wire_variant :: "registry \<Rightarrow> string list \<Rightarrow> goval \<Rightarrow> bytes" and
  wire_ext :: "registry \<Rightarrow> string list \<Rightarrow> goval \<Rightarrow> bytes" and
  wire_dyn :: "registry \<Rightarrow> string list \<Rightarrow> goval \<Rightarrow> bytes" and
  wire_dv :: "registry \<Rightarrow> string list \<Rightarrow> goval \<Rightarrow> bytes"
where
  "wire_type reg uris t v = (case t of
       TExtensionObject \<Rightarrow> wire_ext reg uris v
     | TVariant \<Rightarrow> wire_variant reg uris v
     | TPtr _ ts \<Rightarrow> (case v of VPtr _ _ (Some vs) \<Rightarrow> wire_fields reg uris ts vs | _ \<Rightarrow> [])
     | _ \<Rightarrow> wire_dyn reg uris v)"
| "wire_fields reg uris (t # ts) (v # vs) = wire_type reg uris t v @ wire_fields reg uris ts vs"
| "wire_fields reg uris _ _ = []"
| "wire_variant reg uris v = (case v of
       VNil \<Rightarrow> [0]
     | VScalar s \<Rightarrow> wire_variant_scalar s
     | VSlice t xs \<Rightarrow> (case slice_plan t xs of
           None \<Rightarrow> []
         | Some (e, c, ys, dims) \<Rightarrow>
             concat ([[c],
               (case e of
                  TScalar k \<Rightarrow> wire_array (map_option (map (\<lambda>x. wire_scalar (un_Scalar x))) ys)
                | TExtensionObject \<Rightarrow> wire_array (map_option (map (\<lambda>x. wire_ext reg uris x)) ys)
                | TDataValue \<Rightarrow> wire_array (map_option (map (\<lambda>x. wire_dv reg uris x)) ys)
                | _ \<Rightarrow> wire_array (map_option (map (\<lambda>x. wire_variant reg uris x)) ys))]
               @ (case dims of None \<Rightarrow> [] | Some d \<Rightarrow> [wire_array (Some (map (le_bytes 4) d))])))
     | VEnum _ _ \<Rightarrow> []
     | VPtr _ _ _ \<Rightarrow> []
     | _ \<Rightarrow> concat [[22], wire_ext reg uris v])"
| "wire_ext reg uris v = (case type_of v of
       None \<Rightarrow> concat [wire_NodeID None, [0]]
     | Some t \<Rightarrow> (case encodingIDs reg (elem_type t) of
           None \<Rightarrow> []
         | Some i \<Rightarrow> wire_ext_body (ToNodeID i uris) (wire_dyn reg uris v)))"
| "wire_dyn reg uris v = (case v of
       VNil \<Rightarrow> []
     | VScalar s \<Rightarrow> wire_scalar s
     | VEnum _ x \<Rightarrow> le_bytes 4 x
     | VDataValue _ _ _ _ _ _ \<Rightarrow> wire_dv reg uris v
     | VDiagnosticInfo d \<Rightarrow> wire_DiagnosticInfo d
     | VStruct _ ts vs \<Rightarrow> wire_fields reg uris ts vs
     | VPtr _ ts None \<Rightarrow> []
     | VPtr _ ts (Some vs) \<Rightarrow> wire_fields reg uris ts vs
     | VSlice t xs \<Rightarrow>
         (if t = TScalar KUint8 then wire_array (map_option (map (\<lambda>x. [un_Uint8 (un_Scalar x)])) xs)
          else case xs of
            None \<Rightarrow> le_bytes 4 (0 :: u32)
          | Some ys \<Rightarrow> wire_array (Some (map (\<lambda>y. wire_type reg uris t y) ys))))"
| "wire_dv reg uris v = (case v of
       VDataValue val st srct srcp srvt srvp \<Rightarrow> concat [
         [data_value_flags val st srct srcp srvt srvp],
         (if val \<noteq> VNil then wire_variant reg uris val else []),
         (if st \<noteq> 0 then le_bytes 4 st else []),
         (if \<not> IsZero srct then wire_DateTime srct else []),
         (if srcp \<noteq> 0 then le_bytes 2 srcp else []),
         (if \<not> IsZero srvt then wire_DateTime srvt else []),
         (if srvp \<noteq> 0 then le_bytes 2 srvp else [])]
     | _ \<Rightarrow> [])"
  by pat_completeness auto
termination
  by (relation "inv_image (less_than <*lex*> less_than) (\<lambda>a. case a of
        Inl (Inl (_, _, _, v)) \<Rightarrow> (size v, 4)
      | Inl (Inr (Inl (_, _, _, vs))) \<Rightarrow> (size_list size vs, 5)
      | Inl (Inr (Inr (_, _, v))) \<Rightarrow> (size v, 3)
      | Inr (Inl (_, _, v)) \<Rightarrow> (size v, 2)
      | Inr (Inr (Inl (_, _, v))) \<Rightarrow> (size v, 1)
      | Inr (Inr (Inr (_, _, v))) \<Rightarrow> (size v, 0 :: nat))")
     (auto dest: size_slice_plan size_mem_list simp: less_Suc_eq_le)

section \<open>Values the codec accepts\<close>

text \<open>Rectangular arrays of two and three dimensions.\<close>

definition row_ok :: "gotype \<Rightarrow> nat \<Rightarrow> goval \<Rightarrow> bool" where
  "row_ok e n r = (case r of VSlice e' (Some ys) \<Rightarrow> e' = e \<and> length ys = n | _ \<Rightarrow> False)"

definition rect2 :: "gotype \<Rightarrow> goval list \<Rightarrow> bool" where
  "rect2 e rows = (case rows of [] \<Rightarrow> True
     | r # _ \<Rightarrow> len_ok rows \<and> len_ok (slice_elems r) \<and>
                list_all (row_ok e (length (slice_elems r))) rows)"

definition rect3 :: "gotype \<Rightarrow> goval list \<Rightarrow> bool" where
  "rect3 e blocks = (case blocks of [] \<Rightarrow> True
     | b # _ \<Rightarrow> (case slice_elems b of [] \<Rightarrow> False
         | r # _ \<Rightarrow> len_ok blocks \<and> len_ok (slice_elems b) \<and> len_ok (slice_elems r) \<and>
             list_all (\<lambda>x. row_ok (TSlice e) (length (slice_elems b)) x \<and>
                list_all (row_ok e (length (slice_elems r))) (slice_elems x)) blocks))"

definition shape_ok :: "gotype \<Rightarrow> goval list option \<Rightarrow> bool" where
  "shape_ok t xs =
     (if array_code t \<noteq> None then True
      else case (t, xs) of
        (TSlice e, Some ys) \<Rightarrow>
          (if array_code e \<noteq> None then rect2 e ys
           else case e of TSlice e2 \<Rightarrow> rect3 e2 ys | _ \<Rightarrow> False)
      | _ \<Rightarrow> False)"

text \<open>
  The encoding id of a registered type. For a loss-free round trip the id must
  survive the wire and lead back to the type through the namespace table.
\<close>

definition id_ok :: "bool \<Rightarrow> registry \<Rightarrow> string list \<Rightarrow> gotype \<Rightarrow> bool" where
  "id_ok b reg uris typ = (case encodingIDs reg typ of
       None \<Rightarrow> False
     | Some i \<Rightarrow> b \<longrightarrow> norm_NodeID (ToNodeID i uris) = ToNodeID i uris
         \<and> (case ToNodeID i uris of None \<Rightarrow> True | Some m \<Rightarrow> nodeid_len_ok m)
         \<and> encodingTypes reg (ToExpandedNodeID (ToNodeID i uris) uris) = Some typ)"

fun is_scalar_of :: "bool \<Rightarrow> stype \<Rightarrow> goval \<Rightarrow> bool" where
  "is_scalar_of b k (VScalar s) = (stype_of s = k \<and> (b \<longrightarrow> scalar_ok s))"
| "is_scalar_of b k _ = False"

function (sequential)
  ok_type :: "bool \<Rightarrow> registry \<Rightarrow> string list \<Rightarrow> gotype \<Rightarrow> goval \<Rightarrow> bool" and
  ok_fields :: "bool \<Rightarrow> registry \<Rightarrow> string list \<Rightarrow> gotype list \<Rightarrow> goval list \<Rightarrow> bool" and
  ok_variant :: "bool \<Rightarrow> registry \<Rightarrow> string list \<Rightarrow> goval \<Rightarrow> bool" and
  ok_ext :: "bool \<Rightarrow> registry \<Rightarrow> string list \<Rightarrow> goval \<Rightarrow> bool" and
  ok_dyn :: "bool \<Rightarrow> registry \<Rightarrow> string list \<Rightarrow> goval \<Rightarrow> bool" and
  ok_dv :: "bool \<Rightarrow> registry \<Rightarrow> string list \<Rightarrow> goval \<Rightarrow> bool"
where
  "ok_type b reg uris t v = (case t of
       TExtensionObject \<Rightarrow> ok_ext b reg uris v
     | TVariant \<Rightarrow> ok_variant b reg uris v
     | TPtr n ts \<Rightarrow> (case v of
           VPtr m us (Some vs) \<Rightarrow> m = n \<and> us = ts \<and> ok_fields b reg uris ts vs
         | _ \<Rightarrow> False)
     | _ \<Rightarrow> type_of v = Some t \<and> ok_dyn b reg uris v)"
| "ok_fields b reg uris [] [] = True"
| "ok_fields b reg uris (t # ts) (v # vs) = (ok_type b reg uris t v \<and> ok_fields b reg uris ts vs)"
| "ok_fields b reg uris _ _ = False"
| "ok_variant b reg uris v = (case v of
       VNil \<Rightarrow> True
     | VScalar s \<Rightarrow> s \<noteq> SNodeID None \<and> (b \<longrightarrow> scalar_ok s)
     | VSlice t xs \<Rightarrow> (case slice_plan t xs of
           None \<Rightarrow> False
         | Some (e, c, ys, dims) \<Rightarrow> (b \<longrightarrow> shape_ok t xs) \<and>
             (case ys of None \<Rightarrow> True
              | Some zs \<Rightarrow> (b \<longrightarrow> len_ok zs) \<and>
                  (case e of
                     TScalar k \<Rightarrow> list_all (is_scalar_of b k) zs
                   | TExtensionObject \<Rightarrow> list_all (\<lambda>x. ok_ext b reg uris x) zs
                   | TDataValue \<Rightarrow> list_all (\<lambda>x. ok_dv b reg uris x) zs
                   | _ \<Rightarrow> list_all (\<lambda>x. ok_variant b reg uris x) zs)))
     | VStruct _ _ _ \<Rightarrow> ok_ext b reg uris v
     | _ \<Rightarrow> False)"
| "ok_ext b reg uris v = (case v of
       VNil \<Rightarrow> True
     | VStruct n ts vs \<Rightarrow> id_ok b reg uris (TStruct n ts) \<and> codec_for_fields ts \<and>
         length (wire_fields reg uris ts vs) < pool_size \<and> ok_dyn b reg uris v
     | VPtr n ts (Some vs) \<Rightarrow> \<not> b \<and> id_ok b reg uris (TStruct n ts) \<and> codec_for_fields ts \<and>
         length (wire_fields reg uris ts vs) < pool_size \<and> ok_dyn b reg uris v
     | _ \<Rightarrow> False)"
| "ok_dyn b reg uris v = (case v of
       VNil \<Rightarrow> False
     | VScalar s \<Rightarrow> stype_of s \<noteq> KGUID \<and> (b \<longrightarrow> scalar_ok s)
     | VEnum _ _ \<Rightarrow> True
     | VDataValue _ _ _ _ _ _ \<Rightarrow> ok_dv b reg uris v
     | VDiagnosticInfo d \<Rightarrow> b \<longrightarrow> d = DiagnosticInfo None None None None None None None
     | VStruct _ ts vs \<Rightarrow> ok_fields b reg uris ts vs
     | VPtr _ ts None \<Rightarrow> False
     | VPtr _ ts (Some vs) \<Rightarrow> ok_fields b reg uris ts vs
     | VSlice t xs \<Rightarrow>
         (if t = TScalar KUint8 then
            (case xs of None \<Rightarrow> True
             | Some ys \<Rightarrow> (b \<longrightarrow> len_ok ys) \<and> list_all (is_scalar_of b KUint8) ys)
          else case xs of
            None \<Rightarrow> \<not> b
          | Some ys \<Rightarrow> (b \<longrightarrow> len_ok ys) \<and> list_all (\<lambda>y. ok_type b reg uris t y) ys))"
| "ok_dv b reg uris v = (case v of
       VDataValue val st srct srcp srvt srvp \<Rightarrow>
         ok_variant b reg uris val \<and> (b \<longrightarrow> IsZero srct \<or> time_ok srct) \<and>
         (b \<longrightarrow> IsZero srvt \<or> time_ok srvt)
     | _ \<Rightarrow> False)"
  by pat_completeness auto
termination
  by (relation "inv_image (less_than <*lex*> less_than) (\<lambda>a. case a of
        Inl (Inl (_, _, _, _, v)) \<Rightarrow> (size v, 4)
      | Inl (Inr (Inl (_, _, _, _, vs))) \<Rightarrow> (size_list size vs, 5)
      | Inl (Inr (Inr (_, _, _, v))) \<Rightarrow> (size v, 3)
      | Inr (Inl (_, _, _, v)) \<Rightarrow> (size v, 2)
      | Inr (Inr (Inl (_, _, _, v))) \<Rightarrow> (size v, 1)
      | Inr (Inr (Inr (_, _, _, v))) \<Rightarrow> (size v, 0 :: nat))")
     (auto dest: size_slice_plan size_mem_list simp: less_Suc_eq_le)

section \<open>The encoder emits the wire format\<close>

declare wire_type.simps [simp del] wire_variant.simps [simp del] wire_ext.simps [simp del]
  wire_dyn.simps [simp del] wire_dv.simps [simp del]
declare ok_type.simps [simp del] ok_variant.simps [simp del] ok_ext.simps [simp del]
  ok_dyn.simps [simp del] ok_dv.simps [simp del]

lemmas type_unfold = enc_type.simps wire_type.simps ok_type.simps
lemmas variant_unfold = WriteVariant.simps [of _ _ _ "VSlice t xs" for t xs]
  wire_variant.simps [of _ _ "VSlice t xs" for t xs] ok_variant.simps [of _ _ _ "VSlice t xs" for t xs]
lemmas ext_unfold = WriteExtensionObject.simps wire_ext.simps ok_ext.simps
lemmas dyn_unfold = enc_dyn.simps wire_dyn.simps ok_dyn.simps
lemmas dv_unfold = WriteDataValue.simps wire_dv.simps ok_dv.simps

lemma data_value_flag_bits:
  "data_value_flags val st srct srcp srvt srvp AND 1 \<noteq> 0 \<longleftrightarrow> val \<noteq> VNil"
  "data_value_flags val st srct srcp srvt srvp AND 2 \<noteq> 0 \<longleftrightarrow> st \<noteq> 0"
  "data_value_flags val st srct srcp srvt srvp AND 4 \<noteq> 0 \<longleftrightarrow> \<not> IsZero srct"
  "data_value_flags val st srct srcp srvt srvp AND 16 \<noteq> 0 \<longleftrightarrow> srcp \<noteq> 0"
  "data_value_flags val st srct srcp srvt srvp AND 8 \<noteq> 0 \<longleftrightarrow> \<not> IsZero srvt"
  "data_value_flags val st srct srcp srvt srvp AND 32 \<noteq> 0 \<longleftrightarrow> srvp \<noteq> 0"
  unfolding data_value_flags_def by (simp_all)

lemmas codec_splits = gotype.splits goval.splits option.splits

lemmas wire_induct = wire_type_wire_fields_wire_variant_wire_ext_wire_dyn_wire_dv.induct
  [case_names 1 2 NoTypes NoValues 4 5 6 7]

context buffer_at
begin

lemma emits_ext_body:
  assumes body: "emits body bs" and small: "length bs < pool_size"
  shows "emits (write_ext_body ops body) (concat [le_bytes 4 (word_of_nat (length bs) :: u32), bs])"
    (is "emits ?m ?out")
  unfolding emits_def
proof (intro allI impI)
  fix w assume w: "sink_ok w"
  show "(\<exists>w'. ?m w = (Ok (), w') \<and> wrote w w' ?out)
    \<or> (room w \<le> length ?out \<and> (\<exists>w'. ?m w = (Err (Status BadEncodingError), w') \<and> sink_ok w'))"
  proof (cases w)
    case (BytesWriter x)
    let ?w0 = "BytesWriter (NewWriter (replicate pool_size 0))"
    have "sink_ok ?w0" "length bs < room ?w0"
      using small by (simp_all add: sink_ok_def room_def)
    from emits_room [OF body this] obtain w1 where w1: "body ?w0 = (Ok (), w1)" "wrote ?w0 w1 bs"
      by blast
    then obtain y where "w1 = BytesWriter y" "Writer_Bytes y = bs"
      by (auto simp: wrote_def same_kind_def content_def)
    with w1 BytesWriter have "?m w = enc_try (WriteByteArray ops (Some bs)) w"
      by (simp add: write_ext_body_def)
    with emits_orfail [OF emits_WriteByteArray [of bs]] w show ?thesis
      unfolding emits_def by simp
  next
    case (BufferAt b0)
    let ?c = "bcontent b0"
    let ?z = "replicate 4 (0 :: byte)"
    have b0: "binv b0" using w BufferAt by (simp add: sink_ok_def)
    from emits_io_Write [of ?z] w show ?thesis
    proof (cases rule: emits_cases)
      case (full w')
      with BufferAt show ?thesis by (auto simp: write_ext_body_def bnd_Err)
    next
      case (wrote w1)
      then obtain b1 where b1: "w1 = BufferAt b1" "binv b1" "bcontent b1 = ?c @ ?z"
          "broom b1 = broom b0 - 4" "4 \<le> broom b0"
        using BufferAt by (auto simp: wrote_def same_kind_def content_def room_def sink_ok_def)
      have ok1: "sink_ok w1" using b1 by (simp add: sink_ok_def)
      from emits_orfail [OF body] ok1 show ?thesis
      proof (cases rule: emits_cases)
        case (full w')
        with wrote b1 BufferAt show ?thesis
          by (auto simp: write_ext_body_def bnd_Ok bnd_Err room_def)
      next
        case wrote2: (wrote w2)
        then obtain b2 where b2: "w2 = BufferAt b2" "binv b2" "bcontent b2 = ?c @ ?z @ bs"
            "broom b2 = broom b0 - (4 + length bs)" "4 + length bs \<le> broom b0"
          using b1 by (auto simp: wrote_def same_kind_def content_def room_def sink_ok_def)
        let ?p = "le_bytes 4 (word_of_nat (length bs) :: u32)"
        have "length ?c + length ?p \<le> length (bcontent b2)" "?p \<noteq> []"
          using b2(3) by simp_all
        from WriteAt_law [OF b2(2) this] obtain b3 where b3:
          "bo_WriteAt ops ?p (length ?c) b2 = (Ok (), b3)" "binv b3" "broom b3 = broom b2"
          "bcontent b3 = ?c @ ?p @ bs"
          using b2(3) by auto
        have len: "bo_Len ops b0 = length ?c" "bo_Len ops b1 = length ?c + 4"
          "bo_Len ops b2 = length ?c + 4 + length bs"
          using Len_law b0 b1 b2 by simp_all
        have "?m w = (Ok (), BufferAt b3)"
          using wrote(1) wrote2(1) BufferAt b1(1) b2(1) b3(1) len
          by (simp add: write_ext_body_def Let_def bnd_Ok)
        moreover have "wrote w (BufferAt b3) ?out"
          using BufferAt b2 b3 by (simp add: wrote_def sink_ok_def same_kind_def room_def content_def)
        ultimately show ?thesis by blast
      qed
    qed
  qed
qed

lemma emits_option:
  "(\<And>x. v = Some x \<Longrightarrow> emits (f x) (g x)) \<Longrightarrow>
   emits (case v of Some x \<Rightarrow> f x | None \<Rightarrow> ret ()) (case v of Some x \<Rightarrow> g x | None \<Rightarrow> [])"
  by (cases v) (simp_all add: emits_def)

lemma emits_DiagnosticInfo: "emits (WriteDiagnosticInfo ops d) (wire_DiagnosticInfo d)"
proof (induction d rule: wire_DiagnosticInfo.induct)
  case (1 symb nsu loc tx add st inner)
  show ?case
    unfolding WriteDiagnosticInfo.simps wire_DiagnosticInfo.simps Let_def
    by (rule emits_seqs)
       (simp only: list_all2_Cons list_all2_Nil2 simp_thms,
        intro conjI emits_option emits_scalar "1.IH", assumption)
qed

lemma emits_dims:
  "emits (WriteInt32Array ops (Some d)) (wire_array (Some (map (le_bytes 4) d)))"
  unfolding WriteInt32Array_def option.map
  by (rule emits_write_array) (rule emits_scalar)

lemma emits_scalar_slice:
  assumes "list_all (is_scalar_of b k) zs"
  shows "emits (WriteScalarArray ops k (Some (map un_Scalar zs)))
           (wire_array (Some (map (\<lambda>x. wire_scalar (un_Scalar x)) zs)))"
proof -
  have "stype_of x = k" if "x \<in> set (map un_Scalar zs)" for x
    using assms that by (auto simp: list_all_iff elim!: is_scalar_of.elims)
  from emits_WriteScalarArray [OF this, of "map un_Scalar zs"] show ?thesis by (simp add: comp_def)
qed


lemma emits_elem_array:
  assumes "\<And>zs. ys = Some zs \<Longrightarrow> (case e of
                     TScalar k \<Rightarrow> list_all (is_scalar_of b k) zs
                   | TExtensionObject \<Rightarrow> \<forall>x\<in>set zs. emits (we x) (ue x)
                   | TDataValue \<Rightarrow> \<forall>x\<in>set zs. emits (wd x) (ud x)
                   | _ \<Rightarrow> \<forall>x\<in>set zs. emits (wv x) (uv x))"
  shows "emits
     (case e of
        TScalar k \<Rightarrow> WriteScalarArray ops k (map_option (map un_Scalar) ys)
      | TExtensionObject \<Rightarrow> write_array ops (map_option (map (\<lambda>x. we x)) ys)
      | TDataValue \<Rightarrow> write_array ops (map_option (map (\<lambda>x. wd x)) ys)
      | _ \<Rightarrow> write_array ops (map_option (map (\<lambda>x. wv x)) ys))
     (case e of
        TScalar k \<Rightarrow> wire_array (map_option (map (\<lambda>x. wire_scalar (un_Scalar x))) ys)
      | TExtensionObject \<Rightarrow> wire_array (map_option (map (\<lambda>x. ue x)) ys)
      | TDataValue \<Rightarrow> wire_array (map_option (map (\<lambda>x. ud x)) ys)
      | _ \<Rightarrow> wire_array (map_option (map (\<lambda>x. uv x)) ys))"
proof (cases ys)
  case None
  then show ?thesis
    by (cases e) (simp_all add: emits_WriteScalarArray_nil emits_write_array_nil)
next
  case (Some zs)
  from assms [OF this] Some show ?thesis
    by (cases e) (simp_all add: emits_scalar_slice emits_write_array)
qed

lemma emits_with_dims:
  assumes "emits m bs"
  shows "emits
     (enc_steps ([WriteByte ops c, m] @ (case dims of None \<Rightarrow> [] | Some d \<Rightarrow> [WriteInt32Array ops (Some d)])))
     (concat ([[c], bs] @ (case dims of None \<Rightarrow> [] | Some d \<Rightarrow> [wire_array (Some (map (le_bytes 4) d))])))"
  by (rule emits_enc_steps, cases dims) (simp_all add: assms emits_scalar emits_dims)

lemma emits_ext:
  assumes "type_of v = Some t" and "encodingIDs reg (elem_type t) = Some i" and "codec_for (elem_type t)"
    and "emits (enc_dyn ops reg uris v) (wire_dyn reg uris v)" and "length (wire_dyn reg uris v) < pool_size"
  shows "emits (WriteExtensionObject ops reg uris v) (wire_ext reg uris v)"
  using assms
  by (simp add: ext_unfold FindBinaryEncodingIDForType_def wire_ext_body_def del: concat.simps seqs.simps)
     (intro emits_seqs, simp add: emits_scalar emits_orfail emits_ext_body del: concat.simps)

lemma emits_dv:
  assumes "val \<noteq> VNil \<Longrightarrow> emits (WriteVariant ops reg uris val) (wire_variant reg uris val)"
  shows "emits (WriteDataValue ops reg uris (VDataValue val st srct srcp srvt srvp))
           (wire_dv reg uris (VDataValue val st srct srcp srvt srvp))"
  unfolding dv_unfold goval.case Let_def data_value_flags_def [symmetric]
  unfolding data_value_flag_bits
  by (rule emits_seqs)
     (simp only: list_all2_Cons list_all2_Nil simp_thms,
      intro conjI emits_opt_step emits_orfail emits_scalar assms)

lemma emits_variant_slice:
  assumes plan: "slice_plan t xs = Some (e, c, ys, dims)"
    and elems: "\<And>zs. ys = Some zs \<Longrightarrow> (case e of
                     TScalar k \<Rightarrow> list_all (is_scalar_of b k) zs
                   | TExtensionObject \<Rightarrow> \<forall>x\<in>set zs. emits (WriteExtensionObject ops reg uris x) (wire_ext reg uris x)
                   | TDataValue \<Rightarrow> \<forall>x\<in>set zs. emits (WriteDataValue ops reg uris x) (wire_dv reg uris x)
                   | _ \<Rightarrow> \<forall>x\<in>set zs. emits (WriteVariant ops reg uris x) (wire_variant reg uris x))"
  shows "emits (WriteVariant ops reg uris (VSlice t xs)) (wire_variant reg uris (VSlice t xs))"
  unfolding variant_unfold goval.case plan option.case prod.case
  by (rule emits_with_dims, rule emits_elem_array) (rule elems)

lemma emits_variant_struct:
  assumes "emits (WriteExtensionObject ops reg uris (VStruct n ts vs)) (wire_ext reg uris (VStruct n ts vs))"
  shows "emits (WriteVariant ops reg uris (VStruct n ts vs)) (wire_variant reg uris (VStruct n ts vs))"
proof -
  have "emits (enc_steps [WriteByte ops 22, WriteExtensionObject ops reg uris (VStruct n ts vs)])
      (concat [[22], wire_ext reg uris (VStruct n ts vs)])"
    using assms by (intro emits_enc_steps) (simp add: emits_scalar)
  then show ?thesis by (simp add: WriteVariant.simps wire_variant.simps)
qed

lemma emits_ext_nil: "emits (WriteExtensionObject ops reg uris VNil) (wire_ext reg uris VNil)"
proof -
  have "emits (enc_steps [WriteNodeID ops None, WriteByte ops 0]) (concat [wire_NodeID None, [0]])"
    by (rule emits_enc_steps) (simp only: list_all2_Cons list_all2_Nil emits_scalar simp_thms)
  then show ?thesis
    by (simp only: WriteExtensionObject.simps wire_ext.simps type_of.simps option.case)
qed

lemma emits_dyn_slice:
  assumes ok: "ok_dyn b reg uris (VSlice t xs)"
    and elems: "\<And>ys y. t \<noteq> TScalar KUint8 \<Longrightarrow> xs = Some ys \<Longrightarrow> y \<in> set ys \<Longrightarrow> ok_type b reg uris t y \<Longrightarrow>
                  emits (enc_type ops reg uris t y) (wire_type reg uris t y)"
  shows "emits (enc_dyn ops reg uris (VSlice t xs)) (wire_dyn reg uris (VSlice t xs))"
proof (cases xs)
  case None
  have "emits (WriteByteArray ops None) (wire_array None)"
    by (simp add: WriteByteArray_def wire_array_def emits_scalar)
  with None show ?thesis by (simp add: dyn_unfold emits_scalar)
next
  case (Some ys)
  show ?thesis
  proof (cases "t = TScalar KUint8")
    case True
    with Some show ?thesis
      using emits_WriteByteArray [of "map (\<lambda>x. un_Uint8 (un_Scalar x)) ys"]
      by (simp add: dyn_unfold wire_array_def comp_def)
  next
    case False
    have "emits (enc_type ops reg uris t y) (wire_type reg uris t y)" if "y \<in> set ys" for y
      using elems [OF False Some that] ok Some False that by (simp add: ok_dyn.simps list_all_iff)
    then have "emits (seqs (WriteInt32 ops (word_of_nat (length ys)) # map (enc_type ops reg uris t) ys))
        (concat (le_bytes 4 (word_of_nat (length ys) :: u32) # map (wire_type reg uris t) ys))"
      by (intro emits_seqs) (simp add: emits_scalar list.rel_map list.rel_refl_strong)
    with False Some show ?thesis
      by (cases "ys = []") (simp_all add: dyn_unfold wire_array_def emits_scalar del: seqs.simps)
  qed
qed

theorem emits_codec:
  "ok_type b reg uris t v \<Longrightarrow> emits (enc_type ops reg uris t v) (wire_type reg uris t v)"
  "ok_fields b reg uris ts vs \<Longrightarrow> emits (enc_fields ops reg uris ts vs) (wire_fields reg uris ts vs)"
  "ok_variant b reg uris v \<Longrightarrow> emits (WriteVariant ops reg uris v) (wire_variant reg uris v)"
  "ok_ext b reg uris v \<Longrightarrow> emits (WriteExtensionObject ops reg uris v) (wire_ext reg uris v)"
  "ok_dyn b reg uris v \<Longrightarrow> emits (enc_dyn ops reg uris v) (wire_dyn reg uris v)"
  "ok_dv b reg uris v \<Longrightarrow> emits (WriteDataValue ops reg uris v) (wire_dv reg uris v)"
proof (induction reg uris t v and reg uris ts vs and reg uris v and reg uris v and reg uris v and reg uris v
    rule: wire_induct)
  case (1 reg uris t v)
  then show ?case by (auto simp: type_unfold split: codec_splits)
next
  case (2 reg uris t ts v vs)
  then show ?case by (simp add: emits_andthen)
next
  case (NoTypes reg uris vs)
  then show ?case by (cases vs) (simp_all add: emits_def)
next
  case (NoValues reg uris ts)
  then show ?case by (cases ts) (simp_all add: emits_def)
next
  case (4 reg uris v)
  show ?case
  proof (cases v)
    case (VSlice t xs)
    with "4.prems" obtain e c ys dims where plan: "slice_plan t xs = Some (e, c, ys, dims)"
      by (auto simp: variant_unfold split: option.splits)
    show ?thesis
      unfolding VSlice
    proof (rule emits_variant_slice [OF plan, where b = b])
      fix zs assume zs: "ys = Some zs"
      show "case e of TScalar k \<Rightarrow> list_all (is_scalar_of b k) zs
        | TExtensionObject \<Rightarrow> \<forall>x\<in>set zs. emits (WriteExtensionObject ops reg uris x) (wire_ext reg uris x)
        | TDataValue \<Rightarrow> \<forall>x\<in>set zs. emits (WriteDataValue ops reg uris x) (wire_dv reg uris x)
        | _ \<Rightarrow> \<forall>x\<in>set zs. emits (WriteVariant ops reg uris x) (wire_variant reg uris x)"
        using "4.prems" VSlice plan zs "4.IH"(4-) [OF VSlice plan refl refl refl _ zs]
        by (cases e) (simp_all add: variant_unfold list_all_iff)
    qed
  qed (use 4 in \<open>simp_all add: ok_variant.simps emits_variant_struct\<close>,
       simp_all add: wire_variant.simps WriteVariant.simps emits_scalar emits_WriteVariantScalar)
next
  case (5 reg uris v)
  show ?case
  proof (cases "v = VNil")
    case False
    with "5.prems" obtain t i where t: "type_of v = Some t" "encodingIDs reg (elem_type t) = Some i"
        "codec_for (elem_type t)" "ok_dyn b reg uris v" "length (wire_dyn reg uris v) < pool_size"
      by (cases v) (auto simp: ok_ext.simps wire_dyn.simps id_ok_def split: option.splits)
    show ?thesis by (rule emits_ext [OF t(1-3) "5.IH" [OF t(1,2,4)] t(5)])
  qed (simp add: emits_ext_nil)
next
  case (6 reg uris v)
  show ?case
  proof (cases v)
    case (VPtr n ts p)
    with 6 show ?thesis by (cases p) (auto simp: dyn_unfold)
  next
    case (VSlice t xs)
    with emits_dyn_slice "6.prems" "6.IH"(4) [OF VSlice] show ?thesis by blast
  qed (use 6 in \<open>auto simp: dyn_unfold emits_enc_kind emits_scalar emits_DiagnosticInfo\<close>)
next
  case (7 reg uris v)
  then show ?case by (cases v) (simp_all add: ok_dv.simps emits_dv)
qed

end

text \<open>What the encoder writes to either kind of writer.\<close>

context buffer_at
begin

lemma emits_Encode:
  assumes "ok_dyn c reg uris v" and "type_of v = Some t" and "codec_for (elem_type t)"
  shows "emits (Encode ops reg uris v) (wire_dyn reg uris v)"
  using emits_codec(5) [OF assms(1)] assms(2,3) by (simp add: Encode_def)

lemma Encode_BufferAt:
  assumes "binv b" and "ok_dyn c reg uris v" and "type_of v = Some t" and "codec_for (elem_type t)"
    and "length (wire_dyn reg uris v) < broom b"
  shows "\<exists>b'. Encode ops reg uris v (BufferAt b) = (Ok (), BufferAt b') \<and> binv b'
     \<and> bcontent b' = bcontent b @ wire_dyn reg uris v"
  using emits_room [OF emits_Encode [OF assms(2-4)], of "BufferAt b"] assms(1,5)
  by (auto simp: sink_ok_def room_def wrote_def same_kind_def content_def)

lemma Encode_BytesWriter:
  assumes "Writer_inv w" and "ok_dyn c reg uris v" and "type_of v = Some t" and "codec_for (elem_type t)"
    and "length (wire_dyn reg uris v) < Writer_room w"
  shows "\<exists>w'. Encode ops reg uris v (BytesWriter w) = (Ok (), BytesWriter w') \<and> Writer_inv w'
     \<and> Writer_Bytes w' = Writer_Bytes w @ wire_dyn reg uris v"
  using emits_room [OF emits_Encode [OF assms(2-4)], of "BytesWriter w"] assms(1,5)
  by (auto simp: sink_ok_def room_def wrote_def same_kind_def content_def)

end

end
