(* ===== verification/Codec_Roundtrip.thy ===== *)
theory Codec_Roundtrip
  imports Codec_Wire
begin

text \<open>
  The decoder reads back what the wire format of a value says, for every value
  the wire format carries without loss (\<open>ok_*\<close> with the flag on), leaves the rest
  of the stream untouched and needs a fuel no larger than the length of the
  encoding.
\<close>

section \<open>Type bytes of variants\<close>

lemma array_code_elem:
  assumes "array_code e = Some c"
  shows "variant_elem ((c OR 0x80) AND 0x3F) = Some e \<and> variant_elem ((c OR 0x80 OR 0x40) AND 0x3F) = Some e
    \<and> (c OR 0x80) AND 0x3F \<noteq> 0 \<and> (c OR 0x80 OR 0x40) AND 0x3F \<noteq> 0
    \<and> (c OR 0x80) AND 0x80 \<noteq> 0 \<and> (c OR 0x80 OR 0x40) AND 0x80 \<noteq> 0
    \<and> (c OR 0x80) AND 0x40 = 0 \<and> (c OR 0x80 OR 0x40) AND 0x40 \<noteq> 0"
proof (cases e)
  case (TScalar k)
  then have "c = variant_code k" using assms by simp
  with TScalar show ?thesis by (cases k) (simp_all add: variant_elem_def)
qed (use assms in \<open>auto simp: variant_elem_def\<close>)

lemma variant_code_elem:
  "variant_elem (variant_code k AND 0x3F) = Some (TScalar k)" "variant_code k AND 0x80 = 0" "variant_code k AND 0x3F \<noteq> 0"
  by (cases k; simp add: variant_elem_def)+

lemma slice_plan_cases:
  assumes "slice_plan t xs = Some (e, c, ys, dims)" and "shape_ok t xs"
  obtains (flat) k where "array_code e = Some k" "t = e" "c = k OR 0x80" "ys = xs" "dims = None"
  | (two) k rows where "array_code e = Some k" "t = TSlice e" "c = k OR 0x80 OR 0x40" "xs = Some rows"
      "ys = Some (flatten2D rows)" "dims = Some (dims2D rows)" "rect2 e rows"
  | (three) k blocks where "array_code e = Some k" "t = TSlice (TSlice e)" "c = k OR 0x80 OR 0x40" "xs = Some blocks"
      "ys = Some (flatten3D blocks)" "dims = Some (dims3D blocks)" "rect3 e blocks"
  using assms
  by (auto simp: slice_plan_def shape_ok_def Let_def split: option.splits gotype.splits if_splits)

section \<open>Multi-dimensional arrays are cut back into rows\<close>

lemma take_rows_concat:
  assumes "\<And>r. r \<in> set rs \<Longrightarrow> length r = d"
  shows "take_rows (length rs) (int d) (concat rs @ rest) = Some (rs, rest)"
  using assms by (induction rs) auto

lemma take_blocks_concat:
  assumes "\<And>b. b \<in> set bs \<Longrightarrow> length b = d1 \<and> (\<forall>r\<in>set b. length r = d2)"
  shows "take_blocks (length bs) (int d1) (int d2) (concat (map concat bs)) = Some bs"
  using assms
proof (induction bs)
  case (Cons b bs)
  then have "take_rows d1 (int d2) (concat b @ concat (map concat bs)) = Some (b, concat (map concat bs))"
    using take_rows_concat [of b d2] by auto
  moreover have "take_blocks (length bs) (int d1) (int d2) (concat (map concat bs)) = Some bs"
    by (rule Cons.IH) (rule Cons.prems, simp)
  ultimately show ?case by simp
qed simp

lemma row_okE:
  assumes "row_ok e n r"
  obtains ys where "r = VSlice e (Some ys)" "length ys = n"
  using assms by (auto simp: row_ok_def split: goval.splits option.splits)

lemma rows_rebuild:
  assumes "list_all (row_ok e n) rows"
  shows "map (\<lambda>r. VSlice e (Some r)) (map slice_elems rows) = rows"
    and "\<And>r. r \<in> set (map slice_elems rows) \<Longrightarrow> length r = n"
  using assms by (induction rows) (auto elim!: row_okE)

lemma sint_dim: "len_ok xs \<Longrightarrow> sint (word_of_nat (length xs) :: u32) = int (length xs)"
  unfolding len_ok_def by (rule sint_int32_len)

lemma split2D_rect:
  assumes "rect2 e rows"
  shows "split_dims e (Some (flatten2D rows)) (Some (dims2D rows)) s = (Ok (VSlice (TSlice e) (Some rows)), s)"
proof (cases rows)
  case Nil
  then show ?thesis by (simp add: split_dims_def dims2D_def split2D_def)
next
  case (Cons r rs)
  let ?n = "length (slice_elems r)"
  have ok: "len_ok rows" "len_ok (slice_elems r)" "list_all (row_ok e ?n) rows"
    using assms Cons by (simp_all add: rect2_def)
  have "take_rows (length (map slice_elems rows)) (int ?n) (concat (map slice_elems rows) @ [])
      = Some (map slice_elems rows, [])"
    by (rule take_rows_concat) (rule rows_rebuild(2) [OF ok(3)])
  then have "take_rows (length rows) (int ?n) (flatten2D rows) = Some (map slice_elems rows, [])"
    by (simp add: flatten2D_def)
  moreover have "dims2D rows = [word_of_nat (length rows), word_of_nat ?n]"
    using Cons by (simp add: dims2D_def)
  ultimately show ?thesis
    using ok(1,2) rows_rebuild(1) [OF ok(3)] by (simp add: split_dims_def split2D_def sint_dim)
qed

lemma split3D_rect:
  assumes "rect3 e blocks"
  shows "split_dims e (Some (flatten3D blocks)) (Some (dims3D blocks)) s
    = (Ok (VSlice (TSlice (TSlice e)) (Some blocks)), s)"
proof (cases blocks)
  case Nil
  then show ?thesis by (simp add: split_dims_def dims3D_def split3D_def)
next
  case (Cons b bs)
  then obtain r rs where r: "slice_elems b = r # rs" using assms by (auto simp: rect3_def split: list.splits)
  let ?m = "length (slice_elems b)" and ?n = "length (slice_elems r)"
  let ?cut = "map (\<lambda>x. map slice_elems (slice_elems x)) blocks"
  have ok: "len_ok blocks" "len_ok (slice_elems b)" "len_ok (slice_elems r)"
    and rows: "list_all (row_ok (TSlice e) ?m) blocks"
    and cols: "\<And>x. x \<in> set blocks \<Longrightarrow> list_all (row_ok e ?n) (slice_elems x)"
    using assms Cons r by (auto simp: rect3_def list_all_iff)
  have lens: "length c = ?m \<and> (\<forall>q\<in>set c. length q = ?n)" if "c \<in> set ?cut" for c
  proof -
    from that obtain x where x: "x \<in> set blocks" "c = map slice_elems (slice_elems x)" by auto
    with rows_rebuild(2) [OF rows, of "slice_elems x"] rows_rebuild(2) [OF cols [OF x(1)]] show ?thesis
      by auto
  qed
  have "flatten3D blocks = concat (map concat ?cut)"
    by (simp add: flatten3D_def comp_def)
  with take_blocks_concat [of ?cut, OF lens]
  have "take_blocks (length blocks) (int ?m) (int ?n) (flatten3D blocks) = Some ?cut" by simp
  moreover have "dims3D blocks = [word_of_nat (length blocks), word_of_nat ?m, word_of_nat ?n]"
    using Cons r by (simp add: dims3D_def)
  moreover have "map (\<lambda>rs. VSlice (TSlice e) (Some (map (\<lambda>r. VSlice e (Some r)) rs))) ?cut = blocks"
  proof (rule map_idI [of blocks "\<lambda>x. VSlice (TSlice e) (Some (slice_elems x))", THEN trans [rotated]])
    show "VSlice (TSlice e) (Some (slice_elems x)) = x" if "x \<in> set blocks" for x
      using rows that by (auto simp: list_all_iff elim!: row_okE)
    show "map (\<lambda>rs. VSlice (TSlice e) (Some (map (\<lambda>r. VSlice e (Some r)) rs))) ?cut =
        map (\<lambda>x. VSlice (TSlice e) (Some (slice_elems x))) blocks"
      using rows_rebuild(1) [OF cols] by simp
  qed
  ultimately show ?thesis
    using ok by (simp add: split_dims_def split3D_def sint_dim)
qed

section \<open>Arrays of variant elements\<close>

lemma length_concat_mem: "x \<in> set xs \<Longrightarrow> length (f x) \<le> length (concat (map f xs))"
  by (induction xs) auto

lemma length_wire_array_mem:
  "x \<in> set xs \<Longrightarrow> length (f x) \<le> length (wire_array (Some (map f xs)))"
  using length_concat_mem [of x xs f] by (simp add: wire_array_def)

definition wire_elems :: "registry \<Rightarrow> string list \<Rightarrow> gotype \<Rightarrow> goval list option \<Rightarrow> bytes" where
  "wire_elems reg uris e ys = (case e of
       TScalar k \<Rightarrow> wire_array (map_option (map (\<lambda>x. wire_scalar (un_Scalar x))) ys)
     | TExtensionObject \<Rightarrow> wire_array (map_option (map (\<lambda>x. wire_ext reg uris x)) ys)
     | TDataValue \<Rightarrow> wire_array (map_option (map (\<lambda>x. wire_dv reg uris x)) ys)
     | _ \<Rightarrow> wire_array (map_option (map (\<lambda>x. wire_variant reg uris x)) ys))"

definition elem_reads :: "registry \<Rightarrow> string list \<Rightarrow> nat \<Rightarrow> gotype \<Rightarrow> goval \<Rightarrow> bool" where
  "elem_reads reg uris fuel e x = (case e of
       TScalar k \<Rightarrow> is_scalar_of True k x
     | TExtensionObject \<Rightarrow> \<forall>rest. ReadExtensionObject reg uris fuel (wire_ext reg uris x @ rest) = (Ok x, rest)
     | TDataValue \<Rightarrow> \<forall>rest. ReadDataValue reg uris fuel (wire_dv reg uris x @ rest) = (Ok x, rest)
     | _ \<Rightarrow> \<forall>rest. ReadVariant reg uris fuel (wire_variant reg uris x @ rest) = (Ok x, rest))"

lemma reads_elems:
  assumes code: "array_code e = Some c" and len: "len_ok zs"
    and elems: "\<And>x. x \<in> set zs \<Longrightarrow> elem_reads reg uris fuel e x"
  shows "read_elem_array reg uris fuel e (wire_elems reg uris e (Some zs) @ rest) = (Ok (Some zs), rest)"
proof (cases "\<exists>k. e = TScalar k")
  case True
  then obtain k where e: "e = TScalar k" by blast
  have sc: "is_scalar_of True k x" if "x \<in> set zs" for x
    using elems [OF that] e by (simp add: elem_reads_def)
  have "ReadScalarArray k (wire_array (Some (map wire_scalar (map un_Scalar zs))) @ rest)
      = (Ok (Some (map un_Scalar zs)), rest)"
    by (rule reads_ScalarArray) (use len sc in \<open>force simp: len_ok_def elim!: is_scalar_of.elims\<close>)+
  moreover have "map (\<lambda>x. VScalar (un_Scalar x)) zs = zs"
    by (rule map_idI) (use sc in \<open>force elim!: is_scalar_of.elims\<close>)
  ultimately show ?thesis
    by (simp add: e wire_elems_def read_elem_array.simps bnd_Ok comp_def)
next
  case False
  have arr: "read_array (dec_try rd) (wire_array (Some (map f zs)) @ rest) = (Ok (Some zs), rest)"
    if "\<And>x rest. x \<in> set zs \<Longrightarrow> rd (f x @ rest) = (Ok x, rest)" for rd :: "(bytes, goval) act" and f
    using read_array_wire [OF len, of "dec_try rd" f id rest] that by simp
  from False code elems show ?thesis
    by (cases e) (simp_all add: wire_elems_def read_elem_array.simps elem_reads_def arr)
qed

lemma reads_elems_nil:
  "array_code e = Some c \<Longrightarrow> read_elem_array reg uris fuel e (wire_elems reg uris e None @ rest) = (Ok None, rest)"
  by (cases e) (simp_all add: wire_elems_def read_elem_array.simps reads_ScalarArray_nil read_array_wire_nil bnd_Ok)

lemma reads_dims:
  "length d < 2 ^ 31 \<Longrightarrow> ReadInt32Array (wire_array (Some (map (le_bytes 4) d)) @ rest) = (Ok (Some d), rest)"
  unfolding ReadInt32Array_def
  using read_array_wire [of d ReadInt32 "le_bytes 4" id rest] by (simp add: len_ok_def reads)

lemma dims_short: "length (dims2D rows) < 2 ^ 31" "length (dims3D blocks) < 2 ^ 31"
  by (simp_all add: dims2D_def dims3D_def split: list.splits)

lemma wire_variant_slice:
  "slice_plan t xs = Some (e, c, ys, dims) \<Longrightarrow> wire_variant reg uris (VSlice t xs) =
     c # wire_elems reg uris e ys @ (case dims of None \<Rightarrow> [] | Some d \<Rightarrow> wire_array (Some (map (le_bytes 4) d)))"
  by (cases dims) (simp_all add: variant_unfold wire_elems_def)

lemma reads_variant_slice:
  assumes plan: "slice_plan t xs = Some (e, c, ys, dims)" and shape: "shape_ok t xs"
    and elems: "\<And>zs. ys = Some zs \<Longrightarrow> len_ok zs \<and> (\<forall>x\<in>set zs. elem_reads reg uris fuel e x)"
  shows "ReadVariant reg uris (Suc fuel) (wire_variant reg uris (VSlice t xs) @ rest) = (Ok (VSlice t xs), rest)"
proof -
  have arr: "read_elem_array reg uris fuel e (wire_elems reg uris e ys @ r) = (Ok ys, r)"
    if "array_code e = Some k" for k r
    using reads_elems [OF that] reads_elems_nil [OF that] elems by (cases ys) auto
  note wire = wire_variant_slice [OF plan, of reg uris]
  note byte = reads_ints(3) and dec = ReadVariant.simps bnd_Ok orfail_Ok
  show ?thesis
    using plan shape
  proof (cases rule: slice_plan_cases)
    case (flat k)
    with wire array_code_elem [OF flat(1)] arr [OF flat(1)] show ?thesis
      by (simp add: dec byte)
  next
    case (two k rows)
    with wire array_code_elem [OF two(1)] arr [OF two(1)] show ?thesis
      by (simp add: dec byte reads_dims [OF dims_short(1)] reads_dims [OF dims_short(2)] split2D_rect)
  next
    case (three k blocks)
    with wire array_code_elem [OF three(1)] arr [OF three(1)] show ?thesis
      by (simp add: dec byte reads_dims [OF dims_short(1)] reads_dims [OF dims_short(2)] split3D_rect)
  qed
qed

section \<open>Scalars, extension objects and data values\<close>

lemma reads_variant_scalar:
  assumes "s \<noteq> SNodeID None" and "scalar_ok s"
  shows "ReadVariant reg uris (Suc fuel) (wire_variant reg uris (VScalar s) @ rest) = (Ok (VScalar s), rest)"
  using assms reads_ReadVariantScalar [OF assms(2), of rest]
  by (simp add: wire_variant.simps wire_variant_scalar_def ReadVariant.simps reads bnd_Ok orfail_Ok
      variant_code_elem scalar_variant_def)

lemma reads_ext_struct:
  assumes ok: "ok_ext True reg uris (VStruct n ts vs)"
    and dyn: "\<And>r. dec_type reg uris fuel (TStruct n ts) (wire_dyn reg uris (VStruct n ts vs) @ r) = (Ok (VStruct n ts vs), r)"
  shows "ReadExtensionObject reg uris (Suc fuel) (wire_ext reg uris (VStruct n ts vs) @ rest)
    = (Ok (VStruct n ts vs), rest)"
proof -
  obtain i where i: "encodingIDs reg (TStruct n ts) = Some i"
      "norm_NodeID (ToNodeID i uris) = ToNodeID i uris"
      "case ToNodeID i uris of None \<Rightarrow> True | Some m \<Rightarrow> nodeid_len_ok m"
      "encodingTypes reg (ToExpandedNodeID (ToNodeID i uris) uris) = Some (TStruct n ts)"
      "codec_for_fields ts"
    using ok by (auto simp: ok_ext.simps id_ok_def split: option.splits)
  have "ReadNodeID (wire_NodeID (ToNodeID i uris) @ r) = (Ok (ToNodeID i uris), r)" for r
    using reads_NodeID [of "ToNodeID i uris" r] i by (cases "ToNodeID i uris") auto
  with i dyn show ?thesis
    by (simp add: wire_ext.simps wire_ext_body_def ReadExtensionObject.simps reads bnd_Ok orfail_Ok
        FindTypeForBinaryEncodingID_def)
qed

lemma reads_ext_nil:
  "ReadExtensionObject reg uris (Suc fuel) (wire_ext reg uris VNil @ rest) = (Ok VNil, rest)"
  using reads_NodeID [of None]
  by (simp add: wire_ext.simps ReadExtensionObject.simps reads_ints bnd_Ok orfail_Ok)

lemma reads_dv:
  assumes ok: "IsZero srct \<or> time_ok srct" "IsZero srvt \<or> time_ok srvt"
    and val: "\<And>r. val \<noteq> VNil \<Longrightarrow> ReadVariant reg uris fuel (wire_variant reg uris val @ r) = (Ok val, r)"
  shows "ReadDataValue reg uris fuel (wire_dv reg uris (VDataValue val st srct srcp srvt srvp) @ rest)
    = (Ok (VDataValue val st srct srcp srvt srvp), rest)"
proof -
  have step: "bnd m f (bs @ r) = y" if "m (bs @ r) = (Ok x, r)" "f x r = y"
    for m :: "(bytes, 'x) act" and f :: "'x \<Rightarrow> (bytes, goval) act" and bs r x y
    using that by (simp add: bnd_Ok)
  have opt: "when_set c d m ((if c then bs else []) @ r) = (Ok x, r)"
    if "c \<Longrightarrow> m (bs @ r) = (Ok x, r)" "\<not> c \<Longrightarrow> d = x" for c d m bs r and x :: 'z
    using that by (simp add: when_set_def)
  have v: "variant_or_status (ReadVariant reg uris fuel) (wire_variant reg uris val @ r) = (Ok (val, 0), r)"
    if "val \<noteq> VNil" for r
    using val [OF that] by (simp add: variant_or_status_def)
  have t: "ReadDateTime (wire_DateTime x @ r) = (Ok x, r)" if "IsZero x \<or> time_ok x" "\<not> IsZero x" for x r
    using that by (simp add: reads norm_time_id)
  have "ReadByte ([b] @ r) = (Ok b, r)" for b r by (simp add: reads_ints)
  show ?thesis
    unfolding wire_dv.simps ReadDataValue.simps goval.case concat.simps append_assoc append_Nil2 append_Nil
    apply (rule step, rule orfail_Ok, fact)
    unfolding data_value_flag_bits
    apply (rule step, rule opt, erule v, simp)
    apply (simp only: fst_conv snd_conv simp_thms)
    apply (rule step, rule opt, simp add: reads orfail_Ok, simp)
    apply (rule step, rule opt, rule orfail_Ok, erule t [OF ok(1)], simp add: IsZero_def)
    apply (rule step, rule opt, simp add: reads orfail_Ok, simp)
    apply (rule step, rule opt, rule orfail_Ok, erule t [OF ok(2)], simp add: IsZero_def)
    apply (rule step, rule opt, simp add: reads orfail_Ok, simp)
    apply simp
    done
qed

section \<open>The decoder reads the wire format back\<close>

lemma wire_variant_pos: "ok_variant b reg uris v \<Longrightarrow> 0 < length (wire_variant reg uris v)"
  by (cases v) (auto simp: ok_variant.simps wire_variant.simps wire_variant_scalar_def split: option.splits)

lemma wire_ext_pos: "ok_ext b reg uris v \<Longrightarrow> 0 < length (wire_ext reg uris v)"
  by (cases v) (auto simp: ok_ext.simps wire_ext.simps wire_ext_body_def id_ok_def split: option.splits)

lemma reads_dyn_slice:
  assumes ok: "ok_dyn True reg uris (VSlice t xs)"
    and elems: "\<And>ys y r. t \<noteq> TScalar KUint8 \<Longrightarrow> xs = Some ys \<Longrightarrow> y \<in> set ys \<Longrightarrow>
                  dec_type reg uris fuel t (wire_type reg uris t y @ r) = (Ok y, r)"
  shows "dec_type reg uris fuel (TSlice t) (wire_dyn reg uris (VSlice t xs) @ rest) = (Ok (VSlice t xs), rest)"
proof (cases "t = TScalar KUint8")
  case True
  show ?thesis
  proof (cases xs)
    case None
    with True show ?thesis
      by (simp add: wire_dyn.simps dec_type.simps wire_array_def ReadByteArray_def reads bnd_Ok orfail_Ok)
  next
    case (Some ys)
    let ?bs = "map (\<lambda>x. un_Uint8 (un_Scalar x)) ys"
    have "len_ok ?bs" and sc: "list_all (is_scalar_of True KUint8) ys"
      using ok Some True by (simp_all add: ok_dyn.simps len_ok_def)
    from reads_ByteArray [OF this(1), of rest]
    have "ReadByteArray (wire_dyn reg uris (VSlice t xs) @ rest) = (Ok (Some ?bs), rest)"
      using True Some by (simp add: wire_dyn.simps wire_array_def comp_def)
    moreover have "map (\<lambda>x. VScalar (SUint8 (un_Uint8 (un_Scalar x)))) ys = ys"
      by (rule map_idI) (use sc in \<open>auto simp: list_all_iff mk_un_scalar elim!: is_scalar_of.elims\<close>)
    ultimately show ?thesis using True Some by (simp add: dec_type.simps bnd_Ok comp_def)
  qed
next
  case False
  then obtain ys where ys: "xs = Some ys" "len_ok ys" using ok by (auto simp: ok_dyn.simps split: option.splits)
  have "read_n (dec_type reg uris fuel t) (length ys) (concat (map (wire_type reg uris t) ys) @ rest) = (Ok (map id ys), rest)"
    by (rule read_n_map) (simp add: elems [OF False ys(1)])
  with False ys sint_dim [OF ys(2)] show ?thesis
    by (cases "ys = []") (simp_all add: wire_dyn.simps dec_type.simps [of _ _ _ "TSlice e" for e] wire_array_def reads bnd_Ok)
qed

theorem reads_codec:
  "ok_type True reg uris t v \<Longrightarrow> length (wire_type reg uris t v) \<le> fuel \<Longrightarrow>
     dec_type reg uris fuel t (wire_type reg uris t v @ rest) = (Ok v, rest)"
  "ok_fields True reg uris ts vs \<Longrightarrow> length (wire_fields reg uris ts vs) \<le> fuel \<Longrightarrow>
     dec_fields reg uris fuel ts (wire_fields reg uris ts vs @ rest) = (Ok vs, rest)"
  "ok_variant True reg uris v \<Longrightarrow> length (wire_variant reg uris v) \<le> fuel \<Longrightarrow>
     ReadVariant reg uris fuel (wire_variant reg uris v @ rest) = (Ok v, rest)"
  "ok_ext True reg uris v \<Longrightarrow> length (wire_ext reg uris v) \<le> fuel \<Longrightarrow>
     ReadExtensionObject reg uris fuel (wire_ext reg uris v @ rest) = (Ok v, rest)"
  "ok_dyn True reg uris v \<Longrightarrow> length (wire_dyn reg uris v) \<le> fuel \<Longrightarrow>
     dec_type reg uris fuel (the (type_of v)) (wire_dyn reg uris v @ rest) = (Ok v, rest)"
  "ok_dv True reg uris v \<Longrightarrow> length (wire_dv reg uris v) \<le> fuel \<Longrightarrow>
     ReadDataValue reg uris fuel (wire_dv reg uris v @ rest) = (Ok v, rest)"
proof (induction reg uris t v and reg uris ts vs and reg uris v and reg uris v and reg uris v and reg uris v
    arbitrary: fuel rest and fuel rest and fuel rest and fuel rest and fuel rest and fuel rest
    rule: wire_induct)
  case (1 reg uris t v)
  then show ?case
    by (auto simp: type_unfold dec_type.simps [of _ _ _ TExtensionObject] dec_type.simps [of _ _ _ TVariant]
        dec_type.simps [of _ _ _ "TPtr n ts" for n ts] bnd_Ok split: gotype.splits goval.splits option.splits)
next
  case (2 reg uris t ts v vs)
  then show ?case by (simp add: bnd_Ok)
next
  case (NoTypes reg uris vs)
  then show ?case by (cases vs) simp_all
next
  case (NoValues reg uris ts)
  then show ?case by (cases ts) simp_all
next
  case (4 reg uris v)
  have "0 < fuel" using wire_variant_pos [OF "4.prems"(1)] "4.prems"(2) by linarith
  then obtain f where f: "fuel = Suc f" by (auto simp: gr0_conv_Suc)
  show ?case
  proof (cases v)
    case (VSlice t xs)
    with "4.prems" obtain e c ys dims where plan: "slice_plan t xs = Some (e, c, ys, dims)" and sh: "shape_ok t xs"
      by (auto simp: variant_unfold split: option.splits)
    show ?thesis
      unfolding VSlice f
    proof (rule reads_variant_slice [OF plan sh])
      fix zs assume zs: "ys = Some zs"
      have len: "length (wire_elems reg uris e ys) \<le> f"
        using "4.prems"(2) VSlice f wire_variant_slice [OF plan, of reg uris] by simp
      have le: "length (g x) \<le> f" if "x \<in> set zs" "wire_elems reg uris e ys = wire_array (Some (map g zs))" for g x
        using len length_wire_array_mem [OF that(1), of g] that(2) by simp
      show "len_ok zs \<and> (\<forall>x\<in>set zs. elem_reads reg uris f e x)"
        using "4.prems"(1) VSlice plan zs le "4.IH"(4-) [OF VSlice plan refl refl refl _ zs]
        by (cases e) (simp_all add: variant_unfold list_all_iff elem_reads_def wire_elems_def)
    qed
  next
    case VNil
    then show ?thesis by (simp add: f wire_variant.simps ReadVariant.simps reads_ints bnd_Ok orfail_Ok)
  next
    case (VScalar s)
    with 4 show ?thesis by (simp add: f ok_variant.simps reads_variant_scalar)
  next
    case (VStruct n ts vs)
    with 4 f show ?thesis
      by (simp add: ok_variant.simps wire_variant.simps ReadVariant.simps variant_elem_def reads_ints bnd_Ok orfail_Ok)
  qed (use "4.prems" in \<open>simp_all add: ok_variant.simps\<close>)
next
  case (5 reg uris v)
  have "0 < fuel" using wire_ext_pos [OF "5.prems"(1)] "5.prems"(2) by linarith
  then obtain f where f: "fuel = Suc f" by (auto simp: gr0_conv_Suc)
  show ?case
  proof (cases "v = VNil")
    case True
    then show ?thesis by (simp add: f reads_ext_nil)
  next
    case False
    with "5.prems"(1) obtain n ts vs where v: "v = VStruct n ts vs"
      by (auto simp: ok_ext.simps split: goval.splits option.splits)
    then obtain i where i: "encodingIDs reg (TStruct n ts) = Some i"
      using "5.prems"(1) by (auto simp: ok_ext.simps id_ok_def split: option.splits)
    show ?thesis
      unfolding v f
    proof (rule reads_ext_struct)
      show "ok_ext True reg uris (VStruct n ts vs)" using "5.prems"(1) v by simp
      show "dec_type reg uris f (TStruct n ts) (wire_dyn reg uris (VStruct n ts vs) @ r) = (Ok (VStruct n ts vs), r)" for r
        using "5.IH" [of "TStruct n ts" i f r] "5.prems" v i f
        by (simp add: ok_ext.simps wire_ext.simps wire_ext_body_def)
    qed
  qed
next
  case (6 reg uris v)
  show ?case
  proof (cases v)
    case (VPtr n ts p)
    with 6 show ?thesis by (cases p) (auto simp: dyn_unfold dec_type.simps bnd_Ok)
  next
    case (VSlice t xs)
    have "dec_type reg uris fuel t (wire_type reg uris t y @ r) = (Ok y, r)"
      if "t \<noteq> TScalar KUint8" "xs = Some ys" "y \<in> set ys" for ys y r
      using "6.IH"(4) [OF VSlice that] "6.prems" VSlice that length_wire_array_mem [OF that(3), of "wire_type reg uris t"]
      by (simp add: dyn_unfold list_all_iff)
    with reads_dyn_slice [of reg uris t xs fuel rest] "6.prems"(1) VSlice show ?thesis by simp
  next
    case (VScalar s)
    with 6 show ?thesis by (simp add: dyn_unfold dec_type.simps reads_dec_kind bnd_Ok)
  next
    case (VDiagnosticInfo d)
    with 6 show ?thesis by (cases fuel) (simp_all add: dyn_unfold dec_type.simps reads_ints bnd_Ok orfail_Ok when_set_def)
  qed (use 6 in \<open>auto simp: dyn_unfold dec_type.simps reads_ints bnd_Ok\<close>)
next
  case (7 reg uris v)
  then obtain val st srct srcp srvt srvp where v: "v = VDataValue val st srct srcp srvt srvp"
    by (cases v) (auto simp: ok_dv.simps)
  have "ReadVariant reg uris fuel (wire_variant reg uris val @ r) = (Ok val, r)" if "val \<noteq> VNil" for r
    using 7 v that by (simp add: ok_dv.simps wire_dv.simps)
  with "7.prems"(1) v show ?case by (simp add: ok_dv.simps reads_dv)
qed

end
