(* ===== verification/Codec_Safety.thy ===== *)
theory Codec_Safety
  imports Codec_Roundtrip
begin

text \<open>
  What holds of the decoder on arbitrary input: it only consumes its input; the
  readers without recursion never panic; a fuel larger than the length of the
  input is always enough and its size does not matter; and which inputs make the
  recursive readers panic.
\<close>

named_theorems total_intros

section \<open>Readers that cannot panic\<close>

definition total_reader :: "(bytes, 'a) act \<Rightarrow> bool" where
  "total_reader m \<longleftrightarrow> consumes m \<and> (\<forall>bs. fst (m bs) \<noteq> Panic \<and> fst (m bs) \<noteq> NoFuel)"

lemma total_basic [total_intros]: "total_reader (ret x)" "total_reader (throw e)" "total_reader (ReadFull n)"
  by (simp_all add: total_reader_def)

lemma total_bnd [total_intros]:
  assumes "total_reader m" and "\<And>x. total_reader (f x)"
  shows "total_reader (bnd m f)"
proof -
  have "fst (bnd m f bs) \<noteq> Panic \<and> fst (bnd m f bs) \<noteq> NoFuel" for bs
    using assms by (cases "m bs"; cases "fst (m bs)") (auto simp: total_reader_def bnd_def split: res.splits, (metis fst_conv)+)
  with assms show ?thesis by (auto simp: total_reader_def)
qed

lemma total_orfail [total_intros]: "total_reader m \<Longrightarrow> total_reader (orfail e m)"
proof -
  assume m: "total_reader m"
  have "fst (orfail e m bs) \<noteq> Panic \<and> fst (orfail e m bs) \<noteq> NoFuel" for bs
    using m by (cases "m bs"; cases "fst (m bs)") (auto simp: total_reader_def orfail_def, (metis fst_conv)+)
  with m show ?thesis by (auto simp: total_reader_def)
qed

lemma total_if [total_intros]: "total_reader m \<Longrightarrow> total_reader n \<Longrightarrow> total_reader (if c then m else n)"
  by simp

lemma total_when_set [total_intros]: "total_reader m \<Longrightarrow> total_reader (when_set c d m)"
  by (simp add: when_set_def total_basic)

lemma total_read_n [total_intros]: "total_reader m \<Longrightarrow> total_reader (read_n m n)"
  by (induction n) (auto intro!: total_intros)

lemma total_read_array [total_intros]: "total_reader ReadInt32 \<Longrightarrow> total_reader m \<Longrightarrow> total_reader (read_array m)"
  unfolding read_array_def by (intro total_intros)

lemma total_ints [total_intros]:
  "total_reader ReadBoolean" "total_reader ReadSByte" "total_reader ReadByte" "total_reader ReadInt16"
  "total_reader ReadUInt16" "total_reader ReadInt32" "total_reader ReadUInt32" "total_reader ReadInt64"
  "total_reader ReadUInt64" "total_reader ReadFloat" "total_reader ReadDouble"
  by (simp_all add: ReadBoolean_def ReadSByte_def ReadByte_def ReadInt16_def ReadUInt16_def
      ReadInt32_def ReadUInt32_def ReadInt64_def ReadUInt64_def ReadFloat_def ReadDouble_def total_intros)

lemma total_strings [total_intros]:
  "total_reader ReadString" "total_reader ReadByteString" "total_reader ReadXMLElement"
  "total_reader ReadDateTime" "total_reader ReadGUID" "total_reader ReadStatusCode"
  unfolding ReadXMLElement_def ReadString_def ReadByteString_def ReadDateTime_def ReadGUID_def ReadStatusCode_def
  by (intro total_intros)+

lemma total_ids [total_intros]:
  "total_reader ReadNodeID" "total_reader (read_expanded_node k)" "total_reader ReadQualifiedName" "total_reader ReadLocalizedText"
  unfolding ReadNodeID_def read_expanded_node_def ReadQualifiedName_def ReadLocalizedText_def
  by (intro total_intros)+

lemma total_ExpandedNodeID [total_intros]: "total_reader ReadExpandedNodeID"
  unfolding ReadExpandedNodeID_def by (intro total_intros)

lemma total_ByteArray [total_intros]: "total_reader ReadByteArray"
  unfolding ReadByteArray_def by (intro total_intros)

lemma total_ReadVariantScalar [total_intros]: "total_reader (ReadVariantScalar k)"
  by (cases k) (simp_all add: total_intros)

lemma total_dec_kind [total_intros]: "total_reader (dec_kind k)"
  by (cases k) (simp_all add: total_intros)

lemma total_ReadScalarArray [total_intros]: "total_reader (ReadScalarArray k)"
  by (cases k) (simp_all add: read_array_defs total_intros total_ByteArray [unfolded ReadByteArray_def])

lemma total_Int32Array [total_intros]: "total_reader ReadInt32Array"
  unfolding ReadInt32Array_def by (intro total_intros)

section \<open>Enough fuel\<close>

definition fuelled :: "nat \<Rightarrow> (bytes, 'a) act \<Rightarrow> bool" where
  "fuelled n m \<longleftrightarrow> consumes m \<and> (\<forall>bs. length bs < n \<longrightarrow> fst (m bs) \<noteq> NoFuel)"

named_theorems fuel_intros

lemma fuelled_total: "total_reader m \<Longrightarrow> fuelled n m"
  by (simp add: total_reader_def fuelled_def)

lemmas fuelled_leaf [fuel_intros] = total_basic [THEN fuelled_total] total_ints [THEN fuelled_total]
  total_strings [THEN fuelled_total] total_ids [THEN fuelled_total] total_ByteArray [THEN fuelled_total]
  total_ReadVariantScalar [THEN fuelled_total] total_dec_kind [THEN fuelled_total]
  total_ReadScalarArray [THEN fuelled_total] total_Int32Array [THEN fuelled_total]

lemma fuelled_0: "consumes m \<Longrightarrow> fuelled 0 m"
  by (simp add: fuelled_def)

lemma fuelled_panic [fuel_intros]: "fuelled n panic"
  by (simp add: fuelled_def)

lemma fuelled_bnd [fuel_intros]:
  assumes m: "fuelled n m" and f: "\<And>x. fuelled n (f x)"
  shows "fuelled n (bnd m f)"
proof -
  have "fst (bnd m f bs) \<noteq> NoFuel" if len: "length bs < n" for bs
  proof (cases "m bs")
    case (Pair r bs')
    have "suffix bs' bs" using m Pair consumesD [of m bs] by (simp add: fuelled_def)
    then have "length bs' < n" using len suffix_length_le [of bs' bs] by simp
    with f have "fst (f x bs') \<noteq> NoFuel" for x by (simp add: fuelled_def)
    moreover have "r \<noteq> NoFuel" using m len Pair by (auto simp: fuelled_def)
    ultimately show ?thesis using Pair by (cases r) (simp_all add: bnd_def)
  qed
  with m f show ?thesis by (auto simp: fuelled_def)
qed

lemma fst_orfail_NoFuel: "fst (orfail e m bs) = NoFuel \<longleftrightarrow> fst (m bs) = NoFuel"
  by (auto simp: orfail_def split: prod.splits res.splits)

lemma fuelled_orfail [fuel_intros]: "fuelled n m \<Longrightarrow> fuelled n (orfail e m)"
  by (auto simp: fuelled_def fst_orfail_NoFuel)

lemma fuelled_when_set [fuel_intros]: "fuelled n m \<Longrightarrow> fuelled n (when_set c d m)"
  by (simp add: when_set_def fuelled_leaf)

lemma fuelled_read_n [fuel_intros]: "fuelled n m \<Longrightarrow> fuelled n (read_n m k)"
  by (induction k) (auto intro!: fuel_intros)

lemma fuelled_if [fuel_intros]: "fuelled n m \<Longrightarrow> fuelled n m' \<Longrightarrow> fuelled n (if c then m else m')"
  by simp

lemma fuelled_read_array [fuel_intros]: "fuelled n m \<Longrightarrow> fuelled n (read_array m)"
  unfolding read_array_def by (intro fuel_intros)

lemma fuelled_variant_or_status [fuel_intros]: "fuelled n m \<Longrightarrow> fuelled n (variant_or_status m)"
  by (auto simp: fuelled_def consumes_def variant_or_status_def split: prod.splits res.splits)
     (metis fst_conv snd_conv)+

lemma fuelled_store_nil [fuel_intros]: "fuelled n m \<Longrightarrow> fuelled n (store_nil m)"
  unfolding store_nil_def by (intro fuel_intros)

lemma fuelled_byte:
  assumes "\<And>b. fuelled n (f b)"
  shows "fuelled (Suc n) (bnd (dec_try ReadByte) f)"
proof -
  have "consumes (bnd (dec_try ReadByte) f)"
    using assms total_ints(3) by (auto simp: fuelled_def total_reader_def)
  moreover have "fst (bnd (dec_try ReadByte) f bs) \<noteq> NoFuel" if "length bs < Suc n" for bs
    using that assms
    by (cases bs) (simp_all add: ReadByte_def ReadFull_def bnd_def orfail_def fuelled_def)
  ultimately show ?thesis by (simp add: fuelled_def)
qed

lemma fuelled_DiagnosticInfo [fuel_intros]: "fuelled n (ReadDiagnosticInfo n)"
proof (induction n)
  case 0
  show ?case by (simp add: fuelled_0 del: nofuel_apply)
next
  case (Suc n)
  then show ?case
    unfolding ReadDiagnosticInfo.simps
    by (intro fuelled_byte fuel_intros)
qed

lemma fuelled_split_dims [fuel_intros]: "fuelled n (split_dims e xs d)"
  by (auto simp: split_dims_def Let_def simp del: ret_apply throw_apply panic_apply intro!: fuel_intros split: option.splits list.splits)

lemma fuelled_DataValue [fuel_intros]:
  "fuelled n (ReadVariant reg uris n) \<Longrightarrow> fuelled n (ReadDataValue reg uris n)"
  unfolding ReadDataValue.simps by (intro fuel_intros)

lemma fuelled_dec_type:
  assumes "fuelled n (ReadVariant reg uris n)" and "fuelled n (ReadExtensionObject reg uris n)"
  shows "fuelled n (dec_type reg uris n t)" and "fuelled n (dec_fields reg uris n ts)"
proof (induction t and ts rule: codec_for_codec_for_fields.induct)
qed (use assms in \<open>auto simp: dec_type.simps simp del: ret_apply intro!: fuel_intros\<close>)

lemma fuelled_elem_array:
  assumes "fuelled n (ReadVariant reg uris n)" and "fuelled n (ReadExtensionObject reg uris n)"
  shows "fuelled n (read_elem_array reg uris n e)"
  using assms by (cases e) (auto simp: read_elem_array.simps intro!: fuel_intros)

theorem fuelled_decoder:
  "fuelled n (ReadVariant reg uris n) \<and> fuelled n (ReadExtensionObject reg uris n)"
proof (induction n)
  case 0
  show ?case by (simp add: fuelled_0 del: nofuel_apply)
next
  case (Suc n)
  note ih = fuelled_DataValue fuelled_dec_type fuelled_elem_array Suc [THEN conjunct1] Suc [THEN conjunct2]
  have "fuelled (Suc n) (ReadVariant reg uris (Suc n))"
    unfolding ReadVariant.simps
    by (rule fuelled_byte)
       (auto intro!: fuel_intros ih split: option.splits gotype.splits)
  moreover have "fuelled (Suc n) (ReadExtensionObject reg uris (Suc n))"
    unfolding ReadExtensionObject.simps
    by (intro fuelled_bnd fuelled_byte)
       (auto intro!: fuel_intros ih split: option.splits)
  ultimately show ?case ..
qed


section \<open>More fuel changes nothing\<close>

definition le_act :: "('s, 'a) act \<Rightarrow> ('s, 'a) act \<Rightarrow> bool" where
  "le_act m m' \<longleftrightarrow> (\<forall>s. fst (m s) \<noteq> NoFuel \<longrightarrow> m' s = m s)"

named_theorems mono_intros

lemma le_act_refl: "le_act m m"
  by (simp add: le_act_def)

lemma le_act_bnd [mono_intros]:
  assumes "le_act m m'" and "\<And>x. le_act (f x) (f' x)"
  shows "le_act (bnd m f) (bnd m' f')"
  unfolding le_act_def
proof (intro allI impI)
  fix s assume nf: "fst (bnd m f s) \<noteq> NoFuel"
  obtain r s' where m: "m s = (r, s')" by (cases "m s")
  from nf m have "r \<noteq> NoFuel" by (auto simp: bnd_def)
  then have m': "m' s = (r, s')" using assms(1) m by (auto simp: le_act_def)
  show "bnd m' f' s = bnd m f s"
    using nf m m' assms(2) by (cases r) (auto simp: bnd_def le_act_def)
qed

lemma le_act_orfail [mono_intros]: "le_act m m' \<Longrightarrow> le_act (orfail e m) (orfail e m')"
  by (auto simp: le_act_def fst_orfail_NoFuel) (simp add: orfail_def)

lemma le_act_if [mono_intros]: "le_act m m' \<Longrightarrow> le_act n n' \<Longrightarrow> le_act (if c then m else n) (if c then m' else n')"
  by simp

lemma le_act_when_set [mono_intros]: "le_act m m' \<Longrightarrow> le_act (when_set c d m) (when_set c d m')"
  by (simp add: when_set_def le_act_refl)

lemma le_act_read_n [mono_intros]: "le_act m m' \<Longrightarrow> le_act (read_n m k) (read_n m' k)"
  by (induction k) (auto intro!: mono_intros le_act_refl)

lemma le_act_read_array [mono_intros]: "le_act m m' \<Longrightarrow> le_act (read_array m) (read_array m')"
  unfolding read_array_def by (intro mono_intros le_act_refl)

lemma le_act_variant_or_status [mono_intros]:
  assumes "le_act m m'"
  shows "le_act (variant_or_status m) (variant_or_status m')"
  unfolding le_act_def
proof (intro allI impI)
  fix s assume "fst (variant_or_status m s) \<noteq> NoFuel"
  then have "fst (m s) \<noteq> NoFuel" by (auto simp: variant_or_status_def split: prod.splits res.splits)
  with assms have "m' s = m s" by (simp add: le_act_def)
  then show "variant_or_status m' s = variant_or_status m s" by (simp add: variant_or_status_def)
qed

lemma le_act_store_nil [mono_intros]: "le_act m m' \<Longrightarrow> le_act (store_nil m) (store_nil m')"
  unfolding store_nil_def by (intro mono_intros le_act_refl)

lemma le_act_nofuel: "le_act nofuel m"
  by (simp add: le_act_def)

lemma mono_DiagnosticInfo [mono_intros]: "n \<le> k \<Longrightarrow> le_act (ReadDiagnosticInfo n) (ReadDiagnosticInfo k)"
proof (induction n arbitrary: k)
  case 0
  show ?case unfolding ReadDiagnosticInfo.simps by (rule le_act_nofuel)
next
  case (Suc n)
  then obtain j where j: "k = Suc j" "n \<le> j" by (cases k) auto
  show ?case
    unfolding j(1) ReadDiagnosticInfo.simps by (intro mono_intros le_act_refl Suc.IH j(2))
qed

lemma mono_DataValue:
  "le_act (ReadVariant reg uris n) (ReadVariant reg uris k) \<Longrightarrow> le_act (ReadDataValue reg uris n) (ReadDataValue reg uris k)"
  unfolding ReadDataValue.simps by (intro mono_intros le_act_refl)

lemma mono_dec_type:
  assumes "n \<le> k" and v: "le_act (ReadVariant reg uris n) (ReadVariant reg uris k)"
    and x: "le_act (ReadExtensionObject reg uris n) (ReadExtensionObject reg uris k)"
  shows "le_act (dec_type reg uris n t) (dec_type reg uris k t)"
    and "le_act (dec_fields reg uris n ts) (dec_fields reg uris k ts)"
proof (induction t and ts rule: codec_for_codec_for_fields.induct)
qed (use assms in \<open>simp_all add: dec_type.simps le_act_refl v x mono_intros mono_DataValue [OF v] del: ret_apply\<close>)

lemma mono_elem_array:
  assumes "n \<le> k" and v: "le_act (ReadVariant reg uris n) (ReadVariant reg uris k)"
    and x: "le_act (ReadExtensionObject reg uris n) (ReadExtensionObject reg uris k)"
  shows "le_act (read_elem_array reg uris n e) (read_elem_array reg uris k e)"
  using assms by (cases e) (simp_all add: read_elem_array.simps le_act_refl v x mono_intros mono_DataValue [OF v] del: ret_apply)

theorem mono_decoder:
  "n \<le> k \<Longrightarrow> le_act (ReadVariant reg uris n) (ReadVariant reg uris k)
     \<and> le_act (ReadExtensionObject reg uris n) (ReadExtensionObject reg uris k)"
proof (induction n arbitrary: k)
  case 0
  show ?case unfolding ReadVariant.simps ReadExtensionObject.simps by (simp add: le_act_nofuel del: nofuel_apply)
next
  case (Suc n)
  then obtain j where j: "k = Suc j" "n \<le> j" by (cases k) auto
  note v = Suc.IH [OF j(2), THEN conjunct1] and x = Suc.IH [OF j(2), THEN conjunct2]
  note ih = v x mono_DataValue [OF v] mono_dec_type [OF j(2) v x] mono_elem_array [OF j(2) v x] mono_DiagnosticInfo [OF j(2)]
  have "le_act (ReadVariant reg uris (Suc n)) (ReadVariant reg uris (Suc j))"
    unfolding ReadVariant.simps
    by (intro le_act_bnd le_act_orfail le_act_refl)
       (auto intro!: mono_intros ih simp: le_act_refl simp del: ret_apply throw_apply split: option.splits gotype.splits)
  moreover have "le_act (ReadExtensionObject reg uris (Suc n)) (ReadExtensionObject reg uris (Suc j))"
    unfolding ReadExtensionObject.simps
    by (intro le_act_bnd le_act_orfail le_act_refl)
       (auto intro!: mono_intros ih simp: le_act_refl simp del: ret_apply throw_apply split: option.splits)
  ultimately show ?case using j by simp
qed

lemma fuelled_Decode: "fuelled n (Decode reg uris n t)"
  using fuelled_dec_type(1) fuelled_decoder by (simp add: Decode_def fuelled_leaf del: throw_apply)

lemma mono_Decode: "n \<le> k \<Longrightarrow> le_act (Decode reg uris n t) (Decode reg uris k t)"
  using mono_dec_type(1) mono_decoder by (simp add: Decode_def le_act_refl)

lemma Decode_fuel_irrelevant:
  assumes "length bs < n" and "length bs < k"
  shows "Decode reg uris n t bs = Decode reg uris k t bs"
proof -
  have "fst (Decode reg uris (Suc (length bs)) t bs) \<noteq> NoFuel"
    using fuelled_Decode [of "Suc (length bs)" reg uris t] by (simp add: fuelled_def)
  with mono_Decode [of "Suc (length bs)" n reg uris t] mono_Decode [of "Suc (length bs)" k reg uris t] assms
  show ?thesis by (simp add: le_act_def)
qed

section \<open>Inputs that make the decoder panic\<close>

text \<open>A diagnostic info with any announced field is never decoded.\<close>

lemma store_nil_not_Ok: "fst (store_nil m bs) \<noteq> Ok x"
  by (auto simp: store_nil_def bnd_def split: prod.splits res.splits)

lemma when_store_nil_Ok: "when_set c () (store_nil m) bs = (Ok u, bs') \<Longrightarrow> \<not> c \<and> bs' = bs"
  using store_nil_not_Ok [of m bs u] by (auto simp: when_set_def split: if_splits)

lemma ReadDiagnosticInfo_Ok:
  assumes "ReadDiagnosticInfo fuel (b # bs) = (Ok d, bs')"
  shows "b AND 0x7F = 0 \<and> bs' = bs \<and> d = DiagnosticInfo None None None None None None None"
proof -
  obtain f where "fuel = Suc f" using assms by (cases fuel) auto
  with assms have bits: "\<not> (b AND 1 \<noteq> 0)" "\<not> (b AND 2 \<noteq> 0)" "\<not> (b AND 8 \<noteq> 0)" "\<not> (b AND 4 \<noteq> 0)"
      "\<not> (b AND 16 \<noteq> 0)" "\<not> (b AND 32 \<noteq> 0)" "\<not> (b AND 64 \<noteq> 0)"
    and res: "bs' = bs" "d = DiagnosticInfo None None None None None None None"
    by (auto simp only: ReadDiagnosticInfo.simps bnd_eq_Ok_conv orfail_eq_Ok_conv reads_ints(3) prod.inject res.inject ret_apply
        dest!: when_store_nil_Ok)
  have "b AND 0x7F = (b AND 1) OR (b AND 2) OR (b AND 8) OR (b AND 4) OR (b AND 16) OR (b AND 32) OR (b AND 64)"
    by (simp flip: bit.conj_disj_distrib)
  with bits res show ?thesis by simp
qed

text \<open>
  The sizes of a multi-dimensional array come from the wire and are not checked
  against the number of elements read.
\<close>

lemma take_rows_None_iff:
  "take_rows n d vals = None \<longleftrightarrow> 0 < n \<and> (d < 0 \<or> int (length vals) < int n * d)"
proof (induction n arbitrary: vals)
  case (Suc n)
  show ?case
  proof (cases "d < 0 \<or> int (length vals) < d")
    case True
    have "int (length vals) < int (Suc n) * d" if "int (length vals) < d"
    proof -
      have "0 \<le> int n * d" using that by simp
      with that show ?thesis unfolding of_nat_Suc distrib_right by linarith
    qed
    with True show ?thesis by (cases "d < 0") auto
  next
    case False
    then have "int (length (drop (nat d) vals)) = int (length vals) - d" unfolding length_drop by linarith
    with False Suc.IH [of "drop (nat d) vals"] show ?thesis
      by (cases "n = 0") (auto simp: distrib_right split: option.splits)
  qed
qed simp

lemma split2D_None_iff:
  "split2D e d0 d1 vals = None \<longleftrightarrow> d0 < 0 \<or> 0 < d0 \<and> (d1 < 0 \<or> int (length vals) < d0 * d1)"
  by (auto simp: split2D_def take_rows_None_iff)

end
