(* ===== verification/Examples.thy ===== *)
theory Examples
  imports Subscription Codec_Safety
begin

text \<open>
  Concrete values at which the properties are applied: a registry with one
  registered structure, a value of it that nests a node id, a two-dimensional array
  and extension objects, and small sessions, items and subscriptions.
\<close>

section \<open>Encoded values\<close>

definition demoType :: gotype where
  "demoType = TStruct ''ua.ViewDescription'' [TScalar KNodeID, TVariant, TSlice TExtensionObject]"
definition demoID :: ExpandedNodeID where
  "demoID = NewExpandedNodeID (Some (NodeIDNumeric 0 513))"
definition demoRegistry :: registry where
  "demoRegistry = snd (RegisterBinaryEncodingID demoType demoID emptyRegistry)"
definition demoVal :: goval where
  "demoVal = VStruct ''ua.ViewDescription'' [TScalar KNodeID, TVariant, TSlice TExtensionObject]
     [VScalar (SNodeID (Some (NodeIDString 2 ''Demo''))),
      VSlice (TSlice (TScalar KInt32)) (Some [VSlice (TScalar KInt32) (Some [VScalar (SInt32 1), VScalar (SInt32 2)]),
         VSlice (TScalar KInt32) (Some [VScalar (SInt32 3), VScalar (SInt32 4)])]),
      VSlice TExtensionObject (Some [VNil, VStruct ''ua.ViewDescription'' [TScalar KNodeID, TVariant, TSlice TExtensionObject]
         [VScalar (SNodeID None), VScalar (SString ''x''), VSlice TExtensionObject (Some [])]])]"

lemmas ok_unfold = ok_type.simps ok_variant.simps ok_ext.simps ok_dyn.simps ok_dv.simps
lemmas wire_unfold = wire_type.simps wire_variant.simps wire_ext.simps wire_dyn.simps wire_dv.simps
lemmas demo_defs = demoVal_def demoType_def demoID_def

lemma demo_reg: "demoRegistry = \<lparr>encodingTypes = [demoID \<mapsto> demoType], encodingIDs = [demoType \<mapsto> demoID]\<rparr>"
  by (simp add: demoRegistry_def emptyRegistry_def RegisterBinaryEncodingID_def)

lemmas demo_simps = Let_def flatten2D_def dims2D_def len_ok_def shape_ok_def rect2_def row_ok_def ToExpandedNodeID_def
  pool_size_def wire_defs wire_variant_scalar_def wire_array_def wire_NodeID_def norm_NodeID_def demo_reg demo_defs
  ok_unfold wire_unfold wire_ext_body_def slice_plan_def id_ok_def ToNodeID_def NewExpandedNodeID_def

lemma demo_ok: "ok_dyn True demoRegistry [] demoVal"
  by (simp add: demo_simps)

lemma demo_length: "length (wire_dyn demoRegistry [] demoVal) = 72"
  by (simp add: demo_simps)

lemma demo_type: "type_of demoVal = Some demoType" "codec_for demoType" "elem_type demoType = demoType"
  by (simp_all add: demo_defs)

section \<open>Text of a GUID\<close>

text \<open>One printable form per GUID, with its parser: the sixteen bytes as characters.\<close>

fun raw_show :: "UUID \<Rightarrow> string" where
  "raw_show (UUID a b c d e f g h i j k l m n p q) = map (\<lambda>x. char_of (unat x)) [a, b, c, d, e, f, g, h, i, j, k, l, m, n, p, q]"

fun raw_parse :: "string \<Rightarrow> UUID option" where
  "raw_parse [a, b, c, d, e, f, g, h, i, j, k, l, m, n, p, q] =
     (let w = (\<lambda>x. word_of_nat (of_char x) :: byte)
      in Some (UUID (w a) (w b) (w c) (w d) (w e) (w f) (w g) (w h) (w i) (w j) (w k) (w l) (w m) (w n) (w p) (w q)))"
| "raw_parse _ = None"

lemma byte_mod [simp]: "word_of_nat (unat x mod 256) = (x :: byte)"
proof -
  have "unat x < 256" using unsigned_less [of x, where 'a = nat] by simp
  then show ?thesis by simp
qed

lemma raw_parse_show [simp]: "raw_parse (raw_show u) = Some u"
  by (cases u) (simp add: Let_def)

section \<open>Sessions, items, subscriptions\<close>

definition wr0 :: ch_write where "wr0 c r m = None"

definition t0 :: gotime where "t0 = zeroTime"

definition req0 :: "u32 \<Rightarrow> PublishRequest" where
  "req0 h = \<lparr>pr_RequestHandle = h, pr_Timestamp = t0, pr_TimeoutHint = 0, pr_SubscriptionAcknowledgements = []\<rparr>"

definition pub0 :: "u32 \<Rightarrow> publishOp" where
  "pub0 h = \<lparr>op_ch = 1, op_requestId = h, op_req = req0 h, op_results = []\<rparr>"

definition sess0 :: "nat Session" where
  "sess0 = NewSession 0 None ''s'' None [] (Fin 1000) [] 2"

definition val0 :: DataValue where
  "val0 = \<lparr>Value = VScalar (SInt32 5), StatusCode_of = 0, SourceTimestamp = t0, SourcePicoseconds = 0,
     ServerTimestamp = t0, ServerPicoseconds = 0\<rparr>"

definition value0 :: ReadValueID where
  "value0 = \<lparr>rv_NodeID = Some (NodeIDNumeric 1 7), rv_AttributeID = 13, rv_IndexRange = [], rv_DataEncoding = \<lparr>qn_NamespaceIndex = 0, qn_Name = []\<rparr>\<rparr>"

definition params0 :: MonitoringParameters where
  "params0 = \<lparr>mp_ClientHandle = 7, mp_SamplingInterval = Fin 100, mp_Filter = NilFilter, mp_QueueSize = 2, mp_DiscardOldest = True\<rparr>"

definition item0 :: DataChangeMonitoredItem where
  "item0 = NewDataChangeMonitoredItem 0 val0 (Fin 500) None 1 value0 Reporting params0 TimestampsBoth (Fin 0)"

definition env0 :: env where
  "env0 = \<lparr>env_write = wr0, env_read = (\<lambda>_. val0), env_shared = (\<lambda>_ _. False)\<rparr>"

definition sub0 :: Subscription where
  "sub0 = startPublishing (NewSubscription 0 None 1 (Fin 500) 1000 10 0 True 0)"

text \<open>A subscription with an event to send, and a session with a publish request.\<close>

definition now0 :: instant where "now0 = instant_of t0"

definition sess1 :: "nat Session" where
  "sess1 = sess0\<lparr>publishRequests := Some [pub0 1]\<rparr>"

definition event0 :: EventMonitoredItem where
  "event0 = fst (Event_enqueue [VScalar (SInt32 9)] (NewEventMonitoredItem 5 value0 Reporting params0))"

definition sub1 :: Subscription where
  "sub1 = sub0\<lparr>sub_items := Some [(5, EventItem event0)]\<rparr>"

definition msg0 :: "u32 \<Rightarrow> NotificationMessage" where
  "msg0 n = \<lparr>nm_SequenceNumber = n, nm_PublishTime = 0, nm_NotificationData = []\<rparr>"

lemma sub0_fields:
  "sub_items sub0 = Some []" "retransmissionQueue sub0 = Some []" "nextSequenceNumber sub0 = 1"
  "publishingEnabled sub0" "hasSession sub0" "maxNotificationsPerPublish sub0 = 0x7FFFFFFF" "resend sub0 = False"
  "monitoredItemCount sub0 = 0" "disabledMonitoredItemCount sub0 = 0"
  by (simp_all add: hasSession_def sub0_def startPublishing_def NewSubscription_def setMaxNotificationsPerPublish_def setLifetimeCount_def
    setMaxKeepAliveCount_def setPublishingInterval_def Let_def)

lemma event0_fields:
  "ev_monitoringMode event0 = Reporting" "ev_queue event0 = [[VScalar (SInt32 9)]]" "ev_id event0 = 5"
  by (simp_all add: event0_def Event_enqueue_def NewEventMonitoredItem_def params0_def Event_setQueueSize_def
    Event_setSamplingInterval_def Event_setFilter_def push_bounded_def clampQueueSize_def maxQueueSize_def Let_def pop_front_to_eq pop_front_below_eq)

lemmas cycle_simps = publish_def publish_available_def publish_data_def removePublishRequest_def
  sub1_def sub0_fields event0_fields sess1_def sess0_def NewSession_def pub0_def req0_def env0_def wr0_def now0_def op_expired_def
  Event_notificationsAvailable_def Event_notifications_def items_of_def numbers_def seq_inv_def young_def queue_inv_def
  push_retransmission_def maxRetransmissionQueueLength_def Let_def

end
