(* ===== verification/Managers.thy ===== *)
theory Managers
  imports Subscription
begin

text \<open>
  The tables of the server: \<open>server/session_manager.go\<close> and
  \<open>server/subscription_manager.go\<close>. Sessions are objects that the table of tokens, the
  subscriptions and the handlers share, so they live in a store by address; a
  subscription is reached through the table of ids only. The nodes that show the
  diagnostics in the address space are not part of the model, their counters are.
\<close>

section \<open>State\<close>

record 'rd Server =
  sv_sessions :: "(nat \<times> 'rd Session) list"
  sessionsByToken :: "(NodeID option \<times> nat) list"
  maxSessionCount :: int
  subscriptionsByID :: "(u32 \<times> Subscription) list"
  maxSubscriptionCount :: int
  subscriptionID :: u32
  serverDiagnostics :: bool
  MaxMonitoredItemsPerCall :: u32
  CumulatedSessionCount :: u32
  CurrentSessionCount :: u32
  SessionTimeoutCount :: u32
  CumulatedSubscriptionCount :: u32
  CurrentSubscriptionCount :: u32
  RejectedRequestsCount :: u32
  SecurityRejectedRequestsCount :: u32

definition session_at :: "'rd Server \<Rightarrow> nat \<Rightarrow> 'rd Session option" where
  "session_at srv a = map_of (sv_sessions srv) a"

definition put_session :: "nat \<Rightarrow> 'rd Session \<Rightarrow> 'rd Server \<Rightarrow> 'rd Server" where
  "put_session a s srv = srv\<lparr>sv_sessions := AList.update a s (sv_sessions srv)\<rparr>"

definition on_session :: "nat \<Rightarrow> ('rd Session \<Rightarrow> 'rd Session) \<Rightarrow> 'rd Server \<Rightarrow> 'rd Server" where
  "on_session a f srv = (case session_at srv a of None \<Rightarrow> srv | Some s \<Rightarrow> put_session a (f s) srv)"

section \<open>Sessions\<close>

definition SessionManager_Get :: "instant \<Rightarrow> NodeID option \<Rightarrow> 'rd Server \<Rightarrow> nat option \<times> 'rd Server" where
  "SessionManager_Get now token srv = (case map_of (sessionsByToken srv) token of
       None \<Rightarrow> (None, srv)
     | Some a \<Rightarrow> (case session_at srv a of
           None \<Rightarrow> (None, srv)
         | Some s \<Rightarrow> if \<not> Session_IsExpired now s then (Some a, put_session a (SetLastAccess now s) srv) else (None, srv)))"

definition SessionManager_Add :: "nat \<Rightarrow> NodeID option \<Rightarrow> 'rd Server \<Rightarrow> goerr option \<times> 'rd Server" where
  "SessionManager_Add a token srv =
     (if maxSessionCount srv > 0 \<and> int (length (sessionsByToken srv)) \<ge> maxSessionCount srv
      then (Some (Status BadTooManySessions), srv)
      else let srv1 = srv\<lparr>sessionsByToken := AList.update token a (sessionsByToken srv)\<rparr> in
        (None, if serverDiagnostics srv
               then srv1\<lparr>CumulatedSessionCount := CumulatedSessionCount srv1 + 1,
                         CurrentSessionCount := word_of_nat (length (sessionsByToken srv1))\<rparr>
               else srv1))"

text \<open>The entry is removed under the token the session has now; \<open>s.delete()\<close> then clears it.\<close>

definition drop_token :: "NodeID option \<Rightarrow> 'rd Server \<Rightarrow> 'rd Server" where
  "drop_token token srv =
     (let srv1 = srv\<lparr>sessionsByToken := AList.delete token (sessionsByToken srv)\<rparr>
      in if serverDiagnostics srv then srv1\<lparr>CurrentSessionCount := word_of_nat (length (sessionsByToken srv1))\<rparr> else srv1)"

definition SessionManager_Delete :: "nat \<Rightarrow> 'rd Server \<Rightarrow> 'rd Server" where
  "SessionManager_Delete a srv = (case session_at srv a of
       None \<Rightarrow> srv
     | Some s \<Rightarrow> on_session a Session_delete (drop_token (authenticationToken s) srv))"

definition SessionManager_Len :: "'rd Server \<Rightarrow> nat" where
  "SessionManager_Len srv = length (sessionsByToken srv)"

fun expire_sessions :: "instant \<Rightarrow> (NodeID option \<times> nat) list \<Rightarrow> 'rd Server \<Rightarrow> 'rd Server" where
  "expire_sessions now [] srv = srv"
| "expire_sessions now ((k, a) # es) srv = expire_sessions now es (case session_at srv a of
       None \<Rightarrow> srv
     | Some s \<Rightarrow> if Session_IsExpired now s
         then on_session a Session_delete
           (let srv1 = drop_token k srv
            in if serverDiagnostics srv then srv1\<lparr>SessionTimeoutCount := SessionTimeoutCount srv1 + 1\<rparr> else srv1)
         else srv)"

definition checkForExpiredSessions :: "instant \<Rightarrow> 'rd Server \<Rightarrow> 'rd Server" where
  "checkForExpiredSessions now srv = expire_sessions now (sessionsByToken srv) srv"

section \<open>Subscriptions\<close>

definition SubscriptionManager_Get :: "u32 \<Rightarrow> 'rd Server \<Rightarrow> Subscription option" where
  "SubscriptionManager_Get i srv = map_of (subscriptionsByID srv) i"

definition put_sub :: "Subscription \<Rightarrow> 'rd Server \<Rightarrow> 'rd Server" where
  "put_sub s srv = srv\<lparr>subscriptionsByID := AList.update (sub_id s) s (subscriptionsByID srv)\<rparr>"

definition SubscriptionManager_Add :: "Subscription \<Rightarrow> 'rd Server \<Rightarrow> goerr option \<times> 'rd Server" where
  "SubscriptionManager_Add s srv =
     (if maxSubscriptionCount srv > 0 \<and> int (length (subscriptionsByID srv)) \<ge> maxSubscriptionCount srv
      then (Some (Status BadTooManySubscriptions), srv)
      else let srv1 = put_sub s srv in
        (None, if serverDiagnostics srv
               then srv1\<lparr>CumulatedSubscriptionCount := CumulatedSubscriptionCount srv1 + 1,
                         CurrentSubscriptionCount := word_of_nat (length (subscriptionsByID srv1))\<rparr>
               else srv1))"

definition SubscriptionManager_Delete :: "u32 \<Rightarrow> 'rd Server \<Rightarrow> 'rd Server" where
  "SubscriptionManager_Delete i srv =
     (let srv1 = srv\<lparr>subscriptionsByID := AList.delete i (subscriptionsByID srv)\<rparr>
      in if serverDiagnostics srv
         then srv1\<lparr>CurrentSubscriptionCount := word_of_nat (length (subscriptionsByID srv1))\<rparr> else srv1)"

definition SubscriptionManager_Len :: "'rd Server \<Rightarrow> nat" where
  "SubscriptionManager_Len srv = length (subscriptionsByID srv)"

text \<open>Go visits the map in an order of its own: \<open>ord\<close> lists the ids as visited.\<close>

definition GetBySession :: "u32 list \<Rightarrow> nat \<Rightarrow> 'rd Server \<Rightarrow> Subscription list" where
  "GetBySession ord a srv =
     filter (\<lambda>s. sub_session s = Some a) (List.map_filter (\<lambda>i. SubscriptionManager_Get i srv) ord)"

text \<open>An expired subscription is taken from the table and deleted; the deletion panics when it does not publish.\<close>

fun expire_subs :: "(u32 \<times> Subscription) list \<Rightarrow> 'rd Server \<Rightarrow> unit res \<times> 'rd Server" where
  "expire_subs [] srv = (Ok (), srv)"
| "expire_subs ((k, s) # es) srv =
     (if Subscription_IsExpired s then
        (case deleteImpl s of
           (Ok _, _) \<Rightarrow> expire_subs es (SubscriptionManager_Delete k srv)
         | (r, _) \<Rightarrow> (r, SubscriptionManager_Delete k srv))
      else expire_subs es srv)"

definition checkForExpiredSubscriptions :: "('rd Server, unit) act" where
  "checkForExpiredSubscriptions = (\<lambda>srv. expire_subs (subscriptionsByID srv) srv)"

fun stop_all :: "(u32 \<times> Subscription) list \<Rightarrow> ('rd Server, unit) act" where
  "stop_all [] srv = (Ok (), srv)"
| "stop_all ((k, s) # es) srv = (case stopPublishing s of
       (Ok _, s') \<Rightarrow> stop_all es (put_sub s' srv)
     | (r, _) \<Rightarrow> (r, srv))"

definition stopPublishingAllSubscriptions :: "('rd Server, unit) act" where
  "stopPublishingAllSubscriptions = (\<lambda>srv. stop_all (subscriptionsByID srv) srv)"

section \<open>A table with a limit\<close>

text \<open>
  What the server relies on of either table: a lookup after an insertion or a
  deletion, the number of entries, and that a full table refuses an insertion.
\<close>

datatype ('e, 'k) table_op = AddOp 'e | DelOp 'k

fun run_table :: "('e \<Rightarrow> 't \<Rightarrow> goerr option \<times> 't) \<Rightarrow> ('k \<Rightarrow> 't \<Rightarrow> 't) \<Rightarrow> ('e, 'k) table_op list \<Rightarrow> 't \<Rightarrow> 't" where
  "run_table add del [] t = t"
| "run_table add del (AddOp e # ops) t = run_table add del ops (snd (add e t))"
| "run_table add del (DelOp k # ops) t = run_table add del ops (del k t)"

text \<open>The specification: a finite map that ignores insertions while it is full.\<close>

fun table_spec :: "('e \<Rightarrow> 'k) \<Rightarrow> ('e \<Rightarrow> 'v) \<Rightarrow> int \<Rightarrow> ('e, 'k) table_op list \<Rightarrow> ('k \<Rightarrow> 'v option) \<Rightarrow> 'k \<Rightarrow> 'v option" where
  "table_spec key val mx [] m = m"
| "table_spec key val mx (AddOp e # ops) m =
     table_spec key val mx ops (if 0 < mx \<and> mx \<le> int (card (dom m)) then m else m(key e \<mapsto> val e))"
| "table_spec key val mx (DelOp k # ops) m = table_spec key val mx ops (m(k := None))"

locale limited_table =
  fixes look :: "'t \<Rightarrow> 'k \<Rightarrow> 'v option"
    and key :: "'e \<Rightarrow> 'k"
    and val :: "'e \<Rightarrow> 'v"
    and add :: "'e \<Rightarrow> 't \<Rightarrow> goerr option \<times> 't"
    and del :: "'k \<Rightarrow> 't \<Rightarrow> 't"
    and count :: "'t \<Rightarrow> nat"
    and maxc :: "'t \<Rightarrow> int"
    and tinv :: "'t \<Rightarrow> bool"
    and full :: goerr
  assumes count_law: "tinv t \<Longrightarrow> count t = card (dom (look t)) \<and> finite (dom (look t))"
    and add_full: "0 < maxc t \<Longrightarrow> maxc t \<le> int (count t) \<Longrightarrow> add e t = (Some full, t)"
    and add_room: "\<not> (0 < maxc t \<and> maxc t \<le> int (count t)) \<Longrightarrow> tinv t \<Longrightarrow>
      \<exists>t'. add e t = (None, t') \<and> tinv t' \<and> look t' = (look t)(key e \<mapsto> val e) \<and> maxc t' = maxc t"
    and del_law: "tinv t \<Longrightarrow> tinv (del k t) \<and> look (del k t) = (look t)(k := None) \<and> maxc (del k t) = maxc t"
begin

lemma add_spec:
  assumes "tinv t"
  shows "tinv (snd (add e t)) \<and> maxc (snd (add e t)) = maxc t
    \<and> look (snd (add e t)) = (if 0 < maxc t \<and> maxc t \<le> int (card (dom (look t))) then look t else (look t)(key e \<mapsto> val e))"
  using count_law [OF assms] add_full [of t e] add_room [of t e] assms by (metis snd_conv)

lemma run_refines:
  "tinv t \<Longrightarrow> tinv (run_table add del ops t) \<and> maxc (run_table add del ops t) = maxc t
     \<and> look (run_table add del ops t) = table_spec key val (maxc t) ops (look t)"
proof (induction ops arbitrary: t)
  case (Cons op ops)
  show ?case
  proof (cases op)
    case (AddOp e)
    with Cons.IH [of "snd (add e t)"] add_spec [OF Cons.prems, of e] show ?thesis by simp
  next
    case (DelOp k)
    with Cons.IH [of "del k t"] del_law [OF Cons.prems, of k] show ?thesis by (simp add: fun_upd_def)
  qed
qed simp

definition bounded :: "'t \<Rightarrow> bool" where
  "bounded t \<longleftrightarrow> tinv t \<and> (0 < maxc t \<longrightarrow> int (count t) \<le> maxc t)"

lemma bounded_add:
  assumes "bounded t"
  shows "bounded (snd (add e t))"
proof (cases "0 < maxc t \<and> maxc t \<le> int (count t)")
  case True
  with assms show ?thesis by (simp add: add_full)
next
  case False
  with assms obtain t' where t': "add e t = (None, t')" "tinv t'" "look t' = (look t)(key e \<mapsto> val e)" "maxc t' = maxc t"
    using add_room [of t e] by (auto simp: bounded_def)
  have fin: "finite (dom (look t))" "count t = card (dom (look t))" "count t' = card (dom (look t'))"
    using assms t'(2) count_law by (auto simp: bounded_def)
  then have "count t' \<le> Suc (count t)" by (simp add: t'(3) card_insert_if)
  with False t' show ?thesis by (auto simp: bounded_def)
qed

lemma bounded_del:
  assumes "bounded t"
  shows "bounded (del k t)"
proof -
  have t: "tinv t" "tinv (del k t)" "look (del k t) = (look t)(k := None)" "maxc (del k t) = maxc t"
    using assms del_law [of t k] by (auto simp: bounded_def)
  have "card (dom ((look t)(k := None))) \<le> card (dom (look t))"
    using count_law [OF t(1)] by (intro card_mono) auto
  with t assms count_law [OF t(1)] count_law [OF t(2)] show ?thesis by (auto simp: bounded_def)
qed

lemma bounded_run: "bounded t \<Longrightarrow> bounded (run_table add del ops t)"
proof (induction ops arbitrary: t)
  case (Cons op ops)
  then show ?case by (cases op) (auto simp: bounded_add bounded_del)
qed simp

end

text \<open>Both tables are such tables.\<close>

definition session_table_ok :: "'rd Server \<Rightarrow> bool" where
  "session_table_ok srv \<longleftrightarrow> distinct (map fst (sessionsByToken srv))"

definition sub_table_ok :: "'rd Server \<Rightarrow> bool" where
  "sub_table_ok srv \<longleftrightarrow> distinct (map fst (subscriptionsByID srv))"

lemma length_dom_map_of:
  assumes "distinct (map fst m)"
  shows "length m = card (dom (map_of m)) \<and> finite (dom (map_of m))"
proof -
  have "length m = card (set (map fst m))" using distinct_card [OF assms] by simp
  then show ?thesis by (simp add: dom_map_of_conv_image_fst finite_dom_map_of)
qed

interpretation session_table: limited_table "\<lambda>srv. map_of (sessionsByToken srv)" fst snd
  "\<lambda>(token, a). SessionManager_Add a token" drop_token SessionManager_Len maxSessionCount session_table_ok
  "Status BadTooManySessions"
proof
  fix t :: "'a Server"
  assume "session_table_ok t"
  then show "SessionManager_Len t = card (dom (map_of (sessionsByToken t))) \<and> finite (dom (map_of (sessionsByToken t)))"
    using length_dom_map_of [of "sessionsByToken t"] by (simp add: SessionManager_Len_def session_table_ok_def)
next
  fix t :: "'a Server" and e :: "NodeID option \<times> nat"
  assume "0 < maxSessionCount t" "maxSessionCount t \<le> int (SessionManager_Len t)"
  then show "(case e of (token, a) \<Rightarrow> SessionManager_Add a token) t = (Some (Status BadTooManySessions), t)"
    by (simp add: SessionManager_Add_def SessionManager_Len_def split: prod.splits)
next
  fix t :: "'a Server" and e :: "NodeID option \<times> nat"
  assume "\<not> (0 < maxSessionCount t \<and> maxSessionCount t \<le> int (SessionManager_Len t))" "session_table_ok t"
  then show "\<exists>t'. (case e of (token, a) \<Rightarrow> SessionManager_Add a token) t = (None, t') \<and> session_table_ok t'
      \<and> map_of (sessionsByToken t') = (map_of (sessionsByToken t))(fst e \<mapsto> snd e) \<and> maxSessionCount t' = maxSessionCount t"
    by (auto simp: SessionManager_Add_def SessionManager_Len_def session_table_ok_def Let_def update_conv' distinct_update
        split: prod.splits)
next
  fix t :: "'a Server" and k
  assume "session_table_ok t"
  then show "session_table_ok (drop_token k t)
      \<and> map_of (sessionsByToken (drop_token k t)) = (map_of (sessionsByToken t))(k := None)
      \<and> maxSessionCount (drop_token k t) = maxSessionCount t"
    by (simp add: drop_token_def session_table_ok_def Let_def delete_conv' distinct_delete)
qed

interpretation sub_table: limited_table "\<lambda>srv. map_of (subscriptionsByID srv)" sub_id id SubscriptionManager_Add
  SubscriptionManager_Delete SubscriptionManager_Len maxSubscriptionCount sub_table_ok "Status BadTooManySubscriptions"
proof
  fix t :: "'a Server"
  assume "sub_table_ok t"
  then show "SubscriptionManager_Len t = card (dom (map_of (subscriptionsByID t))) \<and> finite (dom (map_of (subscriptionsByID t)))"
    using length_dom_map_of [of "subscriptionsByID t"] by (simp add: SubscriptionManager_Len_def sub_table_ok_def)
next
  fix t :: "'a Server" and e :: Subscription
  assume "0 < maxSubscriptionCount t" "maxSubscriptionCount t \<le> int (SubscriptionManager_Len t)"
  then show "SubscriptionManager_Add e t = (Some (Status BadTooManySubscriptions), t)"
    by (simp add: SubscriptionManager_Add_def SubscriptionManager_Len_def)
next
  fix t :: "'a Server" and e :: Subscription
  assume "\<not> (0 < maxSubscriptionCount t \<and> maxSubscriptionCount t \<le> int (SubscriptionManager_Len t))" "sub_table_ok t"
  then show "\<exists>t'. SubscriptionManager_Add e t = (None, t') \<and> sub_table_ok t'
      \<and> map_of (subscriptionsByID t') = (map_of (subscriptionsByID t))(sub_id e \<mapsto> id e)
      \<and> maxSubscriptionCount t' = maxSubscriptionCount t"
    by (auto simp: SubscriptionManager_Add_def SubscriptionManager_Len_def sub_table_ok_def put_sub_def Let_def update_conv'
        distinct_update)
next
  fix t :: "'a Server" and k
  assume "sub_table_ok t"
  then show "sub_table_ok (SubscriptionManager_Delete k t)
      \<and> map_of (subscriptionsByID (SubscriptionManager_Delete k t)) = (map_of (subscriptionsByID t))(k := None)
      \<and> maxSubscriptionCount (SubscriptionManager_Delete k t) = maxSubscriptionCount t"
    by (simp add: SubscriptionManager_Delete_def sub_table_ok_def Let_def delete_conv' distinct_delete)
qed

section \<open>Expiry\<close>

definition stale :: "instant \<Rightarrow> 'rd Server \<Rightarrow> nat \<Rightarrow> bool" where
  "stale now srv a \<longleftrightarrow> (case session_at srv a of None \<Rightarrow> False | Some s \<Rightarrow> Session_IsExpired now s)"

lemma IsExpired_delete [simp]: "Session_IsExpired now (Session_delete s) = Session_IsExpired now s"
  by (simp add: Session_IsExpired_def Session_delete_def)

lemma session_at_put [simp]: "session_at (put_session a s srv) b = (if b = a then Some s else session_at srv b)"
  by (simp add: session_at_def put_session_def update_conv')

lemma session_at_on [simp]:
  "session_at (on_session a f srv) b = (if b = a then map_option f (session_at srv a) else session_at srv b)"
  by (auto simp: on_session_def split: option.splits)

lemma session_at_drop [simp]: "session_at (drop_token k srv) a = session_at srv a"
  by (simp add: drop_token_def session_at_def Let_def)

lemma session_at_counter [simp]:
  "session_at (srv\<lparr>SessionTimeoutCount := n\<rparr>) a = session_at srv a"
  by (simp add: session_at_def)

lemma stale_step [simp]:
  "stale now (on_session a Session_delete srv) b = stale now srv b"
  by (auto simp: stale_def split: option.splits)

lemma byToken_on [simp]: "sessionsByToken (on_session a f srv) = sessionsByToken srv"
  by (simp add: on_session_def put_session_def split: option.splits)

lemma byToken_drop [simp]: "map_of (sessionsByToken (drop_token k srv)) = (map_of (sessionsByToken srv))(k := None)"
  by (simp add: drop_token_def Let_def delete_conv')

lemma stale_drop [simp]: "stale now (drop_token k srv) a = stale now srv a"
  "stale now (srv\<lparr>SessionTimeoutCount := n\<rparr>) a = stale now srv a"
  by (simp_all add: stale_def)

lemma expire_sessions_look:
  assumes "distinct (map fst es)"
  shows "map_of (sessionsByToken (expire_sessions now es srv)) k =
    (case map_of es k of Some a \<Rightarrow> if stale now srv a then None else map_of (sessionsByToken srv) k
      | None \<Rightarrow> map_of (sessionsByToken srv) k)"
  using assms
proof (induction now es srv rule: expire_sessions.induct)
  case (2 now j a es srv)
  then have j: "map_of es j = None" "distinct (map fst es)" by (auto simp: map_of_eq_None_iff)
  show ?case
  proof (cases "stale now srv a")
    case True
    then obtain s where "session_at srv a = Some s" "Session_IsExpired now s" by (auto simp: stale_def split: option.splits)
    with 2 j True show ?thesis by (auto simp: Let_def split: option.splits)
  next
    case False
    with 2 j show ?thesis by (auto simp: stale_def split: option.splits)
  qed
qed simp

lemma checkForExpiredSessions_spec:
  assumes "session_table_ok srv"
  shows "map_of (sessionsByToken (checkForExpiredSessions now srv)) k =
    (case map_of (sessionsByToken srv) k of Some a \<Rightarrow> if stale now srv a then None else Some a | None \<Rightarrow> None)"
  using expire_sessions_look [of "sessionsByToken srv" now srv k] assms
  by (auto simp: checkForExpiredSessions_def session_table_ok_def split: option.splits)

text \<open>The subscriptions that publish are deleted when they are expired, the others stay.\<close>

definition survivors :: "(u32 \<Rightarrow> Subscription option) \<Rightarrow> (u32 \<Rightarrow> Subscription option) \<Rightarrow> u32 \<Rightarrow> Subscription option" where
  "survivors visited m = (\<lambda>k. case visited k of
       Some s \<Rightarrow> if Subscription_IsExpired s then None else m k | None \<Rightarrow> m k)"

lemma survivors_cons:
  "es j = None \<Longrightarrow> survivors (es(j \<mapsto> s)) m = survivors es (if Subscription_IsExpired s then m(j := None) else m)"
  by (auto simp: survivors_def fun_eq_iff split: option.splits)

lemma Delete_sub_look: "map_of (subscriptionsByID (SubscriptionManager_Delete j srv)) = (map_of (subscriptionsByID srv))(j := None)"
  by (simp add: SubscriptionManager_Delete_def Let_def delete_conv')

lemma expire_subs_look:
  assumes "distinct (map fst es)" and "\<forall>(k, s)\<in>set es. cancelPublishing s = OpenChan"
  shows "\<exists>srv'. expire_subs es srv = (Ok (), srv')
    \<and> map_of (subscriptionsByID srv') = survivors (map_of es) (map_of (subscriptionsByID srv))"
  using assms
proof (induction es arbitrary: srv)
  case Nil
  show ?case by (simp add: survivors_def)
next
  case (Cons e es)
  obtain j s where e: "e = (j, s)" by (cases e)
  with Cons.prems have j: "map_of es j = None" "distinct (map fst es)" "cancelPublishing s = OpenChan"
    by (auto simp: map_of_eq_None_iff)
  obtain s' where ok: "deleteImpl s = (Ok (), s')"
    using j(3) by (simp add: deleteImpl_def bnd_def stopPublishing_def)
  let ?srv = "if Subscription_IsExpired s then SubscriptionManager_Delete j srv else srv"
  from Cons.IH [of ?srv] j(2) Cons.prems(2) obtain srv' where "expire_subs es ?srv = (Ok (), srv')"
    "map_of (subscriptionsByID srv') = survivors (map_of es) (map_of (subscriptionsByID ?srv))" by auto
  moreover have m: "map_of (e # es) = (map_of es)(j \<mapsto> s)" by (auto simp: e)
  ultimately show ?case unfolding m survivors_cons [of "map_of es", OF j(1)] using ok
    by (auto simp: e Delete_sub_look split: if_splits)
qed

lemma checkForExpiredSubscriptions_spec:
  assumes "sub_table_ok srv" and "\<forall>(k, s)\<in>set (subscriptionsByID srv). cancelPublishing s = OpenChan"
  shows "\<exists>srv'. checkForExpiredSubscriptions srv = (Ok (), srv') \<and> (\<forall>i. SubscriptionManager_Get i srv' =
    (case SubscriptionManager_Get i srv of Some s \<Rightarrow> if Subscription_IsExpired s then None else Some s | None \<Rightarrow> None))"
proof -
  from expire_subs_look [of "subscriptionsByID srv" srv] assms obtain srv' where
    "expire_subs (subscriptionsByID srv) srv = (Ok (), srv')"
    "map_of (subscriptionsByID srv') = survivors (map_of (subscriptionsByID srv)) (map_of (subscriptionsByID srv))"
    by (auto simp: sub_table_ok_def)
  then show ?thesis
    by (intro exI [of _ srv']) (simp add: checkForExpiredSubscriptions_def SubscriptionManager_Get_def survivors_def
      split: option.splits)
qed

end
