(* ===== verification/Publish_Service.thy ===== *)
theory Publish_Service
  imports Managers
begin

text \<open>
  The handlers of the subscription services (\<open>server/server_service_set.go\<close>). Each
  begins with the same checks: the channel may be for discovery only, the token must
  name a session that is not expired, and the session must be activated on this very
  channel; \<open>with_session\<close> is that prologue. A handler returns how it ended, what it
  sent, and the new state.
\<close>

section \<open>Status codes\<close>

definition BadNothingToDo :: StatusCode where "BadNothingToDo = 0x800F0000"
definition BadTooManyOperations :: StatusCode where "BadTooManyOperations = 0x80100000"
definition BadSecureChannelIDInvalid :: StatusCode where "BadSecureChannelIDInvalid = 0x80220000"
definition BadSessionIDInvalid :: StatusCode where "BadSessionIDInvalid = 0x80250000"
definition BadSessionNotActivated :: StatusCode where "BadSessionNotActivated = 0x80270000"
definition BadSubscriptionIDInvalid :: StatusCode where "BadSubscriptionIDInvalid = 0x80280000"
definition BadMonitoredItemIDInvalid :: StatusCode where "BadMonitoredItemIDInvalid = 0x80420000"
definition BadNoSubscription :: StatusCode where "BadNoSubscription = 0x80790000"
definition BadSequenceNumberUnknown :: StatusCode where "BadSequenceNumberUnknown = 0x807A0000"
definition BadMessageNotAvailable :: StatusCode where "BadMessageNotAvailable = 0x807B0000"

lemmas service_code_defs = BadNothingToDo_def BadTooManyOperations_def BadSecureChannelIDInvalid_def
  BadSessionIDInvalid_def BadSessionNotActivated_def BadSubscriptionIDInvalid_def BadMonitoredItemIDInvalid_def
  BadSecurityPolicyRejected_def BadNoSubscription_def BadSequenceNumberUnknown_def BadMessageNotAvailable_def

section \<open>The common prologue\<close>

record conn =
  cn_ch :: channel
  cn_id :: u32
  cn_discoveryOnly :: bool

type_synonym 'rd handler = "'rd Server \<Rightarrow> outcome \<times> sent \<times> 'rd Server"

definition reply :: "env \<Rightarrow> conn \<Rightarrow> u32 \<Rightarrow> response \<Rightarrow> 'rd handler" where
  "reply en c rid r srv = (case env_write en (cn_ch c) rid r of
       Some e \<Rightarrow> (Returned (Some e), [], srv)
     | None \<Rightarrow> (Returned None, [(cn_ch c, rid, r)], srv))"

definition rejected :: "'rd Server \<Rightarrow> 'rd Server" where
  "rejected srv = srv\<lparr>RejectedRequestsCount := RejectedRequestsCount srv + 1\<rparr>"

definition count_call :: "service option \<Rightarrow> nat \<Rightarrow> 'rd Server \<Rightarrow> 'rd Server" where
  "count_call svc a = (case svc of None \<Rightarrow> id | Some v \<Rightarrow> on_session a (\<lambda>s.
     s\<lparr>svcCount := (svcCount s)(v := svcCount s v + 1), requestCount := requestCount s + 1\<rparr>))"

definition count_error :: "service option \<Rightarrow> nat \<Rightarrow> 'rd Server \<Rightarrow> 'rd Server" where
  "count_error svc a = (case svc of None \<Rightarrow> id | Some v \<Rightarrow> on_session a (\<lambda>s.
     s\<lparr>svcErrorCount := (svcErrorCount s)(v := svcErrorCount s v + 1), errorCount := errorCount s + 1\<rparr>))"

definition refuse :: "env \<Rightarrow> conn \<Rightarrow> u32 \<Rightarrow> u32 \<Rightarrow> service option \<Rightarrow> nat \<Rightarrow> StatusCode \<Rightarrow> 'rd handler" where
  "refuse en c rid h svc a code srv = reply en c rid (ServiceFault h code) (rejected (count_error svc a srv))"

definition channel_of :: "'rd Server \<Rightarrow> nat \<Rightarrow> u32" where
  "channel_of srv a = (case session_at srv a of None \<Rightarrow> 0 | Some s \<Rightarrow> channelId s)"

text \<open>\<open>handleUnregisterNodes\<close> is the one handler that does not count this rejection.\<close>

definition count_inactive :: "service option \<Rightarrow> 'rd Server \<Rightarrow> 'rd Server" where
  "count_inactive svc = (if svc = Some SvcUnregisterNodes then id else rejected)"

text \<open>The checks give the address of the session, or the outcome of the refused request.\<close>

definition admit :: "env \<Rightarrow> instant \<Rightarrow> service option \<Rightarrow> conn \<Rightarrow> u32 \<Rightarrow> u32 \<Rightarrow> NodeID option \<Rightarrow> 'rd Server \<Rightarrow>
    (outcome \<times> sent \<times> 'rd Server) + (nat \<times> 'rd Server)" where
  "admit en now svc c rid h token srv =
     (if cn_discoveryOnly c then
        Inl (Returned None, [(cn_ch c, rid, AbortMessage BadSecurityPolicyRejected)],
         rejected (srv\<lparr>SecurityRejectedRequestsCount := SecurityRejectedRequestsCount srv + 1\<rparr>))
      else case SessionManager_Get now token srv of
        (None, srv1) \<Rightarrow> Inl (reply en c rid (ServiceFault h BadSessionIDInvalid) (rejected srv1))
      | (Some a, srv1) \<Rightarrow>
          (let srv2 = count_call svc a srv1; i = channel_of srv2 a in
           if i = 0 then Inl (reply en c rid (ServiceFault h BadSessionNotActivated)
             (SessionManager_Delete a (count_inactive svc (count_error svc a srv2))))
           else if i \<noteq> cn_id c then Inl (refuse en c rid h svc a BadSecureChannelIDInvalid srv2)
           else Inr (a, srv2)))"

definition with_session :: "env \<Rightarrow> instant \<Rightarrow> service option \<Rightarrow> conn \<Rightarrow> u32 \<Rightarrow> u32 \<Rightarrow> NodeID option \<Rightarrow>
    (nat \<Rightarrow> 'rd handler) \<Rightarrow> 'rd handler" where
  "with_session en now svc c rid h token body srv = (case admit en now svc c rid h token srv of
       Inl refused \<Rightarrow> refused
     | Inr (a, srv') \<Rightarrow> body a srv')"

lemma with_session_unfold:
  "with_session en now svc c rid h token body srv =
     (if cn_discoveryOnly c then
        (Returned None, [(cn_ch c, rid, AbortMessage BadSecurityPolicyRejected)],
         rejected (srv\<lparr>SecurityRejectedRequestsCount := SecurityRejectedRequestsCount srv + 1\<rparr>))
      else case SessionManager_Get now token srv of
        (None, srv1) \<Rightarrow> reply en c rid (ServiceFault h BadSessionIDInvalid) (rejected srv1)
      | (Some a, srv1) \<Rightarrow>
          (let srv2 = count_call svc a srv1; i = channel_of srv2 a in
           if i = 0 then reply en c rid (ServiceFault h BadSessionNotActivated)
             (SessionManager_Delete a (count_inactive svc (count_error svc a srv2)))
           else if i \<noteq> cn_id c then refuse en c rid h svc a BadSecureChannelIDInvalid srv2
           else body a srv2))"
  by (simp add: with_session_def admit_def Let_def split: prod.split option.split)

definition session_id_of :: "'rd Server \<Rightarrow> nat \<Rightarrow> NodeID option" where
  "session_id_of srv a = (case session_at srv a of None \<Rightarrow> None | Some s \<Rightarrow> sessionId s)"

section \<open>Creating, modifying and deleting subscriptions\<close>

record SubscriptionRequest =
  sr_PublishingInterval :: float64
  sr_LifetimeCount :: u32
  sr_MaxKeepAliveCount :: u32
  sr_MaxNotificationsPerPublish :: u32
  sr_PublishingEnabled :: bool
  sr_Priority :: byte

definition handleCreateSubscription ::
    "env \<Rightarrow> instant \<Rightarrow> conn \<Rightarrow> u32 \<Rightarrow> u32 \<Rightarrow> NodeID option \<Rightarrow> SubscriptionRequest \<Rightarrow> 'rd handler" where
  "handleCreateSubscription en now c rid h token req =
     with_session en now (Some SvcCreateSubscription) c rid h token (\<lambda>a srv.
       let i = subscriptionID srv + 1;
           s = NewSubscription a (session_id_of srv a) i (sr_PublishingInterval req) (sr_LifetimeCount req)
                 (sr_MaxKeepAliveCount req) (sr_MaxNotificationsPerPublish req) (sr_PublishingEnabled req) (sr_Priority req);
           srv1 = srv\<lparr>subscriptionID := i\<rparr>
       in case SubscriptionManager_Add s srv1 of
            (Some _, srv2) \<Rightarrow> refuse en c rid h (Some SvcCreateSubscription) a BadTooManySubscriptions srv2
          | (None, srv2) \<Rightarrow>
              reply en c rid (CreateSubscriptionResponse h i (publishingInterval s) (maxLifetimeCount s) (maxKeepAliveCount s))
                (put_sub (startPublishing s) srv2))"

definition handleModifySubscription ::
    "env \<Rightarrow> instant \<Rightarrow> conn \<Rightarrow> u32 \<Rightarrow> u32 \<Rightarrow> NodeID option \<Rightarrow> u32 \<Rightarrow> SubscriptionRequest \<Rightarrow> 'rd handler" where
  "handleModifySubscription en now c rid h token i req =
     with_session en now (Some SvcModifySubscription) c rid h token (\<lambda>a srv.
       case SubscriptionManager_Get i srv of
         None \<Rightarrow> refuse en c rid h (Some SvcModifySubscription) a BadSubscriptionIDInvalid srv
       | Some s \<Rightarrow>
           (if sub_sessionId s \<noteq> session_id_of srv a
            then refuse en c rid h (Some SvcModifySubscription) a BadSubscriptionIDInvalid srv
            else case Subscription_Modify (sr_PublishingInterval req) (sr_LifetimeCount req) (sr_MaxKeepAliveCount req)
                   (sr_MaxNotificationsPerPublish req) (sr_Priority req) s of
                (Ok _, s') \<Rightarrow>
                  reply en c rid (ModifySubscriptionResponse h (publishingInterval s') (maxLifetimeCount s') (maxKeepAliveCount s'))
                    (put_sub s' srv)
              | (_, _) \<Rightarrow> (Panicked, [], srv)))"

fun set_modes :: "NodeID option \<Rightarrow> bool \<Rightarrow> u32 list \<Rightarrow> 'rd Server \<Rightarrow> StatusCode list \<times> 'rd Server" where
  "set_modes sid enabled [] srv = ([], srv)"
| "set_modes sid enabled (i # is) srv =
     (let (r, srv1) = (case SubscriptionManager_Get i srv of
           None \<Rightarrow> (BadSubscriptionIDInvalid, srv)
         | Some s \<Rightarrow> if sub_sessionId s = sid then (Good, put_sub (SetPublishingMode enabled s) srv)
                     else (BadSubscriptionIDInvalid, srv));
          (rs, srv2) = set_modes sid enabled is srv1
      in (r # rs, srv2))"

definition handleSetPublishingMode ::
    "env \<Rightarrow> instant \<Rightarrow> conn \<Rightarrow> u32 \<Rightarrow> u32 \<Rightarrow> NodeID option \<Rightarrow> bool \<Rightarrow> u32 list \<Rightarrow> 'rd handler" where
  "handleSetPublishingMode en now c rid h token enabled ids =
     with_session en now (Some SvcSetPublishingMode) c rid h token (\<lambda>a srv.
       case set_modes (session_id_of srv a) enabled ids srv of
         (rs, srv1) \<Rightarrow> reply en c rid (SetPublishingModeResponse h rs) srv1)"

fun delete_subs :: "NodeID option \<Rightarrow> u32 list \<Rightarrow> ('rd Server, StatusCode list) act" where
  "delete_subs sid [] srv = (Ok [], srv)"
| "delete_subs sid (i # is) srv =
     (let bad = (case delete_subs sid is srv of (Ok rs, srv') \<Rightarrow> (Ok (BadSubscriptionIDInvalid # rs), srv') | x \<Rightarrow> x)
      in case SubscriptionManager_Get i srv of
           None \<Rightarrow> bad
         | Some s \<Rightarrow>
             (if sub_sessionId s \<noteq> sid then bad
              else let srv1 = SubscriptionManager_Delete (sub_id s) srv in
                case deleteImpl s of
                  (Ok _, _) \<Rightarrow> (case delete_subs sid is srv1 of (Ok rs, srv') \<Rightarrow> (Ok (Good # rs), srv') | x \<Rightarrow> x)
                | (_, _) \<Rightarrow> (Panic, srv1)))"

text \<open>The loop that answers the parked publish requests once the session has no subscription left.\<close>

function drain_requests :: "ch_write \<Rightarrow> instant \<Rightarrow> 'rd Session \<Rightarrow> goerr option \<times> sent \<times> 'rd Session" where
  "drain_requests wr now s = (case removePublishRequest wr now s of
       ((op, Some e), out, s1) \<Rightarrow> (Some e, out, s1)
     | ((None, None), out, s1) \<Rightarrow> (None, out, s1)
     | ((Some op, None), out, s1) \<Rightarrow>
         (let s2 = s1\<lparr>svcErrorCount := (svcErrorCount s1)(SvcPublish := svcErrorCount s1 SvcPublish + 1),
                      errorCount := errorCount s1 + 1\<rparr>;
              f = ServiceFault (pr_RequestHandle (op_req op)) BadNoSubscription
          in case wr (op_ch op) (op_requestId op) f of
               Some e \<Rightarrow> (Some e, out, s2)
             | None \<Rightarrow> (case drain_requests wr now s2 of
                 (r, out', s3) \<Rightarrow> (r, out @ (op_ch op, op_requestId op, f) # out', s3))))"
  by pat_completeness auto

definition parked :: "'rd Session \<Rightarrow> nat" where
  "parked s = (case publishRequests s of None \<Rightarrow> 0 | Some q \<Rightarrow> length q)"

lemma removePublish_parked:
  assumes "removePublishRequest wr now s = ((Some op, e), out, s')"
  shows "parked s' < parked s"
proof -
  from assms obtain q q' where "publishRequests s = Some q" "remove_publish wr now q = ((Some op, e), out, q')"
    "publishRequests s' = Some q'" by (auto simp: removePublishRequest_def split: option.splits prod.splits)
  with remove_publish_fresh [of wr now q op e out q'] show ?thesis by (auto simp: parked_def)
qed

lemma parked_counters [simp]:
  "parked (s\<lparr>svcErrorCount := f, errorCount := n\<rparr>) = parked s"
  by (simp add: parked_def)

termination drain_requests
  by (relation "measure (\<lambda>(wr, now, s). parked s)") (auto dest!: removePublish_parked [OF sym])

declare drain_requests.simps [simp del]

definition handleDeleteSubscriptions ::
    "env \<Rightarrow> instant \<Rightarrow> u32 list \<Rightarrow> conn \<Rightarrow> u32 \<Rightarrow> u32 \<Rightarrow> NodeID option \<Rightarrow> u32 list \<Rightarrow> 'rd handler" where
  "handleDeleteSubscriptions en now ord c rid h token ids =
     with_session en now (Some SvcDeleteSubscriptions) c rid h token (\<lambda>a srv.
       if ids = [] then refuse en c rid h (Some SvcDeleteSubscriptions) a BadNothingToDo srv
       else case delete_subs (session_id_of srv a) ids srv of
         (Ok rs, srv1) \<Rightarrow>
           (case reply en c rid (DeleteSubscriptionsResponse h rs) srv1 of
              (Returned None, out, srv2) \<Rightarrow>
                (if GetBySession ord a srv2 = [] then
                   (case session_at srv2 a of
                      None \<Rightarrow> (Returned None, out, srv2)
                    | Some s \<Rightarrow> (case drain_requests (env_write en) now s of
                        (e, out', s') \<Rightarrow> (Returned e, out @ out', put_session a s' srv2)))
                 else (Returned None, out, srv2))
            | x \<Rightarrow> x)
       | (_, srv1) \<Rightarrow> (Panicked, [], srv1))"

section \<open>Publish and republish\<close>

text \<open>The acknowledgements of a publish request, each answered with a status.\<close>

fun ack_all :: "(u32 \<times> u32) list \<Rightarrow> ('rd Server, StatusCode list) act" where
  "ack_all [] srv = (Ok [], srv)"
| "ack_all ((i, n) # as) srv = (case SubscriptionManager_Get i srv of
       None \<Rightarrow> (case ack_all as srv of (Ok rs, srv') \<Rightarrow> (Ok (BadSubscriptionIDInvalid # rs), srv') | x \<Rightarrow> x)
     | Some s \<Rightarrow> (case acknowledge n s of
           (Ok b, s') \<Rightarrow>
             (case ack_all as (put_sub s' srv) of
                (Ok rs, srv') \<Rightarrow> (Ok ((if b then Good else BadSequenceNumberUnknown) # rs), srv')
              | x \<Rightarrow> x)
         | (_, _) \<Rightarrow> (Panic, srv)))"

text \<open>
  The subscriptions by falling priority. \<open>sort.Slice\<close> is not stable: it may return any
  order in which the priorities fall, which is the stable sort of some order \<open>ord\<close>.
\<close>

definition by_priority :: "Subscription list \<Rightarrow> Subscription list" where
  "by_priority subs = sort_key (\<lambda>s. 255 - unat (priority s)) subs"

text \<open>The first late subscription takes the request. \<open>o1\<close> and \<open>o2\<close> give the orders of the items.\<close>

fun try_late :: "env \<Rightarrow> instant \<Rightarrow> (u32 \<Rightarrow> u32 list) \<Rightarrow> (u32 \<Rightarrow> u32 list) \<Rightarrow> conn \<Rightarrow> u32 \<Rightarrow> PublishRequest \<Rightarrow>
    StatusCode list \<Rightarrow> Subscription list \<Rightarrow> 'rd Server \<Rightarrow> bool \<times> outcome \<times> sent \<times> 'rd Server" where
  "try_late en tn o1 o2 c rid req rs [] srv = (False, Returned None, [], srv)"
| "try_late en tn o1 o2 c rid req rs (s # ss) srv =
     (case handleLatePublishRequest en tn (o1 (sub_id s)) (o2 (sub_id s)) (cn_ch c) rid req rs s of
        (used, Returned None, out, s') \<Rightarrow>
          (if used then (True, Returned None, out, put_sub s' srv)
           else case try_late en tn o1 o2 c rid req rs ss (put_sub s' srv) of
                  (u, r, out', srv') \<Rightarrow> (u, r, out @ out', srv'))
      | (used, r, out, s') \<Rightarrow> (used, r, out, put_sub s' srv))"

definition handlePublish ::
    "env \<Rightarrow> instant \<Rightarrow> u32 list \<Rightarrow> (u32 \<Rightarrow> u32 list) \<Rightarrow> (u32 \<Rightarrow> u32 list) \<Rightarrow> conn \<Rightarrow> u32 \<Rightarrow> NodeID option \<Rightarrow> PublishRequest \<Rightarrow>
     'rd handler" where
  "handlePublish en now ord o1 o2 c rid token req =
     with_session en now (Some SvcPublish) c rid (pr_RequestHandle req) token (\<lambda>a srv.
       case ack_all (pr_SubscriptionAcknowledgements req) srv of
         (Ok rs, srv1) \<Rightarrow>
           (case session_at srv1 a of
              None \<Rightarrow> (Panicked, [], srv1)
            | Some s \<Rightarrow>
                (case stateChanges s of
                   op # ops \<Rightarrow>
                     reply en c rid (PublishResponse (pr_RequestHandle req) (sc_subscriptionId op) [] False (sc_message op) rs)
                       (put_session a (s\<lparr>stateChanges := ops\<rparr>) srv1)
                 | [] \<Rightarrow>
                     (if SubscriptionManager_Len srv1 = 0 then
                        reply en c rid (ServiceFault (pr_RequestHandle req) BadNoSubscription)
                          (count_error (Some SvcPublish) a srv1)
                      else case try_late en now o1 o2 c rid req rs (by_priority (GetBySession ord a srv1)) srv1 of
                        (used, r, out, srv2) \<Rightarrow>
                          (if used \<or> r \<noteq> Returned None then (r, out, srv2)
                           else case addPublishRequest (env_write en)
                                  \<lparr>op_ch = cn_ch c, op_requestId = rid, op_req = req, op_results = rs\<rparr> s of
                                  None \<Rightarrow> (Blocked, out, srv2)
                                | Some (e, out', s') \<Rightarrow> (Returned e, out @ out', put_session a s' srv2)))))
       | (_, srv1) \<Rightarrow> (Panicked, [], srv1))"

fun find_message :: "u32 \<Rightarrow> NotificationMessage list \<Rightarrow> NotificationMessage option" where
  "find_message n [] = None"
| "find_message n (m # q) = (if n = nm_SequenceNumber m then Some m else find_message n q)"

definition handleRepublish ::
    "env \<Rightarrow> instant \<Rightarrow> conn \<Rightarrow> u32 \<Rightarrow> u32 \<Rightarrow> NodeID option \<Rightarrow> u32 \<Rightarrow> u32 \<Rightarrow> 'rd handler" where
  "handleRepublish en now c rid h token i n =
     with_session en now (Some SvcRepublish) c rid h token (\<lambda>a srv.
       case SubscriptionManager_Get i srv of
         None \<Rightarrow> refuse en c rid h (Some SvcRepublish) a BadSubscriptionIDInvalid srv
       | Some s \<Rightarrow>
           (let s1 = s\<lparr>lifetimeCount := 0, republishRequestCount := republishRequestCount s + 1,
                       republishMessageRequestCount := republishMessageRequestCount s + 1\<rparr>;
                srv1 = put_sub s1 srv
            in case retransmissionQueue s1 of
                 None \<Rightarrow> (Panicked, [], srv1)
               | Some q \<Rightarrow>
                   (case find_message n q of
                      Some m \<Rightarrow>
                        (case reply en c rid (RepublishResponse h m) srv1 of
                           (Returned None, out, srv2) \<Rightarrow> (Returned None, out,
                             put_sub (s1\<lparr>republishMessageCount := republishMessageCount s1 + 1,
                                         retransmissionQueue := remove_seq n q\<rparr>) srv2)
                         | x \<Rightarrow> x)
                    | None \<Rightarrow> reply en c rid (ServiceFault h BadMessageNotAvailable)
                        (count_error (Some SvcRepublish) a srv1))))"

section \<open>Closing and cancelling\<close>

fun close_subs :: "Subscription list \<Rightarrow> ('rd Server, unit) act" where
  "close_subs [] srv = (Ok (), srv)"
| "close_subs (s # ss) srv =
     (let srv1 = SubscriptionManager_Delete (sub_id s) srv in
      case deleteImpl s of (Ok _, _) \<Rightarrow> close_subs ss srv1 | (_, _) \<Rightarrow> (Panic, srv1))"

definition handleCloseSession ::
    "env \<Rightarrow> instant \<Rightarrow> u32 list \<Rightarrow> conn \<Rightarrow> u32 \<Rightarrow> u32 \<Rightarrow> NodeID option \<Rightarrow> bool \<Rightarrow> 'rd handler" where
  "handleCloseSession en now ord c rid h token del =
     with_session en now None c rid h token (\<lambda>a srv.
       case (if del then close_subs (GetBySession ord a srv) srv else (Ok (), srv)) of
         (Ok _, srv1) \<Rightarrow> reply en c rid (CloseSessionResponse h) (SessionManager_Delete a srv1)
       | (_, srv1) \<Rightarrow> (Panicked, [], srv1))"

definition handleCancel :: "env \<Rightarrow> instant \<Rightarrow> conn \<Rightarrow> u32 \<Rightarrow> u32 \<Rightarrow> NodeID option \<Rightarrow> 'rd handler" where
  "handleCancel en now c rid h token =
     with_session en now None c rid h token (\<lambda>a. reply en c rid (CancelResponse h 0))"

section \<open>Monitored items\<close>

text \<open>The checks the item services share once the session is known.\<close>

definition with_sub :: "env \<Rightarrow> conn \<Rightarrow> u32 \<Rightarrow> u32 \<Rightarrow> service \<Rightarrow> u32 \<Rightarrow> (Subscription \<Rightarrow> 'rd handler) \<Rightarrow> nat \<Rightarrow> 'rd handler" where
  "with_sub en c rid h svc i body a srv = (case SubscriptionManager_Get i srv of
       None \<Rightarrow> refuse en c rid h (Some svc) a BadSubscriptionIDInvalid srv
     | Some s \<Rightarrow> (let s1 = s\<lparr>lifetimeCount := 0\<rparr> in body s1 (put_sub s1 srv)))"

definition limited :: "env \<Rightarrow> conn \<Rightarrow> u32 \<Rightarrow> u32 \<Rightarrow> service \<Rightarrow> nat \<Rightarrow> nat \<Rightarrow> 'rd handler \<Rightarrow> 'rd handler" where
  "limited en c rid h svc a n body srv =
     (if n = 0 then refuse en c rid h (Some svc) a BadNothingToDo srv
      else if n > unat (MaxMonitoredItemsPerCall srv) then refuse en c rid h (Some svc) a BadTooManyOperations srv
      else body srv)"

fun set_item_modes :: "env \<Rightarrow> instant \<Rightarrow> MonitoringMode \<Rightarrow> u32 list \<Rightarrow> Subscription \<Rightarrow> StatusCode list \<times> Subscription" where
  "set_item_modes en now mode [] s = ([], s)"
| "set_item_modes en now mode (i # is) s =
     (case FindItem i s of
        None \<Rightarrow> (case set_item_modes en now mode is s of (rs, s') \<Rightarrow> (BadMonitoredItemIDInvalid # rs, s'))
      | Some _ \<Rightarrow> (case set_item_modes en now mode is (setItemMode en now i mode s) of (rs, s') \<Rightarrow> (Good # rs, s')))"

definition handleSetMonitoringMode ::
    "env \<Rightarrow> instant \<Rightarrow> conn \<Rightarrow> u32 \<Rightarrow> u32 \<Rightarrow> NodeID option \<Rightarrow> u32 \<Rightarrow> MonitoringMode \<Rightarrow> u32 list \<Rightarrow> 'rd handler" where
  "handleSetMonitoringMode en now c rid h token i mode ids =
     with_session en now (Some SvcSetMonitoringMode) c rid h token (\<lambda>a.
       with_sub en c rid h SvcSetMonitoringMode i (\<lambda>s.
         limited en c rid h SvcSetMonitoringMode a (length ids) (\<lambda>srv.
           case set_item_modes en now mode ids s of
             (rs, s') \<Rightarrow> reply en c rid (SetMonitoringModeResponse h rs) (put_sub s' srv))) a)"

fun delete_items :: "u32 list \<Rightarrow> Subscription \<Rightarrow> StatusCode list \<times> Subscription" where
  "delete_items [] s = ([], s)"
| "delete_items (i # is) s =
     (case DeleteItem i s of (b, s1) \<Rightarrow>
        (case delete_items is s1 of (rs, s2) \<Rightarrow> ((if b then Good else BadMonitoredItemIDInvalid) # rs, s2)))"

definition handleDeleteMonitoredItems ::
    "env \<Rightarrow> instant \<Rightarrow> conn \<Rightarrow> u32 \<Rightarrow> u32 \<Rightarrow> NodeID option \<Rightarrow> u32 \<Rightarrow> u32 list \<Rightarrow> 'rd handler" where
  "handleDeleteMonitoredItems en now c rid h token i ids =
     with_session en now (Some SvcDeleteMonitoredItems) c rid h token (\<lambda>a.
       with_sub en c rid h SvcDeleteMonitoredItems i (\<lambda>s.
         limited en c rid h SvcDeleteMonitoredItems a (length ids) (\<lambda>srv.
           case delete_items ids s of
             (rs, s') \<Rightarrow> reply en c rid (DeleteMonitoredItemsResponse h rs) (put_sub s' srv))) a)"

text \<open>A link is added to or removed from the triggering item when the linked item exists.\<close>

definition link_item :: "(u32 \<Rightarrow> MonitoredItem \<Rightarrow> bool \<times> MonitoredItem) \<Rightarrow> u32 \<Rightarrow> u32 \<Rightarrow> Subscription \<Rightarrow> bool \<times> Subscription" where
  "link_item f trig l s = (case (FindItem l s, FindItem trig s) of
       (Some _, Some it) \<Rightarrow>
         (case f l it of (b, it') \<Rightarrow> (b, s\<lparr>sub_items := map_option (AList.update trig it') (sub_items s)\<rparr>))
     | _ \<Rightarrow> (False, s))"

fun add_link :: "u32 \<Rightarrow> MonitoredItem \<Rightarrow> bool \<times> MonitoredItem" where
  "add_link l (DataItem mi) = (case DataChange_AddTriggeredItem l mi of (b, mi') \<Rightarrow> (b, DataItem mi'))"
| "add_link l (EventItem mi) = (case Event_AddTriggeredItem l mi of (b, mi') \<Rightarrow> (b, EventItem mi'))"

fun remove_link :: "u32 \<Rightarrow> MonitoredItem \<Rightarrow> bool \<times> MonitoredItem" where
  "remove_link l (DataItem mi) = (case DataChange_RemoveTriggeredItem l mi of (b, mi') \<Rightarrow> (b, DataItem mi'))"
| "remove_link l (EventItem mi) = (case Event_RemoveTriggeredItem l mi of (b, mi') \<Rightarrow> (b, EventItem mi'))"

fun link_all :: "(u32 \<Rightarrow> MonitoredItem \<Rightarrow> bool \<times> MonitoredItem) \<Rightarrow> u32 \<Rightarrow> u32 list \<Rightarrow> Subscription \<Rightarrow> StatusCode list \<times> Subscription" where
  "link_all f trig [] s = ([], s)"
| "link_all f trig (l # ls) s =
     (case link_item f trig l s of (b, s1) \<Rightarrow>
        (case link_all f trig ls s1 of (rs, s2) \<Rightarrow> ((if b then Good else BadMonitoredItemIDInvalid) # rs, s2)))"

definition handleSetTriggering ::
    "env \<Rightarrow> instant \<Rightarrow> conn \<Rightarrow> u32 \<Rightarrow> u32 \<Rightarrow> NodeID option \<Rightarrow> u32 \<Rightarrow> u32 \<Rightarrow> u32 list \<Rightarrow> u32 list \<Rightarrow> 'rd handler" where
  "handleSetTriggering en now c rid h token i trig adds removes =
     with_session en now (Some SvcSetTriggering) c rid h token (\<lambda>a.
       with_sub en c rid h SvcSetTriggering i (\<lambda>s srv.
         if removes = [] \<and> adds = [] then refuse en c rid h (Some SvcSetTriggering) a BadNothingToDo srv
         else if FindItem trig s = None then refuse en c rid h (Some SvcSetTriggering) a BadMonitoredItemIDInvalid srv
         else case link_all remove_link trig removes s of (rr, s1) \<Rightarrow>
           (case link_all add_link trig adds s1 of (ra, s2) \<Rightarrow>
              reply en c rid (SetTriggeringResponse h ra rr) (put_sub s2 srv))) a)"

section \<open>The service dispatcher and the initial server\<close>

text \<open>The requests that \<open>handleRequest\<close> passes to the handlers above, each with its request handle.\<close>

datatype request =
    PublishReq PublishRequest
  | RepublishReq u32 u32 u32
  | CreateSubscriptionReq u32 SubscriptionRequest
  | ModifySubscriptionReq u32 u32 SubscriptionRequest
  | SetPublishingModeReq u32 bool "u32 list"
  | DeleteSubscriptionsReq u32 "u32 list"
  | SetMonitoringModeReq u32 u32 MonitoringMode "u32 list"
  | DeleteMonitoredItemsReq u32 u32 "u32 list"
  | SetTriggeringReq u32 u32 u32 "u32 list" "u32 list"
  | CloseSessionReq u32 bool
  | CancelReq u32

text \<open>What a request meets: its time, the orders in which the maps are visited, its channel and id, its token.\<close>

record call =
  cl_now :: instant
  cl_ord :: "u32 list"
  cl_o1 :: "u32 \<Rightarrow> u32 list"
  cl_o2 :: "u32 \<Rightarrow> u32 list"
  cl_conn :: conn
  cl_rid :: u32
  cl_token :: "NodeID option"

fun handleRequest :: "env \<Rightarrow> call \<Rightarrow> request \<Rightarrow> 'rd handler" where
  "handleRequest en c (PublishReq req) =
     handlePublish en (cl_now c) (cl_ord c) (cl_o1 c) (cl_o2 c) (cl_conn c) (cl_rid c) (cl_token c) req"
| "handleRequest en c (RepublishReq h i n) = handleRepublish en (cl_now c) (cl_conn c) (cl_rid c) h (cl_token c) i n"
| "handleRequest en c (CreateSubscriptionReq h req) =
     handleCreateSubscription en (cl_now c) (cl_conn c) (cl_rid c) h (cl_token c) req"
| "handleRequest en c (ModifySubscriptionReq h i req) =
     handleModifySubscription en (cl_now c) (cl_conn c) (cl_rid c) h (cl_token c) i req"
| "handleRequest en c (SetPublishingModeReq h enabled ids) =
     handleSetPublishingMode en (cl_now c) (cl_conn c) (cl_rid c) h (cl_token c) enabled ids"
| "handleRequest en c (DeleteSubscriptionsReq h ids) =
     handleDeleteSubscriptions en (cl_now c) (cl_ord c) (cl_conn c) (cl_rid c) h (cl_token c) ids"
| "handleRequest en c (SetMonitoringModeReq h i mode ids) =
     handleSetMonitoringMode en (cl_now c) (cl_conn c) (cl_rid c) h (cl_token c) i mode ids"
| "handleRequest en c (DeleteMonitoredItemsReq h i ids) =
     handleDeleteMonitoredItems en (cl_now c) (cl_conn c) (cl_rid c) h (cl_token c) i ids"
| "handleRequest en c (SetTriggeringReq h i trig adds removes) =
     handleSetTriggering en (cl_now c) (cl_conn c) (cl_rid c) h (cl_token c) i trig adds removes"
| "handleRequest en c (CloseSessionReq h del) =
     handleCloseSession en (cl_now c) (cl_ord c) (cl_conn c) (cl_rid c) h (cl_token c) del"
| "handleRequest en c (CancelReq h) = handleCancel en (cl_now c) (cl_conn c) (cl_rid c) h (cl_token c)"

text \<open>A tick of the publishing goroutine of the subscription \<open>i\<close>.\<close>

definition server_tick :: "env \<Rightarrow> instant \<Rightarrow> instant \<Rightarrow> u32 list \<Rightarrow> u32 list \<Rightarrow> u32 \<Rightarrow> 'rd handler" where
  "server_tick en tn now ord1 ord2 i srv = (case SubscriptionManager_Get i srv of
       None \<Rightarrow> (Returned None, [], srv)
     | Some s \<Rightarrow> (case Option.bind (sub_session s) (session_at srv) of
           None \<Rightarrow> (Returned None, [], srv)
         | Some sess \<Rightarrow> (case publish en tn now ord1 ord2 s sess of
             (r, out, d, s', sess') \<Rightarrow>
               (let srv1 = put_session (the (sub_session s)) sess' srv
                in (r, out, if d then SubscriptionManager_Delete i srv1 else put_sub s' srv1)))))"

definition empty_server :: "int \<Rightarrow> int \<Rightarrow> bool \<Rightarrow> u32 \<Rightarrow> 'rd Server" where
  "empty_server maxSess maxSub diag maxItems =
     \<lparr>sv_sessions = [], sessionsByToken = [], maxSessionCount = maxSess, subscriptionsByID = [],
      maxSubscriptionCount = maxSub, subscriptionID = 0, serverDiagnostics = diag, MaxMonitoredItemsPerCall = maxItems,
      CumulatedSessionCount = 0, CurrentSessionCount = 0, SessionTimeoutCount = 0, CumulatedSubscriptionCount = 0,
      CurrentSubscriptionCount = 0, RejectedRequestsCount = 0, SecurityRejectedRequestsCount = 0\<rparr>"

definition open_session :: "nat \<Rightarrow> 'rd Session \<Rightarrow> 'rd Server \<Rightarrow> goerr option \<times> 'rd Server" where
  "open_session a s srv = SessionManager_Add a (authenticationToken s) (put_session a s srv)"

end
