(* ===== verification/Service_Safety.thy ===== *)
theory Service_Safety
  imports Publish_Service
begin

text \<open>
  The server as a state machine: its requests, the ticks of the publishing goroutines
  and the periodic checks keep the invariant of its tables, and no request makes it
  panic.
\<close>

section \<open>What the operations of a subscription leave alone\<close>

definition same_frame :: "Subscription \<Rightarrow> Subscription \<Rightarrow> bool" where
  "same_frame s s' \<longleftrightarrow> sub_id s' = sub_id s \<and> publishingInterval s' = publishingInterval s
     \<and> maxKeepAliveCount s' = maxKeepAliveCount s \<and> maxLifetimeCount s' = maxLifetimeCount s
     \<and> maxNotificationsPerPublish s' = maxNotificationsPerPublish s \<and> cancelPublishing s' = cancelPublishing s
     \<and> sub_session s' = sub_session s \<and> sub_sessionId s' = sub_sessionId s
     \<and> (retransmissionQueue s' = None \<longleftrightarrow> retransmissionQueue s = None)
     \<and> (sub_items s' = None \<longleftrightarrow> sub_items s = None)"

lemma same_frame_refl [simp]: "same_frame s s"
  by (simp add: same_frame_def)

lemma same_frame_trans: "same_frame s s' \<Longrightarrow> same_frame s' s'' \<Longrightarrow> same_frame s s''"
  by (simp add: same_frame_def)

definition sub_ok :: "Subscription \<Rightarrow> bool" where
  "sub_ok s \<longleftrightarrow> params_ok s \<and> cancelPublishing s = OpenChan \<and> retransmissionQueue s \<noteq> None \<and> sub_items s \<noteq> None
     \<and> sub_session s \<noteq> None"

lemma sub_ok_frame: "same_frame s s' \<Longrightarrow> sub_ok s \<Longrightarrow> sub_ok s'"
  by (simp add: same_frame_def sub_ok_def params_ok_def)

lemma frame_publish_data:
  assumes "publish_data en tn ord ch rid req rs s = (Some (e, mr, n, s1), out)"
  shows "same_frame s s1"
  using assms
  by (auto simp: publish_data_def same_frame_def Let_def split: option.splits prod.splits)

lemma publish_data_None:
  "retransmissionQueue s \<noteq> None \<Longrightarrow> publish_data en tn ord ch rid req rs s \<noteq> (None, out)"
  by (auto simp: publish_data_def Let_def split: option.splits prod.splits)

lemma publish_keepalive_None:
  "retransmissionQueue s \<noteq> None \<Longrightarrow> publish_keepalive en tn ch rid req rs s \<noteq> (None, out)"
  by (auto simp: publish_keepalive_def Let_def split: option.splits)

lemma frame_counters [simp]:
  "same_frame s (s\<lparr>unacknowledgedMessageCount := a\<rparr>) " "same_frame s (s\<lparr>lifetimeCount := b\<rparr>)"
  "same_frame s (s\<lparr>keepAliveCount := b\<rparr>)"
  by (simp_all add: same_frame_def)

lemma frame_late:
  assumes "handleLatePublishRequest en tn ord1 ord2 ch rid req rs s = (used, r, out, s')"
    and q: "retransmissionQueue s \<noteq> None"
  shows "same_frame s s' \<and> r \<noteq> Panicked \<and> r \<noteq> Blocked \<and> (r \<noteq> Returned None \<longrightarrow> used)"
proof (cases "isLate s")
  case True
  obtain avail its ov where p: "poll_items en tn False ord1 (items_of s) = (avail, its, ov)" by (cases "poll_items en tn False ord1 (items_of s)")
  let ?s = "s\<lparr>sub_items := map_option (\<lambda>_. its) (sub_items s),
                   monitoringQueueOverflowCount := monitoringQueueOverflowCount s + word_of_nat ov\<rparr>"
  have f: "same_frame s ?s" by (simp add: same_frame_def)
  note d = publish_data_None [of ?s en tn ord2 ch rid req rs] publish_keepalive_None [of ?s en tn ch rid req]
    frame_publish_data [of en tn ord2 ch rid req rs ?s]
  show ?thesis using assms True p q d
    by (auto simp: handleLatePublishRequest_def Let_def same_frame_def split: if_splits option.splits prod.splits)
qed (use assms in \<open>auto simp: handleLatePublishRequest_def\<close>)

section \<open>What the operations of a session leave alone\<close>

definition session_frame :: "'rd Session \<Rightarrow> 'rd Session \<Rightarrow> bool" where
  "session_frame s s' \<longleftrightarrow> authenticationToken s' = authenticationToken s
     \<and> (publishRequests s' = None \<longleftrightarrow> publishRequests s = None) \<and> (session_inv s \<longrightarrow> session_inv s')"

lemma session_frame_refl [simp]: "session_frame s s"
  by (simp add: session_frame_def)

lemma session_frame_trans: "session_frame s s' \<Longrightarrow> session_frame s' s'' \<Longrightarrow> session_frame s s''"
  by (simp add: session_frame_def)

lemma session_frame_updates [simp]:
  "session_frame s (s\<lparr>stateChanges := x\<rparr>)" "session_frame s (s\<lparr>lastAccess := t\<rparr>)"
  "session_frame s (SetLastAccess t s)"
  "session_frame s (s\<lparr>svcCount := f, requestCount := n\<rparr>)" "session_frame s (s\<lparr>svcErrorCount := f, errorCount := n\<rparr>)"
  by (simp_all add: session_frame_def session_inv_def SetLastAccess_def)

lemma session_frame_remove:
  assumes "removePublishRequest wr now s = (r, out, s')"
  shows "session_frame s s'"
  using assms session_inv_removePublish [of s wr now r out s']
  by (auto simp: session_frame_def removePublishRequest_def split: option.splits prod.splits)

lemma session_frame_add:
  assumes "addPublishRequest wr x s = Some (r, out, s')"
  shows "session_frame s s'"
  using assms session_inv_addPublish [of s wr x r out s']
  by (auto simp: session_frame_def addPublishRequest_def split: option.splits prod.splits)

lemma session_frame_drain: "drain_requests wr now s = (e, out, s') \<Longrightarrow> session_frame s s'"
proof (induction wr now s arbitrary: e out s' rule: drain_requests.induct)
  case (1 wr now s)
  obtain op er out1 s1 where r: "removePublishRequest wr now s = ((op, er), out1, s1)"
    by (cases "removePublishRequest wr now s") auto
  note f = session_frame_remove [OF r]
  show ?case
  proof (cases op)
    case None
    with r f "1.prems" show ?thesis by (cases er) (auto simp: drain_requests.simps [of wr now s])
  next
    case (Some x)
    show ?thesis
    proof (cases er)
      case (Some y)
      with r f "1.prems" \<open>op = Some x\<close> show ?thesis by (auto simp: drain_requests.simps [of wr now s])
    next
      case None
      let ?s2 = "s1\<lparr>svcErrorCount := (svcErrorCount s1)(SvcPublish := svcErrorCount s1 SvcPublish + 1),
        errorCount := errorCount s1 + 1\<rparr>"
      have f2: "session_frame s ?s2" by (rule session_frame_trans [OF f]) simp
      let ?f = "ServiceFault (pr_RequestHandle (op_req x)) BadNoSubscription"
      show ?thesis
      proof (cases "wr (op_ch x) (op_requestId x) ?f")
        case Some: (Some y)
        with r f2 "1.prems" \<open>op = Some x\<close> None show ?thesis by (auto simp: drain_requests.simps [of wr now s] Let_def)
      next
        case wr: None
        obtain e' out' s3 where d: "drain_requests wr now ?s2 = (e', out', s3)" by (cases "drain_requests wr now ?s2")
        have "session_frame ?s2 s3"
          using "1.IH" r \<open>op = Some x\<close> None wr d by (metis (no_types, lifting))
        with f2 have "session_frame s s3" by (rule session_frame_trans)
        with r \<open>op = Some x\<close> None wr d "1.prems" show ?thesis
          by (auto simp: drain_requests.simps [of wr now s] Let_def)
      qed
    qed
  qed
qed

section \<open>A publishing cycle\<close>

definition cycle_ok :: "Subscription \<Rightarrow> 'rd Session \<Rightarrow> 'rd cycle \<Rightarrow> bool" where
  "cycle_ok s sess c \<longleftrightarrow> (case c of (r, out, d, s', sess') \<Rightarrow>
     session_frame sess sess' \<and> r \<noteq> Panicked \<and> (d \<or> same_frame s s'))"

lemma cycle_ok_trans:
  "same_frame s s1 \<Longrightarrow> session_frame sess sess1 \<Longrightarrow> cycle_ok s1 sess1 (r, out, d, s', sess') \<Longrightarrow> cycle_ok s sess (r, out', d, s', sess')"
  by (auto simp: cycle_ok_def intro: same_frame_trans session_frame_trans)

lemma expire_ok:
  assumes "cancelPublishing s = OpenChan"
  shows "cycle_ok s sess (expire now s sess)"
  using assms by (simp add: cycle_ok_def expire_def deleteImpl_def bnd_def stopPublishing_def Let_def)

text \<open>The cycles share their shape: the answer to a request, or the end of the subscription.\<close>

lemma idle_ok:
  assumes ok: "sub_ok s"
  shows "cycle_ok s sess (publish_idle en now s sess)"
proof -
  obtain op e out sess1 where r: "removePublishRequest (env_write en) now sess = ((op, e), out, sess1)"
    by (cases "removePublishRequest (env_write en) now sess") auto
  note f = session_frame_remove [OF r]
  let ?s = "s\<lparr>keepAliveCount := keepAliveCount s + 1, isLate := True, lifetimeCount := lifetimeCount s + 1\<rparr>"
  obtain r' out' d' s' sess' where x: "expire now ?s sess1 = (r', out', d', s', sess')" by (cases "expire now ?s sess1")
  have late: "same_frame s ?s" by (simp add: same_frame_def)
  have ex: "cycle_ok ?s sess1 (r', out', d', s', sess')" using expire_ok [of ?s sess1 now] ok x by (simp add: sub_ok_def)
  note gone = cycle_ok_trans [OF late f ex]
  have q: "retransmissionQueue s \<noteq> None" using ok by (simp add: sub_ok_def)
  show ?thesis using r f gone x q
    by (auto simp: publish_idle_def publish_keepalive_def Let_def cycle_ok_def same_frame_def split: option.splits)
qed

lemma available_ok:
  assumes ok: "sub_ok s"
  shows "cycle_ok s sess (publish_available en tn now ord s sess)"
proof -
  obtain op e out sess1 where r: "removePublishRequest (env_write en) now sess = ((op, e), out, sess1)"
    by (cases "removePublishRequest (env_write en) now sess") auto
  note f = session_frame_remove [OF r]
  let ?s = "s\<lparr>isLate := True, lifetimeCount := lifetimeCount s + 1\<rparr>"
  obtain r' out' d' s' sess' where x: "expire now ?s sess1 = (r', out', d', s', sess')" by (cases "expire now ?s sess1")
  have late: "same_frame s ?s" by (simp add: same_frame_def)
  have ex: "cycle_ok ?s sess1 (r', out', d', s', sess')" using expire_ok [of ?s sess1 now] ok x by (simp add: sub_ok_def)
  note gone = cycle_ok_trans [OF late f ex]
  have q: "retransmissionQueue s \<noteq> None" using ok by (simp add: sub_ok_def)
  show ?thesis
  proof (cases "\<exists>x. op = Some x \<and> e = None")
    case True
    then obtain y where y: "op = Some y" "e = None" by blast
    obtain res out2 where pd: "publish_data en tn ord (op_ch y) (op_requestId y) (op_req y) (op_results y) s = (res, out2)"
      by (cases "publish_data en tn ord (op_ch y) (op_requestId y) (op_req y) (op_results y) s")
    with publish_data_None [OF q] obtain e2 mr n s1 where res: "res = Some (e2, mr, n, s1)" by (cases res) auto
    with pd have "same_frame s s1" by (auto dest: frame_publish_data)
    with r f y pd res show ?thesis
      by (cases e2) (auto simp: publish_available_def cycle_ok_def same_frame_def)
  next
    case False
    with r f gone x show ?thesis
      by (cases op; cases e) (auto simp: publish_available_def Let_def cycle_ok_def same_frame_def)
  qed
qed

lemma publish_ok:
  assumes ok: "sub_ok s"
  shows "cycle_ok s sess (publish en tn now ord1 ord2 s sess)"
proof -
  obtain avail s1 where p: "polled en tn ord1 s = (avail, s1)" by (cases "polled en tn ord1 s")
  have f: "same_frame s s1" using p by (auto simp: polled_def same_frame_def split: prod.splits)
  have "sub_ok s1" by (rule sub_ok_frame [OF f ok])
  then have "cycle_ok s1 sess (publish en tn now ord1 ord2 s sess)"
    by (simp add: publish_polled p idle_ok available_ok)
  then show ?thesis using cycle_ok_trans [OF f session_frame_refl] by (metis surj_pair)
qed

section \<open>The invariant of the server\<close>

text \<open>
  A session in the table has the token it is filed under and open queues; a
  subscription in the table has the id it is filed under, publishes, and refers to a
  session object; both tables respect their limits.
\<close>

definition tokens_ok :: "'rd Server \<Rightarrow> bool" where
  "tokens_ok srv \<longleftrightarrow> (\<forall>k a. map_of (sessionsByToken srv) k = Some a \<longrightarrow>
     (\<exists>s. session_at srv a = Some s \<and> authenticationToken s = k \<and> publishRequests s \<noteq> None))"

definition sessions_ok :: "'rd Server \<Rightarrow> bool" where
  "sessions_ok srv \<longleftrightarrow> (\<forall>a s. session_at srv a = Some s \<longrightarrow> session_inv s)"

definition subs_ok :: "'rd Server \<Rightarrow> bool" where
  "subs_ok srv \<longleftrightarrow> (\<forall>i s. SubscriptionManager_Get i srv = Some s \<longrightarrow>
     sub_id s = i \<and> sub_ok s \<and> session_at srv (the (sub_session s)) \<noteq> None)"

definition limits_ok :: "'rd Server \<Rightarrow> bool" where
  "limits_ok srv \<longleftrightarrow> session_table_ok srv \<and> sub_table_ok srv
     \<and> (0 < maxSessionCount srv \<longrightarrow> int (SessionManager_Len srv) \<le> maxSessionCount srv)
     \<and> (0 < maxSubscriptionCount srv \<longrightarrow> int (SubscriptionManager_Len srv) \<le> maxSubscriptionCount srv)"

definition server_inv :: "'rd Server \<Rightarrow> bool" where
  "server_inv srv \<longleftrightarrow> limits_ok srv \<and> tokens_ok srv \<and> sessions_ok srv \<and> subs_ok srv"

lemmas inv_defs = server_inv_def tokens_ok_def sessions_ok_def subs_ok_def limits_ok_def
  session_table_ok_def sub_table_ok_def SessionManager_Len_def SubscriptionManager_Len_def

text \<open>Counters do not matter.\<close>

definition same_tables :: "'rd Server \<Rightarrow> 'rd Server \<Rightarrow> bool" where
  "same_tables srv srv' \<longleftrightarrow> sv_sessions srv' = sv_sessions srv \<and> sessionsByToken srv' = sessionsByToken srv
     \<and> maxSessionCount srv' = maxSessionCount srv \<and> subscriptionsByID srv' = subscriptionsByID srv
     \<and> maxSubscriptionCount srv' = maxSubscriptionCount srv"

lemma inv_same_tables: "same_tables srv srv' \<Longrightarrow> server_inv srv \<Longrightarrow> server_inv srv'"
  by (simp add: same_tables_def inv_defs session_at_def SubscriptionManager_Get_def)

lemma inv_rejected: "server_inv srv \<Longrightarrow> server_inv (rejected srv)"
  by (rule inv_same_tables) (simp_all add: same_tables_def rejected_def)

lemma inv_inactive: "server_inv srv \<Longrightarrow> server_inv (count_inactive svc srv)"
  by (simp add: count_inactive_def inv_rejected)

lemma Get_put_sub [simp]:
  "SubscriptionManager_Get i (put_sub s srv) = (if i = sub_id s then Some s else SubscriptionManager_Get i srv)"
  by (simp add: SubscriptionManager_Get_def put_sub_def update_conv')

lemma session_at_put_sub [simp]: "session_at (put_sub s srv) a = session_at srv a"
  by (simp add: session_at_def put_sub_def)

lemma put_sub_other [simp]:
  "sessionsByToken (put_sub s srv) = sessionsByToken srv" "maxSessionCount (put_sub s srv) = maxSessionCount srv"
  "maxSubscriptionCount (put_sub s srv) = maxSubscriptionCount srv"
  "SessionManager_Len (put_sub s srv) = SessionManager_Len srv"
  by (simp_all add: put_sub_def SessionManager_Len_def)

lemma length_put_sub:
  "SubscriptionManager_Get (sub_id s) srv \<noteq> None \<Longrightarrow> SubscriptionManager_Len (put_sub s srv) = SubscriptionManager_Len srv"
  by (auto simp: SubscriptionManager_Len_def put_sub_def length_update SubscriptionManager_Get_def map_of_eq_None_iff
      simp flip: not_None_eq)

lemma put_session_other [simp]:
  "sessionsByToken (put_session a s srv) = sessionsByToken srv" "maxSessionCount (put_session a s srv) = maxSessionCount srv"
  "maxSubscriptionCount (put_session a s srv) = maxSubscriptionCount srv"
  "subscriptionsByID (put_session a s srv) = subscriptionsByID srv"
  "SubscriptionManager_Get i (put_session a s srv) = SubscriptionManager_Get i srv"
  by (simp_all add: put_session_def SubscriptionManager_Get_def)

lemma inv_put_sub_ok:
  assumes inv: "server_inv srv" and old: "SubscriptionManager_Get (sub_id s) srv \<noteq> None"
    and s: "sub_ok s" "session_at srv (the (sub_session s)) \<noteq> None"
  shows "server_inv (put_sub s srv)"
proof -
  have "sub_table_ok (put_sub s srv)" using inv by (simp add: inv_defs put_sub_def distinct_update)
  moreover have "SubscriptionManager_Len (put_sub s srv) = SubscriptionManager_Len srv" using old by (simp add: length_put_sub)
  ultimately show ?thesis using inv s
    by (auto simp: server_inv_def limits_ok_def tokens_ok_def sessions_ok_def subs_ok_def session_table_ok_def split: if_splits)
qed

lemma inv_put_sub:
  assumes inv: "server_inv srv" and old: "SubscriptionManager_Get (sub_id s) srv = Some s0" and f: "same_frame s0 s"
  shows "server_inv (put_sub s srv)"
proof (rule inv_put_sub_ok [OF inv])
  from inv old have "sub_ok s0" "session_at srv (the (sub_session s0)) \<noteq> None" by (auto simp: server_inv_def subs_ok_def)
  with f show "sub_ok s" "session_at srv (the (sub_session s)) \<noteq> None"
    by (auto simp: same_frame_def intro: sub_ok_frame [OF f])
qed (simp add: old)

lemma inv_put_session:
  assumes inv: "server_inv srv" and old: "session_at srv a = Some s0" and f: "session_frame s0 s"
  shows "server_inv (put_session a s srv)"
proof -
  have "session_inv s0" using inv old by (simp add: server_inv_def sessions_ok_def)
  with f have "session_inv s" by (simp add: session_frame_def)
  moreover have "tokens_ok (put_session a s srv)"
    using inv old f by (fastforce simp: server_inv_def tokens_ok_def session_frame_def)
  ultimately show ?thesis using inv
    by (auto simp: server_inv_def limits_ok_def sessions_ok_def subs_ok_def session_table_ok_def sub_table_ok_def
        SessionManager_Len_def SubscriptionManager_Len_def)
qed

lemma inv_on_session:
  assumes "server_inv srv" and "\<And>s. session_frame s (f s)"
  shows "server_inv (on_session a f srv)"
proof (cases "session_at srv a")
  case (Some s)
  from inv_put_session [OF assms(1) Some assms(2)] Some show ?thesis by (simp add: on_session_def)
qed (use assms(1) in \<open>simp add: on_session_def\<close>)

lemma inv_counts: "server_inv srv \<Longrightarrow> server_inv (count_call svc a srv)" "server_inv srv \<Longrightarrow> server_inv (count_error svc a srv)"
  by (auto simp: count_call_def count_error_def intro!: inv_on_session split: option.splits)

lemma Get_Delete [simp]:
  "SubscriptionManager_Get i (SubscriptionManager_Delete j srv) = (if i = j then None else SubscriptionManager_Get i srv)"
  by (simp add: SubscriptionManager_Get_def Delete_sub_look)

lemma Delete_other [simp]:
  "session_at (SubscriptionManager_Delete j srv) a = session_at srv a"
  "sessionsByToken (SubscriptionManager_Delete j srv) = sessionsByToken srv"
  "maxSessionCount (SubscriptionManager_Delete j srv) = maxSessionCount srv"
  "maxSubscriptionCount (SubscriptionManager_Delete j srv) = maxSubscriptionCount srv"
  by (simp_all add: SubscriptionManager_Delete_def session_at_def Let_def)

lemma inv_Delete_sub:
  assumes "server_inv srv"
  shows "server_inv (SubscriptionManager_Delete j srv)"
proof -
  have b: "sub_table.bounded srv" using assms by (simp add: sub_table.bounded_def server_inv_def limits_ok_def)
  from sub_table.bounded_del [OF b, of j] assms show ?thesis
    by (auto simp: server_inv_def limits_ok_def tokens_ok_def sessions_ok_def subs_ok_def session_table_ok_def
        sub_table.bounded_def SessionManager_Len_def split: if_splits)
qed

lemma inv_Delete_session:
  assumes inv: "server_inv srv"
  shows "server_inv (SessionManager_Delete a srv)"
proof (cases "session_at srv a")
  case (Some s)
  let ?srv = "drop_token (authenticationToken s) srv"
  have b: "session_table.bounded srv" using inv by (simp add: session_table.bounded_def server_inv_def limits_ok_def)
  have lim: "limits_ok ?srv" using session_table.bounded_del [OF b, of "authenticationToken s"] inv
    by (simp add: session_table.bounded_def server_inv_def limits_ok_def sub_table_ok_def SubscriptionManager_Len_def
        drop_token_def Let_def)
  have subs: "SubscriptionManager_Get i ?srv = SubscriptionManager_Get i srv" for i
    by (simp add: SubscriptionManager_Get_def drop_token_def Let_def)
  have "tokens_ok (on_session a Session_delete ?srv)"
    unfolding tokens_ok_def
  proof (intro allI impI)
    fix k b
    assume "map_of (sessionsByToken (on_session a Session_delete ?srv)) k = Some b"
    then have k: "map_of (sessionsByToken srv) k = Some b" "k \<noteq> authenticationToken s" by (auto split: if_splits)
    with inv obtain t where t: "session_at srv b = Some t" "authenticationToken t = k" "publishRequests t \<noteq> None"
      by (force simp: server_inv_def tokens_ok_def)
    with k Some have "b \<noteq> a" by auto
    with t show "\<exists>s'. session_at (on_session a Session_delete ?srv) b = Some s' \<and> authenticationToken s' = k
        \<and> publishRequests s' \<noteq> None" by simp
  qed
  moreover have "sessions_ok (on_session a Session_delete ?srv)"
    using inv Some by (auto simp: server_inv_def sessions_ok_def session_inv_delete)
  moreover have "subs_ok (on_session a Session_delete ?srv)" "limits_ok (on_session a Session_delete ?srv)"
    using inv Some lim subs by (auto simp: server_inv_def subs_ok_def limits_ok_def on_session_def session_table_ok_def
      sub_table_ok_def SessionManager_Len_def SubscriptionManager_Len_def split: option.splits)
  ultimately show ?thesis by (simp add: SessionManager_Delete_def Some server_inv_def)
qed (use inv in \<open>simp add: SessionManager_Delete_def\<close>)

section \<open>The handlers\<close>

definition fine :: "outcome \<times> sent \<times> 'rd Server \<Rightarrow> bool" where
  "fine x \<longleftrightarrow> (case x of (r, out, srv) \<Rightarrow> r \<noteq> Panicked \<and> r \<noteq> Blocked \<and> server_inv srv)"

definition live :: "'rd Server \<Rightarrow> nat \<Rightarrow> bool" where
  "live srv a \<longleftrightarrow> (\<exists>s. session_at srv a = Some s \<and> publishRequests s \<noteq> None)"

lemma fine_reply: "server_inv srv \<Longrightarrow> fine (reply en c rid r srv)"
  by (simp add: fine_def reply_def split: option.splits)

lemma fine_refuse: "server_inv srv \<Longrightarrow> fine (refuse en c rid h svc a code srv)"
  by (simp add: refuse_def fine_reply inv_rejected inv_counts)

lemma inv_Get:
  assumes "server_inv srv" and "SessionManager_Get now token srv = (r, srv1)"
  shows "server_inv srv1 \<and> (case r of None \<Rightarrow> True | Some a \<Rightarrow> live srv1 a)"
proof (cases r)
  case None
  with assms show ?thesis by (auto simp: SessionManager_Get_def split: option.splits if_splits)
next
  case (Some a)
  with assms(2) obtain s where s: "map_of (sessionsByToken srv) token = Some a" "session_at srv a = Some s"
    "srv1 = put_session a (SetLastAccess now s) srv"
    by (auto simp: SessionManager_Get_def split: option.splits if_splits)
  with assms(1) have "publishRequests s \<noteq> None" by (force simp: server_inv_def tokens_ok_def)
  with s Some inv_put_session [OF assms(1) s(2), of "SetLastAccess now s"] show ?thesis
    by (simp add: live_def SetLastAccess_def)
qed

lemma live_counts [simp]: "live (count_call svc a srv) b = live srv b" "live (count_error svc a srv) b = live srv b"
  by (auto simp: live_def count_call_def count_error_def split: option.splits)

lemma fine_with_session:
  assumes inv: "server_inv srv" and body: "\<And>a srv2. server_inv srv2 \<Longrightarrow> live srv2 a \<Longrightarrow> fine (body a srv2)"
  shows "fine (with_session en now svc c rid h token body srv)"
proof (cases "cn_discoveryOnly c")
  case True
  have "server_inv (rejected (srv\<lparr>SecurityRejectedRequestsCount := n\<rparr>))" for n
    by (rule inv_same_tables [OF _ inv]) (simp add: same_tables_def rejected_def)
  with True show ?thesis by (simp add: with_session_unfold fine_def)
next
  case False
  obtain r srv1 where r: "SessionManager_Get now token srv = (r, srv1)" by (cases "SessionManager_Get now token srv")
  note g = inv_Get [OF inv r]
  show ?thesis
  proof (cases r)
    case None
    with False r g show ?thesis by (simp add: with_session_unfold fine_reply inv_rejected)
  next
    case (Some a)
    with False r g show ?thesis
      by (auto simp: with_session_unfold Let_def intro!: body fine_reply fine_refuse inv_Delete_session inv_rejected inv_inactive inv_counts)
  qed
qed

lemma live_put_sub [simp]: "live (put_sub s srv) a = live srv a"
  by (simp add: live_def)

lemma inv_subD:
  assumes "server_inv srv" and "SubscriptionManager_Get i srv = Some s"
  shows "sub_id s = i" "sub_ok s" "session_at srv (the (sub_session s)) \<noteq> None"
  using assms by (auto simp: server_inv_def subs_ok_def)

text \<open>Creation and modification.\<close>

lemma New_sub_ok: "sub_ok (startPublishing (NewSubscription a sid i iv lt ka mn en prio))"
proof -
  have "params_ok (NewSubscription a sid i iv lt ka mn en prio)" by (rule NewSubscription_params_ok)
  then have "params_ok (startPublishing (NewSubscription a sid i iv lt ka mn en prio))"
    by (simp add: params_ok_def startPublishing_def)
  then show ?thesis
    by (simp add: sub_ok_def startPublishing_def NewSubscription_def setMaxNotificationsPerPublish_def setLifetimeCount_def
      setMaxKeepAliveCount_def setPublishingInterval_def Let_def)
qed

lemma New_fields [simp]:
  "sub_id (startPublishing (NewSubscription a sid i iv lt ka mn en prio)) = i"
  "sub_session (startPublishing (NewSubscription a sid i iv lt ka mn en prio)) = Some a"
  "sub_id (NewSubscription a sid i iv lt ka mn en prio) = i"
  by (simp_all add: startPublishing_def NewSubscription_def setMaxNotificationsPerPublish_def setLifetimeCount_def
      setMaxKeepAliveCount_def setPublishingInterval_def Let_def)

lemma Modify_sub_ok:
  assumes "sub_ok s"
  shows "\<exists>s'. Subscription_Modify iv lt ka mn prio s = (Ok (), s') \<and> sub_ok s' \<and> sub_id s' = sub_id s
     \<and> sub_session s' = sub_session s \<and> sub_sessionId s' = sub_sessionId s"
proof -
  obtain s' where s': "Subscription_Modify iv lt ka mn prio s = (Ok (), s')"
    using assms by (simp add: sub_ok_def Subscription_Modify_def bnd_def stopPublishing_def Let_def)
  then have "params_ok s'" by (rule Modify_params_ok)
  with s' assms show ?thesis
    by (auto simp: sub_ok_def Subscription_Modify_def bnd_def stopPublishing_def startPublishing_def
      setMaxNotificationsPerPublish_def setLifetimeCount_def setMaxKeepAliveCount_def setPublishingInterval_def Let_def)
qed

text \<open>The new subscription is entered before it is started, so the invariant holds of the two steps together.\<close>

lemma inv_Add_put:
  assumes inv: "server_inv srv" and add: "SubscriptionManager_Add s srv = (None, srv2)" and ok: "sub_ok (startPublishing s)"
    and a: "session_at srv (the (sub_session s)) \<noteq> None"
  shows "server_inv (put_sub (startPublishing s) srv2)"
proof -
  have b: "sub_table.bounded srv" using inv by (simp add: sub_table.bounded_def server_inv_def limits_ok_def)
  have b2: "sub_table.bounded srv2" using sub_table.bounded_add [OF b, of s] add by simp
  have [simp]: "sub_id (startPublishing s) = sub_id s" "sub_session (startPublishing s) = sub_session s"
    by (simp_all add: startPublishing_def)
  have get: "SubscriptionManager_Get i srv2 = (if i = sub_id s then Some s else SubscriptionManager_Get i srv)"
    and other: "session_at srv2 = session_at srv" "sessionsByToken srv2 = sessionsByToken srv"
      "maxSessionCount srv2 = maxSessionCount srv" for i
    using add by (auto simp: SubscriptionManager_Add_def Let_def SubscriptionManager_Get_def put_sub_def update_conv'
      session_at_def split: if_splits)
  have len: "SubscriptionManager_Len (put_sub (startPublishing s) srv2) = SubscriptionManager_Len srv2"
    by (rule length_put_sub) (simp add: get)
  have "sub_table_ok (put_sub (startPublishing s) srv2)"
    using b2 by (simp add: sub_table.bounded_def sub_table_ok_def put_sub_def distinct_update)
  with b2 len inv other have "limits_ok (put_sub (startPublishing s) srv2)"
    by (auto simp: sub_table.bounded_def server_inv_def limits_ok_def session_table_ok_def SessionManager_Len_def)
  moreover have "subs_ok (put_sub (startPublishing s) srv2)"
    using inv ok a by (auto simp: server_inv_def subs_ok_def get other split: if_splits)
  ultimately show ?thesis using inv by (simp add: server_inv_def tokens_ok_def sessions_ok_def other)
qed

lemma fine_Create:
  assumes "server_inv srv"
  shows "fine (handleCreateSubscription en now c rid h token req srv)"
  unfolding handleCreateSubscription_def Let_def
proof (rule fine_with_session [OF assms], goal_cases)
  case (1 a srv)
  let ?i = "subscriptionID srv + 1"
  let ?s = "NewSubscription a (session_id_of srv a) ?i (sr_PublishingInterval req) (sr_LifetimeCount req)
                 (sr_MaxKeepAliveCount req) (sr_MaxNotificationsPerPublish req) (sr_PublishingEnabled req) (sr_Priority req)"
  let ?srv = "srv\<lparr>subscriptionID := ?i\<rparr>"
  have inv: "server_inv ?srv" by (rule inv_same_tables [OF _ 1(1)]) (simp add: same_tables_def)
  have a: "session_at ?srv a \<noteq> None" using 1(2) by (auto simp: live_def session_at_def)
  have ss: "sub_session ?s = Some a" using New_fields(2) by (simp add: startPublishing_def)
  obtain e srv2 where add: "SubscriptionManager_Add ?s ?srv = (e, srv2)" by (cases "SubscriptionManager_Add ?s ?srv")
  show ?case
  proof (cases e)
    case None
    with inv_Add_put [OF inv add [unfolded None] New_sub_ok] a ss add show ?thesis by (auto intro: fine_reply)
  next
    case (Some x)
    then have "srv2 = ?srv" using add by (auto simp: SubscriptionManager_Add_def Let_def split: if_splits)
    with inv add Some show ?thesis by (simp add: fine_refuse)
  qed
qed

lemma fine_Modify:
  assumes "server_inv srv"
  shows "fine (handleModifySubscription en now c rid h token i req srv)"
  unfolding handleModifySubscription_def
proof (rule fine_with_session [OF assms], goal_cases)
  case (1 a srv)
  show ?case
  proof (cases "SubscriptionManager_Get i srv")
    case (Some s)
    note s = inv_subD [OF 1(1) Some]
    obtain s' where m: "Subscription_Modify (sr_PublishingInterval req) (sr_LifetimeCount req) (sr_MaxKeepAliveCount req)
        (sr_MaxNotificationsPerPublish req) (sr_Priority req) s = (Ok (), s')"
      and s': "sub_ok s'" "sub_id s' = sub_id s" "sub_session s' = sub_session s"
      using Modify_sub_ok [OF s(2)] by blast
    have "server_inv (put_sub s' srv)" by (rule inv_put_sub_ok [OF 1(1)]) (use s s' Some in auto)
    with 1(1) m Some show ?thesis by (simp add: fine_refuse fine_reply)
  qed (simp add: 1 fine_refuse)
qed

text \<open>Modes and deletion.\<close>

lemma set_modes_inv:
  assumes "set_modes sid enabled ids srv = (rs, srv')" and "server_inv srv"
  shows "server_inv srv'"
  using assms
proof (induction ids arbitrary: srv rs)
  case (Cons i ids)
  show ?case
  proof (cases "SubscriptionManager_Get i srv")
    case (Some s)
    have "server_inv (put_sub (SetPublishingMode enabled s) srv)"
      using inv_subD [OF Cons.prems(2) Some] Some
      by (intro inv_put_sub [OF Cons.prems(2)]) (auto simp: SetPublishingMode_def same_frame_def)
    with Cons Some show ?thesis by (auto simp: Let_def split: prod.splits if_splits)
  qed (use Cons in \<open>auto simp: Let_def split: prod.splits\<close>)
qed simp

lemma fine_SetPublishingMode:
  assumes "server_inv srv"
  shows "fine (handleSetPublishingMode en now c rid h token enabled ids srv)"
  unfolding handleSetPublishingMode_def
  by (rule fine_with_session [OF assms]) (auto simp: fine_reply set_modes_inv split: prod.splits)

lemma sub_ok_delete: "sub_ok s \<Longrightarrow> \<exists>s'. deleteImpl s = (Ok (), s')"
  by (simp add: sub_ok_def deleteImpl_def bnd_def stopPublishing_def)

lemma delete_subs_inv:
  assumes "server_inv srv"
  shows "\<exists>rs srv'. delete_subs sid ids srv = (Ok rs, srv') \<and> server_inv srv' \<and> session_at srv' = session_at srv
    \<and> length rs = length ids"
  using assms
proof (induction ids arbitrary: srv)
  case (Cons i ids)
  show ?case
  proof (cases "SubscriptionManager_Get i srv")
    case None
    with Cons.IH [OF Cons.prems] show ?thesis by (auto simp: Let_def)
  next
    case (Some s)
    obtain s' where d: "deleteImpl s = (Ok (), s')" using sub_ok_delete inv_subD(2) [OF Cons.prems Some] by blast
    let ?srv = "if sub_sessionId s = sid then SubscriptionManager_Delete (sub_id s) srv else srv"
    have "server_inv ?srv" "session_at ?srv = session_at srv" using Cons.prems by (auto simp: inv_Delete_sub fun_eq_iff)
    with Cons.IH [of ?srv] Some d show ?thesis by (auto simp: Let_def split: if_splits)
  qed
qed simp

lemma fine_Delete:
  assumes "server_inv srv"
  shows "fine (handleDeleteSubscriptions en now ord c rid h token ids srv)"
  unfolding handleDeleteSubscriptions_def
proof (rule fine_with_session [OF assms], goal_cases)
  case (1 a srv)
  obtain rs srv1 where d: "delete_subs (session_id_of srv a) ids srv = (Ok rs, srv1)" and inv: "server_inv srv1"
    and at: "session_at srv1 = session_at srv" using delete_subs_inv [OF 1(1)] by blast
  from 1(2) at obtain s where s: "session_at srv1 a = Some s" by (auto simp: live_def)
  obtain e out s' where dr: "drain_requests (env_write en) now s = (e, out, s')" by (cases "drain_requests (env_write en) now s")
  have inv': "server_inv (put_session a s' srv1)" by (rule inv_put_session [OF inv s session_frame_drain [OF dr]])
  show ?case
  proof (cases "ids = []")
    case True
    then show ?thesis using 1(1) by (simp add: fine_refuse)
  next
    case False
    then show ?thesis using d inv s dr inv' by (auto simp: reply_def fine_def split: option.splits)
  qed
qed

text \<open>Publishing.\<close>

lemma acknowledge_ok:
  assumes "sub_ok s"
  shows "\<exists>b s'. acknowledge n s = (Ok b, s') \<and> same_frame s s'"
  using assms by (auto simp: sub_ok_def acknowledge_def same_frame_def split: option.splits)

lemma ack_all_inv:
  assumes "server_inv srv"
  shows "\<exists>rs srv'. ack_all as srv = (Ok rs, srv') \<and> server_inv srv' \<and> session_at srv' = session_at srv
    \<and> length rs = length as"
  using assms
proof (induction as arbitrary: srv)
  case (Cons x as)
  obtain i n where x: "x = (i, n)" by (cases x)
  show ?case
  proof (cases "SubscriptionManager_Get i srv")
    case None
    with Cons.IH [OF Cons.prems] x show ?thesis by auto
  next
    case (Some s)
    note s = inv_subD [OF Cons.prems Some]
    obtain b s' where a: "acknowledge n s = (Ok b, s')" "same_frame s s'" using acknowledge_ok [OF s(2)] by blast
    have "server_inv (put_sub s' srv)" using a s Some by (intro inv_put_sub [OF Cons.prems]) (auto simp: same_frame_def)
    from Cons.IH [OF this] Some a x show ?thesis by (fastforce simp: fun_eq_iff)
  qed
qed simp

lemma same_frame_sym: "same_frame s s' \<Longrightarrow> same_frame s' s"
  by (simp add: same_frame_def)

definition entered :: "'rd Server \<Rightarrow> Subscription \<Rightarrow> bool" where
  "entered srv s \<longleftrightarrow> (\<exists>s0. SubscriptionManager_Get (sub_id s) srv = Some s0 \<and> same_frame s0 s)"

lemma entered_ok: "server_inv srv \<Longrightarrow> entered srv s \<Longrightarrow> sub_ok s"
  using inv_subD(2) sub_ok_frame by (fastforce simp: entered_def)

lemma entered_put:
  assumes "entered srv s" and "same_frame s s'" and "entered srv t"
  shows "entered (put_sub s' srv) t"
proof -
  from assms obtain s0 t0 where s0: "SubscriptionManager_Get (sub_id s) srv = Some s0" "same_frame s0 s"
    and t0: "SubscriptionManager_Get (sub_id t) srv = Some t0" "same_frame t0 t" by (auto simp: entered_def)
  have i: "sub_id s' = sub_id s" using assms(2) by (simp add: same_frame_def)
  show ?thesis
  proof (cases "sub_id t = sub_id s")
    case True
    with s0 t0 have "t0 = s0" by simp
    then have "same_frame s' t" using s0 t0 assms(2) by (meson same_frame_sym same_frame_trans)
    with True i show ?thesis by (simp add: entered_def)
  next
    case False
    with t0 i show ?thesis by (simp add: entered_def)
  qed
qed

lemma try_late_inv:
  assumes "try_late en tn o1 o2 c rid req rs ss srv = (u, r, out, srv')" and "server_inv srv"
    and "\<forall>s\<in>set ss. entered srv s"
  shows "server_inv srv' \<and> session_at srv' = session_at srv \<and> r \<noteq> Panicked \<and> r \<noteq> Blocked"
  using assms
proof (induction ss arbitrary: srv out)
  case (Cons s ss)
  obtain used r1 out1 s' where l: "handleLatePublishRequest en tn (o1 (sub_id s)) (o2 (sub_id s)) (cn_ch c) rid req rs s
      = (used, r1, out1, s')" by (cases "handleLatePublishRequest en tn (o1 (sub_id s)) (o2 (sub_id s)) (cn_ch c) rid req rs s")
  have e: "entered srv s" using Cons.prems(3) by simp
  have ok: "sub_ok s" by (rule entered_ok [OF Cons.prems(2) e])
  note f = frame_late [OF l]
  have fr: "same_frame s s'" "r1 \<noteq> Panicked" "r1 \<noteq> Blocked" using f ok by (auto simp: sub_ok_def)
  obtain s0 where s0: "SubscriptionManager_Get (sub_id s) srv = Some s0" "same_frame s0 s" using e by (auto simp: entered_def)
  have inv: "server_inv (put_sub s' srv)"
    using s0 fr same_frame_trans [OF s0(2) fr(1)] by (intro inv_put_sub [OF Cons.prems(2)]) (auto simp: same_frame_def)
  have ent: "\<forall>t\<in>set ss. entered (put_sub s' srv) t" using Cons.prems(3) by (auto intro: entered_put [OF e fr(1)])
  have at: "session_at (put_sub s' srv) = session_at srv" by (simp add: fun_eq_iff)
  show ?case
  proof (cases "r1 = Returned None \<and> \<not> used")
    case True
    obtain u2 r2 out2 srv2 where t: "try_late en tn o1 o2 c rid req rs ss (put_sub s' srv) = (u2, r2, out2, srv2)"
      by (cases "try_late en tn o1 o2 c rid req rs ss (put_sub s' srv)")
    with True l Cons.prems(1) Cons.IH [OF _ inv ent] at show ?thesis by auto
  next
    case False
    with l Cons.prems(1) inv at fr show ?thesis by (auto split: outcome.splits option.splits if_splits)
  qed
qed auto

lemma GetBySession_entered:
  assumes "server_inv srv" and "s \<in> set (by_priority (GetBySession ord a srv))"
  shows "entered srv s"
proof -
  from assms(2) obtain i where i: "SubscriptionManager_Get i srv = Some s"
    by (auto simp: by_priority_def GetBySession_def map_filter_def)
  with inv_subD(1) [OF assms(1) i] show ?thesis by (auto simp: entered_def)
qed

lemma fine_Publish:
  assumes "server_inv srv"
  shows "fine (handlePublish en now ord o1 o2 c rid token req srv)"
  unfolding handlePublish_def
proof (rule fine_with_session [OF assms], goal_cases)
  case (1 a srv)
  obtain rs srv1 where k: "ack_all (pr_SubscriptionAcknowledgements req) srv = (Ok rs, srv1)" and inv: "server_inv srv1"
    and at: "session_at srv1 = session_at srv" using ack_all_inv [OF 1(1)] by blast
  from 1(2) at obtain s q where s: "session_at srv1 a = Some s" "publishRequests s = Some q" by (auto simp: live_def)
  show ?case
  proof (cases "stateChanges s")
    case (Cons op ops)
    have "server_inv (put_session a (s\<lparr>stateChanges := ops\<rparr>) srv1)" by (rule inv_put_session [OF inv s(1)]) simp
    with k s Cons show ?thesis by (simp add: fine_reply)
  next
    case Nil
    obtain u r out srv2 where t: "try_late en now o1 o2 c rid req rs (by_priority (GetBySession ord a srv1)) srv1 = (u, r, out, srv2)"
      by (cases "try_late en now o1 o2 c rid req rs (by_priority (GetBySession ord a srv1)) srv1")
    have ent: "\<forall>s\<in>set (by_priority (GetBySession ord a srv1)). entered srv1 s" using GetBySession_entered [OF inv] by blast
    note t' = try_late_inv [OF t inv ent]
    let ?op = "\<lparr>op_ch = cn_ch c, op_requestId = rid, op_req = req, op_results = rs\<rparr>"
    obtain e out' s' where ad: "addPublishRequest (env_write en) ?op s = Some (e, out', s')"
      using s(2) by (cases "add_publish (env_write en) ?op q") (simp add: addPublishRequest_def)
    have inv2: "server_inv (put_session a s' srv2)"
      using t' s(1) by (intro inv_put_session [OF _ _ session_frame_add [OF ad]]) auto
    show ?thesis using k s Nil t t' ad inv2 inv
      by (auto simp: fine_reply inv_counts) (auto simp: fine_def)
  qed
qed

lemma find_message_remove: "find_message n q = Some m \<Longrightarrow> remove_seq n q \<noteq> None"
  by (induction q) (auto split: if_splits)

lemma fine_Republish:
  assumes "server_inv srv"
  shows "fine (handleRepublish en now c rid h token i n srv)"
  unfolding handleRepublish_def
proof (rule fine_with_session [OF assms], goal_cases)
  case (1 a srv)
  show ?case
  proof (cases "SubscriptionManager_Get i srv")
    case (Some s)
    note s = inv_subD [OF 1(1) Some]
    then obtain q where q: "retransmissionQueue s = Some q" by (auto simp: sub_ok_def)
    let ?s = "s\<lparr>lifetimeCount := 0, republishRequestCount := republishRequestCount s + 1,
                       republishMessageRequestCount := republishMessageRequestCount s + 1\<rparr>"
    have inv: "server_inv (put_sub ?s srv)" using s Some by (intro inv_put_sub [OF 1(1)]) (auto simp: same_frame_def)
    have inv2: "server_inv (put_sub (?s\<lparr>republishMessageCount := republishMessageCount ?s + 1,
        retransmissionQueue := remove_seq n q\<rparr>) (put_sub ?s srv))" if "find_message n q = Some m" for m
      using find_message_remove [OF that] q by (intro inv_put_sub [OF inv]) (auto simp: same_frame_def)
    show ?thesis using Some q inv inv2
      by (auto simp: Let_def fine_reply inv_counts reply_def split: option.splits) (auto simp: fine_def inv_counts)
  qed (simp add: 1 fine_refuse)
qed

text \<open>Items.\<close>

lemma frame_setItemMode: "same_frame s (setItemMode en now i mode s)"
  by (auto simp: setItemMode_def same_frame_def Let_def split: option.splits MonitoredItem.splits prod.splits)

lemma frame_set_item_modes: "set_item_modes en now mode ids s = (rs, s') \<Longrightarrow> same_frame s s'"
proof (induction ids arbitrary: s rs)
  case (Cons i ids)
  then show ?case
    by (auto split: option.splits prod.splits intro: same_frame_trans [OF frame_setItemMode])
qed simp

lemma frame_delete_items: "delete_items ids s = (rs, s') \<Longrightarrow> same_frame s s'"
proof (induction ids arbitrary: s rs)
  case (Cons i ids)
  have "same_frame s (snd (DeleteItem i s))" by (simp add: DeleteItem_def same_frame_def split: option.splits)
  with Cons show ?case by (auto split: prod.splits intro: same_frame_trans)
qed simp

lemma frame_link_item: "same_frame s (snd (link_item f t l s))"
  by (simp add: link_item_def same_frame_def split: option.splits prod.splits)

lemma frame_link_all: "link_all f t ls s = (rs, s') \<Longrightarrow> same_frame s s'"
proof (induction ls arbitrary: s rs)
  case (Cons l ls)
  with frame_link_item [of s f t l] show ?case by (auto split: prod.splits intro: same_frame_trans)
qed simp

lemma fine_with_sub:
  assumes inv: "server_inv srv"
    and body: "\<And>s srv2. server_inv srv2 \<Longrightarrow> SubscriptionManager_Get (sub_id s) srv2 = Some s \<Longrightarrow> fine (body s srv2)"
  shows "fine (with_sub en c rid h svc i body a srv)"
proof (cases "SubscriptionManager_Get i srv")
  case (Some s)
  have "server_inv (put_sub (s\<lparr>lifetimeCount := 0\<rparr>) srv)"
    using inv_subD [OF inv Some] Some by (intro inv_put_sub [OF inv]) auto
  with Some show ?thesis by (simp add: with_sub_def Let_def body)
qed (simp add: with_sub_def inv fine_refuse)

lemma inv_put_frame:
  "server_inv srv \<Longrightarrow> SubscriptionManager_Get (sub_id s) srv = Some s \<Longrightarrow> same_frame s s' \<Longrightarrow> server_inv (put_sub s' srv)"
  by (rule inv_put_sub [of srv s' s]) (auto simp: same_frame_def)

lemma fine_SetMonitoringMode:
  assumes "server_inv srv"
  shows "fine (handleSetMonitoringMode en now c rid h token i mode ids srv)"
  unfolding handleSetMonitoringMode_def
  by (intro fine_with_session [OF assms] fine_with_sub)
     (auto simp: limited_def fine_refuse intro!: fine_reply inv_put_frame split: prod.splits dest: frame_set_item_modes)

lemma fine_DeleteMonitoredItems:
  assumes "server_inv srv"
  shows "fine (handleDeleteMonitoredItems en now c rid h token i ids srv)"
  unfolding handleDeleteMonitoredItems_def
  by (intro fine_with_session [OF assms] fine_with_sub)
     (auto simp: limited_def fine_refuse intro!: fine_reply inv_put_frame split: prod.splits dest: frame_delete_items)

lemma fine_SetTriggering:
  assumes "server_inv srv"
  shows "fine (handleSetTriggering en now c rid h token i trig adds removes srv)"
  unfolding handleSetTriggering_def
  by (intro fine_with_session [OF assms] fine_with_sub)
     (auto simp: fine_refuse intro!: fine_reply inv_put_frame split: prod.splits
       dest!: frame_link_all intro: same_frame_trans)

text \<open>Closing.\<close>

lemma close_subs_inv:
  assumes "server_inv srv" and "\<forall>s\<in>set ss. sub_ok s"
  shows "\<exists>srv'. close_subs ss srv = (Ok (), srv') \<and> server_inv srv'"
  using assms
proof (induction ss arbitrary: srv)
  case (Cons s ss)
  obtain s' where "deleteImpl s = (Ok (), s')" using sub_ok_delete Cons.prems(2) by (metis list.set_intros(1))
  with Cons.IH [OF inv_Delete_sub [OF Cons.prems(1), of "sub_id s"]] Cons.prems(2) show ?case by (simp add: Let_def)
qed simp

lemma fine_CloseSession:
  assumes "server_inv srv"
  shows "fine (handleCloseSession en now ord c rid h token del srv)"
  unfolding handleCloseSession_def
proof (rule fine_with_session [OF assms], goal_cases)
  case (1 a srv)
  have "\<forall>s\<in>set (GetBySession ord a srv). sub_ok s"
    using inv_subD(2) [OF 1(1)] by (auto simp: GetBySession_def map_filter_def)
  from close_subs_inv [OF 1(1) this] 1(1) show ?case by (auto intro!: fine_reply inv_Delete_session)
qed

lemma fine_Cancel: "server_inv srv \<Longrightarrow> fine (handleCancel en now c rid h token srv)"
  unfolding handleCancel_def by (rule fine_with_session) (simp_all add: fine_reply)

lemma fine_handleRequest: "server_inv srv \<Longrightarrow> fine (handleRequest en c rq srv)"
  by (cases rq) (simp_all add: fine_Publish fine_Republish fine_Create fine_Modify fine_SetPublishingMode fine_Delete
    fine_SetMonitoringMode fine_DeleteMonitoredItems fine_SetTriggering fine_CloseSession fine_Cancel)

section \<open>Ticks and periodic checks\<close>

lemma tick_inv:
  assumes inv: "server_inv srv" and t: "server_tick en tn now ord1 ord2 i srv = (r, out, srv')"
  shows "server_inv srv' \<and> r \<noteq> Panicked"
proof (cases "SubscriptionManager_Get i srv")
  case (Some s)
  note s = inv_subD [OF inv Some]
  then obtain a sess where a: "sub_session s = Some a" "session_at srv a = Some sess" by (auto simp: sub_ok_def)
  obtain r' out' d s' sess' where p: "publish en tn now ord1 ord2 s sess = (r', out', d, s', sess')"
    by (cases "publish en tn now ord1 ord2 s sess")
  from publish_ok [OF s(2), of sess en tn now ord1 ord2] p
  have ok: "session_frame sess sess'" "r' \<noteq> Panicked" "d \<or> same_frame s s'" by (simp_all add: cycle_ok_def)
  have inv1: "server_inv (put_session a sess' srv)" by (rule inv_put_session [OF inv a(2) ok(1)])
  have "server_inv (put_sub s' (put_session a sess' srv))" if "same_frame s s'"
    using that Some s(1) by (intro inv_put_frame [OF inv1]) auto
  with t Some a p ok inv1 show ?thesis by (auto simp: server_tick_def Let_def inv_Delete_sub split: if_splits)
qed (use inv t in \<open>auto simp: server_tick_def\<close>)

lemma drop_session_inv:
  assumes inv: "server_inv srv" and k: "map_of (sessionsByToken srv) k = Some a"
  shows "server_inv (on_session a Session_delete (drop_token k srv))"
proof -
  obtain s where s: "session_at srv a = Some s" "authenticationToken s = k"
    using inv k by (force simp: server_inv_def tokens_ok_def)
  with inv_Delete_session [OF inv, of a] show ?thesis by (simp add: SessionManager_Delete_def)
qed

lemma on_session_counter:
  "on_session a f (srv\<lparr>SessionTimeoutCount := n\<rparr>) = (on_session a f srv)\<lparr>SessionTimeoutCount := n\<rparr>"
  by (simp add: on_session_def session_at_def put_session_def split: option.splits)

lemma expire_sessions_inv:
  assumes "server_inv srv" and "distinct (map fst es)" and "\<forall>(k, a)\<in>set es. map_of (sessionsByToken srv) k = Some a"
  shows "server_inv (expire_sessions now es srv)"
  using assms
proof (induction es arbitrary: srv)
  case (Cons e es)
  obtain k a where e: "e = (k, a)" by (cases e)
  let ?srv = "on_session a Session_delete (drop_token k srv)"
  have k: "map_of (sessionsByToken srv) k = Some a" using Cons.prems(3) e by simp
  have inv: "server_inv ?srv" by (rule drop_session_inv [OF Cons.prems(1) k])
  have inv': "server_inv (?srv\<lparr>SessionTimeoutCount := n\<rparr>)" for n
    by (rule inv_same_tables [OF _ inv]) (simp add: same_tables_def)
  have rest: "\<forall>(k', a')\<in>set es. map_of (sessionsByToken ?srv) k' = Some a'"
    using Cons.prems(2,3) e by force
  have d: "distinct (map fst es)" using Cons.prems(2) by simp
  have rest': "\<forall>(k', a')\<in>set es. map_of (sessionsByToken (?srv\<lparr>SessionTimeoutCount := n\<rparr>)) k' = Some a'" for n
    using rest by simp
  show ?case
  proof (cases "\<exists>s. session_at srv a = Some s \<and> Session_IsExpired now s")
    case True
    with e Cons.IH [OF inv d rest] Cons.IH [OF inv' d rest'] show ?thesis
      by (auto simp: Let_def on_session_counter)
  next
    case False
    then have "expire_sessions now (e # es) srv = expire_sessions now es srv"
      by (auto simp: e split: option.splits)
    with Cons show ?thesis by auto
  qed
qed simp

lemma checkForExpiredSessions_inv: "server_inv srv \<Longrightarrow> server_inv (checkForExpiredSessions now srv)"
  unfolding checkForExpiredSessions_def
  by (rule expire_sessions_inv) (auto simp: server_inv_def limits_ok_def session_table_ok_def)

lemma expire_subs_inv:
  assumes "server_inv srv" and "\<forall>(k, s)\<in>set es. sub_ok s"
  shows "\<exists>srv'. expire_subs es srv = (Ok (), srv') \<and> server_inv srv'"
  using assms
proof (induction es arbitrary: srv)
  case (Cons e es)
  obtain k s where e: "e = (k, s)" by (cases e)
  obtain s' where "deleteImpl s = (Ok (), s')" using sub_ok_delete Cons.prems(2) e by auto
  with Cons.IH [OF inv_Delete_sub [OF Cons.prems(1), of k]] Cons.IH [OF Cons.prems(1)] Cons.prems(2) e show ?case
    by auto
qed simp

lemma checkForExpiredSubscriptions_inv:
  assumes "server_inv srv"
  shows "\<exists>srv'. checkForExpiredSubscriptions srv = (Ok (), srv') \<and> server_inv srv'"
proof -
  have "distinct (map fst (subscriptionsByID srv))" using assms by (simp add: server_inv_def limits_ok_def sub_table_ok_def)
  then have "sub_ok s" if "(k, s) \<in> set (subscriptionsByID srv)" for k s
    using inv_subD(2) [OF assms, of k s] that by (simp add: SubscriptionManager_Get_def)
  then show ?thesis unfolding checkForExpiredSubscriptions_def by (intro expire_subs_inv [OF assms]) auto
qed

section \<open>Reachable states\<close>

text \<open>
  A session enters with a token no session has; \<open>ActivateSession\<close> binds it to a channel
  (\<open>SetSecureChannelId\<close>).
  \<open>CreateMonitoredItems\<close> gives a subscription an item, here any item. A publishing goroutine that blocks makes no step.
\<close>

inductive server_reach :: "'rd Server \<Rightarrow> bool" where
  start: "server_reach (empty_server maxSess maxSub diag maxItems)"
| create: "server_reach srv \<Longrightarrow> session_at srv a = None \<Longrightarrow> map_of (sessionsByToken srv) token = None \<Longrightarrow>
    open_session a (NewSession now sid name token nonce tmo cert maxCP) srv = (r, srv') \<Longrightarrow> server_reach srv'"
| activate: "server_reach srv \<Longrightarrow> server_reach (on_session a (SetSecureChannelId ch) srv)"
| item: "server_reach srv \<Longrightarrow> SubscriptionManager_Get i srv = Some s \<Longrightarrow> AppendItem it s = (Ok b, s') \<Longrightarrow>
    server_reach (put_sub s' srv)"
| request: "server_reach srv \<Longrightarrow> handleRequest en c rq srv = (r, out, srv') \<Longrightarrow> server_reach srv'"
| tick: "server_reach srv \<Longrightarrow> server_tick en tn now ord1 ord2 i srv = (Returned e, out, srv') \<Longrightarrow> server_reach srv'"
| sessions: "server_reach srv \<Longrightarrow> server_reach (checkForExpiredSessions now srv)"
| subs: "server_reach srv \<Longrightarrow> checkForExpiredSubscriptions srv = (r, srv') \<Longrightarrow> server_reach srv'"

lemma empty_server_inv: "server_inv (empty_server maxSess maxSub diag maxItems)"
  by (simp add: inv_defs empty_server_def session_at_def SubscriptionManager_Get_def)

lemma open_session_inv:
  assumes inv: "server_inv srv" and a: "session_at srv a = None" and s: "session_inv s" "publishRequests s \<noteq> None"
    and op: "open_session a s srv = (r, srv')"
  shows "server_inv srv'"
proof -
  let ?srv = "put_session a s srv"
  have new: "b \<noteq> a" if "map_of (sessionsByToken srv) k = Some b" for k b
    using inv a that by (force simp: server_inv_def tokens_ok_def)
  have inv1: "server_inv ?srv"
    using inv a s new by (fastforce simp: server_inv_def tokens_ok_def sessions_ok_def subs_ok_def limits_ok_def
      session_table_ok_def sub_table_ok_def SessionManager_Len_def SubscriptionManager_Len_def)
  have b: "session_table.bounded ?srv" using inv1 by (simp add: session_table.bounded_def server_inv_def limits_ok_def)
  have b2: "session_table.bounded srv'"
    using session_table.bounded_add [OF b, of "(authenticationToken s, a)"] op by (simp add: open_session_def)
  show ?thesis
  proof (cases r)
    case (Some e)
    then have "srv' = ?srv" using op by (auto simp: open_session_def SessionManager_Add_def Let_def split: if_splits)
    with inv1 show ?thesis by simp
  next
    case None
    then have f: "map_of (sessionsByToken srv') = (map_of (sessionsByToken srv))(authenticationToken s \<mapsto> a)"
      "session_at srv' = session_at ?srv" "subscriptionsByID srv' = subscriptionsByID srv"
      "maxSubscriptionCount srv' = maxSubscriptionCount srv"
      using op by (auto simp: open_session_def SessionManager_Add_def Let_def update_conv' session_at_def split: if_splits)
    have "tokens_ok srv'" unfolding tokens_ok_def f
      using inv1 s by (auto simp: server_inv_def tokens_ok_def split: if_splits)
    moreover have "subs_ok srv'" "sessions_ok srv'"
      using inv1 f by (simp_all add: server_inv_def subs_ok_def sessions_ok_def SubscriptionManager_Get_def)
    moreover have "limits_ok srv'" using b2 inv1 f
      by (simp add: session_table.bounded_def server_inv_def limits_ok_def sub_table_ok_def SubscriptionManager_Len_def)
    ultimately show ?thesis by (simp add: server_inv_def)
  qed
qed

lemma server_reach_inv: "server_reach srv \<Longrightarrow> server_inv srv"
proof (induction rule: server_reach.induct)
  case (start maxSess maxSub diag maxItems)
  show ?case by (rule empty_server_inv)
next
  case (create srv a token now sid name nonce tmo cert maxCP r srv')
  show ?case
    by (rule open_session_inv [OF create.IH create.hyps(2) session_inv_New _ create.hyps(4)]) (simp add: NewSession_def)
next
  case (activate srv a ch)
  then show ?case by (intro inv_on_session) (simp_all add: session_frame_def SetSecureChannelId_def session_inv_def)
next
  case (item srv i s it b s')
  have "same_frame s s'" using item.hyps(3)
    by (auto simp: AppendItem_def same_frame_def split: if_splits option.splits)
  with item.hyps(2) inv_subD(1) [OF item.IH item.hyps(2)] show ?case by (intro inv_put_frame [OF item.IH]) auto
next
  case (request srv en c rq r out srv')
  with fine_handleRequest [OF request.IH, of en c rq] show ?case by (simp add: fine_def)
next
  case (tick srv en tn now ord1 ord2 i e out srv')
  from tick_inv [OF tick.IH tick.hyps(2)] show ?case by simp
next
  case (sessions srv now)
  then show ?case by (simp add: checkForExpiredSessions_inv)
next
  case (subs srv r srv')
  with checkForExpiredSubscriptions_inv [OF subs.IH] show ?case by auto
qed

end
