(* ===== verification/Service_Access.thy ===== *)
theory Service_Access
  imports Service_Safety
begin

text \<open>
  Who may change what: a request without an activated session on its own channel is
  refused, subscriptions are deleted for their owner only, a publish request is answered
  or parked; republishing and acknowledging ask for no ownership.
\<close>

section \<open>Who may change a subscription\<close>

definition authorized :: "instant \<Rightarrow> conn \<Rightarrow> NodeID option \<Rightarrow> 'rd Server \<Rightarrow> bool" where
  "authorized now c token srv \<longleftrightarrow> \<not> cn_discoveryOnly c
     \<and> (case map_of (sessionsByToken srv) token of
          None \<Rightarrow> False
        | Some a \<Rightarrow> (case session_at srv a of
              None \<Rightarrow> False
            | Some s \<Rightarrow> \<not> Session_IsExpired now s \<and> channelId s \<noteq> 0 \<and> channelId s = cn_id c))"

fun is_refusal :: "response \<Rightarrow> bool" where
  "is_refusal (ServiceFault _ code) \<longleftrightarrow> code \<in> {BadSessionIDInvalid, BadSessionNotActivated, BadSecureChannelIDInvalid}"
| "is_refusal (AbortMessage _) \<longleftrightarrow> True"
| "is_refusal _ \<longleftrightarrow> False"

lemma subs_on_session [simp]: "subscriptionsByID (on_session a f srv) = subscriptionsByID srv"
  by (simp add: on_session_def split: option.splits)

lemma subs_counts [simp]:
  "subscriptionsByID (count_call svc a srv) = subscriptionsByID srv"
  "subscriptionsByID (count_error svc a srv) = subscriptionsByID srv"
  "subscriptionsByID (rejected srv) = subscriptionsByID srv"
  "subscriptionsByID (SessionManager_Delete a srv) = subscriptionsByID srv"
  by (auto simp: count_call_def count_error_def rejected_def SessionManager_Delete_def drop_token_def Let_def split: option.splits)

lemma channel_counts [simp]: "channel_of (count_call svc a srv) b = channel_of srv b"
  by (auto simp: channel_of_def count_call_def split: option.splits)

lemma with_session_unauthorized:
  assumes "\<not> authorized now c token srv" and "with_session en now svc c rid h token body srv = (r, out, srv')"
  shows "subscriptionsByID srv' = subscriptionsByID srv \<and> length out \<le> 1 \<and> (\<forall>(ch, i, m)\<in>set out. is_refusal m)"
proof (cases "cn_discoveryOnly c")
  case True
  with assms(2) show ?thesis by (auto simp: with_session_unfold rejected_def)
next
  case False
  note simps = with_session_unfold SessionManager_Get_def reply_def refuse_def rejected_def Let_def
  show ?thesis
  proof (cases "\<exists>a s. map_of (sessionsByToken srv) token = Some a \<and> session_at srv a = Some s \<and> \<not> Session_IsExpired now s")
    case True
    then obtain a s where s: "map_of (sessionsByToken srv) token = Some a" "session_at srv a = Some s" "\<not> Session_IsExpired now s"
      by blast
    have ch: "channel_of (put_session a (SetLastAccess now s) srv) a = channelId s"
      by (simp add: channel_of_def SetLastAccess_def)
    have "channelId s = 0 \<or> channelId s \<noteq> cn_id c" using assms(1) False s by (auto simp: authorized_def)
    with assms(2) False s ch show ?thesis
      by (auto simp: with_session_unfold SessionManager_Get_def reply_def refuse_def count_inactive_def Let_def split: if_splits option.splits)
  next
    case no: False
    then have "SessionManager_Get now token srv = (None, srv)"
      by (auto simp: SessionManager_Get_def split: option.splits)
    with assms(2) False show ?thesis by (auto simp: with_session_unfold reply_def split: option.splits)
  qed
qed

lemma handleRequest_unauthorized:
  assumes "\<not> authorized (cl_now c) (cl_conn c) (cl_token c) srv" and "handleRequest en c rq srv = (r, out, srv')"
  shows "subscriptionsByID srv' = subscriptionsByID srv \<and> length out \<le> 1 \<and> (\<forall>(ch, i, m)\<in>set out. is_refusal m)"
  using assms(2)
  by (cases rq) (auto simp: handlePublish_def handleRepublish_def handleCreateSubscription_def handleModifySubscription_def
    handleSetPublishingMode_def handleDeleteSubscriptions_def handleSetMonitoringMode_def handleDeleteMonitoredItems_def
    handleSetTriggering_def handleCloseSession_def handleCancel_def dest!: with_session_unauthorized [OF assms(1)])

section \<open>What a request does to the subscriptions of others\<close>

lemma delete_subs_owned:
  assumes "server_inv srv" and "delete_subs sid ids srv = (Ok rs, srv')"
  shows "SubscriptionManager_Get i srv' = (case SubscriptionManager_Get i srv of
      None \<Rightarrow> None | Some s \<Rightarrow> if i \<in> set ids \<and> sub_sessionId s = sid then None else Some s)"
  using assms
proof (induction ids arbitrary: srv rs)
  case (Cons j ids)
  show ?case
  proof (cases "SubscriptionManager_Get j srv")
    case None
    with Cons.prems obtain rs' where "delete_subs sid ids srv = (Ok rs', srv')"
      by (auto simp: Let_def split: prod.splits res.splits)
    from Cons.IH [OF Cons.prems(1) this] None show ?thesis by (auto split: option.splits)
  next
    case (Some s)
    note s = inv_subD [OF Cons.prems(1) Some]
    obtain s' where d: "deleteImpl s = (Ok (), s')" using sub_ok_delete [OF s(2)] by blast
    let ?srv = "if sub_sessionId s = sid then SubscriptionManager_Delete (sub_id s) srv else srv"
    have "server_inv ?srv" using Cons.prems(1) by (simp add: inv_Delete_sub)
    moreover obtain rs' where "delete_subs sid ids ?srv = (Ok rs', srv')"
      using Cons.prems(2) Some d by (auto simp: Let_def split: prod.splits res.splits if_splits)
    ultimately have "SubscriptionManager_Get i srv' = (case SubscriptionManager_Get i ?srv of
      None \<Rightarrow> None | Some s \<Rightarrow> if i \<in> set ids \<and> sub_sessionId s = sid then None else Some s)" by (rule Cons.IH)
    then show ?thesis using Some s(1) by (auto split: option.splits if_splits)
  qed
qed (simp split: option.splits)

text \<open>An authorized request runs the body of its handler on the session of its token.\<close>

lemma with_session_authorized:
  assumes "authorized now c token srv"
  obtains a srv2 where "map_of (sessionsByToken srv) token = Some a"
    "\<forall>body. with_session en now svc c rid h token body srv = body a srv2"
    "subscriptionsByID srv2 = subscriptionsByID srv"
    "server_inv srv \<longrightarrow> server_inv srv2 \<and> live srv2 a"
    "session_id_of srv2 a = session_id_of srv a"
proof -
  from assms obtain a s where s: "map_of (sessionsByToken srv) token = Some a" "session_at srv a = Some s"
    "\<not> Session_IsExpired now s" "channelId s \<noteq> 0" "channelId s = cn_id c" "\<not> cn_discoveryOnly c"
    by (auto simp: authorized_def split: option.splits)
  let ?srv1 = "put_session a (SetLastAccess now s) srv"
  have g: "SessionManager_Get now token srv = (Some a, ?srv1)" using s by (simp add: SessionManager_Get_def)
  have ch: "channel_of ?srv1 a = cn_id c" using s by (simp add: channel_of_def SetLastAccess_def)
  show thesis
  proof (rule that [of a "count_call svc a ?srv1"])
    show "\<forall>body. with_session en now svc c rid h token body srv = body a (count_call svc a ?srv1)"
      using s g ch by (simp add: with_session_unfold Let_def)
    show "server_inv srv \<longrightarrow> server_inv (count_call svc a ?srv1) \<and> live (count_call svc a ?srv1) a"
      using inv_Get [OF _ g] by (simp add: inv_counts)
    show "session_id_of (count_call svc a ?srv1) a = session_id_of srv a"
      using s by (simp add: session_id_of_def count_call_def SetLastAccess_def split: option.splits)
  qed (use s in simp_all)
qed

lemma handleDelete_owned:
  assumes inv: "server_inv srv" and auth: "authorized now c token srv"
    and a: "map_of (sessionsByToken srv) token = Some a"
    and res: "handleDeleteSubscriptions en now ord c rid h token ids srv = (r, out, srv')"
  shows "SubscriptionManager_Get i srv' = (case SubscriptionManager_Get i srv of
      None \<Rightarrow> None | Some s \<Rightarrow> if i \<in> set ids \<and> sub_sessionId s = session_id_of srv a then None else Some s)"
proof -
  obtain srv2 where w: "\<forall>body. with_session en now (Some SvcDeleteSubscriptions) c rid h token body srv = body a srv2"
    and subs: "subscriptionsByID srv2 = subscriptionsByID srv" and inv2: "server_inv srv2"
    and sid: "session_id_of srv2 a = session_id_of srv a"
    using with_session_authorized
      [OF auth, where en = en and svc = "Some SvcDeleteSubscriptions" and rid = rid and h = h] a inv by (metis option.inject)
  have get: "SubscriptionManager_Get i srv2 = SubscriptionManager_Get i srv" using subs by (simp add: SubscriptionManager_Get_def)
  obtain rs srv3 where d: "delete_subs (session_id_of srv a) ids srv2 = (Ok rs, srv3)" using delete_subs_inv [OF inv2] by blast
  show ?thesis
  proof (cases "ids = []")
    case True
    with res w subs show ?thesis
      by (auto simp: handleDeleteSubscriptions_def refuse_def reply_def SubscriptionManager_Get_def split: option.splits)
  next
    case False
    with res w sid d have "subscriptionsByID srv' = subscriptionsByID srv3"
      by (auto simp: handleDeleteSubscriptions_def reply_def split: option.splits prod.splits if_splits)
    then have "SubscriptionManager_Get i srv' = SubscriptionManager_Get i srv3" by (simp add: SubscriptionManager_Get_def)
    with delete_subs_owned [OF inv2 d] get show ?thesis by simp
  qed
qed

text \<open>Republish hands a message to whoever asks for it, and forgets it.\<close>

lemma republish_to_anyone:
  assumes inv: "server_inv srv" and auth: "authorized now c token srv" and s: "SubscriptionManager_Get i srv = Some s"
    and q: "retransmissionQueue s = Some q" "find_message n q = Some m"
    and wr: "env_write en (cn_ch c) rid (RepublishResponse h m) = None"
  shows "\<exists>srv' s'. handleRepublish en now c rid h token i n srv = (Returned None, [(cn_ch c, rid, RepublishResponse h m)], srv')
    \<and> SubscriptionManager_Get i srv' = Some s' \<and> retransmissionQueue s' = remove_seq n q"
proof -
  obtain a srv2 where w: "\<forall>body. with_session en now (Some SvcRepublish) c rid h token body srv = body a srv2"
    and subs: "subscriptionsByID srv2 = subscriptionsByID srv"
    by (rule with_session_authorized [OF auth, where en = en and svc = "Some SvcRepublish" and rid = rid and h = h])
  have "sub_id s = i" using inv_subD(1) [OF inv s] .
  moreover have "SubscriptionManager_Get i srv2 = Some s" using s subs by (simp add: SubscriptionManager_Get_def)
  ultimately show ?thesis using q wr by (simp add: handleRepublish_def w reply_def Let_def)
qed

text \<open>Publish acknowledges messages of any subscription.\<close>

lemma try_late_others:
  assumes "try_late en tn o1 o2 c rid req rs ss srv = (u, r, out, srv')" and "server_inv srv"
    and "\<forall>s\<in>set ss. entered srv s" and "i \<notin> sub_id ` set ss"
  shows "SubscriptionManager_Get i srv' = SubscriptionManager_Get i srv"
  using assms
proof (induction ss arbitrary: srv out)
  case (Cons s ss)
  obtain used r1 out1 s' where l: "handleLatePublishRequest en tn (o1 (sub_id s)) (o2 (sub_id s)) (cn_ch c) rid req rs s
      = (used, r1, out1, s')" by (cases "handleLatePublishRequest en tn (o1 (sub_id s)) (o2 (sub_id s)) (cn_ch c) rid req rs s")
  have e: "entered srv s" using Cons.prems(3) by simp
  have ok: "sub_ok s" by (rule entered_ok [OF Cons.prems(2) e])
  have fr: "same_frame s s'" using frame_late [OF l] ok by (simp add: sub_ok_def)
  obtain s0 where s0: "SubscriptionManager_Get (sub_id s) srv = Some s0" "same_frame s0 s" using e by (auto simp: entered_def)
  have inv: "server_inv (put_sub s' srv)"
    using s0 fr same_frame_trans [OF s0(2) fr] by (intro inv_put_sub [OF Cons.prems(2)]) (auto simp: same_frame_def)
  have ent: "\<forall>t\<in>set ss. entered (put_sub s' srv) t" using Cons.prems(3) by (auto intro: entered_put [OF e fr])
  have get: "SubscriptionManager_Get i (put_sub s' srv) = SubscriptionManager_Get i srv"
    using Cons.prems(4) fr by (auto simp: same_frame_def)
  show ?case
  proof (cases "r1 = Returned None \<and> \<not> used")
    case True
    obtain u2 r2 out2 srv2 where t: "try_late en tn o1 o2 c rid req rs ss (put_sub s' srv) = (u2, r2, out2, srv2)"
      by (cases "try_late en tn o1 o2 c rid req rs ss (put_sub s' srv)")
    with True l Cons.prems(1,4) Cons.IH [OF _ inv ent] get show ?thesis by auto
  next
    case False
    with l Cons.prems(1) get show ?thesis by (auto split: outcome.splits option.splits if_splits)
  qed
qed auto

lemma publish_acknowledges_others:
  assumes inv: "server_inv srv" and auth: "authorized now c token srv"
    and s: "SubscriptionManager_Get i srv = Some s" "seq_inv s"
    and other: "sub_session s \<noteq> map_of (sessionsByToken srv) token"
    and req: "pr_SubscriptionAcknowledgements req = [(i, n)]"
    and res: "handlePublish en now ord o1 o2 c rid token req srv = (r, out, srv')"
  shows "\<exists>s'. SubscriptionManager_Get i srv' = Some s' \<and> numbers s' = filter (\<lambda>k. k \<noteq> n) (numbers s)"
proof -
  obtain a srv2 where a: "map_of (sessionsByToken srv) token = Some a"
    and w: "\<forall>body. with_session en now (Some SvcPublish) c rid (pr_RequestHandle req) token body srv = body a srv2"
    and subs: "subscriptionsByID srv2 = subscriptionsByID srv" and inv2: "server_inv srv \<longrightarrow> server_inv srv2 \<and> live srv2 a"
    by (rule with_session_authorized
      [OF auth, where en = en and svc = "Some SvcPublish" and rid = rid and h = "pr_RequestHandle req"])
  have get: "SubscriptionManager_Get i srv2 = Some s" using s(1) subs by (simp add: SubscriptionManager_Get_def)
  note so = inv_subD [OF _ get]
  have "retransmissionQueue s \<noteq> None" using so(2) inv inv2 by (simp add: sub_ok_def)
  then obtain s' where k: "acknowledge n s = (Ok (n \<in> set (numbers s)), s')" "numbers s' = filter (\<lambda>k. k \<noteq> n) (numbers s)"
    using acknowledge_spec [OF s(2)] by blast
  have f: "same_frame s s'" using k(1) acknowledge_ok [OF so(2), of n] inv inv2 by auto
  have id: "sub_id s' = i" using f so(1) inv inv2 by (simp add: same_frame_def)
  let ?srv = "put_sub s' srv2"
  have inv3: "server_inv ?srv" using inv inv2 get f id by (intro inv_put_sub [of srv2 s' s]) auto
  obtain rs where ack: "ack_all (pr_SubscriptionAcknowledgements req) srv2 = (Ok rs, ?srv)"
    using get k(1) by (simp add: req)
  have got: "SubscriptionManager_Get i ?srv = Some s'" using id by simp
  obtain sess where sess: "session_at ?srv a = Some sess" using inv inv2 by (auto simp: live_def)
  obtain u r2 out2 srv3 where t: "try_late en now o1 o2 c rid req rs (by_priority (GetBySession ord a ?srv)) ?srv
      = (u, r2, out2, srv3)" by (cases "try_late en now o1 o2 c rid req rs (by_priority (GetBySession ord a ?srv)) ?srv")
  have "i \<notin> sub_id ` set (by_priority (GetBySession ord a ?srv))"
  proof
    assume "i \<in> sub_id ` set (by_priority (GetBySession ord a ?srv))"
    then obtain t j where "SubscriptionManager_Get j ?srv = Some t" "sub_session t = Some a" "i = sub_id t"
      by (auto simp: by_priority_def GetBySession_def map_filter_def)
    moreover from this inv_subD(1) [OF inv3] have "j = i" by blast
    ultimately show False using got other a f by (auto simp: same_frame_def)
  qed
  then have late: "SubscriptionManager_Get i srv3 = Some s'"
    using try_late_others [OF t inv3] GetBySession_entered [OF inv3] got by simp
  have "SubscriptionManager_Get i srv' = Some s'"
    using res w ack sess t late got
    by (auto simp: handlePublish_def reply_def SubscriptionManager_Get_def split: list.splits option.splits if_splits prod.splits)
  with k(2) show ?thesis by blast
qed

text \<open>A publish request is answered or parked, when the channels accept what is written.\<close>

lemma late_used:
  assumes "handleLatePublishRequest en tn ord1 ord2 ch rid req rs s = (True, Returned None, out, s')"
  shows "\<exists>m. out = [(ch, rid, m)]"
  using assms
  by (auto simp: handleLatePublishRequest_def publish_data_def publish_keepalive_def Let_def
      split: if_splits option.splits prod.splits)

lemma try_late_used:
  assumes "try_late en tn o1 o2 c rid req rs ss srv = (True, Returned None, out, srv')"
  shows "\<exists>m. (cn_ch c, rid, m) \<in> set out"
  using assms
proof (induction ss arbitrary: srv out)
  case (Cons s ss)
  obtain used r1 out1 s' where l: "handleLatePublishRequest en tn (o1 (sub_id s)) (o2 (sub_id s)) (cn_ch c) rid req rs s
      = (used, r1, out1, s')" by (cases "handleLatePublishRequest en tn (o1 (sub_id s)) (o2 (sub_id s)) (cn_ch c) rid req rs s")
  show ?case
  proof (cases "r1 = Returned None \<and> \<not> used")
    case True
    obtain u2 r2 out2 srv2 where t: "try_late en tn o1 o2 c rid req rs ss (put_sub s' srv) = (u2, r2, out2, srv2)"
      by (cases "try_late en tn o1 o2 c rid req rs ss (put_sub s' srv)")
    with True l Cons.prems Cons.IH [of "put_sub s' srv" out2] show ?thesis by auto
  next
    case False
    with l Cons.prems show ?thesis
      by (auto split: outcome.splits option.splits if_splits dest!: late_used)
  qed
qed simp

lemma late_quiet:
  assumes "\<And>ch i m. env_write en ch i m = None"
    and "handleLatePublishRequest en tn ord1 ord2 ch rid req rs s = (u, Returned e, out, s')"
  shows "e = None"
  using assms
  by (auto simp: handleLatePublishRequest_def publish_data_def publish_keepalive_def Let_def
      split: if_splits option.splits prod.splits)

lemma try_late_quiet:
  assumes wr: "\<And>ch i m. env_write en ch i m = None"
    and "try_late en tn o1 o2 c rid req rs ss srv = (u, Returned e, out, srv')"
  shows "e = None"
  using assms(2)
proof (induction ss arbitrary: srv out)
  case (Cons s ss)
  obtain used r1 out1 s' where l: "handleLatePublishRequest en tn (o1 (sub_id s)) (o2 (sub_id s)) (cn_ch c) rid req rs s
      = (used, r1, out1, s')" by (cases "handleLatePublishRequest en tn (o1 (sub_id s)) (o2 (sub_id s)) (cn_ch c) rid req rs s")
  show ?case
  proof (cases "r1 = Returned None \<and> \<not> used")
    case True
    obtain u2 r2 out2 srv2 where t: "try_late en tn o1 o2 c rid req rs ss (put_sub s' srv) = (u2, r2, out2, srv2)"
      by (cases "try_late en tn o1 o2 c rid req rs ss (put_sub s' srv)")
    with True l Cons.prems Cons.IH [of "put_sub s' srv" out2] show ?thesis by auto
  next
    case False
    with l Cons.prems show ?thesis
      by (auto split: outcome.splits option.splits if_splits dest!: late_quiet [OF wr])
  qed
qed simp

lemma add_publish_quiet:
  assumes "\<And>ch i m. wr ch i m = None"
  shows "fst (add_publish wr x q) = None"
proof (induction q)
  case (Cons op q)
  from Cons.IH have "r = None" if "add_publish wr x q = (r, out, q')" for r out q' using that by simp
  with assms show ?case by (subst add_publish.simps) (auto split: prod.splits)
qed (subst add_publish.simps, simp)

lemma addPublishRequest_parks:
  assumes "publishRequests s = Some q" and "length q \<le> queue_cap" and "\<And>ch i m. wr ch i m = None"
  shows "\<exists>out s' q'. addPublishRequest wr x s = Some (None, out, s') \<and> publishRequests s' = Some q' \<and> x \<in> set q'"
proof -
  obtain r out q' where a: "add_publish wr x q = (r, out, q')" by (cases "add_publish wr x q")
  have "r = None" using a add_publish_quiet [where wr = wr and x = x and q = q, OF assms(3)] by simp
  with a assms(1) add_publish_bounded [OF assms(2), of wr x None out q'] show ?thesis
    by (auto simp: addPublishRequest_def)
qed

lemma publish_answered_or_parked:
  assumes inv: "server_inv srv" and auth: "authorized now c token srv" and wr: "\<And>ch i m. env_write en ch i m = None"
    and res: "handlePublish en now ord o1 o2 c rid token req srv = (r, out, srv')"
  shows "r = Returned None \<and> ((\<exists>m. (cn_ch c, rid, m) \<in> set out)
    \<or> (\<exists>a s q rs. map_of (sessionsByToken srv) token = Some a \<and> session_at srv' a = Some s \<and> publishRequests s = Some q
         \<and> \<lparr>op_ch = cn_ch c, op_requestId = rid, op_req = req, op_results = rs\<rparr> \<in> set q))"
proof -
  obtain a srv2 where a: "map_of (sessionsByToken srv) token = Some a"
    and w: "\<forall>body. with_session en now (Some SvcPublish) c rid (pr_RequestHandle req) token body srv = body a srv2"
    and inv2: "server_inv srv \<longrightarrow> server_inv srv2 \<and> live srv2 a"
    by (rule with_session_authorized
      [OF auth, where en = en and svc = "Some SvcPublish" and rid = rid and h = "pr_RequestHandle req"])
  obtain rs srv3 where ack: "ack_all (pr_SubscriptionAcknowledgements req) srv2 = (Ok rs, srv3)" and inv3: "server_inv srv3"
    and at: "session_at srv3 = session_at srv2" using ack_all_inv [of srv2] inv inv2 by blast
  obtain s q where s: "session_at srv3 a = Some s" "publishRequests s = Some q" using at inv inv2 by (auto simp: live_def)
  have len: "length q \<le> queue_cap" using inv3 s by (force simp: server_inv_def sessions_ok_def session_inv_defs)
  let ?op = "\<lparr>op_ch = cn_ch c, op_requestId = rid, op_req = req, op_results = rs\<rparr>"
  show ?thesis
  proof (cases "stateChanges s \<noteq> [] \<or> SubscriptionManager_Len srv3 = 0")
    case True
    with res w ack s wr show ?thesis by (auto simp: handlePublish_def reply_def split: list.splits)
  next
    case False
    let ?ss = "by_priority (GetBySession ord a srv3)"
    obtain u r2 out2 srv4 where t: "try_late en now o1 o2 c rid req rs ?ss srv3 = (u, r2, out2, srv4)"
      by (cases "try_late en now o1 o2 c rid req rs ?ss srv3")
    have "r2 \<noteq> Panicked" "r2 \<noteq> Blocked"
      using try_late_inv [OF t inv3] GetBySession_entered [OF inv3] by blast+
    then have r2: "r2 = Returned None" using t try_late_quiet [OF wr] by (cases r2) auto
    show ?thesis
    proof (cases u)
      case True
      with res w ack s False t r2 have r: "r = Returned None" "out = out2" by (auto simp: handlePublish_def)
      with t r2 True have "try_late en now o1 o2 c rid req rs ?ss srv3 = (True, Returned None, out, srv4)" by simp
      from try_late_used [OF this] r show ?thesis by blast
    next
      case no: False
      obtain out' s' q' where ad: "addPublishRequest (env_write en) ?op s = Some (None, out', s')"
        "publishRequests s' = Some q'" "?op \<in> set q'" using addPublishRequest_parks [OF s(2) len, where wr = "env_write en", OF wr] by blast
      with res w ack s False t r2 no have "r = Returned None" "srv' = put_session a s' srv4"
        by (auto simp: handlePublish_def)
      with ad a show ?thesis by fastforce
    qed
  qed
qed

end
