(* ===== verification/Server_Examples.thy ===== *)
theory Server_Examples
  imports Examples Service_Access
begin

text \<open>A server with two sessions; the subscription of the first has a message to resend.\<close>

definition tokA :: "NodeID option" where "tokA = Some (NodeIDNumeric 1 11)"
definition tokB :: "NodeID option" where "tokB = Some (NodeIDNumeric 1 12)"

definition connA :: conn where "connA = \<lparr>cn_ch = 5, cn_id = 1, cn_discoveryOnly = False\<rparr>"
definition connB :: conn where "connB = \<lparr>cn_ch = 6, cn_id = 2, cn_discoveryOnly = False\<rparr>"

definition callA :: call where
  "callA = \<lparr>cl_now = 0, cl_ord = [1], cl_o1 = (\<lambda>_. [5]), cl_o2 = (\<lambda>_. [5]), cl_conn = connA, cl_rid = 1, cl_token = tokA\<rparr>"
definition callB :: call where
  "callB = \<lparr>cl_now = 0, cl_ord = [1], cl_o1 = (\<lambda>_. [5]), cl_o2 = (\<lambda>_. [5]), cl_conn = connB, cl_rid = 2, cl_token = tokB\<rparr>"

definition srvA :: "nat Server" where
  "srvA = snd (open_session 0 (NewSession 0 (Some (NodeIDNumeric 1 1)) ''a'' tokA [] (Fin 60000) [] 2) (empty_server 10 10 True 0))"
definition srvB :: "nat Server" where
  "srvB = snd (open_session 1 (NewSession 0 (Some (NodeIDNumeric 1 2)) ''b'' tokB [] (Fin 60000) [] 2) srvA)"
definition srv0 :: "nat Server" where
  "srv0 = on_session 1 (SetSecureChannelId 2) (on_session 0 (SetSecureChannelId 1) srvB)"
text \<open>The first session has a subscription with an event to send and a message to resend.\<close>

definition subA :: Subscription where
  "subA = startPublishing (NewSubscription 0 (Some (NodeIDNumeric 1 1)) 1 (Fin 500) 1000 10 0 True 0)
     \<lparr>sub_items := Some [(5, EventItem event0)], retransmissionQueue := Some [msg0 1], nextSequenceNumber := 2\<rparr>"

definition srv1 :: "nat Server" where
  "srv1 = srv0\<lparr>subscriptionsByID := [(1, subA)], subscriptionID := 1\<rparr>"

lemma reach_create:
  assumes "server_reach srv" and "session_at srv a = None" and "map_of (sessionsByToken srv) token = None"
  shows "server_reach (snd (open_session a (NewSession now sid name token nonce tmo cert maxCP) srv))"
  by (rule server_reach.create [OF assms, of now sid name nonce tmo cert maxCP
      "fst (open_session a (NewSession now sid name token nonce tmo cert maxCP) srv)"]) simp

lemmas srv0_simps = srv0_def srvA_def srvB_def open_session_def SessionManager_Add_def SessionManager_Len_def
  put_session_def tokA_def tokB_def NewSession_def Let_def empty_server_def session_at_def on_session_def
  SetSecureChannelId_def

lemma srv0_reach: "server_reach srv0"
proof -
  have "server_reach srvA" unfolding srvA_def
    by (rule reach_create [OF server_reach.start]) (simp_all add: empty_server_def session_at_def)
  then have "server_reach srvB" unfolding srvB_def by (rule reach_create) (simp_all add: srv0_simps)
  then show ?thesis unfolding srv0_def by (intro server_reach.activate)
qed

lemma srv0_sessions:
  "\<exists>s. session_at srv0 0 = Some s \<and> channelId s = 1 \<and> sessionId s = Some (NodeIDNumeric 1 1) \<and> \<not> Session_IsExpired 0 s"
  "\<exists>s. session_at srv0 1 = Some s \<and> channelId s = 2 \<and> sessionId s = Some (NodeIDNumeric 1 2) \<and> \<not> Session_IsExpired 0 s"
  "map_of (sessionsByToken srv0) tokA = Some 0" "map_of (sessionsByToken srv0) tokB = Some 1"
  "SessionManager_Len srv0 = 2" "maxSessionCount srv0 = 10" "maxSubscriptionCount srv0 = 10" "subscriptionsByID srv0 = []"
  by (simp_all add: srv0_simps Session_IsExpired_def rat_trunc_def quot_int_def)

lemma srv1_tables:
  "session_at srv1 a = session_at srv0 a" "sessionsByToken srv1 = sessionsByToken srv0"
  "SubscriptionManager_Get i srv1 = (if i = 1 then Some subA else None)"
  "SubscriptionManager_Len srv1 = 1" "session_id_of srv1 a = session_id_of srv0 a"
  by (simp_all add: srv1_def session_at_def SubscriptionManager_Get_def SubscriptionManager_Len_def session_id_of_def)

lemma srv1_authorized: "authorized 0 connA tokA srv1" "authorized 0 connB tokB srv1" "\<not> authorized 0 connB tokA srv1"
  using srv0_sessions by (auto simp: authorized_def connA_def connB_def srv1_tables)

lemma subA_fields:
  "sub_ok subA" "sub_id subA = 1" "sub_session subA = Some 0" "sub_sessionId subA = Some (NodeIDNumeric 1 1)"
  "retransmissionQueue subA = Some [msg0 1]" "nextSequenceNumber subA = 2" "seq_inv subA" "numbers subA = [1]"
proof -
  have "sub_ok (startPublishing (NewSubscription 0 (Some (NodeIDNumeric 1 1)) 1 (Fin 500) 1000 10 0 True 0))" by (rule New_sub_ok)
  then show "sub_ok subA" by (simp add: subA_def sub_ok_def params_ok_def)
  show "sub_id subA = 1" "sub_session subA = Some 0" by (simp_all add: subA_def)
  show "retransmissionQueue subA = Some [msg0 1]" "nextSequenceNumber subA = 2" by (simp_all add: subA_def)
  show "sub_sessionId subA = Some (NodeIDNumeric 1 1)" by (simp add: subA_def startPublishing_def NewSubscription_def
    setMaxNotificationsPerPublish_def setLifetimeCount_def setMaxKeepAliveCount_def setPublishingInterval_def Let_def)
  show "numbers subA = [1]" by (simp add: subA_def numbers_def msg0_def)
  show "seq_inv subA" by (simp add: subA_def seq_inv_def msg0_def queue_inv_def age_def
    maxRetransmissionQueueLength_def)
qed

lemma srv1_inv: "server_inv srv1"
proof -
  have "server_inv srv0" by (rule server_reach_inv [OF srv0_reach])
  then show ?thesis using srv0_sessions subA_fields
    by (auto simp: inv_defs srv1_def session_at_def SubscriptionManager_Get_def)
qed

end
