(* ===== verification/Roles.thy ===== *)
theory Roles
  imports Monitored_Item
begin

text \<open>
  Roles and permissions (\<open>server/roles_provider.go\<close> and the permission methods of the
  nodes): which roles the mapping rules give an identity, what the permissions of the
  roles allow, and the access level a user has on a variable. The hexadecimal SHA-1 of a
  certificate is the argument \<open>thumb\<close>.
\<close>

section \<open>Permissions\<close>

record RolePermissionType =
  RoleID :: "NodeID option"
  Permissions :: u32

definition PermissionTypeBrowse :: u32 where "PermissionTypeBrowse = 1"
definition PermissionTypeReadRolePermissions :: u32 where "PermissionTypeReadRolePermissions = 2"
definition PermissionTypeWriteHistorizing :: u32 where "PermissionTypeWriteHistorizing = 16"
definition PermissionTypeRead :: u32 where "PermissionTypeRead = 32"
definition PermissionTypeWrite :: u32 where "PermissionTypeWrite = 64"
definition PermissionTypeReadHistory :: u32 where "PermissionTypeReadHistory = 128"
definition PermissionTypeCall :: u32 where "PermissionTypeCall = 4096"

fun IsUserPermitted :: "RolePermissionType list \<Rightarrow> u32 \<Rightarrow> bool" where
  "IsUserPermitted [] p = False"
| "IsUserPermitted (rp # rps) p = (if Permissions rp AND p \<noteq> 0 then True else IsUserPermitted rps p)"

lemma IsUserPermitted_iff: "IsUserPermitted rps p \<longleftrightarrow> (\<exists>rp\<in>set rps. Permissions rp AND p \<noteq> 0)"
  by (induction rps) auto

section \<open>Mapping rules\<close>

datatype IdentityCriteriaType =
    CriteriaUserName | CriteriaThumbprint | CriteriaRole | CriteriaGroupID | CriteriaAnonymous | CriteriaAuthenticatedUser

record IdentityMappingRule =
  rule_NodeID :: "NodeID option"
  Identities :: "(IdentityCriteriaType \<times> string) list"
  ApplicationsExclude :: bool
  Applications :: "string list"
  EndpointsExclude :: bool
  Endpoints :: "string list"

text \<open>The roles a rule adds for its identities; \<open>None\<close> is the early return on an unknown identity.\<close>

definition criterion_met :: "(bytes \<Rightarrow> string) \<Rightarrow> identity \<Rightarrow> IdentityCriteriaType \<times> string \<Rightarrow> bool option" where
  "criterion_met thumb uid c = (case uid of
       AnonymousIdentity \<Rightarrow> Some (fst c = CriteriaAnonymous)
     | UserNameIdentity user _ \<Rightarrow>
         Some (fst c = CriteriaAuthenticatedUser \<or> (fst c = CriteriaUserName \<and> snd c = user))
     | X509Identity cert \<Rightarrow>
         Some (fst c = CriteriaAuthenticatedUser \<or> (fst c = CriteriaThumbprint \<and> snd c = thumb cert))
     | IssuedIdentity _ \<Rightarrow> Some (fst c = CriteriaAuthenticatedUser)
     | NoIdentity \<Rightarrow> None)"

fun add_roles :: "(bytes \<Rightarrow> string) \<Rightarrow> identity \<Rightarrow> NodeID option \<Rightarrow> (IdentityCriteriaType \<times> string) list \<Rightarrow>
    NodeID option list \<Rightarrow> NodeID option list option" where
  "add_roles thumb uid role [] roles = Some roles"
| "add_roles thumb uid role (c # cs) roles = (case criterion_met thumb uid c of
       None \<Rightarrow> None
     | Some b \<Rightarrow> add_roles thumb uid role cs (if b then roles @ [role] else roles))"

definition applies :: "bool \<Rightarrow> string list \<Rightarrow> string \<Rightarrow> bool" where
  "applies exclude xs x = (if x \<in> set xs then \<not> exclude else exclude)"

text \<open>
  The loop over the rules. A rule whose applications or endpoints do not fit ends the
  loop: the \<open>break\<close> in the source, commented as going on with the next rule, leaves it.
\<close>

fun collect_roles :: "(bytes \<Rightarrow> string) \<Rightarrow> identity \<Rightarrow> string \<Rightarrow> string \<Rightarrow> IdentityMappingRule list \<Rightarrow>
    NodeID option list \<Rightarrow> NodeID option list option" where
  "collect_roles thumb uid app ep [] roles = Some roles"
| "collect_roles thumb uid app ep (rule # rules) roles =
     (if \<not> applies (ApplicationsExclude rule) (Applications rule) app then Some roles
      else if \<not> applies (EndpointsExclude rule) (Endpoints rule) ep then Some roles
      else case add_roles thumb uid (rule_NodeID rule) (Identities rule) roles of
             None \<Rightarrow> None
           | Some roles' \<Rightarrow> collect_roles thumb uid app ep rules roles')"

definition BadUserAccessDenied :: StatusCode where "BadUserAccessDenied = 0x801F0000"

definition GetRoles :: "(bytes \<Rightarrow> string) \<Rightarrow> IdentityMappingRule list \<Rightarrow> identity \<Rightarrow> string \<Rightarrow> string \<Rightarrow>
    goerr + NodeID option list" where
  "GetRoles thumb rules uid app ep = (case collect_roles thumb uid app ep rules [] of
       None \<Rightarrow> Inl (Status BadUserAccessDenied)
     | Some [] \<Rightarrow> Inl (Status BadUserAccessDenied)
     | Some roles \<Rightarrow> Inr roles)"

text \<open>What the rules mean: a rule gives its role when it fits the connection and one of its criteria holds.\<close>

definition fits :: "string \<Rightarrow> string \<Rightarrow> IdentityMappingRule \<Rightarrow> bool" where
  "fits app ep rule \<longleftrightarrow> applies (ApplicationsExclude rule) (Applications rule) app \<and> applies (EndpointsExclude rule) (Endpoints rule) ep"

definition grants :: "(bytes \<Rightarrow> string) \<Rightarrow> identity \<Rightarrow> IdentityMappingRule \<Rightarrow> bool" where
  "grants thumb uid rule \<longleftrightarrow> (\<exists>c\<in>set (Identities rule). criterion_met thumb uid c = Some True)"

lemma criterion_met_Some: "uid \<noteq> NoIdentity \<Longrightarrow> \<exists>b. criterion_met thumb uid c = Some b"
  by (cases uid) (auto simp: criterion_met_def)

lemma add_roles_spec:
  assumes "uid \<noteq> NoIdentity"
  shows "\<exists>roles'. add_roles thumb uid role cs roles = Some roles'
    \<and> set roles' = set roles \<union> (if \<exists>c\<in>set cs. criterion_met thumb uid c = Some True then {role} else {})"
proof (induction cs arbitrary: roles)
  case (Cons c cs)
  obtain b where b: "criterion_met thumb uid c = Some b" using criterion_met_Some [OF assms] by blast
  from Cons [of "if b then roles @ [role] else roles"] obtain roles' where
    "add_roles thumb uid role cs (if b then roles @ [role] else roles) = Some roles'"
    "set roles' = set (if b then roles @ [role] else roles)
       \<union> (if \<exists>c\<in>set cs. criterion_met thumb uid c = Some True then {role} else {})" by blast
  with b show ?case by (cases b) auto
qed simp

text \<open>The roles come from the rules before the first that does not fit.\<close>

lemma collect_roles_spec:
  assumes "uid \<noteq> NoIdentity"
  shows "\<exists>roles'. collect_roles thumb uid app ep rules roles = Some roles'
    \<and> set roles' = set roles \<union> rule_NodeID ` {rule \<in> set (takeWhile (fits app ep) rules). grants thumb uid rule}"
proof (induction rules arbitrary: roles)
  case (Cons rule rules)
  show ?case
  proof (cases "fits app ep rule")
    case True
    obtain r1 where r1: "add_roles thumb uid (rule_NodeID rule) (Identities rule) roles = Some r1"
      "set r1 = set roles \<union> (if grants thumb uid rule then {rule_NodeID rule} else {})"
      using add_roles_spec [OF assms] unfolding grants_def by blast
    obtain r2 where "collect_roles thumb uid app ep rules r1 = Some r2"
      "set r2 = set r1 \<union> rule_NodeID ` {rule \<in> set (takeWhile (fits app ep) rules). grants thumb uid rule}"
      using Cons.IH by blast
    moreover have "applies (ApplicationsExclude rule) (Applications rule) app" "applies (EndpointsExclude rule) (Endpoints rule) ep"
      using True by (simp_all add: fits_def)
    ultimately show ?thesis using True r1 by auto
  qed (auto simp: fits_def)
qed simp

lemma GetRoles_spec:
  assumes "uid \<noteq> NoIdentity"
  shows "GetRoles thumb rules uid app ep = Inr roles \<Longrightarrow>
      set roles = rule_NodeID ` {rule \<in> set (takeWhile (fits app ep) rules). grants thumb uid rule}"
    and "(\<exists>roles. GetRoles thumb rules uid app ep = Inr roles) \<longleftrightarrow>
      (\<exists>rule\<in>set (takeWhile (fits app ep) rules). grants thumb uid rule)"
  using collect_roles_spec [OF assms, of thumb app ep rules "[]"]
  by (fastforce simp: GetRoles_def split: list.splits)+

lemma GetRoles_all_fit:
  assumes "uid \<noteq> NoIdentity" and "\<forall>rule\<in>set rules. fits app ep rule" and "GetRoles thumb rules uid app ep = Inr roles"
  shows "role \<in> set roles \<longleftrightarrow> (\<exists>rule\<in>set rules. rule_NodeID rule = role \<and> grants thumb uid rule)"
  using GetRoles_spec(1) [OF assms(1,3)] assms(2) by (auto simp: takeWhile_eq_all_conv [THEN iffD2])

section \<open>Permissions of a user on a node\<close>

text \<open>The roles the server gives an identity, its default permissions, and the permissions of the node.\<close>

record role_env =
  re_rules :: "IdentityMappingRule list"
  re_thumb :: "bytes \<Rightarrow> string"
  re_rolePermissions :: "RolePermissionType list"

definition user_roles :: "role_env \<Rightarrow> identity \<Rightarrow> goerr + NodeID option list" where
  "user_roles re uid = GetRoles (re_thumb re) (re_rules re) uid [] []"

definition node_permissions :: "role_env \<Rightarrow> RolePermissionType list option \<Rightarrow> RolePermissionType list" where
  "node_permissions re rps = (case rps of None \<Rightarrow> re_rolePermissions re | Some xs \<Rightarrow> xs)"

definition UserRolePermissions :: "role_env \<Rightarrow> RolePermissionType list option \<Rightarrow> identity \<Rightarrow> RolePermissionType list" where
  "UserRolePermissions re rps uid = (case user_roles re uid of
       Inl _ \<Rightarrow> []
     | Inr roles \<Rightarrow> concat (map (\<lambda>role. filter (\<lambda>rp. RoleID rp = role) (node_permissions re rps)) roles))"

text \<open>The method nodes have the loops the other way round.\<close>

definition Method_UserRolePermissions :: "role_env \<Rightarrow> RolePermissionType list option \<Rightarrow> identity \<Rightarrow> RolePermissionType list" where
  "Method_UserRolePermissions re rps uid = (case user_roles re uid of
       Inl _ \<Rightarrow> []
     | Inr roles \<Rightarrow> concat (map (\<lambda>rp. map (\<lambda>_. rp) (filter (\<lambda>r. RoleID rp = r) roles)) (node_permissions re rps)))"

definition AccessLevelsCurrentRead :: byte where "AccessLevelsCurrentRead = 1"
definition AccessLevelsCurrentWrite :: byte where "AccessLevelsCurrentWrite = 2"
definition AccessLevelsHistoryRead :: byte where "AccessLevelsHistoryRead = 4"

definition some_permission :: "NodeID option list \<Rightarrow> RolePermissionType list \<Rightarrow> u32 \<Rightarrow> bool" where
  "some_permission roles rps p \<longleftrightarrow> list_ex (\<lambda>role. list_ex (\<lambda>rp. RoleID rp = role \<and> Permissions rp AND p \<noteq> 0) rps) roles"

definition UserAccessLevel :: "role_env \<Rightarrow> RolePermissionType list option \<Rightarrow> byte \<Rightarrow> identity \<Rightarrow> byte" where
  "UserAccessLevel re rps accessLevel uid = (case user_roles re uid of
       Inl _ \<Rightarrow> 0
     | Inr roles \<Rightarrow>
         (let ps = node_permissions re rps;
              a = (if some_permission roles ps PermissionTypeRead then accessLevel
                   else accessLevel AND NOT AccessLevelsCurrentRead);
              b = (if some_permission roles ps PermissionTypeWrite then a else a AND NOT AccessLevelsCurrentWrite)
          in if some_permission roles ps PermissionTypeReadHistory then b else b AND NOT AccessLevelsHistoryRead))"

definition UserExecutable :: "role_env \<Rightarrow> RolePermissionType list option \<Rightarrow> bool \<Rightarrow> identity \<Rightarrow> bool" where
  "UserExecutable re rps executable uid \<longleftrightarrow> executable \<and> (case user_roles re uid of
       Inl _ \<Rightarrow> False
     | Inr roles \<Rightarrow> some_permission roles (node_permissions re rps) PermissionTypeCall)"

text \<open>One predicate says what all three mean.\<close>

definition permitted :: "role_env \<Rightarrow> RolePermissionType list option \<Rightarrow> identity \<Rightarrow> u32 \<Rightarrow> bool" where
  "permitted re rps uid p \<longleftrightarrow> (\<exists>roles rp. user_roles re uid = Inr roles \<and> rp \<in> set (node_permissions re rps)
     \<and> RoleID rp \<in> set roles \<and> Permissions rp AND p \<noteq> 0)"

lemma permitted_URP: "IsUserPermitted (UserRolePermissions re rps uid) p \<longleftrightarrow> permitted re rps uid p"
  by (cases "user_roles re uid") (auto simp: IsUserPermitted_iff UserRolePermissions_def permitted_def)

lemma permitted_Method: "IsUserPermitted (Method_UserRolePermissions re rps uid) p \<longleftrightarrow> permitted re rps uid p"
  by (cases "user_roles re uid") (fastforce simp: IsUserPermitted_iff Method_UserRolePermissions_def permitted_def)+

lemma some_permission_iff:
  "some_permission roles rps p \<longleftrightarrow> (\<exists>rp\<in>set rps. RoleID rp \<in> set roles \<and> Permissions rp AND p \<noteq> 0)"
  by (auto simp: some_permission_def list_ex_iff)

lemma permitted_some: "user_roles re uid = Inr roles \<Longrightarrow> some_permission roles (node_permissions re rps) p \<longleftrightarrow> permitted re rps uid p"
  by (auto simp: some_permission_iff permitted_def)

lemma UserExecutable_iff: "UserExecutable re rps x uid \<longleftrightarrow> x \<and> permitted re rps uid PermissionTypeCall"
  by (auto simp: UserExecutable_def permitted_some [symmetric] split: sum.splits) (auto simp: permitted_def)

lemmas access_defs = AccessLevelsCurrentRead_def AccessLevelsCurrentWrite_def AccessLevelsHistoryRead_def

lemma access_masks:
  "bit AccessLevelsCurrentRead k \<longleftrightarrow> k = 0" "bit AccessLevelsCurrentWrite k \<longleftrightarrow> k = 1" "bit AccessLevelsHistoryRead k \<longleftrightarrow> k = 2"
proof -
  have "bit ((2 :: byte) ^ n) k \<longleftrightarrow> k = n" if "n < 8" for n using that by (auto simp: bit_exp_iff possible_bit_def)
  from this [of 0] this [of 1] this [of 2]
  show "bit AccessLevelsCurrentRead k \<longleftrightarrow> k = 0" "bit AccessLevelsCurrentWrite k \<longleftrightarrow> k = 1" "bit AccessLevelsHistoryRead k \<longleftrightarrow> k = 2"
    by (simp_all add: access_defs)
qed

lemma UserAccessLevel_bits:
  "bit (UserAccessLevel re rps lvl uid) k \<longleftrightarrow> bit lvl k \<and> (\<exists>roles. user_roles re uid = Inr roles)
     \<and> (k = 0 \<longrightarrow> permitted re rps uid PermissionTypeRead)
     \<and> (k = 1 \<longrightarrow> permitted re rps uid PermissionTypeWrite)
     \<and> (k = 2 \<longrightarrow> permitted re rps uid PermissionTypeReadHistory)"
proof (cases "user_roles re uid")
  case (Inr roles)
  note p = permitted_some [OF Inr, of rps]
  have len: "k < 8" if "bit lvl k" using that bit_imp_le_length [OF that] by simp
  show ?thesis using Inr len
    by (auto simp: UserAccessLevel_def Let_def p bit_and_iff bit_not_iff access_masks)
qed (simp add: UserAccessLevel_def)

lemma access_mask:
  "x AND AccessLevelsCurrentRead \<noteq> 0 \<longleftrightarrow> bit x 0" "x AND AccessLevelsCurrentWrite \<noteq> 0 \<longleftrightarrow> bit x 1"
proof -
  have "x AND m \<noteq> 0 \<longleftrightarrow> bit x n" if "\<And>k. bit m k \<longleftrightarrow> k = n" for m :: byte and n
  proof -
    have "bit (x AND m) k \<longleftrightarrow> bit x n \<and> k = n" for k using that by (auto simp: bit_and_iff)
    then show ?thesis by (metis bit_0_eq bot_apply bit_word_eqI bot_bool_def)
  qed
  then show "x AND AccessLevelsCurrentRead \<noteq> 0 \<longleftrightarrow> bit x 0" "x AND AccessLevelsCurrentWrite \<noteq> 0 \<longleftrightarrow> bit x 1"
    using access_masks by blast+
qed

lemma user_can_read: "UserAccessLevel re rps lvl uid AND AccessLevelsCurrentRead \<noteq> 0 \<longleftrightarrow>
    lvl AND AccessLevelsCurrentRead \<noteq> 0 \<and> permitted re rps uid PermissionTypeRead"
  by (auto simp: access_mask UserAccessLevel_bits permitted_def)

lemma user_can_write: "UserAccessLevel re rps lvl uid AND AccessLevelsCurrentWrite \<noteq> 0 \<longleftrightarrow>
    lvl AND AccessLevelsCurrentWrite \<noteq> 0 \<and> permitted re rps uid PermissionTypeWrite"
  by (auto simp: access_mask UserAccessLevel_bits permitted_def)

end
