(* ===== verification/Runes.thy ===== *)
theory Runes
  imports Go_Text
begin

text \<open>
  The conversions \<open>[]rune(s)\<close> and \<open>string(rs)\<close> of the Go language: UTF-8 decoding,
  where every byte that starts no valid sequence stands for U+FFFD, and encoding,
  where a number that is no rune is written as U+FFFD. Bytes and runes are naturals.
\<close>

definition RuneError :: nat where "RuneError = 0xFFFD"

definition cont :: "nat \<Rightarrow> bool" where "cont b \<longleftrightarrow> 0x80 \<le> b \<and> b \<le> 0xBF"

text \<open>The range of the second byte depends on the first (no overlong forms, no surrogates).\<close>

definition second3 :: "nat \<Rightarrow> nat \<Rightarrow> bool" where
  "second3 b c \<longleftrightarrow> (if b = 0xE0 then 0xA0 else 0x80) \<le> c \<and> c \<le> (if b = 0xED then 0x9F else 0xBF)"

definition second4 :: "nat \<Rightarrow> nat \<Rightarrow> bool" where
  "second4 b c \<longleftrightarrow> (if b = 0xF0 then 0x90 else 0x80) \<le> c \<and> c \<le> (if b = 0xF4 then 0x8F else 0xBF)"

text \<open>The first rune and its width.\<close>

definition rune1 :: "nat \<Rightarrow> nat list \<Rightarrow> nat \<times> nat" where
  "rune1 b bs =
     (if b < 0x80 then (b, 1)
      else if 0xC2 \<le> b \<and> b \<le> 0xDF then
        (case bs of c # _ \<Rightarrow> if cont c then ((b - 0xC0) * 64 + (c - 0x80), 2) else (RuneError, 1) | _ \<Rightarrow> (RuneError, 1))
      else if 0xE0 \<le> b \<and> b \<le> 0xEF then
        (case bs of c # d # _ \<Rightarrow>
           if second3 b c \<and> cont d then ((b - 0xE0) * 4096 + (c - 0x80) * 64 + (d - 0x80), 3) else (RuneError, 1)
         | _ \<Rightarrow> (RuneError, 1))
      else if 0xF0 \<le> b \<and> b \<le> 0xF4 then
        (case bs of c # d # e # _ \<Rightarrow>
           if second4 b c \<and> cont d \<and> cont e
           then ((b - 0xF0) * 262144 + (c - 0x80) * 4096 + (d - 0x80) * 64 + (e - 0x80), 4) else (RuneError, 1)
         | _ \<Rightarrow> (RuneError, 1))
      else (RuneError, 1))"

fun decode_runes :: "nat list \<Rightarrow> nat list" where
  "decode_runes [] = []"
| "decode_runes (b # bs) = (case rune1 b bs of (r, w) \<Rightarrow> r # decode_runes (drop (w - 1) bs))"

definition is_rune :: "nat \<Rightarrow> bool" where
  "is_rune r \<longleftrightarrow> r \<le> 0x10FFFF \<and> \<not> (0xD800 \<le> r \<and> r \<le> 0xDFFF)"

definition encode_rune :: "nat \<Rightarrow> nat list" where
  "encode_rune r =
     (if r < 0x80 then [r]
      else if r < 0x800 then [0xC0 + r div 64, 0x80 + r mod 64]
      else if \<not> is_rune r then [0xEF, 0xBF, 0xBD]
      else if r < 0x10000 then [0xE0 + r div 4096, 0x80 + r div 64 mod 64, 0x80 + r mod 64]
      else [0xF0 + r div 262144, 0x80 + r div 4096 mod 64, 0x80 + r div 64 mod 64, 0x80 + r mod 64])"

definition runes :: "string \<Rightarrow> nat list" where
  "runes s = decode_runes (map of_char s)"

definition string_of_runes :: "nat list \<Rightarrow> string" where
  "string_of_runes rs = map char_of (concat (map encode_rune rs))"

lemma is_rune_error [simp]: "is_rune RuneError"
  by (simp add: is_rune_def RuneError_def)

lemma rune1_is_rune: "is_rune (fst (rune1 b bs))"
proof -
  consider "b < 0x80" | "0xC2 \<le> b \<and> b \<le> 0xDF" | "0xE0 \<le> b \<and> b \<le> 0xEF" | "0xF0 \<le> b \<and> b \<le> 0xF4"
    | "rune1 b bs = (RuneError, 1)"
    by (cases "b < 0x80"; cases "0xC2 \<le> b \<and> b \<le> 0xDF"; cases "0xE0 \<le> b \<and> b \<le> 0xEF"; cases "0xF0 \<le> b \<and> b \<le> 0xF4")
      (simp_all add: rune1_def)
  then show ?thesis
  proof cases
    case 1
    then show ?thesis by (simp add: rune1_def is_rune_def)
  next
    case 2
    then show ?thesis by (auto simp: rune1_def cont_def is_rune_def RuneError_def split: list.splits)
  next
    case 3
    have "is_rune ((b - 0xE0) * 4096 + (c - 0x80) * 64 + (d - 0x80))" if "second3 b c" "cont d" for c d
      using that 3 unfolding second3_def cont_def is_rune_def by (auto split: if_splits)
    with 3 show ?thesis by (auto simp: rune1_def split: list.splits)
  next
    case 4
    have "is_rune ((b - 0xF0) * 262144 + (c - 0x80) * 4096 + (d - 0x80) * 64 + (e - 0x80))" if "second4 b c" "cont d" "cont e" for c d e
      using that 4 unfolding second4_def cont_def is_rune_def by (auto split: if_splits)
    with 4 show ?thesis by (auto simp: rune1_def split: list.splits)
  qed simp
qed

lemma digits64:
  fixes r :: nat
  shows "r = r div 64 * 64 + r mod 64"
    and "r = r div 4096 * 4096 + r div 64 mod 64 * 64 + r mod 64"
    and "r = r div 262144 * 262144 + r div 4096 mod 64 * 4096 + r div 64 mod 64 * 64 + r mod 64"
proof -
  show a: "r = r div 64 * 64 + r mod 64" by simp
  have b: "r div 64 = r div 4096 * 64 + r div 64 mod 64" using div_mult_mod_eq [of "r div 64" 64] by (simp add: div_mult2_eq [symmetric])
  with a show c: "r = r div 4096 * 4096 + r div 64 mod 64 * 64 + r mod 64" by linarith
  have "r div 4096 = r div 262144 * 64 + r div 4096 mod 64"
    using div_mult_mod_eq [of "r div 4096" 64] by (simp add: div_mult2_eq [symmetric])
  with c show "r = r div 262144 * 262144 + r div 4096 mod 64 * 4096 + r div 64 mod 64 * 64 + r mod 64" by linarith
qed

lemma mod64 [simp]: "cont (0x80 + n mod 64)"
  using mod_less_divisor [of 64 n] by (simp add: cont_def)

lemma rune1_encode:
  assumes "is_rune r"
  shows "\<exists>b cs. encode_rune r = b # cs \<and> rune1 b (cs @ bs) = (r, Suc (length cs))"
proof -
  consider "r < 0x80" | "0x80 \<le> r" "r < 0x800" | "0x800 \<le> r" "r < 0x10000" | "0x10000 \<le> r" by linarith
  then show ?thesis
  proof cases
    case 1
    then show ?thesis by (simp add: encode_rune_def rune1_def)
  next
    case 2
    then have "0xC2 \<le> 0xC0 + r div 64 \<and> 0xC0 + r div 64 \<le> 0xDF" by (auto simp: div_less_iff_less_mult less_eq_div_iff_mult_less_eq)
    with 2 digits64(1) [of r] show ?thesis by (simp add: encode_rune_def rune1_def)
  next
    case 3
    let ?b = "0xE0 + r div 4096" and ?c = "0x80 + r div 64 mod 64"
    have y: "r div 64 mod 64 < 64" "r mod 64 < 64" by simp_all
    have "0xE0 \<le> ?b \<and> ?b \<le> 0xEF" using 3 by (simp add: div_less_iff_less_mult less_eq_div_iff_mult_less_eq)
    moreover have "second3 ?b ?c"
      using y digits64(2) [of r] 3 assms unfolding second3_def is_rune_def by (auto split: if_splits)
    ultimately show ?thesis using 3 assms digits64(2) [of r] by (simp add: encode_rune_def rune1_def)
  next
    case 4
    let ?b = "0xF0 + r div 262144" and ?c = "0x80 + r div 4096 mod 64"
    have y: "n mod 64 \<le> 63" for n :: nat using mod_less_divisor [of 64 n] by linarith
    note y = y [of "r div 4096"] y [of "r div 64"] y [of r]
    have r: "r \<le> 0x10FFFF" using assms by (simp add: is_rune_def)
    have "0xF0 \<le> ?b \<and> ?b \<le> 0xF4" using r digits64(3) [of r] by linarith
    moreover have "second4 ?b ?c"
      using y digits64(3) [of r] 4 r unfolding second4_def by (auto split: if_splits)
    ultimately show ?thesis using 4 assms digits64(3) [of r] by (simp add: encode_rune_def rune1_def)
  qed
qed

lemma encode_rune_byte:
  assumes "b \<in> set (encode_rune r)"
  shows "b < 256"
proof -
  have "n mod 64 < 64" for n :: nat by simp
  moreover have "r div 64 < 32" if "r < 0x800" using that by (simp add: div_less_iff_less_mult)
  moreover have "r div 4096 < 16" if "r < 0x10000" using that by (simp add: div_less_iff_less_mult)
  moreover have "r div 262144 < 5" if "is_rune r" using that by (simp add: is_rune_def div_less_iff_less_mult)
  ultimately show ?thesis using assms by (fastforce simp: encode_rune_def add.commute split: if_splits intro: le_less_trans)
qed

lemma decode_runes_encode: "\<forall>r\<in>set rs. is_rune r \<Longrightarrow> decode_runes (concat (map encode_rune rs)) = rs"
proof (induction rs)
  case (Cons r rs)
  let ?t = "concat (map encode_rune rs)"
  obtain b cs where "encode_rune r = b # cs" "rune1 b (cs @ ?t) = (r, Suc (length cs))"
    using rune1_encode Cons.prems by (meson list.set_intros(1))
  with Cons show ?case by simp
qed simp

lemma decode_runes_are_runes: "r \<in> set (decode_runes bs) \<Longrightarrow> is_rune r"
proof (induction bs rule: decode_runes.induct)
  case (2 b bs)
  then show ?case using rune1_is_rune [of b bs] by (cases "rune1 b bs") auto
qed simp

lemma runes_string_of_runes:
  assumes "\<forall>r\<in>set rs. is_rune r"
  shows "runes (string_of_runes rs) = rs"
proof -
  have "map (of_char \<circ> char_of) (concat (map encode_rune rs)) = concat (map encode_rune rs)"
    by (rule map_idI) (auto simp: of_char_of dest!: encode_rune_byte)
  with decode_runes_encode [OF assms] show ?thesis by (simp add: runes_def string_of_runes_def)
qed

lemma runes_are_runes: "r \<in> set (runes s) \<Longrightarrow> is_rune r"
  by (simp add: runes_def decode_runes_are_runes)

end
