(* ===== verification/Index_Range.thy ===== *)
theory Index_Range
  imports Runes Monitored_Item
begin

text \<open>
  Index ranges (\<open>parseBounds\<close>, \<open>readRange\<close>, \<open>writeRange\<close>, \<open>validateIndexRange\<close> and
  \<open>selectTimestamps\<close> of \<open>server/server_service_set.go\<close>). The twenty-seven cases of the
  type switches do the same to lists of different element types; strings are treated
  as lists of runes. A failed type assertion is \<open>Panic\<close>.
\<close>

section \<open>Bounds\<close>

text \<open>\<open>strconv.ParseInt(s, 10, bits)\<close>; \<open>None\<close> is an error.\<close>

definition ParseInt :: "string \<Rightarrow> nat \<Rightarrow> int option" where
  "ParseInt s bits =
     (let neg = (s \<noteq> [] \<and> hd s = CHR ''-'');
          t = (if s \<noteq> [] \<and> (hd s = CHR ''-'' \<or> hd s = CHR ''+'') then tl s else s)
      in case ParseUint t bits of
           (_, Some _) \<Rightarrow> None
         | (n, None) \<Rightarrow>
             (if \<not> neg \<and> n \<ge> 2 ^ (bits - 1) then None
              else if neg \<and> n > 2 ^ (bits - 1) then None
              else Some (if neg then - int n else int n)))"

text \<open>The part \<open>parseBounds\<close> and \<open>validateIndexRange\<close> share; without a colon \<open>hi\<close> is \<open>-1\<close>.\<close>

definition range_bounds :: "string \<Rightarrow> (int \<times> int) option" where
  "range_bounds s = (case Index s (CHR '':'') of
       Some k \<Rightarrow> (case (ParseInt (take k s) 32, ParseInt (drop (Suc k) s) 32) of
           (Some lo, Some hi) \<Rightarrow> if hi < 0 \<or> lo \<ge> hi \<or> lo < 0 then None else Some (lo, hi)
         | _ \<Rightarrow> None)
     | None \<Rightarrow> (case ParseInt s 32 of
           Some lo \<Rightarrow> if lo < 0 then None else Some (lo, -1)
         | None \<Rightarrow> None))"

definition parseBounds :: "string \<Rightarrow> nat \<Rightarrow> int \<times> int \<times> StatusCode" where
  "parseBounds s n =
     (if n = 0 then (-1, -1, BadIndexRangeNoData)
      else if s = [] then (0, int n, Good)
      else case range_bounds s of
             None \<Rightarrow> (-1, -1, BadIndexRangeInvalid)
           | Some (lo, hi) \<Rightarrow>
               (if lo \<ge> int n then (-1, -1, BadIndexRangeNoData)
                else let hi1 = (if hi \<ge> int n then int n - 1 else hi);
                         hi2 = (if hi1 = -1 then lo else hi1)
                     in (lo, hi2 + 1, Good)))"

lemma index_range_bad [simp]: "IsBad BadIndexRangeInvalid" "IsBad BadIndexRangeNoData" "\<not> IsBad Good"
  by (simp_all add: IsBad_def BadIndexRangeInvalid_def BadIndexRangeNoData_def Good_def)

lemma parseBounds_bounds:
  assumes "parseBounds s n = (i, j, st)" and "\<not> IsBad st"
  shows "0 \<le> i \<and> i < j \<and> j \<le> int n"
proof -
  have "0 \<le> lo \<and> (hi = -1 \<or> lo < hi)" if "range_bounds s = Some (lo, hi)" for lo hi
    using that by (auto simp: range_bounds_def split: option.splits if_splits)
  with assms show ?thesis
    by (auto simp: parseBounds_def Let_def split: if_splits option.splits prod.splits)
qed

lemma parseBounds_status: "parseBounds s n = (i, j, st) \<Longrightarrow> st \<in> {Good, BadIndexRangeInvalid, BadIndexRangeNoData}"
  by (auto simp: parseBounds_def Let_def split: if_splits option.splits prod.splits)

text \<open>The text of a range is read as it is meant.\<close>

lemma show_nat_hd: "hd (show_nat n) \<noteq> CHR ''-'' \<and> hd (show_nat n) \<noteq> CHR ''+''"
  using show_nat_chars [of "hd (show_nat n)" n] by auto

lemma ParseInt_show_nat:
  assumes "n < 2 ^ 31"
  shows "ParseInt (show_nat n) 32 = Some (int n)"
  using assms ParseUint_show_nat [of n 32] show_nat_hd [of n] by (simp add: ParseInt_def Let_def)

lemma range_bounds_show:
  assumes "hi < 2 ^ 31" and "lo < hi"
  shows "range_bounds (show_nat lo @ CHR '':'' # show_nat hi) = Some (int lo, int hi)"
  using assms by (simp add: range_bounds_def Index_append ParseInt_show_nat)

lemma range_bounds_single: "n < 2 ^ 31 \<Longrightarrow> range_bounds (show_nat n) = Some (int n, -1)"
  by (simp add: range_bounds_def Index_None [THEN iffD2] ParseInt_show_nat)

lemma parseBounds_show:
  assumes "hi < 2 ^ 31" and "lo < hi" and "lo < n"
  shows "parseBounds (show_nat lo @ CHR '':'' # show_nat hi) n = (int lo, int (min (Suc hi) n), Good)"
  using assms by (auto simp: parseBounds_def range_bounds_show Let_def min_def)

lemma parseBounds_single:
  assumes "lo < 2 ^ 31" and "lo < n"
  shows "parseBounds (show_nat lo) n = (int lo, int lo + 1, Good)"
  using assms by (auto simp: parseBounds_def range_bounds_single Let_def)

section \<open>Reading and writing a range of a list\<close>

definition sub_list :: "int \<Rightarrow> int \<Rightarrow> 'a list \<Rightarrow> 'a list" where
  "sub_list i j xs = take (nat (j - i)) (drop (nat i) xs)"

definition replace_range :: "int \<Rightarrow> int \<Rightarrow> 'a list \<Rightarrow> 'a list \<Rightarrow> 'a list" where
  "replace_range i j ys xs = take (nat i) xs @ ys @ drop (nat j) xs"

definition read_list :: "string \<Rightarrow> 'a list \<Rightarrow> StatusCode + 'a list" where
  "read_list r xs = (case parseBounds r (length xs) of
     (i, j, st) \<Rightarrow> if IsBad st then Inl st else Inr (sub_list i j xs))"

definition write_list :: "string \<Rightarrow> 'a list \<Rightarrow> 'a list \<Rightarrow> StatusCode + 'a list" where
  "write_list r ys xs = (case parseBounds r (length xs) of
     (i, j, st) \<Rightarrow> if IsBad st then Inl st
       else if j - i \<noteq> int (length ys) then Inl BadIndexRangeNoData
       else Inr (replace_range i j ys xs))"

text \<open>
  What a range promises: it is read back as it was written, what was read may be
  written back, and only the last write counts.
\<close>

locale range_view =
  fixes rd :: "string \<Rightarrow> 's \<Rightarrow> StatusCode + 'v"
    and wr :: "string \<Rightarrow> 'v \<Rightarrow> 's \<Rightarrow> StatusCode + 's"
  assumes put_get: "wr r v s = Inr s' \<Longrightarrow> rd r s' = Inr v"
    and get_put: "rd r s = Inr v \<Longrightarrow> wr r v s = Inr s"
    and put_put: "wr r v s = Inr s' \<Longrightarrow> wr r u s' = wr r u s"
begin

lemma put_twice: "wr r v s = Inr s' \<Longrightarrow> wr r v s' = Inr s'"
  using get_put put_get by blast

lemma put_inj: "wr r v s = Inr t \<Longrightarrow> wr r u s = Inr t \<Longrightarrow> v = u"
  using put_get [of r v s t] put_get [of r u s t] by simp

lemma undo: "rd r s = Inr v \<Longrightarrow> wr r u s = Inr s' \<Longrightarrow> wr r v s' = Inr s"
  using get_put put_put by simp

end

lemma length_replace:
  assumes "0 \<le> i" and "i \<le> j" and "j \<le> int (length xs)" and "j - i = int (length ys)"
  shows "length (replace_range i j ys xs) = length xs"
  using assms by (simp add: replace_range_def)

lemma length_sub_list:
  assumes "0 \<le> i" and "i \<le> j" and "j \<le> int (length xs)"
  shows "int (length (sub_list i j xs)) = j - i"
  using assms by (simp add: sub_list_def min_def) linarith

lemma replace_sub_list:
  assumes "0 \<le> i" and "i \<le> j" and "j \<le> int (length xs)"
  shows "replace_range i j (sub_list i j xs) xs = xs"
proof -
  have "drop (nat j) xs = drop (nat (j - i)) (drop (nat i) xs)" using assms by (simp add: nat_diff_distrib)
  then show ?thesis unfolding replace_range_def sub_list_def by (metis append_take_drop_id)
qed

lemma sub_list_replace:
  assumes "0 \<le> i" and "j \<le> int (length xs)" and "j - i = int (length ys)"
  shows "sub_list i j (replace_range i j ys xs) = ys"
  using assms by (simp add: replace_range_def sub_list_def)

lemma replace_replace:
  assumes "0 \<le> i" and "j \<le> int (length xs)" and "j - i = int (length ys)"
  shows "replace_range i j zs (replace_range i j ys xs) = replace_range i j zs xs"
  using assms by (simp add: replace_range_def)

lemma write_listD:
  assumes "write_list r ys xs = Inr zs"
  obtains i j where "parseBounds r (length xs) = (i, j, Good)" "0 \<le> i" "i < j" "j \<le> int (length xs)"
    "j - i = int (length ys)" "zs = replace_range i j ys xs"
proof -
  obtain i j st where b: "parseBounds r (length xs) = (i, j, st)" by (cases "parseBounds r (length xs)")
  with assms have st: "\<not> IsBad st" "j - i = int (length ys)" "zs = replace_range i j ys xs"
    by (auto simp: write_list_def split: if_splits)
  with b have "st = Good" using parseBounds_status [OF b] by auto
  with b st show thesis using parseBounds_bounds [OF b st(1)] by (intro that) auto
qed

interpretation list_range: range_view read_list write_list
proof
  fix r and v s s' u :: "'a list"
  assume "write_list r v s = Inr s'"
  then obtain i j where b: "parseBounds r (length s) = (i, j, Good)" "0 \<le> i" "i < j" "j \<le> int (length s)"
    "j - i = int (length v)" "s' = replace_range i j v s" by (rule write_listD)
  have len: "length s' = length s" using b by (simp add: length_replace)
  show "read_list r s' = Inr v" using b len by (simp add: read_list_def sub_list_replace)
  show "write_list r u s' = write_list r u s" using b len by (simp add: write_list_def replace_replace)
next
  fix r and s v :: "'a list"
  assume r: "read_list r s = Inr v"
  obtain i j st where b: "parseBounds r (length s) = (i, j, st)" by (cases "parseBounds r (length s)")
  with r have st: "\<not> IsBad st" "v = sub_list i j s" by (auto simp: read_list_def split: if_splits)
  with parseBounds_bounds [OF b st(1)] b show "write_list r v s = Inr s"
    by (simp add: write_list_def replace_sub_list length_sub_list)
qed

section \<open>Values\<close>

definition NewDataValue :: "goval \<Rightarrow> StatusCode \<Rightarrow> gotime \<Rightarrow> gotime \<Rightarrow> DataValue" where
  "NewDataValue v st src srv = \<lparr>Value = v, StatusCode_of = st, SourceTimestamp = src, SourcePicoseconds = 0,
     ServerTimestamp = srv, ServerPicoseconds = 0\<rparr>"

definition NilDataValue :: DataValue where
  "NilDataValue = NewDataValue VNil 0 zeroTime zeroTime"

text \<open>The element types of the slices in the two type switches.\<close>

fun range_type :: "gotype \<Rightarrow> bool" where
  "range_type (TScalar _) = True"
| "range_type TExtensionObject = True"
| "range_type TDataValue = True"
| "range_type TVariant = True"
| "range_type TDiagnosticInfo = True"
| "range_type _ = False"

definition elems :: "goval list option \<Rightarrow> goval list" where
  "elems vs = (case vs of None \<Rightarrow> [] | Some xs \<Rightarrow> xs)"

fun read_text :: "string \<Rightarrow> goval \<Rightarrow> StatusCode + goval" where
  "read_text r (VScalar (SString s)) = map_sum id (\<lambda>rs. VScalar (SString (string_of_runes rs))) (read_list r (runes s))"
| "read_text r (VScalar (SByteString s)) = map_sum id (\<lambda>bs. VScalar (SByteString bs)) (read_list r s)"
| "read_text r _ = Inl BadIndexRangeNoData"

fun read_texts :: "string \<Rightarrow> goval list \<Rightarrow> StatusCode + goval list" where
  "read_texts r [] = Inr []"
| "read_texts r (v # vs) = (case read_text r v of
       Inl st \<Rightarrow> Inl st
     | Inr w \<Rightarrow> map_sum id (Cons w) (read_texts r vs))"

definition is_text :: "gotype \<Rightarrow> bool" where
  "is_text t \<longleftrightarrow> t = TScalar KString \<or> t = TScalar KByteString"

definition max_ranges :: "gotype \<Rightarrow> nat" where
  "max_ranges t = (if is_text t then 2 else 1)"

definition read_variant :: "string list \<Rightarrow> goval \<Rightarrow> StatusCode + goval" where
  "read_variant ranges v = (case v of
       VSlice t vs \<Rightarrow>
         (if \<not> range_type t then Inl BadIndexRangeNoData
          else if length ranges > max_ranges t then Inl BadIndexRangeNoData
          else case read_list (hd ranges) (elems vs) of
                 Inl st \<Rightarrow> Inl st
               | Inr ws \<Rightarrow> if length ranges > 1 then map_sum id (\<lambda>us. VSlice t (Some us)) (read_texts (ranges ! 1) ws)
                           else Inr (VSlice t (Some ws)))
     | _ \<Rightarrow> if length ranges > 1 then Inl BadIndexRangeNoData else read_text (hd ranges) v)"

definition readRange :: "DataValue \<Rightarrow> string \<Rightarrow> DataValue" where
  "readRange source indexRange =
     (if indexRange = [] then source
      else case read_variant (Split indexRange (CHR '','')) (Value source) of
             Inl st \<Rightarrow> NewDataValue VNil st (SourceTimestamp source) (ServerTimestamp source)
           | Inr v \<Rightarrow> NewDataValue v (StatusCode_of source) (SourceTimestamp source) (ServerTimestamp source))"

text \<open>
  The bounds are checked before the type assertion on the new value. A second range, which
  arrays of texts admit, is accepted and not looked at.
\<close>

definition write_checked :: "nat \<Rightarrow> string list \<Rightarrow> 'a list option \<Rightarrow> 'a list \<Rightarrow> (StatusCode + 'a list) res" where
  "write_checked k ranges new xs =
     (if length ranges > k then Ok (Inl BadIndexRangeNoData)
      else case parseBounds (hd ranges) (length xs) of (i, j, st) \<Rightarrow>
        if IsBad st then Ok (Inl st)
        else case new of None \<Rightarrow> Panic | Some ys \<Rightarrow> Ok (write_list (hd ranges) ys xs))"

definition map_written :: "('a list \<Rightarrow> goval) \<Rightarrow> (StatusCode + 'a list) res \<Rightarrow> (StatusCode + goval) res" where
  "map_written f r = (case r of Ok x \<Rightarrow> Ok (map_sum id f x) | Err e \<Rightarrow> Err e | Panic \<Rightarrow> Panic | NoFuel \<Rightarrow> NoFuel)"

definition as_string :: "goval \<Rightarrow> string option" where
  "as_string v = (case v of VScalar (SString t) \<Rightarrow> Some t | _ \<Rightarrow> None)"

definition as_bytes :: "goval \<Rightarrow> ByteString option" where
  "as_bytes v = (case v of VScalar (SByteString t) \<Rightarrow> Some t | _ \<Rightarrow> None)"

definition as_slice :: "gotype \<Rightarrow> goval \<Rightarrow> goval list option" where
  "as_slice t v = (case v of VSlice t' vs \<Rightarrow> if t' = t then Some (elems vs) else None | _ \<Rightarrow> None)"

fun write_variant :: "string list \<Rightarrow> goval \<Rightarrow> goval \<Rightarrow> (StatusCode + goval) res" where
  "write_variant ranges new (VScalar (SString s)) =
     map_written (\<lambda>rs. VScalar (SString (string_of_runes rs))) (write_checked 1 ranges (map_option runes (as_string new)) (runes s))"
| "write_variant ranges new (VScalar (SByteString s)) =
     map_written (\<lambda>bs. VScalar (SByteString bs)) (write_checked 1 ranges (as_bytes new) s)"
| "write_variant ranges new (VSlice t vs) =
     (if range_type t then map_written (\<lambda>ws. VSlice t (Some ws)) (write_checked (max_ranges t) ranges (as_slice t new) (elems vs))
      else Ok (Inl BadIndexRangeNoData))"
| "write_variant ranges new _ = Ok (Inl BadIndexRangeNoData)"

text \<open>The two results of \<open>time.Now()\<close> are arguments.\<close>

definition writeRange :: "gotime \<Rightarrow> gotime \<Rightarrow> DataValue \<Rightarrow> DataValue \<Rightarrow> string \<Rightarrow> (DataValue \<times> StatusCode) res" where
  "writeRange t1 t2 source new indexRange =
     (if indexRange = [] then Ok (NewDataValue (Value new) (StatusCode_of new) t1 t2, Good)
      else case write_variant (Split indexRange (CHR '','')) (Value new) (Value source) of
             Ok (Inl st) \<Rightarrow> Ok (NilDataValue, st)
           | Ok (Inr v) \<Rightarrow> Ok (NewDataValue v (StatusCode_of new) t1 t2, Good)
           | Err e \<Rightarrow> Err e | Panic \<Rightarrow> Panic | NoFuel \<Rightarrow> NoFuel)"

definition selectTimestamps :: "DataValue list \<Rightarrow> TimestampsToReturn \<Rightarrow> DataValue list" where
  "selectTimestamps values ttr = (case ttr of
       TimestampsSource \<Rightarrow> map (\<lambda>v. NewDataValue (Value v) (StatusCode_of v) (SourceTimestamp v) zeroTime) values
     | TimestampsServer \<Rightarrow> map (\<lambda>v. NewDataValue (Value v) (StatusCode_of v) zeroTime (ServerTimestamp v)) values
     | TimestampsNeither \<Rightarrow> map (\<lambda>v. NewDataValue (Value v) (StatusCode_of v) zeroTime zeroTime) values
     | _ \<Rightarrow> values)"

section \<open>The laws on values\<close>

text \<open>Strings that are valid UTF-8, also inside an array.\<close>

definition utf8 :: "string \<Rightarrow> bool" where
  "utf8 s \<longleftrightarrow> string_of_runes (runes s) = s"

fun utf8_value :: "goval \<Rightarrow> bool" where
  "utf8_value (VScalar (SString s)) = utf8 s"
| "utf8_value _ = True"

lemma write_checked_Ok:
  assumes "write_checked k ranges new xs = Ok (Inr zs)"
  obtains ys where "new = Some ys" "write_list (hd ranges) ys xs = Inr zs" "length ranges \<le> k"
  using assms by (auto simp: write_checked_def split: if_splits option.splits prod.splits)

lemma map_written_Ok:
  "map_written f r = Ok (Inr v) \<longleftrightarrow> (\<exists>xs. r = Ok (Inr xs) \<and> v = f xs)"
  by (cases r) (auto simp: map_written_def map_sum_def split: sum.splits)

lemma map_written_Panic [simp]: "map_written f r = Panic \<longleftrightarrow> r = Panic"
  by (cases r) (auto simp: map_written_def)

lemma runes_written:
  assumes "write_list r ys (runes s) = Inr zs" and "\<forall>y\<in>set ys. is_rune y"
  shows "runes (string_of_runes zs) = zs"
proof -
  obtain i j where "zs = replace_range i j ys (runes s)" using assms(1) by (rule write_listD)
  then have "z \<in> set (runes s) \<union> set ys" if "z \<in> set zs" for z
    using that by (auto simp: replace_range_def dest: in_set_takeD in_set_dropD)
  with assms(2) have "\<forall>z\<in>set zs. is_rune z" using runes_are_runes by blast
  then show ?thesis by (rule runes_string_of_runes)
qed

lemma write_read_variant:
  assumes "write_variant ranges new old = Ok (Inr v)" and "utf8_value new" and "length ranges \<le> 1"
  shows "read_variant ranges v = Inr new"
  using assms
proof (induction ranges new old rule: write_variant.induct)
  case (1 ranges new s)
  then obtain zs t where z: "v = VScalar (SString (string_of_runes zs))" "new = VScalar (SString t)"
    "write_list (hd ranges) (runes t) (runes s) = Inr zs" "length ranges \<le> 1"
    by (auto simp: map_written_Ok as_string_def split: goval.splits scalar.splits elim!: write_checked_Ok)
  have "read_list (hd ranges) zs = Inr (runes t)" by (rule list_range.put_get [OF z(3)])
  with z runes_written [OF z(3)] runes_are_runes 1(2) show ?case by (simp add: read_variant_def utf8_def)
next
  case (2 ranges new s)
  then obtain zs t where z: "v = VScalar (SByteString zs)" "new = VScalar (SByteString t)"
    "write_list (hd ranges) t s = Inr zs" "length ranges \<le> 1"
    by (auto simp: map_written_Ok as_bytes_def split: goval.splits scalar.splits elim!: write_checked_Ok)
  have "read_list (hd ranges) zs = Inr t" by (rule list_range.put_get [OF z(3)])
  with z show ?case by (simp add: read_variant_def)
next
  case (3 ranges new t vs)
  then obtain zs us where z: "range_type t" "v = VSlice t (Some zs)" "new = VSlice t us"
    "write_list (hd ranges) (elems us) (elems vs) = Inr zs" "length ranges \<le> max_ranges t"
    by (auto simp: map_written_Ok as_slice_def split: goval.splits if_splits elim!: write_checked_Ok)
  have "elems us \<noteq> []" using z(4) by (rule write_listD) auto
  then have us: "us = Some (elems us)" by (auto simp: elems_def split: option.splits)
  have "read_list (hd ranges) zs = Inr (elems us)" by (rule list_range.put_get [OF z(4)])
  with z us 3(3) show ?case by (simp add: read_variant_def elems_def)
qed simp_all

lemma write_variant_bad: "write_variant ranges new old = Ok (Inl st) \<Longrightarrow> IsBad st"
  by (cases "(ranges, new, old)" rule: write_variant.cases)
    (auto simp: map_written_def write_checked_def write_list_def split: if_splits res.splits option.splits prod.splits)

lemma write_then_readRange:
  assumes "writeRange t1 t2 source new r = Ok (dv, Good)" and "utf8_value (Value new)" and "CHR '','' \<notin> set r"
  shows "Value (readRange dv r) = Value new \<and> StatusCode_of (readRange dv r) = StatusCode_of new"
proof (cases "r = []")
  case True
  with assms show ?thesis by (auto simp: writeRange_def readRange_def NewDataValue_def)
next
  case False
  let ?w = "write_variant (Split r (CHR '','')) (Value new) (Value source)"
  have "?w \<noteq> Ok (Inl Good)" using write_variant_bad by fastforce
  with assms(1) False obtain v where v: "?w = Ok (Inr v)" "dv = NewDataValue v (StatusCode_of new) t1 t2"
    by (auto simp: writeRange_def split: res.splits sum.splits)
  from write_read_variant [OF v(1) assms(2)] v(2) False assms(3) show ?thesis
    by (simp add: readRange_def NewDataValue_def Split_no_sep)
qed

text \<open>The rest of an array stays as it was.\<close>

lemma no_comma: "CHR '','' \<notin> set (show_nat n)"
  using show_nat_chars by fastforce

lemma Split_range_text [simp]: "Split (show_nat lo @ CHR '':'' # show_nat hi) (CHR '','') = [show_nat lo @ CHR '':'' # show_nat hi]"
  by (rule Split_no_sep) (simp add: no_comma)

lemma writeRange_slice:
  assumes "range_type t" and "lo < hi" and "hi < length xs" and "length ys = hi - lo + 1" and "length xs < 2 ^ 31"
  shows "writeRange t1 t2 (source\<lparr>Value := VSlice t (Some xs)\<rparr>) (new\<lparr>Value := VSlice t (Some ys)\<rparr>)
      (show_nat lo @ CHR '':'' # show_nat hi)
    = Ok (NewDataValue (VSlice t (Some (take lo xs @ ys @ drop (hi + 1) xs))) (StatusCode_of new) t1 t2, Good)"
proof -
  have b: "parseBounds (show_nat lo @ CHR '':'' # show_nat hi) (length xs) = (int lo, int (Suc hi), Good)"
    using assms parseBounds_show [of hi lo "length xs"] by (simp add: min_def)
  have "int (Suc hi) - int lo = int (length ys)" using assms by simp
  with b assms(1) show ?thesis
    by (simp add: max_ranges_def writeRange_def write_checked_def as_slice_def elems_def write_list_def map_written_def replace_range_def
      nat_add_distrib)
qed

lemma readRange_slice:
  assumes "range_type t" and "lo < hi" and "lo < length xs" and "hi < 2 ^ 31"
  shows "readRange (source\<lparr>Value := VSlice t (Some xs)\<rparr>) (show_nat lo @ CHR '':'' # show_nat hi)
    = NewDataValue (VSlice t (Some (take (hi + 1 - lo) (drop lo xs)))) (StatusCode_of source)
        (SourceTimestamp source) (ServerTimestamp source)"
proof -
  have "sub_list (int lo) (int (min (Suc hi) (length xs))) xs = take (hi + 1 - lo) (drop lo xs)"
  proof -
    have n: "nat (1 + int hi - int lo) = Suc hi - lo" by linarith
    show ?thesis by (auto simp: sub_list_def min_def nat_diff_distrib n)
  qed
  with assms parseBounds_show [of hi lo "length xs"] show ?thesis
    by (simp add: readRange_def read_variant_def max_ranges_def read_list_def elems_def)
qed

text \<open>A new value of another type than the old one panics, once the range has data.\<close>

fun same_kind :: "goval \<Rightarrow> goval \<Rightarrow> bool" where
  "same_kind (VScalar (SString _)) new \<longleftrightarrow> as_string new \<noteq> None"
| "same_kind (VScalar (SByteString _)) new \<longleftrightarrow> as_bytes new \<noteq> None"
| "same_kind (VSlice t _) new \<longleftrightarrow> as_slice t new \<noteq> None"
| "same_kind _ new \<longleftrightarrow> True"

lemma write_checked_Panic:
  "write_checked k ranges new xs = Panic \<longleftrightarrow>
     length ranges \<le> k \<and> (\<exists>ys. read_list (hd ranges) xs = Inr ys) \<and> new = None"
  by (auto simp: write_checked_def read_list_def split: option.splits prod.splits)

lemma map_sum_Inr: "map_sum id f x = Inr y \<longleftrightarrow> (\<exists>z. x = Inr z \<and> y = f z)"
  by (cases x) auto

lemma write_variant_Panic:
  "length ranges \<le> 1 \<Longrightarrow>
     write_variant ranges new old = Panic \<longleftrightarrow> (\<exists>v. read_variant ranges old = Inr v) \<and> \<not> same_kind old new"
  by (cases "(ranges, new, old)" rule: write_variant.cases)
    (auto simp: write_checked_Panic read_variant_def max_ranges_def map_sum_Inr split: sum.splits)

lemma read_text_bad: "read_text r v = Inl st \<Longrightarrow> IsBad st"
  by (cases "(r, v)" rule: read_text.cases)
    (auto simp: read_list_def map_sum_def split: sum.splits prod.splits if_splits)

lemma read_texts_bad: "read_texts r vs = Inl st \<Longrightarrow> IsBad st"
  by (induction vs) (auto simp: map_sum_def split: sum.splits dest: read_text_bad)

lemma read_variant_bad: "read_variant ranges v = Inl st \<Longrightarrow> IsBad st"
  by (auto simp: read_variant_def read_list_def map_sum_def split: goval.splits if_splits sum.splits prod.splits
    dest: read_text_bad read_texts_bad)

lemma writeRange_panics:
  assumes "CHR '','' \<notin> set r"
  shows "writeRange t1 t2 source new r = Panic \<longleftrightarrow>
     r \<noteq> [] \<and> \<not> IsBad (StatusCode_of (readRange (source\<lparr>StatusCode_of := Good\<rparr>) r)) \<and> \<not> same_kind (Value source) (Value new)"
proof -
  have "writeRange t1 t2 source new r = Panic \<longleftrightarrow> r \<noteq> [] \<and> write_variant [r] (Value new) (Value source) = Panic"
    using assms by (auto simp: writeRange_def Split_no_sep split: res.splits sum.splits)
  also have "\<dots> \<longleftrightarrow> r \<noteq> [] \<and> (\<exists>v. read_variant [r] (Value source) = Inr v) \<and> \<not> same_kind (Value source) (Value new)"
    by (simp add: write_variant_Panic)
  also have "\<dots> \<longleftrightarrow> r \<noteq> [] \<and> \<not> IsBad (StatusCode_of (readRange (source\<lparr>StatusCode_of := Good\<rparr>) r))
      \<and> \<not> same_kind (Value source) (Value new)"
    using assms by (auto simp: readRange_def NewDataValue_def Split_no_sep split: sum.splits dest: read_variant_bad)
  finally show ?thesis .
qed

text \<open>The second range of a write is ignored: whatever it is, the elements are replaced whole.\<close>

lemma write_ignores_second:
  assumes "is_text t"
  shows "write_variant [r, q] new (VSlice t vs) = write_variant [r] new (VSlice t vs)"
  using assms by (auto simp: write_checked_def max_ranges_def split: prod.splits option.splits)

lemma nil_not_same_kind:
  assumes "\<not> IsBad (StatusCode_of (readRange (source\<lparr>StatusCode_of := Good\<rparr>) r))" and "r \<noteq> []"
  shows "\<not> same_kind (Value source) VNil"
proof -
  obtain v where "read_variant (Split r (CHR '','')) (Value source) = Inr v"
    using assms by (auto simp: readRange_def NewDataValue_def split: sum.splits dest: read_variant_bad)
  then show ?thesis
    by (cases "(Split r (CHR '',''), VNil, Value source)" rule: write_variant.cases)
      (auto simp: read_variant_def as_string_def as_bytes_def as_slice_def split: if_splits)
qed

end
