(* ===== verification/Address_Space.thy ===== *)
theory Address_Space
  imports Roles Index_Range "HOL-Library.Multiset"
begin

text \<open>
  The nodes and the namespace manager (\<open>server/namespace_manager.go\<close> and the node
  files): lookup, the walk up the supertypes, and adding and deleting nodes together with
  their inverse references. A node object is known by its id, so the map of nodes is the
  store of the objects. Loops that need not end have fuel (\<open>GetChildren\<close>) or are partial
  functions (\<open>FindVariantType\<close>). The deque of \<open>GetChildren\<close>, a third-party package, is the
  argument \<open>dq\<close>.
\<close>

section \<open>Nodes\<close>

record Reference =
  ReferenceTypeID :: "NodeID option"
  IsInverse :: bool
  TargetID :: ExpandedNodeID

record WriteValue =
  wv_NodeID :: "NodeID option"
  wv_AttributeID :: u32
  wv_IndexRange :: string
  wv_Value :: DataValue

text \<open>
  The handlers an application may install are functions of the address of the session
  and the request.
\<close>

record variable_attrs =
  va_value :: DataValue
  va_dataType :: "NodeID option"
  va_valueRank :: u32
  va_arrayDimensions :: "u32 list option"
  va_accessLevel :: byte
  va_minimumSamplingInterval :: u64
  va_historizing :: bool
  va_historian :: bool
  va_readValueHandler :: "(nat \<Rightarrow> ReadValueID \<Rightarrow> DataValue) option"
  va_writeValueHandler :: "(nat \<Rightarrow> WriteValue \<Rightarrow> DataValue \<times> StatusCode) option"

datatype node_attrs =
    ObjectNode byte
  | VariableNode variable_attrs
  | MethodNode bool
  | ObjectTypeNode bool
  | VariableTypeNode DataValue "NodeID option" u32 "u32 list option" bool
  | ReferenceTypeNode bool bool LocalizedText
  | DataTypeNode bool goval
  | ViewNode bool byte

record Node =
  n_nodeId :: "NodeID option"
  n_browseName :: QualifiedName
  n_displayName :: LocalizedText
  n_description :: LocalizedText
  n_rolePermissions :: "RolePermissionType list option"
  n_references :: "Reference list"
  n_attrs :: node_attrs

fun NodeClass :: "node_attrs \<Rightarrow> u32" where
  "NodeClass (ObjectNode _) = 1"
| "NodeClass (VariableNode _) = 2"
| "NodeClass (MethodNode _) = 4"
| "NodeClass (ObjectTypeNode _) = 8"
| "NodeClass (VariableTypeNode _ _ _ _ _) = 16"
| "NodeClass (ReferenceTypeNode _ _ _) = 32"
| "NodeClass (DataTypeNode _ _) = 64"
| "NodeClass (ViewNode _ _) = 128"

abbreviation num_id :: "u32 \<Rightarrow> NodeID option" where
  "num_id n \<equiv> Some (NodeIDNumeric 0 n)"

definition ReferenceTypeIDHasModellingRule :: "NodeID option" where "ReferenceTypeIDHasModellingRule = num_id 37"
definition ReferenceTypeIDHasTypeDefinition :: "NodeID option" where "ReferenceTypeIDHasTypeDefinition = num_id 40"
definition ReferenceTypeIDHasSubtype :: "NodeID option" where "ReferenceTypeIDHasSubtype = num_id 45"
definition ReferenceTypeIDHasProperty :: "NodeID option" where "ReferenceTypeIDHasProperty = num_id 46"
definition ReferenceTypeIDHasComponent :: "NodeID option" where "ReferenceTypeIDHasComponent = num_id 47"
definition ReferenceTypeIDHasOrderedComponent :: "NodeID option" where "ReferenceTypeIDHasOrderedComponent = num_id 49"

section \<open>The namespace manager\<close>

record NamespaceManager =
  namespaces :: "string list"
  nodes :: "NodeID option \<rightharpoonup> Node"
  variantTypeMap :: "NodeID option \<rightharpoonup> byte"

definition NewNamespaceManager :: "string \<Rightarrow> NamespaceManager" where
  "NewNamespaceManager uri =
     \<lparr>namespaces = [''http://opcfoundation.org/UA/'', uri], nodes = Map.empty, variantTypeMap = Map.empty\<rparr>"

definition Namespace_Add :: "string \<Rightarrow> NamespaceManager \<Rightarrow> u16 \<times> NamespaceManager" where
  "Namespace_Add nsu m = (case find_uri (namespaces m) nsu 0 of
       Some i \<Rightarrow> (word_of_nat i, m)
     | None \<Rightarrow> let ns = namespaces m @ [nsu] in (word_of_nat (length ns - 1), m\<lparr>namespaces := ns\<rparr>))"

definition FindNode :: "NamespaceManager \<Rightarrow> NodeID option \<Rightarrow> Node option" where
  "FindNode m i = nodes m i"

definition target_id :: "NamespaceManager \<Rightarrow> Reference \<Rightarrow> NodeID option" where
  "target_id m r = ToNodeID (TargetID r) (namespaces m)"

definition FindObject :: "NamespaceManager \<Rightarrow> NodeID option \<Rightarrow> Node option" where
  "FindObject m i = (case nodes m i of
       Some n \<Rightarrow> (case n_attrs n of ObjectNode _ \<Rightarrow> Some n | _ \<Rightarrow> None) | None \<Rightarrow> None)"

definition FindVariable :: "NamespaceManager \<Rightarrow> NodeID option \<Rightarrow> Node option" where
  "FindVariable m i = (case nodes m i of
       Some n \<Rightarrow> (case n_attrs n of VariableNode _ \<Rightarrow> Some n | _ \<Rightarrow> None) | None \<Rightarrow> None)"

definition FindMethod :: "NamespaceManager \<Rightarrow> NodeID option \<Rightarrow> Node option" where
  "FindMethod m i = (case nodes m i of
       Some n \<Rightarrow> (case n_attrs n of MethodNode _ \<Rightarrow> Some n | _ \<Rightarrow> None) | None \<Rightarrow> None)"

text \<open>The first child with the browse name; of a property only a variable is returned.\<close>

fun first_child :: "NamespaceManager \<Rightarrow> NodeID option \<Rightarrow> QualifiedName \<Rightarrow> Reference list \<Rightarrow> Node option" where
  "first_child m ty name [] = None"
| "first_child m ty name (r # rs) =
     (if \<not> IsInverse r \<and> ReferenceTypeID r = ty then
        (case nodes m (target_id m r) of
           Some n \<Rightarrow> if n_browseName n = name then Some n else first_child m ty name rs
         | None \<Rightarrow> first_child m ty name rs)
      else first_child m ty name rs)"

definition FindProperty :: "NamespaceManager \<Rightarrow> Node \<Rightarrow> QualifiedName \<Rightarrow> Node option" where
  "FindProperty m start name = (case first_child m ReferenceTypeIDHasProperty name (n_references start) of
       Some n \<Rightarrow> (case n_attrs n of VariableNode _ \<Rightarrow> Some n | _ \<Rightarrow> None) | None \<Rightarrow> None)"

definition FindComponent :: "NamespaceManager \<Rightarrow> Node \<Rightarrow> QualifiedName \<Rightarrow> Node option" where
  "FindComponent m start name = first_child m ReferenceTypeIDHasComponent name (n_references start)"

section \<open>Supertypes\<close>

text \<open>The target of the first inverse \<open>HasSubtype\<close> reference, which both walks look for.\<close>

definition super_ref :: "NamespaceManager \<Rightarrow> NodeID option \<Rightarrow> NodeID option option" where
  "super_ref m i = (case nodes m i of
       None \<Rightarrow> None
     | Some n \<Rightarrow> map_option (target_id m) (find (\<lambda>r. IsInverse r \<and> ReferenceTypeID r = ReferenceTypeIDHasSubtype) (n_references n)))"

fun is_subtype_loop :: "nat \<Rightarrow> NamespaceManager \<Rightarrow> NodeID option \<Rightarrow> NodeID option \<Rightarrow> bool" where
  "is_subtype_loop 0 m i supertype = False"
| "is_subtype_loop (Suc k) m i supertype = (case super_ref m i of
       None \<Rightarrow> False
     | Some j \<Rightarrow> if supertype = j then True else is_subtype_loop k m j supertype)"

definition IsSubtype :: "NamespaceManager \<Rightarrow> NodeID option \<Rightarrow> NodeID option \<Rightarrow> bool" where
  "IsSubtype m subtype supertype = is_subtype_loop 101 m subtype supertype"

definition FindSuperType :: "NamespaceManager \<Rightarrow> NodeID option \<Rightarrow> NodeID option" where
  "FindSuperType m i = (case super_ref m i of None \<Rightarrow> None | Some j \<Rightarrow> j)"

text \<open>The built-in types have the numbers of their variant types; an enumeration is an \<open>Int32\<close>.\<close>

definition builtin_type :: "NodeID option \<Rightarrow> byte option" where
  "builtin_type t = (case t of
       None \<Rightarrow> Some 0
     | Some (NodeIDNumeric ns n) \<Rightarrow>
         if ns = 0 \<and> 1 \<le> n \<and> n \<le> 25 then Some (ucast n) else if ns = 0 \<and> n = 29 then Some 6 else None
     | _ \<Rightarrow> None)"

partial_function (option) variant_type_loop :: "NamespaceManager \<Rightarrow> NodeID option \<Rightarrow> byte option" where
  "variant_type_loop m t = (case builtin_type t of
       Some v \<Rightarrow> Some v
     | None \<Rightarrow> variant_type_loop m (FindSuperType m t))"

declare variant_type_loop.simps [code]

definition FindVariantType :: "NodeID option \<Rightarrow> NamespaceManager \<Rightarrow> (byte \<times> NamespaceManager) option" where
  "FindVariantType t m = (case variantTypeMap m t of
       Some v \<Rightarrow> Some (v, m)
     | None \<Rightarrow> (case variant_type_loop m t of
           None \<Rightarrow> None
         | Some v \<Rightarrow> Some (v, m\<lparr>variantTypeMap := (variantTypeMap m)(t \<mapsto> v)\<rparr>)))"

text \<open>The specification: the supertype relation.\<close>

definition supertype :: "NamespaceManager \<Rightarrow> NodeID option \<Rightarrow> NodeID option \<Rightarrow> bool" where
  "supertype m i j \<longleftrightarrow> super_ref m i = Some j"

lemma relpowp_det:
  assumes "(supertype m ^^ Suc k) i j"
  obtains h where "super_ref m i = Some h" "(supertype m ^^ k) h j"
proof -
  obtain h where "supertype m i h" "(supertype m ^^ k) h j" using assms by (rule relpowp_Suc_E2)
  then show thesis by (intro that) (simp_all add: supertype_def)
qed

lemma is_subtype_loop_iff: "is_subtype_loop n m i j \<longleftrightarrow> (\<exists>k. 0 < k \<and> k \<le> n \<and> (supertype m ^^ k) i j)"
proof (induction n m i j rule: is_subtype_loop.induct)
  case (2 n m i j)
  show ?case
  proof
    assume "is_subtype_loop (Suc n) m i j"
    then obtain h where h: "super_ref m i = Some h" "j = h \<or> is_subtype_loop n m h j"
      by (auto split: option.splits if_splits)
    then have step: "supertype m i h" by (simp add: supertype_def)
    show "\<exists>k. 0 < k \<and> k \<le> Suc n \<and> (supertype m ^^ k) i j"
    proof (cases "j = h")
      case True
      then show ?thesis using step by (intro exI [of _ 1]) auto
    next
      case False
      then obtain k where "0 < k" "k \<le> n" "(supertype m ^^ k) h j" using 2 h by auto
      then show ?thesis using relpowp_Suc_I2 [of "supertype m" i h k j] step by (intro exI [of _ "Suc k"]) auto
    qed
  next
    assume "\<exists>k. 0 < k \<and> k \<le> Suc n \<and> (supertype m ^^ k) i j"
    then obtain k where k: "k \<le> n" "(supertype m ^^ Suc k) i j" by (metis Suc_le_mono gr0_implies_Suc)
    from k(2) obtain h where h: "super_ref m i = Some h" "(supertype m ^^ k) h j" by (rule relpowp_det)
    show "is_subtype_loop (Suc n) m i j"
    proof (cases k)
      case 0
      then show ?thesis using h by auto
    next
      case (Suc k')
      then have "is_subtype_loop n m h j" if "j \<noteq> h" using 2 [OF h(1) that] h(2) k(1) by (metis zero_less_Suc)
      with h show ?thesis by auto
    qed
  qed
qed simp

lemma IsSubtype_tranclp:
  assumes "\<nexists>j. (supertype m ^^ 102) subtype j"
  shows "IsSubtype m subtype super \<longleftrightarrow> (supertype m)\<^sup>+\<^sup>+ subtype super"
proof -
  have "k \<le> 101" if "(supertype m ^^ k) subtype j" for k j
  proof (rule ccontr)
    assume "\<not> k \<le> 101"
    then have "(supertype m ^^ (102 + (k - 102))) subtype j" using that by simp
    then obtain h where "(supertype m ^^ 102) subtype h" unfolding relpowp_add by blast
    with assms show False by blast
  qed
  then show ?thesis unfolding IsSubtype_def is_subtype_loop_iff tranclp_power by (metis)
qed

text \<open>The walk to a built-in type ends when the chain of supertypes does.\<close>

lemma variant_type_loop_ends:
  assumes "builtin_type ((FindSuperType m ^^ k) t) \<noteq> None"
  shows "\<exists>v. variant_type_loop m t = Some v"
  using assms
proof (induction k arbitrary: t)
  case 0
  then show ?case by (auto simp: variant_type_loop.simps)
next
  case (Suc k)
  then show ?case by (cases "builtin_type t")
    (auto simp: variant_type_loop.simps [of m t] funpow_swap1)
qed

lemma variant_type_loop_Some:
  assumes "variant_type_loop m t = Some v"
  shows "\<exists>k. builtin_type ((FindSuperType m ^^ k) t) = Some v \<and> (\<forall>l<k. builtin_type ((FindSuperType m ^^ l) t) = None)"
proof (rule variant_type_loop.raw_induct [OF _ assms], goal_cases)
  case (1 loop m t v)
  show ?case
  proof (cases "builtin_type t")
    case None
    with 1(2) have "loop m (FindSuperType m t) = Some v" by simp
    from 1(1) [OF this] obtain k where k: "builtin_type ((FindSuperType m ^^ k) (FindSuperType m t)) = Some v"
      "\<forall>l<k. builtin_type ((FindSuperType m ^^ l) (FindSuperType m t)) = None" by blast
    show ?thesis
    proof (intro exI [of _ "Suc k"] conjI allI impI)
      show "builtin_type ((FindSuperType m ^^ Suc k) t) = Some v" using k(1) by (simp add: funpow_swap1)
      show "builtin_type ((FindSuperType m ^^ l) t) = None" if "l < Suc k" for l
        using that k(2) None by (cases l) (auto simp: funpow_swap1)
    qed
  next
    case (Some w)
    with 1(2) show ?thesis by (intro exI [of _ 0]) simp
  qed
qed

text \<open>A cycle of types that are not built in keeps it going.\<close>

lemma variant_type_loop_cycle:
  assumes "\<forall>k. builtin_type ((FindSuperType m ^^ k) t) = None"
  shows "variant_type_loop m t = None"
  using variant_type_loop_Some [of m t] assms by (cases "variant_type_loop m t") auto

definition cache_ok :: "NamespaceManager \<Rightarrow> bool" where
  "cache_ok m \<longleftrightarrow> (\<forall>t v. variantTypeMap m t = Some v \<longrightarrow> variant_type_loop m t = Some v)"

lemma super_ref_cache [simp]: "super_ref (m\<lparr>variantTypeMap := x\<rparr>) = super_ref m"
proof -
  have "target_id (m\<lparr>variantTypeMap := x\<rparr>) = target_id m" by (simp add: fun_eq_iff target_id_def)
  then show ?thesis by (intro ext) (simp add: super_ref_def split: option.split)
qed

text \<open>Only the supertypes matter.\<close>

lemma variant_type_loop_same:
  assumes "variant_type_loop m t = Some v" and "FindSuperType m' = FindSuperType m"
  shows "variant_type_loop m' t = Some v"
proof -
  obtain k where k: "builtin_type ((FindSuperType m ^^ k) t) = Some v" "\<forall>l<k. builtin_type ((FindSuperType m ^^ l) t) = None"
    using variant_type_loop_Some [OF assms(1)] by blast
  obtain w where w: "variant_type_loop m' t = Some w"
    using variant_type_loop_ends [where m = m' and k = k and t = t] k(1) assms(2) by auto
  obtain l where l: "builtin_type ((FindSuperType m ^^ l) t) = Some w" "\<forall>i<l. builtin_type ((FindSuperType m ^^ i) t) = None"
    using variant_type_loop_Some [OF w] assms(2) by auto
  have "l = k" using k l by (metis linorder_neqE_nat option.distinct(1))
  with k l w show ?thesis by simp
qed

lemma variant_type_loop_cong:
  assumes "FindSuperType m' = FindSuperType m"
  shows "variant_type_loop m' t = variant_type_loop m t"
proof (cases "variant_type_loop m t")
  case None
  then have "variant_type_loop m' t \<noteq> Some v" for v using variant_type_loop_same [OF _ assms [symmetric]] by fastforce
  then have "variant_type_loop m' t = None" by (cases "variant_type_loop m' t") blast+
  with None show ?thesis by simp
next
  case (Some v)
  with variant_type_loop_same [OF Some assms] show ?thesis by simp
qed

lemma variant_type_loop_cache [simp]: "variant_type_loop (m\<lparr>variantTypeMap := x\<rparr>) t = variant_type_loop m t"
  by (rule variant_type_loop_cong) (simp add: fun_eq_iff FindSuperType_def)

lemma FindVariantType_spec:
  assumes "cache_ok m" and "FindVariantType t m = Some (v, m')"
  shows "variant_type_loop m t = Some v \<and> cache_ok m'"
  using assms by (auto simp: FindVariantType_def cache_ok_def split: option.splits if_splits)

section \<open>Adding nodes\<close>

definition linked :: "Reference \<Rightarrow> bool" where
  "linked r \<longleftrightarrow> \<not> (ReferenceTypeID r = ReferenceTypeIDHasTypeDefinition \<or> ReferenceTypeID r = ReferenceTypeIDHasModellingRule)"

text \<open>\<open>tr\<close> is an inverse of \<open>r\<close>, a reference of the node \<open>i\<close>.\<close>

definition inverse_of :: "NamespaceManager \<Rightarrow> NodeID option \<Rightarrow> Reference \<Rightarrow> Reference \<Rightarrow> bool" where
  "inverse_of m i r tr \<longleftrightarrow> ReferenceTypeID tr = ReferenceTypeID r \<and> IsInverse tr \<noteq> IsInverse r \<and> target_id m tr = i"

definition add_inverse :: "NodeID option \<Rightarrow> Reference \<Rightarrow> NamespaceManager \<Rightarrow> NamespaceManager" where
  "add_inverse i r m =
     (if \<not> linked r then m
      else case nodes m (target_id m r) of
        None \<Rightarrow> m
      | Some t \<Rightarrow>
          (if list_ex (inverse_of m i r) (n_references t) then m
           else let back = \<lparr>ReferenceTypeID = ReferenceTypeID r, IsInverse = \<not> IsInverse r, TargetID = NewExpandedNodeID i\<rparr>
                in m\<lparr>nodes := (nodes m)(target_id m r \<mapsto> t\<lparr>n_references := n_references t @ [back]\<rparr>)\<rparr>))"

text \<open>
  The references of a node are those of the object now in the map, unless a later node
  of the same call has its id: then the map holds that one.
\<close>

fun add_inverses :: "Node list \<Rightarrow> NamespaceManager \<Rightarrow> NamespaceManager" where
  "add_inverses [] m = m"
| "add_inverses (n # ns) m =
     (let i = n_nodeId n;
          refs = (case nodes m i of Some n' \<Rightarrow> if i \<in> n_nodeId ` set ns then n_references n else n_references n'
                                  | None \<Rightarrow> n_references n)
      in add_inverses ns (fold (add_inverse i) refs m))"

definition addNodes :: "Node list \<Rightarrow> NamespaceManager \<Rightarrow> NamespaceManager" where
  "addNodes ns m = add_inverses ns (fold (\<lambda>n m. m\<lparr>nodes := (nodes m)(n_nodeId n \<mapsto> n)\<rparr>) ns m)"

text \<open>References are only added.\<close>

definition grows :: "NamespaceManager \<Rightarrow> NamespaceManager \<Rightarrow> bool" where
  "grows m m' \<longleftrightarrow> namespaces m' = namespaces m \<and> dom (nodes m') = dom (nodes m)
     \<and> (\<forall>i n. nodes m i = Some n \<longrightarrow> (\<exists>rs. nodes m' i = Some (n\<lparr>n_references := n_references n @ rs\<rparr>)))"

lemma grows_refl [simp]: "grows m m"
  unfolding grows_def by (metis (no_types) Node.surjective Node.update_convs(6) append_Nil2)

lemma grows_trans: "grows m m' \<Longrightarrow> grows m' m'' \<Longrightarrow> grows m m''"
  unfolding grows_def by fastforce

lemma grows_add_inverse: "grows m (add_inverse i r m)"
proof (cases "linked r \<and> (\<exists>t. nodes m (target_id m r) = Some t \<and> \<not> list_ex (inverse_of m i r) (n_references t))")
  case True
  then obtain t where t: "linked r" "nodes m (target_id m r) = Some t" "\<not> list_ex (inverse_of m i r) (n_references t)" by blast
  have "\<exists>rs. n = n\<lparr>n_references := n_references n @ rs\<rparr>" for n :: Node by (intro exI [of _ "[]"]) simp
  with t show ?thesis by (auto simp: add_inverse_def grows_def Let_def)
next
  case False
  then have "add_inverse i r m = m" by (auto simp: add_inverse_def split: option.splits)
  then show ?thesis by simp
qed

lemma grows_fold: "grows m (fold (add_inverse i) rs m)"
  by (induction rs arbitrary: m) (auto intro: grows_trans grows_add_inverse)

lemma grows_add_inverses: "grows m (add_inverses ns m)"
  by (induction ns arbitrary: m) (auto simp: Let_def intro: grows_trans grows_fold)

text \<open>\<open>r\<close>, a reference of \<open>i\<close>, has an inverse.\<close>

definition has_inverse :: "NamespaceManager \<Rightarrow> NodeID option \<Rightarrow> Reference \<Rightarrow> bool" where
  "has_inverse m i r \<longleftrightarrow> (\<forall>t. nodes m (target_id m r) = Some t \<longrightarrow> (\<exists>tr\<in>set (n_references t). inverse_of m i r tr))"

lemma has_inverse_grows:
  assumes "grows m m'" and "has_inverse m i r"
  shows "has_inverse m' i r"
proof -
  have ns: "namespaces m' = namespaces m" using assms(1) by (simp add: grows_def)
  have eq: "target_id m' = target_id m" by (simp add: fun_eq_iff target_id_def ns)
  show ?thesis unfolding has_inverse_def
  proof (intro allI impI)
    fix t' assume t': "nodes m' (target_id m' r) = Some t'"
    then obtain t where t: "nodes m (target_id m r) = Some t" using assms(1) eq by (metis domD domI grows_def)
    then obtain rs where "t' = t\<lparr>n_references := n_references t @ rs\<rparr>" using assms(1) t' eq by (force simp: grows_def)
    moreover obtain tr where "tr \<in> set (n_references t)" "inverse_of m i r tr" using assms(2) t by (auto simp: has_inverse_def)
    ultimately show "\<exists>tr\<in>set (n_references t'). inverse_of m' i r tr" by (auto simp: inverse_of_def eq)
  qed
qed

lemma add_inverse_has: "linked r \<Longrightarrow> has_inverse (add_inverse i r m) i r"
proof -
  assume l: "linked r"
  have id: "ToNodeID (NewExpandedNodeID i) u = i" for i u by (simp add: ToNodeID_def NewExpandedNodeID_def)
  show ?thesis using l
    by (auto simp: add_inverse_def has_inverse_def inverse_of_def target_id_def list_ex_iff Let_def id split: option.splits)
qed

lemma fold_add_inverse_has: "r \<in> set rs \<Longrightarrow> linked r \<Longrightarrow> has_inverse (fold (add_inverse i) rs m) i r"
  by (induction rs arbitrary: m) (auto intro: has_inverse_grows [OF grows_fold] add_inverse_has)

lemma add_inverses_has:
  assumes "distinct (map n_nodeId ns)" and "\<forall>n\<in>set ns. \<exists>rs. nodes m (n_nodeId n) = Some (n\<lparr>n_references := n_references n @ rs\<rparr>)"
    and "n \<in> set ns" "r \<in> set (n_references n)" "linked r"
  shows "has_inverse (add_inverses ns m) (n_nodeId n) r"
  using assms
proof (induction ns arbitrary: m)
  case (Cons a ns)
  obtain rs where a: "nodes m (n_nodeId a) = Some (a\<lparr>n_references := n_references a @ rs\<rparr>)" using Cons.prems(2) by auto
  let ?m = "fold (add_inverse (n_nodeId a)) (n_references a @ rs) m"
  have step: "add_inverses (a # ns) m = add_inverses ns ?m" using a Cons.prems(1) by (simp add: Let_def)
  show ?case
  proof (cases "n = a")
    case True
    then have "has_inverse ?m (n_nodeId n) r" using fold_add_inverse_has [of r "n_references a @ rs" "n_nodeId a" m] Cons.prems(4,5) by simp
    then show ?thesis unfolding step by (rule has_inverse_grows [OF grows_add_inverses])
  next
    case False
    have g: "grows m ?m" by (rule grows_fold)
    have "\<exists>rs'. nodes ?m (n_nodeId b) = Some (b\<lparr>n_references := n_references b @ rs'\<rparr>)" if b: "b \<in> set ns" for b
    proof -
      obtain q where "nodes m (n_nodeId b) = Some (b\<lparr>n_references := n_references b @ q\<rparr>)" using Cons.prems(2) b by auto
      then show ?thesis using g unfolding grows_def by fastforce
    qed
    then show ?thesis unfolding step using Cons.prems False by (intro Cons.IH) auto
  qed
qed simp

lemma insert_other:
  "i \<notin> n_nodeId ` set ns \<Longrightarrow> nodes (fold (\<lambda>n m. m\<lparr>nodes := (nodes m)(n_nodeId n \<mapsto> n)\<rparr>) ns m) i = nodes m i"
  by (induction ns arbitrary: m) auto

lemma insert_nodes:
  assumes "distinct (map n_nodeId ns)" and "n \<in> set ns"
  shows "nodes (fold (\<lambda>n m. m\<lparr>nodes := (nodes m)(n_nodeId n \<mapsto> n)\<rparr>) ns m) (n_nodeId n) = Some n"
  using assms by (induction ns arbitrary: m) (auto simp: insert_other)

lemma insert_namespaces: "namespaces (fold (\<lambda>n m. m\<lparr>nodes := (nodes m)(n_nodeId n \<mapsto> n)\<rparr>) ns m) = namespaces m"
  by (induction ns arbitrary: m) auto

lemma addNodes_inverses:
  assumes "distinct (map n_nodeId ns)" and "n \<in> set ns" "r \<in> set (n_references n)" "linked r"
  shows "has_inverse (addNodes ns m) (n_nodeId n) r"
proof -
  let ?m = "fold (\<lambda>n m. m\<lparr>nodes := (nodes m)(n_nodeId n \<mapsto> n)\<rparr>) ns m"
  have "nodes ?m (n_nodeId b) = Some (b\<lparr>n_references := n_references b @ []\<rparr>)" if "b \<in> set ns" for b
    using insert_nodes [OF assms(1) that] by simp
  then show ?thesis unfolding addNodes_def using assms by (intro add_inverses_has) blast+
qed

text \<open>A node that was there keeps everything but the references, which are only extended.\<close>

lemma addNodes_others:
  assumes "nodes m i = Some n" and "i \<notin> n_nodeId ` set ns"
  shows "\<exists>rs. nodes (addNodes ns m) i = Some (n\<lparr>n_references := n_references n @ rs\<rparr>)"
proof -
  let ?m = "fold (\<lambda>n m. m\<lparr>nodes := (nodes m)(n_nodeId n \<mapsto> n)\<rparr>) ns m"
  have "nodes ?m i = Some n" using insert_other [OF assms(2), of m] assms(1) by (rule trans)
  with grows_add_inverses [of ?m ns] show ?thesis unfolding addNodes_def grows_def by blast
qed

section \<open>Deleting nodes\<close>

text \<open>Removes from the target of \<open>r\<close> the inverses of \<open>r\<close>.\<close>

definition drop_inverse :: "NodeID option \<Rightarrow> Reference \<Rightarrow> NamespaceManager \<Rightarrow> NamespaceManager" where
  "drop_inverse i r m =
     (if \<not> linked r then m
      else case nodes m (target_id m r) of
        None \<Rightarrow> m
      | Some t \<Rightarrow> m\<lparr>nodes := (nodes m)(target_id m r \<mapsto>
          t\<lparr>n_references := filter (\<lambda>tr. \<not> inverse_of m i r tr) (n_references t)\<rparr>)\<rparr>)"

text \<open>The references are those of the object, which the map holds unless it is deleted already.\<close>

definition deleteNodeandInverseReferences :: "Node \<Rightarrow> NamespaceManager \<Rightarrow> NamespaceManager" where
  "deleteNodeandInverseReferences n m =
     (let i = n_nodeId n;
          refs = (case nodes m i of Some n' \<Rightarrow> n_references n' | None \<Rightarrow> n_references n);
          m1 = fold (drop_inverse i) refs m
      in m1\<lparr>nodes := (nodes m1)(i := None)\<rparr>)"

text \<open>Every reference has an inverse, type definitions and modelling rules apart; nodes are filed under their ids.\<close>

definition symmetric :: "NamespaceManager \<Rightarrow> bool" where
  "symmetric m \<longleftrightarrow> (\<forall>i n. nodes m i = Some n \<longrightarrow> n_nodeId n = i
     \<and> (\<forall>r\<in>set (n_references n). linked r \<longrightarrow> has_inverse m i r))"

definition dropped :: "NamespaceManager \<Rightarrow> NodeID option \<Rightarrow> Reference list \<Rightarrow> NodeID option \<Rightarrow> Reference \<Rightarrow> bool" where
  "dropped m i rs j tr \<longleftrightarrow> (\<exists>r\<in>set rs. linked r \<and> target_id m r = j \<and> inverse_of m i r tr)"

lemma drop_inverse_namespaces [simp]: "namespaces (drop_inverse i r m) = namespaces m"
  by (simp add: drop_inverse_def split: option.splits)

lemma same_targets:
  assumes "namespaces m' = namespaces m"
  shows "target_id m' = target_id m" "inverse_of m' = inverse_of m" "dropped m' = dropped m"
proof -
  show t: "target_id m' = target_id m" by (intro ext) (simp add: target_id_def assms)
  show v: "inverse_of m' = inverse_of m" by (intro ext) (simp add: inverse_of_def t)
  show "dropped m' = dropped m" by (intro ext) (simp add: dropped_def t v)
qed

lemma drop_inverse_nodes:
  "nodes (drop_inverse i r m) j =
     map_option (\<lambda>n. n\<lparr>n_references := filter (\<lambda>tr. \<not> dropped m i [r] j tr) (n_references n)\<rparr>) (nodes m j)"
  by (cases "nodes m j"; cases "target_id m r = j") (auto simp: drop_inverse_def dropped_def split: option.splits)

lemma fold_drop_nodes:
  "nodes (fold (drop_inverse i) rs m) j =
     map_option (\<lambda>n. n\<lparr>n_references := filter (\<lambda>tr. \<not> dropped m i rs j tr) (n_references n)\<rparr>) (nodes m j)
   \<and> namespaces (fold (drop_inverse i) rs m) = namespaces m"
proof (induction rs arbitrary: m)
  case Nil
  show ?case by (simp add: dropped_def option.map_ident)
next
  case (Cons r rs)
  have d: "dropped (drop_inverse i r m) = dropped m" by (rule same_targets) simp
  have "dropped m i (r # rs) j tr \<longleftrightarrow> dropped m i [r] j tr \<or> dropped m i rs j tr" for tr by (auto simp: dropped_def)
  then show ?case using Cons.IH [of "drop_inverse i r m"]
    by (auto simp: d drop_inverse_nodes option.map_comp comp_def intro!: option.map_cong)
qed

lemma delete_nodes:
  assumes "nodes m i = Some n" and "n_nodeId n = i"
  shows "nodes (deleteNodeandInverseReferences n m) j = (if j = i then None
      else map_option (\<lambda>u. u\<lparr>n_references := filter (\<lambda>tr. \<not> dropped m i (n_references n) j tr) (n_references u)\<rparr>) (nodes m j))"
    and "namespaces (deleteNodeandInverseReferences n m) = namespaces m"
  using assms fold_drop_nodes [of i "n_references n" m j] by (simp_all add: deleteNodeandInverseReferences_def Let_def)

text \<open>Nothing points at a deleted node any more.\<close>

lemma inverse_ofD:
  assumes "inverse_of m i r tr" and "linked r"
  shows "linked tr" "target_id m tr = i" "inverse_of m (target_id m r) tr r"
  using assms by (auto simp: inverse_of_def linked_def)

lemma delete_no_dangling:
  assumes sym: "symmetric m" and n: "nodes m i = Some n"
    and u: "nodes (deleteNodeandInverseReferences n m) j = Some u" "r \<in> set (n_references u)" "linked r"
  shows "target_id m r \<noteq> i"
proof
  assume t: "target_id m r = i"
  have id: "n_nodeId n = i" using sym n by (simp add: symmetric_def)
  from u delete_nodes(1) [OF n id, of j] obtain u0 where u0: "nodes m j = Some u0" "r \<in> set (n_references u0)"
    "\<not> dropped m i (n_references n) j r" by (auto split: if_splits)
  then have "has_inverse m j r" using sym u(3) by (auto simp: symmetric_def)
  then obtain tr where tr: "tr \<in> set (n_references n)" "inverse_of m j r tr" using n t by (auto simp: has_inverse_def)
  with inverse_ofD [OF tr(2) u(3)] t have "dropped m i (n_references n) j r" by (auto simp: dropped_def)
  with u0 show False by simp
qed

lemma delete_symmetric:
  assumes sym: "symmetric m" and n: "nodes m i = Some n"
  shows "symmetric (deleteNodeandInverseReferences n m)"
proof -
  let ?m = "deleteNodeandInverseReferences n m"
  have id: "n_nodeId n = i" using sym n by (simp add: symmetric_def)
  note del = delete_nodes [OF n id]
  note eq = same_targets [OF del(2)]
  have "n_nodeId u = j \<and> has_inverse ?m j r" if u: "nodes ?m j = Some u" and r: "r \<in> set (n_references u)" "linked r" for j u r
  proof
    from u r del(1) [of j] obtain u0 where u0: "nodes m j = Some u0" "j \<noteq> i" "r \<in> set (n_references u0)" "n_nodeId u = n_nodeId u0"
      by (auto split: if_splits)
    then show "n_nodeId u = j" using sym by (simp add: symmetric_def)
    have h: "has_inverse m j r" using sym u0 r(2) by (auto simp: symmetric_def)
    show "has_inverse ?m j r" unfolding has_inverse_def eq
    proof (intro allI impI)
      fix t assume t: "nodes ?m (target_id m r) = Some t"
      let ?k = "target_id m r"
      from t del(1) [of ?k] obtain t0 where t0: "nodes m ?k = Some t0" "?k \<noteq> i"
        "n_references t = filter (\<lambda>tr. \<not> dropped m i (n_references n) ?k tr) (n_references t0)" by (auto split: if_splits)
      obtain tr where tr: "tr \<in> set (n_references t0)" "inverse_of m j r tr" using h t0(1) by (auto simp: has_inverse_def)
      have "\<not> dropped m i (n_references n) ?k tr" using tr(2) u0(2) by (auto simp: dropped_def inverse_of_def)
      with tr t0 show "\<exists>tr\<in>set (n_references t). inverse_of m j r tr" by auto
    qed
  qed
  moreover have "n_nodeId u = j" if "nodes ?m j = Some u" for j u
    using that del(1) [of j] sym by (auto simp: symmetric_def split: if_splits)
  ultimately show ?thesis unfolding symmetric_def by blast
qed

section \<open>Children\<close>

record ('q, 'a) deque_ops =
  dq_new :: 'q
  dq_PushBack :: "'a \<Rightarrow> 'q \<Rightarrow> 'q"
  dq_PopFront :: "'q \<Rightarrow> 'a \<times> 'q"
  dq_Len :: "'q \<Rightarrow> nat"

definition deque_laws :: "('q, 'a) deque_ops \<Rightarrow> ('q \<Rightarrow> 'a list) \<Rightarrow> bool" where
  "deque_laws dq xs_of \<longleftrightarrow> xs_of (dq_new dq) = [] \<and> (\<forall>x q. xs_of (dq_PushBack dq x q) = xs_of q @ [x])
     \<and> (\<forall>q. dq_Len dq q = length (xs_of q))
     \<and> (\<forall>q. xs_of q \<noteq> [] \<longrightarrow> fst (dq_PopFront dq q) = hd (xs_of q) \<and> xs_of (snd (dq_PopFront dq q)) = tl (xs_of q))"

text \<open>The targets of the references that \<open>GetChildren\<close> follows; \<open>None\<close> follows all types.\<close>

definition children_of :: "NamespaceManager \<Rightarrow> NodeID option list option \<Rightarrow> Node \<Rightarrow> Node list" where
  "children_of m types n = List.map_filter (\<lambda>r.
     if \<not> IsInverse r \<and> (case types of None \<Rightarrow> True | Some ts \<Rightarrow> ReferenceTypeID r \<in> set ts)
     then nodes m (target_id m r) else None) (n_references n)"

fun get_children_loop :: "nat \<Rightarrow> ('q, Node \<times> bool) deque_ops \<Rightarrow> NamespaceManager \<Rightarrow> NodeID option list option \<Rightarrow>
    'q \<Rightarrow> Node list \<Rightarrow> Node list option" where
  "get_children_loop 0 dq m types q children = None"
| "get_children_loop (Suc k) dq m types q children =
     (if dq_Len dq q = 0 then Some children
      else case dq_PopFront dq q of ((n, visited), q1) \<Rightarrow>
        if visited then get_children_loop k dq m types q1 children
        else let cs = children_of m types n
             in get_children_loop k dq m types (fold (\<lambda>c. dq_PushBack dq (c, False)) cs q1) (children @ cs))"

definition GetChildren :: "nat \<Rightarrow> ('q, Node \<times> bool) deque_ops \<Rightarrow> NamespaceManager \<Rightarrow> NodeID option list option \<Rightarrow>
    Node \<Rightarrow> Node list option" where
  "GetChildren fuel dq m types n = get_children_loop fuel dq m types (dq_PushBack dq (n, False) (dq_new dq)) []"

definition hasChildandSubtypes :: "NodeID option list" where
  "hasChildandSubtypes = [ReferenceTypeIDHasComponent, ReferenceTypeIDHasProperty, ReferenceTypeIDHasSubtype,
     ReferenceTypeIDHasOrderedComponent]"

fun all_children :: "nat \<Rightarrow> ('q, Node \<times> bool) deque_ops \<Rightarrow> NamespaceManager \<Rightarrow> Node list \<Rightarrow> Node list option" where
  "all_children fuel dq m [] = Some []"
| "all_children fuel dq m (n # ns) = (case GetChildren fuel dq m (Some hasChildandSubtypes) n of
       None \<Rightarrow> None
     | Some cs \<Rightarrow> map_option (append cs) (all_children fuel dq m ns))"

text \<open>The flag \<open>deleteChildren\<close> is not looked at.\<close>

definition DeleteNodes :: "nat \<Rightarrow> ('q, Node \<times> bool) deque_ops \<Rightarrow> Node list \<Rightarrow> bool \<Rightarrow> NamespaceManager \<Rightarrow> NamespaceManager option" where
  "DeleteNodes fuel dq ns deleteChildren m = (case all_children fuel dq m ns of
       None \<Rightarrow> None
     | Some cs \<Rightarrow> Some (fold deleteNodeandInverseReferences ns (fold deleteNodeandInverseReferences cs m)))"

definition child_rel :: "NamespaceManager \<Rightarrow> NodeID option list option \<Rightarrow> (Node \<times> Node) set" where
  "child_rel m types = {(c, n). c \<in> set (children_of m types n)}"

lemma fold_push:
  assumes "deque_laws dq xs_of"
  shows "xs_of (fold (\<lambda>c. dq_PushBack dq (c, False)) cs q) = xs_of q @ map (\<lambda>c. (c, False)) cs"
  using assms by (induction cs arbitrary: q) (simp_all add: deque_laws_def)

lemma get_children_step:
  assumes dq: "deque_laws dq xs_of" and q: "xs_of q = (n, False) # xs"
  shows "\<exists>q1. xs_of q1 = xs @ map (\<lambda>c. (c, False)) (children_of m types n)
    \<and> (\<forall>k. get_children_loop (Suc k) dq m types q acc = get_children_loop k dq m types q1 (acc @ children_of m types n))"
proof -
  have "fst (dq_PopFront dq q) = (n, False)" "xs_of (snd (dq_PopFront dq q)) = xs" using dq q by (simp_all add: deque_laws_def)
  then obtain p where p: "dq_PopFront dq q = ((n, False), p)" "xs_of p = xs" by (metis prod.collapse)
  have "dq_Len dq q \<noteq> 0" using dq q by (simp add: deque_laws_def)
  with p fold_push [OF dq, of "children_of m types n" p] show ?thesis
    by (intro exI [of _ "fold (\<lambda>c. dq_PushBack dq (c, False)) (children_of m types n) p"]) (simp add: Let_def)
qed

text \<open>Without cycles the search ends, and returns the descendants.\<close>

lemma get_children_ends:
  assumes dq: "deque_laws dq xs_of" and wf: "wf (child_rel m types)" and "xs_of q = map (\<lambda>n. (n, False)) ns"
  shows "\<exists>fuel cs. get_children_loop fuel dq m types q acc = Some cs
    \<and> set cs = set acc \<union> {c. \<exists>n\<in>set ns. (c, n) \<in> (child_rel m types)\<^sup>+}"
  using wf_mult [OF wf] assms(3)
proof (induction "mset ns" arbitrary: ns q acc rule: wf_induct_rule)
  case less
  show ?case
  proof (cases ns)
    case Nil
    then have "get_children_loop (Suc 0) dq m types q acc = Some acc" using dq less.prems by (simp add: deque_laws_def)
    then show ?thesis using Nil by (intro exI [of _ "Suc 0"] exI [of _ acc]) simp
  next
    case (Cons n ms)
    let ?cs = "children_of m types n"
    obtain q1 where q1: "xs_of q1 = map (\<lambda>c. (c, False)) (ms @ ?cs)"
      "\<And>k. get_children_loop (Suc k) dq m types q acc = get_children_loop k dq m types q1 (acc @ ?cs)"
      using get_children_step [OF dq, of q n "map (\<lambda>n. (n, False)) ms" m types acc] less.prems Cons by auto
    have "(mset (ms @ ?cs), mset ns) \<in> mult (child_rel m types)"
      using one_step_implies_mult [of "{#n#}" "mset ?cs" "child_rel m types" "mset ms"]
      by (auto simp: Cons child_rel_def)
    from less.hyps [OF this q1(1), of "acc @ ?cs"] obtain fuel cs where
      r: "get_children_loop fuel dq m types q1 (acc @ ?cs) = Some cs"
      "set cs = set (acc @ ?cs) \<union> {c. \<exists>n\<in>set (ms @ ?cs). (c, n) \<in> (child_rel m types)\<^sup>+}" by blast
    have "(c, n) \<in> (child_rel m types)\<^sup>+ \<longleftrightarrow> c \<in> set ?cs \<or> (\<exists>d\<in>set ?cs. (c, d) \<in> (child_rel m types)\<^sup>+)" for c
      by (auto simp: child_rel_def elim: tranclE intro: trancl.intros)
    with r Cons q1(2) [of fuel] show ?thesis by (intro exI [of _ "Suc fuel"] exI [of _ cs]) auto
  qed
qed

lemma get_children_more_fuel:
  "get_children_loop k dq m types q acc = Some cs \<Longrightarrow> get_children_loop (k + l) dq m types q acc = Some cs"
  by (induction k dq m types q acc rule: get_children_loop.induct) (auto simp: Let_def split: prod.splits if_splits)

lemma GetChildren_ends:
  assumes "deque_laws dq xs_of" and "wf (child_rel m types)"
  shows "\<exists>k cs. (\<forall>fuel. GetChildren (k + fuel) dq m types n = Some cs) \<and> set cs = {c. (c, n) \<in> (child_rel m types)\<^sup>+}"
proof -
  let ?q = "dq_PushBack dq (n, False) (dq_new dq)"
  have "xs_of ?q = map (\<lambda>n. (n, False)) [n]" using assms(1) by (simp add: deque_laws_def)
  from get_children_ends [OF assms this, of "[]"] obtain k cs where
    k: "get_children_loop k dq m types ?q [] = Some cs" "set cs = {c. (c, n) \<in> (child_rel m types)\<^sup>+}" by auto
  then have "GetChildren (k + fuel) dq m types n = Some cs" for fuel unfolding GetChildren_def by (intro get_children_more_fuel)
  with k(2) show ?thesis by blast
qed

text \<open>Once a node on a cycle is in the queue, the search never ends.\<close>

lemma get_children_cycle:
  assumes dq: "deque_laws dq xs_of" and C: "\<forall>n\<in>C. \<exists>c\<in>set (children_of m types n). c \<in> C"
    and "xs_of q = map (\<lambda>n. (n, False)) ns" and "C \<inter> set ns \<noteq> {}"
  shows "get_children_loop fuel dq m types q acc = None"
  using assms(3,4)
proof (induction fuel arbitrary: q ns acc)
  case (Suc fuel)
  then obtain n ms where ns: "ns = n # ms" by (cases ns) auto
  let ?cs = "children_of m types n"
  obtain q1 where q1: "xs_of q1 = map (\<lambda>c. (c, False)) (ms @ ?cs)"
    "get_children_loop (Suc fuel) dq m types q acc = get_children_loop fuel dq m types q1 (acc @ ?cs)"
    using get_children_step [OF dq, of q n "map (\<lambda>n. (n, False)) ms" m types acc] Suc.prems(1) ns by auto
  have "C \<inter> set (ms @ ?cs) \<noteq> {}" using Suc.prems(2) ns C by auto
  with Suc.IH [OF q1(1)] q1(2) show ?case by simp
qed simp

lemma GetChildren_cycle:
  assumes "deque_laws dq xs_of" and "(n, n) \<in> (child_rel m types)\<^sup>+"
  shows "GetChildren fuel dq m types n = None"
proof -
  let ?C = "{c. (c, n) \<in> (child_rel m types)\<^sup>* \<and> (n, c) \<in> (child_rel m types)\<^sup>*}"
  have "\<exists>d\<in>set (children_of m types c). d \<in> ?C" if c: "c \<in> ?C" for c
  proof -
    have "(n, c) \<in> (child_rel m types)\<^sup>+"
      using c assms(2) by (metis (no_types, lifting) mem_Collect_eq rtranclD trancl_rtrancl_trancl rtrancl_trancl_trancl)
    then obtain d where "(n, d) \<in> (child_rel m types)\<^sup>*" "(d, c) \<in> child_rel m types" by (metis tranclD2)
    with c show ?thesis by (auto simp: child_rel_def intro: converse_rtrancl_into_rtrancl)
  qed
  then show ?thesis unfolding GetChildren_def
    using assms(1) by (intro get_children_cycle [where C = ?C and ns = "[n]", OF assms(1)]) (auto simp: deque_laws_def)
qed

text \<open>What \<open>DeleteNodes\<close> leaves: the nodes and their children are gone, nothing points at them.\<close>

definition forgotten :: "NamespaceManager \<Rightarrow> NodeID option \<Rightarrow> bool" where
  "forgotten m i \<longleftrightarrow> nodes m i = None \<and> (\<forall>j u r. nodes m j = Some u \<longrightarrow> r \<in> set (n_references u) \<longrightarrow> linked r \<longrightarrow> target_id m r \<noteq> i)"

lemma delete_forgotten:
  assumes "forgotten m (n_nodeId n)"
  shows "deleteNodeandInverseReferences n m = m"
proof -
  let ?i = "n_nodeId n"
  have f: "nodes m ?i = None" using assms by (simp add: forgotten_def)
  have "\<not> dropped m ?i rs j tr" if "nodes m j = Some u" "tr \<in> set (n_references u)" for rs j u tr
    using assms that unfolding forgotten_def dropped_def by (metis inverse_ofD(1,2))
  then have "nodes (fold (drop_inverse ?i) rs m) j = nodes m j" for rs j
    using fold_drop_nodes [of ?i rs m j] by (cases "nodes m j") (auto simp: filter_id_conv)
  then have "nodes (fold (drop_inverse ?i) rs m) = nodes m" for rs by blast
  moreover have "variantTypeMap (fold (drop_inverse ?i) rs m) = variantTypeMap m" for rs
    by (induction rs arbitrary: m) (auto simp: drop_inverse_def split: option.splits)
  ultimately show ?thesis using f fold_drop_nodes [of ?i "n_references n" m]
    by (simp add: deleteNodeandInverseReferences_def Let_def fun_upd_idem)
qed

lemma delete_step:
  assumes sym: "symmetric m" and n: "nodes m (n_nodeId n) \<noteq> None \<or> forgotten m (n_nodeId n)"
  shows "symmetric (deleteNodeandInverseReferences n m) \<and> forgotten (deleteNodeandInverseReferences n m) (n_nodeId n)
    \<and> (\<forall>i. forgotten m i \<longrightarrow> forgotten (deleteNodeandInverseReferences n m) i)
    \<and> (\<forall>i. nodes m i \<noteq> None \<longrightarrow> nodes (deleteNodeandInverseReferences n m) i \<noteq> None \<or> i = n_nodeId n)"
proof (cases "nodes m (n_nodeId n)")
  case None
  with n have "forgotten m (n_nodeId n)" by simp
  with sym delete_forgotten [of m n] show ?thesis by simp
next
  case (Some n')
  have id: "n_nodeId n' = n_nodeId n" using sym Some by (simp add: symmetric_def)
  have same: "deleteNodeandInverseReferences n m = deleteNodeandInverseReferences n' m"
    using Some id by (simp add: deleteNodeandInverseReferences_def Let_def)
  note del = delete_nodes [OF Some id]
  note eq = same_targets [OF del(2)]
  have "forgotten (deleteNodeandInverseReferences n' m) (n_nodeId n)"
    unfolding forgotten_def eq using delete_no_dangling [OF sym Some] del(1) by auto
  moreover have "forgotten (deleteNodeandInverseReferences n' m) i" if "forgotten m i" for i
    unfolding forgotten_def eq using that del(1) by (fastforce simp: forgotten_def split: if_splits)
  ultimately show ?thesis unfolding same using delete_symmetric [OF sym Some] del(1) by auto
qed

lemma delete_all:
  assumes "symmetric m" and "\<forall>n\<in>set ns. nodes m (n_nodeId n) \<noteq> None \<or> forgotten m (n_nodeId n)"
  shows "symmetric (fold deleteNodeandInverseReferences ns m)
    \<and> (\<forall>n\<in>set ns. forgotten (fold deleteNodeandInverseReferences ns m) (n_nodeId n))
    \<and> (\<forall>i. forgotten m i \<longrightarrow> forgotten (fold deleteNodeandInverseReferences ns m) i)
    \<and> (\<forall>i. nodes m i \<noteq> None \<longrightarrow> nodes (fold deleteNodeandInverseReferences ns m) i \<noteq> None \<or> i \<in> n_nodeId ` set ns)"
  using assms
proof (induction ns arbitrary: m)
  case (Cons n ns)
  let ?m = "deleteNodeandInverseReferences n m"
  have step: "symmetric ?m" "forgotten ?m (n_nodeId n)" "\<And>i. forgotten m i \<Longrightarrow> forgotten ?m i"
    "\<And>i. nodes m i \<noteq> None \<Longrightarrow> nodes ?m i \<noteq> None \<or> i = n_nodeId n"
    using delete_step [of m n] Cons.prems by auto
  have "\<forall>b\<in>set ns. nodes ?m (n_nodeId b) \<noteq> None \<or> forgotten ?m (n_nodeId b)"
    using Cons.prems(2) step by (metis list.set_intros(2))
  note ih = Cons.IH [OF step(1) this]
  have "nodes (fold deleteNodeandInverseReferences ns ?m) i \<noteq> None \<or> i \<in> n_nodeId ` set (n # ns)" if "nodes m i \<noteq> None" for i
    using step(4) [OF that] ih by (metis image_insert insertCI list.simps(15))
  with ih step(2,3) show ?case by simp
qed simp

lemma children_in_map:
  assumes "symmetric m" and "c \<in> set (children_of m types n)"
  shows "nodes m (n_nodeId c) = Some c"
  using assms by (auto simp: children_of_def map_filter_def symmetric_def split: if_splits)

lemma loop_children_in_map:
  assumes "get_children_loop fuel dq m types q acc = Some cs" and "symmetric m" and "\<forall>c\<in>set acc. nodes m (n_nodeId c) = Some c"
  shows "\<forall>c\<in>set cs. nodes m (n_nodeId c) = Some c"
  using assms(1,3)
proof (induction fuel arbitrary: q acc)
  case (Suc fuel)
  obtain n v q1 where p: "dq_PopFront dq q = ((n, v), q1)" by (metis surj_pair)
  have "\<forall>c\<in>set (acc @ children_of m types n). nodes m (n_nodeId c) = Some c"
    using Suc.prems(2) children_in_map [OF assms(2)] by auto
  with Suc p show ?case by (cases "dq_Len dq q = 0"; cases v) (auto simp: Let_def)
qed simp

lemma GetChildren_in_map:
  "GetChildren fuel dq m types n = Some cs \<Longrightarrow> symmetric m \<Longrightarrow> c \<in> set cs \<Longrightarrow> nodes m (n_nodeId c) = Some c"
  using loop_children_in_map [of fuel dq m types "dq_PushBack dq (n, False) (dq_new dq)" "[]" cs]
  by (simp add: GetChildren_def)

lemma all_children_in_map:
  "all_children fuel dq m ns = Some cs \<Longrightarrow> symmetric m \<Longrightarrow> \<forall>c\<in>set cs. nodes m (n_nodeId c) = Some c"
  by (induction ns arbitrary: cs) (auto split: option.splits dest: GetChildren_in_map)

lemma DeleteNodes_spec:
  assumes sym: "symmetric m" and ns: "\<forall>n\<in>set ns. nodes m (n_nodeId n) = Some n"
    and del: "DeleteNodes fuel dq ns flag m = Some m'"
  shows "symmetric m' \<and> (\<exists>cs. all_children fuel dq m ns = Some cs \<and> (\<forall>n\<in>set ns \<union> set cs. forgotten m' (n_nodeId n))
    \<and> (\<forall>i. nodes m i \<noteq> None \<longrightarrow> nodes m' i = None \<longrightarrow> i \<in> n_nodeId ` (set ns \<union> set cs)))"
proof -
  obtain cs where cs: "all_children fuel dq m ns = Some cs"
    and m': "m' = fold deleteNodeandInverseReferences ns (fold deleteNodeandInverseReferences cs m)"
    using del by (auto simp: DeleteNodes_def split: option.splits)
  let ?m = "fold deleteNodeandInverseReferences cs m"
  have a: "symmetric ?m" "\<forall>n\<in>set cs. forgotten ?m (n_nodeId n)"
    "\<forall>i. nodes m i \<noteq> None \<longrightarrow> nodes ?m i \<noteq> None \<or> i \<in> n_nodeId ` set cs"
    using delete_all [OF sym, of cs] all_children_in_map [OF cs sym] by auto
  have "nodes ?m (n_nodeId n) \<noteq> None \<or> forgotten ?m (n_nodeId n)" if "n \<in> set ns" for n
  proof (cases "n_nodeId n \<in> n_nodeId ` set cs")
    case True
    then show ?thesis using a(2) by (metis imageE)
  next
    case False
    then show ?thesis using a(3) ns that by (metis option.distinct(1))
  qed
  then have b: "symmetric m'" "\<forall>n\<in>set ns. forgotten m' (n_nodeId n)" "\<forall>i. forgotten ?m i \<longrightarrow> forgotten m' i"
    "\<forall>i. nodes ?m i \<noteq> None \<longrightarrow> nodes m' i \<noteq> None \<or> i \<in> n_nodeId ` set ns"
    unfolding m' using delete_all [OF a(1), of ns] by auto
  show ?thesis using a b cs by (intro conjI exI [of _ cs]; blast)
qed

end
