(* ===== verification/Node_Access.thy ===== *)
theory Node_Access
  imports Address_Space
begin

text \<open>
  What the attribute and view services do to one node (\<open>readValue\<close>, \<open>writeValue\<close>,
  \<open>validateIndexRange\<close>, the task of \<open>handleBrowse\<close>, \<open>target\<close> and \<open>follow\<close> of
  \<open>server/server_service_set.go\<close>). The instant of \<open>time.Now()\<close> is an argument. An
  operation that never returns is \<open>NoFuel\<close>, a panic is \<open>Panic\<close>.
\<close>

section \<open>Status codes and attributes\<close>

definition BadNodeIDUnknown :: StatusCode where "BadNodeIDUnknown = 0x80340000"
definition BadAttributeIDInvalid :: StatusCode where "BadAttributeIDInvalid = 0x80350000"
definition BadDataEncodingInvalid :: StatusCode where "BadDataEncodingInvalid = 0x80380000"
definition BadNotReadable :: StatusCode where "BadNotReadable = 0x803A0000"
definition BadNotWritable :: StatusCode where "BadNotWritable = 0x803B0000"
definition BadOutOfRange :: StatusCode where "BadOutOfRange = 0x803C0000"
definition BadTypeMismatch :: StatusCode where "BadTypeMismatch = 0x80740000"

definition ValueRankOneDimension :: u32 where "ValueRankOneDimension = 1"
definition ValueRankOneOrMoreDimensions :: u32 where "ValueRankOneOrMoreDimensions = 0"
definition ValueRankScalar :: u32 where "ValueRankScalar = -1"
definition ValueRankAny :: u32 where "ValueRankAny = -2"
definition ValueRankScalarOrOneDimension :: u32 where "ValueRankScalarOrOneDimension = -3"

lemmas access_codes = BadNodeIDUnknown_def BadAttributeIDInvalid_def BadDataEncodingInvalid_def BadNotReadable_def
  BadNotWritable_def BadOutOfRange_def BadTypeMismatch_def BadUserAccessDenied_def BadIndexRangeInvalid_def
  BadIndexRangeNoData_def Good_def

record capabilities =
  MaxStringLength :: u32
  MaxByteStringLength :: u32
  MaxArrayLength :: u32

definition node_permissions_of :: "role_env \<Rightarrow> identity \<Rightarrow> Node \<Rightarrow> RolePermissionType list" where
  "node_permissions_of re uid n = (case n_attrs n of
       MethodNode _ \<Rightarrow> Method_UserRolePermissions re (n_rolePermissions n) uid
     | _ \<Rightarrow> UserRolePermissions re (n_rolePermissions n) uid)"

lemma node_permitted: "IsUserPermitted (node_permissions_of re uid n) p \<longleftrightarrow> permitted re (n_rolePermissions n) uid p"
  by (simp add: node_permissions_of_def permitted_URP permitted_Method split: node_attrs.split)

section \<open>Reading an attribute\<close>

text \<open>Structures among the attributes, as the values of a variant.\<close>

definition permission_value :: "RolePermissionType \<Rightarrow> goval" where
  "permission_value rp = VStruct ''RolePermissionType'' [TScalar KNodeID, TEnum ''PermissionType'']
     [VScalar (SNodeID (RoleID rp)), VEnum ''PermissionType'' (Permissions rp)]"

text \<open>A nil \<open>NodeID\<close> in an \<open>any\<close> is nil.\<close>

definition id_value :: "NodeID option \<Rightarrow> goval" where
  "id_value i = (case i of None \<Rightarrow> VNil | Some _ \<Rightarrow> VScalar (SNodeID i))"

definition dims_value :: "u32 list option \<Rightarrow> goval" where
  "dims_value ds = VSlice (TScalar KUint32) (map_option (map (\<lambda>d. VScalar (SUint32 d))) ds)"

fun is_abstract :: "node_attrs \<Rightarrow> bool option" where
  "is_abstract (DataTypeNode b _) = Some b"
| "is_abstract (ObjectTypeNode b) = Some b"
| "is_abstract (ReferenceTypeNode b _ _) = Some b"
| "is_abstract (VariableTypeNode _ _ _ _ b) = Some b"
| "is_abstract _ = None"

text \<open>The attributes other than \<open>Value\<close>; \<open>None\<close> is \<open>BadAttributeIDInvalid\<close>.\<close>

definition read_attribute :: "role_env \<Rightarrow> identity \<Rightarrow> Node \<Rightarrow> u32 \<Rightarrow> goval option" where
  "read_attribute re uid n a =
     (let bool_of = map_option (\<lambda>b. VScalar (SBool b)); byte_of = map_option (\<lambda>b. VScalar (SUint8 b)); attrs = n_attrs n in
      if a = 1 then Some (id_value (n_nodeId n))
      else if a = 2 then Some (VScalar (SInt32 (NodeClass attrs)))
      else if a = 3 then Some (VScalar (SQualifiedName (n_browseName n)))
      else if a = 4 then Some (VScalar (SLocalizedText (n_displayName n)))
      else if a = 5 then Some (VScalar (SLocalizedText (n_description n)))
      else if a = 8 then bool_of (is_abstract attrs)
      else if a = 9 then (case attrs of ReferenceTypeNode _ b _ \<Rightarrow> Some (VScalar (SBool b)) | _ \<Rightarrow> None)
      else if a = 10 then (case attrs of ReferenceTypeNode _ _ x \<Rightarrow> Some (VScalar (SLocalizedText x)) | _ \<Rightarrow> None)
      else if a = 11 then (case attrs of ViewNode b _ \<Rightarrow> Some (VScalar (SBool b)) | _ \<Rightarrow> None)
      else if a = 12 then byte_of (case attrs of ObjectNode e \<Rightarrow> Some e | ViewNode _ e \<Rightarrow> Some e | _ \<Rightarrow> None)
      else if a = 14 then (case attrs of VariableNode va \<Rightarrow> Some (id_value (va_dataType va))
        | VariableTypeNode _ dt _ _ _ \<Rightarrow> Some (id_value dt) | _ \<Rightarrow> None)
      else if a = 15 then (case attrs of VariableNode va \<Rightarrow> Some (VScalar (SInt32 (va_valueRank va)))
        | VariableTypeNode _ _ r _ _ \<Rightarrow> Some (VScalar (SInt32 r)) | _ \<Rightarrow> None)
      else if a = 16 then (case attrs of VariableNode va \<Rightarrow> Some (dims_value (va_arrayDimensions va))
        | VariableTypeNode _ _ _ ds _ \<Rightarrow> Some (dims_value ds) | _ \<Rightarrow> None)
      else if a = 17 then byte_of (case attrs of VariableNode va \<Rightarrow> Some (va_accessLevel va) | _ \<Rightarrow> None)
      else if a = 18 then byte_of (case attrs of
          VariableNode va \<Rightarrow> Some (UserAccessLevel re (n_rolePermissions n) (va_accessLevel va) uid) | _ \<Rightarrow> None)
      else if a = 19 then (case attrs of VariableNode va \<Rightarrow> Some (VScalar (SFloat64 (va_minimumSamplingInterval va))) | _ \<Rightarrow> None)
      else if a = 20 then bool_of (case attrs of VariableNode va \<Rightarrow> Some (va_historizing va) | _ \<Rightarrow> None)
      else if a = 21 then bool_of (case attrs of MethodNode b \<Rightarrow> Some b | _ \<Rightarrow> None)
      else if a = 22 then bool_of (case attrs of MethodNode b \<Rightarrow> Some (UserExecutable re (n_rolePermissions n) b uid) | _ \<Rightarrow> None)
      else if a = 23 then (case attrs of DataTypeNode _ def \<Rightarrow> if def \<noteq> VNil then Some def else None | _ \<Rightarrow> None)
      else if a = 24 then
        (if IsUserPermitted (node_permissions_of re uid n) PermissionTypeReadRolePermissions
         then Some (VSlice TExtensionObject (Some (map permission_value (case n_rolePermissions n of None \<Rightarrow> [] | Some x \<Rightarrow> x))))
         else None)
      else if a = 25 then Some (VSlice TExtensionObject (Some (map permission_value (node_permissions_of re uid n))))
      else None)"

definition bad_value :: "StatusCode \<Rightarrow> gotime \<Rightarrow> DataValue" where
  "bad_value st t = NewDataValue VNil st zeroTime t"

definition readValue :: "role_env \<Rightarrow> NamespaceManager \<Rightarrow> gotime \<Rightarrow> (nat \<times> identity) option \<Rightarrow> ReadValueID \<Rightarrow> DataValue" where
  "readValue re m t sess rv = (case sess of
       None \<Rightarrow> bad_value BadUserAccessDenied t
     | Some (a, uid) \<Rightarrow>
         if qn_Name (rv_DataEncoding rv) \<noteq> [] then bad_value BadDataEncodingInvalid t
         else if rv_IndexRange rv \<noteq> [] \<and> rv_AttributeID rv \<noteq> 13 then bad_value BadIndexRangeNoData t
         else case FindNode m (rv_NodeID rv) of
           None \<Rightarrow> bad_value BadNodeIDUnknown t
         | Some n \<Rightarrow>
             if \<not> IsUserPermitted (node_permissions_of re uid n) PermissionTypeBrowse then bad_value BadNodeIDUnknown t
             else if rv_AttributeID rv = 13 then
               (case n_attrs n of
                  VariableNode va \<Rightarrow>
                    if va_accessLevel va AND AccessLevelsCurrentRead = 0 then bad_value BadNotReadable t
                    else if UserAccessLevel re (n_rolePermissions n) (va_accessLevel va) uid AND AccessLevelsCurrentRead = 0
                    then bad_value BadUserAccessDenied t
                    else (case va_readValueHandler va of
                        Some f \<Rightarrow> f a rv
                      | None \<Rightarrow> readRange (va_value va) (rv_IndexRange rv))
                | _ \<Rightarrow> bad_value BadAttributeIDInvalid t)
             else (case read_attribute re uid n (rv_AttributeID rv) of
                 Some v \<Rightarrow> NewDataValue v Good zeroTime t
               | None \<Rightarrow> bad_value BadAttributeIDInvalid t))"

section \<open>Writing an attribute\<close>

definition scalar_rank :: "u32 \<Rightarrow> bool" where
  "scalar_rank r \<longleftrightarrow> r = ValueRankScalar \<or> r = ValueRankScalarOrOneDimension \<or> r = ValueRankAny"

definition array_rank :: "u32 \<Rightarrow> bool" where
  "array_rank r \<longleftrightarrow> r = ValueRankOneDimension \<or> r = ValueRankOneOrMoreDimensions \<or> r = ValueRankScalarOrOneDimension \<or> r = ValueRankAny"

text \<open>
  The type switch on the new value. A slice whose element type has no case of its own is
  not checked against the type of the variable (the \<open>TODO\<close> of the source).
\<close>

definition check_scalar :: "capabilities \<Rightarrow> byte \<Rightarrow> u32 \<Rightarrow> scalar \<Rightarrow> StatusCode" where
  "check_scalar cap ty rank s =
     (if (case s of SString x \<Rightarrow> length x > unat (MaxStringLength cap)
                  | SByteString x \<Rightarrow> length x > unat (MaxByteStringLength cap) | _ \<Rightarrow> False) then BadOutOfRange
      else if ty \<noteq> variant_code (stype_of s) \<and> ty \<noteq> 24 then BadTypeMismatch
      else if \<not> scalar_rank rank then BadTypeMismatch else Good)"

definition check_slice :: "capabilities \<Rightarrow> byte \<Rightarrow> u32 \<Rightarrow> gotype \<Rightarrow> goval list \<Rightarrow> StatusCode" where
  "check_slice cap ty rank t vs = (case array_code t of
       Some code \<Rightarrow>
         if length vs > unat (MaxArrayLength cap) then BadOutOfRange
         else if ty \<noteq> code \<and> ty \<noteq> 24 then BadTypeMismatch
         else if \<not> array_rank rank then BadTypeMismatch else Good
     | None \<Rightarrow> if rank = ValueRankScalar then BadTypeMismatch else Good)"

definition check_struct :: "byte \<Rightarrow> u32 \<Rightarrow> StatusCode" where
  "check_struct ty rank =
     (if ty \<noteq> 22 \<and> ty \<noteq> 24 then BadTypeMismatch else if \<not> scalar_rank rank then BadTypeMismatch else Good)"

definition check_type :: "capabilities \<Rightarrow> byte \<Rightarrow> u32 \<Rightarrow> goval \<Rightarrow> StatusCode" where
  "check_type cap ty rank v = (case v of
       VNil \<Rightarrow> Good
     | VScalar (SNodeID None) \<Rightarrow> Good
     | VScalar s \<Rightarrow> check_scalar cap ty rank s
     | VSlice t vs \<Rightarrow> check_slice cap ty rank t (elems vs)
     | VDataValue _ _ _ _ _ _ \<Rightarrow> check_struct ty rank
     | VDiagnosticInfo _ \<Rightarrow> check_struct ty rank
     | VStruct _ _ _ \<Rightarrow> check_struct ty rank
     | _ \<Rightarrow> BadTypeMismatch)"

text \<open>Byte strings and byte arrays are converted to the type of the variable.\<close>

definition convert_bytes :: "byte \<Rightarrow> u32 \<Rightarrow> goval \<Rightarrow> goval" where
  "convert_bytes ty rank v =
     (let v1 = (case v of
          VScalar (SByteString bs) \<Rightarrow>
            if ty = 3 \<and> rank = ValueRankOneDimension then VSlice (TScalar KUint8) (Some (map (\<lambda>b. VScalar (SUint8 b)) bs)) else v
        | _ \<Rightarrow> v)
      in case v1 of
           VSlice (TScalar KUint8) vs \<Rightarrow>
             if ty = 15 \<and> rank = ValueRankScalar
             then VScalar (SByteString (map (\<lambda>x. un_Uint8 (un_Scalar x)) (elems vs))) else v1
         | _ \<Rightarrow> v1)"

definition on_variable :: "NodeID option \<Rightarrow> (variable_attrs \<Rightarrow> variable_attrs) \<Rightarrow> NamespaceManager \<Rightarrow> NamespaceManager" where
  "on_variable i f m = (case nodes m i of
       Some n \<Rightarrow> (case n_attrs n of
           VariableNode va \<Rightarrow> m\<lparr>nodes := (nodes m)(i \<mapsto> n\<lparr>n_attrs := VariableNode (f va)\<rparr>)\<rparr>
         | _ \<Rightarrow> m)
     | None \<Rightarrow> m)"

text \<open>
  A write runs in two parts, between which other tasks of the pool may run: the checks and
  the computation of the new value from the old one, and the setter, which locks the node.
\<close>

datatype write_plan = WDone StatusCode | WSetValue DataValue | WSetHistorizing bool

definition plan_of :: "DataValue \<times> StatusCode \<Rightarrow> write_plan" where
  "plan_of r = (case r of (v, st) \<Rightarrow> if st = Good then WSetValue v else WDone st)"

definition plan_value :: "role_env \<Rightarrow> capabilities \<Rightarrow> gotime \<Rightarrow> gotime \<Rightarrow> nat \<Rightarrow> identity \<Rightarrow> WriteValue \<Rightarrow> Node \<Rightarrow>
    variable_attrs \<Rightarrow> (NamespaceManager, write_plan) act" where
  "plan_value re cap t1 t2 a uid wv n va = (\<lambda>m.
     if va_accessLevel va AND AccessLevelsCurrentWrite = 0 then (Ok (WDone BadNotWritable), m)
     else if UserAccessLevel re (n_rolePermissions n) (va_accessLevel va) uid AND AccessLevelsCurrentWrite = 0
     then (Ok (WDone BadUserAccessDenied), m)
     else case FindVariantType (va_dataType va) m of
       None \<Rightarrow> (NoFuel, m)
     | Some (ty, m1) \<Rightarrow>
         (let v = convert_bytes ty (va_valueRank va) (Value (wv_Value wv));
              wv' = wv\<lparr>wv_Value := (wv_Value wv)\<lparr>Value := v\<rparr>\<rparr>;
              st = check_type cap ty (va_valueRank va) v
          in if st \<noteq> Good then (Ok (WDone st), m1)
             else case va_writeValueHandler va of
               Some f \<Rightarrow> (Ok (plan_of (f a wv')), m1)
             | None \<Rightarrow> (case writeRange t1 t2 (va_value va) (wv_Value wv') (wv_IndexRange wv) of
                   Ok r \<Rightarrow> (Ok (plan_of r), m1)
                 | _ \<Rightarrow> (Panic, m1))))"

definition plan_write :: "role_env \<Rightarrow> capabilities \<Rightarrow> gotime \<Rightarrow> gotime \<Rightarrow> (nat \<times> identity) option \<Rightarrow> WriteValue \<Rightarrow>
    (NamespaceManager, write_plan) act" where
  "plan_write re cap t1 t2 sess wv = (\<lambda>m. case sess of
       None \<Rightarrow> (Ok (WDone BadUserAccessDenied), m)
     | Some (a, uid) \<Rightarrow> (case FindNode m (wv_NodeID wv) of
           None \<Rightarrow> (Ok (WDone BadNodeIDUnknown), m)
         | Some n \<Rightarrow>
             if \<not> IsUserPermitted (node_permissions_of re uid n) PermissionTypeBrowse then (Ok (WDone BadNodeIDUnknown), m)
             else if wv_AttributeID wv = 13 then
               (case n_attrs n of
                  VariableNode va \<Rightarrow> plan_value re cap t1 t2 a uid wv n va m
                | _ \<Rightarrow> (Ok (WDone BadAttributeIDInvalid), m))
             else if wv_AttributeID wv = 20 then
               (case n_attrs n of
                  VariableNode va \<Rightarrow>
                    if \<not> IsUserPermitted (node_permissions_of re uid n) PermissionTypeWriteHistorizing
                    then (Ok (WDone BadUserAccessDenied), m)
                    else (case Value (wv_Value wv) of
                        VScalar (SBool b) \<Rightarrow> (Ok (WSetHistorizing b), m)
                      | _ \<Rightarrow> (Ok (WDone BadTypeMismatch), m))
                | _ \<Rightarrow> (Ok (WDone BadAttributeIDInvalid), m))
             else (Ok (WDone BadAttributeIDInvalid), m)))"

text \<open>\<open>SetValue\<close>; a node that is historizing without a historian panics.\<close>

definition SetValue :: "NodeID option \<Rightarrow> DataValue \<Rightarrow> (NamespaceManager, unit) act" where
  "SetValue i v = (\<lambda>m.
     let m1 = on_variable i (\<lambda>va. va\<lparr>va_value := v\<rparr>) m in
     case nodes m i of
       Some n \<Rightarrow> (case n_attrs n of
           VariableNode va \<Rightarrow> (if va_historizing va \<and> \<not> va_historian va then Panic else Ok (), m1)
         | _ \<Rightarrow> (Ok (), m1))
     | None \<Rightarrow> (Ok (), m1))"

definition perform_write :: "NodeID option \<Rightarrow> write_plan \<Rightarrow> (NamespaceManager, StatusCode) act" where
  "perform_write i p = (\<lambda>m. case p of
       WDone st \<Rightarrow> (Ok st, m)
     | WSetValue v \<Rightarrow> (case SetValue i v m of (Ok _, m1) \<Rightarrow> (Ok Good, m1) | (_, m1) \<Rightarrow> (Panic, m1))
     | WSetHistorizing b \<Rightarrow> (Ok Good, on_variable i (\<lambda>va. va\<lparr>va_historizing := b\<rparr>) m))"

definition writeValue :: "role_env \<Rightarrow> capabilities \<Rightarrow> gotime \<Rightarrow> gotime \<Rightarrow> (nat \<times> identity) option \<Rightarrow> WriteValue \<Rightarrow>
    (NamespaceManager, StatusCode) act" where
  "writeValue re cap t1 t2 sess wv = (\<lambda>m. case plan_write re cap t1 t2 sess wv m of
       (Ok p, m1) \<Rightarrow> perform_write (wv_NodeID wv) p m1
     | (Err e, m1) \<Rightarrow> (Err e, m1) | (Panic, m1) \<Rightarrow> (Panic, m1) | (NoFuel, m1) \<Rightarrow> (NoFuel, m1))"

section \<open>Index ranges of monitored items\<close>

fun validate_ranges :: "string list \<Rightarrow> bool" where
  "validate_ranges [] = True"
| "validate_ranges (r # rs) = (case range_bounds r of None \<Rightarrow> False | Some _ \<Rightarrow> validate_ranges rs)"

definition validateIndexRange :: "string \<Rightarrow> NodeID option \<Rightarrow> u32 \<Rightarrow> (NamespaceManager, StatusCode) act" where
  "validateIndexRange s dataType rank = (\<lambda>m.
     if s = [] then (Ok Good, m)
     else let ranges = Split s (CHR '','') in
       if \<not> validate_ranges ranges then (Ok BadIndexRangeInvalid, m)
       else case FindVariantType dataType m of
         None \<Rightarrow> (NoFuel, m)
       | Some (ty, m1) \<Rightarrow>
           (let is_text = (ty = 12 \<or> ty = 15);
                fits_by = (\<lambda>diff :: int. diff = 0 \<or> (diff = 1 \<and> is_text))
            in (Ok (if rank = ValueRankScalarOrOneDimension then (if fits_by (int (length ranges) - 1) then Good else BadIndexRangeNoData)
                    else if rank = ValueRankAny then Good
                    else if rank = ValueRankScalar then (if length ranges = 1 \<and> is_text then Good else BadIndexRangeNoData)
                    else if rank = ValueRankOneOrMoreDimensions then Good
                    else if fits_by (int (length ranges) - sint rank) then Good else BadIndexRangeNoData), m1)))"

section \<open>What a write may change\<close>

lemma FindVariantType_nodes: "FindVariantType t m = Some (ty, m') \<Longrightarrow> nodes m' = nodes m \<and> namespaces m' = namespaces m"
  by (auto simp: FindVariantType_def split: option.splits)

lemma on_variable_frame: "j \<noteq> i \<Longrightarrow> nodes (on_variable i f m) j = nodes m j"
  by (simp add: on_variable_def split: option.split node_attrs.split)

lemma on_variable_at:
  assumes "nodes m i = Some n" and "n_attrs n = VariableNode va"
  shows "nodes (on_variable i f m) i = Some (n\<lparr>n_attrs := VariableNode (f va)\<rparr>)"
  using assms by (simp add: on_variable_def)

lemma on_variable_rest [simp]:
  "namespaces (on_variable i f m) = namespaces m" "variantTypeMap (on_variable i f m) = variantTypeMap m"
  by (simp_all add: on_variable_def split: option.split node_attrs.split)

lemma SetValue_state: "snd (SetValue i v m) = on_variable i (\<lambda>va. va\<lparr>va_value := v\<rparr>) m"
  by (simp add: SetValue_def Let_def split: option.split node_attrs.split)

text \<open>The planning part only fills the cache.\<close>

lemma plan_value_nodes: "plan_value re cap t1 t2 a uid wv n va m = (r, m') \<Longrightarrow> nodes m' = nodes m \<and> namespaces m' = namespaces m"
  by (auto simp: plan_value_def Let_def split: if_splits option.splits prod.splits res.splits dest: FindVariantType_nodes)

lemma plan_write_nodes: "plan_write re cap t1 t2 sess wv m = (r, m') \<Longrightarrow> nodes m' = nodes m \<and> namespaces m' = namespaces m"
  by (auto simp: plan_write_def split: option.splits prod.splits if_splits node_attrs.splits goval.splits scalar.splits
      dest: plan_value_nodes)

text \<open>What a user needs for the two attributes that can be written.\<close>

definition may_write :: "role_env \<Rightarrow> NamespaceManager \<Rightarrow> (nat \<times> identity) option \<Rightarrow> WriteValue \<Rightarrow> bool" where
  "may_write re m sess wv \<longleftrightarrow> (\<exists>a uid n va. sess = Some (a, uid) \<and> nodes m (wv_NodeID wv) = Some n \<and> n_attrs n = VariableNode va
     \<and> permitted re (n_rolePermissions n) uid PermissionTypeBrowse
     \<and> (wv_AttributeID wv = 13 \<and> va_accessLevel va AND AccessLevelsCurrentWrite \<noteq> 0
          \<and> permitted re (n_rolePermissions n) uid PermissionTypeWrite
        \<or> wv_AttributeID wv = 20 \<and> permitted re (n_rolePermissions n) uid PermissionTypeWriteHistorizing))"

lemma plan_value_access:
  assumes "plan_value re cap t1 t2 a uid wv n va m = (Ok p, m')" and "\<forall>st. p \<noteq> WDone st"
  shows "va_accessLevel va AND AccessLevelsCurrentWrite \<noteq> 0 \<and> permitted re (n_rolePermissions n) uid PermissionTypeWrite"
proof -
  have "UserAccessLevel re (n_rolePermissions n) (va_accessLevel va) uid AND AccessLevelsCurrentWrite \<noteq> 0"
    using assms by (auto simp: plan_value_def split: if_splits)
  then show ?thesis unfolding user_can_write .
qed

lemma plan_write_access:
  assumes "plan_write re cap t1 t2 sess wv m = (Ok p, m')" and "\<forall>st. p \<noteq> WDone st"
  shows "may_write re m sess wv"
  using assms unfolding may_write_def
  by (auto simp: plan_write_def FindNode_def node_permitted
      split: option.splits prod.splits if_splits node_attrs.splits goval.splits scalar.splits dest: plan_value_access)

lemma perform_write_state:
  assumes "perform_write i p m = (r, m')"
  shows "m' = (case p of WDone _ \<Rightarrow> m | WSetValue v \<Rightarrow> on_variable i (\<lambda>va. va\<lparr>va_value := v\<rparr>) m
     | WSetHistorizing b \<Rightarrow> on_variable i (\<lambda>va. va\<lparr>va_historizing := b\<rparr>) m)"
proof (cases p)
  case (WSetValue v)
  with assms show ?thesis using SetValue_state [of i v m] by (simp add: perform_write_def split: prod.splits res.splits)
qed (use assms in \<open>simp_all add: perform_write_def\<close>)

lemma perform_write_frame:
  assumes "perform_write i p m = (r, m')"
  shows "j \<noteq> i \<Longrightarrow> nodes m' j = nodes m j" and "namespaces m' = namespaces m"
  by (simp_all add: perform_write_state [OF assms] on_variable_frame split: write_plan.split)

lemma writeValue_access:
  assumes "writeValue re cap t1 t2 sess wv m = (r, m')"
  shows "nodes m' = nodes m \<or> may_write re m sess wv \<and> (\<forall>j. j \<noteq> wv_NodeID wv \<longrightarrow> nodes m' j = nodes m j)"
proof -
  obtain q m1 where q: "plan_write re cap t1 t2 sess wv m = (q, m1)" by (cases "plan_write re cap t1 t2 sess wv m")
  note n = plan_write_nodes [OF q]
  show ?thesis
  proof (cases q)
    case (Ok p)
    with q assms have p: "perform_write (wv_NodeID wv) p m1 = (r, m')" by (simp add: writeValue_def)
    show ?thesis
    proof (cases "\<exists>st. p = WDone st")
      case True
      with perform_write_state [OF p] n show ?thesis by auto
    next
      case False
      with plan_write_access q Ok perform_write_frame(1) [OF p] n show ?thesis by metis
    qed
  qed (use q assms n in \<open>auto simp: writeValue_def\<close>)
qed

section \<open>The types of the values\<close>

text \<open>What the data type and the value rank of a variable say of its value.\<close>

definition value_type :: "byte \<Rightarrow> u32 \<Rightarrow> goval \<Rightarrow> bool" where
  "value_type ty rank v \<longleftrightarrow> (case v of
       VNil \<Rightarrow> True
     | VScalar (SNodeID None) \<Rightarrow> True
     | VScalar s \<Rightarrow> (ty = variant_code (stype_of s) \<or> ty = 24) \<and> scalar_rank rank
     | VSlice t _ \<Rightarrow> (case array_code t of
           Some code \<Rightarrow> (ty = code \<or> ty = 24) \<and> array_rank rank
         | None \<Rightarrow> rank \<noteq> ValueRankScalar)
     | VDataValue _ _ _ _ _ _ \<Rightarrow> (ty = 22 \<or> ty = 24) \<and> scalar_rank rank
     | VDiagnosticInfo _ \<Rightarrow> (ty = 22 \<or> ty = 24) \<and> scalar_rank rank
     | VStruct _ _ _ \<Rightarrow> (ty = 22 \<or> ty = 24) \<and> scalar_rank rank
     | _ \<Rightarrow> False)"

lemma check_type_sound: "check_type cap ty rank v = Good \<Longrightarrow> value_type ty rank v"
  by (cases v) (auto simp: check_type_def check_scalar_def check_slice_def check_struct_def value_type_def access_codes split: scalar.splits option.splits if_splits)

lemma write_variant_type:
  assumes "write_variant ranges new old = Ok (Inr v)" and "value_type ty rank old"
  shows "value_type ty rank v"
  using assms by (induction ranges new old rule: write_variant.induct)
    (auto simp: map_written_Ok value_type_def split: if_splits)

lemma writeRange_type:
  assumes "writeRange t1 t2 source new r = Ok (dv, Good)" and "value_type ty rank (Value source)" and "value_type ty rank (Value new)"
  shows "value_type ty rank (Value dv)"
  using assms by (auto simp: writeRange_def NewDataValue_def NilDataValue_def value_type_def [of _ _ VNil]
      split: if_splits res.splits sum.splits dest: write_variant_type)

definition typed :: "NamespaceManager \<Rightarrow> bool" where
  "typed m \<longleftrightarrow> (\<forall>i n va ty. nodes m i = Some n \<and> n_attrs n = VariableNode va \<and> variant_type_loop m (va_dataType va) = Some ty \<longrightarrow>
     value_type ty (va_valueRank va) (Value (va_value va)))"

text \<open>A handler of the application may store what it likes: it has to keep to the type of its variable.\<close>

definition handlers_typed :: "NamespaceManager \<Rightarrow> bool" where
  "handlers_typed m \<longleftrightarrow> (\<forall>i n va ty f a wv v. nodes m i = Some n \<and> n_attrs n = VariableNode va
     \<and> variant_type_loop m (va_dataType va) = Some ty \<and> va_writeValueHandler va = Some f \<and> f a wv = (v, Good) \<longrightarrow>
     value_type ty (va_valueRank va) (Value v))"

lemma plan_value_type:
  assumes p: "plan_value re cap t1 t2 a uid wv n va m = (Ok (WSetValue v), m')"
    and n: "nodes m i = Some n" "n_attrs n = VariableNode va"
    and ok: "cache_ok m" "typed m" "handlers_typed m" and ty: "variant_type_loop m (va_dataType va) = Some ty"
  shows "value_type ty (va_valueRank va) (Value v)"
proof -
  obtain ty' where f: "FindVariantType (va_dataType va) m = Some (ty', m')"
    using p by (auto simp: plan_value_def Let_def split: if_splits option.splits prod.splits res.splits)
  then have "ty' = ty" using FindVariantType_spec [OF ok(1) f] ty by simp
  define w where "w = convert_bytes ty (va_valueRank va) (Value (wv_Value wv))"
  have c: "check_type cap ty (va_valueRank va) w = Good"
    using p f unfolding w_def \<open>ty' = ty\<close> by (auto simp: plan_value_def Let_def split: if_splits)
  then have wt: "value_type ty (va_valueRank va) w" by (rule check_type_sound)
  have old: "value_type ty (va_valueRank va) (Value (va_value va))" using ok(2) n ty unfolding typed_def by blast
  show ?thesis
  proof (cases "va_writeValueHandler va")
    case None
    then obtain r where "writeRange t1 t2 (va_value va) ((wv_Value wv)\<lparr>Value := w\<rparr>) (wv_IndexRange wv) = Ok r" "plan_of r = WSetValue v"
      using p f c unfolding w_def \<open>ty' = ty\<close> by (auto simp: plan_value_def Let_def split: if_splits res.splits)
    then show ?thesis using old wt writeRange_type [where source = "va_value va"]
      by (fastforce simp: plan_of_def split: prod.splits if_splits)
  next
    case (Some g)
    then obtain wv' where "plan_of (g a wv') = WSetValue v"
      using p f c unfolding w_def \<open>ty' = ty\<close> by (auto simp: plan_value_def Let_def split: if_splits)
    then have "g a wv' = (v, Good)" by (auto simp: plan_of_def split: prod.splits if_splits)
    then show ?thesis using ok(3) n ty Some unfolding handlers_typed_def by blast
  qed
qed

lemma FindSuperType_on_variable: "FindSuperType (on_variable i f m) = FindSuperType m"
proof -
  have t: "target_id (m\<lparr>nodes := x\<rparr>) = target_id m" for x by (simp add: fun_eq_iff target_id_def)
  have "super_ref (on_variable i f m) j = super_ref m j" for j
    by (auto simp: super_ref_def t on_variable_def split: option.split node_attrs.split)
  then show ?thesis by (simp add: fun_eq_iff FindSuperType_def)
qed

lemmas variant_type_on_variable [simp] = variant_type_loop_cong [OF FindSuperType_on_variable]

lemma typed_on_variable:
  assumes "typed m" and "\<And>n va ty. nodes m i = Some n \<Longrightarrow> n_attrs n = VariableNode va \<Longrightarrow>
      variant_type_loop m (va_dataType va) = Some ty \<Longrightarrow> value_type ty (va_valueRank va) (Value (va_value (f va)))"
    and "\<And>va. va_dataType (f va) = va_dataType va \<and> va_valueRank (f va) = va_valueRank va"
  shows "typed (on_variable i f m)"
  unfolding typed_def
proof (intro allI impI, elim conjE)
  fix j n va ty
  assume *: "nodes (on_variable i f m) j = Some n" "n_attrs n = VariableNode va" "variant_type_loop (on_variable i f m) (va_dataType va) = Some ty"
  show "value_type ty (va_valueRank va) (Value (va_value va))"
  proof (cases "nodes m j = Some n")
    case True
    with * assms(1) show ?thesis unfolding typed_def by auto
  next
    case False
    with * have "j = i" using on_variable_frame by metis
    with False * obtain n0 va0 where "nodes m i = Some n0" "n_attrs n0 = VariableNode va0" "va = f va0"
      by (auto simp: on_variable_def split: option.splits node_attrs.splits)
    then show ?thesis using * assms(2, 3) by auto
  qed
qed

lemma handlers_on_variable:
  assumes "handlers_typed m" and "\<And>va. va_dataType (f va) = va_dataType va \<and> va_valueRank (f va) = va_valueRank va
      \<and> va_writeValueHandler (f va) = va_writeValueHandler va"
  shows "handlers_typed (on_variable i f m)"
  unfolding handlers_typed_def
proof (intro allI impI, elim conjE)
  fix j n va ty g a wv v
  assume *: "nodes (on_variable i f m) j = Some n" "n_attrs n = VariableNode va"
    "variant_type_loop (on_variable i f m) (va_dataType va) = Some ty" "va_writeValueHandler va = Some g" "g a wv = (v, Good)"
  obtain n0 va0 where "nodes m j = Some n0" "n_attrs n0 = VariableNode va0" "va_dataType va0 = va_dataType va"
    "va_valueRank va0 = va_valueRank va" "va_writeValueHandler va0 = Some g"
  proof (cases "nodes m j = Some n")
    case True
    with * show thesis by (intro that) auto
  next
    case False
    with * have "j = i" using on_variable_frame by metis
    with False * obtain n0 va0 where "nodes m i = Some n0" "n_attrs n0 = VariableNode va0" "va = f va0"
      by (auto simp: on_variable_def split: option.splits node_attrs.splits)
    then show thesis using * assms(2) \<open>j = i\<close> by (intro that) auto
  qed
  then show "value_type ty (va_valueRank va) (Value v)" using assms(1) * unfolding handlers_typed_def
    by (metis variant_type_on_variable)
qed

text \<open>The invariant of the address space under writes.\<close>

definition space_inv :: "NamespaceManager \<Rightarrow> bool" where
  "space_inv m \<longleftrightarrow> cache_ok m \<and> typed m \<and> handlers_typed m"

lemma cache_ok_on_variable: "cache_ok m \<Longrightarrow> cache_ok (on_variable i f m)"
  by (simp add: cache_ok_def)

lemma space_inv_cache:
  assumes "space_inv m" and "FindVariantType t m = Some (ty, m')"
  shows "space_inv m' \<and> (\<forall>u. variant_type_loop m' u = variant_type_loop m u)"
proof -
  have m': "m' = m \<or> m' = m\<lparr>variantTypeMap := (variantTypeMap m)(t \<mapsto> ty)\<rparr>"
    using assms(2) by (auto simp: FindVariantType_def split: option.splits)
  with assms FindVariantType_spec [of m t ty m'] show ?thesis
    by (auto simp: space_inv_def typed_def handlers_typed_def)
qed

lemma plan_write_inv:
  assumes "plan_write re cap t1 t2 sess wv m = (r, m')" and "space_inv m"
  shows "space_inv m'"
proof -
  have v: "space_inv m'" if "plan_value re cap t1 t2 a uid wv n va m = (r, m')" for a uid n va
    using that assms(2) space_inv_cache [of m "va_dataType va"]
    by (auto simp: plan_value_def Let_def split: if_splits option.splits prod.splits res.splits)
  show ?thesis using assms v
    by (auto simp: plan_write_def split: option.splits prod.splits if_splits node_attrs.splits goval.splits scalar.splits)
qed

lemma plan_write_value:
  assumes "plan_write re cap t1 t2 sess wv m = (Ok (WSetValue v), m')"
  obtains a uid n va where "sess = Some (a, uid)" "nodes m (wv_NodeID wv) = Some n" "n_attrs n = VariableNode va" "wv_AttributeID wv = 13"
    "plan_value re cap t1 t2 a uid wv n va m = (Ok (WSetValue v), m')"
  using assms
  by (auto simp: plan_write_def FindNode_def split: option.splits prod.splits if_splits node_attrs.splits goval.splits scalar.splits)

text \<open>The value a plan stores still fits when the plan is performed: other writes do not change types.\<close>

definition plan_fits :: "NodeID option \<Rightarrow> write_plan \<Rightarrow> NamespaceManager \<Rightarrow> bool" where
  "plan_fits i p m \<longleftrightarrow> (\<forall>v n va ty. p = WSetValue v \<and> nodes m i = Some n \<and> n_attrs n = VariableNode va
     \<and> variant_type_loop m (va_dataType va) = Some ty \<longrightarrow> value_type ty (va_valueRank va) (Value v))"

lemma plan_write_fits:
  assumes "plan_write re cap t1 t2 sess wv m = (Ok p, m')" and "space_inv m"
  shows "plan_fits (wv_NodeID wv) p m"
  unfolding plan_fits_def
proof (intro allI impI, elim conjE)
  fix v n va ty
  assume *: "p = WSetValue v" "nodes m (wv_NodeID wv) = Some n" "n_attrs n = VariableNode va" "variant_type_loop m (va_dataType va) = Some ty"
  with assms(1) obtain a uid where "plan_value re cap t1 t2 a uid wv n va m = (Ok (WSetValue v), m')"
    by (auto elim!: plan_write_value)
  with * assms(2) show "value_type ty (va_valueRank va) (Value v)" unfolding space_inv_def by (blast intro: plan_value_type)
qed

lemma perform_write_inv:
  assumes "perform_write i p m = (r, m')" and "space_inv m" and "plan_fits i p m"
  shows "space_inv m'"
proof (cases p)
  case (WSetValue v)
  have "typed (on_variable i (\<lambda>va. va\<lparr>va_value := v\<rparr>) m)"
    using assms(2, 3) WSetValue by (intro typed_on_variable) (auto simp: space_inv_def plan_fits_def)
  then show ?thesis using assms(2) perform_write_state [OF assms(1)] WSetValue
    by (simp add: space_inv_def cache_ok_on_variable handlers_on_variable)
next
  case (WSetHistorizing b)
  have "typed (on_variable i (\<lambda>va. va\<lparr>va_historizing := b\<rparr>) m)"
    using assms(2) by (intro typed_on_variable) (auto simp: space_inv_def typed_def)
  then show ?thesis using assms(2) perform_write_state [OF assms(1)] WSetHistorizing
    by (simp add: space_inv_def cache_ok_on_variable handlers_on_variable)
qed (use assms perform_write_state [OF assms(1)] in simp)

section \<open>Reading back\<close>

lemma plan_value_done: "plan_value re cap t1 t2 a uid wv n va m = (Ok (WDone st), m') \<Longrightarrow> st \<noteq> Good"
  by (auto simp: plan_value_def Let_def plan_of_def access_codes split: if_splits option.splits prod.splits res.splits)

lemma convert_bytes_utf8: "utf8_value v \<Longrightarrow> utf8_value (convert_bytes ty rank v)"
  by (auto simp: convert_bytes_def Let_def split: goval.split scalar.split gotype.split stype.split)

lemma plan_value_plain:
  assumes "plan_value re cap t1 t2 a uid wv n va m = (Ok (WSetValue v), m1)" and "va_writeValueHandler va = None"
  obtains ty where "FindVariantType (va_dataType va) m = Some (ty, m1)"
    "writeRange t1 t2 (va_value va) ((wv_Value wv)\<lparr>Value := convert_bytes ty (va_valueRank va) (Value (wv_Value wv))\<rparr>) (wv_IndexRange wv) = Ok (v, Good)"
  using assms by (auto simp: plan_value_def Let_def plan_of_def split: if_splits option.splits prod.splits res.splits)

text \<open>What \<open>writeValue\<close> stores when it answers \<open>Good\<close>.\<close>

lemma writeValue_stores:
  assumes w: "writeValue re cap t1 t2 (Some (a, uid)) wv m = (Ok Good, m')" "wv_AttributeID wv = 13"
    and n: "nodes m (wv_NodeID wv) = Some n" "n_attrs n = VariableNode va" "va_writeValueHandler va = None"
  obtains ty m1 v where "FindVariantType (va_dataType va) m = Some (ty, m1)"
    "writeRange t1 t2 (va_value va) ((wv_Value wv)\<lparr>Value := convert_bytes ty (va_valueRank va) (Value (wv_Value wv))\<rparr>) (wv_IndexRange wv) = Ok (v, Good)"
    "nodes m' (wv_NodeID wv) = Some (n\<lparr>n_attrs := VariableNode (va\<lparr>va_value := v\<rparr>)\<rparr>)" "namespaces m' = namespaces m"
proof -
  obtain r m1 where p: "plan_write re cap t1 t2 (Some (a, uid)) wv m = (r, m1)" by fastforce
  then have "r = Ok (case r of Ok q \<Rightarrow> q)" using w(1) by (cases r) (auto simp: writeValue_def)
  then obtain q where q: "r = Ok q" by blast
  with p w(1) have perf: "perform_write (wv_NodeID wv) q m1 = (Ok Good, m')" by (simp add: writeValue_def)
  have pv: "(r = Ok (WDone BadNodeIDUnknown) \<and> m1 = m) \<or> plan_value re cap t1 t2 a uid wv n va m = (r, m1)"
    using p w(2) n by (auto simp: plan_write_def FindNode_def split: if_splits)
  then have "\<forall>st. q = WDone st \<longrightarrow> st \<noteq> Good" using q by (auto simp: access_codes dest: plan_value_done)
  moreover have "q \<noteq> WSetHistorizing b" for b
    using pv q by (auto simp: plan_value_def Let_def plan_of_def split: if_splits option.splits prod.splits res.splits)
  ultimately obtain v where v: "q = WSetValue v" using perf by (cases q) (auto simp: perform_write_def)
  with pv q have "plan_value re cap t1 t2 a uid wv n va m = (Ok (WSetValue v), m1)" by simp
  then obtain ty where ty: "FindVariantType (va_dataType va) m = Some (ty, m1)"
    "writeRange t1 t2 (va_value va) ((wv_Value wv)\<lparr>Value := convert_bytes ty (va_valueRank va) (Value (wv_Value wv))\<rparr>) (wv_IndexRange wv) = Ok (v, Good)"
    using n(3) by (rule plan_value_plain)
  have m1: "nodes m1 = nodes m" "namespaces m1 = namespaces m" using plan_write_nodes [OF p] by simp_all
  have "m' = on_variable (wv_NodeID wv) (\<lambda>va. va\<lparr>va_value := v\<rparr>) m1" using perform_write_state [OF perf] v by simp
  then have "nodes m' (wv_NodeID wv) = Some (n\<lparr>n_attrs := VariableNode (va\<lparr>va_value := v\<rparr>)\<rparr>)" "namespaces m' = namespaces m"
    using n m1 by (simp_all add: on_variable_at)
  with ty show thesis by (intro that)
qed

definition can_read :: "role_env \<Rightarrow> NamespaceManager \<Rightarrow> identity \<Rightarrow> NodeID option \<Rightarrow> bool" where
  "can_read re m uid i \<longleftrightarrow> (\<exists>n va. nodes m i = Some n \<and> n_attrs n = VariableNode va
     \<and> permitted re (n_rolePermissions n) uid PermissionTypeBrowse \<and> permitted re (n_rolePermissions n) uid PermissionTypeRead
     \<and> va_accessLevel va AND AccessLevelsCurrentRead \<noteq> 0)"

lemma node_permissions_attrs:
  "IsUserPermitted (node_permissions_of re uid (n\<lparr>n_attrs := x\<rparr>)) p \<longleftrightarrow> permitted re (n_rolePermissions n) uid p"
  by (simp add: node_permitted)

lemma readValue_plain:
  assumes "nodes m (rv_NodeID rv) = Some n" "n_attrs n = VariableNode va" "va_readValueHandler va = None"
    and "can_read re m uid (rv_NodeID rv)" "rv_AttributeID rv = 13" "qn_Name (rv_DataEncoding rv) = []"
  shows "readValue re m t (Some (b, uid)) rv = readRange (va_value va) (rv_IndexRange rv)"
proof -
  have "UserAccessLevel re (n_rolePermissions n) (va_accessLevel va) uid AND AccessLevelsCurrentRead \<noteq> 0"
    unfolding user_can_read using assms(1, 2, 4) by (auto simp: can_read_def)
  then show ?thesis using assms by (auto simp: readValue_def FindNode_def node_permitted can_read_def)
qed

lemma write_then_read:
  assumes w: "writeValue re cap t1 t2 (Some (a, uid)) wv m = (Ok Good, m')" "wv_AttributeID wv = 13" "utf8_value (Value (wv_Value wv))"
      "CHR '','' \<notin> set (wv_IndexRange wv)"
    and n: "nodes m (wv_NodeID wv) = Some n" "n_attrs n = VariableNode va" "va_writeValueHandler va = None" "va_readValueHandler va = None"
    and r: "can_read re m uid' (wv_NodeID wv)" "rv_NodeID rv = wv_NodeID wv" "rv_AttributeID rv = 13" "rv_IndexRange rv = wv_IndexRange wv"
      "qn_Name (rv_DataEncoding rv) = []"
  obtains ty m1 where "FindVariantType (va_dataType va) m = Some (ty, m1)"
    "Value (readValue re m' t (Some (b, uid')) rv) = convert_bytes ty (va_valueRank va) (Value (wv_Value wv))"
    "StatusCode_of (readValue re m' t (Some (b, uid')) rv) = StatusCode_of (wv_Value wv)"
proof -
  obtain ty m1 v where v: "FindVariantType (va_dataType va) m = Some (ty, m1)"
    "writeRange t1 t2 (va_value va) ((wv_Value wv)\<lparr>Value := convert_bytes ty (va_valueRank va) (Value (wv_Value wv))\<rparr>) (wv_IndexRange wv) = Ok (v, Good)"
    "nodes m' (wv_NodeID wv) = Some (n\<lparr>n_attrs := VariableNode (va\<lparr>va_value := v\<rparr>)\<rparr>)" using w(1, 2) n(1-3) by (rule writeValue_stores)
  have "can_read re m' uid' (wv_NodeID wv)" using r(1) n v(3) by (auto simp: can_read_def)
  then have "readValue re m' t (Some (b, uid')) rv = readRange v (wv_IndexRange wv)"
    using v(3) n r by (subst readValue_plain [where va = "va\<lparr>va_value := v\<rparr>"]) auto
  with write_then_readRange [OF v(2) _ w(4)] convert_bytes_utf8 [OF w(3)] v(1) show thesis by (intro that) auto
qed

text \<open>Without the right to read, the answer is an error that does not depend on the value.\<close>

lemma read_denied:
  assumes "\<not> can_read re m uid (rv_NodeID rv)" and "rv_AttributeID rv = 13"
  shows "\<exists>st. readValue re m t (Some (b, uid)) rv = bad_value st t \<and> IsBad st"
proof -
  have "UserAccessLevel re (n_rolePermissions n) (va_accessLevel va) uid AND AccessLevelsCurrentRead \<noteq> 0 \<longleftrightarrow>
    va_accessLevel va AND AccessLevelsCurrentRead \<noteq> 0 \<and> permitted re (n_rolePermissions n) uid PermissionTypeRead" for n va
    by (rule user_can_read)
  then show ?thesis using assms
    by (auto simp: readValue_def FindNode_def can_read_def node_permitted access_codes IsBad_def split: option.split node_attrs.split)
qed

end
