(* ===== verification/Node_View.thy ===== *)
theory Node_View
  imports Node_Access Publish_Service
begin

text \<open>
  The view of the address space a client has: the task of \<open>handleBrowse\<close> for one node, and
  the translation of browse paths (\<open>follow\<close> and \<open>target\<close>), both of
  \<open>server/server_service_set.go\<close>.
\<close>

section \<open>Status codes and requests\<close>

definition BadReferenceTypeIDInvalid :: StatusCode where "BadReferenceTypeIDInvalid = 0x804C0000"
definition BadBrowseDirectionInvalid :: StatusCode where "BadBrowseDirectionInvalid = 0x804D0000"
definition BadBrowseNameInvalid :: StatusCode where "BadBrowseNameInvalid = 0x80600000"
definition BadNoMatch :: StatusCode where "BadNoMatch = 0x806F0000"

record BrowseDescription =
  bd_NodeID :: "NodeID option"
  bd_BrowseDirection :: u32
  bd_ReferenceTypeID :: "NodeID option"
  bd_IncludeSubtypes :: bool
  bd_NodeClassMask :: u32
  bd_ResultMask :: u32

record RelativePathElement =
  pe_ReferenceTypeID :: "NodeID option"
  pe_IsInverse :: bool
  pe_IncludeSubtypes :: bool
  pe_TargetName :: QualifiedName

section \<open>Browsing a node\<close>

definition wanted_ref :: "NamespaceManager \<Rightarrow> BrowseDescription \<Rightarrow> Reference \<Rightarrow> bool" where
  "wanted_ref m d r \<longleftrightarrow> (bd_BrowseDirection d = 2 \<or> IsInverse r = (bd_BrowseDirection d = 1))
     \<and> (bd_ReferenceTypeID d = None \<or> bd_ReferenceTypeID d = ReferenceTypeID r
        \<or> (bd_IncludeSubtypes d \<and> IsSubtype m (ReferenceTypeID r) (bd_ReferenceTypeID d)))"

definition type_definition :: "Node \<Rightarrow> ExpandedNodeID" where
  "type_definition t = (if NodeClass (n_attrs t) = 1 \<or> NodeClass (n_attrs t) = 2
     then (case find (\<lambda>r. ReferenceTypeID r = ReferenceTypeIDHasTypeDefinition) (n_references t) of
             Some r \<Rightarrow> TargetID r | None \<Rightarrow> NilExpandedNodeID)
     else NilExpandedNodeID)"

definition describe :: "BrowseDescription \<Rightarrow> Reference \<Rightarrow> Node \<Rightarrow> ReferenceDescription" where
  "describe d r t = (let wants = (\<lambda>mask. bd_ResultMask d AND mask \<noteq> 0) in
     \<lparr>rd_ReferenceTypeID = (if wants 1 then ReferenceTypeID r else None),
      rd_IsForward = (wants 2 \<and> \<not> IsInverse r),
      rd_NodeID = TargetID r,
      rd_BrowseName = (if wants 8 then n_browseName t else \<lparr>qn_NamespaceIndex = 0, qn_Name = []\<rparr>),
      rd_DisplayName = (if wants 16 then n_displayName t else \<lparr>lt_Text = [], lt_Locale = []\<rparr>),
      rd_NodeClass = (if wants 4 then NodeClass (n_attrs t) else 0),
      rd_TypeDefinition = (if wants 32 then type_definition t else NilExpandedNodeID)\<rparr>)"

text \<open>A reference whose target is not in the address space ends the loop with an error.\<close>

fun browse_refs :: "role_env \<Rightarrow> NamespaceManager \<Rightarrow> identity \<Rightarrow> BrowseDescription \<Rightarrow> Reference list \<Rightarrow>
    StatusCode + ReferenceDescription list" where
  "browse_refs re m uid d [] = Inr []"
| "browse_refs re m uid d (r # rs) =
     (if \<not> wanted_ref m d r then browse_refs re m uid d rs
      else case FindNode m (target_id m r) of
        None \<Rightarrow> Inl BadNodeIDUnknown
      | Some t \<Rightarrow>
          if \<not> IsUserPermitted (node_permissions_of re uid t) PermissionTypeBrowse then browse_refs re m uid d rs
          else if \<not> (bd_NodeClassMask d = 0 \<or> bd_NodeClassMask d AND NodeClass (n_attrs t) \<noteq> 0) then browse_refs re m uid d rs
          else map_sum id (Cons (describe d r t)) (browse_refs re m uid d rs))"

definition browse_node :: "role_env \<Rightarrow> NamespaceManager \<Rightarrow> identity \<Rightarrow> BrowseDescription \<Rightarrow> StatusCode + ReferenceDescription list" where
  "browse_node re m uid d =
     (if bd_BrowseDirection d <s 0 \<or> 2 <s bd_BrowseDirection d then Inl BadBrowseDirectionInvalid
      else case FindNode m (bd_NodeID d) of
        None \<Rightarrow> Inl BadNodeIDUnknown
      | Some n \<Rightarrow>
          if \<not> IsUserPermitted (node_permissions_of re uid n) PermissionTypeBrowse then Inl BadNodeIDUnknown
          else if bd_ReferenceTypeID d \<noteq> None \<and> (case FindNode m (bd_ReferenceTypeID d) of
                    None \<Rightarrow> True | Some rt \<Rightarrow> NodeClass (n_attrs rt) \<noteq> 32) then Inl BadReferenceTypeIDInvalid
          else browse_refs re m uid d (n_references n))"

text \<open>What is not sent at once is kept in a continuation point.\<close>

definition browse_task :: "role_env \<Rightarrow> NamespaceManager \<Rightarrow> identity \<Rightarrow> u32 \<Rightarrow> BrowseDescription \<Rightarrow>
    (ReferenceDescription Session, ReferenceDescription browse_result) act" where
  "browse_task re m uid mx d = (\<lambda>s. case browse_node re m uid d of
       Inl st \<Rightarrow> (Ok (BrowseStatus st), s)
     | Inr rds \<Rightarrow>
         (if 0 < mx \<and> length rds > unat mx
          then (case addBrowseContinuationPoint (drop (unat mx) rds) (uint mx) s of
                  (Ok cp, s') \<Rightarrow> (Ok (BrowseRefs (Some cp) (take (unat mx) rds)), s')
                | (Err _, s') \<Rightarrow> (Ok (BrowseStatus BadNoContinuationPoints), s')
                | (Panic, s') \<Rightarrow> (Panic, s')
                | (NoFuel, s') \<Rightarrow> (NoFuel, s'))
          else (Ok (BrowseRefs None rds), s)))"

text \<open>The references a user may see, as a set comprehension over the list.\<close>

definition visible_ref :: "role_env \<Rightarrow> NamespaceManager \<Rightarrow> identity \<Rightarrow> BrowseDescription \<Rightarrow> Reference \<Rightarrow> bool" where
  "visible_ref re m uid d r \<longleftrightarrow> wanted_ref m d r \<and> (\<exists>t. nodes m (target_id m r) = Some t
     \<and> permitted re (n_rolePermissions t) uid PermissionTypeBrowse
     \<and> (bd_NodeClassMask d = 0 \<or> bd_NodeClassMask d AND NodeClass (n_attrs t) \<noteq> 0))"

lemma browse_refs_spec:
  assumes "\<forall>r\<in>set rs. wanted_ref m d r \<longrightarrow> nodes m (target_id m r) \<noteq> None"
  shows "browse_refs re m uid d rs =
    Inr (map (\<lambda>r. describe d r (the (nodes m (target_id m r)))) (filter (visible_ref re m uid d) rs))"
  using assms
proof (induction rs)
  case (Cons r rs)
  then have IH: "browse_refs re m uid d rs =
    Inr (map (\<lambda>r. describe d r (the (nodes m (target_id m r)))) (filter (visible_ref re m uid d) rs))" by simp
  show ?case using Cons.prems by (auto simp: IH FindNode_def visible_ref_def [of re m uid d r] node_permitted split: option.split)
qed simp

lemma browse_refs_dangling:
  assumes "r \<in> set rs" and "wanted_ref m d r" and "nodes m (target_id m r) = None"
  shows "browse_refs re m uid d rs = Inl BadNodeIDUnknown"
  using assms by (induction rs) (auto simp: FindNode_def split: option.split)

lemma browse_refs_permitted:
  assumes "browse_refs re m uid d rs = Inr rds" and "rd \<in> set rds"
  shows "\<exists>t. nodes m (ToNodeID (rd_NodeID rd) (namespaces m)) = Some t \<and> permitted re (n_rolePermissions t) uid PermissionTypeBrowse"
proof -
  have "\<forall>r\<in>set rs. wanted_ref m d r \<longrightarrow> nodes m (target_id m r) \<noteq> None" using browse_refs_dangling [of _ rs m d re uid] assms(1) by fastforce
  from browse_refs_spec [OF this, of re uid] assms obtain r where
    "rd = describe d r (the (nodes m (target_id m r)))" "visible_ref re m uid d r" by auto
  then show ?thesis by (auto simp: visible_ref_def describe_def Let_def target_id_def)
qed

lemma browse_node_permitted:
  assumes "browse_node re m uid d = Inr rds"
  shows "\<exists>n. nodes m (bd_NodeID d) = Some n \<and> permitted re (n_rolePermissions n) uid PermissionTypeBrowse"
    and "rd \<in> set rds \<Longrightarrow> \<exists>t. nodes m (ToNodeID (rd_NodeID rd) (namespaces m)) = Some t
      \<and> permitted re (n_rolePermissions t) uid PermissionTypeBrowse"
proof -
  from assms obtain n where n: "nodes m (bd_NodeID d) = Some n" "permitted re (n_rolePermissions n) uid PermissionTypeBrowse"
    "browse_refs re m uid d (n_references n) = Inr rds"
    by (auto simp: browse_node_def FindNode_def node_permitted split: if_splits option.splits)
  then show "\<exists>n. nodes m (bd_NodeID d) = Some n \<and> permitted re (n_rolePermissions n) uid PermissionTypeBrowse" by blast
  show "\<exists>t. nodes m (ToNodeID (rd_NodeID rd) (namespaces m)) = Some t \<and> permitted re (n_rolePermissions t) uid PermissionTypeBrowse"
    if "rd \<in> set rds" using browse_refs_permitted [OF n(3) that] .
qed

section \<open>Browse paths\<close>

definition step_ref :: "NamespaceManager \<Rightarrow> RelativePathElement \<Rightarrow> Reference \<Rightarrow> bool" where
  "step_ref m e r \<longleftrightarrow> IsInverse r = pe_IsInverse e
     \<and> (pe_ReferenceTypeID e = None \<or> ReferenceTypeID r = pe_ReferenceTypeID e
        \<or> (pe_IncludeSubtypes e \<and> IsSubtype m (ReferenceTypeID r) (pe_ReferenceTypeID e)))
     \<and> (case FindNode m (target_id m r) of None \<Rightarrow> False | Some t \<Rightarrow> pe_TargetName e = n_browseName t)"

definition target_of_path :: "NamespaceManager \<Rightarrow> NodeID option \<Rightarrow> RelativePathElement \<Rightarrow> StatusCode + ExpandedNodeID list" where
  "target_of_path m i e = (case FindNode m i of
       None \<Rightarrow> Inl BadNodeIDUnknown
     | Some n \<Rightarrow> (let targets = map TargetID (filter (step_ref m e) (n_references n)) in
         if targets = [] then Inl BadNoMatch else Inr targets))"

definition MaxUint32 :: u32 where "MaxUint32 = 0xFFFFFFFF"

fun follow :: "NamespaceManager \<Rightarrow> NodeID option \<Rightarrow> RelativePathElement list \<Rightarrow> StatusCode + BrowsePathTarget list" where
  "follow m i [] = Inl BadNothingToDo"
| "follow m i [e] = map_sum id (map (\<lambda>n. \<lparr>bt_TargetID = n, RemainingPathIndex = MaxUint32\<rparr>)) (target_of_path m i e)"
| "follow m i (e # e' # es) = (case target_of_path m i e of
       Inl st \<Rightarrow> Inl st
     | Inr ns \<Rightarrow>
         (let nextID = (case ns of n # _ \<Rightarrow> n | [] \<Rightarrow> NilExpandedNodeID) in
          case FindNode m (ToNodeID nextID (namespaces m)) of
            Some n \<Rightarrow> follow m (n_nodeId n) (e' # es)
          | None \<Rightarrow> Inr [\<lparr>bt_TargetID = nextID, RemainingPathIndex = word_of_nat (length (e' # es))\<rparr>]))"

definition translate_path :: "NamespaceManager \<Rightarrow> NodeID option \<Rightarrow> RelativePathElement list \<Rightarrow> StatusCode \<times> BrowsePathTarget list" where
  "translate_path m i es =
     (if es = [] then (BadNothingToDo, [])
      else if list_ex (\<lambda>e. qn_Name (pe_TargetName e) = []) es then (BadBrowseNameInvalid, [])
      else case follow m i es of
             Inl st \<Rightarrow> (st, [])
           | Inr targets \<Rightarrow> if targets \<noteq> [] then (Good, targets) else (BadNoMatch, targets))"

text \<open>The meaning of a path: each element leads along a matching reference.\<close>

fun reaches :: "NamespaceManager \<Rightarrow> NodeID option \<Rightarrow> RelativePathElement list \<Rightarrow> ExpandedNodeID \<Rightarrow> bool" where
  "reaches m i [] x = False"
| "reaches m i [e] x = (\<exists>n r. nodes m i = Some n \<and> r \<in> set (n_references n) \<and> step_ref m e r \<and> x = TargetID r)"
| "reaches m i (e # e' # es) x = (\<exists>n r t. nodes m i = Some n \<and> r \<in> set (n_references n) \<and> step_ref m e r
     \<and> nodes m (target_id m r) = Some t \<and> reaches m (n_nodeId t) (e' # es) x)"

lemma target_of_path_Inr:
  assumes "target_of_path m i e = Inr ns"
  obtains n where "nodes m i = Some n" "ns = map TargetID (filter (step_ref m e) (n_references n))" "ns \<noteq> []"
  using assms by (auto simp: target_of_path_def FindNode_def Let_def split: option.splits if_splits)

lemma target_of_path_first:
  assumes "target_of_path m i e = Inr ns"
  obtains n r t where "nodes m i = Some n" "r \<in> set (n_references n)" "step_ref m e r" "hd ns = TargetID r"
    "nodes m (target_id m r) = Some t"
proof -
  from assms obtain n where n: "nodes m i = Some n" "ns = map TargetID (filter (step_ref m e) (n_references n))" "ns \<noteq> []"
    by (rule target_of_path_Inr)
  then obtain r rs where r: "filter (step_ref m e) (n_references n) = r # rs" by (cases "filter (step_ref m e) (n_references n)") auto
  then have "r \<in> set (filter (step_ref m e) (n_references n))" by simp
  then have m: "r \<in> set (n_references n)" "step_ref m e r" by simp_all
  then obtain t where "nodes m (target_id m r) = Some t" by (auto simp: step_ref_def FindNode_def split: option.splits)
  with n r m show thesis by (intro that) auto
qed

lemma follow_sound:
  assumes "follow m i es = Inr ts" and "t \<in> set ts"
  shows "reaches m i es (bt_TargetID t) \<and> RemainingPathIndex t = MaxUint32"
  using assms
proof (induction m i es rule: follow.induct)
  case (2 m i e)
  then obtain ns where ns: "target_of_path m i e = Inr ns" "t \<in> set (map (\<lambda>n. \<lparr>bt_TargetID = n, RemainingPathIndex = MaxUint32\<rparr>) ns)"
    by (cases "target_of_path m i e") auto
  from ns(1) obtain n where "nodes m i = Some n" "ns = map TargetID (filter (step_ref m e) (n_references n))" by (rule target_of_path_Inr)
  with ns(2) show ?case by auto
next
  case (3 m i e e' es)
  then obtain ns where ns: "target_of_path m i e = Inr ns" by (cases "target_of_path m i e") auto
  then have "ns \<noteq> []" by (rule target_of_path_Inr)
  then obtain x xs where x: "ns = x # xs" by (cases ns) auto
  from ns obtain n r u where r: "nodes m i = Some n" "r \<in> set (n_references n)" "step_ref m e r" "hd ns = TargetID r"
    "nodes m (target_id m r) = Some u" by (rule target_of_path_first)
  then have u: "FindNode m (ToNodeID x (namespaces m)) = Some u" by (simp add: x FindNode_def target_id_def)
  with 3(2) ns x have f: "follow m (n_nodeId u) (e' # es) = Inr ts" by simp
  from 3(1) [OF ns _ _ f] x u 3(3) have "reaches m (n_nodeId u) (e' # es) (bt_TargetID t) \<and> RemainingPathIndex t = MaxUint32" by simp
  with r show ?case by auto
qed simp

text \<open>It finds every target when no step but the last has two matching references.\<close>

fun single_steps :: "NamespaceManager \<Rightarrow> NodeID option \<Rightarrow> RelativePathElement list \<Rightarrow> bool" where
  "single_steps m i (e # e' # es) = (case nodes m i of
       None \<Rightarrow> True
     | Some n \<Rightarrow> (case filter (step_ref m e) (n_references n) of
           [r] \<Rightarrow> (case nodes m (target_id m r) of None \<Rightarrow> True | Some t \<Rightarrow> single_steps m (n_nodeId t) (e' # es))
         | [] \<Rightarrow> True
         | _ \<Rightarrow> False))"
| "single_steps m i _ = True"

lemma follow_complete:
  assumes "reaches m i es x" and "single_steps m i es"
  shows "\<exists>ts. follow m i es = Inr ts \<and> x \<in> bt_TargetID ` set ts"
  using assms
proof (induction m i es x rule: reaches.induct)
  case (2 m i e x)
  then obtain n r where r: "nodes m i = Some n" "r \<in> set (n_references n)" "step_ref m e r" "x = TargetID r" by auto
  then have "filter (step_ref m e) (n_references n) \<noteq> []" by (auto simp: filter_empty_conv)
  with r show ?case by (auto simp: target_of_path_def FindNode_def image_image)
next
  case (3 m i e e' es x)
  then obtain n r t where r: "nodes m i = Some n" "r \<in> set (n_references n)" "step_ref m e r"
     "nodes m (target_id m r) = Some t" "reaches m (n_nodeId t) (e' # es) x" by auto
  define fs where "fs = filter (step_ref m e) (n_references n)"
  have "r \<in> set fs" using r unfolding fs_def by simp
  moreover have "length fs \<le> 1" using 3(3) r(1) unfolding fs_def [symmetric] by (auto simp flip: fs_def split: list.splits)
  ultimately have fl: "filter (step_ref m e) (n_references n) = [r]" unfolding fs_def [symmetric] by (cases fs) auto
  with 3(3) r have "single_steps m (n_nodeId t) (e' # es)" by simp
  from 3(1) [OF r(5) this] obtain ts where "follow m (n_nodeId t) (e' # es) = Inr ts" "x \<in> bt_TargetID ` set ts" by blast
  moreover have "target_of_path m i e = Inr [TargetID r]" using r(1) fl by (simp add: target_of_path_def FindNode_def)
  moreover have "FindNode m (ToNodeID (TargetID r) (namespaces m)) = Some t" using r(4) by (simp add: FindNode_def target_id_def)
  ultimately show ?case by simp
qed simp

end
