(* ===== verification/Write_Pool.thy ===== *)
theory Write_Pool
  imports Node_Access
begin

text \<open>
  The tasks of \<open>handleWrite\<close>: each write of a request is a task of the worker pool, and
  the handler waits until all are done. A task takes two steps (plan and perform, see
  \<open>Node_Access\<close>); a schedule, a list of task numbers, says which task takes the next
  step, so the schedules are the interleavings. The instants of the tasks are the argument \<open>ts\<close>.
\<close>

section \<open>Tasks and schedules\<close>

datatype write_task = Waiting WriteValue | Planned "NodeID option" write_plan | Finished "StatusCode res"

definition step_task :: "role_env \<Rightarrow> capabilities \<Rightarrow> (nat \<Rightarrow> gotime \<times> gotime) \<Rightarrow> (nat \<times> identity) option \<Rightarrow> nat \<Rightarrow>
    write_task list \<times> NamespaceManager \<Rightarrow> write_task list \<times> NamespaceManager" where
  "step_task re cap ts sess k = (\<lambda>(tasks, m).
     if k < length tasks then (case tasks ! k of
         Waiting wv \<Rightarrow> (case plan_write re cap (fst (ts k)) (snd (ts k)) sess wv m of
             (Ok p, m1) \<Rightarrow> (tasks[k := Planned (wv_NodeID wv) p], m1)
           | (Err e, m1) \<Rightarrow> (tasks[k := Finished (Err e)], m1)
           | (Panic, m1) \<Rightarrow> (tasks[k := Finished Panic], m1)
           | (NoFuel, m1) \<Rightarrow> (tasks[k := Finished NoFuel], m1))
       | Planned i p \<Rightarrow> (case perform_write i p m of (r, m1) \<Rightarrow> (tasks[k := Finished r], m1))
       | Finished r \<Rightarrow> (tasks, m))
     else (tasks, m))"

definition run_tasks :: "role_env \<Rightarrow> capabilities \<Rightarrow> (nat \<Rightarrow> gotime \<times> gotime) \<Rightarrow> (nat \<times> identity) option \<Rightarrow> nat list \<Rightarrow>
    write_task list \<times> NamespaceManager \<Rightarrow> write_task list \<times> NamespaceManager" where
  "run_tasks re cap ts sess sched s = fold (step_task re cap ts sess) sched s"

fun finished :: "write_task \<Rightarrow> bool" where
  "finished (Finished _) = True"
| "finished _ = False"

lemma length_step_task [simp]: "length (fst (step_task re cap ts sess k s)) = length (fst s)"
  by (cases s) (simp add: step_task_def split: write_task.split prod.split res.split)

text \<open>An invariant of the single steps holds after every schedule.\<close>

lemma run_tasks_invariant:
  assumes "P s" and "\<And>k s. P s \<Longrightarrow> P (step_task re cap ts sess k s)"
  shows "P (run_tasks re cap ts sess sched s)"
  using assms(1) unfolding run_tasks_def
proof (induction sched arbitrary: s)
  case (Cons k ks)
  from Cons.IH [OF assms(2) [OF Cons.prems]] show ?case by simp
qed simp

lemma run_tasks_length: "length (fst (run_tasks re cap ts sess sched s)) = length (fst s)"
  by (rule run_tasks_invariant) simp_all

section \<open>Types under every interleaving\<close>

lemma plan_fits_same:
  assumes "plan_fits i p m" and "\<And>t. variant_type_loop m' t = variant_type_loop m t"
    and "\<And>n' va'. nodes m' i = Some n' \<Longrightarrow> n_attrs n' = VariableNode va' \<Longrightarrow> \<exists>n va. nodes m i = Some n \<and> n_attrs n = VariableNode va
      \<and> va_dataType va = va_dataType va' \<and> va_valueRank va = va_valueRank va'"
  shows "plan_fits i p m'"
  using assms unfolding plan_fits_def by metis

lemma plan_fits_on_variable:
  assumes "plan_fits i p m" and "\<And>va. va_dataType (f va) = va_dataType va \<and> va_valueRank (f va) = va_valueRank va"
  shows "plan_fits i p (on_variable j f m)"
proof (rule plan_fits_same [OF assms(1)])
  fix n' va'
  assume *: "nodes (on_variable j f m) i = Some n'" "n_attrs n' = VariableNode va'"
  then show "\<exists>n va. nodes m i = Some n \<and> n_attrs n = VariableNode va \<and> va_dataType va = va_dataType va' \<and> va_valueRank va = va_valueRank va'"
    using assms(2) by (auto simp: on_variable_def split: option.splits node_attrs.splits if_splits)
qed simp

lemma plan_fits_perform:
  assumes "perform_write j q m = (r, m')" and "plan_fits i p m"
  shows "plan_fits i p m'"
  using assms(2) by (auto simp: perform_write_state [OF assms(1)] plan_fits_on_variable split: write_plan.split)

lemma plan_write_loop:
  assumes "plan_write re cap t1 t2 sess wv m = (r, m')"
  shows "variant_type_loop m' t = variant_type_loop m t"
proof -
  have "target_id m' = target_id m" using plan_write_nodes [OF assms] by (simp add: fun_eq_iff target_id_def)
  then have "super_ref m' = super_ref m" using plan_write_nodes [OF assms] by (intro ext) (simp add: super_ref_def split: option.split)
  then show ?thesis by (intro variant_type_loop_cong) (simp add: fun_eq_iff FindSuperType_def)
qed

lemma plan_fits_plan:
  assumes "plan_write re cap t1 t2 sess wv m = (r, m')" and "plan_fits i p m"
  shows "plan_fits i p m'"
  using assms(2) plan_write_loop [OF assms(1)] plan_write_nodes [OF assms(1)] by (auto simp: plan_fits_def)

definition pool_ok :: "write_task list \<times> NamespaceManager \<Rightarrow> bool" where
  "pool_ok s \<longleftrightarrow> space_inv (snd s) \<and> (\<forall>i p. Planned i p \<in> set (fst s) \<longrightarrow> plan_fits i p (snd s))"

lemma step_task_ok:
  assumes "pool_ok s"
  shows "pool_ok (step_task re cap ts sess k s)"
proof -
  obtain tasks m where s: "s = (tasks, m)" by (cases s)
  note ok = assms [unfolded pool_ok_def s fst_conv snd_conv]
  have put: "pool_ok (tasks[k := t], m')"
    if "space_inv m'" "\<And>i p. plan_fits i p m \<Longrightarrow> plan_fits i p m'" "\<And>i p. t = Planned i p \<Longrightarrow> plan_fits i p m'" for t m'
    using that ok by (auto simp: pool_ok_def dest!: set_update_subset_insert [THEN subsetD])
  show ?thesis
  proof (cases "k < length tasks")
    case True
    show ?thesis
    proof (cases "tasks ! k")
      case (Waiting wv)
      obtain r m1 where p: "plan_write re cap (fst (ts k)) (snd (ts k)) sess wv m = (r, m1)" by fastforce
      have "pool_ok (tasks[k := t], m1)" if "\<And>i q. t = Planned i q \<Longrightarrow> i = wv_NodeID wv \<and> r = Ok q" for t
        using that p ok plan_fits_plan [OF p] plan_write_inv [OF p] plan_write_fits by (intro put) blast+
      with Waiting True s p show ?thesis by (auto simp: step_task_def split: res.split)
    next
      case (Planned i q)
      obtain r m1 where p: "perform_write i q m = (r, m1)" by fastforce
      have "plan_fits i q m" using ok Planned True by (metis nth_mem)
      then have "pool_ok (tasks[k := Finished r], m1)"
        using perform_write_inv [OF p] ok plan_fits_perform [OF p] by (intro put) auto
      with Planned True s p show ?thesis by (simp add: step_task_def)
    next
      case (Finished r)
      with assms s show ?thesis by (simp add: step_task_def)
    qed
  qed (use assms s in \<open>simp add: step_task_def\<close>)
qed

lemma run_tasks_typed:
  assumes "space_inv m" and "run_tasks re cap ts sess sched (map Waiting wvs, m) = (tasks, m')"
  shows "space_inv m'"
proof -
  have "pool_ok (map Waiting wvs, m)" using assms(1) by (auto simp: pool_ok_def)
  then have "pool_ok (run_tasks re cap ts sess sched (map Waiting wvs, m))" by (rule run_tasks_invariant) (rule step_task_ok)
  with assms(2) show ?thesis by (simp add: pool_ok_def)
qed

section \<open>Writes to different nodes\<close>

text \<open>What a task sees of the address space: its node and the types.\<close>

definition same_view :: "NodeID option \<Rightarrow> NamespaceManager \<Rightarrow> NamespaceManager \<Rightarrow> bool" where
  "same_view i m m0 \<longleftrightarrow> nodes m i = nodes m0 i \<and> cache_ok m \<and> cache_ok m0
     \<and> (\<forall>t. variant_type_loop m t = variant_type_loop m0 t)"

lemma FindVariantType_result: "cache_ok m \<Longrightarrow> map_option fst (FindVariantType t m) = variant_type_loop m t"
  by (auto simp: FindVariantType_def cache_ok_def split: option.split)

lemma plan_value_same:
  assumes "same_view i m m0"
  shows "fst (plan_value re cap t1 t2 a uid wv n va m) = fst (plan_value re cap t1 t2 a uid wv n va m0)"
proof -
  have "map_option fst (FindVariantType (va_dataType va) m) = map_option fst (FindVariantType (va_dataType va) m0)"
    using assms by (simp add: same_view_def FindVariantType_result)
  then show ?thesis
    by (auto simp: plan_value_def Let_def split: option.splits res.splits)
qed

lemma plan_write_same:
  assumes "same_view (wv_NodeID wv) m m0"
  shows "fst (plan_write re cap t1 t2 sess wv m) = fst (plan_write re cap t1 t2 sess wv m0)"
proof -
  have n: "nodes m (wv_NodeID wv) = nodes m0 (wv_NodeID wv)" using assms by (simp add: same_view_def)
  show ?thesis
    by (simp add: plan_write_def FindNode_def n plan_value_same [OF assms] if_distrib [of fst] option.case_distrib [of fst]
        prod.case_distrib [of fst] node_attrs.case_distrib [of fst] goval.case_distrib [of fst] scalar.case_distrib [of fst]
        cong del: option.case_cong_weak prod.case_cong_weak node_attrs.case_cong_weak goval.case_cong_weak scalar.case_cong_weak if_weak_cong)
qed

lemma on_variable_same: "nodes m i = nodes m0 i \<Longrightarrow> nodes (on_variable i f m) i = nodes (on_variable i f m0) i"
  by (auto simp: on_variable_def split: option.split node_attrs.split)

lemma perform_write_same:
  assumes "nodes m i = nodes m0 i" and "perform_write i p m = (r, m')" and "perform_write i p m0 = (r0, m0')"
  shows "r = r0 \<and> nodes m' i = nodes m0' i"
proof -
  have "fst (perform_write i p m) = fst (perform_write i p m0)" using assms(1)
    by (auto simp: perform_write_def SetValue_def Let_def split: write_plan.split option.split node_attrs.split)
  then have "r = r0" using assms(2, 3) by simp
  moreover have "nodes m' i = nodes m0' i"
    unfolding perform_write_state [OF assms(2)] perform_write_state [OF assms(3)]
    using assms(1) by (cases p) (auto intro: on_variable_same)
  ultimately show ?thesis ..
qed

lemma writeValue_plan:
  "plan_write re cap t1 t2 sess wv m = (Ok p, m1) \<Longrightarrow> writeValue re cap t1 t2 sess wv m = perform_write (wv_NodeID wv) p m1"
  "plan_write re cap t1 t2 sess wv m = (Panic, m1) \<Longrightarrow> writeValue re cap t1 t2 sess wv m = (Panic, m1)"
  "plan_write re cap t1 t2 sess wv m = (NoFuel, m1) \<Longrightarrow> writeValue re cap t1 t2 sess wv m = (NoFuel, m1)"
  "plan_write re cap t1 t2 sess wv m = (Err e, m1) \<Longrightarrow> writeValue re cap t1 t2 sess wv m = (Err e, m1)"
  by (simp_all add: writeValue_def)

text \<open>How far the task of a write has come, compared with the write alone on the first state.\<close>

definition task_at :: "role_env \<Rightarrow> capabilities \<Rightarrow> (gotime \<times> gotime) \<Rightarrow> (nat \<times> identity) option \<Rightarrow> NamespaceManager \<Rightarrow>
    WriteValue \<Rightarrow> write_task \<Rightarrow> NamespaceManager \<Rightarrow> bool" where
  "task_at re cap t sess m0 wv task m \<longleftrightarrow> (let i = wv_NodeID wv in case task of
       Waiting wv' \<Rightarrow> wv' = wv \<and> nodes m i = nodes m0 i
     | Planned i' p \<Rightarrow> i' = i \<and> fst (plan_write re cap (fst t) (snd t) sess wv m0) = Ok p \<and> nodes m i = nodes m0 i
     | Finished r \<Rightarrow> (case writeValue re cap (fst t) (snd t) sess wv m0 of (r0, m1) \<Rightarrow> r = r0 \<and> nodes m i = nodes m1 i))"

lemma task_at_frame: "task_at re cap t sess m0 wv task m \<Longrightarrow> nodes m' (wv_NodeID wv) = nodes m (wv_NodeID wv) \<Longrightarrow> task_at re cap t sess m0 wv task m'"
  by (auto simp: task_at_def Let_def split: write_task.splits)

definition pool_at :: "role_env \<Rightarrow> capabilities \<Rightarrow> (nat \<Rightarrow> gotime \<times> gotime) \<Rightarrow> (nat \<times> identity) option \<Rightarrow> NamespaceManager \<Rightarrow>
    WriteValue list \<Rightarrow> write_task list \<times> NamespaceManager \<Rightarrow> bool" where
  "pool_at re cap ts sess m0 wvs s \<longleftrightarrow> length (fst s) = length wvs \<and> cache_ok (snd s)
     \<and> (\<forall>t. variant_type_loop (snd s) t = variant_type_loop m0 t)
     \<and> (\<forall>k<length wvs. task_at re cap (ts k) sess m0 (wvs ! k) (fst s ! k) (snd s))
     \<and> (\<forall>i. i \<notin> wv_NodeID ` set wvs \<longrightarrow> nodes (snd s) i = nodes m0 i)"

text \<open>One step of the task \<open>k\<close>: what it changes is at its node.\<close>

lemma pool_at_put:
  assumes "pool_at re cap ts sess m0 wvs (tasks, m)" and "distinct (map wv_NodeID wvs)" and "k < length wvs"
    and "cache_ok m'" and "\<forall>t. variant_type_loop m' t = variant_type_loop m t"
    and "\<forall>j. j \<noteq> wv_NodeID (wvs ! k) \<longrightarrow> nodes m' j = nodes m j"
    and "task_at re cap (ts k) sess m0 (wvs ! k) task m'"
  shows "pool_at re cap ts sess m0 wvs (tasks[k := task], m')"
proof -
  have "task_at re cap (ts l) sess m0 (wvs ! l) (tasks[k := task] ! l) m'" if "l < length wvs" for l
  proof (cases "l = k")
    case True
    with assms show ?thesis by (simp add: pool_at_def)
  next
    case False
    then have "wv_NodeID (wvs ! l) \<noteq> wv_NodeID (wvs ! k)" using assms(2, 3) that by (auto simp: distinct_conv_nth)
    with assms(1, 6) that False show ?thesis by (auto simp: pool_at_def intro: task_at_frame)
  qed
  moreover have "nodes m' i = nodes m0 i" if "i \<notin> wv_NodeID ` set wvs" for i
  proof -
    have "i \<noteq> wv_NodeID (wvs ! k)" using that assms(3) by auto
    with assms(1, 6) that show ?thesis by (auto simp: pool_at_def)
  qed
  ultimately show ?thesis using assms by (simp add: pool_at_def)
qed

lemma plan_write_cache:
  assumes "plan_write re cap t1 t2 sess wv m = (r, m')" and "cache_ok m"
  shows "cache_ok m'"
proof -
  have "cache_ok m'" if "plan_value re cap t1 t2 a uid wv n va m = (r, m')" for a uid n va
    using that assms(2) FindVariantType_spec [OF assms(2), of "va_dataType va"]
    by (auto simp: plan_value_def Let_def split: if_splits option.splits prod.splits res.splits)
  then show ?thesis using assms
    by (auto simp: plan_write_def split: option.splits prod.splits if_splits node_attrs.splits goval.splits scalar.splits)
qed

lemma perform_write_types:
  assumes "perform_write i p m = (r, m')"
  shows "variant_type_loop m' t = variant_type_loop m t" and "cache_ok m \<Longrightarrow> cache_ok m'"
  by (simp_all add: perform_write_state [OF assms] cache_ok_on_variable split: write_plan.split)

lemma step_task_at:
  assumes "pool_at re cap ts sess m0 wvs s" and "distinct (map wv_NodeID wvs)" and "cache_ok m0"
  shows "pool_at re cap ts sess m0 wvs (step_task re cap ts sess k s)"
proof -
  obtain tasks m where s: "s = (tasks, m)" by (cases s)
  note P = assms(1) [unfolded s]
  show ?thesis
  proof (cases "k < length tasks")
    case True
    then have k: "k < length wvs" using P by (simp add: pool_at_def)
    define wv where "wv = wvs ! k"
    have t: "task_at re cap (ts k) sess m0 wv (tasks ! k) m" using P k by (simp add: pool_at_def wv_def)
    note put = pool_at_put [OF P assms(2) k, folded wv_def]
    show ?thesis
    proof (cases "tasks ! k")
      case (Waiting wv')
      with t have w: "wv' = wv" "nodes m (wv_NodeID wv) = nodes m0 (wv_NodeID wv)" by (simp_all add: task_at_def Let_def)
      then have view: "same_view (wv_NodeID wv) m m0" using P assms(3) by (simp add: same_view_def pool_at_def)
      obtain r m1 where p: "plan_write re cap (fst (ts k)) (snd (ts k)) sess wv m = (r, m1)" by fastforce
      obtain m01 where p0: "plan_write re cap (fst (ts k)) (snd (ts k)) sess wv m0 = (r, m01)"
        using plan_write_same [OF view, of re cap "fst (ts k)" "snd (ts k)" sess] p by (metis fst_conv surj_pair)
      note n = plan_write_nodes [OF p] plan_write_nodes [OF p0]
      have "task_at re cap (ts k) sess m0 wv task m1"
        if "task = (case r of Ok q \<Rightarrow> Planned (wv_NodeID wv) q | Err e \<Rightarrow> Finished (Err e) | Panic \<Rightarrow> Finished Panic | NoFuel \<Rightarrow> Finished NoFuel)" for task
        using that p0 n w by (auto simp: task_at_def Let_def writeValue_def split: res.splits)
      then have "pool_at re cap ts sess m0 wvs (tasks[k := (case r of Ok q \<Rightarrow> Planned (wv_NodeID wv) q
          | Err e \<Rightarrow> Finished (Err e) | Panic \<Rightarrow> Finished Panic | NoFuel \<Rightarrow> Finished NoFuel)], m1)"
        using P n plan_write_cache [OF p] plan_write_loop [OF p] by (intro put) (auto simp: pool_at_def)
      with Waiting True s w p show ?thesis by (simp add: step_task_def split: res.splits)
    next
      case (Planned i p)
      with t have w: "i = wv_NodeID wv" "fst (plan_write re cap (fst (ts k)) (snd (ts k)) sess wv m0) = Ok p"
        "nodes m i = nodes m0 i" by (simp_all add: task_at_def Let_def)
      then obtain m01 where p0: "plan_write re cap (fst (ts k)) (snd (ts k)) sess wv m0 = (Ok p, m01)" by (metis fst_conv surj_pair)
      obtain r m1 where q: "perform_write i p m = (r, m1)" by fastforce
      obtain r0 m02 where q0: "perform_write i p m01 = (r0, m02)" by fastforce
      have "nodes m i = nodes m01 i" using w plan_write_nodes [OF p0] by simp
      from perform_write_same [OF this q q0] have "task_at re cap (ts k) sess m0 wv (Finished r) m1"
        using w q0 writeValue_plan(1) [OF p0] by (simp add: task_at_def Let_def)
      then have "pool_at re cap ts sess m0 wvs (tasks[k := Finished r], m1)"
        using P w perform_write_types [OF q] perform_write_frame(1) [OF q] by (intro put) (auto simp: pool_at_def)
      with Planned True s q show ?thesis by (simp add: step_task_def)
    qed (use assms s in \<open>simp add: step_task_def\<close>)
  qed (use assms s in \<open>simp add: step_task_def\<close>)
qed

lemma pool_at_run:
  assumes "distinct (map wv_NodeID wvs)" and "cache_ok m0"
    and "run_tasks re cap ts sess sched (map Waiting wvs, m0) = (tasks, m)"
  shows "pool_at re cap ts sess m0 wvs (tasks, m)"
proof -
  have "pool_at re cap ts sess m0 wvs (map Waiting wvs, m0)" using assms(2) by (simp add: pool_at_def task_at_def Let_def)
  then have "pool_at re cap ts sess m0 wvs (run_tasks re cap ts sess sched (map Waiting wvs, m0))"
    by (rule run_tasks_invariant) (rule step_task_at [OF _ assms(1, 2)])
  then show ?thesis by (simp add: assms(3))
qed

text \<open>Whatever the schedule, each write has the result and the effect it has alone.\<close>

lemma run_tasks_independent:
  assumes "distinct (map wv_NodeID wvs)" and "cache_ok m0"
    and "run_tasks re cap ts sess sched (map Waiting wvs, m0) = (tasks, m)" and "k < length wvs" and "tasks ! k = Finished r"
    and "writeValue re cap (fst (ts k)) (snd (ts k)) sess (wvs ! k) m0 = (r0, m1)"
  shows "r = r0 \<and> nodes m (wv_NodeID (wvs ! k)) = nodes m1 (wv_NodeID (wvs ! k))"
proof -
  have "task_at re cap (ts k) sess m0 (wvs ! k) (Finished r) m" using pool_at_run [OF assms(1-3)] assms(4, 5) by (auto simp: pool_at_def)
  with assms(6) show ?thesis by (simp add: task_at_def Let_def)
qed

lemma run_tasks_others:
  assumes "distinct (map wv_NodeID wvs)" and "cache_ok m0"
    and "run_tasks re cap ts sess sched (map Waiting wvs, m0) = (tasks, m)" and "i \<notin> wv_NodeID ` set wvs"
  shows "nodes m i = nodes m0 i"
  using pool_at_run [OF assms(1-3)] assms(4) by (simp add: pool_at_def)

text \<open>A task that has been scheduled twice is finished.\<close>

fun rank_of :: "write_task \<Rightarrow> nat" where
  "rank_of (Waiting _) = 2"
| "rank_of (Planned _ _) = 1"
| "rank_of (Finished _) = 0"

lemma step_task_rank:
  assumes "j < length (fst s)"
  shows "rank_of (fst (step_task re cap ts sess k s) ! j) \<le> rank_of (fst s ! j) - (if k = j then 1 else 0)"
  using assms by (cases s) (auto simp: step_task_def nth_list_update split: write_task.split res.split prod.split)

lemma run_tasks_rank:
  assumes "j < length (fst s)"
  shows "rank_of (fst (run_tasks re cap ts sess sched s) ! j) \<le> rank_of (fst s ! j) - count_list sched j"
  using assms unfolding run_tasks_def
proof (induction sched arbitrary: s)
  case (Cons k ks)
  let ?s = "step_task re cap ts sess k s"
  have "j < length (fst ?s)" using Cons.prems by simp
  from Cons.IH [OF this] step_task_rank [OF Cons.prems, of re cap ts sess k]
  have "rank_of (fst (fold (step_task re cap ts sess) ks ?s) ! j)
      \<le> rank_of (fst s ! j) - (if k = j then 1 else 0) - count_list ks j" by linarith
  then show ?case by (simp split: if_splits)
qed simp

lemma run_tasks_finished:
  assumes "\<forall>k<length wvs. 2 \<le> count_list sched k"
  shows "list_all finished (fst (run_tasks re cap ts sess sched (map Waiting wvs, m)))"
proof -
  let ?s = "run_tasks re cap ts sess sched (map Waiting wvs, m)"
  have l: "length (fst ?s) = length wvs" by (rule run_tasks_invariant) simp_all
  have "finished (fst ?s ! k)" if "k < length wvs" for k
  proof -
    have "rank_of (fst ?s ! k) \<le> 2 - count_list sched k"
      using run_tasks_rank [of k "(map Waiting wvs, m)" re cap ts sess sched] that by simp
    moreover have "2 \<le> count_list sched k" using assms that by blast
    ultimately have "rank_of (fst ?s ! k) = 0" by linarith
    then show ?thesis by (cases "fst ?s ! k") auto
  qed
  with l show ?thesis by (simp add: list_all_length)
qed

section \<open>Two writes to one array\<close>

text \<open>When both writes are planned before one is performed, the second overwrites the first.\<close>

lemma lost_update:
  assumes "plan_write re cap (fst (ts 0)) (snd (ts 0)) sess w0 m = (Ok (WSetValue v0), m1)"
    and "plan_write re cap (fst (ts 1)) (snd (ts 1)) sess w1 m1 = (Ok (WSetValue v1), m2)"
    and "wv_NodeID w1 = wv_NodeID w0"
    and n: "nodes m (wv_NodeID w0) = Some n" "n_attrs n = VariableNode va" "\<not> va_historizing va \<or> va_historian va"
  obtains m3 where "run_tasks re cap ts sess [0, 1, 0, 1] ([Waiting w0, Waiting w1], m) = ([Finished (Ok Good), Finished (Ok Good)], m3)"
    "nodes m3 (wv_NodeID w0) = Some (n\<lparr>n_attrs := VariableNode (va\<lparr>va_value := v1\<rparr>)\<rparr>)"
proof -
  have m: "nodes m1 = nodes m" "nodes m2 = nodes m" using plan_write_nodes [OF assms(1)] plan_write_nodes [OF assms(2)] by simp_all
  let ?i = "wv_NodeID w0" and ?f = "\<lambda>v va. va\<lparr>va_value := v\<rparr>"
  have a: "nodes (on_variable ?i (?f v0) m2) ?i = Some (n\<lparr>n_attrs := VariableNode (va\<lparr>va_value := v0\<rparr>)\<rparr>)" using n m by (simp add: on_variable_at)
  have b: "nodes (on_variable ?i (?f v1) (on_variable ?i (?f v0) m2)) ?i = Some (n\<lparr>n_attrs := VariableNode (va\<lparr>va_value := v1\<rparr>)\<rparr>)"
    using on_variable_at [OF a, of "va\<lparr>va_value := v0\<rparr>"] by simp
  have p0: "perform_write ?i (WSetValue v0) m2 = (Ok Good, on_variable ?i (?f v0) m2)"
    using n m by (simp add: perform_write_def SetValue_def Let_def)
  have p1: "perform_write ?i (WSetValue v1) (on_variable ?i (?f v0) m2) = (Ok Good, on_variable ?i (?f v1) (on_variable ?i (?f v0) m2))"
    using n a by (simp add: perform_write_def SetValue_def Let_def)
  have "run_tasks re cap ts sess [0, 1, 0, 1] ([Waiting w0, Waiting w1], m) =
      ([Finished (Ok Good), Finished (Ok Good)], on_variable ?i (?f v1) (on_variable ?i (?f v0) m2))"
    using assms(1-3) p0 p1 by (simp add: run_tasks_def step_task_def)
  with b show thesis by (intro that)
qed

end
