(* ===== verification/Node_Service.thy ===== *)
theory Node_Service
  imports Node_View Write_Pool Service_Access
begin

text \<open>
  The handlers of the attribute and view services (\<open>server/server_service_set.go\<close>) on
  the whole server: the session and subscription managers and the address space. The tasks
  of a request run on the worker pool, and a schedule gives their order: for \<open>Write\<close> the
  steps of \<open>Write_Pool\<close>, for \<open>Browse\<close> and \<open>BrowseNext\<close>, whose tasks share only the
  continuation points of the session behind a lock, whole tasks. A schedule that leaves
  a task unfinished leaves the handler waiting, \<open>Blocked\<close>.
\<close>

section \<open>The server with its address space\<close>

definition BadTimestampsToReturnInvalid :: StatusCode where "BadTimestampsToReturnInvalid = 0x802B0000"
definition BadViewIDUnknown :: StatusCode where "BadViewIDUnknown = 0x806B0000"
definition BadMaxAgeInvalid :: StatusCode where "BadMaxAgeInvalid = 0x80700000"

record OperationLimits =
  MaxNodesPerRead :: u32
  MaxNodesPerWrite :: u32
  MaxNodesPerBrowse :: u32
  MaxNodesPerTranslateBrowsePathsToNodeIds :: u32
  MaxNodesPerRegisterNodes :: u32

record UAServer =
  ua_srv :: "ReferenceDescription Server"
  namespaceManager :: NamespaceManager
  serverCapabilities :: capabilities
  operationLimits :: OperationLimits
  ua_roles :: role_env

type_synonym ua_handler = "UAServer \<Rightarrow> outcome \<times> sent \<times> UAServer"

definition put_result :: "UAServer \<Rightarrow> outcome \<times> sent \<times> ReferenceDescription Server \<Rightarrow> outcome \<times> sent \<times> UAServer" where
  "put_result u r = (case r of (o1, out, srv) \<Rightarrow> (o1, out, u\<lparr>ua_srv := srv\<rparr>))"

text \<open>A handler of the other services, on the whole server.\<close>

definition lift_handler :: "ReferenceDescription handler \<Rightarrow> ua_handler" where
  "lift_handler f u = put_result u (f (ua_srv u))"

definition bounded_ops :: "env \<Rightarrow> conn \<Rightarrow> u32 \<Rightarrow> u32 \<Rightarrow> service \<Rightarrow> nat \<Rightarrow> nat \<Rightarrow> u32 \<Rightarrow> 'rd handler \<Rightarrow> 'rd handler" where
  "bounded_ops en c rid h svc a n mx body srv =
     (if n = 0 then refuse en c rid h (Some svc) a BadNothingToDo srv
      else if n > unat mx then refuse en c rid h (Some svc) a BadTooManyOperations srv
      else body srv)"

definition identity_of :: "'rd Server \<Rightarrow> nat \<Rightarrow> identity" where
  "identity_of srv a = (case session_at srv a of None \<Rightarrow> NoIdentity | Some s \<Rightarrow> userIdentity s)"

section \<open>Read and write\<close>

definition read_all :: "role_env \<Rightarrow> NamespaceManager \<Rightarrow> (nat \<Rightarrow> gotime) \<Rightarrow> nat \<times> identity \<Rightarrow> ReadValueID list \<Rightarrow> DataValue list" where
  "read_all re m ts sess rvs = map (\<lambda>(k, rv). readValue re m (ts k) (Some sess) rv) (zip [0..<length rvs] rvs)"

definition handleRead :: "env \<Rightarrow> instant \<Rightarrow> (nat \<Rightarrow> gotime) \<Rightarrow> conn \<Rightarrow> u32 \<Rightarrow> u32 \<Rightarrow> NodeID option \<Rightarrow> float64 \<Rightarrow> TimestampsToReturn \<Rightarrow>
    ReadValueID list \<Rightarrow> ua_handler" where
  "handleRead en now ts c rid h token maxAge ttr rvs u = lift_handler
     (with_session en now (Some SvcRead) c rid h token (\<lambda>a srv.
        if f_less maxAge (Fin 0) then refuse en c rid h (Some SvcRead) a BadMaxAgeInvalid srv
        else if ttr = TimestampsInvalid then refuse en c rid h (Some SvcRead) a BadTimestampsToReturnInvalid srv
        else bounded_ops en c rid h SvcRead a (length rvs) (MaxNodesPerRead (operationLimits u))
          (reply en c rid (ReadResponse h
             (selectTimestamps (read_all (ua_roles u) (namespaceManager u) ts (a, identity_of srv a) rvs) ttr))) srv)) u"

fun task_result :: "write_task \<Rightarrow> StatusCode res option" where
  "task_result (Finished r) = Some r"
| "task_result _ = None"

definition handleWrite :: "env \<Rightarrow> instant \<Rightarrow> (nat \<Rightarrow> gotime \<times> gotime) \<Rightarrow> nat list \<Rightarrow> conn \<Rightarrow> u32 \<Rightarrow> u32 \<Rightarrow> NodeID option \<Rightarrow>
    WriteValue list \<Rightarrow> ua_handler" where
  "handleWrite en now ts sched c rid h token wvs u =
     (case admit en now (Some SvcWrite) c rid h token (ua_srv u) of
        Inl refused \<Rightarrow> put_result u refused
      | Inr (a, srv) \<Rightarrow>
          if length wvs = 0 then put_result u (refuse en c rid h (Some SvcWrite) a BadNothingToDo srv)
          else if length wvs > unat (MaxNodesPerWrite (operationLimits u))
          then put_result u (refuse en c rid h (Some SvcWrite) a BadTooManyOperations srv)
          else (case run_tasks (ua_roles u) (serverCapabilities u) ts (Some (a, identity_of srv a)) sched (map Waiting wvs, namespaceManager u) of
            (tasks, m) \<Rightarrow>
              (let u1 = u\<lparr>ua_srv := srv, namespaceManager := m\<rparr>;
                   rs = map task_result tasks
               in if list_ex (\<lambda>r. r = Some Panic) rs then (Panicked, [], u1)
                  else if list_ex (\<lambda>r. case r of Some (Ok _) \<Rightarrow> False | _ \<Rightarrow> True) rs then (Blocked, [], u1)
                  else put_result u1 (reply en c rid (WriteResponse h (map (\<lambda>r. case r of Some (Ok st) \<Rightarrow> st | _ \<Rightarrow> 0) rs)) srv))))"

section \<open>Browse\<close>

text \<open>Tasks that change the session \<open>a\<close>, in the order of the schedule; each runs once.\<close>

fun run_session_tasks :: "(nat \<Rightarrow> ('rd Session, 'r) act) \<Rightarrow> nat list \<Rightarrow> 'r res option list \<Rightarrow> 'rd Session \<Rightarrow> 'r res option list \<times> 'rd Session" where
  "run_session_tasks f [] rs s = (rs, s)"
| "run_session_tasks f (k # ks) rs s =
     (if k < length rs \<and> rs ! k = None
      then (case f k s of (r, s1) \<Rightarrow> run_session_tasks f ks (rs[k := Some r]) s1)
      else run_session_tasks f ks rs s)"

definition finish_tasks :: "env \<Rightarrow> conn \<Rightarrow> u32 \<Rightarrow> ('r list \<Rightarrow> response) \<Rightarrow> 'r res option list \<Rightarrow> 'rd handler" where
  "finish_tasks en c rid resp rs srv =
     (if list_ex (\<lambda>r. case r of Some Panic \<Rightarrow> True | _ \<Rightarrow> False) rs then (Panicked, [], srv)
      else if list_ex (\<lambda>r. case r of Some (Ok _) \<Rightarrow> False | _ \<Rightarrow> True) rs then (Blocked, [], srv)
      else reply en c rid (resp (map (\<lambda>r. case r of Some (Ok x) \<Rightarrow> x) rs)) srv)"

definition session_tasks :: "env \<Rightarrow> conn \<Rightarrow> u32 \<Rightarrow> nat list \<Rightarrow> ('r list \<Rightarrow> response) \<Rightarrow> ('rd Session, 'r) act list \<Rightarrow> nat \<Rightarrow> 'rd handler" where
  "session_tasks en c rid sched resp tasks a srv = (case session_at srv a of
       None \<Rightarrow> (Panicked, [], srv)
     | Some s \<Rightarrow> (case run_session_tasks ((!) tasks) sched (replicate (length tasks) None) s of
         (rs, s') \<Rightarrow> finish_tasks en c rid resp rs (put_session a s' srv)))"

definition handleBrowse :: "env \<Rightarrow> instant \<Rightarrow> nat list \<Rightarrow> conn \<Rightarrow> u32 \<Rightarrow> u32 \<Rightarrow> NodeID option \<Rightarrow> NodeID option \<Rightarrow> u32 \<Rightarrow>
    BrowseDescription list \<Rightarrow> ua_handler" where
  "handleBrowse en now sched c rid h token view mx ds u = lift_handler
     (with_session en now (Some SvcBrowse) c rid h token (\<lambda>a srv.
        if view \<noteq> None \<and> (case FindNode (namespaceManager u) view of
              None \<Rightarrow> True | Some n \<Rightarrow> NodeClass (n_attrs n) \<noteq> 128)
        then refuse en c rid h (Some SvcBrowse) a BadViewIDUnknown srv
        else bounded_ops en c rid h SvcBrowse a (length ds) (MaxNodesPerBrowse (operationLimits u))
          (session_tasks en c rid sched (BrowseResponse h)
             (map (browse_task (ua_roles u) (namespaceManager u) (identity_of srv a) mx) ds) a) srv)) u"

definition handleBrowseNext :: "env \<Rightarrow> instant \<Rightarrow> nat list \<Rightarrow> conn \<Rightarrow> u32 \<Rightarrow> u32 \<Rightarrow> NodeID option \<Rightarrow> bool \<Rightarrow> bytes list \<Rightarrow> ua_handler" where
  "handleBrowseNext en now sched c rid h token release cps u = lift_handler
     (with_session en now (Some SvcBrowseNext) c rid h token (\<lambda>a.
        bounded_ops en c rid h SvcBrowseNext a (length cps) (MaxNodesPerBrowse (operationLimits u))
          (session_tasks en c rid sched (BrowseNextResponse h) (map (browseNext release) cps) a))) u"

definition handleTranslateBrowsePathsToNodeIds :: "env \<Rightarrow> instant \<Rightarrow> conn \<Rightarrow> u32 \<Rightarrow> u32 \<Rightarrow> NodeID option \<Rightarrow>
    (NodeID option \<times> RelativePathElement list) list \<Rightarrow> ua_handler" where
  "handleTranslateBrowsePathsToNodeIds en now c rid h token paths u = lift_handler
     (with_session en now (Some SvcTranslateBrowsePaths) c rid h token (\<lambda>a.
        bounded_ops en c rid h SvcTranslateBrowsePaths a (length paths)
          (MaxNodesPerTranslateBrowsePathsToNodeIds (operationLimits u))
          (reply en c rid (TranslateBrowsePathsResponse h
             (map (\<lambda>(i, es). translate_path (namespaceManager u) i es) paths))))) u"

definition handleRegisterNodes :: "env \<Rightarrow> instant \<Rightarrow> conn \<Rightarrow> u32 \<Rightarrow> u32 \<Rightarrow> NodeID option \<Rightarrow> NodeID option list \<Rightarrow> ua_handler" where
  "handleRegisterNodes en now c rid h token ids u = lift_handler
     (with_session en now (Some SvcRegisterNodes) c rid h token (\<lambda>a.
        bounded_ops en c rid h SvcRegisterNodes a (length ids) (MaxNodesPerRegisterNodes (operationLimits u))
          (reply en c rid (RegisterNodesResponse h ids)))) u"

definition handleUnregisterNodes :: "env \<Rightarrow> instant \<Rightarrow> conn \<Rightarrow> u32 \<Rightarrow> u32 \<Rightarrow> NodeID option \<Rightarrow> NodeID option list \<Rightarrow> ua_handler" where
  "handleUnregisterNodes en now c rid h token ids u = lift_handler
     (with_session en now (Some SvcUnregisterNodes) c rid h token (\<lambda>a.
        bounded_ops en c rid h SvcUnregisterNodes a (length ids) (MaxNodesPerRegisterNodes (operationLimits u))
          (reply en c rid (UnregisterNodesResponse h)))) u"

section \<open>The dispatcher\<close>

datatype ua_request =
    ReadReq u32 float64 TimestampsToReturn "ReadValueID list"
  | WriteReq u32 "WriteValue list"
  | BrowseReq u32 "NodeID option" u32 "BrowseDescription list"
  | BrowseNextReq u32 bool "bytes list"
  | TranslateReq u32 "(NodeID option \<times> RelativePathElement list) list"
  | RegisterNodesReq u32 "NodeID option list"
  | UnregisterNodesReq u32 "NodeID option list"
  | SubscriptionReq request

text \<open>With the call come the instants of its tasks and their schedule.\<close>

fun handleUARequest :: "env \<Rightarrow> (nat \<Rightarrow> gotime \<times> gotime) \<Rightarrow> nat list \<Rightarrow> call \<Rightarrow> ua_request \<Rightarrow> ua_handler" where
  "handleUARequest en ts sched c (ReadReq h maxAge ttr rvs) =
     handleRead en (cl_now c) (\<lambda>k. fst (ts k)) (cl_conn c) (cl_rid c) h (cl_token c) maxAge ttr rvs"
| "handleUARequest en ts sched c (WriteReq h wvs) =
     handleWrite en (cl_now c) ts sched (cl_conn c) (cl_rid c) h (cl_token c) wvs"
| "handleUARequest en ts sched c (BrowseReq h view mx ds) =
     handleBrowse en (cl_now c) sched (cl_conn c) (cl_rid c) h (cl_token c) view mx ds"
| "handleUARequest en ts sched c (BrowseNextReq h release cps) =
     handleBrowseNext en (cl_now c) sched (cl_conn c) (cl_rid c) h (cl_token c) release cps"
| "handleUARequest en ts sched c (TranslateReq h paths) =
     handleTranslateBrowsePathsToNodeIds en (cl_now c) (cl_conn c) (cl_rid c) h (cl_token c) paths"
| "handleUARequest en ts sched c (RegisterNodesReq h ids) =
     handleRegisterNodes en (cl_now c) (cl_conn c) (cl_rid c) h (cl_token c) ids"
| "handleUARequest en ts sched c (UnregisterNodesReq h ids) =
     handleUnregisterNodes en (cl_now c) (cl_conn c) (cl_rid c) h (cl_token c) ids"
| "handleUARequest en ts sched c (SubscriptionReq rq) = lift_handler (handleRequest en c rq)"

end
