(* ===== verification/Node_Service_Safety.thy ===== *)
theory Node_Service_Safety
  imports Node_Service
begin

text \<open>
  The whole server under the attribute, view and subscription services: every request
  keeps the invariants of the managers and of the address space, a node changes only
  through a write its user is entitled to, and a refused request changes nothing.
\<close>

section \<open>Admission\<close>

lemma admit_fine:
  assumes "server_inv srv"
  shows "admit en now svc c rid h token srv = Inl x \<Longrightarrow> fine x"
    and "admit en now svc c rid h token srv = Inr (a, srv') \<Longrightarrow> server_inv srv' \<and> live srv' a"
proof -
  let ?body = "\<lambda>a s. if server_inv s \<and> live s a then (Returned None, [], s) else (Panicked, [], s)"
  have "fine (with_session en now svc c rid h token ?body srv)"
    by (rule fine_with_session [OF assms]) (simp add: fine_def)
  then show "admit en now svc c rid h token srv = Inl x \<Longrightarrow> fine x"
    "admit en now svc c rid h token srv = Inr (a, srv') \<Longrightarrow> server_inv srv' \<and> live srv' a"
    by (auto simp: with_session_def fine_def split: if_splits)
qed

lemma with_session_inv:
  assumes "server_inv srv" and "\<And>a srv2. server_inv srv2 \<Longrightarrow> live srv2 a \<Longrightarrow> server_inv (snd (snd (body a srv2)))"
  shows "server_inv (snd (snd (with_session en now svc c rid h token body srv)))"
  using admit_fine [OF assms(1), of en now svc c rid h token] assms(2)
  by (auto simp: with_session_def fine_def split: sum.split)

text \<open>Who is admitted, and with which identity.\<close>

lemma admit_authorized:
  assumes "admit en now svc c rid h token srv = Inr (a, srv')"
  shows "authorized now c token srv \<and> map_of (sessionsByToken srv) token = Some a \<and> identity_of srv' a = identity_of srv a
    \<and> subscriptionsByID srv' = subscriptionsByID srv"
proof -
  from assms obtain srv1 where g: "SessionManager_Get now token srv = (Some a, srv1)" "srv' = count_call svc a srv1"
    and ch: "\<not> cn_discoveryOnly c" "channel_of srv' a \<noteq> 0" "channel_of srv' a = cn_id c"
    by (auto simp: admit_def Let_def split: if_splits prod.splits option.splits)
  then obtain s where s: "map_of (sessionsByToken srv) token = Some a" "session_at srv a = Some s" "\<not> Session_IsExpired now s"
      "srv1 = put_session a (SetLastAccess now s) srv"
    by (auto simp: SessionManager_Get_def split: option.splits if_splits)
  have "channel_of srv1 a = channelId s" using s by (simp add: channel_of_def SetLastAccess_def)
  then have "channel_of srv' a = channelId s" using g by simp
  moreover have "identity_of srv' a = identity_of srv a"
    using g s by (simp add: identity_of_def count_call_def SetLastAccess_def split: option.split)
  ultimately show ?thesis using s ch g by (simp add: authorized_def)
qed

lemma admit_unauthorized:
  assumes "\<not> authorized now c token srv"
  obtains r out srv' where "admit en now svc c rid h token srv = Inl (r, out, srv')"
    "subscriptionsByID srv' = subscriptionsByID srv" "length out \<le> 1" "\<forall>(ch, i, m)\<in>set out. is_refusal m"
proof (cases "admit en now svc c rid h token srv")
  case (Inl x)
  obtain r out srv' where x: "x = (r, out, srv')" by (cases x)
  then have "with_session en now svc c rid h token (\<lambda>_ s. (Panicked, [], s)) srv = (r, out, srv')" using Inl by (simp add: with_session_def)
  from with_session_unauthorized [OF assms this] Inl x show thesis by (intro that [of r out srv']) auto
next
  case (Inr y)
  with admit_authorized [of en now svc c rid h token srv] assms show thesis by (cases y) auto
qed

section \<open>The invariant of the managers\<close>

lemma session_frame_addBrowse: "session_frame s (snd (addBrowseContinuationPoint d mx s))"
proof -
  have "authenticationToken (snd (addBrowseContinuationPoint d mx s)) = authenticationToken s"
    "publishRequests (snd (addBrowseContinuationPoint d mx s)) = publishRequests s"
    by (auto simp: addBrowseContinuationPoint_def Let_def split: option.split)
  then show ?thesis by (simp add: session_frame_def session_inv_addBrowse)
qed

lemma session_frame_removeBrowse: "session_frame s (snd (removeBrowseContinuationPoint cp s))"
proof -
  have "authenticationToken (snd (removeBrowseContinuationPoint cp s)) = authenticationToken s"
    "publishRequests (snd (removeBrowseContinuationPoint cp s)) = publishRequests s"
    by (auto simp: removeBrowseContinuationPoint_def Let_def split: option.split)
  then show ?thesis by (simp add: session_frame_def session_inv_removeBrowse)
qed

lemma session_frame_browse_task: "session_frame s (snd (browse_task re m uid mx d s))"
proof (cases "browse_node re m uid d")
  case (Inr rds)
  obtain r s1 where r: "addBrowseContinuationPoint (drop (unat mx) rds) (uint mx) s = (r, s1)" by fastforce
  then have "session_frame s s1" using session_frame_addBrowse [of s "drop (unat mx) rds" "uint mx"] by simp
  with Inr r show ?thesis by (simp add: browse_task_def split: res.split)
qed (simp add: browse_task_def)

lemma session_frame_browseNext: "session_frame s (snd (browseNext release cp s))"
proof -
  have add: "session_frame s1 s2" if "addBrowseContinuationPoint d mx s1 = (r, s2)" for d mx s1 r s2
    using session_frame_addBrowse [of s1 d mx] that by simp
  obtain r s1 where r: "removeBrowseContinuationPoint (Some cp) s = (r, s1)" by fastforce
  then have f: "session_frame s s1" using session_frame_removeBrowse [of s "Some cp"] by simp
  then show ?thesis using r
    by (auto simp: browseNext_def ret_def bnd_def panic_def split: res.split option.split prod.split
        intro: session_frame_trans add)
qed

lemma run_session_tasks_frame:
  assumes "run_session_tasks f ks rs s = (rs', s')" and "\<And>k s. k < length rs \<Longrightarrow> session_frame s (snd (f k s))"
  shows "session_frame s s'"
  using assms
proof (induction ks arbitrary: rs s)
  case (Cons k ks)
  show ?case
  proof (cases "k < length rs \<and> rs ! k = None")
    case True
    obtain r s1 where f: "f k s = (r, s1)" by fastforce
    with Cons True have "session_frame s1 s'" by (intro Cons.IH [of "rs[k := Some r]"]) auto
    moreover have "session_frame s s1" using Cons.prems(2) [of k s] True f by simp
    ultimately show ?thesis by (blast intro: session_frame_trans)
  qed (use Cons in auto)
qed simp

lemma inv_reply: "server_inv srv \<Longrightarrow> server_inv (snd (snd (reply en c rid r srv)))"
  using fine_reply [of srv en c rid r] by (simp add: fine_def split: prod.splits)

lemma inv_refuse: "server_inv srv \<Longrightarrow> server_inv (snd (snd (refuse en c rid h svc a code srv)))"
  using fine_refuse [of srv en c rid h svc a code] by (simp add: fine_def split: prod.splits)

lemma finish_tasks_inv: "server_inv srv \<Longrightarrow> server_inv (snd (snd (finish_tasks en c rid resp rs srv)))"
  by (simp add: finish_tasks_def inv_reply)

lemma session_tasks_inv:
  assumes "server_inv srv" and "\<And>k s. k < length tasks \<Longrightarrow> session_frame s (snd ((tasks ! k) s))"
  shows "server_inv (snd (snd (session_tasks en c rid sched resp tasks a srv)))"
proof (cases "session_at srv a")
  case (Some s)
  obtain rs s' where r: "run_session_tasks ((!) tasks) sched (replicate (length tasks) None) s = (rs, s')" by fastforce
  have "session_frame s s'" using run_session_tasks_frame [OF r] assms(2) by simp
  then have "server_inv (put_session a s' srv)" using assms(1) Some by (blast intro: inv_put_session)
  with Some r show ?thesis by (simp add: session_tasks_def finish_tasks_inv)
qed (use assms in \<open>simp add: session_tasks_def\<close>)

lemma bounded_ops_inv:
  assumes "server_inv srv" and "server_inv (snd (snd (body srv)))"
  shows "server_inv (snd (snd (bounded_ops en c rid h svc a n mx body srv)))"
  using assms by (simp add: bounded_ops_def inv_refuse)

lemma put_result_fields [simp]:
  "fst (put_result u x) = fst x" "fst (snd (put_result u x)) = fst (snd x)" "ua_srv (snd (snd (put_result u x))) = snd (snd x)"
  "namespaceManager (snd (snd (put_result u x))) = namespaceManager u" "ua_roles (snd (snd (put_result u x))) = ua_roles u"
  "serverCapabilities (snd (snd (put_result u x))) = serverCapabilities u"
  "operationLimits (snd (snd (put_result u x))) = operationLimits u"
  by (simp_all add: put_result_def split: prod.split)

lemma lift_handler_fields [simp]:
  "fst (lift_handler f u) = fst (f (ua_srv u))" "fst (snd (lift_handler f u)) = fst (snd (f (ua_srv u)))"
  "ua_srv (snd (snd (lift_handler f u))) = snd (snd (f (ua_srv u)))"
  "namespaceManager (snd (snd (lift_handler f u))) = namespaceManager u" "ua_roles (snd (snd (lift_handler f u))) = ua_roles u"
  by (simp_all add: lift_handler_def)

lemmas node_handler_defs = handleRead_def handleBrowse_def handleBrowseNext_def handleTranslateBrowsePathsToNodeIds_def
  handleRegisterNodes_def handleUnregisterNodes_def

lemma handleWrite_inv:
  assumes "server_inv (ua_srv u)"
  shows "server_inv (ua_srv (snd (snd (handleWrite en now ts sched c rid h token wvs u))))"
  using admit_fine [OF assms, of en now "Some SvcWrite" c rid h token]
  by (auto simp: handleWrite_def fine_def Let_def inv_refuse inv_reply split: sum.split prod.split)

lemma handleUARequest_inv:
  assumes "server_inv (ua_srv u)"
  shows "server_inv (ua_srv (snd (snd (handleUARequest en ts sched c rq u))))"
  using assms
proof (cases rq)
  case (SubscriptionReq x)
  then show ?thesis using fine_handleRequest [OF assms, of en c x] by (simp add: fine_def split: prod.splits)
qed (auto simp: node_handler_defs handleWrite_inv intro!: with_session_inv bounded_ops_inv session_tasks_inv inv_reply inv_refuse
    session_frame_browse_task session_frame_browseNext)

section \<open>The address space\<close>

text \<open>A handler other than \<open>handleWrite\<close> leaves the address space alone.\<close>

lemma other_handlers_space:
  assumes "\<forall>h wvs. rq \<noteq> WriteReq h wvs"
  shows "namespaceManager (snd (snd (handleUARequest en ts sched c rq u))) = namespaceManager u"
  using assms by (cases rq) (simp_all add: node_handler_defs)

lemma handleWrite_cases:
  obtains (refused) "namespaceManager (snd (snd (handleWrite en now ts sched c rid h token wvs u))) = namespaceManager u"
  | (ran) a srv tasks m where "admit en now (Some SvcWrite) c rid h token (ua_srv u) = Inr (a, srv)"
      "run_tasks (ua_roles u) (serverCapabilities u) ts (Some (a, identity_of srv a)) sched (map Waiting wvs, namespaceManager u) = (tasks, m)"
      "namespaceManager (snd (snd (handleWrite en now ts sched c rid h token wvs u))) = m"
proof (cases "admit en now (Some SvcWrite) c rid h token (ua_srv u)")
  case (Inl x)
  then show thesis by (intro refused) (simp add: handleWrite_def)
next
  case (Inr y)
  obtain a srv where y: "y = (a, srv)" by (cases y)
  obtain tasks m where t: "run_tasks (ua_roles u) (serverCapabilities u) ts (Some (a, identity_of srv a)) sched
      (map Waiting wvs, namespaceManager u) = (tasks, m)" by fastforce
  show thesis
  proof (cases "length wvs = 0 \<or> length wvs > unat (MaxNodesPerWrite (operationLimits u))")
    case True
    with Inr y show thesis by (intro refused) (auto simp: handleWrite_def)
  next
    case False
    with Inr y t show thesis by (intro ran) (auto simp: handleWrite_def Let_def)
  qed
qed

lemma handleUARequest_space:
  assumes "space_inv (namespaceManager u)"
  shows "space_inv (namespaceManager (snd (snd (handleUARequest en ts sched c rq u))))"
proof (cases "\<exists>h wvs. rq = WriteReq h wvs")
  case True
  then obtain h wvs where rq: "rq = WriteReq h wvs" by blast
  show ?thesis
    by (rule handleWrite_cases [of en "cl_now c" ts sched "cl_conn c" "cl_rid c" h "cl_token c" wvs u])
      (use rq assms run_tasks_typed in auto)
qed (use assms in \<open>simp add: other_handlers_space\<close>)

section \<open>Who may change a node\<close>

text \<open>Writes change neither permissions nor access levels.\<close>

lemma may_write_on_variable:
  assumes "\<And>va. va_accessLevel (f va) = va_accessLevel va"
  shows "may_write re (on_variable i f m) sess wv \<longleftrightarrow> may_write re m sess wv"
proof (cases "wv_NodeID wv = i")
  case True
  show ?thesis
  proof (cases "\<exists>n va. nodes m i = Some n \<and> n_attrs n = VariableNode va")
    case var: True
    then obtain n va where "nodes m i = Some n" "n_attrs n = VariableNode va" by blast
    with True assms show ?thesis by (simp add: may_write_def on_variable_at)
  next
    case False
    then have "on_variable i f m = m" by (auto simp: on_variable_def split: option.split node_attrs.split)
    then show ?thesis by simp
  qed
qed (simp add: may_write_def on_variable_frame)

lemma may_write_perform:
  assumes "perform_write i p m = (r, m')"
  shows "may_write re m' sess wv \<longleftrightarrow> may_write re m sess wv"
  by (simp add: perform_write_state [OF assms] may_write_on_variable split: write_plan.split)

definition entitled :: "role_env \<Rightarrow> (nat \<times> identity) option \<Rightarrow> NamespaceManager \<Rightarrow> WriteValue list \<Rightarrow> NodeID option \<Rightarrow> bool" where
  "entitled re sess m0 wvs i \<longleftrightarrow> (\<exists>wv\<in>set wvs. wv_NodeID wv = i \<and> may_write re m0 sess wv)"

fun task_ok :: "role_env \<Rightarrow> (nat \<times> identity) option \<Rightarrow> NamespaceManager \<Rightarrow> WriteValue list \<Rightarrow> write_task \<Rightarrow> bool" where
  "task_ok re sess m0 wvs (Waiting wv) \<longleftrightarrow> wv \<in> set wvs"
| "task_ok re sess m0 wvs (Planned i p) \<longleftrightarrow> (\<exists>st. p = WDone st) \<or> entitled re sess m0 wvs i"
| "task_ok re sess m0 wvs (Finished _) \<longleftrightarrow> True"

definition access_ok :: "role_env \<Rightarrow> (nat \<times> identity) option \<Rightarrow> NamespaceManager \<Rightarrow> WriteValue list \<Rightarrow>
    write_task list \<times> NamespaceManager \<Rightarrow> bool" where
  "access_ok re sess m0 wvs s \<longleftrightarrow> (\<forall>t\<in>set (fst s). task_ok re sess m0 wvs t)
     \<and> (\<forall>wv. may_write re (snd s) sess wv \<longleftrightarrow> may_write re m0 sess wv)
     \<and> (\<forall>i. nodes (snd s) i = nodes m0 i \<or> entitled re sess m0 wvs i)"

lemma access_ok_put:
  assumes "access_ok re sess m0 wvs (tasks, m)" and "task_ok re sess m0 wvs t"
    and "\<And>wv. may_write re m' sess wv \<longleftrightarrow> may_write re m sess wv" and "\<And>i. nodes m' i = nodes m i \<or> entitled re sess m0 wvs i"
  shows "access_ok re sess m0 wvs (tasks[k := t], m')"
proof -
  have "x = t \<or> x \<in> set tasks" if "x \<in> set (tasks[k := t])" for x using that set_update_subset_insert [of tasks k t] by auto
  with assms(1, 2) have "\<forall>x\<in>set (tasks[k := t]). task_ok re sess m0 wvs x" by (auto simp: access_ok_def)
  moreover have "nodes m' i = nodes m0 i \<or> entitled re sess m0 wvs i" for i using assms(1) assms(4) [of i] by (auto simp: access_ok_def)
  ultimately show ?thesis using assms(1, 3) by (simp add: access_ok_def)
qed

lemma step_task_access:
  assumes "access_ok re sess m0 wvs s"
  shows "access_ok re sess m0 wvs (step_task re cap ts sess k s)"
proof -
  obtain tasks m where s: "s = (tasks, m)" by (cases s)
  note ok = assms [unfolded s]
  show ?thesis
  proof (cases "k < length tasks")
    case True
    then have mem: "tasks ! k \<in> set tasks" by simp
    show ?thesis
    proof (cases "tasks ! k")
      case (Waiting wv)
      then have wv: "wv \<in> set wvs" using ok mem by (force simp: access_ok_def)
      obtain r m1 where p: "plan_write re cap (fst (ts k)) (snd (ts k)) sess wv m = (r, m1)" by fastforce
      have n: "nodes m1 = nodes m" using plan_write_nodes [OF p] by simp
      then have may: "may_write re m1 sess = may_write re m sess" by (simp add: may_write_def [abs_def])
      have "entitled re sess m0 wvs (wv_NodeID wv) \<or> (\<exists>st. q = WDone st)" if "r = Ok q" for q
      proof (cases "\<exists>st. q = WDone st")
        case False
        with plan_write_access p that have "may_write re m sess wv" by metis
        then have "may_write re m0 sess wv" using ok by (simp add: access_ok_def)
        with wv show ?thesis by (auto simp: entitled_def)
      qed simp
      then have "access_ok re sess m0 wvs (tasks[k := t], m1)" if "t = (case r of Ok q \<Rightarrow> Planned (wv_NodeID wv) q
          | Err e \<Rightarrow> Finished (Err e) | Panic \<Rightarrow> Finished Panic | NoFuel \<Rightarrow> Finished NoFuel)" for t
        using that n may by (intro access_ok_put [OF ok]) (auto split: res.split)
      with Waiting True s p show ?thesis by (simp add: step_task_def split: res.splits)
    next
      case (Planned i p)
      then have e: "(\<exists>st. p = WDone st) \<or> entitled re sess m0 wvs i" using ok mem by (force simp: access_ok_def)
      obtain r m1 where q: "perform_write i p m = (r, m1)" by fastforce
      have "nodes m1 j = nodes m j \<or> entitled re sess m0 wvs j" for j
        using e perform_write_frame(1) [OF q, of j] perform_write_state [OF q] by (cases "j = i") auto
      then have "access_ok re sess m0 wvs (tasks[k := Finished r], m1)"
        using may_write_perform [OF q] by (intro access_ok_put [OF ok]) auto
      with Planned True s q show ?thesis by (simp add: step_task_def)
    qed (use assms s in \<open>simp add: step_task_def\<close>)
  qed (use assms s in \<open>simp add: step_task_def\<close>)
qed

lemma run_tasks_access:
  assumes "run_tasks re cap ts sess sched (map Waiting wvs, m0) = (tasks, m)" and "nodes m i \<noteq> nodes m0 i"
  shows "entitled re sess m0 wvs i"
proof -
  have "access_ok re sess m0 wvs (map Waiting wvs, m0)" by (auto simp: access_ok_def)
  then have "access_ok re sess m0 wvs (run_tasks re cap ts sess sched (map Waiting wvs, m0))"
    by (rule run_tasks_invariant) (rule step_task_access)
  with assms show ?thesis by (auto simp: access_ok_def)
qed

lemma request_node_access:
  assumes "handleUARequest en ts sched c rq u = (r, out, u')"
    and "nodes (namespaceManager u') i \<noteq> nodes (namespaceManager u) i"
  shows "\<exists>h wvs a. rq = WriteReq h wvs \<and> authorized (cl_now c) (cl_conn c) (cl_token c) (ua_srv u)
    \<and> map_of (sessionsByToken (ua_srv u)) (cl_token c) = Some a
    \<and> entitled (ua_roles u) (Some (a, identity_of (ua_srv u) a)) (namespaceManager u) wvs i"
proof -
  have u': "u' = snd (snd (handleUARequest en ts sched c rq u))" using assms(1) by simp
  then obtain h wvs where rq: "rq = WriteReq h wvs" using other_handlers_space [of rq] assms(2) by metis
  show ?thesis
  proof (rule handleWrite_cases [of en "cl_now c" ts sched "cl_conn c" "cl_rid c" h "cl_token c" wvs u])
    assume "namespaceManager (snd (snd (handleWrite en (cl_now c) ts sched (cl_conn c) (cl_rid c) h (cl_token c) wvs u))) = namespaceManager u"
    then show ?thesis using assms(2) u' rq by simp
  next
    fix a srv tasks m
    assume *: "admit en (cl_now c) (Some SvcWrite) (cl_conn c) (cl_rid c) h (cl_token c) (ua_srv u) = Inr (a, srv)"
      "run_tasks (ua_roles u) (serverCapabilities u) ts (Some (a, identity_of srv a)) sched (map Waiting wvs, namespaceManager u) = (tasks, m)"
      "namespaceManager (snd (snd (handleWrite en (cl_now c) ts sched (cl_conn c) (cl_rid c) h (cl_token c) wvs u))) = m"
    then have "nodes m i \<noteq> nodes (namespaceManager u) i" using assms(2) u' rq by simp
    from run_tasks_access [OF *(2) this] admit_authorized [OF *(1)] rq show ?thesis by auto
  qed
qed

section \<open>Refused requests\<close>

lemma handleUARequest_unauthorized:
  assumes "\<not> authorized (cl_now c) (cl_conn c) (cl_token c) (ua_srv u)" and "handleUARequest en ts sched c rq u = (r, out, u')"
  shows "namespaceManager u' = namespaceManager u \<and> subscriptionsByID (ua_srv u') = subscriptionsByID (ua_srv u)
    \<and> length out \<le> 1 \<and> (\<forall>(ch, i, m)\<in>set out. is_refusal m)"
proof -
  have w: "subscriptionsByID (snd (snd x)) = subscriptionsByID (ua_srv u) \<and> length (fst (snd x)) \<le> 1 \<and> (\<forall>(ch, i, m)\<in>set (fst (snd x)). is_refusal m)"
    if x: "x = with_session en (cl_now c) svc (cl_conn c) (cl_rid c) h (cl_token c) body (ua_srv u)" for x svc h body
  proof -
    obtain r0 o0 s0 where e: "x = (r0, o0, s0)" by (cases x)
    from with_session_unauthorized [OF assms(1) x [symmetric, unfolded e]] e show ?thesis by simp
  qed
  have u': "u' = snd (snd (handleUARequest en ts sched c rq u))" "out = fst (snd (handleUARequest en ts sched c rq u))"
    using assms(2) by simp_all
  show ?thesis
  proof (cases rq)
    case (WriteReq h wvs)
    obtain r0 out0 srv0 where "admit en (cl_now c) (Some SvcWrite) (cl_conn c) (cl_rid c) h (cl_token c) (ua_srv u) = Inl (r0, out0, srv0)"
      "subscriptionsByID srv0 = subscriptionsByID (ua_srv u)" "length out0 \<le> 1" "\<forall>(ch, i, m)\<in>set out0. is_refusal m"
      using assms(1) by (rule admit_unauthorized)
    with u' WriteReq show ?thesis by (simp add: handleWrite_def)
  next
    case (SubscriptionReq x)
    then show ?thesis using handleRequest_unauthorized [OF assms(1), of en x] u' by (cases "handleRequest en c x (ua_srv u)") auto
  qed (use u' w in \<open>simp_all add: node_handler_defs\<close>)
qed

section \<open>Writes are answered\<close>

lemma admit_of_authorized:
  assumes "authorized now c token srv"
  obtains a srv' where "admit en now svc c rid h token srv = Inr (a, srv')" "map_of (sessionsByToken srv) token = Some a"
    "identity_of srv' a = identity_of srv a"
proof -
  from assms obtain a s where s: "map_of (sessionsByToken srv) token = Some a" "session_at srv a = Some s"
    "\<not> Session_IsExpired now s" "channelId s \<noteq> 0" "channelId s = cn_id c" "\<not> cn_discoveryOnly c"
    by (auto simp: authorized_def split: option.splits)
  let ?srv1 = "put_session a (SetLastAccess now s) srv"
  have "SessionManager_Get now token srv = (Some a, ?srv1)" using s by (simp add: SessionManager_Get_def)
  moreover have "channel_of ?srv1 a = cn_id c" using s by (simp add: channel_of_def SetLastAccess_def)
  ultimately have "admit en now svc c rid h token srv = Inr (a, count_call svc a ?srv1)" using s by (simp add: admit_def Let_def)
  from that [OF this s(1)] admit_authorized [OF this] show thesis by blast
qed

text \<open>The data types of all variables resolve, and every variable has a historian to write to.\<close>

definition answerable :: "NamespaceManager \<Rightarrow> bool" where
  "answerable m \<longleftrightarrow> cache_ok m \<and> (\<forall>i n va. nodes m i = Some n \<and> n_attrs n = VariableNode va \<longrightarrow>
     variant_type_loop m (va_dataType va) \<noteq> None \<and> va_historian va)"

lemma answerable_on_variable:
  assumes "answerable m" and "\<And>va. va_dataType (f va) = va_dataType va \<and> va_historian (f va) = va_historian va"
  shows "answerable (on_variable i f m)"
  unfolding answerable_def
proof (intro conjI allI impI; (elim conjE)?)
  show "cache_ok (on_variable i f m)" using assms(1) by (simp add: answerable_def cache_ok_on_variable)
  fix j n va
  assume *: "nodes (on_variable i f m) j = Some n" "n_attrs n = VariableNode va"
  then obtain n0 va0 where "nodes m j = Some n0" "n_attrs n0 = VariableNode va0" "va_dataType va0 = va_dataType va" "va_historian va0 = va_historian va"
    using assms(2) by (cases "j = i") (auto simp: on_variable_frame, auto simp: on_variable_def split: option.splits node_attrs.splits if_splits)
  then show "variant_type_loop (on_variable i f m) (va_dataType va) \<noteq> None" "va_historian va"
    using assms(1) unfolding answerable_def variant_type_on_variable by metis+
qed

lemma answerable_plan:
  assumes "plan_write re cap t1 t2 sess wv m = (r, m')" and "answerable m"
  shows "answerable m'"
  using assms(2) plan_write_cache [OF assms(1)] plan_write_loop [OF assms(1)] plan_write_nodes [OF assms(1)] by (simp add: answerable_def)

lemma answerable_perform:
  assumes "perform_write i p m = (r, m')" and "answerable m"
  shows "answerable m' \<and> (\<exists>st. r = Ok st)"
proof -
  have "answerable m'" using assms(2) by (auto simp: perform_write_state [OF assms(1)] answerable_on_variable split: write_plan.split)
  moreover have "\<exists>st. r = Ok st" using assms
    by (auto simp: perform_write_def SetValue_def Let_def answerable_def split: write_plan.splits option.splits node_attrs.splits)
  ultimately show ?thesis ..
qed

text \<open>A write of a whole value is always planned.\<close>

lemma plan_write_whole:
  assumes "answerable m" and "wv_IndexRange wv = []"
  shows "\<exists>p m'. plan_write re cap t1 t2 sess wv m = (Ok p, m')"
proof -
  have "\<exists>p m'. plan_value re cap t1 t2 a uid wv n va m = (Ok p, m')"
    if n: "nodes m (wv_NodeID wv) = Some n" "n_attrs n = VariableNode va" for a uid n va
  proof -
    have "variant_type_loop m (va_dataType va) \<noteq> None" "cache_ok m" using assms(1) n by (auto simp: answerable_def)
    then have "FindVariantType (va_dataType va) m \<noteq> None" using FindVariantType_result [of m "va_dataType va"] by (metis map_option_is_None)
    then obtain ty m1 where "FindVariantType (va_dataType va) m = Some (ty, m1)" by auto
    then show ?thesis using assms(2) by (auto simp: plan_value_def Let_def writeRange_def split: option.split)
  qed
  then show ?thesis
    by (auto simp: plan_write_def FindNode_def split: option.split prod.split node_attrs.split goval.split scalar.split)
qed

definition calm :: "write_task list \<times> NamespaceManager \<Rightarrow> bool" where
  "calm s \<longleftrightarrow> answerable (snd s) \<and> (\<forall>t\<in>set (fst s). case t of
       Waiting wv \<Rightarrow> wv_IndexRange wv = [] | Planned _ _ \<Rightarrow> True | Finished r \<Rightarrow> \<exists>st. r = Ok st)"

lemma calm_put:
  assumes "calm (tasks, m)" and "answerable m'"
    and "case t of Waiting wv \<Rightarrow> wv_IndexRange wv = [] | Planned _ _ \<Rightarrow> True | Finished r \<Rightarrow> \<exists>st. r = Ok st"
  shows "calm (tasks[k := t], m')"
proof -
  have "x = t \<or> x \<in> set tasks" if "x \<in> set (tasks[k := t])" for x using that set_update_subset_insert [of tasks k t] by auto
  with assms show ?thesis unfolding calm_def by auto
qed

lemma step_task_calm:
  assumes "calm s"
  shows "calm (step_task re cap ts sess k s)"
proof -
  obtain tasks m where s: "s = (tasks, m)" by (cases s)
  note ok = assms [unfolded s]
  show ?thesis
  proof (cases "k < length tasks")
    case True
    then have mem: "tasks ! k \<in> set tasks" by simp
    show ?thesis
    proof (cases "tasks ! k")
      case (Waiting wv)
      then have "answerable m" "wv_IndexRange wv = []" using ok mem by (force simp: calm_def)+
      then obtain p m1 where p: "plan_write re cap (fst (ts k)) (snd (ts k)) sess wv m = (Ok p, m1)" using plan_write_whole by blast
      with answerable_plan [OF p] \<open>answerable m\<close> calm_put [OF ok] Waiting True s show ?thesis by (simp add: step_task_def)
    next
      case (Planned i p)
      obtain r m1 where q: "perform_write i p m = (r, m1)" by fastforce
      have "answerable m" using ok by (simp add: calm_def)
      with answerable_perform [OF q] have "calm (tasks[k := Finished r], m1)" by (intro calm_put [OF ok]) auto
      with q Planned True s show ?thesis by (simp add: step_task_def)
    qed (use assms s in \<open>simp add: step_task_def\<close>)
  qed (use assms s in \<open>simp add: step_task_def\<close>)
qed

lemma run_tasks_calm:
  assumes "answerable m" and "\<forall>wv\<in>set wvs. wv_IndexRange wv = []" and "\<forall>k<length wvs. 2 \<le> count_list sched k"
    and "run_tasks re cap ts sess sched (map Waiting wvs, m) = (tasks, m')"
  obtains sts where "tasks = map (\<lambda>st. Finished (Ok st)) sts" "length sts = length wvs"
proof -
  have "calm (map Waiting wvs, m)" using assms(1, 2) by (auto simp: calm_def)
  then have "calm (run_tasks re cap ts sess sched (map Waiting wvs, m))" by (rule run_tasks_invariant) (rule step_task_calm)
  then have c: "calm (tasks, m')" by (simp add: assms(4))
  have f: "list_all finished tasks" using run_tasks_finished [OF assms(3), of re cap ts sess m] assms(4) by simp
  have l: "length tasks = length wvs"
    using run_tasks_invariant [where P = "\<lambda>s. length (fst s) = length wvs" and s = "(map Waiting wvs, m)"] assms(4) by (metis fst_conv length_map length_step_task)
  have "\<exists>st. t = Finished (Ok st)" if "t \<in> set tasks" for t
  proof -
    have "finished t" "case t of Waiting wv \<Rightarrow> wv_IndexRange wv = [] | Planned _ _ \<Rightarrow> True | Finished r \<Rightarrow> \<exists>st. r = Ok st"
      using that c f unfolding calm_def list_all_iff by auto
    then show ?thesis by (cases t) auto
  qed
  then obtain g where "\<forall>t\<in>set tasks. t = Finished (Ok (g t))" by metis
  then have "tasks = map (\<lambda>st. Finished (Ok st)) (map g tasks)" by (simp add: map_idI)
  with l show thesis by (intro that [of "map g tasks"]) simp_all
qed

lemma handleWrite_answers:
  assumes auth: "authorized now c token (ua_srv u)" and lim: "wvs \<noteq> []" "length wvs \<le> unat (MaxNodesPerWrite (operationLimits u))"
    and ok: "answerable (namespaceManager u)" "\<forall>wv\<in>set wvs. wv_IndexRange wv = []" "\<forall>k<length wvs. 2 \<le> count_list sched k"
    and wr: "\<And>r. env_write en (cn_ch c) rid r = None"
  obtains sts u' where "handleWrite en now ts sched c rid h token wvs u = (Returned None, [(cn_ch c, rid, WriteResponse h sts)], u')"
    "length sts = length wvs"
proof -
  obtain a srv where a: "admit en now (Some SvcWrite) c rid h token (ua_srv u) = Inr (a, srv)" using auth by (rule admit_of_authorized)
  obtain tasks m where t: "run_tasks (ua_roles u) (serverCapabilities u) ts (Some (a, identity_of srv a)) sched
      (map Waiting wvs, namespaceManager u) = (tasks, m)" by fastforce
  obtain sts where sts: "tasks = map (\<lambda>st. Finished (Ok st)) sts" "length sts = length wvs" using run_tasks_calm [OF ok t] .
  have "\<not> list_ex (\<lambda>r. r = Some Panic) (map task_result tasks)" "\<not> list_ex (\<lambda>r. case r of Some (Ok _) \<Rightarrow> False | _ \<Rightarrow> True) (map task_result tasks)"
    "map (\<lambda>r. case r of Some (Ok st) \<Rightarrow> st | _ \<Rightarrow> 0) (map task_result tasks) = sts"
    by (auto simp: sts(1) list_ex_iff map_idI)
  with a t lim wr sts(2) show thesis
    by (intro that [of sts "u\<lparr>namespaceManager := m, ua_srv := srv\<rparr>"]) (auto simp: handleWrite_def Let_def put_result_def reply_def)
qed

text \<open>
  A nil value written with an index range that fits the old value: the type assertion in
  \<open>writeRange\<close> fails in a task of the pool, and the server with it.
\<close>

lemma plan_value_nil_panics:
  assumes "may_write re m (Some (a, uid)) wv" "wv_AttributeID wv = 13" "Value (wv_Value wv) = VNil"
    and n: "nodes m (wv_NodeID wv) = Some n" "n_attrs n = VariableNode va" "va_writeValueHandler va = None"
    and ty: "FindVariantType (va_dataType va) m = Some (ty, m1)"
    and r: "writeRange t1 t2 (va_value va) (wv_Value wv) (wv_IndexRange wv) = Panic"
  shows "plan_write re cap t1 t2 (Some (a, uid)) wv m = (Panic, m1)"
proof -
  have p: "va_accessLevel va AND AccessLevelsCurrentWrite \<noteq> 0" "permitted re (n_rolePermissions n) uid PermissionTypeWrite"
    "permitted re (n_rolePermissions n) uid PermissionTypeBrowse" using assms(1, 2) n by (auto simp: may_write_def)
  have l: "UserAccessLevel re (n_rolePermissions n) (va_accessLevel va) uid AND AccessLevelsCurrentWrite \<noteq> 0"
    unfolding user_can_write using p by simp
  have same: "(wv_Value wv)\<lparr>Value := VNil\<rparr> = wv_Value wv" using assms(3) by (cases "wv_Value wv") simp
  have "plan_value re cap t1 t2 a uid wv n va m = (Panic, m1)" using p l n ty r assms(3)
    by (simp add: plan_value_def convert_bytes_def check_type_def same)
  then show ?thesis using n p assms(2) by (simp add: plan_write_def FindNode_def node_permitted)
qed

lemma handleWrite_nil_panics:
  assumes auth: "authorized now c token (ua_srv u)" "map_of (sessionsByToken (ua_srv u)) token = Some a"
    and lim: "0 < MaxNodesPerWrite (operationLimits u)"
    and wv: "may_write (ua_roles u) (namespaceManager u) (Some (a, identity_of (ua_srv u) a)) wv" "wv_AttributeID wv = 13" "Value (wv_Value wv) = VNil"
    and n: "nodes (namespaceManager u) (wv_NodeID wv) = Some n" "n_attrs n = VariableNode va" "va_writeValueHandler va = None"
    and ty: "FindVariantType (va_dataType va) (namespaceManager u) \<noteq> None"
    and r: "writeRange (fst (ts 0)) (snd (ts 0)) (va_value va) (wv_Value wv) (wv_IndexRange wv) = Panic"
  shows "fst (handleWrite en now ts [0] c rid h token [wv] u) = Panicked"
proof -
  obtain srv where ad: "admit en now (Some SvcWrite) c rid h token (ua_srv u) = Inr (a, srv)" "identity_of srv a = identity_of (ua_srv u) a"
    using admit_of_authorized [OF auth(1), of en "Some SvcWrite" rid h] auth(2) by (metis option.inject)
  obtain t' m1 where "FindVariantType (va_dataType va) (namespaceManager u) = Some (t', m1)" using ty by auto
  from plan_value_nil_panics [OF wv n this r, of "serverCapabilities u"]
  have p: "plan_write (ua_roles u) (serverCapabilities u) (fst (ts 0)) (snd (ts 0)) (Some (a, identity_of (ua_srv u) a)) wv (namespaceManager u) = (Panic, m1)" .
  have "1 \<le> unat (MaxNodesPerWrite (operationLimits u))" using lim by (simp add: Suc_le_eq word_gt_0 unat_gt_0)
  then show ?thesis using ad p by (simp add: handleWrite_def run_tasks_def step_task_def)
qed

section \<open>Reachable servers\<close>

inductive ua_reach :: "UAServer \<Rightarrow> UAServer \<Rightarrow> bool" for u0 where
  start: "ua_reach u0 u0"
| request: "ua_reach u0 u \<Longrightarrow> handleUARequest en ts sched c rq u = (r, out, u') \<Longrightarrow> ua_reach u0 u'"
| tick: "ua_reach u0 u \<Longrightarrow> server_tick en tn now ord1 ord2 i (ua_srv u) = (Returned e, out, srv') \<Longrightarrow> ua_reach u0 (u\<lparr>ua_srv := srv'\<rparr>)"
| sessions: "ua_reach u0 u \<Longrightarrow> ua_reach u0 (u\<lparr>ua_srv := checkForExpiredSessions now (ua_srv u)\<rparr>)"
| subs: "ua_reach u0 u \<Longrightarrow> checkForExpiredSubscriptions (ua_srv u) = (r, srv') \<Longrightarrow> ua_reach u0 (u\<lparr>ua_srv := srv'\<rparr>)"

lemma ua_reach_inv:
  assumes "ua_reach u0 u" and "server_inv (ua_srv u0)" and "space_inv (namespaceManager u0)"
  shows "server_inv (ua_srv u) \<and> space_inv (namespaceManager u)"
  using assms
proof (induction rule: ua_reach.induct)
  case (request u en ts sched c rq r out u')
  then show ?case using handleUARequest_inv [of u en ts sched c rq] handleUARequest_space [of u en ts sched c rq] by simp
next
  case (tick u en tn now ord1 ord2 i e out srv')
  then show ?case using tick_inv by fastforce
next
  case (sessions u now)
  then show ?case by (simp add: checkForExpiredSessions_inv)
next
  case (subs u r srv')
  then show ?case using checkForExpiredSubscriptions_inv by fastforce
qed simp


end
