(* ===== verification/Node_Examples.thy ===== *)
theory Node_Examples
  imports Server_Examples Node_Service_Safety
begin

text \<open>
  A server with one session, of a user with all permissions, and a small address space:
  the object \<open>Plant\<close> with the array \<open>Levels\<close>, whose data type is a subtype of \<open>Int32\<close>.
\<close>

section \<open>Roles and nodes\<close>

definition roleOp :: "NodeID option" where "roleOp = num_id 15680"
definition ruleAll :: IdentityMappingRule where
  "ruleAll = \<lparr>rule_NodeID = roleOp, Identities = [(CriteriaAuthenticatedUser, [])], ApplicationsExclude = True, Applications = [],
     EndpointsExclude = True, Endpoints = []\<rparr>"
definition reOp :: role_env where
  "reOp = \<lparr>re_rules = [ruleAll], re_thumb = (\<lambda>_. []), re_rolePermissions = [\<lparr>RoleID = roleOp, Permissions = 0xFFFF\<rparr>]\<rparr>"
definition userOp :: identity where "userOp = UserNameIdentity ''op'' ''pw''"

definition plantID :: "NodeID option" where "plantID = Some (NodeIDNumeric 1 1)"
definition levelsID :: "NodeID option" where "levelsID = Some (NodeIDNumeric 1 2)"
definition levelType :: "NodeID option" where "levelType = Some (NodeIDNumeric 1 3)"

definition q_name :: "string \<Rightarrow> QualifiedName" where "q_name s = \<lparr>qn_NamespaceIndex = 1, qn_Name = s\<rparr>"
definition no_text :: LocalizedText where "no_text = \<lparr>lt_Text = [], lt_Locale = []\<rparr>"

definition ref_to :: "NodeID option \<Rightarrow> bool \<Rightarrow> NodeID option \<Rightarrow> Reference" where
  "ref_to ty back i = \<lparr>ReferenceTypeID = ty, IsInverse = back, TargetID = NewExpandedNodeID i\<rparr>"

definition ints :: "int list \<Rightarrow> goval" where
  "ints xs = VSlice (TScalar KInt32) (Some (map (\<lambda>x. VScalar (SInt32 (word_of_int x))) xs))"

definition levelsVar :: variable_attrs where
  "levelsVar = \<lparr>va_value = NewDataValue (ints [1, 2, 3]) Good zeroTime zeroTime, va_dataType = levelType, va_valueRank = 1,
     va_arrayDimensions = None, va_accessLevel = 3, va_minimumSamplingInterval = 0, va_historizing = False, va_historian = True,
     va_readValueHandler = None, va_writeValueHandler = None\<rparr>"

definition levels :: Node where
  "levels = \<lparr>n_nodeId = levelsID, n_browseName = q_name ''Levels'', n_displayName = no_text, n_description = no_text,
     n_rolePermissions = None, n_references = [ref_to ReferenceTypeIDHasComponent True plantID], n_attrs = VariableNode levelsVar\<rparr>"
definition plant :: Node where
  "plant = \<lparr>n_nodeId = plantID, n_browseName = q_name ''Plant'', n_displayName = no_text, n_description = no_text,
     n_rolePermissions = None, n_references = [ref_to ReferenceTypeIDHasComponent False levelsID], n_attrs = ObjectNode 0\<rparr>"
definition level :: Node where
  "level = \<lparr>n_nodeId = levelType, n_browseName = q_name ''Level'', n_displayName = no_text, n_description = no_text,
     n_rolePermissions = None, n_references = [ref_to ReferenceTypeIDHasSubtype True (num_id 6)], n_attrs = DataTypeNode False VNil\<rparr>"

definition space0 :: NamespaceManager where
  "space0 = \<lparr>namespaces = [''http://opcfoundation.org/UA/'', ''urn:plant''],
     nodes = [plantID \<mapsto> plant, levelsID \<mapsto> levels, levelType \<mapsto> level], variantTypeMap = Map.empty\<rparr>"

lemmas id_defs = plantID_def levelsID_def levelType_def roleOp_def

lemma space0_nodes:
  "nodes space0 plantID = Some plant" "nodes space0 levelsID = Some levels" "nodes space0 levelType = Some level"
  by (simp_all add: space0_def id_defs)

lemma node_fields [simp]:
  "n_attrs levels = VariableNode levelsVar" "n_attrs plant = ObjectNode 0" "n_attrs level = DataTypeNode False VNil"
  "n_rolePermissions levels = None" "n_rolePermissions plant = None" "n_rolePermissions level = None"
  "n_references plant = [ref_to ReferenceTypeIDHasComponent False levelsID]"
  "n_references levels = [ref_to ReferenceTypeIDHasComponent True plantID]"
  "n_references level = [ref_to ReferenceTypeIDHasSubtype True (num_id 6)]"
  "n_nodeId levels = levelsID" "n_nodeId plant = plantID" "n_nodeId level = levelType"
  "n_browseName levels = q_name ''Levels''" "n_browseName plant = q_name ''Plant''"
  by (simp_all add: levels_def plant_def level_def)

lemma var_fields [simp]:
  "va_value levelsVar = NewDataValue (ints [1, 2, 3]) Good zeroTime zeroTime" "va_dataType levelsVar = levelType" "va_valueRank levelsVar = 1"
  "va_accessLevel levelsVar = 3" "\<not> va_historizing levelsVar" "va_historian levelsVar"
  "va_readValueHandler levelsVar = None" "va_writeValueHandler levelsVar = None"
  by (simp_all add: levelsVar_def)

lemma space0_targets: "target_id space0 (ref_to ty back (Some (NodeIDNumeric ns n))) = Some (NodeIDNumeric ns n)"
  by (simp add: target_id_def ref_to_def ToNodeID_def NewExpandedNodeID_def)

lemma op_permitted: "p AND 0xFFFF \<noteq> 0 \<Longrightarrow> permitted reOp None userOp p"
  by (auto simp: permitted_def user_roles_def GetRoles_def reOp_def ruleAll_def userOp_def applies_def criterion_met_def
      node_permissions_def roleOp_def and.commute)

lemma op_permissions:
  "permitted reOp None userOp PermissionTypeBrowse" "permitted reOp None userOp PermissionTypeRead"
  "permitted reOp None userOp PermissionTypeWrite"
  by (rule op_permitted, simp add: PermissionTypeBrowse_def PermissionTypeRead_def PermissionTypeWrite_def)+

section \<open>Types\<close>

lemma level_super: "FindSuperType space0 levelType = num_id 6"
  by (simp add: FindSuperType_def super_ref_def space0_nodes space0_targets) (simp add: ref_to_def)

lemma level_variant: "variant_type_loop space0 levelType = Some 6"
proof -
  have "builtin_type levelType = None" by (simp add: builtin_type_def levelType_def)
  then show ?thesis by (simp add: variant_type_loop.simps [of space0 levelType] level_super)
      (simp add: variant_type_loop.simps builtin_type_def)
qed

lemma level_find: "FindVariantType levelType space0 = Some (6, space0\<lparr>variantTypeMap := [levelType \<mapsto> 6]\<rparr>)"
proof -
  have "variantTypeMap space0 = Map.empty" by (simp add: space0_def)
  then show ?thesis by (simp add: FindVariantType_def level_variant)
qed

lemma space0_variables: "nodes space0 i = Some n \<Longrightarrow> n_attrs n = VariableNode va \<Longrightarrow> i = levelsID \<and> n = levels \<and> va = levelsVar"
  by (auto simp: space0_def split: if_splits)

lemma space0_inv: "space_inv space0" "answerable space0"
proof -
  have c: "cache_ok space0" by (simp add: cache_ok_def space0_def)
  have "value_type 6 1 (ints [1, 2, 3])" by (simp add: value_type_def ints_def array_rank_def ValueRankOneDimension_def)
  then have "typed space0" unfolding typed_def
    by (auto dest!: space0_variables simp: level_variant NewDataValue_def)
  moreover have "handlers_typed space0" unfolding handlers_typed_def by (auto dest!: space0_variables)
  ultimately show "space_inv space0" using c by (simp add: space_inv_def)
  show "answerable space0" using c by (auto simp: answerable_def level_variant dest!: space0_variables)
qed

section \<open>The server\<close>

definition srvU :: "ReferenceDescription Server" where
  "srvU = on_session 0 (\<lambda>s. SetSecureChannelId 1 (SetUserIdentity userOp s))
     (snd (open_session 0 (NewSession 0 (Some (NodeIDNumeric 1 1)) ''a'' tokA [] (Fin 60000) [] 2) (empty_server 10 10 True 0)))"

definition uaServer :: UAServer where
  "uaServer = \<lparr>ua_srv = srvU, namespaceManager = space0,
     serverCapabilities = \<lparr>MaxStringLength = 100, MaxByteStringLength = 100, MaxArrayLength = 100\<rparr>,
     operationLimits = \<lparr>MaxNodesPerRead = 10, MaxNodesPerWrite = 10, MaxNodesPerBrowse = 10,
       MaxNodesPerTranslateBrowsePathsToNodeIds = 10, MaxNodesPerRegisterNodes = 10\<rparr>,
     ua_roles = reOp\<rparr>"

lemma uaServer_fields [simp]:
  "ua_srv uaServer = srvU" "namespaceManager uaServer = space0" "ua_roles uaServer = reOp"
  "MaxNodesPerWrite (operationLimits uaServer) = 10"
  by (simp_all add: uaServer_def)

lemmas srvU_simps = srvU_def open_session_def SessionManager_Add_def SessionManager_Len_def put_session_def NewSession_def Let_def
  empty_server_def session_at_def on_session_def SetSecureChannelId_def SetUserIdentity_def userOp_def

lemma srvU_session: "\<exists>s. session_at srvU 0 = Some s \<and> channelId s = 1 \<and> userIdentity s = userOp \<and> \<not> Session_IsExpired 0 s"
  "map_of (sessionsByToken srvU) tokA = Some 0"
  by (simp_all add: srvU_simps Session_IsExpired_def rat_trunc_def quot_int_def)

lemma srvU_authorized: "authorized 0 connA tokA srvU" "identity_of srvU 0 = userOp" "\<not> authorized 0 connB tokA srvU"
  using srvU_session by (auto simp: authorized_def connA_def connB_def identity_of_def)

lemma srvU_inv: "server_inv srvU"
proof -
  have "server_reach (snd (open_session 0 (NewSession 0 (Some (NodeIDNumeric 1 1)) ''a'' tokA [] (Fin 60000) [] 2)
      (empty_server 10 10 True 0 :: ReferenceDescription Server)))"
    by (rule reach_create [OF server_reach.start]) (simp_all add: empty_server_def session_at_def)
  then have "server_inv (snd (open_session 0 (NewSession 0 (Some (NodeIDNumeric 1 1)) ''a'' tokA [] (Fin 60000) [] 2)
      (empty_server 10 10 True 0 :: ReferenceDescription Server)))" by (rule server_reach_inv)
  moreover have "session_frame s (SetSecureChannelId 1 (SetUserIdentity userOp s))" for s :: "ReferenceDescription Session"
    by (simp add: session_frame_def session_inv_defs SetSecureChannelId_def SetUserIdentity_def userOp_def)
  ultimately show ?thesis unfolding srvU_def by (rule inv_on_session)
qed

section \<open>Writes\<close>

definition write_levels :: "string \<Rightarrow> goval \<Rightarrow> WriteValue" where
  "write_levels r v = \<lparr>wv_NodeID = levelsID, wv_AttributeID = 13, wv_IndexRange = r, wv_Value = NewDataValue v Good zeroTime zeroTime\<rparr>"

lemma write_levels_fields [simp]:
  "wv_NodeID (write_levels r v) = levelsID" "wv_AttributeID (write_levels r v) = 13" "wv_IndexRange (write_levels r v) = r"
  "wv_Value (write_levels r v) = NewDataValue v Good zeroTime zeroTime"
  by (simp_all add: write_levels_def)

lemma op_may_write: "may_write reOp space0 (Some (0, userOp)) (write_levels r v)"
  by (simp add: may_write_def space0_nodes op_permissions AccessLevelsCurrentWrite_def)

lemma op_can_read: "can_read reOp space0 userOp levelsID"
  by (simp add: can_read_def space0_nodes op_permissions AccessLevelsCurrentRead_def)

definition capU :: capabilities where "capU = \<lparr>MaxStringLength = 100, MaxByteStringLength = 100, MaxArrayLength = 100\<rparr>"

text \<open>A write of an array is planned, its value checked against \<open>Int32\<close>.\<close>

lemma plan_ints:
  assumes "length xs \<le> 100" and "writeRange t1 t2 (NewDataValue (ints [1, 2, 3]) Good zeroTime zeroTime)
      (NewDataValue (ints xs) Good zeroTime zeroTime) r = Ok (v, Good)"
    and m: "nodes m levelsID = Some levels" "FindVariantType levelType m = Some (6, m')"
  shows "plan_write reOp capU t1 t2 (Some (0, userOp)) (write_levels r (ints xs)) m = (Ok (WSetValue v), m')"
proof -
  have l: "UserAccessLevel reOp None 3 userOp AND AccessLevelsCurrentWrite \<noteq> 0"
    unfolding user_can_write by (simp add: op_permissions AccessLevelsCurrentWrite_def)
  have t: "convert_bytes 6 1 (ints xs) = ints xs" "check_type capU 6 1 (ints xs) = Good"
    using assms(1) by (simp_all add: convert_bytes_def ints_def check_type_def check_slice_def elems_def capU_def array_rank_def ValueRankOneDimension_def)
  have w: "(NewDataValue (ints xs) Good zeroTime zeroTime)\<lparr>Value := ints xs\<rparr> = NewDataValue (ints xs) Good zeroTime zeroTime"
    by (simp add: NewDataValue_def)
  have "plan_value reOp capU t1 t2 0 userOp (write_levels r (ints xs)) levels levelsVar m = (Ok (WSetValue v), m')"
    using l t w m assms(2) by (simp add: plan_value_def AccessLevelsCurrentWrite_def) (simp add: NewDataValue_def plan_of_def)
  then show ?thesis using m by (simp add: plan_write_def FindNode_def node_permitted op_permissions)
qed

section \<open>Ranges\<close>

lemma range_texts: "''0:1'' = show_nat 0 @ CHR '':'' # show_nat 1" "''1:2'' = show_nat 1 @ CHR '':'' # show_nat 2"
  by code_simp+

lemma range_writes:
  "writeRange zeroTime zeroTime (NewDataValue (ints [1, 2, 3]) Good zeroTime zeroTime) (NewDataValue (ints [7, 8]) Good zeroTime zeroTime) ''0:1''
     = Ok (NewDataValue (ints [7, 8, 3]) Good zeroTime zeroTime, Good)"
  "writeRange zeroTime zeroTime (NewDataValue (ints [1, 2, 3]) Good zeroTime zeroTime) (NewDataValue (ints [5, 6]) Good zeroTime zeroTime) ''1:2''
     = Ok (NewDataValue (ints [1, 5, 6]) Good zeroTime zeroTime, Good)"
  using writeRange_slice [of "TScalar KInt32" 0 1 "[VScalar (SInt32 1), VScalar (SInt32 2), VScalar (SInt32 3)]" "[VScalar (SInt32 7), VScalar (SInt32 8)]"
      zeroTime zeroTime "NewDataValue VNil Good zeroTime zeroTime" "NewDataValue VNil Good zeroTime zeroTime"]
    writeRange_slice [of "TScalar KInt32" 1 2 "[VScalar (SInt32 1), VScalar (SInt32 2), VScalar (SInt32 3)]" "[VScalar (SInt32 5), VScalar (SInt32 6)]"
      zeroTime zeroTime "NewDataValue VNil Good zeroTime zeroTime" "NewDataValue VNil Good zeroTime zeroTime"]
  unfolding range_texts by (simp_all add: ints_def NewDataValue_def)

lemma range_read:
  "\<not> IsBad (StatusCode_of (readRange ((NewDataValue (ints [1, 2, 3]) Good zeroTime zeroTime)\<lparr>StatusCode_of := Good\<rparr>) ''0:1''))"
  using readRange_slice [of "TScalar KInt32" 0 1 "[VScalar (SInt32 1), VScalar (SInt32 2), VScalar (SInt32 3)]" "NewDataValue VNil Good zeroTime zeroTime"]
  unfolding range_texts by (simp add: ints_def NewDataValue_def)

section \<open>A write that is performed\<close>

lemma write_runs:
  "\<exists>m. run_tasks reOp capU (\<lambda>_. (zeroTime, zeroTime)) (Some (0, userOp)) [0, 0] ([Waiting (write_levels [] (ints [4, 5]))], space0)
      = ([Finished (Ok Good)], m)
    \<and> nodes m levelsID = Some (levels\<lparr>n_attrs := VariableNode (levelsVar\<lparr>va_value := NewDataValue (ints [4, 5]) Good zeroTime zeroTime\<rparr>)\<rparr>)"
proof -
  let ?v = "NewDataValue (ints [4, 5]) Good zeroTime zeroTime" and ?m = "space0\<lparr>variantTypeMap := [levelType \<mapsto> 6]\<rparr>"
  have p: "plan_write reOp capU zeroTime zeroTime (Some (0, userOp)) (write_levels [] (ints [4, 5])) space0 = (Ok (WSetValue ?v), ?m)"
    by (rule plan_ints) (simp_all add: writeRange_def NewDataValue_def space0_nodes level_find)
  have q: "perform_write levelsID (WSetValue ?v) ?m = (Ok Good, on_variable levelsID (\<lambda>va. va\<lparr>va_value := ?v\<rparr>) ?m)"
    using space0_nodes(2) by (simp add: perform_write_def SetValue_def Let_def)
  have "nodes (on_variable levelsID (\<lambda>va. va\<lparr>va_value := ?v\<rparr>) ?m) levelsID = Some (levels\<lparr>n_attrs := VariableNode (levelsVar\<lparr>va_value := ?v\<rparr>)\<rparr>)"
    using space0_nodes(2) by (simp add: on_variable_at)
  with p q show ?thesis by (simp add: run_tasks_def step_task_def)
qed

definition write_45 :: "outcome \<times> sent \<times> UAServer" where
  "write_45 = handleUARequest env0 (\<lambda>_. (zeroTime, zeroTime)) [0, 0] callA (WriteReq 1 [write_levels [] (ints [4, 5])]) uaServer"

lemma write_45_changes: "nodes (namespaceManager (snd (snd write_45))) levelsID \<noteq> nodes space0 levelsID"
proof -
  obtain srv where a: "admit env0 0 (Some SvcWrite) connA 1 1 tokA srvU = Inr (0, srv)" "identity_of srv 0 = userOp"
    using admit_of_authorized [OF srvU_authorized(1), of env0 "Some SvcWrite" 1 1] srvU_session(2) srvU_authorized(2) by (metis option.inject)
  have c: "serverCapabilities uaServer = capU" by (simp add: uaServer_def capU_def)
  have n: "ints [4, 5] \<noteq> ints [1, 2, 3]" by (simp add: ints_def)
  show ?thesis using a write_runs n space0_nodes(2)
    by (auto simp: write_45_def handleWrite_def callA_def c Let_def NewDataValue_def levelsVar_def levels_def)
qed

section \<open>Trees of nodes\<close>

definition list_deque :: "('a list, 'a) deque_ops" where
  "list_deque = \<lparr>dq_new = [], dq_PushBack = (\<lambda>x q. q @ [x]), dq_PopFront = (\<lambda>q. (hd q, tl q)), dq_Len = length\<rparr>"

lemma list_deque_laws: "deque_laws list_deque (\<lambda>q. q)"
  by (simp add: deque_laws_def list_deque_def)

lemma plant_children: "children_of space0 (Some hasChildandSubtypes) plant = [levels]" "children_of space0 (Some hasChildandSubtypes) levels = []"
    "children_of space0 (Some hasChildandSubtypes) level = []"
  by (simp_all add: children_of_def hasChildandSubtypes_def List.map_filter_def levelsID_def space0_targets plantID_def)
    (simp_all add: ref_to_def space0_def id_defs levels_def)

lemma space0_cases: "nodes space0 i = Some n \<Longrightarrow> i = plantID \<and> n = plant \<or> i = levelsID \<and> n = levels \<or> i = levelType \<and> n = level"
  by (auto simp: space0_def split: if_splits)

lemma ref_fields: "ReferenceTypeID (ref_to ty back i) = ty" "IsInverse (ref_to ty back i) = back"
  by (simp_all add: ref_to_def)

lemma space0_symmetric: "symmetric space0"
proof -
  have t: "target_id space0 (ref_to ty b plantID) = plantID" "target_id space0 (ref_to ty b levelsID) = levelsID" for ty b
    by (simp_all add: space0_targets plantID_def levelsID_def)
  have none: "nodes space0 (num_id 6) = None" by (simp add: space0_def id_defs)
  have "has_inverse space0 plantID (ref_to ReferenceTypeIDHasComponent False levelsID)"
    "has_inverse space0 levelsID (ref_to ReferenceTypeIDHasComponent True plantID)"
    by (simp_all add: has_inverse_def inverse_of_def t space0_nodes ref_fields)
  moreover have "has_inverse space0 levelType (ref_to ReferenceTypeIDHasSubtype True (num_id 6))"
    by (simp add: has_inverse_def space0_targets none)
  ultimately show ?thesis unfolding symmetric_def using space0_cases by (metis empty_iff list.set(1) node_fields(7-12) set_ConsD)
qed

lemma space0_wf: "wf (child_rel space0 (Some hasChildandSubtypes))"
proof (rule wf_subset [OF wf_measure])
  let ?f = "\<lambda>n. if n = levels \<or> n = level then 0 else if n = plant then 1 else (2 :: nat)"
  have c: "c \<in> {plant, levels, level}" if mem: "c \<in> set (children_of space0 (Some hasChildandSubtypes) n)" for c n
  proof -
    obtain i where "nodes space0 i = Some c" using mem by (auto simp: children_of_def List.map_filter_def split: if_splits)
    then show ?thesis using space0_cases by blast
  qed
  have ne: "levels \<noteq> plant" "level \<noteq> plant" by (simp_all add: levels_def plant_def level_def)
  have "?f c < ?f n" if mem: "c \<in> set (children_of space0 (Some hasChildandSubtypes) n)" for c n
  proof -
    have "n \<noteq> levels" "n \<noteq> level" "n = plant \<Longrightarrow> c = levels" using mem plant_children by auto
    with c [OF mem] ne show ?thesis by auto
  qed
  then show "child_rel space0 (Some hasChildandSubtypes) \<subseteq> measure ?f" by (auto simp: child_rel_def)
qed

end
