(* ===== verification/Event_Filter.thy ===== *)
theory Event_Filter
  imports Node_Access
begin

text \<open>
  Events and their filters: the event structures of \<open>ua/base_event.go\<close>,
  \<open>ua/condition.go\<close>, \<open>ua/acknowledgeable_condition.go\<close> and \<open>ua/alarm_condition.go\<close>, the
  comparison of operands (\<open>ua/content_filter.go\<close>), and what an event item does with an
  event (\<open>OnEvent\<close>, \<open>whereClause\<close> and \<open>selectFields\<close> of
  \<open>server/event_monitored_item.go\<close>). The recursion of the where clause has fuel.
\<close>

section \<open>Operands\<close>

definition ObjectTypeIDBaseEventType :: "NodeID option" where "ObjectTypeIDBaseEventType = num_id 2041"
definition ObjectTypeIDConditionType :: "NodeID option" where "ObjectTypeIDConditionType = num_id 2782"
definition ObjectTypeIDAcknowledgeableConditionType :: "NodeID option" where "ObjectTypeIDAcknowledgeableConditionType = num_id 2881"
definition ObjectTypeIDAlarmConditionType :: "NodeID option" where "ObjectTypeIDAlarmConditionType = num_id 2915"

definition EqualSimpleAttributeOperand :: "SimpleAttributeOperand \<Rightarrow> SimpleAttributeOperand \<Rightarrow> bool" where
  "EqualSimpleAttributeOperand a b =
     (if so_TypeDefinitionID a \<noteq> ObjectTypeIDBaseEventType \<and> so_TypeDefinitionID a \<noteq> so_TypeDefinitionID b then False
      else if length (so_BrowsePath a) \<noteq> length (so_BrowsePath b) then False
      else if list_ex (\<lambda>(p, q). p \<noteq> q) (zip (so_BrowsePath a) (so_BrowsePath b)) then False
      else if so_AttributeID a \<noteq> so_AttributeID b then False
      else if so_IndexRange a \<noteq> so_IndexRange b then False
      else True)"

section \<open>Events\<close>

record BaseEvent =
  EventID :: ByteString
  EventType :: "NodeID option"
  SourceNode :: "NodeID option"
  SourceName :: string
  Time :: gotime
  ReceiveTime :: gotime
  Message :: LocalizedText
  Severity :: u16

record Condition = BaseEvent +
  ConditionID :: "NodeID option"
  ConditionName :: string
  BranchID :: "NodeID option"
  Retain :: bool

record AcknowledgeableCondition = Condition +
  AckedState :: bool
  ConfirmedState :: bool

record AlarmCondition = AcknowledgeableCondition +
  ActiveState :: bool

definition clause :: "NodeID option \<Rightarrow> string \<Rightarrow> u32 \<Rightarrow> SimpleAttributeOperand" where
  "clause ty path a = \<lparr>so_TypeDefinitionID = ty, so_BrowsePath = ParseBrowsePath path, so_AttributeID = a, so_IndexRange = []\<rparr>"

definition BaseEventSelectClauses :: "SimpleAttributeOperand list" where
  "BaseEventSelectClauses =
     [clause ObjectTypeIDBaseEventType ''EventId'' 13, clause ObjectTypeIDBaseEventType ''EventType'' 13,
      clause ObjectTypeIDBaseEventType ''SourceNode'' 13, clause ObjectTypeIDBaseEventType ''SourceName'' 13,
      clause ObjectTypeIDBaseEventType ''Time'' 13, clause ObjectTypeIDBaseEventType ''ReceiveTime'' 13,
      clause ObjectTypeIDBaseEventType ''Message'' 13, clause ObjectTypeIDBaseEventType ''Severity'' 13]"

definition ConditionSelectClauses :: "SimpleAttributeOperand list" where
  "ConditionSelectClauses = BaseEventSelectClauses @
     [clause ObjectTypeIDConditionType [] 1, clause ObjectTypeIDConditionType ''ConditionName'' 13,
      clause ObjectTypeIDConditionType ''BranchId'' 13, clause ObjectTypeIDConditionType ''Retain'' 13]"

definition AcknowledgeableConditionSelectClauses :: "SimpleAttributeOperand list" where
  "AcknowledgeableConditionSelectClauses = ConditionSelectClauses @
     [clause ObjectTypeIDAcknowledgeableConditionType ''AckedState/Id'' 13,
      clause ObjectTypeIDAcknowledgeableConditionType ''ConfirmedState/Id'' 13]"

definition AlarmConditionSelectClauses :: "SimpleAttributeOperand list" where
  "AlarmConditionSelectClauses = AcknowledgeableConditionSelectClauses @
     [clause ObjectTypeIDAlarmConditionType ''ActiveState/Id'' 13]"

definition ActiveStateEffectiveDisplayName :: SimpleAttributeOperand where
  "ActiveStateEffectiveDisplayName = clause ObjectTypeIDAlarmConditionType ''ActiveState/EffectiveDisplayName'' 13"

text \<open>The fields as variants, in the order of the clauses; the switch takes the first clause that fits.\<close>

definition base_fields :: "'a BaseEvent_scheme \<Rightarrow> goval list" where
  "base_fields e = [VScalar (SByteString (EventID e)), id_value (EventType e), id_value (SourceNode e),
     VScalar (SString (SourceName e)), VScalar (SDateTime (Time e)), VScalar (SDateTime (ReceiveTime e)),
     VScalar (SLocalizedText (Message e)), VScalar (SUint16 (Severity e))]"

definition condition_fields :: "'a Condition_scheme \<Rightarrow> goval list" where
  "condition_fields e = base_fields e @ [id_value (ConditionID e), VScalar (SString (ConditionName e)),
     id_value (BranchID e), VScalar (SBool (Retain e))]"

definition acknowledgeable_fields :: "'a AcknowledgeableCondition_scheme \<Rightarrow> goval list" where
  "acknowledgeable_fields e = condition_fields e @ [VScalar (SBool (AckedState e)), VScalar (SBool (ConfirmedState e))]"

definition alarm_fields :: "'a AlarmCondition_scheme \<Rightarrow> goval list" where
  "alarm_fields e = acknowledgeable_fields e @ [VScalar (SBool (ActiveState e))]"

fun first_field :: "SimpleAttributeOperand \<Rightarrow> (SimpleAttributeOperand \<times> goval) list \<Rightarrow> goval" where
  "first_field c [] = VNil"
| "first_field c ((k, v) # kvs) = (if EqualSimpleAttributeOperand c k then v else first_field c kvs)"

definition BaseEvent_GetAttribute :: "BaseEvent \<Rightarrow> SimpleAttributeOperand \<Rightarrow> goval" where
  "BaseEvent_GetAttribute e c = first_field c (zip BaseEventSelectClauses (base_fields e))"

definition Condition_GetAttribute :: "Condition \<Rightarrow> SimpleAttributeOperand \<Rightarrow> goval" where
  "Condition_GetAttribute e c = first_field c (zip ConditionSelectClauses (condition_fields e))"

definition AcknowledgeableCondition_GetAttribute :: "AcknowledgeableCondition \<Rightarrow> SimpleAttributeOperand \<Rightarrow> goval" where
  "AcknowledgeableCondition_GetAttribute e c = first_field c (zip AcknowledgeableConditionSelectClauses (acknowledgeable_fields e))"

definition AlarmCondition_GetAttribute :: "AlarmCondition \<Rightarrow> SimpleAttributeOperand \<Rightarrow> goval" where
  "AlarmCondition_GetAttribute e c = first_field c (zip AlarmConditionSelectClauses (alarm_fields e) @
     [(ActiveStateEffectiveDisplayName, VScalar (SLocalizedText \<lparr>lt_Text = (if ActiveState e then ''Active'' else ''Inactive''), lt_Locale = ''en''\<rparr>))])"

section \<open>Reading the fields back\<close>

text \<open>Assertions with a second result give the zero value when the field has another type.\<close>

definition BadUnexpectedError :: StatusCode where "BadUnexpectedError = 0x80010000"

definition bytes_field :: "goval \<Rightarrow> ByteString" where
  "bytes_field v = (case v of VScalar (SByteString b) \<Rightarrow> b | _ \<Rightarrow> [])"

definition id_field :: "goval \<Rightarrow> NodeID option" where
  "id_field v = (case v of VScalar (SNodeID i) \<Rightarrow> i | _ \<Rightarrow> None)"

definition string_field :: "goval \<Rightarrow> string" where
  "string_field v = (case v of VScalar (SString s) \<Rightarrow> s | _ \<Rightarrow> [])"

definition time_field :: "goval \<Rightarrow> gotime" where
  "time_field v = (case v of VScalar (SDateTime t) \<Rightarrow> t | _ \<Rightarrow> zeroTime)"

definition text_field :: "goval \<Rightarrow> LocalizedText" where
  "text_field v = (case v of VScalar (SLocalizedText t) \<Rightarrow> t | _ \<Rightarrow> \<lparr>lt_Text = [], lt_Locale = []\<rparr>)"

definition u16_field :: "goval \<Rightarrow> u16" where
  "u16_field v = (case v of VScalar (SUint16 n) \<Rightarrow> n | _ \<Rightarrow> 0)"

definition bool_field :: "goval \<Rightarrow> bool" where
  "bool_field v = (case v of VScalar (SBool b) \<Rightarrow> b | _ \<Rightarrow> False)"

definition BaseEvent_UnmarshalFields :: "goval list \<Rightarrow> BaseEvent \<Rightarrow> goerr option \<times> BaseEvent" where
  "BaseEvent_UnmarshalFields fs e = (if length fs \<noteq> 8 then (Some (Status BadUnexpectedError), e) else (None,
     \<lparr>EventID = bytes_field (fs ! 0), EventType = id_field (fs ! 1), SourceNode = id_field (fs ! 2), SourceName = string_field (fs ! 3),
      Time = time_field (fs ! 4), ReceiveTime = time_field (fs ! 5), Message = text_field (fs ! 6), Severity = u16_field (fs ! 7)\<rparr>))"

definition Condition_UnmarshalFields :: "goval list \<Rightarrow> Condition \<Rightarrow> goerr option \<times> Condition" where
  "Condition_UnmarshalFields fs e = (if length fs \<noteq> 12 then (Some (Status BadUnexpectedError), e) else (None,
     \<lparr>EventID = bytes_field (fs ! 0), EventType = id_field (fs ! 1), SourceNode = id_field (fs ! 2), SourceName = string_field (fs ! 3),
      Time = time_field (fs ! 4), ReceiveTime = time_field (fs ! 5), Message = text_field (fs ! 6), Severity = u16_field (fs ! 7),
      ConditionID = id_field (fs ! 8), ConditionName = string_field (fs ! 9), BranchID = id_field (fs ! 10), Retain = bool_field (fs ! 11)\<rparr>))"

definition AcknowledgeableCondition_UnmarshalFields ::
    "goval list \<Rightarrow> AcknowledgeableCondition \<Rightarrow> goerr option \<times> AcknowledgeableCondition" where
  "AcknowledgeableCondition_UnmarshalFields fs e = (if length fs \<noteq> 14 then (Some (Status BadUnexpectedError), e) else (None,
     \<lparr>EventID = bytes_field (fs ! 0), EventType = id_field (fs ! 1), SourceNode = id_field (fs ! 2), SourceName = string_field (fs ! 3),
      Time = time_field (fs ! 4), ReceiveTime = time_field (fs ! 5), Message = text_field (fs ! 6), Severity = u16_field (fs ! 7),
      ConditionID = id_field (fs ! 8), ConditionName = string_field (fs ! 9), BranchID = id_field (fs ! 10), Retain = bool_field (fs ! 11),
      AckedState = bool_field (fs ! 12), ConfirmedState = bool_field (fs ! 13)\<rparr>))"

definition AlarmCondition_UnmarshalFields :: "goval list \<Rightarrow> AlarmCondition \<Rightarrow> goerr option \<times> AlarmCondition" where
  "AlarmCondition_UnmarshalFields fs e = (if length fs \<noteq> 15 then (Some (Status BadUnexpectedError), e) else (None,
     \<lparr>EventID = bytes_field (fs ! 0), EventType = id_field (fs ! 1), SourceNode = id_field (fs ! 2), SourceName = string_field (fs ! 3),
      Time = time_field (fs ! 4), ReceiveTime = time_field (fs ! 5), Message = text_field (fs ! 6), Severity = u16_field (fs ! 7),
      ConditionID = id_field (fs ! 8), ConditionName = string_field (fs ! 9), BranchID = id_field (fs ! 10), Retain = bool_field (fs ! 11),
      AckedState = bool_field (fs ! 12), ConfirmedState = bool_field (fs ! 13), ActiveState = bool_field (fs ! 14)\<rparr>))"

text \<open>Each clause is matched by its own field first.\<close>

lemma event_paths:
  "ParseBrowsePath ''EventId'' = [\<lparr>qn_NamespaceIndex = 0, qn_Name = ''EventId''\<rparr>]"
  "ParseBrowsePath ''EventType'' = [\<lparr>qn_NamespaceIndex = 0, qn_Name = ''EventType''\<rparr>]"
  "ParseBrowsePath ''SourceNode'' = [\<lparr>qn_NamespaceIndex = 0, qn_Name = ''SourceNode''\<rparr>]"
  "ParseBrowsePath ''SourceName'' = [\<lparr>qn_NamespaceIndex = 0, qn_Name = ''SourceName''\<rparr>]"
  "ParseBrowsePath ''Time'' = [\<lparr>qn_NamespaceIndex = 0, qn_Name = ''Time''\<rparr>]"
  "ParseBrowsePath ''ReceiveTime'' = [\<lparr>qn_NamespaceIndex = 0, qn_Name = ''ReceiveTime''\<rparr>]"
  "ParseBrowsePath ''Message'' = [\<lparr>qn_NamespaceIndex = 0, qn_Name = ''Message''\<rparr>]"
  "ParseBrowsePath ''Severity'' = [\<lparr>qn_NamespaceIndex = 0, qn_Name = ''Severity''\<rparr>]"
  "ParseBrowsePath [] = []"
  "ParseBrowsePath ''ConditionName'' = [\<lparr>qn_NamespaceIndex = 0, qn_Name = ''ConditionName''\<rparr>]"
  "ParseBrowsePath ''BranchId'' = [\<lparr>qn_NamespaceIndex = 0, qn_Name = ''BranchId''\<rparr>]"
  "ParseBrowsePath ''Retain'' = [\<lparr>qn_NamespaceIndex = 0, qn_Name = ''Retain''\<rparr>]"
  "ParseBrowsePath ''AckedState/Id'' = [\<lparr>qn_NamespaceIndex = 0, qn_Name = ''AckedState''\<rparr>, \<lparr>qn_NamespaceIndex = 0, qn_Name = ''Id''\<rparr>]"
  "ParseBrowsePath ''ConfirmedState/Id'' = [\<lparr>qn_NamespaceIndex = 0, qn_Name = ''ConfirmedState''\<rparr>, \<lparr>qn_NamespaceIndex = 0, qn_Name = ''Id''\<rparr>]"
  "ParseBrowsePath ''ActiveState/Id'' = [\<lparr>qn_NamespaceIndex = 0, qn_Name = ''ActiveState''\<rparr>, \<lparr>qn_NamespaceIndex = 0, qn_Name = ''Id''\<rparr>]"
  by code_simp+

lemmas event_ids = ObjectTypeIDBaseEventType_def ObjectTypeIDConditionType_def ObjectTypeIDAcknowledgeableConditionType_def
  ObjectTypeIDAlarmConditionType_def

lemma id_field_value [simp]: "id_field (id_value i) = i"
  by (cases i) (simp_all add: id_field_def id_value_def)

lemmas field_defs = bytes_field_def string_field_def time_field_def text_field_def u16_field_def bool_field_def

lemma base_select: "map (BaseEvent_GetAttribute e) BaseEventSelectClauses = base_fields e"
  by (simp add: BaseEvent_GetAttribute_def BaseEventSelectClauses_def base_fields_def clause_def event_paths event_ids
    EqualSimpleAttributeOperand_def)

lemma condition_select: "map (Condition_GetAttribute e) ConditionSelectClauses = condition_fields e"
  by (simp add: Condition_GetAttribute_def ConditionSelectClauses_def BaseEventSelectClauses_def condition_fields_def base_fields_def
    clause_def event_paths event_ids EqualSimpleAttributeOperand_def)

lemma acknowledgeable_select:
  "map (AcknowledgeableCondition_GetAttribute e) AcknowledgeableConditionSelectClauses = acknowledgeable_fields e"
  by (simp add: AcknowledgeableCondition_GetAttribute_def AcknowledgeableConditionSelectClauses_def ConditionSelectClauses_def
    BaseEventSelectClauses_def acknowledgeable_fields_def condition_fields_def base_fields_def
    clause_def event_paths event_ids EqualSimpleAttributeOperand_def)

lemma alarm_select: "map (AlarmCondition_GetAttribute e) AlarmConditionSelectClauses = alarm_fields e"
  by (simp add: AlarmCondition_GetAttribute_def AlarmConditionSelectClauses_def AcknowledgeableConditionSelectClauses_def
    ConditionSelectClauses_def BaseEventSelectClauses_def alarm_fields_def acknowledgeable_fields_def condition_fields_def base_fields_def
    clause_def event_paths event_ids EqualSimpleAttributeOperand_def)

text \<open>What a server selects, a client reads back.\<close>

lemma base_roundtrip:
  "BaseEvent_UnmarshalFields (map (BaseEvent_GetAttribute e) BaseEventSelectClauses) e0 = (None, e)"
  unfolding base_select by (simp add: BaseEvent_UnmarshalFields_def base_fields_def field_defs)

lemma condition_roundtrip:
  "Condition_UnmarshalFields (map (Condition_GetAttribute e) ConditionSelectClauses) e0 = (None, e)"
  unfolding condition_select by (simp add: Condition_UnmarshalFields_def condition_fields_def base_fields_def field_defs)

lemma acknowledgeable_roundtrip:
  "AcknowledgeableCondition_UnmarshalFields (map (AcknowledgeableCondition_GetAttribute e) AcknowledgeableConditionSelectClauses) e0
    = (None, e)"
  unfolding acknowledgeable_select
  by (simp add: AcknowledgeableCondition_UnmarshalFields_def acknowledgeable_fields_def condition_fields_def base_fields_def field_defs)

lemma alarm_roundtrip:
  "AlarmCondition_UnmarshalFields (map (AlarmCondition_GetAttribute e) AlarmConditionSelectClauses) e0 = (None, e)"
  unfolding alarm_select
  by (simp add: AlarmCondition_UnmarshalFields_def alarm_fields_def acknowledgeable_fields_def condition_fields_def base_fields_def field_defs)

section \<open>Comparing variants\<close>

text \<open>
  The operator \<open>==\<close> on two values of interface type: values of different types differ, and
  values of a type that has slices in it cannot be compared. The fields of a structure are
  compared in order until two differ. Two operands never share a pointer.
\<close>

fun comparable :: "gotype \<Rightarrow> bool" where
  "comparable (TSlice _) = False"
| "comparable (TStruct _ ts) = list_all comparable ts"
| "comparable _ = True"

definition both_equal :: "bool res \<Rightarrow> bool res \<Rightarrow> bool res" where
  "both_equal p q = (case p of Ok True \<Rightarrow> q | _ \<Rightarrow> p)"

definition nil_info :: DiagnosticInfo where
  "nil_info = DiagnosticInfo None None None None None None None"

fun go_eq :: "goval \<Rightarrow> goval \<Rightarrow> bool res" and go_eq_list :: "goval list \<Rightarrow> goval list \<Rightarrow> bool res" where
  "go_eq VNil w = Ok (w = VNil \<or> w = VScalar (SNodeID None))"
| "go_eq (VScalar a) w = (case w of
       VScalar b \<Rightarrow> Ok (scalar_eq a b)
     | VNil \<Rightarrow> Ok (a = SNodeID None)
     | _ \<Rightarrow> Ok False)"
| "go_eq (VEnum n x) w = Ok (w = VEnum n x)"
| "go_eq (VDataValue v st a b c d) w = (case w of
       VDataValue v' st' a' b' c' d' \<Rightarrow> both_equal (go_eq v v') (Ok ((st, a, b, c, d) = (st', a', b', c', d')))
     | _ \<Rightarrow> Ok False)"
| "go_eq (VDiagnosticInfo d) w = Ok (w = VDiagnosticInfo d \<and> d = nil_info)"
| "go_eq (VStruct n ts vs) w = (case w of
       VStruct n' ts' vs' \<Rightarrow>
         if n = n' \<and> ts = ts' then (if list_all comparable ts then go_eq_list vs vs' else Panic) else Ok False
     | _ \<Rightarrow> Ok False)"
| "go_eq (VPtr n ts p) w = Ok (p = None \<and> w = VPtr n ts None)"
| "go_eq (VSlice t xs) w = (case w of VSlice t' _ \<Rightarrow> if t = t' then Panic else Ok False | _ \<Rightarrow> Ok False)"
| "go_eq_list [] ys = Ok True"
| "go_eq_list (x # xs) ys = (case ys of [] \<Rightarrow> Ok True | y # ys' \<Rightarrow> both_equal (go_eq x y) (go_eq_list xs ys'))"

section \<open>The where clause\<close>

text \<open>The value of an operand; \<open>None\<close> is an operand of another kind, for which the clause is false.\<close>

definition operand_value :: "(u32 \<Rightarrow> goval res) \<Rightarrow> (SimpleAttributeOperand \<Rightarrow> goval) \<Rightarrow> FilterOperand \<Rightarrow> goval res option" where
  "operand_value element attr c = (case c of
       LiteralOperand v \<Rightarrow> Some (Ok v)
     | SimpleAttribute so \<Rightarrow> Some (Ok (attr so))
     | ElementOperand j \<Rightarrow> Some (element j)
     | OtherOperand \<Rightarrow> None)"

text \<open>An operand that is not there is an index out of range.\<close>

definition operand :: "ContentFilterElement \<Rightarrow> nat \<Rightarrow> FilterOperand option" where
  "operand el k = (if k < length (FilterOperands el) then Some (FilterOperands el ! k) else None)"

definition a_bool :: "bool \<Rightarrow> goval" where "a_bool b = VScalar (SBool b)"

definition where_equals :: "(u32 \<Rightarrow> goval res) \<Rightarrow> (SimpleAttributeOperand \<Rightarrow> goval) \<Rightarrow> ContentFilterElement \<Rightarrow> goval res" where
  "where_equals element attr el = (case operand el 0 of
       None \<Rightarrow> Panic
     | Some c0 \<Rightarrow> (case operand_value element attr c0 of
           None \<Rightarrow> Ok (a_bool False)
         | Some (Ok a) \<Rightarrow> (case operand el 1 of
               None \<Rightarrow> Panic
             | Some c1 \<Rightarrow> (case operand_value element attr c1 of
                   None \<Rightarrow> Ok (a_bool False)
                 | Some (Ok b) \<Rightarrow> (case go_eq a b of Ok r \<Rightarrow> Ok (a_bool r) | Err e \<Rightarrow> Err e | Panic \<Rightarrow> Panic | NoFuel \<Rightarrow> NoFuel)
                 | Some r \<Rightarrow> r))
         | Some r \<Rightarrow> r))"

definition where_of_type :: "NamespaceManager \<Rightarrow> (SimpleAttributeOperand \<Rightarrow> goval) \<Rightarrow> ContentFilterElement \<Rightarrow> goval res" where
  "where_of_type m attr el = (case operand el 0 of
       None \<Rightarrow> Panic
     | Some (LiteralOperand (VScalar (SNodeID (Some b)))) \<Rightarrow>
         (case attr (clause ObjectTypeIDBaseEventType ''EventType'' 13) of
            VScalar (SNodeID (Some c)) \<Rightarrow> Ok (a_bool (c = b \<or> IsSubtype m (Some c) (Some b)))
          | _ \<Rightarrow> Ok (a_bool False))
     | Some _ \<Rightarrow> Ok (a_bool False))"

primrec whereClause :: "nat \<Rightarrow> NamespaceManager \<Rightarrow> (SimpleAttributeOperand \<Rightarrow> goval) \<Rightarrow> ContentFilterElement list \<Rightarrow> nat \<Rightarrow> goval res" where
  "whereClause 0 m attr els idx = NoFuel"
| "whereClause (Suc k) m attr els idx =
     (if idx \<ge> length els then Ok (a_bool True)
      else if FilterOperator (els ! idx) = 0
      then where_equals (\<lambda>j. whereClause k m attr els (unat j)) attr (els ! idx)
      else if FilterOperator (els ! idx) = 14 then where_of_type m attr (els ! idx)
      else Ok (a_bool False))"

definition selectFields :: "(SimpleAttributeOperand \<Rightarrow> goval) \<Rightarrow> EventFilter \<Rightarrow> goval list" where
  "selectFields attr f = map attr (SelectClauses f)"

definition Event_OnEvent :: "nat \<Rightarrow> NamespaceManager \<Rightarrow> (SimpleAttributeOperand \<Rightarrow> goval) \<Rightarrow> EventMonitoredItem \<Rightarrow>
    (EventMonitoredItem \<times> effects) res" where
  "Event_OnEvent fuel m attr mi = (case whereClause fuel m attr (WhereClause (ev_eventFilter mi)) 0 of
       Ok v \<Rightarrow> Ok (if v = a_bool True then Event_enqueue (selectFields attr (ev_eventFilter mi)) mi else (mi, (0, [])))
     | Err e \<Rightarrow> Err e
     | Panic \<Rightarrow> Panic
     | NoFuel \<Rightarrow> NoFuel)"

text \<open>The elements an element refers to.\<close>

definition refers :: "ContentFilterElement list \<Rightarrow> (nat \<times> nat) set" where
  "refers els = {(unat j, i) | i j. i < length els \<and> ElementOperand j \<in> set (FilterOperands (els ! i))}"

lemma operand_mem: "operand el k = Some c \<Longrightarrow> c \<in> set (FilterOperands el)"
  by (auto simp: operand_def split: if_splits)

lemma where_equals_cong:
  assumes "\<And>j. ElementOperand j \<in> set (FilterOperands el) \<Longrightarrow> f j = g j"
  shows "where_equals f attr el = where_equals g attr el"
proof -
  have "operand_value f attr c = operand_value g attr c" if "operand el k = Some c" for k c
    using operand_mem [OF that] assms by (auto simp: operand_value_def split: FilterOperand.split)
  then show ?thesis by (auto simp: where_equals_def split: option.split res.split)
qed

lemma go_eq_ends: "go_eq a b \<noteq> NoFuel" "go_eq_list as bs \<noteq> NoFuel"
  by (induction a b and as bs rule: go_eq_go_eq_list.induct)
    (auto simp: both_equal_def split: goval.splits res.splits bool.splits list.splits)

lemma where_equals_ends:
  assumes "\<And>j. ElementOperand j \<in> set (FilterOperands el) \<Longrightarrow> f j \<noteq> NoFuel"
  shows "where_equals f attr el \<noteq> NoFuel"
proof -
  have "operand_value f attr c \<noteq> Some NoFuel" if "operand el k = Some c" for k c
    using operand_mem [OF that] assms by (auto simp: operand_value_def split: FilterOperand.splits)
  then show ?thesis using go_eq_ends(1) by (auto simp: where_equals_def split: option.split res.split)
qed

lemma whereClause_ends:
  assumes "wf (refers els)"
  shows "\<exists>k r. r \<noteq> NoFuel \<and> (\<forall>fuel. whereClause (k + fuel) m attr els idx = r)"
  using assms
proof (induction idx rule: wf_induct_rule)
  case (less idx)
  let ?js = "{j. ElementOperand j \<in> set (FilterOperands (els ! idx))}"
  show ?case
  proof (cases "idx < length els")
    case True
    then have "\<forall>j\<in>?js. \<exists>k r. r \<noteq> NoFuel \<and> (\<forall>fuel. whereClause (k + fuel) m attr els (unat j) = r)"
      using less by (auto simp: refers_def)
    then obtain kf rf where kf: "\<And>j fuel. j \<in> ?js \<Longrightarrow> rf j \<noteq> NoFuel \<and> whereClause (kf j + fuel) m attr els (unat j) = rf j" by metis
    have "finite ?js" by (rule finite_subset [of _ "(\<lambda>c. case c of ElementOperand j \<Rightarrow> j | _ \<Rightarrow> 0) ` set (FilterOperands (els ! idx))"]) force+
    then have le: "kf j \<le> sum kf ?js" if "j \<in> ?js" for j using that by (intro member_le_sum) auto
    have eq: "whereClause (sum kf ?js + fuel) m attr els (unat j) = rf j" if "j \<in> ?js" for j fuel
      using kf [OF that, of "sum kf ?js - kf j + fuel"] le [OF that] by simp
    then have "whereClause (Suc (sum kf ?js) + fuel) m attr els idx = whereClause (Suc (sum kf ?js)) m attr els idx" for fuel
      using where_equals_cong [of "els ! idx" "\<lambda>j. whereClause (sum kf ?js + fuel) m attr els (unat j)"
          "\<lambda>j. whereClause (sum kf ?js) m attr els (unat j)" attr] eq [of _ 0] by simp
    moreover have "whereClause (Suc (sum kf ?js)) m attr els idx \<noteq> NoFuel"
      using where_equals_ends [of "els ! idx" "\<lambda>j. whereClause (sum kf ?js) m attr els (unat j)" attr] eq [of _ 0] kf True
      by (auto simp: where_of_type_def split: option.split FilterOperand.split goval.split scalar.split)
    ultimately show ?thesis by blast
  qed (auto intro!: exI [of _ 1])
qed

text \<open>A client may send a filter that refers to itself, and then the recursion never ends.\<close>

lemma whereClause_cycle:
  assumes "\<forall>i\<in>C. i < length els \<and> FilterOperator (els ! i) = 0 \<and> (\<exists>j. operand (els ! i) 0 = Some (ElementOperand j) \<and> unat j \<in> C)"
    and "idx \<in> C"
  shows "whereClause fuel m attr els idx = NoFuel"
  using assms(2)
proof (induction fuel arbitrary: idx)
  case (Suc fuel)
  then obtain j where "idx < length els" "FilterOperator (els ! idx) = 0" "operand (els ! idx) 0 = Some (ElementOperand j)" "unat j \<in> C"
    using assms(1) by blast
  with Suc.IH [of "unat j"] show ?case by (simp add: where_equals_def operand_value_def)
qed simp

end
