(* ===== verification/Security_Policy.thy ===== *)
theory Security_Policy
  imports Bytes_Writer
begin

text \<open>
  The security policies of \<open>ua/security_policy.go\<close> and the key derivation of the
  secure channels (\<open>calculatePSHA\<close>). The hash functions, the block cipher and RSA are
  the Go packages \<open>crypto/hmac\<close>, \<open>crypto/aes\<close> and \<open>crypto/rsa\<close>: a parameter of type
  \<open>crypto\<close>, with what their documentation promises as \<open>crypto_ok\<close>. Cipher block
  chaining (\<open>crypto/cipher\<close>) is modelled on top of the block cipher.
\<close>

section \<open>Policies\<close>

datatype SecurityPolicy =
    SecurityPolicyNone
  | SecurityPolicyBasic128Rsa15
  | SecurityPolicyBasic256
  | SecurityPolicyBasic256Sha256
  | SecurityPolicyAes128Sha256RsaOaep
  | SecurityPolicyAes256Sha256RsaPss

fun PolicyURI :: "SecurityPolicy \<Rightarrow> string" where
  "PolicyURI SecurityPolicyNone = SecurityPolicyURINone"
| "PolicyURI SecurityPolicyBasic128Rsa15 = ''http://opcfoundation.org/UA/SecurityPolicy#Basic128Rsa15''"
| "PolicyURI SecurityPolicyBasic256 = ''http://opcfoundation.org/UA/SecurityPolicy#Basic256''"
| "PolicyURI SecurityPolicyBasic256Sha256 = ''http://opcfoundation.org/UA/SecurityPolicy#Basic256Sha256''"
| "PolicyURI SecurityPolicyAes128Sha256RsaOaep = ''http://opcfoundation.org/UA/SecurityPolicy#Aes128_Sha256_RsaOaep''"
| "PolicyURI SecurityPolicyAes256Sha256RsaPss = ''http://opcfoundation.org/UA/SecurityPolicy#Aes256_Sha256_RsaPss''"

text \<open>The switch on the URI in \<open>readRequest\<close>; another URI is \<open>BadSecurityPolicyRejected\<close>.\<close>

definition policies :: "SecurityPolicy list" where
  "policies = [SecurityPolicyNone, SecurityPolicyBasic128Rsa15, SecurityPolicyBasic256,
     SecurityPolicyBasic256Sha256, SecurityPolicyAes128Sha256RsaOaep, SecurityPolicyAes256Sha256RsaPss]"

definition setSecurityPolicy :: "string \<Rightarrow> SecurityPolicy option" where
  "setSecurityPolicy uri = map_of (map (\<lambda>p. (PolicyURI p, p)) policies) uri"

fun RSAPaddingSize :: "SecurityPolicy \<Rightarrow> nat" where
  "RSAPaddingSize SecurityPolicyNone = 0"
| "RSAPaddingSize SecurityPolicyBasic128Rsa15 = 11"
| "RSAPaddingSize SecurityPolicyBasic256 = 42"
| "RSAPaddingSize SecurityPolicyBasic256Sha256 = 42"
| "RSAPaddingSize SecurityPolicyAes128Sha256RsaOaep = 42"
| "RSAPaddingSize SecurityPolicyAes256Sha256RsaPss = 66"

fun SymSignatureSize :: "SecurityPolicy \<Rightarrow> nat" where
  "SymSignatureSize SecurityPolicyNone = 0"
| "SymSignatureSize SecurityPolicyBasic128Rsa15 = 20"
| "SymSignatureSize SecurityPolicyBasic256 = 20"
| "SymSignatureSize SecurityPolicyBasic256Sha256 = 32"
| "SymSignatureSize SecurityPolicyAes128Sha256RsaOaep = 32"
| "SymSignatureSize SecurityPolicyAes256Sha256RsaPss = 32"

fun SymSignatureKeySize :: "SecurityPolicy \<Rightarrow> nat" where
  "SymSignatureKeySize SecurityPolicyNone = 0"
| "SymSignatureKeySize SecurityPolicyBasic128Rsa15 = 16"
| "SymSignatureKeySize SecurityPolicyBasic256 = 24"
| "SymSignatureKeySize SecurityPolicyBasic256Sha256 = 32"
| "SymSignatureKeySize SecurityPolicyAes128Sha256RsaOaep = 32"
| "SymSignatureKeySize SecurityPolicyAes256Sha256RsaPss = 32"

fun SymEncryptionBlockSize :: "SecurityPolicy \<Rightarrow> nat" where
  "SymEncryptionBlockSize SecurityPolicyNone = 1"
| "SymEncryptionBlockSize SecurityPolicyBasic128Rsa15 = 16"
| "SymEncryptionBlockSize SecurityPolicyBasic256 = 16"
| "SymEncryptionBlockSize SecurityPolicyBasic256Sha256 = 16"
| "SymEncryptionBlockSize SecurityPolicyAes128Sha256RsaOaep = 16"
| "SymEncryptionBlockSize SecurityPolicyAes256Sha256RsaPss = 16"

fun SymEncryptionKeySize :: "SecurityPolicy \<Rightarrow> nat" where
  "SymEncryptionKeySize SecurityPolicyNone = 0"
| "SymEncryptionKeySize SecurityPolicyBasic128Rsa15 = 16"
| "SymEncryptionKeySize SecurityPolicyBasic256 = 32"
| "SymEncryptionKeySize SecurityPolicyBasic256Sha256 = 32"
| "SymEncryptionKeySize SecurityPolicyAes128Sha256RsaOaep = 16"
| "SymEncryptionKeySize SecurityPolicyAes256Sha256RsaPss = 32"

fun NonceSize :: "SecurityPolicy \<Rightarrow> nat" where
  "NonceSize SecurityPolicyNone = 0"
| "NonceSize SecurityPolicyBasic128Rsa15 = 16"
| "NonceSize SecurityPolicyBasic256 = 32"
| "NonceSize SecurityPolicyBasic256Sha256 = 32"
| "NonceSize SecurityPolicyAes128Sha256RsaOaep = 32"
| "NonceSize SecurityPolicyAes256Sha256RsaPss = 32"

section \<open>The cryptographic packages\<close>

datatype hash_alg = SHA1 | SHA256

text \<open>The schemes the policies choose for RSA signatures and RSA encryption.\<close>

datatype sig_scheme = PKCS1v15_sig hash_alg | PSS hash_alg
datatype enc_scheme = PKCS1v15_enc | OAEP hash_alg

text \<open>
  HMAC of a key and a message; AES on one block with a key; RSA with a key, where
  the randomized operations take the random bytes they draw. Private and public
  keys are of parameter types. \<open>x509.ParseCertificates\<close> gives the public keys of a chain;
  a certificate may hold a key that is not RSA.
\<close>

datatype 'pub certkey = RSAKey 'pub | OtherKey

record ('priv, 'pub) crypto =
  cr_hmac :: "hash_alg \<Rightarrow> bytes \<Rightarrow> bytes \<Rightarrow> bytes"
  cr_aes_encrypt :: "bytes \<Rightarrow> bytes \<Rightarrow> bytes"
  cr_aes_decrypt :: "bytes \<Rightarrow> bytes \<Rightarrow> bytes"
  cr_priv_Size :: "'priv \<Rightarrow> nat"
  cr_pub_Size :: "'pub \<Rightarrow> nat"
  cr_sign :: "sig_scheme \<Rightarrow> bytes \<Rightarrow> 'priv \<Rightarrow> bytes \<Rightarrow> bytes res"
  cr_verify :: "sig_scheme \<Rightarrow> 'pub \<Rightarrow> bytes \<Rightarrow> bytes \<Rightarrow> bool"
  cr_encrypt :: "enc_scheme \<Rightarrow> bytes \<Rightarrow> 'pub \<Rightarrow> bytes \<Rightarrow> bytes res"
  cr_decrypt :: "enc_scheme \<Rightarrow> 'priv \<Rightarrow> bytes \<Rightarrow> bytes res"
  cr_sha1 :: "bytes \<Rightarrow> bytes"
  cr_ParseCertificates :: "bytes \<Rightarrow> 'pub certkey list res"

fun hash_size :: "hash_alg \<Rightarrow> nat" where
  "hash_size SHA1 = 20"
| "hash_size SHA256 = 32"

definition aes_BlockSize :: nat where
  "aes_BlockSize = 16"

text \<open>\<open>aes.NewCipher\<close>: the key sizes of AES-128, AES-192 and AES-256; others are an error.\<close>

definition aes_NewCipher :: "bytes \<Rightarrow> bytes option" where
  "aes_NewCipher key = (if length key \<in> {16, 24, 32} then Some key else None)"

text \<open>
  What the packages document of the symmetric operations: HMAC has the size of its
  hash; AES maps blocks to blocks, and decryption inverts encryption under the same
  key.
\<close>

definition crypto_ok :: "('priv, 'pub) crypto \<Rightarrow> bool" where
  "crypto_ok c \<longleftrightarrow>
     (\<forall>h key m. length (cr_hmac c h key m) = hash_size h)
   \<and> (\<forall>key b. length key \<in> {16, 24, 32} \<longrightarrow> length b = aes_BlockSize \<longrightarrow>
        length (cr_aes_encrypt c key b) = aes_BlockSize
      \<and> cr_aes_decrypt c key (cr_aes_encrypt c key b) = b)"

text \<open>
  A key pair of RSA: both halves have the modulus size; a signature has that size and
  verifies; a message that leaves the padding its scheme needs encrypts to one block
  of that size, which decrypts to the message.
\<close>

fun sig_of :: "SecurityPolicy \<Rightarrow> sig_scheme option" where
  "sig_of SecurityPolicyNone = None"
| "sig_of SecurityPolicyBasic128Rsa15 = Some (PKCS1v15_sig SHA1)"
| "sig_of SecurityPolicyBasic256 = Some (PKCS1v15_sig SHA1)"
| "sig_of SecurityPolicyBasic256Sha256 = Some (PKCS1v15_sig SHA256)"
| "sig_of SecurityPolicyAes128Sha256RsaOaep = Some (PKCS1v15_sig SHA256)"
| "sig_of SecurityPolicyAes256Sha256RsaPss = Some (PSS SHA256)"

fun enc_of :: "SecurityPolicy \<Rightarrow> enc_scheme option" where
  "enc_of SecurityPolicyNone = None"
| "enc_of SecurityPolicyBasic128Rsa15 = Some PKCS1v15_enc"
| "enc_of SecurityPolicyBasic256 = Some (OAEP SHA1)"
| "enc_of SecurityPolicyBasic256Sha256 = Some (OAEP SHA1)"
| "enc_of SecurityPolicyAes128Sha256RsaOaep = Some (OAEP SHA1)"
| "enc_of SecurityPolicyAes256Sha256RsaPss = Some (OAEP SHA256)"

fun scheme_padding :: "enc_scheme \<Rightarrow> nat" where
  "scheme_padding PKCS1v15_enc = 11"
| "scheme_padding (OAEP h) = 2 * hash_size h + 2"

definition key_pair :: "('priv, 'pub) crypto \<Rightarrow> 'priv \<Rightarrow> 'pub \<Rightarrow> bool" where
  "key_pair c priv pub \<longleftrightarrow> cr_priv_Size c priv = cr_pub_Size c pub
   \<and> (\<forall>s rnd m. \<exists>sg. cr_sign c s rnd priv m = Ok sg \<and> length sg = cr_priv_Size c priv \<and> cr_verify c s pub m sg)
   \<and> (\<forall>s rnd m. length m + scheme_padding s \<le> cr_pub_Size c pub \<longrightarrow>
        (\<exists>e. cr_encrypt c s rnd pub m = Ok e \<and> length e = cr_pub_Size c pub \<and> cr_decrypt c s priv e = Ok m))"

section \<open>Operations of the policies\<close>

text \<open>The policy without security rejects every RSA operation.\<close>

definition RSASign :: "('priv, 'pub) crypto \<Rightarrow> SecurityPolicy \<Rightarrow> bytes \<Rightarrow> 'priv \<Rightarrow> bytes \<Rightarrow> bytes res" where
  "RSASign c p rnd priv plainText = (case sig_of p of
       None \<Rightarrow> Err (Status BadSecurityPolicyRejected)
     | Some s \<Rightarrow> cr_sign c s rnd priv plainText)"

definition RSAVerify :: "('priv, 'pub) crypto \<Rightarrow> SecurityPolicy \<Rightarrow> 'pub \<Rightarrow> bytes \<Rightarrow> bytes \<Rightarrow> unit res" where
  "RSAVerify c p pub plainText signature = (case sig_of p of
       None \<Rightarrow> Err (Status BadSecurityPolicyRejected)
     | Some s \<Rightarrow> if cr_verify c s pub plainText signature then Ok () else Err (ErrOther ''verification error''))"

definition RSAEncrypt :: "('priv, 'pub) crypto \<Rightarrow> SecurityPolicy \<Rightarrow> bytes \<Rightarrow> 'pub \<Rightarrow> bytes \<Rightarrow> bytes res" where
  "RSAEncrypt c p rnd pub plainText = (case enc_of p of
       None \<Rightarrow> Err (Status BadSecurityPolicyRejected)
     | Some s \<Rightarrow> cr_encrypt c s rnd pub plainText)"

definition RSADecrypt :: "('priv, 'pub) crypto \<Rightarrow> SecurityPolicy \<Rightarrow> 'priv \<Rightarrow> bytes \<Rightarrow> bytes res" where
  "RSADecrypt c p priv cipherText = (case enc_of p of
       None \<Rightarrow> Err (Status BadSecurityPolicyRejected)
     | Some s \<Rightarrow> cr_decrypt c s priv cipherText)"

text \<open>
  \<open>hmac.New(h, key)\<close> is a hash object: the algorithm with its key. Each use resets it,
  writes the message and takes the sum. The policy without security has none (nil).
\<close>

type_synonym hasher = "hash_alg \<times> bytes"

fun SymHMACFactory :: "SecurityPolicy \<Rightarrow> bytes \<Rightarrow> hasher option" where
  "SymHMACFactory SecurityPolicyNone key = None"
| "SymHMACFactory SecurityPolicyBasic128Rsa15 key = Some (SHA1, key)"
| "SymHMACFactory SecurityPolicyBasic256 key = Some (SHA1, key)"
| "SymHMACFactory SecurityPolicyBasic256Sha256 key = Some (SHA256, key)"
| "SymHMACFactory SecurityPolicyAes128Sha256RsaOaep key = Some (SHA256, key)"
| "SymHMACFactory SecurityPolicyAes256Sha256RsaPss key = Some (SHA256, key)"

definition hash_sum :: "('priv, 'pub) crypto \<Rightarrow> hasher \<Rightarrow> bytes \<Rightarrow> bytes" where
  "hash_sum c h m = cr_hmac c (fst h) (snd h) m"

section \<open>Cipher block chaining\<close>

text \<open>\<open>cipher.NewCBCEncrypter(block, iv).CryptBlocks\<close> and its inverse, on whole blocks.\<close>

definition xor_bytes :: "bytes \<Rightarrow> bytes \<Rightarrow> bytes" where
  "xor_bytes a b = map2 (XOR) a b"

function cbc_encrypt :: "(bytes \<Rightarrow> bytes) \<Rightarrow> bytes \<Rightarrow> bytes \<Rightarrow> bytes" where
  "cbc_encrypt f iv xs =
     (if xs = [] then []
      else let b = f (xor_bytes (take aes_BlockSize xs) iv)
           in b @ cbc_encrypt f b (drop aes_BlockSize xs))"
  by pat_completeness auto
termination
  by (relation "measure (\<lambda>(_, _, xs). length xs)") (auto simp: aes_BlockSize_def)

function cbc_decrypt :: "(bytes \<Rightarrow> bytes) \<Rightarrow> bytes \<Rightarrow> bytes \<Rightarrow> bytes" where
  "cbc_decrypt g iv xs =
     (if xs = [] then []
      else let b = take aes_BlockSize xs
           in xor_bytes (g b) iv @ cbc_decrypt g b (drop aes_BlockSize xs))"
  by pat_completeness auto
termination
  by (relation "measure (\<lambda>(_, _, xs). length xs)") (auto simp: aes_BlockSize_def)

declare cbc_encrypt.simps [simp del] cbc_decrypt.simps [simp del]

text \<open>
  A use of the chain as the channels make it: a nil cipher, an initialization vector
  that is not one block, or a message that is not whole blocks panics.
\<close>

definition CBC_encrypt :: "('priv, 'pub) crypto \<Rightarrow> bytes option \<Rightarrow> bytes \<Rightarrow> bytes \<Rightarrow> bytes res" where
  "CBC_encrypt c block iv xs = (case block of
       None \<Rightarrow> Panic
     | Some key \<Rightarrow> if length iv \<noteq> aes_BlockSize \<or> length xs mod aes_BlockSize \<noteq> 0 then Panic
                   else Ok (cbc_encrypt (cr_aes_encrypt c key) iv xs))"

definition CBC_decrypt :: "('priv, 'pub) crypto \<Rightarrow> bytes option \<Rightarrow> bytes \<Rightarrow> bytes \<Rightarrow> bytes res" where
  "CBC_decrypt c block iv xs = (case block of
       None \<Rightarrow> Panic
     | Some key \<Rightarrow> if length iv \<noteq> aes_BlockSize \<or> length xs mod aes_BlockSize \<noteq> 0 then Panic
                   else Ok (cbc_decrypt (cr_aes_decrypt c key) iv xs))"

section \<open>Key derivation\<close>

text \<open>
  The loop of \<open>calculatePSHA\<close> with \<open>mac\<close> the keyed hash: \<open>a\<close> is hashed again in every
  iteration, and its hash with the seed appended fills the next part of the output.
\<close>

fun psha_loop :: "(bytes \<Rightarrow> bytes) \<Rightarrow> nat \<Rightarrow> bytes \<Rightarrow> nat \<Rightarrow> nat \<Rightarrow> nat \<Rightarrow> bytes \<Rightarrow> bytes \<Rightarrow> bytes" where
  "psha_loop mac sz seed sizeBytes 0 i a output = output"
| "psha_loop mac sz seed sizeBytes (Suc k) i a output =
     (let a' = mac a;
          buf2 = mac (a' @ seed);
          m = sz * i;
          n = min (sizeBytes - m) sz
      in psha_loop mac sz seed sizeBytes k (Suc i) a' (fst (copy_at output m (take n buf2))))"

definition psha_alg :: "string \<Rightarrow> hash_alg" where
  "psha_alg uri = (if uri = PolicyURI SecurityPolicyBasic128Rsa15 \<or> uri = PolicyURI SecurityPolicyBasic256
     then SHA1 else SHA256)"

definition calculatePSHA :: "('priv, 'pub) crypto \<Rightarrow> bytes \<Rightarrow> bytes \<Rightarrow> nat \<Rightarrow> string \<Rightarrow> bytes" where
  "calculatePSHA c secret seed sizeBytes uri =
     (let h = psha_alg uri; sz = hash_size h
      in psha_loop (cr_hmac c h secret) sz seed sizeBytes ((sizeBytes + sz - 1) div sz) 0 seed
           (replicate sizeBytes 0))"

text \<open>
  The specification (RFC 5246, section 5): \<open>P_hash\<close> is the infinite sequence of the
  hashes of \<open>A(i) + seed\<close> with \<open>A(0) = seed\<close> and \<open>A(i+1)\<close> the hash of \<open>A(i)\<close>; here its
  first \<open>k\<close> parts.
\<close>

fun P_hash :: "(bytes \<Rightarrow> bytes) \<Rightarrow> bytes \<Rightarrow> bytes \<Rightarrow> nat \<Rightarrow> bytes" where
  "P_hash mac seed a 0 = []"
| "P_hash mac seed a (Suc k) = mac (mac a @ seed) @ P_hash mac seed (mac a) k"

text \<open>
  The derived bytes are cut into a signing key, an encrypting key and an
  initialization vector (\<open>jj := copy(...)\<close> and the two lines after it).
\<close>

record sym_keys =
  sk_signing :: bytes
  sk_encrypting :: bytes
  sk_iv :: bytes

definition derive_keys :: "('priv, 'pub) crypto \<Rightarrow> SecurityPolicy \<Rightarrow> string \<Rightarrow> bytes \<Rightarrow> bytes \<Rightarrow> sym_keys" where
  "derive_keys c p uri secret seed =
     (let s = SymSignatureKeySize p; e = SymEncryptionKeySize p; b = SymEncryptionBlockSize p;
          k = calculatePSHA c secret seed (s + e + b) uri
      in \<lparr>sk_signing = take s k, sk_encrypting = take e (drop s k), sk_iv = take b (drop (s + e) k)\<rparr>)"

section \<open>Lemmas\<close>

lemma PolicyURI_policies: "setSecurityPolicy (PolicyURI p) = Some p"
  by (cases p) (simp_all add: setSecurityPolicy_def policies_def SecurityPolicyURINone_def)

lemma setSecurityPolicy_Some: "setSecurityPolicy uri = Some p \<Longrightarrow> uri = PolicyURI p"
  by (auto simp: setSecurityPolicy_def dest: map_of_SomeD)

lemma policy_cipher: "p \<noteq> SecurityPolicyNone \<Longrightarrow>
    SymEncryptionBlockSize p = aes_BlockSize \<and> SymEncryptionKeySize p \<in> {16, 24, 32}"
  by (cases p) (simp_all add: aes_BlockSize_def)

lemma policy_mac: "p \<noteq> SecurityPolicyNone \<Longrightarrow>
    \<exists>h. SymHMACFactory p key = Some (h, key) \<and> hash_size h = SymSignatureSize p"
  by (cases p) simp_all

lemma policy_padding: "p \<noteq> SecurityPolicyNone \<Longrightarrow>
    \<exists>s g. enc_of p = Some s \<and> sig_of p = Some g \<and> scheme_padding s = RSAPaddingSize p"
  by (cases p) simp_all

lemma block_size_pos [simp]: "0 < SymEncryptionBlockSize p"
  by (cases p) simp_all

lemma block_size_small [simp]: "SymEncryptionBlockSize p \<le> 16"
  by (cases p) simp_all

lemma sig_size_small: "SymSignatureSize p \<le> 32"
  by (cases p) simp_all

lemma length_xor_bytes [simp]: "length (xor_bytes a b) = min (length a) (length b)"
  by (simp add: xor_bytes_def)

lemma xor_bytes_twice: "length a = length b \<Longrightarrow> xor_bytes (xor_bytes a b) b = a"
  unfolding xor_bytes_def by (induction a b rule: list_induct2) (simp_all add: xor.assoc)

lemma cbc_decrypt_block:
  assumes "length b = aes_BlockSize"
  shows "cbc_decrypt g iv (b @ r) = xor_bytes (g b) iv @ cbc_decrypt g b r"
proof -
  from assms have "b \<noteq> []" by (auto simp: aes_BlockSize_def)
  with assms show ?thesis by (simp add: cbc_decrypt.simps [of g iv "b @ r"] Let_def)
qed

text \<open>Decryption of a chain inverts encryption when it does so on every block.\<close>

lemma cbc_inverse:
  assumes "length iv = aes_BlockSize" and "length xs mod aes_BlockSize = 0"
    and "\<And>b. length b = aes_BlockSize \<Longrightarrow> length (f b) = aes_BlockSize \<and> g (f b) = b"
  shows "length (cbc_encrypt f iv xs) = length xs \<and> cbc_decrypt g iv (cbc_encrypt f iv xs) = xs"
  using assms(1,2)
proof (induction xs arbitrary: iv rule: length_induct)
  case (1 xs)
  show ?case
  proof (cases "xs = []")
    case True
    then show ?thesis by (simp add: cbc_encrypt.simps cbc_decrypt.simps)
  next
    case False
    let ?x = "xor_bytes (take aes_BlockSize xs) iv"
    from False have pos: "0 < length xs" by simp
    with "1.prems"(2) have le: "aes_BlockSize \<le> length xs" by (auto simp: aes_BlockSize_def intro: dvd_imp_le)
    with "1.prems" have x: "length ?x = aes_BlockSize" "xor_bytes ?x iv = take aes_BlockSize xs"
      by (simp_all add: xor_bytes_twice min_absorb1)
    have b: "length (f ?x) = aes_BlockSize" "g (f ?x) = ?x" using assms(3) [OF x(1)] by simp_all
    have "length (drop aes_BlockSize xs) < length xs" using pos by (simp add: aes_BlockSize_def)
    moreover have "length (drop aes_BlockSize xs) mod aes_BlockSize = 0"
      using "1.prems"(2) le by (metis length_drop mod_mult_self1_is_0 le_mod_geq)
    ultimately have IH: "length (cbc_encrypt f (f ?x) (drop aes_BlockSize xs)) = length (drop aes_BlockSize xs)
        \<and> cbc_decrypt g (f ?x) (cbc_encrypt f (f ?x) (drop aes_BlockSize xs)) = drop aes_BlockSize xs"
      using "1.IH" [rule_format, OF _ b(1)] by simp
    have enc: "cbc_encrypt f iv xs = f ?x @ cbc_encrypt f (f ?x) (drop aes_BlockSize xs)"
      using False by (simp add: cbc_encrypt.simps [of f iv xs] Let_def)
    have "cbc_decrypt g iv (cbc_encrypt f iv xs) = xor_bytes (g (f ?x)) iv @ drop aes_BlockSize xs"
      unfolding enc cbc_decrypt_block [OF b(1)] using IH by simp
    moreover have "length (cbc_encrypt f iv xs) = length xs"
      unfolding enc using b(1) IH le by simp
    ultimately show ?thesis by (simp only: b(2) x(2) append_take_drop_id)
  qed
qed

lemma CBC_roundtrip:
  assumes "crypto_ok c" and "length key \<in> {16, 24, 32}" and "length iv = aes_BlockSize"
    and "length xs mod aes_BlockSize = 0"
  shows "\<exists>ys. CBC_encrypt c (Some key) iv xs = Ok ys \<and> length ys = length xs
       \<and> CBC_decrypt c (Some key) iv ys = Ok xs"
proof -
  have "length (cr_aes_encrypt c key b) = aes_BlockSize \<and> cr_aes_decrypt c key (cr_aes_encrypt c key b) = b"
    if "length b = aes_BlockSize" for b
    using assms(1,2) that unfolding crypto_ok_def by blast
  from cbc_inverse [OF assms(3,4) this] assms(3,4) show ?thesis
    by (simp add: CBC_encrypt_def CBC_decrypt_def)
qed

text \<open>The derived bytes are the first \<open>sizeBytes\<close> bytes of \<open>P_hash\<close>.\<close>

lemma length_P_hash: "(\<And>m. length (mac m) = sz) \<Longrightarrow> length (P_hash mac seed a k) = k * sz"
  by (induction k arbitrary: a) simp_all

lemma psha_loop_P_hash:
  assumes "\<And>m. length (mac m) = sz" and "length buf = sizeBytes" and "sz * (i + k - 1) \<le> sizeBytes"
    and "0 < sz" and "sizeBytes \<le> sz * (i + k)"
  shows "psha_loop mac sz seed sizeBytes k i a buf
     = take (sz * i) buf @ take (sizeBytes - sz * i) (P_hash mac seed a k)"
  using assms(2,3,5)
proof (induction k arbitrary: i a buf)
  case 0
  then show ?case by simp
next
  case (Suc k)
  let ?b = "mac (mac a @ seed)"
  let ?n = "min (sizeBytes - sz * i) sz"
  let ?o = "fst (copy_at buf (sz * i) (take ?n ?b))"
  have le: "sz * i \<le> sizeBytes" using Suc.prems(2) by (simp add: algebra_simps) 
  have o: "?o = take (sz * i) buf @ take ?n ?b @ drop (sz * i + ?n) buf"
    using Suc.prems(1) assms(1) le by (cases "sz \<le> sizeBytes - sz * i") (simp_all add: copy_at_def Let_def)
  have len: "length ?o = sizeBytes" using Suc.prems(1) le o assms(1) by simp
  have IH: "psha_loop mac sz seed sizeBytes k (Suc i) (mac a) ?o
     = take (sz * Suc i) ?o @ take (sizeBytes - sz * Suc i) (P_hash mac seed (mac a) k)"
    using Suc.prems by (intro Suc.IH [OF len]) (simp_all add: algebra_simps)
  have "take (sz * Suc i) ?o = take (sz * i) buf @ take ?n ?b"
  proof (cases "sz \<le> sizeBytes - sz * i")
    case True
    then have "?n = sz" by simp
    with True Suc.prems(1) le assms(1) show ?thesis unfolding o by simp
  next
    case False
    then have "?n = sizeBytes - sz * i" "sizeBytes < sz * Suc i" by simp_all
    with False Suc.prems(1) le assms(1) show ?thesis unfolding o by simp
  qed
  with IH show ?case using assms(1) le by (auto simp: Let_def min_def add.commute)
qed

lemma P_hash_add: "\<exists>b. P_hash mac seed a (j + k) = P_hash mac seed a j @ P_hash mac seed b k"
proof (induction j arbitrary: a)
  case 0
  show ?case by (rule exI [of _ a]) simp
next
  case (Suc j)
  from Suc.IH [of "mac a"] show ?case by simp
qed

lemma P_hash_prefix:
  assumes "\<And>m. length (mac m) = sz" and "n \<le> j * sz" and "j \<le> k"
  shows "take n (P_hash mac seed a j) = take n (P_hash mac seed a k)"
proof -
  obtain b where "P_hash mac seed a (j + (k - j)) = P_hash mac seed a j @ P_hash mac seed b (k - j)"
    using P_hash_add by blast
  with assms show ?thesis by (simp add: length_P_hash [of mac sz])
qed

lemma calculatePSHA_P_hash:
  assumes "crypto_ok c" and "sizeBytes \<le> k"
  shows "calculatePSHA c secret seed sizeBytes uri
     = take sizeBytes (P_hash (cr_hmac c (psha_alg uri) secret) seed seed k)"
proof -
  let ?mac = "cr_hmac c (psha_alg uri) secret"
  let ?sz = "hash_size (psha_alg uri)"
  let ?k = "(sizeBytes + ?sz - 1) div ?sz"
  have mac: "length (?mac m) = ?sz" for m using assms(1) by (simp add: crypto_ok_def)
  have sz: "0 < ?sz" by (cases "psha_alg uri") simp_all
  have up: "sizeBytes \<le> ?sz * ?k"
    using sz dividend_less_times_div [of ?sz "sizeBytes + ?sz - 1"] by linarith
  have lo: "?sz * (?k - 1) \<le> sizeBytes"
  proof -
    have "?sz * ?k \<le> sizeBytes + ?sz - 1" by (rule times_div_less_eq_dividend)
    then have "?sz * ?k - ?sz \<le> sizeBytes" by linarith
    then show ?thesis by (simp only: right_diff_distrib' mult_1_right)
  qed
  have k: "?k \<le> sizeBytes"
  proof -
    have "?sz * ?k \<le> sizeBytes + ?sz - 1" by (rule times_div_less_eq_dividend)
    then have "?sz * ?k < ?sz * (sizeBytes + 1)"
    proof -
      have "?sz * (sizeBytes + 1) = ?sz * sizeBytes + ?sz" "sizeBytes \<le> ?sz * sizeBytes"
        using sz by (simp_all add: distrib_left)
      with \<open>?sz * ?k \<le> sizeBytes + ?sz - 1\<close> sz show ?thesis by linarith
    qed
    then have "?k < sizeBytes + 1" by (rule mult_left_less_imp_less) simp
    then show ?thesis by simp
  qed
  have "calculatePSHA c secret seed sizeBytes uri = take sizeBytes (P_hash ?mac seed seed ?k)"
    using psha_loop_P_hash [where mac = ?mac and buf = "replicate sizeBytes 0" and sizeBytes = sizeBytes
        and i = 0 and k = ?k and seed = seed and a = seed, OF mac] lo up sz
    by (simp add: calculatePSHA_def Let_def)
  also have "\<dots> = take sizeBytes (P_hash ?mac seed seed k)"
    using P_hash_prefix [where mac = ?mac and n = sizeBytes and j = ?k and k = k, OF mac] up k assms(2) by (simp add: mult.commute)
  finally show ?thesis .
qed

lemma length_calculatePSHA:
  assumes "crypto_ok c"
  shows "length (calculatePSHA c secret seed n uri) = n"
proof -
  have "length (P_hash (cr_hmac c (psha_alg uri) secret) seed seed n) = n * hash_size (psha_alg uri)"
    using assms by (intro length_P_hash) (simp add: crypto_ok_def)
  moreover have "n \<le> n * hash_size (psha_alg uri)" by (cases "psha_alg uri") simp_all
  ultimately show ?thesis by (simp add: calculatePSHA_P_hash [OF assms order_refl])
qed

lemma derive_keys_sizes:
  assumes "crypto_ok c" and "p \<noteq> SecurityPolicyNone"
  shows "length (sk_encrypting (derive_keys c p uri secret seed)) \<in> {16, 24, 32}"
    and "length (sk_iv (derive_keys c p uri secret seed)) = aes_BlockSize"
  using policy_cipher [OF assms(2)] length_calculatePSHA [OF assms(1)]
  by (simp_all add: derive_keys_def Let_def)

end
