(* ===== verification/Ua_Structs.thy ===== *)
theory Ua_Structs
  imports Codec
begin

text \<open>
  The structures of \<open>ua/structs.generated.go\<close> as the reflective codec sees them: the
  name of each and the types of its fields in order, and the table with which the
  package's \<open>init\<close> fills the registry of encoding ids. An embedded header is a field
  of the header's type. The ids are those of \<open>ua/nodeids.generated.go\<close>.
\<close>

named_theorems struct_defs \<open>the structures\<close>

section \<open>Structures\<close>

definition KeyValuePair_type :: gotype where
  [struct_defs]: "KeyValuePair_type = TStruct ''KeyValuePair'' [TScalar KQualifiedName, TVariant]"

definition AdditionalParametersType_type :: gotype where
  [struct_defs]: "AdditionalParametersType_type = TStruct ''AdditionalParametersType'' [
     TSlice KeyValuePair_type]"

definition EphemeralKeyType_type :: gotype where
  [struct_defs]: "EphemeralKeyType_type = TStruct ''EphemeralKeyType'' [TScalar KByteString,
     TScalar KByteString]"

definition EndpointType_type :: gotype where
  [struct_defs]: "EndpointType_type = TStruct ''EndpointType'' [TScalar KString,
     TEnum ''MessageSecurityMode'', TScalar KString, TScalar KString]"

definition RationalNumber_type :: gotype where
  [struct_defs]: "RationalNumber_type = TStruct ''RationalNumber'' [TScalar KInt32,
     TScalar KUint32]"

definition Vector_type :: gotype where
  [struct_defs]: "Vector_type = TStruct ''Vector'' []"

definition ThreeDVector_type :: gotype where
  [struct_defs]: "ThreeDVector_type = TStruct ''ThreeDVector'' [TScalar KFloat64,
     TScalar KFloat64, TScalar KFloat64]"

definition CartesianCoordinates_type :: gotype where
  [struct_defs]: "CartesianCoordinates_type = TStruct ''CartesianCoordinates'' []"

definition ThreeDCartesianCoordinates_type :: gotype where
  [struct_defs]: "ThreeDCartesianCoordinates_type = TStruct ''ThreeDCartesianCoordinates'' [
     TScalar KFloat64, TScalar KFloat64, TScalar KFloat64]"

definition Orientation_type :: gotype where
  [struct_defs]: "Orientation_type = TStruct ''Orientation'' []"

definition ThreeDOrientation_type :: gotype where
  [struct_defs]: "ThreeDOrientation_type = TStruct ''ThreeDOrientation'' [TScalar KFloat64,
     TScalar KFloat64, TScalar KFloat64]"

definition Frame_type :: gotype where
  [struct_defs]: "Frame_type = TStruct ''Frame'' []"

definition ThreeDFrame_type :: gotype where
  [struct_defs]: "ThreeDFrame_type = TStruct ''ThreeDFrame'' [ThreeDCartesianCoordinates_type,
     ThreeDOrientation_type]"

definition IdentityMappingRuleType_type :: gotype where
  [struct_defs]: "IdentityMappingRuleType_type = TStruct ''IdentityMappingRuleType'' [
     TEnum ''IdentityCriteriaType'', TScalar KString]"

definition CurrencyUnitType_type :: gotype where
  [struct_defs]: "CurrencyUnitType_type = TStruct ''CurrencyUnitType'' [TScalar KInt16,
     TScalar KInt8, TScalar KString, TScalar KLocalizedText]"

definition TrustListDataType_type :: gotype where
  [struct_defs]: "TrustListDataType_type = TStruct ''TrustListDataType'' [TScalar KUint32,
     TSlice (TScalar KByteString), TSlice (TScalar KByteString), TSlice (TScalar KByteString),
     TSlice (TScalar KByteString)]"

definition DecimalDataType_type :: gotype where
  [struct_defs]: "DecimalDataType_type = TStruct ''DecimalDataType'' [TScalar KInt16,
     TScalar KByteString]"

definition StructureField_type :: gotype where
  [struct_defs]: "StructureField_type = TStruct ''StructureField'' [TScalar KString,
     TScalar KLocalizedText, TScalar KNodeID, TScalar KInt32, TSlice (TScalar KUint32),
     TScalar KUint32, TScalar KBool]"

definition StructureDefinition_type :: gotype where
  [struct_defs]: "StructureDefinition_type = TStruct ''StructureDefinition'' [TScalar KNodeID,
     TScalar KNodeID, TEnum ''StructureType'', TSlice StructureField_type]"

definition StructureDescription_type :: gotype where
  [struct_defs]: "StructureDescription_type = TStruct ''StructureDescription'' [TScalar KNodeID,
     TScalar KQualifiedName, StructureDefinition_type]"

definition EnumField_type :: gotype where
  [struct_defs]: "EnumField_type = TStruct ''EnumField'' [TScalar KInt64, TScalar KLocalizedText,
     TScalar KLocalizedText, TScalar KString]"

definition EnumDefinition_type :: gotype where
  [struct_defs]: "EnumDefinition_type = TStruct ''EnumDefinition'' [TSlice EnumField_type]"

definition EnumDescription_type :: gotype where
  [struct_defs]: "EnumDescription_type = TStruct ''EnumDescription'' [TScalar KNodeID,
     TScalar KQualifiedName, EnumDefinition_type, TScalar KUint8]"

definition SimpleTypeDescription_type :: gotype where
  [struct_defs]: "SimpleTypeDescription_type = TStruct ''SimpleTypeDescription'' [
     TScalar KNodeID, TScalar KQualifiedName, TScalar KNodeID, TScalar KUint8]"

definition DataTypeSchemaHeader_type :: gotype where
  [struct_defs]: "DataTypeSchemaHeader_type = TStruct ''DataTypeSchemaHeader'' [
     TSlice (TScalar KString), TSlice StructureDescription_type, TSlice EnumDescription_type,
     TSlice SimpleTypeDescription_type]"

definition DataTypeDescription_type :: gotype where
  [struct_defs]: "DataTypeDescription_type = TStruct ''DataTypeDescription'' [TScalar KNodeID,
     TScalar KQualifiedName]"

definition UABinaryFileDataType_type :: gotype where
  [struct_defs]: "UABinaryFileDataType_type = TStruct ''UABinaryFileDataType'' [
     TSlice (TScalar KString), TSlice StructureDescription_type, TSlice EnumDescription_type,
     TSlice SimpleTypeDescription_type, TScalar KString, TSlice KeyValuePair_type, TVariant]"

definition FieldMetaData_type :: gotype where
  [struct_defs]: "FieldMetaData_type = TStruct ''FieldMetaData'' [TScalar KString,
     TScalar KLocalizedText, TEnum ''DataSetFieldFlags'', TScalar KUint8, TScalar KNodeID,
     TScalar KInt32, TSlice (TScalar KUint32), TScalar KUint32, TScalar KGUID,
     TSlice KeyValuePair_type]"

definition ConfigurationVersionDataType_type :: gotype where
  [struct_defs]: "ConfigurationVersionDataType_type = TStruct ''ConfigurationVersionDataType'' [
     TScalar KUint32, TScalar KUint32]"

definition DataSetMetaDataType_type :: gotype where
  [struct_defs]: "DataSetMetaDataType_type = TStruct ''DataSetMetaDataType'' [
     TSlice (TScalar KString), TSlice StructureDescription_type, TSlice EnumDescription_type,
     TSlice SimpleTypeDescription_type, TScalar KString, TScalar KLocalizedText,
     TSlice FieldMetaData_type, TScalar KGUID, ConfigurationVersionDataType_type]"

definition PublishedDataSetDataType_type :: gotype where
  [struct_defs]: "PublishedDataSetDataType_type = TStruct ''PublishedDataSetDataType'' [
     TScalar KString, TSlice (TScalar KString), DataSetMetaDataType_type,
     TSlice KeyValuePair_type, TExtensionObject]"

definition PublishedDataSetSourceDataType_type :: gotype where
  [struct_defs]: "PublishedDataSetSourceDataType_type = TStruct ''PublishedDataSetSourceDataType'' []"

definition PublishedVariableDataType_type :: gotype where
  [struct_defs]: "PublishedVariableDataType_type = TStruct ''PublishedVariableDataType'' [
     TScalar KNodeID, TScalar KUint32, TScalar KFloat64, TScalar KUint32, TScalar KFloat64,
     TScalar KString, TVariant, TSlice (TScalar KQualifiedName)]"

definition PublishedDataItemsDataType_type :: gotype where
  [struct_defs]: "PublishedDataItemsDataType_type = TStruct ''PublishedDataItemsDataType'' [
     TSlice PublishedVariableDataType_type]"

definition SimpleAttributeOperand_type :: gotype where
  [struct_defs]: "SimpleAttributeOperand_type = TStruct ''SimpleAttributeOperand'' [
     TScalar KNodeID, TSlice (TScalar KQualifiedName), TScalar KUint32, TScalar KString]"

definition ContentFilterElement_type :: gotype where
  [struct_defs]: "ContentFilterElement_type = TStruct ''ContentFilterElement'' [
     TEnum ''FilterOperator'', TSlice TExtensionObject]"

definition ContentFilter_type :: gotype where
  [struct_defs]: "ContentFilter_type = TStruct ''ContentFilter'' [TSlice ContentFilterElement_type]"

definition PublishedEventsDataType_type :: gotype where
  [struct_defs]: "PublishedEventsDataType_type = TStruct ''PublishedEventsDataType'' [
     TScalar KNodeID, TSlice SimpleAttributeOperand_type, ContentFilter_type]"

definition DataSetWriterDataType_type :: gotype where
  [struct_defs]: "DataSetWriterDataType_type = TStruct ''DataSetWriterDataType'' [
     TScalar KString, TScalar KBool, TScalar KUint16, TEnum ''DataSetFieldContentMask'',
     TScalar KUint32, TScalar KString, TSlice KeyValuePair_type, TExtensionObject,
     TExtensionObject]"

definition DataSetWriterTransportDataType_type :: gotype where
  [struct_defs]: "DataSetWriterTransportDataType_type = TStruct ''DataSetWriterTransportDataType'' []"

definition DataSetWriterMessageDataType_type :: gotype where
  [struct_defs]: "DataSetWriterMessageDataType_type = TStruct ''DataSetWriterMessageDataType'' []"

definition ApplicationDescription_type :: gotype where
  [struct_defs]: "ApplicationDescription_type = TStruct ''ApplicationDescription'' [
     TScalar KString, TScalar KString, TScalar KLocalizedText, TEnum ''ApplicationType'',
     TScalar KString, TScalar KString, TSlice (TScalar KString)]"

definition UserTokenPolicy_type :: gotype where
  [struct_defs]: "UserTokenPolicy_type = TStruct ''UserTokenPolicy'' [TScalar KString,
     TEnum ''UserTokenType'', TScalar KString, TScalar KString, TScalar KString]"

definition EndpointDescription_type :: gotype where
  [struct_defs]: "EndpointDescription_type = TStruct ''EndpointDescription'' [TScalar KString,
     ApplicationDescription_type, TScalar KByteString, TEnum ''MessageSecurityMode'',
     TScalar KString, TSlice UserTokenPolicy_type, TScalar KString, TScalar KUint8]"

definition PubSubGroupDataType_type :: gotype where
  [struct_defs]: "PubSubGroupDataType_type = TStruct ''PubSubGroupDataType'' [TScalar KString,
     TScalar KBool, TEnum ''MessageSecurityMode'', TScalar KString,
     TSlice EndpointDescription_type, TScalar KUint32, TSlice KeyValuePair_type]"

definition WriterGroupDataType_type :: gotype where
  [struct_defs]: "WriterGroupDataType_type = TStruct ''WriterGroupDataType'' [TScalar KString,
     TScalar KBool, TEnum ''MessageSecurityMode'', TScalar KString,
     TSlice EndpointDescription_type, TScalar KUint32, TSlice KeyValuePair_type, TScalar KUint16,
     TScalar KFloat64, TScalar KFloat64, TScalar KUint8, TSlice (TScalar KString),
     TScalar KString, TExtensionObject, TExtensionObject, TSlice DataSetWriterDataType_type]"

definition WriterGroupTransportDataType_type :: gotype where
  [struct_defs]: "WriterGroupTransportDataType_type = TStruct ''WriterGroupTransportDataType'' []"

definition WriterGroupMessageDataType_type :: gotype where
  [struct_defs]: "WriterGroupMessageDataType_type = TStruct ''WriterGroupMessageDataType'' []"

definition DataSetReaderDataType_type :: gotype where
  [struct_defs]: "DataSetReaderDataType_type = TStruct ''DataSetReaderDataType'' [
     TScalar KString, TScalar KBool, TVariant, TScalar KUint16, TScalar KUint16,
     DataSetMetaDataType_type, TEnum ''DataSetFieldContentMask'', TScalar KFloat64,
     TScalar KUint32, TScalar KString, TEnum ''MessageSecurityMode'', TScalar KString,
     TSlice EndpointDescription_type, TSlice KeyValuePair_type, TExtensionObject,
     TExtensionObject, TExtensionObject]"

definition ReaderGroupDataType_type :: gotype where
  [struct_defs]: "ReaderGroupDataType_type = TStruct ''ReaderGroupDataType'' [TScalar KString,
     TScalar KBool, TEnum ''MessageSecurityMode'', TScalar KString,
     TSlice EndpointDescription_type, TScalar KUint32, TSlice KeyValuePair_type,
     TExtensionObject, TExtensionObject, TSlice DataSetReaderDataType_type]"

definition PubSubConnectionDataType_type :: gotype where
  [struct_defs]: "PubSubConnectionDataType_type = TStruct ''PubSubConnectionDataType'' [
     TScalar KString, TScalar KBool, TVariant, TScalar KString, TExtensionObject,
     TSlice KeyValuePair_type, TExtensionObject, TSlice WriterGroupDataType_type,
     TSlice ReaderGroupDataType_type]"

definition ConnectionTransportDataType_type :: gotype where
  [struct_defs]: "ConnectionTransportDataType_type = TStruct ''ConnectionTransportDataType'' []"

definition NetworkAddressDataType_type :: gotype where
  [struct_defs]: "NetworkAddressDataType_type = TStruct ''NetworkAddressDataType'' [
     TScalar KString]"

definition NetworkAddressURLDataType_type :: gotype where
  [struct_defs]: "NetworkAddressURLDataType_type = TStruct ''NetworkAddressURLDataType'' [
     TScalar KString, TScalar KString]"

definition ReaderGroupTransportDataType_type :: gotype where
  [struct_defs]: "ReaderGroupTransportDataType_type = TStruct ''ReaderGroupTransportDataType'' []"

definition ReaderGroupMessageDataType_type :: gotype where
  [struct_defs]: "ReaderGroupMessageDataType_type = TStruct ''ReaderGroupMessageDataType'' []"

definition DataSetReaderTransportDataType_type :: gotype where
  [struct_defs]: "DataSetReaderTransportDataType_type = TStruct ''DataSetReaderTransportDataType'' []"

definition DataSetReaderMessageDataType_type :: gotype where
  [struct_defs]: "DataSetReaderMessageDataType_type = TStruct ''DataSetReaderMessageDataType'' []"

definition SubscribedDataSetDataType_type :: gotype where
  [struct_defs]: "SubscribedDataSetDataType_type = TStruct ''SubscribedDataSetDataType'' []"

definition FieldTargetDataType_type :: gotype where
  [struct_defs]: "FieldTargetDataType_type = TStruct ''FieldTargetDataType'' [TScalar KGUID,
     TScalar KString, TScalar KNodeID, TScalar KUint32, TScalar KString,
     TEnum ''OverrideValueHandling'', TVariant]"

definition TargetVariablesDataType_type :: gotype where
  [struct_defs]: "TargetVariablesDataType_type = TStruct ''TargetVariablesDataType'' [
     TSlice FieldTargetDataType_type]"

definition RolePermissionType_type :: gotype where
  [struct_defs]: "RolePermissionType_type = TStruct ''RolePermissionType'' [TScalar KNodeID,
     TEnum ''PermissionType'']"

definition SubscribedDataSetMirrorDataType_type :: gotype where
  [struct_defs]: "SubscribedDataSetMirrorDataType_type = TStruct ''SubscribedDataSetMirrorDataType'' [
     TScalar KString, TSlice RolePermissionType_type]"

definition PubSubConfigurationDataType_type :: gotype where
  [struct_defs]: "PubSubConfigurationDataType_type = TStruct ''PubSubConfigurationDataType'' [
     TSlice PublishedDataSetDataType_type, TSlice PubSubConnectionDataType_type, TScalar KBool]"

definition UADPWriterGroupMessageDataType_type :: gotype where
  [struct_defs]: "UADPWriterGroupMessageDataType_type = TStruct ''UADPWriterGroupMessageDataType'' [
     TScalar KUint32, TEnum ''DataSetOrderingType'', TEnum ''UADPNetworkMessageContentMask'',
     TScalar KFloat64, TSlice (TScalar KFloat64)]"

definition UADPDataSetWriterMessageDataType_type :: gotype where
  [struct_defs]: "UADPDataSetWriterMessageDataType_type = TStruct ''UADPDataSetWriterMessageDataType'' [
     TEnum ''UADPDataSetMessageContentMask'', TScalar KUint16, TScalar KUint16, TScalar KUint16]"

definition UADPDataSetReaderMessageDataType_type :: gotype where
  [struct_defs]: "UADPDataSetReaderMessageDataType_type = TStruct ''UADPDataSetReaderMessageDataType'' [
     TScalar KUint32, TScalar KUint16, TScalar KUint16, TScalar KGUID,
     TEnum ''UADPNetworkMessageContentMask'', TEnum ''UADPDataSetMessageContentMask'',
     TScalar KFloat64, TScalar KFloat64, TScalar KFloat64]"

definition JSONWriterGroupMessageDataType_type :: gotype where
  [struct_defs]: "JSONWriterGroupMessageDataType_type = TStruct ''JSONWriterGroupMessageDataType'' [
     TEnum ''JSONNetworkMessageContentMask'']"

definition JSONDataSetWriterMessageDataType_type :: gotype where
  [struct_defs]: "JSONDataSetWriterMessageDataType_type = TStruct ''JSONDataSetWriterMessageDataType'' [
     TEnum ''JSONDataSetMessageContentMask'']"

definition JSONDataSetReaderMessageDataType_type :: gotype where
  [struct_defs]: "JSONDataSetReaderMessageDataType_type = TStruct ''JSONDataSetReaderMessageDataType'' [
     TEnum ''JSONNetworkMessageContentMask'', TEnum ''JSONDataSetMessageContentMask'']"

definition DatagramConnectionTransportDataType_type :: gotype where
  [struct_defs]: "DatagramConnectionTransportDataType_type = TStruct ''DatagramConnectionTransportDataType'' [
     TExtensionObject]"

definition DatagramWriterGroupTransportDataType_type :: gotype where
  [struct_defs]: "DatagramWriterGroupTransportDataType_type = TStruct ''DatagramWriterGroupTransportDataType'' [
     TScalar KUint8, TScalar KFloat64]"

definition BrokerConnectionTransportDataType_type :: gotype where
  [struct_defs]: "BrokerConnectionTransportDataType_type = TStruct ''BrokerConnectionTransportDataType'' [
     TScalar KString, TScalar KString]"

definition BrokerWriterGroupTransportDataType_type :: gotype where
  [struct_defs]: "BrokerWriterGroupTransportDataType_type = TStruct ''BrokerWriterGroupTransportDataType'' [
     TScalar KString, TScalar KString, TScalar KString, TEnum ''BrokerTransportQoS'']"

definition BrokerDataSetWriterTransportDataType_type :: gotype where
  [struct_defs]: "BrokerDataSetWriterTransportDataType_type = TStruct ''BrokerDataSetWriterTransportDataType'' [
     TScalar KString, TScalar KString, TScalar KString, TEnum ''BrokerTransportQoS'',
     TScalar KString, TScalar KFloat64]"

definition BrokerDataSetReaderTransportDataType_type :: gotype where
  [struct_defs]: "BrokerDataSetReaderTransportDataType_type = TStruct ''BrokerDataSetReaderTransportDataType'' [
     TScalar KString, TScalar KString, TScalar KString, TEnum ''BrokerTransportQoS'',
     TScalar KString]"

definition AliasNameDataType_type :: gotype where
  [struct_defs]: "AliasNameDataType_type = TStruct ''AliasNameDataType'' [TScalar KQualifiedName,
     TSlice (TScalar KExpandedNodeID)]"

definition Argument_type :: gotype where
  [struct_defs]: "Argument_type = TStruct ''Argument'' [TScalar KString, TScalar KNodeID,
     TScalar KInt32, TSlice (TScalar KUint32), TScalar KLocalizedText]"

definition EnumValueType_type :: gotype where
  [struct_defs]: "EnumValueType_type = TStruct ''EnumValueType'' [TScalar KInt64,
     TScalar KLocalizedText, TScalar KLocalizedText]"

definition OptionSet_type :: gotype where
  [struct_defs]: "OptionSet_type = TStruct ''OptionSet'' [TScalar KByteString, TScalar KByteString]"

definition Union_type :: gotype where
  [struct_defs]: "Union_type = TStruct ''Union'' []"

definition TimeZoneDataType_type :: gotype where
  [struct_defs]: "TimeZoneDataType_type = TStruct ''TimeZoneDataType'' [TScalar KInt16,
     TScalar KBool]"

definition RequestHeader_type :: gotype where
  [struct_defs]: "RequestHeader_type = TStruct ''RequestHeader'' [TScalar KNodeID,
     TScalar KDateTime, TScalar KUint32, TScalar KUint32, TScalar KString, TScalar KUint32,
     TExtensionObject]"

definition ResponseHeader_type :: gotype where
  [struct_defs]: "ResponseHeader_type = TStruct ''ResponseHeader'' [TScalar KDateTime,
     TScalar KUint32, TScalar KStatusCode, TDiagnosticInfo, TSlice (TScalar KString),
     TExtensionObject]"

definition ServiceFault_type :: gotype where
  [struct_defs]: "ServiceFault_type = TStruct ''ServiceFault'' [ResponseHeader_type]"

definition SessionlessInvokeRequestType_type :: gotype where
  [struct_defs]: "SessionlessInvokeRequestType_type = TStruct ''SessionlessInvokeRequestType'' [
     TSlice (TScalar KUint32), TSlice (TScalar KString), TSlice (TScalar KString),
     TSlice (TScalar KString), TScalar KUint32]"

definition SessionlessInvokeResponseType_type :: gotype where
  [struct_defs]: "SessionlessInvokeResponseType_type = TStruct ''SessionlessInvokeResponseType'' [
     TSlice (TScalar KString), TSlice (TScalar KString), TScalar KUint32]"

definition FindServersRequest_type :: gotype where
  [struct_defs]: "FindServersRequest_type = TStruct ''FindServersRequest'' [RequestHeader_type,
     TScalar KString, TSlice (TScalar KString), TSlice (TScalar KString)]"

definition FindServersResponse_type :: gotype where
  [struct_defs]: "FindServersResponse_type = TStruct ''FindServersResponse'' [
     ResponseHeader_type, TSlice ApplicationDescription_type]"

definition ServerOnNetwork_type :: gotype where
  [struct_defs]: "ServerOnNetwork_type = TStruct ''ServerOnNetwork'' [TScalar KUint32,
     TScalar KString, TScalar KString, TSlice (TScalar KString)]"

definition FindServersOnNetworkRequest_type :: gotype where
  [struct_defs]: "FindServersOnNetworkRequest_type = TStruct ''FindServersOnNetworkRequest'' [
     RequestHeader_type, TScalar KUint32, TScalar KUint32, TSlice (TScalar KString)]"

definition FindServersOnNetworkResponse_type :: gotype where
  [struct_defs]: "FindServersOnNetworkResponse_type = TStruct ''FindServersOnNetworkResponse'' [
     ResponseHeader_type, TScalar KDateTime, TSlice ServerOnNetwork_type]"

definition GetEndpointsRequest_type :: gotype where
  [struct_defs]: "GetEndpointsRequest_type = TStruct ''GetEndpointsRequest'' [RequestHeader_type,
     TScalar KString, TSlice (TScalar KString), TSlice (TScalar KString)]"

definition GetEndpointsResponse_type :: gotype where
  [struct_defs]: "GetEndpointsResponse_type = TStruct ''GetEndpointsResponse'' [
     ResponseHeader_type, TSlice EndpointDescription_type]"

definition RegisteredServer_type :: gotype where
  [struct_defs]: "RegisteredServer_type = TStruct ''RegisteredServer'' [TScalar KString,
     TScalar KString, TSlice (TScalar KLocalizedText), TEnum ''ApplicationType'',
     TScalar KString, TSlice (TScalar KString), TScalar KString, TScalar KBool]"

definition RegisterServerRequest_type :: gotype where
  [struct_defs]: "RegisterServerRequest_type = TStruct ''RegisterServerRequest'' [
     RequestHeader_type, RegisteredServer_type]"

definition RegisterServerResponse_type :: gotype where
  [struct_defs]: "RegisterServerResponse_type = TStruct ''RegisterServerResponse'' [
     ResponseHeader_type]"

definition DiscoveryConfiguration_type :: gotype where
  [struct_defs]: "DiscoveryConfiguration_type = TStruct ''DiscoveryConfiguration'' []"

definition MdnsDiscoveryConfiguration_type :: gotype where
  [struct_defs]: "MdnsDiscoveryConfiguration_type = TStruct ''MdnsDiscoveryConfiguration'' [
     TScalar KString, TSlice (TScalar KString)]"

definition RegisterServer2Request_type :: gotype where
  [struct_defs]: "RegisterServer2Request_type = TStruct ''RegisterServer2Request'' [
     RequestHeader_type, RegisteredServer_type, TSlice TExtensionObject]"

definition RegisterServer2Response_type :: gotype where
  [struct_defs]: "RegisterServer2Response_type = TStruct ''RegisterServer2Response'' [
     ResponseHeader_type, TSlice (TScalar KStatusCode), TSlice TDiagnosticInfo]"

definition ChannelSecurityToken_type :: gotype where
  [struct_defs]: "ChannelSecurityToken_type = TStruct ''ChannelSecurityToken'' [TScalar KUint32,
     TScalar KUint32, TScalar KDateTime, TScalar KUint32]"

definition OpenSecureChannelRequest_type :: gotype where
  [struct_defs]: "OpenSecureChannelRequest_type = TStruct ''OpenSecureChannelRequest'' [
     RequestHeader_type, TScalar KUint32, TEnum ''SecurityTokenRequestType'',
     TEnum ''MessageSecurityMode'', TScalar KByteString, TScalar KUint32]"

definition OpenSecureChannelResponse_type :: gotype where
  [struct_defs]: "OpenSecureChannelResponse_type = TStruct ''OpenSecureChannelResponse'' [
     ResponseHeader_type, TScalar KUint32, ChannelSecurityToken_type, TScalar KByteString]"

definition CloseSecureChannelRequest_type :: gotype where
  [struct_defs]: "CloseSecureChannelRequest_type = TStruct ''CloseSecureChannelRequest'' [
     RequestHeader_type]"

definition CloseSecureChannelResponse_type :: gotype where
  [struct_defs]: "CloseSecureChannelResponse_type = TStruct ''CloseSecureChannelResponse'' [
     ResponseHeader_type]"

definition SignedSoftwareCertificate_type :: gotype where
  [struct_defs]: "SignedSoftwareCertificate_type = TStruct ''SignedSoftwareCertificate'' [
     TScalar KByteString, TScalar KByteString]"

definition SignatureData_type :: gotype where
  [struct_defs]: "SignatureData_type = TStruct ''SignatureData'' [TScalar KString,
     TScalar KByteString]"

definition CreateSessionRequest_type :: gotype where
  [struct_defs]: "CreateSessionRequest_type = TStruct ''CreateSessionRequest'' [
     RequestHeader_type, ApplicationDescription_type, TScalar KString, TScalar KString,
     TScalar KString, TScalar KByteString, TScalar KByteString, TScalar KFloat64, TScalar KUint32]"

definition CreateSessionResponse_type :: gotype where
  [struct_defs]: "CreateSessionResponse_type = TStruct ''CreateSessionResponse'' [
     ResponseHeader_type, TScalar KNodeID, TScalar KNodeID, TScalar KFloat64,
     TScalar KByteString, TScalar KByteString, TSlice EndpointDescription_type,
     TSlice SignedSoftwareCertificate_type, SignatureData_type, TScalar KUint32]"

definition UserIdentityToken_type :: gotype where
  [struct_defs]: "UserIdentityToken_type = TStruct ''UserIdentityToken'' [TScalar KString]"

definition AnonymousIdentityToken_type :: gotype where
  [struct_defs]: "AnonymousIdentityToken_type = TStruct ''AnonymousIdentityToken'' [
     TScalar KString]"

definition UserNameIdentityToken_type :: gotype where
  [struct_defs]: "UserNameIdentityToken_type = TStruct ''UserNameIdentityToken'' [
     TScalar KString, TScalar KString, TScalar KByteString, TScalar KString]"

definition X509IdentityToken_type :: gotype where
  [struct_defs]: "X509IdentityToken_type = TStruct ''X509IdentityToken'' [TScalar KString,
     TScalar KByteString]"

definition IssuedIdentityToken_type :: gotype where
  [struct_defs]: "IssuedIdentityToken_type = TStruct ''IssuedIdentityToken'' [TScalar KString,
     TScalar KByteString, TScalar KString]"

definition ActivateSessionRequest_type :: gotype where
  [struct_defs]: "ActivateSessionRequest_type = TStruct ''ActivateSessionRequest'' [
     RequestHeader_type, SignatureData_type, TSlice SignedSoftwareCertificate_type,
     TSlice (TScalar KString), TExtensionObject, SignatureData_type]"

definition ActivateSessionResponse_type :: gotype where
  [struct_defs]: "ActivateSessionResponse_type = TStruct ''ActivateSessionResponse'' [
     ResponseHeader_type, TScalar KByteString, TSlice (TScalar KStatusCode),
     TSlice TDiagnosticInfo]"

definition CloseSessionRequest_type :: gotype where
  [struct_defs]: "CloseSessionRequest_type = TStruct ''CloseSessionRequest'' [RequestHeader_type,
     TScalar KBool]"

definition CloseSessionResponse_type :: gotype where
  [struct_defs]: "CloseSessionResponse_type = TStruct ''CloseSessionResponse'' [
     ResponseHeader_type]"

definition CancelRequest_type :: gotype where
  [struct_defs]: "CancelRequest_type = TStruct ''CancelRequest'' [RequestHeader_type,
     TScalar KUint32]"

definition CancelResponse_type :: gotype where
  [struct_defs]: "CancelResponse_type = TStruct ''CancelResponse'' [ResponseHeader_type,
     TScalar KUint32]"

definition NodeAttributes_type :: gotype where
  [struct_defs]: "NodeAttributes_type = TStruct ''NodeAttributes'' [TScalar KUint32,
     TScalar KLocalizedText, TScalar KLocalizedText, TScalar KUint32, TScalar KUint32]"

definition ObjectAttributes_type :: gotype where
  [struct_defs]: "ObjectAttributes_type = TStruct ''ObjectAttributes'' [TScalar KUint32,
     TScalar KLocalizedText, TScalar KLocalizedText, TScalar KUint32, TScalar KUint32,
     TScalar KUint8]"

definition VariableAttributes_type :: gotype where
  [struct_defs]: "VariableAttributes_type = TStruct ''VariableAttributes'' [TScalar KUint32,
     TScalar KLocalizedText, TScalar KLocalizedText, TScalar KUint32, TScalar KUint32, TVariant,
     TScalar KNodeID, TScalar KInt32, TSlice (TScalar KUint32), TScalar KUint8, TScalar KUint8,
     TScalar KFloat64, TScalar KBool]"

definition MethodAttributes_type :: gotype where
  [struct_defs]: "MethodAttributes_type = TStruct ''MethodAttributes'' [TScalar KUint32,
     TScalar KLocalizedText, TScalar KLocalizedText, TScalar KUint32, TScalar KUint32,
     TScalar KBool, TScalar KBool]"

definition ObjectTypeAttributes_type :: gotype where
  [struct_defs]: "ObjectTypeAttributes_type = TStruct ''ObjectTypeAttributes'' [TScalar KUint32,
     TScalar KLocalizedText, TScalar KLocalizedText, TScalar KUint32, TScalar KUint32,
     TScalar KBool]"

definition VariableTypeAttributes_type :: gotype where
  [struct_defs]: "VariableTypeAttributes_type = TStruct ''VariableTypeAttributes'' [
     TScalar KUint32, TScalar KLocalizedText, TScalar KLocalizedText, TScalar KUint32,
     TScalar KUint32, TVariant, TScalar KNodeID, TScalar KInt32, TSlice (TScalar KUint32),
     TScalar KBool]"

definition ReferenceTypeAttributes_type :: gotype where
  [struct_defs]: "ReferenceTypeAttributes_type = TStruct ''ReferenceTypeAttributes'' [
     TScalar KUint32, TScalar KLocalizedText, TScalar KLocalizedText, TScalar KUint32,
     TScalar KUint32, TScalar KBool, TScalar KBool, TScalar KLocalizedText]"

definition DataTypeAttributes_type :: gotype where
  [struct_defs]: "DataTypeAttributes_type = TStruct ''DataTypeAttributes'' [TScalar KUint32,
     TScalar KLocalizedText, TScalar KLocalizedText, TScalar KUint32, TScalar KUint32,
     TScalar KBool]"

definition ViewAttributes_type :: gotype where
  [struct_defs]: "ViewAttributes_type = TStruct ''ViewAttributes'' [TScalar KUint32,
     TScalar KLocalizedText, TScalar KLocalizedText, TScalar KUint32, TScalar KUint32,
     TScalar KBool, TScalar KUint8]"

definition GenericAttributeValue_type :: gotype where
  [struct_defs]: "GenericAttributeValue_type = TStruct ''GenericAttributeValue'' [
     TScalar KUint32, TVariant]"

definition GenericAttributes_type :: gotype where
  [struct_defs]: "GenericAttributes_type = TStruct ''GenericAttributes'' [TScalar KUint32,
     TScalar KLocalizedText, TScalar KLocalizedText, TScalar KUint32, TScalar KUint32,
     TSlice GenericAttributeValue_type]"

definition AddNodesItem_type :: gotype where
  [struct_defs]: "AddNodesItem_type = TStruct ''AddNodesItem'' [TScalar KExpandedNodeID,
     TScalar KNodeID, TScalar KExpandedNodeID, TScalar KQualifiedName, TEnum ''NodeClass'',
     TExtensionObject, TScalar KExpandedNodeID]"

definition AddNodesResult_type :: gotype where
  [struct_defs]: "AddNodesResult_type = TStruct ''AddNodesResult'' [TScalar KStatusCode,
     TScalar KNodeID]"

definition AddNodesRequest_type :: gotype where
  [struct_defs]: "AddNodesRequest_type = TStruct ''AddNodesRequest'' [RequestHeader_type,
     TSlice AddNodesItem_type]"

definition AddNodesResponse_type :: gotype where
  [struct_defs]: "AddNodesResponse_type = TStruct ''AddNodesResponse'' [ResponseHeader_type,
     TSlice AddNodesResult_type, TSlice TDiagnosticInfo]"

definition AddReferencesItem_type :: gotype where
  [struct_defs]: "AddReferencesItem_type = TStruct ''AddReferencesItem'' [TScalar KNodeID,
     TScalar KNodeID, TScalar KBool, TScalar KString, TScalar KExpandedNodeID, TEnum ''NodeClass'']"

definition AddReferencesRequest_type :: gotype where
  [struct_defs]: "AddReferencesRequest_type = TStruct ''AddReferencesRequest'' [
     RequestHeader_type, TSlice AddReferencesItem_type]"

definition AddReferencesResponse_type :: gotype where
  [struct_defs]: "AddReferencesResponse_type = TStruct ''AddReferencesResponse'' [
     ResponseHeader_type, TSlice (TScalar KStatusCode), TSlice TDiagnosticInfo]"

definition DeleteNodesItem_type :: gotype where
  [struct_defs]: "DeleteNodesItem_type = TStruct ''DeleteNodesItem'' [TScalar KNodeID,
     TScalar KBool]"

definition DeleteNodesRequest_type :: gotype where
  [struct_defs]: "DeleteNodesRequest_type = TStruct ''DeleteNodesRequest'' [RequestHeader_type,
     TSlice DeleteNodesItem_type]"

definition DeleteNodesResponse_type :: gotype where
  [struct_defs]: "DeleteNodesResponse_type = TStruct ''DeleteNodesResponse'' [
     ResponseHeader_type, TSlice (TScalar KStatusCode), TSlice TDiagnosticInfo]"

definition DeleteReferencesItem_type :: gotype where
  [struct_defs]: "DeleteReferencesItem_type = TStruct ''DeleteReferencesItem'' [TScalar KNodeID,
     TScalar KNodeID, TScalar KBool, TScalar KExpandedNodeID, TScalar KBool]"

definition DeleteReferencesRequest_type :: gotype where
  [struct_defs]: "DeleteReferencesRequest_type = TStruct ''DeleteReferencesRequest'' [
     RequestHeader_type, TSlice DeleteReferencesItem_type]"

definition DeleteReferencesResponse_type :: gotype where
  [struct_defs]: "DeleteReferencesResponse_type = TStruct ''DeleteReferencesResponse'' [
     ResponseHeader_type, TSlice (TScalar KStatusCode), TSlice TDiagnosticInfo]"

definition ViewDescription_type :: gotype where
  [struct_defs]: "ViewDescription_type = TStruct ''ViewDescription'' [TScalar KNodeID,
     TScalar KDateTime, TScalar KUint32]"

definition BrowseDescription_type :: gotype where
  [struct_defs]: "BrowseDescription_type = TStruct ''BrowseDescription'' [TScalar KNodeID,
     TEnum ''BrowseDirection'', TScalar KNodeID, TScalar KBool, TScalar KUint32, TScalar KUint32]"

definition ReferenceDescription_type :: gotype where
  [struct_defs]: "ReferenceDescription_type = TStruct ''ReferenceDescription'' [TScalar KNodeID,
     TScalar KBool, TScalar KExpandedNodeID, TScalar KQualifiedName, TScalar KLocalizedText,
     TEnum ''NodeClass'', TScalar KExpandedNodeID]"

definition BrowseResult_type :: gotype where
  [struct_defs]: "BrowseResult_type = TStruct ''BrowseResult'' [TScalar KStatusCode,
     TScalar KByteString, TSlice ReferenceDescription_type]"

definition BrowseRequest_type :: gotype where
  [struct_defs]: "BrowseRequest_type = TStruct ''BrowseRequest'' [RequestHeader_type,
     ViewDescription_type, TScalar KUint32, TSlice BrowseDescription_type]"

definition BrowseResponse_type :: gotype where
  [struct_defs]: "BrowseResponse_type = TStruct ''BrowseResponse'' [ResponseHeader_type,
     TSlice BrowseResult_type, TSlice TDiagnosticInfo]"

definition BrowseNextRequest_type :: gotype where
  [struct_defs]: "BrowseNextRequest_type = TStruct ''BrowseNextRequest'' [RequestHeader_type,
     TScalar KBool, TSlice (TScalar KByteString)]"

definition BrowseNextResponse_type :: gotype where
  [struct_defs]: "BrowseNextResponse_type = TStruct ''BrowseNextResponse'' [ResponseHeader_type,
     TSlice BrowseResult_type, TSlice TDiagnosticInfo]"

definition RelativePathElement_type :: gotype where
  [struct_defs]: "RelativePathElement_type = TStruct ''RelativePathElement'' [TScalar KNodeID,
     TScalar KBool, TScalar KBool, TScalar KQualifiedName]"

definition RelativePath_type :: gotype where
  [struct_defs]: "RelativePath_type = TStruct ''RelativePath'' [TSlice RelativePathElement_type]"

definition BrowsePath_type :: gotype where
  [struct_defs]: "BrowsePath_type = TStruct ''BrowsePath'' [TScalar KNodeID, RelativePath_type]"

definition BrowsePathTarget_type :: gotype where
  [struct_defs]: "BrowsePathTarget_type = TStruct ''BrowsePathTarget'' [TScalar KExpandedNodeID,
     TScalar KUint32]"

definition BrowsePathResult_type :: gotype where
  [struct_defs]: "BrowsePathResult_type = TStruct ''BrowsePathResult'' [TScalar KStatusCode,
     TSlice BrowsePathTarget_type]"

definition TranslateBrowsePathsToNodeIDsRequest_type :: gotype where
  [struct_defs]: "TranslateBrowsePathsToNodeIDsRequest_type = TStruct ''TranslateBrowsePathsToNodeIDsRequest'' [
     RequestHeader_type, TSlice BrowsePath_type]"

definition TranslateBrowsePathsToNodeIDsResponse_type :: gotype where
  [struct_defs]: "TranslateBrowsePathsToNodeIDsResponse_type = TStruct ''TranslateBrowsePathsToNodeIDsResponse'' [
     ResponseHeader_type, TSlice BrowsePathResult_type, TSlice TDiagnosticInfo]"

definition RegisterNodesRequest_type :: gotype where
  [struct_defs]: "RegisterNodesRequest_type = TStruct ''RegisterNodesRequest'' [
     RequestHeader_type, TSlice (TScalar KNodeID)]"

definition RegisterNodesResponse_type :: gotype where
  [struct_defs]: "RegisterNodesResponse_type = TStruct ''RegisterNodesResponse'' [
     ResponseHeader_type, TSlice (TScalar KNodeID)]"

definition UnregisterNodesRequest_type :: gotype where
  [struct_defs]: "UnregisterNodesRequest_type = TStruct ''UnregisterNodesRequest'' [
     RequestHeader_type, TSlice (TScalar KNodeID)]"

definition UnregisterNodesResponse_type :: gotype where
  [struct_defs]: "UnregisterNodesResponse_type = TStruct ''UnregisterNodesResponse'' [
     ResponseHeader_type]"

definition EndpointConfiguration_type :: gotype where
  [struct_defs]: "EndpointConfiguration_type = TStruct ''EndpointConfiguration'' [TScalar KInt32,
     TScalar KBool, TScalar KInt32, TScalar KInt32, TScalar KInt32, TScalar KInt32,
     TScalar KInt32, TScalar KInt32, TScalar KInt32]"

definition QueryDataDescription_type :: gotype where
  [struct_defs]: "QueryDataDescription_type = TStruct ''QueryDataDescription'' [
     RelativePath_type, TScalar KUint32, TScalar KString]"

definition NodeTypeDescription_type :: gotype where
  [struct_defs]: "NodeTypeDescription_type = TStruct ''NodeTypeDescription'' [
     TScalar KExpandedNodeID, TScalar KBool, TSlice QueryDataDescription_type]"

definition QueryDataSet_type :: gotype where
  [struct_defs]: "QueryDataSet_type = TStruct ''QueryDataSet'' [TScalar KExpandedNodeID,
     TScalar KExpandedNodeID, TSlice TVariant]"

definition NodeReference_type :: gotype where
  [struct_defs]: "NodeReference_type = TStruct ''NodeReference'' [TScalar KNodeID,
     TScalar KNodeID, TScalar KBool, TSlice (TScalar KNodeID)]"

definition FilterOperand_type :: gotype where
  [struct_defs]: "FilterOperand_type = TStruct ''FilterOperand'' []"

definition ElementOperand_type :: gotype where
  [struct_defs]: "ElementOperand_type = TStruct ''ElementOperand'' [TScalar KUint32]"

definition LiteralOperand_type :: gotype where
  [struct_defs]: "LiteralOperand_type = TStruct ''LiteralOperand'' [TVariant]"

definition AttributeOperand_type :: gotype where
  [struct_defs]: "AttributeOperand_type = TStruct ''AttributeOperand'' [TScalar KNodeID,
     TScalar KString, RelativePath_type, TScalar KUint32, TScalar KString]"

definition ContentFilterElementResult_type :: gotype where
  [struct_defs]: "ContentFilterElementResult_type = TStruct ''ContentFilterElementResult'' [
     TScalar KStatusCode, TSlice (TScalar KStatusCode), TSlice TDiagnosticInfo]"

definition ContentFilterResult_type :: gotype where
  [struct_defs]: "ContentFilterResult_type = TStruct ''ContentFilterResult'' [
     TSlice ContentFilterElementResult_type, TSlice TDiagnosticInfo]"

definition ParsingResult_type :: gotype where
  [struct_defs]: "ParsingResult_type = TStruct ''ParsingResult'' [TScalar KStatusCode,
     TSlice (TScalar KStatusCode), TSlice TDiagnosticInfo]"

definition QueryFirstRequest_type :: gotype where
  [struct_defs]: "QueryFirstRequest_type = TStruct ''QueryFirstRequest'' [RequestHeader_type,
     ViewDescription_type, TSlice NodeTypeDescription_type, ContentFilter_type, TScalar KUint32,
     TScalar KUint32]"

definition QueryFirstResponse_type :: gotype where
  [struct_defs]: "QueryFirstResponse_type = TStruct ''QueryFirstResponse'' [ResponseHeader_type,
     TSlice QueryDataSet_type, TScalar KByteString, TSlice ParsingResult_type,
     TSlice TDiagnosticInfo, ContentFilterResult_type]"

definition QueryNextRequest_type :: gotype where
  [struct_defs]: "QueryNextRequest_type = TStruct ''QueryNextRequest'' [RequestHeader_type,
     TScalar KBool, TScalar KByteString]"

definition QueryNextResponse_type :: gotype where
  [struct_defs]: "QueryNextResponse_type = TStruct ''QueryNextResponse'' [ResponseHeader_type,
     TSlice QueryDataSet_type, TScalar KByteString]"

definition ReadValueID_type :: gotype where
  [struct_defs]: "ReadValueID_type = TStruct ''ReadValueID'' [TScalar KNodeID, TScalar KUint32,
     TScalar KString, TScalar KQualifiedName]"

definition ReadRequest_type :: gotype where
  [struct_defs]: "ReadRequest_type = TStruct ''ReadRequest'' [RequestHeader_type,
     TScalar KFloat64, TEnum ''TimestampsToReturn'', TSlice ReadValueID_type]"

definition ReadResponse_type :: gotype where
  [struct_defs]: "ReadResponse_type = TStruct ''ReadResponse'' [ResponseHeader_type,
     TSlice TDataValue, TSlice TDiagnosticInfo]"

definition HistoryReadValueID_type :: gotype where
  [struct_defs]: "HistoryReadValueID_type = TStruct ''HistoryReadValueID'' [TScalar KNodeID,
     TScalar KString, TScalar KQualifiedName, TScalar KByteString]"

definition HistoryReadResult_type :: gotype where
  [struct_defs]: "HistoryReadResult_type = TStruct ''HistoryReadResult'' [TScalar KStatusCode,
     TScalar KByteString, TExtensionObject]"

definition HistoryReadDetails_type :: gotype where
  [struct_defs]: "HistoryReadDetails_type = TStruct ''HistoryReadDetails'' []"

definition EventFilter_type :: gotype where
  [struct_defs]: "EventFilter_type = TStruct ''EventFilter'' [TSlice SimpleAttributeOperand_type,
     ContentFilter_type]"

definition ReadEventDetails_type :: gotype where
  [struct_defs]: "ReadEventDetails_type = TStruct ''ReadEventDetails'' [TScalar KUint32,
     TScalar KDateTime, TScalar KDateTime, EventFilter_type]"

definition ReadRawModifiedDetails_type :: gotype where
  [struct_defs]: "ReadRawModifiedDetails_type = TStruct ''ReadRawModifiedDetails'' [
     TScalar KBool, TScalar KDateTime, TScalar KDateTime, TScalar KUint32, TScalar KBool]"

definition AggregateConfiguration_type :: gotype where
  [struct_defs]: "AggregateConfiguration_type = TStruct ''AggregateConfiguration'' [
     TScalar KBool, TScalar KBool, TScalar KUint8, TScalar KUint8, TScalar KBool]"

definition ReadProcessedDetails_type :: gotype where
  [struct_defs]: "ReadProcessedDetails_type = TStruct ''ReadProcessedDetails'' [
     TScalar KDateTime, TScalar KDateTime, TScalar KFloat64, TSlice (TScalar KNodeID),
     AggregateConfiguration_type]"

definition ReadAtTimeDetails_type :: gotype where
  [struct_defs]: "ReadAtTimeDetails_type = TStruct ''ReadAtTimeDetails'' [
     TSlice (TScalar KDateTime), TScalar KBool]"

definition ReadAnnotationDataDetails_type :: gotype where
  [struct_defs]: "ReadAnnotationDataDetails_type = TStruct ''ReadAnnotationDataDetails'' [
     TSlice (TScalar KDateTime)]"

definition HistoryData_type :: gotype where
  [struct_defs]: "HistoryData_type = TStruct ''HistoryData'' [TSlice TDataValue]"

definition ModificationInfo_type :: gotype where
  [struct_defs]: "ModificationInfo_type = TStruct ''ModificationInfo'' [TScalar KDateTime,
     TEnum ''HistoryUpdateType'', TScalar KString]"

definition HistoryModifiedData_type :: gotype where
  [struct_defs]: "HistoryModifiedData_type = TStruct ''HistoryModifiedData'' [TSlice TDataValue,
     TSlice ModificationInfo_type]"

definition HistoryEventFieldList_type :: gotype where
  [struct_defs]: "HistoryEventFieldList_type = TStruct ''HistoryEventFieldList'' [TSlice TVariant]"

definition HistoryEvent_type :: gotype where
  [struct_defs]: "HistoryEvent_type = TStruct ''HistoryEvent'' [TSlice HistoryEventFieldList_type]"

definition HistoryReadRequest_type :: gotype where
  [struct_defs]: "HistoryReadRequest_type = TStruct ''HistoryReadRequest'' [RequestHeader_type,
     TExtensionObject, TEnum ''TimestampsToReturn'', TScalar KBool, TSlice HistoryReadValueID_type]"

definition HistoryReadResponse_type :: gotype where
  [struct_defs]: "HistoryReadResponse_type = TStruct ''HistoryReadResponse'' [
     ResponseHeader_type, TSlice HistoryReadResult_type, TSlice TDiagnosticInfo]"

definition WriteValue_type :: gotype where
  [struct_defs]: "WriteValue_type = TStruct ''WriteValue'' [TScalar KNodeID, TScalar KUint32,
     TScalar KString, TDataValue]"

definition WriteRequest_type :: gotype where
  [struct_defs]: "WriteRequest_type = TStruct ''WriteRequest'' [RequestHeader_type,
     TSlice WriteValue_type]"

definition WriteResponse_type :: gotype where
  [struct_defs]: "WriteResponse_type = TStruct ''WriteResponse'' [ResponseHeader_type,
     TSlice (TScalar KStatusCode), TSlice TDiagnosticInfo]"

definition HistoryUpdateDetails_type :: gotype where
  [struct_defs]: "HistoryUpdateDetails_type = TStruct ''HistoryUpdateDetails'' [TScalar KNodeID]"

definition UpdateDataDetails_type :: gotype where
  [struct_defs]: "UpdateDataDetails_type = TStruct ''UpdateDataDetails'' [TScalar KNodeID,
     TEnum ''PerformUpdateType'', TSlice TDataValue]"

definition UpdateStructureDataDetails_type :: gotype where
  [struct_defs]: "UpdateStructureDataDetails_type = TStruct ''UpdateStructureDataDetails'' [
     TScalar KNodeID, TEnum ''PerformUpdateType'', TSlice TDataValue]"

definition UpdateEventDetails_type :: gotype where
  [struct_defs]: "UpdateEventDetails_type = TStruct ''UpdateEventDetails'' [TScalar KNodeID,
     TEnum ''PerformUpdateType'', EventFilter_type, TSlice HistoryEventFieldList_type]"

definition DeleteRawModifiedDetails_type :: gotype where
  [struct_defs]: "DeleteRawModifiedDetails_type = TStruct ''DeleteRawModifiedDetails'' [
     TScalar KNodeID, TScalar KBool, TScalar KDateTime, TScalar KDateTime]"

definition DeleteAtTimeDetails_type :: gotype where
  [struct_defs]: "DeleteAtTimeDetails_type = TStruct ''DeleteAtTimeDetails'' [TScalar KNodeID,
     TSlice (TScalar KDateTime)]"

definition DeleteEventDetails_type :: gotype where
  [struct_defs]: "DeleteEventDetails_type = TStruct ''DeleteEventDetails'' [TScalar KNodeID,
     TSlice (TScalar KByteString)]"

definition HistoryUpdateResult_type :: gotype where
  [struct_defs]: "HistoryUpdateResult_type = TStruct ''HistoryUpdateResult'' [
     TScalar KStatusCode, TSlice (TScalar KStatusCode), TSlice TDiagnosticInfo]"

definition HistoryUpdateRequest_type :: gotype where
  [struct_defs]: "HistoryUpdateRequest_type = TStruct ''HistoryUpdateRequest'' [
     RequestHeader_type, TSlice TExtensionObject]"

definition HistoryUpdateResponse_type :: gotype where
  [struct_defs]: "HistoryUpdateResponse_type = TStruct ''HistoryUpdateResponse'' [
     ResponseHeader_type, TSlice HistoryUpdateResult_type, TSlice TDiagnosticInfo]"

definition CallMethodRequest_type :: gotype where
  [struct_defs]: "CallMethodRequest_type = TStruct ''CallMethodRequest'' [TScalar KNodeID,
     TScalar KNodeID, TSlice TVariant]"

definition CallMethodResult_type :: gotype where
  [struct_defs]: "CallMethodResult_type = TStruct ''CallMethodResult'' [TScalar KStatusCode,
     TSlice (TScalar KStatusCode), TSlice TDiagnosticInfo, TSlice TVariant]"

definition CallRequest_type :: gotype where
  [struct_defs]: "CallRequest_type = TStruct ''CallRequest'' [RequestHeader_type,
     TSlice CallMethodRequest_type]"

definition CallResponse_type :: gotype where
  [struct_defs]: "CallResponse_type = TStruct ''CallResponse'' [ResponseHeader_type,
     TSlice CallMethodResult_type, TSlice TDiagnosticInfo]"

definition MonitoringFilter_type :: gotype where
  [struct_defs]: "MonitoringFilter_type = TStruct ''MonitoringFilter'' []"

definition DataChangeFilter_type :: gotype where
  [struct_defs]: "DataChangeFilter_type = TStruct ''DataChangeFilter'' [
     TEnum ''DataChangeTrigger'', TScalar KUint32, TScalar KFloat64]"

definition AggregateFilter_type :: gotype where
  [struct_defs]: "AggregateFilter_type = TStruct ''AggregateFilter'' [TScalar KDateTime,
     TScalar KNodeID, TScalar KFloat64, AggregateConfiguration_type]"

definition MonitoringFilterResult_type :: gotype where
  [struct_defs]: "MonitoringFilterResult_type = TStruct ''MonitoringFilterResult'' []"

definition EventFilterResult_type :: gotype where
  [struct_defs]: "EventFilterResult_type = TStruct ''EventFilterResult'' [
     TSlice (TScalar KStatusCode), TSlice TDiagnosticInfo, ContentFilterResult_type]"

definition AggregateFilterResult_type :: gotype where
  [struct_defs]: "AggregateFilterResult_type = TStruct ''AggregateFilterResult'' [
     TScalar KDateTime, TScalar KFloat64, AggregateConfiguration_type]"

definition MonitoringParameters_type :: gotype where
  [struct_defs]: "MonitoringParameters_type = TStruct ''MonitoringParameters'' [TScalar KUint32,
     TScalar KFloat64, TExtensionObject, TScalar KUint32, TScalar KBool]"

definition MonitoredItemCreateRequest_type :: gotype where
  [struct_defs]: "MonitoredItemCreateRequest_type = TStruct ''MonitoredItemCreateRequest'' [
     ReadValueID_type, TEnum ''MonitoringMode'', MonitoringParameters_type]"

definition MonitoredItemCreateResult_type :: gotype where
  [struct_defs]: "MonitoredItemCreateResult_type = TStruct ''MonitoredItemCreateResult'' [
     TScalar KStatusCode, TScalar KUint32, TScalar KFloat64, TScalar KUint32, TExtensionObject]"

definition CreateMonitoredItemsRequest_type :: gotype where
  [struct_defs]: "CreateMonitoredItemsRequest_type = TStruct ''CreateMonitoredItemsRequest'' [
     RequestHeader_type, TScalar KUint32, TEnum ''TimestampsToReturn'',
     TSlice MonitoredItemCreateRequest_type]"

definition CreateMonitoredItemsResponse_type :: gotype where
  [struct_defs]: "CreateMonitoredItemsResponse_type = TStruct ''CreateMonitoredItemsResponse'' [
     ResponseHeader_type, TSlice MonitoredItemCreateResult_type, TSlice TDiagnosticInfo]"

definition MonitoredItemModifyRequest_type :: gotype where
  [struct_defs]: "MonitoredItemModifyRequest_type = TStruct ''MonitoredItemModifyRequest'' [
     TScalar KUint32, MonitoringParameters_type]"

definition MonitoredItemModifyResult_type :: gotype where
  [struct_defs]: "MonitoredItemModifyResult_type = TStruct ''MonitoredItemModifyResult'' [
     TScalar KStatusCode, TScalar KFloat64, TScalar KUint32, TExtensionObject]"

definition ModifyMonitoredItemsRequest_type :: gotype where
  [struct_defs]: "ModifyMonitoredItemsRequest_type = TStruct ''ModifyMonitoredItemsRequest'' [
     RequestHeader_type, TScalar KUint32, TEnum ''TimestampsToReturn'',
     TSlice MonitoredItemModifyRequest_type]"

definition ModifyMonitoredItemsResponse_type :: gotype where
  [struct_defs]: "ModifyMonitoredItemsResponse_type = TStruct ''ModifyMonitoredItemsResponse'' [
     ResponseHeader_type, TSlice MonitoredItemModifyResult_type, TSlice TDiagnosticInfo]"

definition SetMonitoringModeRequest_type :: gotype where
  [struct_defs]: "SetMonitoringModeRequest_type = TStruct ''SetMonitoringModeRequest'' [
     RequestHeader_type, TScalar KUint32, TEnum ''MonitoringMode'', TSlice (TScalar KUint32)]"

definition SetMonitoringModeResponse_type :: gotype where
  [struct_defs]: "SetMonitoringModeResponse_type = TStruct ''SetMonitoringModeResponse'' [
     ResponseHeader_type, TSlice (TScalar KStatusCode), TSlice TDiagnosticInfo]"

definition SetTriggeringRequest_type :: gotype where
  [struct_defs]: "SetTriggeringRequest_type = TStruct ''SetTriggeringRequest'' [
     RequestHeader_type, TScalar KUint32, TScalar KUint32, TSlice (TScalar KUint32),
     TSlice (TScalar KUint32)]"

definition SetTriggeringResponse_type :: gotype where
  [struct_defs]: "SetTriggeringResponse_type = TStruct ''SetTriggeringResponse'' [
     ResponseHeader_type, TSlice (TScalar KStatusCode), TSlice TDiagnosticInfo,
     TSlice (TScalar KStatusCode), TSlice TDiagnosticInfo]"

definition DeleteMonitoredItemsRequest_type :: gotype where
  [struct_defs]: "DeleteMonitoredItemsRequest_type = TStruct ''DeleteMonitoredItemsRequest'' [
     RequestHeader_type, TScalar KUint32, TSlice (TScalar KUint32)]"

definition DeleteMonitoredItemsResponse_type :: gotype where
  [struct_defs]: "DeleteMonitoredItemsResponse_type = TStruct ''DeleteMonitoredItemsResponse'' [
     ResponseHeader_type, TSlice (TScalar KStatusCode), TSlice TDiagnosticInfo]"

definition CreateSubscriptionRequest_type :: gotype where
  [struct_defs]: "CreateSubscriptionRequest_type = TStruct ''CreateSubscriptionRequest'' [
     RequestHeader_type, TScalar KFloat64, TScalar KUint32, TScalar KUint32, TScalar KUint32,
     TScalar KBool, TScalar KUint8]"

definition CreateSubscriptionResponse_type :: gotype where
  [struct_defs]: "CreateSubscriptionResponse_type = TStruct ''CreateSubscriptionResponse'' [
     ResponseHeader_type, TScalar KUint32, TScalar KFloat64, TScalar KUint32, TScalar KUint32]"

definition ModifySubscriptionRequest_type :: gotype where
  [struct_defs]: "ModifySubscriptionRequest_type = TStruct ''ModifySubscriptionRequest'' [
     RequestHeader_type, TScalar KUint32, TScalar KFloat64, TScalar KUint32, TScalar KUint32,
     TScalar KUint32, TScalar KUint8]"

definition ModifySubscriptionResponse_type :: gotype where
  [struct_defs]: "ModifySubscriptionResponse_type = TStruct ''ModifySubscriptionResponse'' [
     ResponseHeader_type, TScalar KFloat64, TScalar KUint32, TScalar KUint32]"

definition SetPublishingModeRequest_type :: gotype where
  [struct_defs]: "SetPublishingModeRequest_type = TStruct ''SetPublishingModeRequest'' [
     RequestHeader_type, TScalar KBool, TSlice (TScalar KUint32)]"

definition SetPublishingModeResponse_type :: gotype where
  [struct_defs]: "SetPublishingModeResponse_type = TStruct ''SetPublishingModeResponse'' [
     ResponseHeader_type, TSlice (TScalar KStatusCode), TSlice TDiagnosticInfo]"

definition NotificationMessage_type :: gotype where
  [struct_defs]: "NotificationMessage_type = TStruct ''NotificationMessage'' [TScalar KUint32,
     TScalar KDateTime, TSlice TExtensionObject]"

definition NotificationData_type :: gotype where
  [struct_defs]: "NotificationData_type = TStruct ''NotificationData'' []"

definition MonitoredItemNotification_type :: gotype where
  [struct_defs]: "MonitoredItemNotification_type = TStruct ''MonitoredItemNotification'' [
     TScalar KUint32, TDataValue]"

definition DataChangeNotification_type :: gotype where
  [struct_defs]: "DataChangeNotification_type = TStruct ''DataChangeNotification'' [
     TSlice MonitoredItemNotification_type, TSlice TDiagnosticInfo]"

definition EventFieldList_type :: gotype where
  [struct_defs]: "EventFieldList_type = TStruct ''EventFieldList'' [TScalar KUint32,
     TSlice TVariant]"

definition EventNotificationList_type :: gotype where
  [struct_defs]: "EventNotificationList_type = TStruct ''EventNotificationList'' [
     TSlice EventFieldList_type]"

definition StatusChangeNotification_type :: gotype where
  [struct_defs]: "StatusChangeNotification_type = TStruct ''StatusChangeNotification'' [
     TScalar KStatusCode, TDiagnosticInfo]"

definition SubscriptionAcknowledgement_type :: gotype where
  [struct_defs]: "SubscriptionAcknowledgement_type = TStruct ''SubscriptionAcknowledgement'' [
     TScalar KUint32, TScalar KUint32]"

definition PublishRequest_type :: gotype where
  [struct_defs]: "PublishRequest_type = TStruct ''PublishRequest'' [RequestHeader_type,
     TSlice SubscriptionAcknowledgement_type]"

definition PublishResponse_type :: gotype where
  [struct_defs]: "PublishResponse_type = TStruct ''PublishResponse'' [ResponseHeader_type,
     TScalar KUint32, TSlice (TScalar KUint32), TScalar KBool, NotificationMessage_type,
     TSlice (TScalar KStatusCode), TSlice TDiagnosticInfo]"

definition RepublishRequest_type :: gotype where
  [struct_defs]: "RepublishRequest_type = TStruct ''RepublishRequest'' [RequestHeader_type,
     TScalar KUint32, TScalar KUint32]"

definition RepublishResponse_type :: gotype where
  [struct_defs]: "RepublishResponse_type = TStruct ''RepublishResponse'' [ResponseHeader_type,
     NotificationMessage_type]"

definition TransferResult_type :: gotype where
  [struct_defs]: "TransferResult_type = TStruct ''TransferResult'' [TScalar KStatusCode,
     TSlice (TScalar KUint32)]"

definition TransferSubscriptionsRequest_type :: gotype where
  [struct_defs]: "TransferSubscriptionsRequest_type = TStruct ''TransferSubscriptionsRequest'' [
     RequestHeader_type, TSlice (TScalar KUint32), TScalar KBool]"

definition TransferSubscriptionsResponse_type :: gotype where
  [struct_defs]: "TransferSubscriptionsResponse_type = TStruct ''TransferSubscriptionsResponse'' [
     ResponseHeader_type, TSlice TransferResult_type, TSlice TDiagnosticInfo]"

definition DeleteSubscriptionsRequest_type :: gotype where
  [struct_defs]: "DeleteSubscriptionsRequest_type = TStruct ''DeleteSubscriptionsRequest'' [
     RequestHeader_type, TSlice (TScalar KUint32)]"

definition DeleteSubscriptionsResponse_type :: gotype where
  [struct_defs]: "DeleteSubscriptionsResponse_type = TStruct ''DeleteSubscriptionsResponse'' [
     ResponseHeader_type, TSlice (TScalar KStatusCode), TSlice TDiagnosticInfo]"

definition BuildInfo_type :: gotype where
  [struct_defs]: "BuildInfo_type = TStruct ''BuildInfo'' [TScalar KString, TScalar KString,
     TScalar KString, TScalar KString, TScalar KString, TScalar KDateTime]"

definition RedundantServerDataType_type :: gotype where
  [struct_defs]: "RedundantServerDataType_type = TStruct ''RedundantServerDataType'' [
     TScalar KString, TScalar KUint8, TEnum ''ServerState'']"

definition EndpointURLListDataType_type :: gotype where
  [struct_defs]: "EndpointURLListDataType_type = TStruct ''EndpointURLListDataType'' [
     TSlice (TScalar KString)]"

definition NetworkGroupDataType_type :: gotype where
  [struct_defs]: "NetworkGroupDataType_type = TStruct ''NetworkGroupDataType'' [TScalar KString,
     TSlice EndpointURLListDataType_type]"

definition SamplingIntervalDiagnosticsDataType_type :: gotype where
  [struct_defs]: "SamplingIntervalDiagnosticsDataType_type = TStruct ''SamplingIntervalDiagnosticsDataType'' [
     TScalar KFloat64, TScalar KUint32, TScalar KUint32, TScalar KUint32]"

definition ServerDiagnosticsSummaryDataType_type :: gotype where
  [struct_defs]: "ServerDiagnosticsSummaryDataType_type = TStruct ''ServerDiagnosticsSummaryDataType'' [
     TScalar KUint32, TScalar KUint32, TScalar KUint32, TScalar KUint32, TScalar KUint32,
     TScalar KUint32, TScalar KUint32, TScalar KUint32, TScalar KUint32, TScalar KUint32,
     TScalar KUint32, TScalar KUint32]"

definition ServerStatusDataType_type :: gotype where
  [struct_defs]: "ServerStatusDataType_type = TStruct ''ServerStatusDataType'' [
     TScalar KDateTime, TScalar KDateTime, TEnum ''ServerState'', BuildInfo_type,
     TScalar KUint32, TScalar KLocalizedText]"

definition ServiceCounterDataType_type :: gotype where
  [struct_defs]: "ServiceCounterDataType_type = TStruct ''ServiceCounterDataType'' [
     TScalar KUint32, TScalar KUint32]"

definition SessionDiagnosticsDataType_type :: gotype where
  [struct_defs]: "SessionDiagnosticsDataType_type = TStruct ''SessionDiagnosticsDataType'' [
     TScalar KNodeID, TScalar KString, ApplicationDescription_type, TScalar KString,
     TScalar KString, TSlice (TScalar KString), TScalar KFloat64, TScalar KUint32,
     TScalar KDateTime, TScalar KDateTime, TScalar KUint32, TScalar KUint32, TScalar KUint32,
     ServiceCounterDataType_type, TScalar KUint32, ServiceCounterDataType_type,
     ServiceCounterDataType_type, ServiceCounterDataType_type, ServiceCounterDataType_type,
     ServiceCounterDataType_type, ServiceCounterDataType_type, ServiceCounterDataType_type,
     ServiceCounterDataType_type, ServiceCounterDataType_type, ServiceCounterDataType_type,
     ServiceCounterDataType_type, ServiceCounterDataType_type, ServiceCounterDataType_type,
     ServiceCounterDataType_type, ServiceCounterDataType_type, ServiceCounterDataType_type,
     ServiceCounterDataType_type, ServiceCounterDataType_type, ServiceCounterDataType_type,
     ServiceCounterDataType_type, ServiceCounterDataType_type, ServiceCounterDataType_type,
     ServiceCounterDataType_type, ServiceCounterDataType_type, ServiceCounterDataType_type,
     ServiceCounterDataType_type, ServiceCounterDataType_type, ServiceCounterDataType_type]"

definition SessionSecurityDiagnosticsDataType_type :: gotype where
  [struct_defs]: "SessionSecurityDiagnosticsDataType_type = TStruct ''SessionSecurityDiagnosticsDataType'' [
     TScalar KNodeID, TScalar KString, TSlice (TScalar KString), TScalar KString,
     TScalar KString, TScalar KString, TEnum ''MessageSecurityMode'', TScalar KString,
     TScalar KByteString]"

definition StatusResult_type :: gotype where
  [struct_defs]: "StatusResult_type = TStruct ''StatusResult'' [TScalar KStatusCode,
     TDiagnosticInfo]"

definition SubscriptionDiagnosticsDataType_type :: gotype where
  [struct_defs]: "SubscriptionDiagnosticsDataType_type = TStruct ''SubscriptionDiagnosticsDataType'' [
     TScalar KNodeID, TScalar KUint32, TScalar KUint8, TScalar KFloat64, TScalar KUint32,
     TScalar KUint32, TScalar KUint32, TScalar KBool, TScalar KUint32, TScalar KUint32,
     TScalar KUint32, TScalar KUint32, TScalar KUint32, TScalar KUint32, TScalar KUint32,
     TScalar KUint32, TScalar KUint32, TScalar KUint32, TScalar KUint32, TScalar KUint32,
     TScalar KUint32, TScalar KUint32, TScalar KUint32, TScalar KUint32, TScalar KUint32,
     TScalar KUint32, TScalar KUint32, TScalar KUint32, TScalar KUint32, TScalar KUint32,
     TScalar KUint32]"

definition ModelChangeStructureDataType_type :: gotype where
  [struct_defs]: "ModelChangeStructureDataType_type = TStruct ''ModelChangeStructureDataType'' [
     TScalar KNodeID, TScalar KNodeID, TScalar KUint8]"

definition SemanticChangeStructureDataType_type :: gotype where
  [struct_defs]: "SemanticChangeStructureDataType_type = TStruct ''SemanticChangeStructureDataType'' [
     TScalar KNodeID, TScalar KNodeID]"

definition Range_type :: gotype where
  [struct_defs]: "Range_type = TStruct ''Range'' [TScalar KFloat64, TScalar KFloat64]"

definition EUInformation_type :: gotype where
  [struct_defs]: "EUInformation_type = TStruct ''EUInformation'' [TScalar KString,
     TScalar KInt32, TScalar KLocalizedText, TScalar KLocalizedText]"

definition ComplexNumberType_type :: gotype where
  [struct_defs]: "ComplexNumberType_type = TStruct ''ComplexNumberType'' [TScalar KFloat32,
     TScalar KFloat32]"

definition DoubleComplexNumberType_type :: gotype where
  [struct_defs]: "DoubleComplexNumberType_type = TStruct ''DoubleComplexNumberType'' [
     TScalar KFloat64, TScalar KFloat64]"

definition AxisInformation_type :: gotype where
  [struct_defs]: "AxisInformation_type = TStruct ''AxisInformation'' [EUInformation_type,
     Range_type, TScalar KLocalizedText, TEnum ''AxisScaleEnumeration'', TSlice (TScalar KFloat64)]"

definition XVType_type :: gotype where
  [struct_defs]: "XVType_type = TStruct ''XVType'' [TScalar KFloat64, TScalar KFloat32]"

definition ProgramDiagnosticDataType_type :: gotype where
  [struct_defs]: "ProgramDiagnosticDataType_type = TStruct ''ProgramDiagnosticDataType'' [
     TScalar KNodeID, TScalar KString, TScalar KDateTime, TScalar KDateTime, TScalar KString,
     TScalar KNodeID, TSlice Argument_type, TSlice Argument_type, TScalar KDateTime,
     StatusResult_type]"

definition ProgramDiagnostic2DataType_type :: gotype where
  [struct_defs]: "ProgramDiagnostic2DataType_type = TStruct ''ProgramDiagnostic2DataType'' [
     TScalar KNodeID, TScalar KString, TScalar KDateTime, TScalar KDateTime, TScalar KString,
     TScalar KNodeID, TSlice Argument_type, TSlice Argument_type, TSlice TVariant,
     TSlice TVariant, TScalar KDateTime, StatusResult_type]"

definition Annotation_type :: gotype where
  [struct_defs]: "Annotation_type = TStruct ''Annotation'' [TScalar KString, TScalar KString,
     TScalar KDateTime]"

section \<open>The registrations of init\<close>

text \<open>The structure and the numeric id (namespace 0) of each registration, in order.\<close>

definition registrations :: "(gotype \<times> u32) list" where
  "registrations = [(KeyValuePair_type, 14846), (AdditionalParametersType_type, 17537),
     (EphemeralKeyType_type, 17549), (EndpointType_type, 15671), (RationalNumber_type, 18815),
     (Vector_type, 18816), (ThreeDVector_type, 18817), (CartesianCoordinates_type, 18818),
     (ThreeDCartesianCoordinates_type, 18819), (Orientation_type, 18820),
     (ThreeDOrientation_type, 18821), (Frame_type, 18822), (ThreeDFrame_type, 18823),
     (IdentityMappingRuleType_type, 15736), (CurrencyUnitType_type, 23507),
     (TrustListDataType_type, 12680), (DecimalDataType_type, 17863),
     (DataTypeSchemaHeader_type, 15676), (DataTypeDescription_type, 125),
     (StructureDescription_type, 126), (EnumDescription_type, 127),
     (SimpleTypeDescription_type, 15421), (UABinaryFileDataType_type, 15422),
     (DataSetMetaDataType_type, 124), (FieldMetaData_type, 14839),
     (ConfigurationVersionDataType_type, 14847), (PublishedDataSetDataType_type, 15677),
     (PublishedDataSetSourceDataType_type, 15678), (PublishedVariableDataType_type, 14323),
     (PublishedDataItemsDataType_type, 15679), (PublishedEventsDataType_type, 15681),
     (DataSetWriterDataType_type, 15682), (DataSetWriterTransportDataType_type, 15683),
     (DataSetWriterMessageDataType_type, 15688), (PubSubGroupDataType_type, 15689),
     (WriterGroupDataType_type, 21150), (WriterGroupTransportDataType_type, 15691),
     (WriterGroupMessageDataType_type, 15693), (PubSubConnectionDataType_type, 15694),
     (ConnectionTransportDataType_type, 15695), (NetworkAddressDataType_type, 21151),
     (NetworkAddressURLDataType_type, 21152), (ReaderGroupDataType_type, 21153),
     (ReaderGroupTransportDataType_type, 15701), (ReaderGroupMessageDataType_type, 15702),
     (DataSetReaderDataType_type, 15703), (DataSetReaderTransportDataType_type, 15705),
     (DataSetReaderMessageDataType_type, 15706), (SubscribedDataSetDataType_type, 15707),
     (TargetVariablesDataType_type, 15712), (FieldTargetDataType_type, 14848),
     (SubscribedDataSetMirrorDataType_type, 15713), (PubSubConfigurationDataType_type, 21154),
     (UADPWriterGroupMessageDataType_type, 15715),
     (UADPDataSetWriterMessageDataType_type, 15717),
     (UADPDataSetReaderMessageDataType_type, 15718),
     (JSONWriterGroupMessageDataType_type, 15719),
     (JSONDataSetWriterMessageDataType_type, 15724),
     (JSONDataSetReaderMessageDataType_type, 15725),
     (DatagramConnectionTransportDataType_type, 17468),
     (DatagramWriterGroupTransportDataType_type, 21155),
     (BrokerConnectionTransportDataType_type, 15479),
     (BrokerWriterGroupTransportDataType_type, 15727),
     (BrokerDataSetWriterTransportDataType_type, 15729),
     (BrokerDataSetReaderTransportDataType_type, 15733), (AliasNameDataType_type, 23499),
     (RolePermissionType_type, 128), (StructureField_type, 14844),
     (StructureDefinition_type, 122), (EnumDefinition_type, 123), (Argument_type, 298),
     (EnumValueType_type, 8251), (EnumField_type, 14845), (OptionSet_type, 12765),
     (Union_type, 12766), (TimeZoneDataType_type, 8917), (ApplicationDescription_type, 310),
     (RequestHeader_type, 391), (ResponseHeader_type, 394), (ServiceFault_type, 397),
     (SessionlessInvokeRequestType_type, 15903), (SessionlessInvokeResponseType_type, 21001),
     (FindServersRequest_type, 422), (FindServersResponse_type, 425),
     (ServerOnNetwork_type, 12207), (FindServersOnNetworkRequest_type, 12208),
     (FindServersOnNetworkResponse_type, 12209), (UserTokenPolicy_type, 306),
     (EndpointDescription_type, 314), (GetEndpointsRequest_type, 428),
     (GetEndpointsResponse_type, 431), (RegisteredServer_type, 434),
     (RegisterServerRequest_type, 437), (RegisterServerResponse_type, 440),
     (DiscoveryConfiguration_type, 12900), (MdnsDiscoveryConfiguration_type, 12901),
     (RegisterServer2Request_type, 12211), (RegisterServer2Response_type, 12212),
     (ChannelSecurityToken_type, 443), (OpenSecureChannelRequest_type, 446),
     (OpenSecureChannelResponse_type, 449), (CloseSecureChannelRequest_type, 452),
     (CloseSecureChannelResponse_type, 455), (SignedSoftwareCertificate_type, 346),
     (SignatureData_type, 458), (CreateSessionRequest_type, 461),
     (CreateSessionResponse_type, 464), (UserIdentityToken_type, 318),
     (AnonymousIdentityToken_type, 321), (UserNameIdentityToken_type, 324),
     (X509IdentityToken_type, 327), (IssuedIdentityToken_type, 940),
     (ActivateSessionRequest_type, 467), (ActivateSessionResponse_type, 470),
     (CloseSessionRequest_type, 473), (CloseSessionResponse_type, 476),
     (CancelRequest_type, 479), (CancelResponse_type, 482), (NodeAttributes_type, 351),
     (ObjectAttributes_type, 354), (VariableAttributes_type, 357), (MethodAttributes_type, 360),
     (ObjectTypeAttributes_type, 363), (VariableTypeAttributes_type, 366),
     (ReferenceTypeAttributes_type, 369), (DataTypeAttributes_type, 372),
     (ViewAttributes_type, 375), (GenericAttributeValue_type, 17610),
     (GenericAttributes_type, 17611), (AddNodesItem_type, 378), (AddNodesResult_type, 485),
     (AddNodesRequest_type, 488), (AddNodesResponse_type, 491), (AddReferencesItem_type, 381),
     (AddReferencesRequest_type, 494), (AddReferencesResponse_type, 497),
     (DeleteNodesItem_type, 384), (DeleteNodesRequest_type, 500),
     (DeleteNodesResponse_type, 503), (DeleteReferencesItem_type, 387),
     (DeleteReferencesRequest_type, 506), (DeleteReferencesResponse_type, 509),
     (ViewDescription_type, 513), (BrowseDescription_type, 516),
     (ReferenceDescription_type, 520), (BrowseResult_type, 524), (BrowseRequest_type, 527),
     (BrowseResponse_type, 530), (BrowseNextRequest_type, 533), (BrowseNextResponse_type, 536),
     (RelativePathElement_type, 539), (RelativePath_type, 542), (BrowsePath_type, 545),
     (BrowsePathTarget_type, 548), (BrowsePathResult_type, 551),
     (TranslateBrowsePathsToNodeIDsRequest_type, 554),
     (TranslateBrowsePathsToNodeIDsResponse_type, 557), (RegisterNodesRequest_type, 560),
     (RegisterNodesResponse_type, 563), (UnregisterNodesRequest_type, 566),
     (UnregisterNodesResponse_type, 569), (EndpointConfiguration_type, 333),
     (QueryDataDescription_type, 572), (NodeTypeDescription_type, 575), (QueryDataSet_type, 579),
     (NodeReference_type, 582), (ContentFilterElement_type, 585), (ContentFilter_type, 588),
     (FilterOperand_type, 591), (ElementOperand_type, 594), (LiteralOperand_type, 597),
     (AttributeOperand_type, 600), (SimpleAttributeOperand_type, 603),
     (ContentFilterElementResult_type, 606), (ContentFilterResult_type, 609),
     (ParsingResult_type, 612), (QueryFirstRequest_type, 615), (QueryFirstResponse_type, 618),
     (QueryNextRequest_type, 621), (QueryNextResponse_type, 624), (ReadValueID_type, 628),
     (ReadRequest_type, 631), (ReadResponse_type, 634), (HistoryReadValueID_type, 637),
     (HistoryReadResult_type, 640), (HistoryReadDetails_type, 643), (ReadEventDetails_type, 646),
     (ReadRawModifiedDetails_type, 649), (ReadProcessedDetails_type, 652),
     (ReadAtTimeDetails_type, 655), (ReadAnnotationDataDetails_type, 23500),
     (HistoryData_type, 658), (ModificationInfo_type, 11226), (HistoryModifiedData_type, 11227),
     (HistoryEvent_type, 661), (HistoryReadRequest_type, 664), (HistoryReadResponse_type, 667),
     (WriteValue_type, 670), (WriteRequest_type, 673), (WriteResponse_type, 676),
     (HistoryUpdateDetails_type, 679), (UpdateDataDetails_type, 682),
     (UpdateStructureDataDetails_type, 11300), (UpdateEventDetails_type, 685),
     (DeleteRawModifiedDetails_type, 688), (DeleteAtTimeDetails_type, 691),
     (DeleteEventDetails_type, 694), (HistoryUpdateResult_type, 697),
     (HistoryUpdateRequest_type, 700), (HistoryUpdateResponse_type, 703),
     (CallMethodRequest_type, 706), (CallMethodResult_type, 709), (CallRequest_type, 712),
     (CallResponse_type, 715), (MonitoringFilter_type, 721), (DataChangeFilter_type, 724),
     (EventFilter_type, 727), (AggregateConfiguration_type, 950), (AggregateFilter_type, 730),
     (MonitoringFilterResult_type, 733), (EventFilterResult_type, 736),
     (AggregateFilterResult_type, 739), (MonitoringParameters_type, 742),
     (MonitoredItemCreateRequest_type, 745), (MonitoredItemCreateResult_type, 748),
     (CreateMonitoredItemsRequest_type, 751), (CreateMonitoredItemsResponse_type, 754),
     (MonitoredItemModifyRequest_type, 757), (MonitoredItemModifyResult_type, 760),
     (ModifyMonitoredItemsRequest_type, 763), (ModifyMonitoredItemsResponse_type, 766),
     (SetMonitoringModeRequest_type, 769), (SetMonitoringModeResponse_type, 772),
     (SetTriggeringRequest_type, 775), (SetTriggeringResponse_type, 778),
     (DeleteMonitoredItemsRequest_type, 781), (DeleteMonitoredItemsResponse_type, 784),
     (CreateSubscriptionRequest_type, 787), (CreateSubscriptionResponse_type, 790),
     (ModifySubscriptionRequest_type, 793), (ModifySubscriptionResponse_type, 796),
     (SetPublishingModeRequest_type, 799), (SetPublishingModeResponse_type, 802),
     (NotificationMessage_type, 805), (NotificationData_type, 947),
     (DataChangeNotification_type, 811), (MonitoredItemNotification_type, 808),
     (EventNotificationList_type, 916), (EventFieldList_type, 919),
     (HistoryEventFieldList_type, 922), (StatusChangeNotification_type, 820),
     (SubscriptionAcknowledgement_type, 823), (PublishRequest_type, 826),
     (PublishResponse_type, 829), (RepublishRequest_type, 832), (RepublishResponse_type, 835),
     (TransferResult_type, 838), (TransferSubscriptionsRequest_type, 841),
     (TransferSubscriptionsResponse_type, 844), (DeleteSubscriptionsRequest_type, 847),
     (DeleteSubscriptionsResponse_type, 850), (BuildInfo_type, 340),
     (RedundantServerDataType_type, 855), (EndpointURLListDataType_type, 11957),
     (NetworkGroupDataType_type, 11958), (SamplingIntervalDiagnosticsDataType_type, 858),
     (ServerDiagnosticsSummaryDataType_type, 861), (ServerStatusDataType_type, 864),
     (SessionDiagnosticsDataType_type, 867), (SessionSecurityDiagnosticsDataType_type, 870),
     (ServiceCounterDataType_type, 873), (StatusResult_type, 301),
     (SubscriptionDiagnosticsDataType_type, 876), (ModelChangeStructureDataType_type, 879),
     (SemanticChangeStructureDataType_type, 899), (Range_type, 886), (EUInformation_type, 889),
     (ComplexNumberType_type, 12181), (DoubleComplexNumberType_type, 12182),
     (AxisInformation_type, 12089), (XVType_type, 12090), (ProgramDiagnosticDataType_type, 896),
     (ProgramDiagnostic2DataType_type, 15397), (Annotation_type, 893)]"

fun register_all :: "(gotype \<times> u32) list \<Rightarrow> (registry, unit) act" where
  "register_all [] = ret ()"
| "register_all ((t, i) # rs) =
     andthen (RegisterBinaryEncodingID t (NewExpandedNodeID (Some (NodeIDNumeric 0 i)))) (register_all rs)"

definition ua_init :: "(registry, unit) act" where
  "ua_init = register_all registrations"

end
