(* ===== verification/Channel_Messages.thy ===== *)
theory Channel_Messages
  imports Ua_Structs Codec_Roundtrip
begin

text \<open>
  The messages of the secure channel: the type switches with which the writers of both
  ends choose the encoding id of a service message (\<open>sendServiceRequest\<close> and
  \<open>sendServiceResponse\<close>), the switches on the id with which the readers choose the
  structure to decode (\<open>readRequest\<close> and \<open>readResponse\<close>), and the structures. The
  bodies go through the codec: \<open>encode_body\<close> and \<open>decode_request\<close>, \<open>decode_response\<close>.
\<close>

section \<open>Service messages\<close>

text \<open>The dynamic types of \<open>ua.ServiceRequest\<close> and \<open>ua.ServiceResponse\<close> in the switches.\<close>

datatype ServiceRequest =
    Rq_PublishRequest | Rq_ReadRequest | Rq_BrowseRequest
    | Rq_BrowseNextRequest | Rq_TranslateBrowsePathsToNodeIDsRequest | Rq_WriteRequest
    | Rq_CallRequest | Rq_HistoryReadRequest | Rq_GetEndpointsRequest
    | Rq_OpenSecureChannelRequest | Rq_CloseSecureChannelRequest | Rq_CreateSessionRequest
    | Rq_ActivateSessionRequest | Rq_CloseSessionRequest | Rq_CreateMonitoredItemsRequest
    | Rq_DeleteMonitoredItemsRequest | Rq_CreateSubscriptionRequest
    | Rq_DeleteSubscriptionsRequest | Rq_SetPublishingModeRequest
    | Rq_ModifyMonitoredItemsRequest | Rq_SetMonitoringModeRequest | Rq_SetTriggeringRequest
    | Rq_ModifySubscriptionRequest | Rq_RepublishRequest | Rq_TransferSubscriptionsRequest
    | Rq_FindServersRequest | Rq_FindServersOnNetworkRequest | Rq_RegisterServerRequest
    | Rq_RegisterServer2Request | Rq_CancelRequest | Rq_AddNodesRequest
    | Rq_AddReferencesRequest | Rq_DeleteNodesRequest | Rq_DeleteReferencesRequest
    | Rq_RegisterNodesRequest | Rq_UnregisterNodesRequest | Rq_QueryFirstRequest
    | Rq_QueryNextRequest | Rq_HistoryUpdateRequest

datatype ServiceResponse =
    Rs_PublishResponse | Rs_ReadResponse | Rs_BrowseResponse
    | Rs_BrowseNextResponse | Rs_TranslateBrowsePathsToNodeIDsResponse | Rs_WriteResponse
    | Rs_CallResponse | Rs_HistoryReadResponse | Rs_GetEndpointsResponse
    | Rs_OpenSecureChannelResponse | Rs_CloseSecureChannelResponse | Rs_CreateSessionResponse
    | Rs_ActivateSessionResponse | Rs_CloseSessionResponse | Rs_CreateMonitoredItemsResponse
    | Rs_DeleteMonitoredItemsResponse | Rs_CreateSubscriptionResponse
    | Rs_DeleteSubscriptionsResponse | Rs_SetPublishingModeResponse | Rs_ServiceFault
    | Rs_ModifyMonitoredItemsResponse | Rs_SetMonitoringModeResponse | Rs_SetTriggeringResponse
    | Rs_ModifySubscriptionResponse | Rs_RepublishResponse | Rs_TransferSubscriptionsResponse
    | Rs_FindServersResponse | Rs_FindServersOnNetworkResponse | Rs_RegisterServerResponse
    | Rs_RegisterServer2Response | Rs_CancelResponse | Rs_AddNodesResponse
    | Rs_AddReferencesResponse | Rs_DeleteNodesResponse | Rs_DeleteReferencesResponse
    | Rs_RegisterNodesResponse | Rs_UnregisterNodesResponse | Rs_QueryFirstResponse
    | Rs_QueryNextResponse | Rs_HistoryUpdateResponse

fun request_type :: "ServiceRequest \<Rightarrow> gotype" where
  "request_type Rq_PublishRequest = PublishRequest_type"
| "request_type Rq_ReadRequest = ReadRequest_type"
| "request_type Rq_BrowseRequest = BrowseRequest_type"
| "request_type Rq_BrowseNextRequest = BrowseNextRequest_type"
| "request_type Rq_TranslateBrowsePathsToNodeIDsRequest = TranslateBrowsePathsToNodeIDsRequest_type"
| "request_type Rq_WriteRequest = WriteRequest_type"
| "request_type Rq_CallRequest = CallRequest_type"
| "request_type Rq_HistoryReadRequest = HistoryReadRequest_type"
| "request_type Rq_GetEndpointsRequest = GetEndpointsRequest_type"
| "request_type Rq_OpenSecureChannelRequest = OpenSecureChannelRequest_type"
| "request_type Rq_CloseSecureChannelRequest = CloseSecureChannelRequest_type"
| "request_type Rq_CreateSessionRequest = CreateSessionRequest_type"
| "request_type Rq_ActivateSessionRequest = ActivateSessionRequest_type"
| "request_type Rq_CloseSessionRequest = CloseSessionRequest_type"
| "request_type Rq_CreateMonitoredItemsRequest = CreateMonitoredItemsRequest_type"
| "request_type Rq_DeleteMonitoredItemsRequest = DeleteMonitoredItemsRequest_type"
| "request_type Rq_CreateSubscriptionRequest = CreateSubscriptionRequest_type"
| "request_type Rq_DeleteSubscriptionsRequest = DeleteSubscriptionsRequest_type"
| "request_type Rq_SetPublishingModeRequest = SetPublishingModeRequest_type"
| "request_type Rq_ModifyMonitoredItemsRequest = ModifyMonitoredItemsRequest_type"
| "request_type Rq_SetMonitoringModeRequest = SetMonitoringModeRequest_type"
| "request_type Rq_SetTriggeringRequest = SetTriggeringRequest_type"
| "request_type Rq_ModifySubscriptionRequest = ModifySubscriptionRequest_type"
| "request_type Rq_RepublishRequest = RepublishRequest_type"
| "request_type Rq_TransferSubscriptionsRequest = TransferSubscriptionsRequest_type"
| "request_type Rq_FindServersRequest = FindServersRequest_type"
| "request_type Rq_FindServersOnNetworkRequest = FindServersOnNetworkRequest_type"
| "request_type Rq_RegisterServerRequest = RegisterServerRequest_type"
| "request_type Rq_RegisterServer2Request = RegisterServer2Request_type"
| "request_type Rq_CancelRequest = CancelRequest_type"
| "request_type Rq_AddNodesRequest = AddNodesRequest_type"
| "request_type Rq_AddReferencesRequest = AddReferencesRequest_type"
| "request_type Rq_DeleteNodesRequest = DeleteNodesRequest_type"
| "request_type Rq_DeleteReferencesRequest = DeleteReferencesRequest_type"
| "request_type Rq_RegisterNodesRequest = RegisterNodesRequest_type"
| "request_type Rq_UnregisterNodesRequest = UnregisterNodesRequest_type"
| "request_type Rq_QueryFirstRequest = QueryFirstRequest_type"
| "request_type Rq_QueryNextRequest = QueryNextRequest_type"
| "request_type Rq_HistoryUpdateRequest = HistoryUpdateRequest_type"

fun response_type :: "ServiceResponse \<Rightarrow> gotype" where
  "response_type Rs_PublishResponse = PublishResponse_type"
| "response_type Rs_ReadResponse = ReadResponse_type"
| "response_type Rs_BrowseResponse = BrowseResponse_type"
| "response_type Rs_BrowseNextResponse = BrowseNextResponse_type"
| "response_type Rs_TranslateBrowsePathsToNodeIDsResponse = TranslateBrowsePathsToNodeIDsResponse_type"
| "response_type Rs_WriteResponse = WriteResponse_type"
| "response_type Rs_CallResponse = CallResponse_type"
| "response_type Rs_HistoryReadResponse = HistoryReadResponse_type"
| "response_type Rs_GetEndpointsResponse = GetEndpointsResponse_type"
| "response_type Rs_OpenSecureChannelResponse = OpenSecureChannelResponse_type"
| "response_type Rs_CloseSecureChannelResponse = CloseSecureChannelResponse_type"
| "response_type Rs_CreateSessionResponse = CreateSessionResponse_type"
| "response_type Rs_ActivateSessionResponse = ActivateSessionResponse_type"
| "response_type Rs_CloseSessionResponse = CloseSessionResponse_type"
| "response_type Rs_CreateMonitoredItemsResponse = CreateMonitoredItemsResponse_type"
| "response_type Rs_DeleteMonitoredItemsResponse = DeleteMonitoredItemsResponse_type"
| "response_type Rs_CreateSubscriptionResponse = CreateSubscriptionResponse_type"
| "response_type Rs_DeleteSubscriptionsResponse = DeleteSubscriptionsResponse_type"
| "response_type Rs_SetPublishingModeResponse = SetPublishingModeResponse_type"
| "response_type Rs_ServiceFault = ServiceFault_type"
| "response_type Rs_ModifyMonitoredItemsResponse = ModifyMonitoredItemsResponse_type"
| "response_type Rs_SetMonitoringModeResponse = SetMonitoringModeResponse_type"
| "response_type Rs_SetTriggeringResponse = SetTriggeringResponse_type"
| "response_type Rs_ModifySubscriptionResponse = ModifySubscriptionResponse_type"
| "response_type Rs_RepublishResponse = RepublishResponse_type"
| "response_type Rs_TransferSubscriptionsResponse = TransferSubscriptionsResponse_type"
| "response_type Rs_FindServersResponse = FindServersResponse_type"
| "response_type Rs_FindServersOnNetworkResponse = FindServersOnNetworkResponse_type"
| "response_type Rs_RegisterServerResponse = RegisterServerResponse_type"
| "response_type Rs_RegisterServer2Response = RegisterServer2Response_type"
| "response_type Rs_CancelResponse = CancelResponse_type"
| "response_type Rs_AddNodesResponse = AddNodesResponse_type"
| "response_type Rs_AddReferencesResponse = AddReferencesResponse_type"
| "response_type Rs_DeleteNodesResponse = DeleteNodesResponse_type"
| "response_type Rs_DeleteReferencesResponse = DeleteReferencesResponse_type"
| "response_type Rs_RegisterNodesResponse = RegisterNodesResponse_type"
| "response_type Rs_UnregisterNodesResponse = UnregisterNodesResponse_type"
| "response_type Rs_QueryFirstResponse = QueryFirstResponse_type"
| "response_type Rs_QueryNextResponse = QueryNextResponse_type"
| "response_type Rs_HistoryUpdateResponse = HistoryUpdateResponse_type"

section \<open>The switches of the writers\<close>

text \<open>\<open>None\<close> is the default branch: \<open>BadEncodingError\<close>.\<close>

fun sendServiceRequest_id :: "ServiceRequest \<Rightarrow> NodeID option" where
  "sendServiceRequest_id Rq_PublishRequest = Some (NodeIDNumeric 0 826)"
| "sendServiceRequest_id Rq_ReadRequest = Some (NodeIDNumeric 0 631)"
| "sendServiceRequest_id Rq_BrowseRequest = Some (NodeIDNumeric 0 527)"
| "sendServiceRequest_id Rq_BrowseNextRequest = Some (NodeIDNumeric 0 533)"
| "sendServiceRequest_id Rq_TranslateBrowsePathsToNodeIDsRequest = Some (NodeIDNumeric 0 554)"
| "sendServiceRequest_id Rq_WriteRequest = Some (NodeIDNumeric 0 673)"
| "sendServiceRequest_id Rq_CallRequest = Some (NodeIDNumeric 0 712)"
| "sendServiceRequest_id Rq_HistoryReadRequest = Some (NodeIDNumeric 0 664)"
| "sendServiceRequest_id Rq_GetEndpointsRequest = Some (NodeIDNumeric 0 428)"
| "sendServiceRequest_id Rq_OpenSecureChannelRequest = Some (NodeIDNumeric 0 446)"
| "sendServiceRequest_id Rq_CloseSecureChannelRequest = Some (NodeIDNumeric 0 452)"
| "sendServiceRequest_id Rq_CreateSessionRequest = Some (NodeIDNumeric 0 461)"
| "sendServiceRequest_id Rq_ActivateSessionRequest = Some (NodeIDNumeric 0 467)"
| "sendServiceRequest_id Rq_CloseSessionRequest = Some (NodeIDNumeric 0 473)"
| "sendServiceRequest_id Rq_CreateMonitoredItemsRequest = Some (NodeIDNumeric 0 751)"
| "sendServiceRequest_id Rq_DeleteMonitoredItemsRequest = Some (NodeIDNumeric 0 781)"
| "sendServiceRequest_id Rq_CreateSubscriptionRequest = Some (NodeIDNumeric 0 787)"
| "sendServiceRequest_id Rq_DeleteSubscriptionsRequest = Some (NodeIDNumeric 0 847)"
| "sendServiceRequest_id Rq_SetPublishingModeRequest = Some (NodeIDNumeric 0 799)"
| "sendServiceRequest_id Rq_ModifyMonitoredItemsRequest = Some (NodeIDNumeric 0 763)"
| "sendServiceRequest_id Rq_SetMonitoringModeRequest = Some (NodeIDNumeric 0 769)"
| "sendServiceRequest_id Rq_SetTriggeringRequest = Some (NodeIDNumeric 0 775)"
| "sendServiceRequest_id Rq_ModifySubscriptionRequest = Some (NodeIDNumeric 0 793)"
| "sendServiceRequest_id Rq_RepublishRequest = Some (NodeIDNumeric 0 832)"
| "sendServiceRequest_id Rq_TransferSubscriptionsRequest = Some (NodeIDNumeric 0 841)"
| "sendServiceRequest_id Rq_FindServersRequest = Some (NodeIDNumeric 0 422)"
| "sendServiceRequest_id Rq_FindServersOnNetworkRequest = Some (NodeIDNumeric 0 12208)"
| "sendServiceRequest_id Rq_RegisterServerRequest = Some (NodeIDNumeric 0 437)"
| "sendServiceRequest_id Rq_RegisterServer2Request = Some (NodeIDNumeric 0 12211)"
| "sendServiceRequest_id Rq_CancelRequest = Some (NodeIDNumeric 0 479)"
| "sendServiceRequest_id Rq_AddNodesRequest = Some (NodeIDNumeric 0 488)"
| "sendServiceRequest_id Rq_AddReferencesRequest = Some (NodeIDNumeric 0 494)"
| "sendServiceRequest_id Rq_DeleteNodesRequest = Some (NodeIDNumeric 0 500)"
| "sendServiceRequest_id Rq_DeleteReferencesRequest = Some (NodeIDNumeric 0 506)"
| "sendServiceRequest_id Rq_RegisterNodesRequest = Some (NodeIDNumeric 0 560)"
| "sendServiceRequest_id Rq_UnregisterNodesRequest = Some (NodeIDNumeric 0 566)"
| "sendServiceRequest_id Rq_QueryFirstRequest = Some (NodeIDNumeric 0 615)"
| "sendServiceRequest_id Rq_QueryNextRequest = Some (NodeIDNumeric 0 621)"
| "sendServiceRequest_id Rq_HistoryUpdateRequest = Some (NodeIDNumeric 0 700)"

fun sendServiceResponse_id :: "ServiceResponse \<Rightarrow> NodeID option" where
  "sendServiceResponse_id Rs_PublishResponse = Some (NodeIDNumeric 0 829)"
| "sendServiceResponse_id Rs_ReadResponse = Some (NodeIDNumeric 0 634)"
| "sendServiceResponse_id Rs_BrowseResponse = Some (NodeIDNumeric 0 530)"
| "sendServiceResponse_id Rs_BrowseNextResponse = Some (NodeIDNumeric 0 536)"
| "sendServiceResponse_id Rs_TranslateBrowsePathsToNodeIDsResponse = Some (NodeIDNumeric 0 557)"
| "sendServiceResponse_id Rs_WriteResponse = Some (NodeIDNumeric 0 676)"
| "sendServiceResponse_id Rs_CallResponse = Some (NodeIDNumeric 0 715)"
| "sendServiceResponse_id Rs_HistoryReadResponse = Some (NodeIDNumeric 0 667)"
| "sendServiceResponse_id Rs_GetEndpointsResponse = Some (NodeIDNumeric 0 431)"
| "sendServiceResponse_id Rs_CreateSessionResponse = Some (NodeIDNumeric 0 464)"
| "sendServiceResponse_id Rs_ActivateSessionResponse = Some (NodeIDNumeric 0 470)"
| "sendServiceResponse_id Rs_CloseSessionResponse = Some (NodeIDNumeric 0 476)"
| "sendServiceResponse_id Rs_CreateMonitoredItemsResponse = Some (NodeIDNumeric 0 754)"
| "sendServiceResponse_id Rs_DeleteMonitoredItemsResponse = Some (NodeIDNumeric 0 784)"
| "sendServiceResponse_id Rs_CreateSubscriptionResponse = Some (NodeIDNumeric 0 790)"
| "sendServiceResponse_id Rs_DeleteSubscriptionsResponse = Some (NodeIDNumeric 0 850)"
| "sendServiceResponse_id Rs_SetPublishingModeResponse = Some (NodeIDNumeric 0 802)"
| "sendServiceResponse_id Rs_ServiceFault = Some (NodeIDNumeric 0 397)"
| "sendServiceResponse_id Rs_ModifyMonitoredItemsResponse = Some (NodeIDNumeric 0 766)"
| "sendServiceResponse_id Rs_SetMonitoringModeResponse = Some (NodeIDNumeric 0 772)"
| "sendServiceResponse_id Rs_SetTriggeringResponse = Some (NodeIDNumeric 0 778)"
| "sendServiceResponse_id Rs_ModifySubscriptionResponse = Some (NodeIDNumeric 0 796)"
| "sendServiceResponse_id Rs_RepublishResponse = Some (NodeIDNumeric 0 835)"
| "sendServiceResponse_id Rs_TransferSubscriptionsResponse = Some (NodeIDNumeric 0 844)"
| "sendServiceResponse_id Rs_FindServersResponse = Some (NodeIDNumeric 0 425)"
| "sendServiceResponse_id Rs_FindServersOnNetworkResponse = Some (NodeIDNumeric 0 12209)"
| "sendServiceResponse_id Rs_RegisterServerResponse = Some (NodeIDNumeric 0 440)"
| "sendServiceResponse_id Rs_RegisterServer2Response = Some (NodeIDNumeric 0 12212)"
| "sendServiceResponse_id Rs_CancelResponse = Some (NodeIDNumeric 0 482)"
| "sendServiceResponse_id Rs_AddNodesResponse = Some (NodeIDNumeric 0 491)"
| "sendServiceResponse_id Rs_AddReferencesResponse = Some (NodeIDNumeric 0 497)"
| "sendServiceResponse_id Rs_DeleteNodesResponse = Some (NodeIDNumeric 0 503)"
| "sendServiceResponse_id Rs_DeleteReferencesResponse = Some (NodeIDNumeric 0 509)"
| "sendServiceResponse_id Rs_RegisterNodesResponse = Some (NodeIDNumeric 0 563)"
| "sendServiceResponse_id Rs_UnregisterNodesResponse = Some (NodeIDNumeric 0 569)"
| "sendServiceResponse_id Rs_QueryFirstResponse = Some (NodeIDNumeric 0 618)"
| "sendServiceResponse_id Rs_QueryNextResponse = Some (NodeIDNumeric 0 624)"
| "sendServiceResponse_id Rs_HistoryUpdateResponse = Some (NodeIDNumeric 0 703)"
| "sendServiceResponse_id _ = None"

section \<open>The switches of the readers\<close>

definition readRequest_new :: "NodeID \<Rightarrow> ServiceRequest option" where
  "readRequest_new n = map_of [(NodeIDNumeric 0 826, Rq_PublishRequest)
     , (NodeIDNumeric 0 631, Rq_ReadRequest), (NodeIDNumeric 0 527, Rq_BrowseRequest)
     , (NodeIDNumeric 0 533, Rq_BrowseNextRequest)
     , (NodeIDNumeric 0 554, Rq_TranslateBrowsePathsToNodeIDsRequest)
     , (NodeIDNumeric 0 673, Rq_WriteRequest), (NodeIDNumeric 0 712, Rq_CallRequest)
     , (NodeIDNumeric 0 664, Rq_HistoryReadRequest)
     , (NodeIDNumeric 0 428, Rq_GetEndpointsRequest)
     , (NodeIDNumeric 0 446, Rq_OpenSecureChannelRequest)
     , (NodeIDNumeric 0 452, Rq_CloseSecureChannelRequest)
     , (NodeIDNumeric 0 461, Rq_CreateSessionRequest)
     , (NodeIDNumeric 0 467, Rq_ActivateSessionRequest)
     , (NodeIDNumeric 0 473, Rq_CloseSessionRequest)
     , (NodeIDNumeric 0 751, Rq_CreateMonitoredItemsRequest)
     , (NodeIDNumeric 0 781, Rq_DeleteMonitoredItemsRequest)
     , (NodeIDNumeric 0 787, Rq_CreateSubscriptionRequest)
     , (NodeIDNumeric 0 847, Rq_DeleteSubscriptionsRequest)
     , (NodeIDNumeric 0 799, Rq_SetPublishingModeRequest)
     , (NodeIDNumeric 0 763, Rq_ModifyMonitoredItemsRequest)
     , (NodeIDNumeric 0 769, Rq_SetMonitoringModeRequest)
     , (NodeIDNumeric 0 775, Rq_SetTriggeringRequest)
     , (NodeIDNumeric 0 793, Rq_ModifySubscriptionRequest)
     , (NodeIDNumeric 0 832, Rq_RepublishRequest)
     , (NodeIDNumeric 0 841, Rq_TransferSubscriptionsRequest)
     , (NodeIDNumeric 0 422, Rq_FindServersRequest)
     , (NodeIDNumeric 0 12208, Rq_FindServersOnNetworkRequest)
     , (NodeIDNumeric 0 437, Rq_RegisterServerRequest)
     , (NodeIDNumeric 0 12211, Rq_RegisterServer2Request)
     , (NodeIDNumeric 0 479, Rq_CancelRequest), (NodeIDNumeric 0 488, Rq_AddNodesRequest)
     , (NodeIDNumeric 0 494, Rq_AddReferencesRequest)
     , (NodeIDNumeric 0 500, Rq_DeleteNodesRequest)
     , (NodeIDNumeric 0 506, Rq_DeleteReferencesRequest)
     , (NodeIDNumeric 0 560, Rq_RegisterNodesRequest)
     , (NodeIDNumeric 0 566, Rq_UnregisterNodesRequest)
     , (NodeIDNumeric 0 615, Rq_QueryFirstRequest), (NodeIDNumeric 0 621, Rq_QueryNextRequest)
     , (NodeIDNumeric 0 700, Rq_HistoryUpdateRequest)] n"

definition readResponse_new :: "NodeID \<Rightarrow> ServiceResponse option" where
  "readResponse_new n = map_of [(NodeIDNumeric 0 829, Rs_PublishResponse)
     , (NodeIDNumeric 0 634, Rs_ReadResponse), (NodeIDNumeric 0 530, Rs_BrowseResponse)
     , (NodeIDNumeric 0 536, Rs_BrowseNextResponse)
     , (NodeIDNumeric 0 557, Rs_TranslateBrowsePathsToNodeIDsResponse)
     , (NodeIDNumeric 0 676, Rs_WriteResponse), (NodeIDNumeric 0 715, Rs_CallResponse)
     , (NodeIDNumeric 0 667, Rs_HistoryReadResponse)
     , (NodeIDNumeric 0 431, Rs_GetEndpointsResponse)
     , (NodeIDNumeric 0 449, Rs_OpenSecureChannelResponse)
     , (NodeIDNumeric 0 455, Rs_CloseSecureChannelResponse)
     , (NodeIDNumeric 0 464, Rs_CreateSessionResponse)
     , (NodeIDNumeric 0 470, Rs_ActivateSessionResponse)
     , (NodeIDNumeric 0 476, Rs_CloseSessionResponse)
     , (NodeIDNumeric 0 754, Rs_CreateMonitoredItemsResponse)
     , (NodeIDNumeric 0 784, Rs_DeleteMonitoredItemsResponse)
     , (NodeIDNumeric 0 790, Rs_CreateSubscriptionResponse)
     , (NodeIDNumeric 0 850, Rs_DeleteSubscriptionsResponse)
     , (NodeIDNumeric 0 802, Rs_SetPublishingModeResponse)
     , (NodeIDNumeric 0 397, Rs_ServiceFault)
     , (NodeIDNumeric 0 766, Rs_ModifyMonitoredItemsResponse)
     , (NodeIDNumeric 0 772, Rs_SetMonitoringModeResponse)
     , (NodeIDNumeric 0 778, Rs_SetTriggeringResponse)
     , (NodeIDNumeric 0 796, Rs_ModifySubscriptionResponse)
     , (NodeIDNumeric 0 835, Rs_RepublishResponse)
     , (NodeIDNumeric 0 844, Rs_TransferSubscriptionsResponse)
     , (NodeIDNumeric 0 425, Rs_FindServersResponse)
     , (NodeIDNumeric 0 12209, Rs_FindServersOnNetworkResponse)
     , (NodeIDNumeric 0 440, Rs_RegisterServerResponse)
     , (NodeIDNumeric 0 12212, Rs_RegisterServer2Response)
     , (NodeIDNumeric 0 482, Rs_CancelResponse), (NodeIDNumeric 0 491, Rs_AddNodesResponse)
     , (NodeIDNumeric 0 497, Rs_AddReferencesResponse)
     , (NodeIDNumeric 0 503, Rs_DeleteNodesResponse)
     , (NodeIDNumeric 0 509, Rs_DeleteReferencesResponse)
     , (NodeIDNumeric 0 563, Rs_RegisterNodesResponse)
     , (NodeIDNumeric 0 569, Rs_UnregisterNodesResponse)
     , (NodeIDNumeric 0 618, Rs_QueryFirstResponse), (NodeIDNumeric 0 624, Rs_QueryNextResponse)
     , (NodeIDNumeric 0 703, Rs_HistoryUpdateResponse)] n"

section \<open>Bodies\<close>

text \<open>
  The start of the writers: the encoding id and the message, a pointer to a structure,
  are encoded into a buffer \<open>b\<close> of the third-party package. \<open>rd\<close> gives the bytes such a
  buffer will deliver.
\<close>

fun ptr_to :: "goval \<Rightarrow> goval" where
  "ptr_to (VStruct n ts vs) = VPtr n ts (Some vs)"
| "ptr_to v = v"

definition encode_body :: "'b bufops \<Rightarrow> ('b \<Rightarrow> bytes) \<Rightarrow> 'b \<Rightarrow> registry \<Rightarrow> string list
    \<Rightarrow> NodeID option \<Rightarrow> goval \<Rightarrow> bytes res" where
  "encode_body ops rd b reg uris i v = (case i of
       None \<Rightarrow> Err (Status BadEncodingError)
     | Some n \<Rightarrow>
         (case seqs [orfail (Status BadEncodingError) (WriteNodeID ops (Some n)),
                     orfail (Status BadEncodingError) (Encode ops reg uris (ptr_to v))] (BufferAt b) of
            (Ok _, BufferAt b') \<Rightarrow> Ok (rd b')
          | (Err e, _) \<Rightarrow> Err e
          | (NoFuel, _) \<Rightarrow> NoFuel
          | _ \<Rightarrow> Panic))"

text \<open>
  The end of the readers: the id is read from the assembled body, the switch allocates
  the structure, and the codec decodes into it.
\<close>

definition decode_body :: "registry \<Rightarrow> string list \<Rightarrow> nat \<Rightarrow> (NodeID \<Rightarrow> 'k option) \<Rightarrow> ('k \<Rightarrow> gotype)
    \<Rightarrow> bytes \<Rightarrow> ('k \<times> goval) res" where
  "decode_body reg uris fuel new ty body =
     (case orfail (Status BadDecodingError) ReadNodeID body of
        (Ok n, rest) \<Rightarrow>
          (case Option.bind n new of
             None \<Rightarrow> Err (Status BadDecodingError)
           | Some k \<Rightarrow>
               (case orfail (Status BadDecodingError) (Decode reg uris fuel (ty k)) rest of
                  (Ok v, _) \<Rightarrow> Ok (k, v)
                | (Err e, _) \<Rightarrow> Err e
                | (Panic, _) \<Rightarrow> Panic
                | (NoFuel, _) \<Rightarrow> NoFuel))
      | (Err e, _) \<Rightarrow> Err e
      | (Panic, _) \<Rightarrow> Panic
      | (NoFuel, _) \<Rightarrow> NoFuel)"

definition decode_request :: "registry \<Rightarrow> string list \<Rightarrow> nat \<Rightarrow> bytes \<Rightarrow> (ServiceRequest \<times> goval) res" where
  "decode_request reg uris fuel = decode_body reg uris fuel readRequest_new request_type"

definition decode_response :: "registry \<Rightarrow> string list \<Rightarrow> nat \<Rightarrow> bytes \<Rightarrow> (ServiceResponse \<times> goval) res" where
  "decode_response reg uris fuel = decode_body reg uris fuel readResponse_new response_type"

section \<open>Lemmas\<close>

lemma request_new_the: "case sendServiceRequest_id k of None \<Rightarrow> True | Some n \<Rightarrow> readRequest_new n = Some k"
  by (cases k) (simp_all add: readRequest_new_def)

lemma response_new_the: "case sendServiceResponse_id k of None \<Rightarrow> True | Some n \<Rightarrow> readResponse_new n = Some k"
  by (cases k) (simp_all add: readResponse_new_def)

lemma request_codec: "codec_for (request_type k)"
  by (cases k) (simp_all only: request_type.simps struct_defs codec_for.simps codec_for_fields.simps
      stype.distinct simp_thms)

lemma response_codec: "codec_for (response_type k)"
  by (cases k) (simp_all only: response_type.simps struct_defs codec_for.simps codec_for_fields.simps
      stype.distinct simp_thms)

lemma request_id_new: "sendServiceRequest_id k = Some n \<Longrightarrow> readRequest_new n = Some k"
  using request_new_the [of k] by simp

lemma response_id_new: "sendServiceResponse_id k = Some n \<Longrightarrow> readResponse_new n = Some k"
  using response_new_the [of k] by simp

lemma encode_ptr_to: "v = VStruct n ts vs \<Longrightarrow> Encode ops reg uris (ptr_to v) = Encode ops reg uris v"
  by (simp add: Encode_def enc_dyn.simps)

context buffer_at
begin

lemma encode_body_wire:
  assumes "binv b" and "bcontent b = []" and "v = VStruct nm ts vs" and "ok_dyn True reg uris v"
    and "codec_for (TStruct nm ts)"
    and "length (wire_NodeID (Some n)) + length (wire_dyn reg uris v) < broom b"
  shows "encode_body ops bcontent b reg uris (Some n) v = Ok (wire_NodeID (Some n) @ wire_dyn reg uris v)"
proof -
  let ?m = "seqs [orfail (Status BadEncodingError) (WriteNodeID ops (Some n)),
       orfail (Status BadEncodingError) (Encode ops reg uris (ptr_to v))]"
  have "emits (Encode ops reg uris (ptr_to v)) (wire_dyn reg uris v)"
    unfolding encode_ptr_to [OF assms(3)] using emits_Encode [OF assms(4)] assms(3,5) by simp
  then have "emits ?m (concat [wire_NodeID (Some n), wire_dyn reg uris v])"
    by (intro emits_seqs) (simp add: emits_orfail emits_NodeID)
  from emits_room [OF this, of "BufferAt b"] assms(1,2,6)
  obtain b' where "?m (BufferAt b) = (Ok (), BufferAt b')"
    and "bcontent b' = wire_NodeID (Some n) @ wire_dyn reg uris v"
    by (auto simp: sink_ok_def room_def wrote_def same_kind_def content_def)
  then show ?thesis by (simp add: encode_body_def del: seqs.simps)
qed

end

text \<open>
  A message whose id the reader's switch knows decodes to the message that was encoded.
\<close>

lemma decode_body_wire:
  assumes "v = VStruct nm ts vs" and "ok_dyn True reg uris v" and "ty k = TStruct nm ts"
    and "codec_for (ty k)" and "n = NodeIDNumeric 0 i" and "i \<noteq> 0" and "new n = Some k"
    and "length (wire_dyn reg uris v) \<le> fuel"
  shows "decode_body reg uris fuel new ty (wire_NodeID (Some n) @ wire_dyn reg uris v) = Ok (k, v)"
proof -
  have "ReadNodeID (wire_NodeID (Some n) @ wire_dyn reg uris v) = (Ok (Some n), wire_dyn reg uris v)"
    using assms(5,6) reads_NodeID [of "Some n"] by (simp add: norm_NodeID_def)
  moreover have "Decode reg uris fuel (ty k) (wire_dyn reg uris v) = (Ok v, [])"
    using reads_codec(5) [OF assms(2,8), of "[]"] assms(1,3,4) by (simp add: Decode_def)
  ultimately show ?thesis using assms(7) by (simp add: decode_body_def orfail_Ok)
qed

end
