(* ===== verification/Secure_Channel.thy ===== *)
theory Secure_Channel
  imports Security_Policy Channel_Messages "HOL-Library.Signed_Division"
begin

text \<open>
  The secure channels of both ends, \<open>server/server_secure_channel.go\<close> and
  \<open>client/client_secure_channel.go\<close>: reading chunks from the connection, the symmetric
  writer and reader of service messages with their signing and encryption, the tokens
  and the keys derived for them. \<open>Channel\<close> holds the fields both structs have;
  \<open>ServerChannel\<close> and \<open>ClientChannel\<close> extend it with their own. The connection is the
  list of segments the transport will still deliver and the list of chunks written to
  it. A signing or encrypting key lives in the hash or cipher object built from it.
\<close>

section \<open>Constants\<close>

definition MessageTypeHello :: u32 where "MessageTypeHello = 0x464C4548"
definition MessageTypeAck :: u32 where "MessageTypeAck = 0x464B4341"
definition MessageTypeError :: u32 where "MessageTypeError = 0x46525245"
definition MessageTypeOpenFinal :: u32 where "MessageTypeOpenFinal = 0x464E504F"
definition MessageTypeCloseFinal :: u32 where "MessageTypeCloseFinal = 0x464F4C43"
definition MessageTypeFinal :: u32 where "MessageTypeFinal = 0x4647534D"
definition MessageTypeChunk :: u32 where "MessageTypeChunk = 0x4347534D"
definition MessageTypeAbort :: u32 where "MessageTypeAbort = 0x4147534D"

lemmas message_types = MessageTypeHello_def MessageTypeAck_def MessageTypeError_def
  MessageTypeOpenFinal_def MessageTypeCloseFinal_def MessageTypeFinal_def MessageTypeChunk_def
  MessageTypeAbort_def

definition BadRequestTooLarge :: StatusCode where "BadRequestTooLarge = 0x80B80000"
definition BadResponseTooLarge :: StatusCode where "BadResponseTooLarge = 0x80B90000"
definition BadUnknownResponse :: StatusCode where "BadUnknownResponse = 0x80090000"
definition BadSecureChannelClosed :: StatusCode where "BadSecureChannelClosed = 0x80860000"
definition BadSecureChannelTokenUnknown :: StatusCode where "BadSecureChannelTokenUnknown = 0x80870000"
definition BadTCPSecureChannelUnknown :: StatusCode where "BadTCPSecureChannelUnknown = 0x807F0000"
definition BadSecurityChecksFailed :: StatusCode where "BadSecurityChecksFailed = 0x80130000"
definition BadProtocolVersionUnsupported :: StatusCode where "BadProtocolVersionUnsupported = 0x80BE0000"

lemmas channel_codes [code_defs] = BadRequestTooLarge_def BadResponseTooLarge_def BadUnknownResponse_def
  BadSecureChannelClosed_def BadSecureChannelTokenUnknown_def BadTCPSecureChannelUnknown_def
  BadSecurityChecksFailed_def BadProtocolVersionUnsupported_def BadSecurityPolicyRejected_def

text \<open>\<open>MessageSecurityMode\<close>, an \<open>int32\<close>; a peer may send values outside the enumeration.\<close>

abbreviation (input) MessageSecurityModeNone :: u32 where "MessageSecurityModeNone \<equiv> 1"
abbreviation (input) MessageSecurityModeSign :: u32 where "MessageSecurityModeSign \<equiv> 2"
abbreviation (input) MessageSecurityModeSignAndEncrypt :: u32 where "MessageSecurityModeSignAndEncrypt \<equiv> 3"

definition mode_signs :: "u32 \<Rightarrow> bool" where
  "mode_signs m \<longleftrightarrow> m = MessageSecurityModeSignAndEncrypt \<or> m = MessageSecurityModeSign"

definition sequenceHeaderSize :: nat where "sequenceHeaderSize = 8"

section \<open>The channels\<close>

record ('priv, 'pub) Channel =
  ch_securityPolicyURI :: string
  ch_securityPolicy :: SecurityPolicy
  ch_securityMode :: u32
  ch_channelID :: u32
  ch_tokenID :: u32
  ch_sequenceNumber :: u32
  ch_localNonce :: bytes
  ch_remoteNonce :: bytes
  ch_localCertificate :: "bytes option"
  ch_remoteCertificate :: "bytes option"
  ch_localPrivateKey :: "'priv option"
  ch_remotePublicKey :: "'pub option"
  ch_symSignHMAC :: "hasher option"
  ch_symVerifyHMAC :: "hasher option"
  ch_symEncryptingBlockCipher :: "bytes option"
  ch_symDecryptingBlockCipher :: "bytes option"
  ch_localInitializationVector :: bytes
  ch_remoteInitializationVector :: bytes
  ch_sendBufferSize :: u32
  ch_receiveBuffer :: bytes
  ch_maxRequestMessageSize :: u32
  ch_maxRequestChunkCount :: u32
  ch_maxResponseMessageSize :: u32
  ch_maxResponseChunkCount :: u32
  ch_connected :: bool
  ch_in :: "bytes list"
  ch_out :: "bytes list"

record ('priv, 'pub) ServerChannel = "('priv, 'pub) Channel" +
  sc_lastTokenID :: u32
  sc_pendingTokenID :: u32
  sc_pendingTokenExpiration :: int
  sc_tokenExpiration :: int
  sc_remoteCertificateThumbprint :: "bytes option"
  sc_receiveBufferSize :: u32
  sc_endpointURL :: string

record ('priv, 'pub) ClientChannel = "('priv, 'pub) Channel" +
  cc_sendingTokenID :: u32
  cc_receivingTokenID :: u32
  cc_poolSize :: nat
  cc_receiveBufferSize :: u32
  cc_endpointURL :: string
  cc_remoteThumbprint :: bytes

text \<open>
  \<open>getNextSequenceNumber\<close> and \<open>getNextTokenID\<close>: one successful compare-and-swap of
  the counter, which skips zero.
\<close>

definition next_number :: "u32 \<Rightarrow> u32" where
  "next_number old = (let n = (if old = -1 then 0 else old) in n + 1)"

definition getNextSequenceNumber :: "(('priv, 'pub, 'z) Channel_scheme, u32) act" where
  "getNextSequenceNumber = (\<lambda>ch. let n = next_number (ch_sequenceNumber ch)
     in (Ok n, ch\<lparr>ch_sequenceNumber := n\<rparr>))"

definition getNextTokenID :: "(('priv, 'pub) ServerChannel, u32) act" where
  "getNextTokenID = (\<lambda>ch. let n = next_number (sc_lastTokenID ch)
     in (Ok n, ch\<lparr>sc_lastTokenID := n\<rparr>))"

section \<open>The connection\<close>

text \<open>
  \<open>for num < count { n, err = ch.conn.Read(p[num:count]) ... }\<close>: a read delivers at most
  the segment at hand. A segment that is empty is a read of zero bytes without error;
  at the end of the segments the read fails.
\<close>

datatype fill = Filled | Stopped "goerr option"

fun conn_fill :: "nat \<Rightarrow> bytes \<Rightarrow> bytes list \<Rightarrow> bytes \<times> fill \<times> bytes list" where
  "conn_fill count acc [] =
     (if length acc < count then (acc, Stopped (Some ErrEOF), []) else (acc, Filled, []))"
| "conn_fill count acc (s # ss) =
     (if length acc < count
      then if s = [] then (acc, Stopped None, ss)
           else let k = count - length acc
                in if length s \<le> k then conn_fill count (acc @ s) ss
                   else (acc @ take k s, Filled, drop k s # ss)
      else (acc, Filled, s # ss))"

text \<open>
  \<open>read(p)\<close> with \<open>cap(p) = cap\<close>: the 8 bytes with the length, then the rest. The result
  is what is in \<open>p\<close> with the error, or a panic when \<open>p\<close> has no room for the first 8.
\<close>

definition conn_read :: "nat \<Rightarrow> bytes list \<Rightarrow> (bytes \<times> goerr option) res \<times> bytes list" where
  "conn_read cap segs =
     (if cap < 8 then (Panic, segs)
      else case conn_fill 8 [] segs of
        (b, Stopped e, ss) \<Rightarrow> (Ok (b, e), ss)
      | (b, Filled, ss) \<Rightarrow>
          (let count = unat (le_word (take 4 (drop 4 b)) :: u32) in
           if cap < count then (Ok (b, Some (Status BadDecodingError)), ss)
           else case conn_fill count b ss of
             (b', Filled, ss') \<Rightarrow> (Ok (b', None), ss')
           | (b', Stopped e, ss') \<Rightarrow> (Ok (b', e), ss')))"

definition ch_read :: "(('priv, 'pub, 'z) Channel_scheme, bytes) act" where
  "ch_read = (\<lambda>ch.
     if \<not> ch_connected ch then (Err (Status BadSecureChannelClosed), ch)
     else case conn_read (length (ch_receiveBuffer ch)) (ch_in ch) of
       (Ok (b, e), ss) \<Rightarrow>
         (let ch' = ch\<lparr>ch_in := ss, ch_receiveBuffer := b @ drop (length b) (ch_receiveBuffer ch)\<rparr>
          in case e of None \<Rightarrow> (Ok b, ch') | Some x \<Rightarrow> (Err x, ch'))
     | (Err x, ss) \<Rightarrow> (Err x, ch\<lparr>ch_in := ss\<rparr>)
     | (Panic, ss) \<Rightarrow> (Panic, ch)
     | (NoFuel, ss) \<Rightarrow> (NoFuel, ch))"

definition chan_write :: "bytes \<Rightarrow> (('priv, 'pub, 'z) Channel_scheme, unit) act" where
  "chan_write p = (\<lambda>ch.
     if \<not> ch_connected ch then (Err (Status BadSecureChannelClosed), ch)
     else (Ok (), ch\<lparr>ch_out := ch_out ch @ [p]\<rparr>))"

section \<open>Writing a symmetric chunk\<close>

text \<open>The sizes of the next chunk, from the bytes of the body that are left.\<close>

record chunk_plan =
  cp_paddingHeaderSize :: int
  cp_maxBodySize :: int
  cp_bodySize :: int
  cp_paddingSize :: int
  cp_chunkSize :: int

definition plan_chunk :: "u32 \<Rightarrow> SecurityPolicy \<Rightarrow> u32 \<Rightarrow> int \<Rightarrow> chunk_plan" where
  "plan_chunk md p sendBufferSize bodyCount =
     (let signatureSize = int (SymSignatureSize p);
          blk = int (SymEncryptionBlockSize p);
          buf = int (unat sendBufferSize)
      in if md = MessageSecurityModeSignAndEncrypt
         then let ph = (if blk > 256 then 2 else 1);
                  mx = ((buf - 16) sdiv blk) * blk - 8 - ph - signatureSize;
                  body = (if bodyCount < mx then bodyCount else mx);
                  pad = (if bodyCount < mx
                         then (blk - ((8 + bodyCount + ph + signatureSize) mod blk)) mod blk else 0)
              in \<lparr>cp_paddingHeaderSize = ph, cp_maxBodySize = mx, cp_bodySize = body, cp_paddingSize = pad,
                  cp_chunkSize = 16 + 8 + body + pad + ph + signatureSize\<rparr>
         else let mx = buf - 16 - 8 - signatureSize;
                  body = (if bodyCount < mx then bodyCount else mx)
              in \<lparr>cp_paddingHeaderSize = 0, cp_maxBodySize = mx, cp_bodySize = body, cp_paddingSize = 0,
                  cp_chunkSize = 16 + 8 + body + signatureSize\<rparr>)"

text \<open>
  The writers drop the errors of the encoder for the headers and the padding: what is
  left is the state of the byte writer. \<open>put_encoder\<close> below ties it to the encoder.
\<close>

definition put :: "bytes \<Rightarrow> Writer \<Rightarrow> Writer" where
  "put p w = snd (Writer_Write p w)"

definition put_padding :: "int \<Rightarrow> int \<Rightarrow> Writer \<Rightarrow> Writer" where
  "put_padding ph pad w =
     (let w1 = put [word_of_int pad] w;
          w2 = (put [word_of_int pad] ^^ nat pad) w1
      in if ph = 2 then put [word_of_int (pad div 256)] w2 else w2)"

text \<open>
  \<open>io.CopyN(stream, bodyStream, n)\<close>: nothing is copied for \<open>n \<le> 0\<close>; a stream without room
  for the bytes stops the copy with \<open>ErrShortWrite\<close>.
\<close>

definition copy_body :: "int \<Rightarrow> bytes \<Rightarrow> Writer \<Rightarrow> Writer res" where
  "copy_body n body w =
     (if n \<le> 0 then Ok w
      else case Writer_Write (take (nat n) body) w of
        ((_, None), w') \<Rightarrow> Ok w'
      | ((_, Some e), _) \<Rightarrow> Err e)"

text \<open>The sum of the hash object over the stream; a nil object panics.\<close>

definition stream_hash :: "('priv, 'pub) crypto \<Rightarrow> hasher option \<Rightarrow> Writer \<Rightarrow> bytes res" where
  "stream_hash c h w = (case h of None \<Rightarrow> Panic | Some hs \<Rightarrow> Ok (hash_sum c hs (Writer_Bytes w)))"

text \<open>\<open>if _, err = stream.Write(signature); err != nil { return err }\<close>\<close>

definition write_signature :: "Writer \<Rightarrow> bytes \<Rightarrow> Writer res" where
  "write_signature w sg = (case Writer_Write sg w of
       ((_, None), w') \<Rightarrow> Ok w'
     | ((_, Some e), _) \<Rightarrow> Err e)"

definition res_bind :: "'a res \<Rightarrow> ('a \<Rightarrow> 'b res) \<Rightarrow> 'b res" where
  "res_bind r f = (case r of Ok x \<Rightarrow> f x | Err e \<Rightarrow> Err e | Panic \<Rightarrow> Panic | NoFuel \<Rightarrow> NoFuel)"

definition lift_res :: "'a res \<Rightarrow> ('s, 'a) act" where
  "lift_res r = (\<lambda>s. (r, s))"

text \<open>The bytes of the stream, with everything after the plain header encrypted in place.\<close>

definition encrypt_stream :: "('priv, 'pub) crypto \<Rightarrow> bytes option \<Rightarrow> bytes \<Rightarrow> Writer \<Rightarrow> bytes res" where
  "encrypt_stream c block iv w =
     res_bind (CBC_encrypt c block iv (drop 16 (Writer_Bytes w))) (\<lambda>x. Ok (take 16 (Writer_Bytes w) @ x))"

text \<open>The plain header and the security header, then the sequence header.\<close>

definition put_header :: "u32 \<Rightarrow> ('priv, 'pub, 'z) Channel_scheme \<Rightarrow> chunk_plan \<Rightarrow> Writer \<Rightarrow> Writer" where
  "put_header mt ch pl w =
     put (le_bytes 4 (ch_tokenID ch)) (put (le_bytes 4 (ch_channelID ch))
       (put (le_bytes 4 (word_of_int (cp_chunkSize pl) :: u32)) (put (le_bytes 4 mt) w)))"

definition put_sequence :: "u32 \<Rightarrow> u32 \<Rightarrow> Writer \<Rightarrow> Writer" where
  "put_sequence sn rid w = put (le_bytes 4 rid) (put (le_bytes 4 sn) w)"

text \<open>
  The steps of \<open>sendServiceResponse\<close> for one chunk: the result is the chunk and the
  number of body bytes in it.
\<close>

definition server_chunk :: "('priv, 'pub) crypto \<Rightarrow> u32 \<Rightarrow> int \<Rightarrow> bytes \<Rightarrow>
    (('priv, 'pub) ServerChannel, bytes \<times> int) act" where
  "server_chunk c rid bodyCount body = (\<lambda>ch.
     (let md = ch_securityMode ch;
          pl = plan_chunk md (ch_securityPolicy ch) (ch_sendBufferSize ch) bodyCount;
          w0 = put_header (if bodyCount > cp_bodySize pl then MessageTypeChunk else MessageTypeFinal) ch pl
                 (NewWriter (replicate (unat (ch_sendBufferSize ch)) 0))
      in if Writer_Len w0 \<noteq> 16 then (Err (Status BadEncodingError), ch)
         else bnd getNextSequenceNumber (\<lambda>sn. lift_res
           (res_bind (copy_body (cp_bodySize pl) body (put_sequence sn rid w0)) (\<lambda>w1.
              let w2 = (if md = MessageSecurityModeSignAndEncrypt
                        then put_padding (cp_paddingHeaderSize pl) (cp_paddingSize pl) w1 else w1)
              in res_bind (if mode_signs md
                           then res_bind (stream_hash c (ch_symSignHMAC ch) w2) (write_signature w2)
                           else Ok w2) (\<lambda>w3.
                 res_bind (if md = MessageSecurityModeSignAndEncrypt
                           then encrypt_stream c (ch_symEncryptingBlockCipher ch) (ch_localInitializationVector ch) w3
                           else Ok (Writer_Bytes w3)) (\<lambda>out.
                 Ok (out, cp_bodySize pl)))))) ch))"

text \<open>
  The loop over the chunks, with a fuel: a chunk takes at least one byte of the body
  when the send buffer leaves room for one.
\<close>

fun server_send :: "('priv, 'pub) crypto \<Rightarrow> nat \<Rightarrow> u32 \<Rightarrow> int \<Rightarrow> int \<Rightarrow> bytes \<Rightarrow>
    (('priv, 'pub) ServerChannel, unit) act" where
  "server_send c fuel rid chunkCount bodyCount body ch =
     (if bodyCount \<le> 0 then (Ok (), ch)
      else case fuel of
        0 \<Rightarrow> (NoFuel, ch)
      | Suc f \<Rightarrow>
          (let mx = int (unat (ch_maxResponseChunkCount ch)) in
           if mx > 0 \<and> chunkCount + 1 > mx then (Err (Status BadResponseTooLarge), ch)
           else bnd (server_chunk c rid bodyCount body) (\<lambda>(out, n).
                  andthen (chan_write out)
                    (server_send c f rid (chunkCount + 1) (bodyCount - n) (drop (nat n) body))) ch))"

declare server_send.simps [simp del]

definition sendServiceResponse :: "('priv, 'pub) crypto \<Rightarrow> nat \<Rightarrow> u32 \<Rightarrow> bytes res \<Rightarrow>
    (('priv, 'pub) ServerChannel, unit) act" where
  "sendServiceResponse c fuel rid body = (\<lambda>ch. case body of
       Ok bs \<Rightarrow>
         (let i = int (unat (ch_maxResponseMessageSize ch)) in
          if i > 0 \<and> int (length bs) > i then (Err (Status BadResponseTooLarge), ch)
          else server_send c fuel rid 0 (int (length bs)) bs ch)
     | Err e \<Rightarrow> (Err e, ch) | Panic \<Rightarrow> (Panic, ch) | NoFuel \<Rightarrow> (NoFuel, ch))"

section \<open>The client's writer\<close>

text \<open>
  A token the writer has not used yet: the keys for signing and encrypting are derived
  from the nonces. The error of \<open>aes.NewCipher\<close> is dropped, the cipher is then nil.
\<close>

definition client_sending_token :: "('priv, 'pub) crypto \<Rightarrow> ('priv, 'pub) ClientChannel \<Rightarrow> ('priv, 'pub) ClientChannel" where
  "client_sending_token c ch =
     (if ch_tokenID ch = cc_sendingTokenID ch then ch
      else let ch1 = ch\<lparr>cc_sendingTokenID := ch_tokenID ch\<rparr>
           in if mode_signs (ch_securityMode ch)
              then let k = derive_keys c (ch_securityPolicy ch) (ch_securityPolicyURI ch) (ch_remoteNonce ch) (ch_localNonce ch)
                   in ch1\<lparr>ch_localInitializationVector := sk_iv k,
                          ch_symSignHMAC := SymHMACFactory (ch_securityPolicy ch) (sk_signing k),
                          ch_symEncryptingBlockCipher :=
                            (if ch_securityMode ch = MessageSecurityModeSignAndEncrypt then aes_NewCipher (sk_encrypting k)
                             else ch_symEncryptingBlockCipher ch)\<rparr>
              else ch1)"

text \<open>
  The encryption of the client: the span must be whole blocks of the cipher, which a nil
  cipher cannot say.
\<close>

definition client_encrypt :: "('priv, 'pub) crypto \<Rightarrow> bytes option \<Rightarrow> bytes \<Rightarrow> Writer \<Rightarrow> bytes res" where
  "client_encrypt c block iv w =
     (if length (Writer_Bytes w) < 16 \<or> block = None then Panic
      else if (length (Writer_Bytes w) - 16) mod aes_BlockSize \<noteq> 0 then Err (Status BadEncodingError)
      else encrypt_stream c block iv w)"

text \<open>
  The steps for one chunk of \<open>sendServiceRequest\<close>, with the message type \<open>mt\<close>;
  \<open>sendCloseSecureChannelRequest\<close> has the same.
\<close>

definition client_chunk :: "('priv, 'pub) crypto \<Rightarrow> u32 \<Rightarrow> u32 \<Rightarrow> int \<Rightarrow> bytes \<Rightarrow>
    (('priv, 'pub) ClientChannel, bytes \<times> int) act" where
  "client_chunk c mt handle bodyCount body = (\<lambda>ch0.
     (let md = ch_securityMode ch0;
          pl = plan_chunk md (ch_securityPolicy ch0) (ch_sendBufferSize ch0) bodyCount;
          w0 = put_header mt ch0 pl (NewWriter (replicate (cc_poolSize ch0) 0));
          ch = client_sending_token c ch0
      in bnd getNextSequenceNumber (\<lambda>sn. lift_res
           (res_bind (copy_body (cp_bodySize pl) body (put_sequence sn handle w0)) (\<lambda>w1.
              let w2 = (if md = MessageSecurityModeSignAndEncrypt
                        then put_padding (cp_paddingHeaderSize pl) (cp_paddingSize pl) w1 else w1)
              in res_bind (if mode_signs md
                           then res_bind (stream_hash c (ch_symSignHMAC ch) w2) (\<lambda>sg. Ok (put sg w2))
                           else Ok w2) (\<lambda>w3.
                 res_bind (if md = MessageSecurityModeSignAndEncrypt
                           then client_encrypt c (ch_symEncryptingBlockCipher ch) (ch_localInitializationVector ch) w3
                           else Ok (Writer_Bytes w3)) (\<lambda>out.
                 Ok (out, cp_bodySize pl)))))) ch))"

definition client_plan :: "('priv, 'pub) ClientChannel \<Rightarrow> int \<Rightarrow> chunk_plan" where
  "client_plan ch bodyCount = plan_chunk (ch_securityMode ch) (ch_securityPolicy ch) (ch_sendBufferSize ch) bodyCount"

fun client_send :: "('priv, 'pub) crypto \<Rightarrow> nat \<Rightarrow> u32 \<Rightarrow> int \<Rightarrow> int \<Rightarrow> bytes \<Rightarrow>
    (('priv, 'pub) ClientChannel, unit) act" where
  "client_send c fuel handle chunkCount bodyCount body ch =
     (if bodyCount \<le> 0 then (Ok (), ch)
      else case fuel of
        0 \<Rightarrow> (NoFuel, ch)
      | Suc f \<Rightarrow>
          (let mx = int (unat (ch_maxRequestChunkCount ch)) in
           if mx > 0 \<and> chunkCount + 1 > mx then (Err (Status BadRequestTooLarge), ch)
           else bnd (client_chunk c
                       (if bodyCount > cp_bodySize (client_plan ch bodyCount) then MessageTypeChunk else MessageTypeFinal)
                       handle bodyCount body) (\<lambda>(out, n).
                  andthen (chan_write out)
                    (client_send c f handle (chunkCount + 1) (bodyCount - n) (drop (nat n) body))) ch))"

declare client_send.simps [simp del]

definition sendServiceRequest :: "('priv, 'pub) crypto \<Rightarrow> nat \<Rightarrow> u32 \<Rightarrow> bytes res \<Rightarrow>
    (('priv, 'pub) ClientChannel, unit) act" where
  "sendServiceRequest c fuel handle body = (\<lambda>ch. case body of
       Ok bs \<Rightarrow>
         (let i = int (unat (ch_maxRequestMessageSize ch)) in
          if i > 0 \<and> int (length bs) > i then (Err (Status BadRequestTooLarge), ch)
          else client_send c fuel handle 0 (int (length bs)) bs ch)
     | Err e \<Rightarrow> (Err e, ch) | Panic \<Rightarrow> (Panic, ch) | NoFuel \<Rightarrow> (NoFuel, ch))"

text \<open>
  The close request must fit one chunk: a second round of its loop is never reached with
  a body left.
\<close>

definition sendCloseSecureChannelRequest :: "('priv, 'pub) crypto \<Rightarrow> u32 \<Rightarrow> bytes res \<Rightarrow>
    (('priv, 'pub) ClientChannel, unit) act" where
  "sendCloseSecureChannelRequest c handle body = (\<lambda>ch. case body of
       Ok bs \<Rightarrow>
         (let i = int (unat (ch_maxRequestMessageSize ch)); n = int (length bs) in
          if i > 0 \<and> n > i then (Err (Status BadRequestTooLarge), ch)
          else if n \<le> 0 then (Ok (), ch)
          else if n > cp_bodySize (client_plan ch n) then (Err (Status BadEncodingError), ch)
          else bnd (client_chunk c MessageTypeCloseFinal handle n bs) (\<lambda>(out, _). chan_write out) ch)
     | Err e \<Rightarrow> (Err e, ch) | Panic \<Rightarrow> (Panic, ch) | NoFuel \<Rightarrow> (NoFuel, ch))"

section \<open>Reading a symmetric chunk\<close>

text \<open>
  The steps both readers have. \<open>buf\<close> is the part of the receive buffer the chunk fills;
  slices of it that do not exist panic.
\<close>

definition sym_decrypt :: "('priv, 'pub) crypto \<Rightarrow> ('priv, 'pub, 'z) Channel_scheme \<Rightarrow> bytes \<Rightarrow> bytes res" where
  "sym_decrypt c ch buf =
     (if ch_securityMode ch = MessageSecurityModeSignAndEncrypt
      then if ch_symDecryptingBlockCipher ch = None then Panic
           else if (length buf - 16) mod aes_BlockSize \<noteq> 0 then Err (Status BadDecodingError)
           else res_bind (CBC_decrypt c (ch_symDecryptingBlockCipher ch) (ch_remoteInitializationVector ch) (drop 16 buf))
                  (\<lambda>x. Ok (take 16 buf @ x))
      else Ok buf)"

definition sym_verify :: "('priv, 'pub) crypto \<Rightarrow> ('priv, 'pub, 'z) Channel_scheme \<Rightarrow> bytes \<Rightarrow> unit res" where
  "sym_verify c ch buf =
     (if mode_signs (ch_securityMode ch)
      then case ch_symVerifyHMAC ch of
             None \<Rightarrow> Panic
           | Some h \<Rightarrow>
               (let sigStart = int (length buf) - int (SymSignatureSize (ch_securityPolicy ch)) in
                if sigStart < 0 then Panic
                else if hash_sum c h (take (nat sigStart) buf) = drop (nat sigStart) buf then Ok ()
                else Err (Status BadSecurityChecksFailed))
      else Ok ())"

definition sym_body :: "('priv, 'pub, 'z) Channel_scheme \<Rightarrow> bytes \<Rightarrow> bytes res" where
  "sym_body ch buf =
     (let len = int (length buf);
          sigSize = int (SymSignatureSize (ch_securityPolicy ch));
          slice = (\<lambda>bodySize. if bodySize < 0 then Panic else Ok (take (nat bodySize) (drop 24 buf)))
      in if ch_securityMode ch = MessageSecurityModeSignAndEncrypt
         then let ph = (if SymEncryptionBlockSize (ch_securityPolicy ch) > 256 then 2 else 1 :: nat);
                  start = len - sigSize - int ph
              in if start < 0 then Panic
                 else let pad = unat (le_word (take ph (drop (nat start) buf)) :: u16)
                      in slice (len - 16 - 8 - int pad - int ph - sigSize)
         else slice (len - 16 - 8 - sigSize))"

text \<open>
  The two words of the sequence header: the second is the request id. Then, from the
  decrypted chunk: verify, read the sequence header, cut out the body.
\<close>

definition read_sequence :: "bytes \<Rightarrow> u32 res" where
  "read_sequence s = fst (bnd (dec_try ReadUInt32) (\<lambda>_. dec_try ReadUInt32) s)"

definition read_symmetric :: "('priv, 'pub) crypto \<Rightarrow> ('priv, 'pub, 'z) Channel_scheme \<Rightarrow> bytes \<Rightarrow> (bytes \<times> u32) res" where
  "read_symmetric c ch buf =
     res_bind (sym_verify c ch buf) (\<lambda>_.
     res_bind (read_sequence (drop 16 buf)) (\<lambda>rid.
     res_bind (sym_body ch buf) (\<lambda>x. Ok (x, rid))))"

text \<open>Decryption is in place: the receive buffer holds the plain text afterwards.\<close>

definition decrypt_in_place :: "('priv, 'pub) crypto \<Rightarrow> bytes \<Rightarrow> (('priv, 'pub, 'z) Channel_scheme, bytes) act" where
  "decrypt_in_place c buf = (\<lambda>ch. case sym_decrypt c ch buf of
       Ok b \<Rightarrow> (Ok b, ch\<lparr>ch_receiveBuffer := b @ drop (length b) (ch_receiveBuffer ch)\<rparr>)
     | Err e \<Rightarrow> (Err e, ch) | Panic \<Rightarrow> (Panic, ch) | NoFuel \<Rightarrow> (NoFuel, ch))"

section \<open>The server's tokens\<close>

text \<open>
  The first chunk under the pending token makes it the token of the channel. The keys
  for verifying and decrypting are derived first, then those for signing and encrypting;
  a key \<open>aes.NewCipher\<close> rejects fails the request with the state changed so far.
\<close>

definition install_remote_keys :: "('priv, 'pub) crypto \<Rightarrow> (('priv, 'pub) ServerChannel, unit) act" where
  "install_remote_keys c = (\<lambda>ch.
     (let k = derive_keys c (ch_securityPolicy ch) (ch_securityPolicyURI ch) (ch_localNonce ch) (ch_remoteNonce ch);
          ch1 = ch\<lparr>ch_remoteInitializationVector := sk_iv k,
                   ch_symVerifyHMAC := SymHMACFactory (ch_securityPolicy ch) (sk_signing k)\<rparr>
      in if ch_securityMode ch = MessageSecurityModeSignAndEncrypt
         then case aes_NewCipher (sk_encrypting k) of
                Some b \<Rightarrow> (Ok (), ch1\<lparr>ch_symDecryptingBlockCipher := Some b\<rparr>)
              | None \<Rightarrow> (Err (Status BadDecodingError), ch1)
         else (Ok (), ch1)))"

definition install_local_keys :: "('priv, 'pub) crypto \<Rightarrow> (('priv, 'pub) ServerChannel, unit) act" where
  "install_local_keys c = (\<lambda>ch.
     (let k = derive_keys c (ch_securityPolicy ch) (ch_securityPolicyURI ch) (ch_remoteNonce ch) (ch_localNonce ch);
          ch1 = ch\<lparr>ch_localInitializationVector := sk_iv k,
                   ch_symSignHMAC := SymHMACFactory (ch_securityPolicy ch) (sk_signing k)\<rparr>
      in if ch_securityMode ch = MessageSecurityModeSignAndEncrypt
         then case aes_NewCipher (sk_encrypting k) of
                Some b \<Rightarrow> (Ok (), ch1\<lparr>ch_symEncryptingBlockCipher := Some b\<rparr>)
              | None \<Rightarrow> (Err (Status BadDecodingError), ch1)
         else (Ok (), ch1)))"

definition server_switch_token :: "('priv, 'pub) crypto \<Rightarrow> u32 \<Rightarrow> (('priv, 'pub) ServerChannel, unit) act" where
  "server_switch_token c newTokenID = (\<lambda>ch.
     if ch_tokenID ch = newTokenID then (Ok (), ch)
     else if newTokenID \<noteq> sc_pendingTokenID ch then (Err (Status BadSecureChannelTokenUnknown), ch)
     else let ch1 = ch\<lparr>ch_tokenID := sc_pendingTokenID ch, sc_tokenExpiration := sc_pendingTokenExpiration ch\<rparr>
          in if mode_signs (ch_securityMode ch)
             then andthen (install_remote_keys c) (install_local_keys c) ch1
             else (Ok (), ch1))"

text \<open>The client takes the token of the chunk as it comes.\<close>

definition client_receiving_token :: "('priv, 'pub) crypto \<Rightarrow> u32 \<Rightarrow> ('priv, 'pub) ClientChannel \<Rightarrow> ('priv, 'pub) ClientChannel" where
  "client_receiving_token c tok ch =
     (if tok = cc_receivingTokenID ch then ch
      else let ch1 = ch\<lparr>cc_receivingTokenID := tok\<rparr>
           in if mode_signs (ch_securityMode ch)
              then let k = derive_keys c (ch_securityPolicy ch) (ch_securityPolicyURI ch) (ch_localNonce ch) (ch_remoteNonce ch)
                   in ch1\<lparr>ch_remoteInitializationVector := sk_iv k,
                          ch_symVerifyHMAC := SymHMACFactory (ch_securityPolicy ch) (sk_signing k),
                          ch_symDecryptingBlockCipher :=
                            (if ch_securityMode ch = MessageSecurityModeSignAndEncrypt then aes_NewCipher (sk_encrypting k)
                             else ch_symDecryptingBlockCipher ch)\<rparr>
              else ch1)"

end
