(* ===== verification/Channel_Open.thy ===== *)
theory Channel_Open
  imports Secure_Channel
begin

text \<open>
  Opening a secure channel: the negotiation of buffer sizes and limits (Hello and
  Acknowledge), the asymmetric messages with their RSA signature and encryption, the
  issue and renewal of security tokens, and the loops that read a whole request or
  response from its chunks (\<open>readRequest\<close>, \<open>readResponse\<close>).
\<close>

section \<open>Writing the asymmetric message\<close>

definition enc_put :: "(Writer io_writer, unit) act \<Rightarrow> Writer \<Rightarrow> Writer" where
  "enc_put m w = (case m (BytesWriter w) of (_, BytesWriter w') \<Rightarrow> w' | _ \<Rightarrow> w)"

record asym_plan =
  ap_plainHeaderSize :: int
  ap_signatureSize :: int
  ap_paddingHeaderSize :: int
  ap_bodySize :: int
  ap_paddingSize :: int
  ap_chunkSize :: int
  ap_plainTextBlockSize :: int
  ap_cipherTextBlockSize :: int

text \<open>
  \<open>privSize\<close> and \<open>pubSize\<close> are the sizes of the own private and the remote public key;
  \<open>None\<close> is a division by zero.
\<close>

definition plan_open :: "u32 \<Rightarrow> SecurityPolicy \<Rightarrow> string \<Rightarrow> bytes option \<Rightarrow> nat \<Rightarrow> nat \<Rightarrow> u32 \<Rightarrow> int \<Rightarrow> asym_plan option" where
  "plan_open md p uri localCertificate privSize pubSize sendBufferSize bodyCount =
     (let buf = int (unat sendBufferSize) in
      if mode_signs md
      then let hdr = 16 + int (length uri) + 28 + int (length (case localCertificate of None \<Rightarrow> [] | Some x \<Rightarrow> x));
               sig = int privSize;
               ct = int pubSize;
               pt = ct - int (RSAPaddingSize p);
               ph = (if ct > 256 then 2 else 1);
               mx = ((buf - hdr) sdiv ct) * pt - 8 - ph - sig;
               body = (if bodyCount < mx then bodyCount else mx);
               pad = (if bodyCount < mx then (pt - ((8 + bodyCount + ph + sig) smod pt)) smod pt else 0)
           in if ct = 0 \<or> pt = 0 then None
              else Some \<lparr>ap_plainHeaderSize = hdr, ap_signatureSize = sig, ap_paddingHeaderSize = ph, ap_bodySize = body,
                 ap_paddingSize = pad, ap_chunkSize = hdr + ((8 + body + pad + ph + sig) sdiv pt) * ct,
                 ap_plainTextBlockSize = pt, ap_cipherTextBlockSize = ct\<rparr>
      else let hdr = 16 + int (length uri) + 8;
               mx = buf - hdr - 8;
               body = (if bodyCount < mx then bodyCount else mx)
           in Some \<lparr>ap_plainHeaderSize = hdr, ap_signatureSize = 0, ap_paddingHeaderSize = 0, ap_bodySize = body,
                 ap_paddingSize = 0, ap_chunkSize = hdr + 8 + body,
                 ap_plainTextBlockSize = 1, ap_cipherTextBlockSize = 1\<rparr>)"

text \<open>
  The loop that encrypts the stream block by block into the encryption buffer. The block
  buffer keeps its old bytes where the stream ends early. \<open>rnd\<close> gives the random bytes
  each encryption draws.
\<close>

function rsa_encrypt_loop :: "('priv, 'pub) crypto \<Rightarrow> SecurityPolicy \<Rightarrow> (nat \<Rightarrow> bytes) \<Rightarrow> 'pub \<Rightarrow> nat \<Rightarrow> nat
    \<Rightarrow> bytes \<Rightarrow> bytes \<Rightarrow> nat \<Rightarrow> nat \<Rightarrow> bytes \<Rightarrow> (nat \<times> bytes) res" where
  "rsa_encrypt_loop c p rnd pub pt ct src blk ii jj enc =
     (if length src \<le> ii then Ok (jj, enc)
      else if pt = 0 then NoFuel
      else let s = drop ii src; n = min pt (length s); blk' = take n s @ drop n blk
           in case RSAEncrypt c p (rnd ii) pub blk' of
                Ok cipher \<Rightarrow>
                  if length cipher \<noteq> ct then Err (Status BadEncodingError)
                  else if length enc < jj then Panic
                  else rsa_encrypt_loop c p rnd pub pt ct src blk' (ii + pt) (jj + ct) (fst (copy_at enc jj cipher))
              | Err e \<Rightarrow> Err e | Panic \<Rightarrow> Panic | NoFuel \<Rightarrow> NoFuel)"
  by pat_completeness auto
termination
  by (relation "measure (\<lambda>(_, _, _, _, _, _, src, _, ii, _, _). length src - ii)") auto

declare rsa_encrypt_loop.simps [simp del]

text \<open>
  The chunk of an open message. \<open>bufSize\<close> and \<open>encSize\<close> are the sizes of the buffers for
  the stream and the encrypted chunk, \<open>thumb\<close> the thumbprint of the remote certificate,
  \<open>rid\<close> the request id. After one chunk nothing of the body may be left.
\<close>

definition open_chunk :: "('priv, 'pub) crypto \<Rightarrow> (nat \<Rightarrow> bytes) \<Rightarrow> nat \<Rightarrow> nat \<Rightarrow> bytes \<Rightarrow> u32 \<Rightarrow> bytes \<Rightarrow>
    (('priv, 'pub, 'z) Channel_scheme, bytes) act" where
  "open_chunk c rnd bufSize encSize thumb rid body = (\<lambda>ch.
     (let md = ch_securityMode ch; p = ch_securityPolicy ch; uri = ch_securityPolicyURI ch in
      case (if mode_signs md
            then (case (ch_localPrivateKey ch, ch_remotePublicKey ch) of
                (Some priv, Some pub) \<Rightarrow>
                  plan_open md p uri (ch_localCertificate ch) (cr_priv_Size c priv) (cr_pub_Size c pub)
                    (ch_sendBufferSize ch) (int (length body))
              | _ \<Rightarrow> None)
            else plan_open md p uri (ch_localCertificate ch) 0 0 (ch_sendBufferSize ch) (int (length body))) of
        None \<Rightarrow> (Panic, ch)
      | Some pl \<Rightarrow>
          (let w0 = put (le_bytes 4 (ch_channelID ch)) (put (le_bytes 4 (word_of_int (ap_chunkSize pl) :: u32))
                      (put (le_bytes 4 MessageTypeOpenFinal) (NewWriter (replicate bufSize 0))));
               w1 = enc_put (WriteString writer_ops uri) w0;
               w2 = (if mode_signs md
                     then enc_put (WriteByteArray writer_ops (Some thumb))
                            (enc_put (WriteByteArray writer_ops (ch_localCertificate ch)) w1)
                     else enc_put (WriteByteArray writer_ops None) (enc_put (WriteByteArray writer_ops None) w1))
           in if ap_plainHeaderSize pl \<noteq> int (Writer_Len w2) then (Err (Status BadEncodingError), ch)
              else bnd getNextSequenceNumber (\<lambda>sn. lift_res
                (res_bind (copy_body (ap_bodySize pl) body (put_sequence sn rid w2)) (\<lambda>w3.
                   let w4 = (if mode_signs md then put_padding (ap_paddingHeaderSize pl) (ap_paddingSize pl) w3 else w3)
                   in if int (length body) - ap_bodySize pl > 0 then Err (Status BadEncodingError)
                      else if mode_signs md
                      then (case (ch_localPrivateKey ch, ch_remotePublicKey ch) of
                          (Some priv, Some pub) \<Rightarrow>
                            res_bind (RSASign c p (rnd 0) priv (Writer_Bytes w4)) (\<lambda>sg.
                            if int (length sg) \<noteq> ap_signatureSize pl then Err (Status BadEncodingError)
                            else res_bind (write_signature w4 sg) (\<lambda>w5.
                              let hdr = nat (ap_plainHeaderSize pl); src = Writer_Bytes w5;
                                  enc0 = fst (copy_at (replicate encSize 0) 0 (take hdr src));
                                  pt = nat (ap_plainTextBlockSize pl); ct = nat (ap_cipherTextBlockSize pl)
                              in res_bind (rsa_encrypt_loop c p (\<lambda>i. rnd (Suc i)) pub pt ct src (replicate pt 0) hdr hdr enc0)
                                   (\<lambda>(jj, enc).
                                     if int jj \<noteq> ap_chunkSize pl then Err (Status BadEncodingError)
                                     else if length enc < jj then Panic
                                     else Ok (take jj enc))))
                        | _ \<Rightarrow> Panic)
                      else if int (Writer_Len w4) \<noteq> ap_chunkSize pl then Err (Status BadEncodingError)
                           else Ok (Writer_Bytes w4)))) ch)))"

definition sendOpenSecureChannelResponse :: "('priv, 'pub) crypto \<Rightarrow> (nat \<Rightarrow> bytes) \<Rightarrow> u32 \<Rightarrow> bytes res \<Rightarrow>
    (('priv, 'pub) ServerChannel, unit) act" where
  "sendOpenSecureChannelResponse c rnd rid body = (\<lambda>ch. case body of
       Ok bs \<Rightarrow>
         (let i = int (unat (ch_maxResponseMessageSize ch));
              thumb = cr_sha1 c (case ch_remoteCertificate ch of None \<Rightarrow> [] | Some x \<Rightarrow> x);
              sz = unat (ch_sendBufferSize ch)
          in if i > 0 \<and> int (length bs) > i then (Err (Status BadResponseTooLarge), ch)
             else if bs = [] then (Ok (), ch)
             else bnd (open_chunk c rnd sz sz thumb rid bs) chan_write ch)
     | Err e \<Rightarrow> (Err e, ch) | Panic \<Rightarrow> (Panic, ch) | NoFuel \<Rightarrow> (NoFuel, ch))"

definition sendOpenSecureChannelRequest :: "('priv, 'pub) crypto \<Rightarrow> (nat \<Rightarrow> bytes) \<Rightarrow> u32 \<Rightarrow> bytes res \<Rightarrow>
    (('priv, 'pub) ClientChannel, unit) act" where
  "sendOpenSecureChannelRequest c rnd handle body = (\<lambda>ch. case body of
       Ok bs \<Rightarrow>
         (let i = int (unat (ch_maxRequestMessageSize ch)) in
          if i > 0 \<and> int (length bs) > i then (Err (Status BadRequestTooLarge), ch)
          else if bs = [] then (Ok (), ch)
          else bnd (open_chunk c rnd (cc_poolSize ch) (cc_poolSize ch) (cc_remoteThumbprint ch) handle bs) chan_write ch)
     | Err e \<Rightarrow> (Err e, ch) | Panic \<Rightarrow> (Panic, ch) | NoFuel \<Rightarrow> (NoFuel, ch))"

section \<open>Reading the asymmetric message\<close>

text \<open>
  The loop that decrypts the receive buffer \<open>rb\<close> in place, block by block: the block
  buffer is filled from the whole receive buffer, also past the end of the message.
\<close>

function rsa_decrypt_loop :: "('priv, 'pub) crypto \<Rightarrow> SecurityPolicy \<Rightarrow> 'priv \<Rightarrow> nat
    \<Rightarrow> nat \<Rightarrow> bytes \<Rightarrow> nat \<Rightarrow> nat \<Rightarrow> bytes \<Rightarrow> (nat \<times> bytes) res" where
  "rsa_decrypt_loop c p priv ct len blk ii jj rb =
     (if len \<le> ii then Ok (jj, rb)
      else if ct = 0 then NoFuel
      else let s = drop ii rb; n = min ct (length s); blk' = take n s @ drop n blk
           in case RSADecrypt c p priv blk' of
                Ok plain \<Rightarrow>
                  (case copy_at rb jj plain of (rb', k) \<Rightarrow>
                    rsa_decrypt_loop c p priv ct len blk' (ii + ct) (jj + k) rb')
              | Err e \<Rightarrow> Err e | Panic \<Rightarrow> Panic | NoFuel \<Rightarrow> NoFuel)"
  by pat_completeness auto
termination
  by (relation "measure (\<lambda>(_, _, _, _, len, _, ii, _, _). len - ii)") auto

declare rsa_decrypt_loop.simps [simp del]

text \<open>
  The padding of a decrypted message of length \<open>len\<close> and the body before it. \<open>ct\<close> is the
  cipher text block size, \<open>sig\<close> the signature size.
\<close>

definition asym_body :: "nat \<Rightarrow> nat \<Rightarrow> nat \<Rightarrow> nat \<Rightarrow> bytes \<Rightarrow> bytes res" where
  "asym_body ct sig hdr len rb =
     (let ph = (if ct > 256 then 2 else 1 :: nat);
          start = int len - int sig - int ph
      in if start < 0 then Panic
         else let pad = unat (le_word (take ph (drop (nat start) rb)) :: u16);
                  bodySize = int len - int hdr - 8 - int pad - int ph - int sig
              in if bodySize < 0 then Panic else Ok (take (nat bodySize) (drop (hdr + 8) rb)))"

text \<open>
  After the asymmetric header of length \<open>hdr\<close>, with the policy of the URI chosen: the
  certificate's key is taken, the blocks are decrypted and the signature verified. A
  certificate whose key is not RSA fails a type assertion, which panics. \<open>count\<close> is the
  length of the chunk.
\<close>

definition server_open_secured :: "('priv, 'pub) crypto \<Rightarrow> nat \<Rightarrow> nat \<Rightarrow>
    (('priv, 'pub) ServerChannel, bytes \<times> u32) act" where
  "server_open_secured c hdr count = (\<lambda>ch.
     (case (ch_localCertificate ch, ch_localPrivateKey ch, ch_remoteCertificate ch) of
        (Some _, Some priv, Some rc) \<Rightarrow>
          (let (bad, pub) = (case cr_ParseCertificates c rc of
                 Ok (RSAKey k # _) \<Rightarrow> (False, Some k)
               | Ok (OtherKey # _) \<Rightarrow> (True, None)
               | _ \<Rightarrow> (False, ch_remotePublicKey ch));
               ch1 = ch\<lparr>ch_remotePublicKey := pub\<rparr>
           in if bad then (Panic, ch)
              else case pub of
                None \<Rightarrow> (Err (Status BadSecurityChecksFailed), ch1)
              | Some k \<Rightarrow>
                  (let p = ch_securityPolicy ch; ct = cr_priv_Size c priv in
                   case rsa_decrypt_loop c p priv ct count (replicate ct 0) hdr hdr (ch_receiveBuffer ch) of
                     Ok (len, rb) \<Rightarrow>
                       (let ch2 = ch1\<lparr>ch_receiveBuffer := rb\<rparr>;
                            sigStart = int len - int (cr_pub_Size c k)
                        in lift_res
                          (if sigStart < 0 then Panic
                           else case RSAVerify c p k (take (nat sigStart) rb) (drop (nat sigStart) (take len rb)) of
                             Ok _ \<Rightarrow>
                               res_bind (read_sequence (drop hdr (take count rb))) (\<lambda>rid.
                               res_bind (asym_body ct (cr_pub_Size c k) hdr len rb) (\<lambda>body. Ok (body, rid)))
                           | Panic \<Rightarrow> Panic | NoFuel \<Rightarrow> NoFuel
                           | Err _ \<Rightarrow> Err (Status BadDecodingError)) ch2)
                   | Err e \<Rightarrow> (Err e, ch1) | Panic \<Rightarrow> (Panic, ch1) | NoFuel \<Rightarrow> (NoFuel, ch1)))
      | _ \<Rightarrow> (Err (Status BadSecurityChecksFailed), ch)))"

definition server_open_plain :: "nat \<Rightarrow> nat \<Rightarrow> (('priv, 'pub) ServerChannel, bytes \<times> u32) act" where
  "server_open_plain hdr count = (\<lambda>ch.
     (let buf = take count (ch_receiveBuffer ch);
          bodySize = int count - int hdr - 8
      in lift_res (res_bind (read_sequence (drop hdr buf)) (\<lambda>rid.
           if bodySize < 0 then Panic else Ok (drop (hdr + 8) buf, rid))) ch))"

text \<open>
  The case \<open>MessageTypeOpenFinal\<close>. The fields of the header go into the channel as they
  are read.
\<close>

definition server_open :: "('priv, 'pub) crypto \<Rightarrow> nat \<Rightarrow> (('priv, 'pub) ServerChannel, bytes \<times> u32) act" where
  "server_open c count = (\<lambda>ch.
     (case dec_try ReadUInt32 (drop 8 (take count (ch_receiveBuffer ch))) of
        (Ok _, s1) \<Rightarrow>
          (case dec_try ReadString s1 of
             (Ok uri, s2) \<Rightarrow>
               (let ch1 = ch\<lparr>ch_securityPolicyURI := uri\<rparr> in
                case dec_try ReadByteArray s2 of
                  (Ok cert, s3) \<Rightarrow>
                    (let ch2 = ch1\<lparr>ch_remoteCertificate := cert\<rparr> in
                     case dec_try ReadByteArray s3 of
                       (Ok th, s4) \<Rightarrow>
                         (let ch3 = ch2\<lparr>sc_remoteCertificateThumbprint := th\<rparr>;
                              hdr = count - length s4
                          in case setSecurityPolicy uri of
                               None \<Rightarrow> (Err (Status BadSecurityPolicyRejected), ch3)
                             | Some p \<Rightarrow>
                                 (if uri = SecurityPolicyURINone then server_open_plain hdr count
                                  else server_open_secured c hdr count) (ch3\<lparr>ch_securityPolicy := p\<rparr>))
                     | _ \<Rightarrow> (Err (Status BadDecodingError), ch2))
                | _ \<Rightarrow> (Err (Status BadDecodingError), ch1))
           | _ \<Rightarrow> (Err (Status BadDecodingError), ch))
      | _ \<Rightarrow> (Err (Status BadDecodingError), ch)))"

section \<open>Reading whole messages\<close>

definition with_stream :: "bytes \<Rightarrow> (bytes, 'a) act \<Rightarrow> ('s, 'a \<times> bytes) act" where
  "with_stream s m = (\<lambda>ch. case m s of
       (Ok x, s') \<Rightarrow> (Ok (x, s'), ch)
     | (Err e, _) \<Rightarrow> (Err e, ch) | (Panic, _) \<Rightarrow> (Panic, ch) | (NoFuel, _) \<Rightarrow> (NoFuel, ch))"

text \<open>A message of type \<open>ERR\<close> or \<open>MSGA\<close> carries a status and a reason.\<close>

definition read_error :: "bytes \<Rightarrow> ('s, 'a) act" where
  "read_error s = bnd (with_stream s (dec_try ReadUInt32)) (\<lambda>(code, s1).
     bnd (with_stream s1 (dec_try ReadString)) (\<lambda>_. throw (Status code)))"

text \<open>
  One round of the loop of \<open>readRequest\<close>: the part of the body in the chunk, the request
  id, and whether the chunk is the last.
\<close>

definition server_read_chunk :: "('priv, 'pub) crypto \<Rightarrow> (('priv, 'pub) ServerChannel, bytes \<times> u32 \<times> bool) act" where
  "server_read_chunk c =
     bnd (orfail (Status BadSecureChannelClosed) ch_read) (\<lambda>buf.
     if buf = [] then throw (Status BadSecureChannelClosed)
     else bnd (with_stream buf ReadUInt32) (\<lambda>(messageType, s1).
     bnd (with_stream s1 ReadUInt32) (\<lambda>(messageLength, s2).
     if length buf \<noteq> unat messageLength then throw (Status BadDecodingError)
     else if messageType \<in> {MessageTypeChunk, MessageTypeFinal, MessageTypeCloseFinal} then
       bnd (with_stream s2 (dec_try ReadUInt32)) (\<lambda>(channelID, s3).
       bnd (\<lambda>ch. (Ok (ch_channelID ch), ch)) (\<lambda>own.
       if channelID \<noteq> own then throw (Status BadTCPSecureChannelUnknown)
       else bnd (with_stream s3 (dec_try ReadUInt32)) (\<lambda>(newTokenID, _).
       andthen (server_switch_token c newTokenID)
         (bnd (decrypt_in_place c buf) (\<lambda>b.
          bnd (\<lambda>ch. (read_symmetric c ch b, ch)) (\<lambda>(part, rid).
            ret (part, rid, messageType \<noteq> MessageTypeChunk)))))))
     else if messageType = MessageTypeOpenFinal then
       bnd (server_open c (length buf)) (\<lambda>(part, rid). ret (part, rid, True))
     else if messageType \<in> {MessageTypeError, MessageTypeAbort} then read_error s2
     else throw (Status BadUnknownResponse))))"

text \<open>
  \<open>readRequest\<close> up to the decoding of the body, with the body so far. The chunk counter
  and its limit are \<open>int32\<close>.
\<close>

fun server_read_loop :: "('priv, 'pub) crypto \<Rightarrow> nat \<Rightarrow> u32 \<Rightarrow> bytes \<Rightarrow> (('priv, 'pub) ServerChannel, bytes \<times> u32) act" where
  "server_read_loop c 0 chunkCount body = nofuel"
| "server_read_loop c (Suc f) chunkCount body = (\<lambda>ch.
     (let n = chunkCount + 1; i = sint (ch_maxRequestChunkCount ch) in
      if i > 0 \<and> sint n > i then (Err (Status BadRequestTooLarge), ch)
      else bnd (server_read_chunk c) (\<lambda>(part, rid, isFinal) ch'.
        let body' = body @ part; m = int (unat (ch_maxRequestMessageSize ch')) in
        if m > 0 \<and> int (length body') > m then (Err (Status BadRequestTooLarge), ch')
        else if isFinal then (Ok (body', rid), ch')
        else server_read_loop c f n body' ch') ch))"

definition readRequest :: "('priv, 'pub) crypto \<Rightarrow> registry \<Rightarrow> string list \<Rightarrow> nat \<Rightarrow> nat \<Rightarrow>
    (('priv, 'pub) ServerChannel, (ServiceRequest \<times> goval) \<times> u32) act" where
  "readRequest c reg uris fuel dfuel =
     bnd (server_read_loop c fuel 0 []) (\<lambda>(body, rid).
       lift_res (res_bind (decode_request reg uris dfuel body) (\<lambda>r. Ok (r, rid))))"

text \<open>The client's case \<open>MessageTypeOpenFinal\<close>; the fields of the header are dropped.\<close>

definition client_open :: "('priv, 'pub) crypto \<Rightarrow> bytes \<Rightarrow> (('priv, 'pub) ClientChannel, bytes) act" where
  "client_open c buf =
     bnd (with_stream (drop 8 buf) (dec_try ReadUInt32)) (\<lambda>(_, s1).
     bnd (with_stream s1 (dec_try ReadString)) (\<lambda>(_, s2).
     bnd (with_stream s2 (dec_try ReadByteString)) (\<lambda>(_, s3).
     bnd (with_stream s3 (dec_try ReadByteString)) (\<lambda>(_, s4).
     let hdr = length buf - length s4 in (\<lambda>ch.
       if mode_signs (ch_securityMode ch)
       then (case (ch_localPrivateKey ch, ch_remotePublicKey ch) of
           (Some priv, Some k) \<Rightarrow>
             (let p = ch_securityPolicy ch; ct = cr_priv_Size c priv in
              case rsa_decrypt_loop c p priv ct (length buf) (replicate ct 0) hdr hdr (ch_receiveBuffer ch) of
                Ok (len, rb) \<Rightarrow>
                  (let ch2 = ch\<lparr>ch_receiveBuffer := rb\<rparr>;
                       sigStart = int len - int (cr_pub_Size c k)
                   in lift_res
                     (if sigStart < 0 then Panic
                      else case RSAVerify c p k (take (nat sigStart) rb) (drop (nat sigStart) (take len rb)) of
                        Ok _ \<Rightarrow>
                          res_bind (read_sequence (drop hdr (take (length buf) rb))) (\<lambda>_.
                          asym_body ct (cr_pub_Size c k) hdr len rb)
                      | Panic \<Rightarrow> Panic | NoFuel \<Rightarrow> NoFuel
                      | Err _ \<Rightarrow> Err (Status BadDecodingError)) ch2)
              | Err e \<Rightarrow> (Err (Status BadDecodingError), ch) | Panic \<Rightarrow> (Panic, ch) | NoFuel \<Rightarrow> (NoFuel, ch))
         | _ \<Rightarrow> (Panic, ch))
       else lift_res (res_bind (read_sequence s4) (\<lambda>_.
         if length buf < hdr + 8 then Panic else Ok (drop (hdr + 8) buf))) ch)))))"

definition client_read_chunk :: "('priv, 'pub) crypto \<Rightarrow> (('priv, 'pub) ClientChannel, bytes \<times> bool) act" where
  "client_read_chunk c =
     bnd (orfail (Status BadSecureChannelClosed) ch_read) (\<lambda>buf.
     if buf = [] then throw (Status BadSecureChannelClosed)
     else bnd (with_stream buf (dec_try ReadUInt32)) (\<lambda>(messageType, s1).
     bnd (with_stream s1 (dec_try ReadUInt32)) (\<lambda>(messageLength, s2).
     if length buf \<noteq> unat messageLength then throw (Status BadDecodingError)
     else if messageType \<in> {MessageTypeChunk, MessageTypeFinal} then
       bnd (with_stream s2 (dec_try ReadUInt32)) (\<lambda>(channelID, s3).
       bnd (\<lambda>ch. (Ok (ch_channelID ch), ch)) (\<lambda>own.
       if channelID \<noteq> own then throw (Status BadTCPSecureChannelUnknown)
       else bnd (with_stream s3 (dec_try ReadUInt32)) (\<lambda>(tokenID, _).
       andthen (\<lambda>ch. (Ok (), client_receiving_token c tokenID ch))
         (bnd (decrypt_in_place c buf) (\<lambda>b.
          bnd (\<lambda>ch. (read_symmetric c ch b, ch)) (\<lambda>(part, _).
            ret (part, messageType = MessageTypeFinal)))))))
     else if messageType = MessageTypeOpenFinal then
       bnd (client_open c buf) (\<lambda>part. ret (part, True))
     else if messageType \<in> {MessageTypeError, MessageTypeAbort} then read_error s2
     else throw (Status BadUnknownResponse))))"

fun client_read_loop :: "('priv, 'pub) crypto \<Rightarrow> nat \<Rightarrow> int \<Rightarrow> bytes \<Rightarrow> (('priv, 'pub) ClientChannel, bytes) act" where
  "client_read_loop c 0 chunkCount body = nofuel"
| "client_read_loop c (Suc f) chunkCount body = (\<lambda>ch.
     (let n = chunkCount + 1; i = int (unat (ch_maxResponseChunkCount ch)) in
      if i > 0 \<and> n > i then (Err (Status BadResponseTooLarge), ch)
      else bnd (client_read_chunk c) (\<lambda>(part, isFinal) ch'.
        let body' = body @ part; m = int (unat (ch_maxResponseMessageSize ch')) in
        if m > 0 \<and> int (length body') > m then (Err (Status BadResponseTooLarge), ch')
        else if isFinal then (Ok body', ch')
        else client_read_loop c f n body' ch') ch))"

text \<open>\<open>readResponse\<close>: \<open>Err (Status s)\<close> is the pair of no response and the status \<open>s\<close>.\<close>

definition readResponse :: "('priv, 'pub) crypto \<Rightarrow> registry \<Rightarrow> string list \<Rightarrow> nat \<Rightarrow> nat \<Rightarrow>
    (('priv, 'pub) ClientChannel, ServiceResponse \<times> goval) act" where
  "readResponse c reg uris fuel dfuel =
     bnd (client_read_loop c fuel 0 []) (\<lambda>body. lift_res (decode_response reg uris dfuel body))"

section \<open>Hello and Acknowledge\<close>

definition protocolVersion :: u32 where "protocolVersion = 0"

definition put_u32s :: "u32 list \<Rightarrow> Writer \<Rightarrow> Writer" where
  "put_u32s vs w = fold (\<lambda>v. put (le_bytes 4 v)) vs w"

text \<open>
  The start of the server's \<open>Open\<close>. \<open>pool\<close> is the pooled buffer the message is read into;
  the decoder reads from the whole of it, so a message shorter than its fields is
  completed by what the buffer held before.
\<close>

definition server_hello :: "bytes \<Rightarrow> (('priv, 'pub) ServerChannel, unit) act" where
  "server_hello pool = (\<lambda>ch.
     if \<not> ch_connected ch then (Err (Status BadDecodingError), ch)
     else case conn_read (length pool) (ch_in ch) of
       (Ok (b, None), ss) \<Rightarrow>
         (let buf = b @ drop (length b) pool; ch0 = ch\<lparr>ch_in := ss\<rparr> in
          bnd (with_stream buf (dec_try ReadUInt32)) (\<lambda>(msgType, s1).
          bnd (with_stream s1 (dec_try ReadUInt32)) (\<lambda>(msgLen, s2).
          if msgType \<noteq> MessageTypeHello \<or> msgLen < 28 then throw (Status BadDecodingError)
          else bnd (with_stream s2 (orfail (Status BadProtocolVersionUnsupported) ReadUInt32)) (\<lambda>(version, s3).
          if version < protocolVersion then throw (Status BadProtocolVersionUnsupported)
          else bnd (with_stream s3 (dec_try ReadUInt32)) (\<lambda>(cliReceiveBufferSize, s4).
          bnd (with_stream s4 (dec_try ReadUInt32)) (\<lambda>(cliSendBufferSize, s5).
          bnd (with_stream s5 (dec_try ReadUInt32)) (\<lambda>(cliMaxMessageSize, s6).
          bnd (with_stream s6 (dec_try ReadUInt32)) (\<lambda>(cliMaxChunkCount, s7).
          bnd (with_stream s7 (dec_try ReadString)) (\<lambda>(url, _) ch1.
            let rbs = (if sc_receiveBufferSize ch1 > cliSendBufferSize then cliSendBufferSize else sc_receiveBufferSize ch1);
                sbs = (if ch_sendBufferSize ch1 > cliReceiveBufferSize then cliReceiveBufferSize else ch_sendBufferSize ch1);
                ch2 = ch1\<lparr>sc_endpointURL := url, sc_receiveBufferSize := rbs, ch_sendBufferSize := sbs,
                          ch_maxResponseMessageSize := cliMaxMessageSize, ch_maxResponseChunkCount := cliMaxChunkCount\<rparr>;
                w = put_u32s [MessageTypeAck, 28, protocolVersion, rbs, sbs, ch_maxRequestMessageSize ch2,
                              ch_maxRequestChunkCount ch2] (NewWriter buf)
            in bnd (orfail (Status BadEncodingError) (chan_write (Writer_Bytes w)))
                 (\<lambda>_ ch3. (Ok (), ch3\<lparr>ch_receiveBuffer := replicate (unat rbs) 0\<rparr>)) ch2)))))))) ch0)
     | (Panic, ss) \<Rightarrow> (Panic, ch)
     | (_, ss) \<Rightarrow> (Err (Status BadDecodingError), ch\<lparr>ch_in := ss\<rparr>))"

text \<open>The client's side: it sends the hello, then reads the answer into the same buffer.\<close>

definition client_send_hello :: "bytes \<Rightarrow> (('priv, 'pub) ClientChannel, unit) act" where
  "client_send_hello pool = (\<lambda>ch.
     (let url = cc_endpointURL ch;
          w = put_u32s [MessageTypeHello, word_of_nat (32 + length url), protocolVersion, cc_receiveBufferSize ch,
                        ch_sendBufferSize ch, ch_maxResponseMessageSize ch, ch_maxResponseChunkCount ch] (NewWriter pool)
      in chan_write (Writer_Bytes (enc_put (WriteString writer_ops url) w)) ch))"

definition client_read_ack :: "bytes \<Rightarrow> (('priv, 'pub) ClientChannel, unit) act" where
  "client_read_ack pool = (\<lambda>ch.
     if \<not> ch_connected ch then (Err (Status BadSecureChannelClosed), ch)
     else case conn_read (length pool) (ch_in ch) of
       (Ok (b, None), ss) \<Rightarrow>
         (let buf = b @ drop (length b) pool; ch0 = ch\<lparr>ch_in := ss\<rparr> in
          bnd (with_stream buf ReadUInt32) (\<lambda>(msgType, s1).
          bnd (with_stream s1 ReadUInt32) (\<lambda>(msgLen, s2).
          if msgType = MessageTypeAck then
            if msgLen < 28 then throw (Status BadDecodingError)
            else bnd (with_stream s2 ReadUInt32) (\<lambda>(version, s3).
            if version < protocolVersion then throw (Status BadProtocolVersionUnsupported)
            else bnd (with_stream s3 ReadUInt32) (\<lambda>(sbs, s4).
            andthen (\<lambda>ch. (Ok (), ch\<lparr>ch_sendBufferSize := sbs\<rparr>))
            (bnd (with_stream s4 ReadUInt32) (\<lambda>(rbs, s5).
            andthen (\<lambda>ch. (Ok (), ch\<lparr>cc_receiveBufferSize := rbs\<rparr>))
            (bnd (with_stream s5 ReadUInt32) (\<lambda>(ms, s6).
            andthen (\<lambda>ch. (Ok (), ch\<lparr>ch_maxRequestMessageSize := ms\<rparr>))
            (bnd (with_stream s6 ReadUInt32) (\<lambda>(mc, _) ch.
              (Ok (), ch\<lparr>ch_maxRequestChunkCount := mc\<rparr>)))))))))
          else if msgType = MessageTypeError then
            if msgLen < 16 then throw (Status BadDecodingError)
            else bnd (with_stream s2 ReadUInt32) (\<lambda>(code, s3).
                 bnd (with_stream s3 ReadString) (\<lambda>_. throw (Status code)))
          else throw (Status BadDecodingError))) ch0)
     | (Ok (b, Some e), ss) \<Rightarrow> (Err e, ch\<lparr>ch_in := ss\<rparr>)
     | (Err e, ss) \<Rightarrow> (Err e, ch) | (Panic, ss) \<Rightarrow> (Panic, ch) | (NoFuel, ss) \<Rightarrow> (NoFuel, ch))"

section \<open>Security tokens\<close>

definition minTokenLifetime :: u32 where "minTokenLifetime = 300000"
definition maxTokenLifetime :: u32 where "maxTokenLifetime = 3600000"

definition revise_lifetime :: "u32 \<Rightarrow> u32" where
  "revise_lifetime requested =
     (let r = (if requested > maxTokenLifetime then maxTokenLifetime else requested)
      in if r < minTokenLifetime then minTokenLifetime else r)"

text \<open>The fields of an \<open>OpenSecureChannelRequest\<close> the server uses, and those of its response.\<close>

record open_request =
  oq_RequestType :: u32
  oq_SecurityMode :: u32
  oq_ClientNonce :: bytes
  oq_RequestedLifetime :: u32
  oq_RequestHandle :: u32

record open_response =
  os_RequestHandle :: u32
  os_ServerProtocolVersion :: u32
  os_ChannelID :: u32
  os_TokenID :: u32
  os_CreatedAt :: int
  os_RevisedLifetime :: u32
  os_ServerNonce :: bytes

text \<open>
  The nonces of both ends, then the pending token and its lifetime with the response.
  \<open>nonce n\<close> are \<open>n\<close> random bytes; times are nanoseconds.
\<close>

definition server_set_nonces :: "(nat \<Rightarrow> bytes) \<Rightarrow> open_request \<Rightarrow> (('priv, 'pub) ServerChannel, unit) act" where
  "server_set_nonces nonce req = (\<lambda>ch.
     (Ok (), ch\<lparr>ch_localNonce := (if mode_signs (ch_securityMode ch) then nonce (NonceSize (ch_securityPolicy ch)) else []),
               ch_remoteNonce := oq_ClientNonce req\<rparr>))"

definition server_new_token :: "int \<Rightarrow> open_request \<Rightarrow> (('priv, 'pub) ServerChannel, open_response) act" where
  "server_new_token now req = bnd getNextTokenID (\<lambda>tok ch.
     (let life = revise_lifetime (oq_RequestedLifetime req)
      in (Ok \<lparr>os_RequestHandle = oq_RequestHandle req, os_ServerProtocolVersion = protocolVersion,
             os_ChannelID = ch_channelID ch, os_TokenID = tok, os_CreatedAt = now,
             os_RevisedLifetime = life, os_ServerNonce = ch_localNonce ch\<rparr>,
          ch\<lparr>sc_pendingTokenID := tok, sc_pendingTokenExpiration := now + int (unat life) * 1000000\<rparr>)))"

text \<open>
  The rest of \<open>Open\<close>, after its first request \<open>req\<close> was read (the choice of the endpoint
  description aside): a channel that signs needs a valid certificate of the client. The
  parameter \<open>validate\<close> is \<open>ua.ValidateCertificate\<close> on the configured stores; the chain's
  first key becomes the remote key. \<open>enc\<close> encodes the response.
\<close>

definition server_open_first :: "('priv, 'pub) crypto \<Rightarrow> (bytes \<Rightarrow> goerr option) \<Rightarrow> (nat \<Rightarrow> bytes) \<Rightarrow> (nat \<Rightarrow> bytes)
    \<Rightarrow> int \<Rightarrow> (open_response \<Rightarrow> bytes res) \<Rightarrow> open_request \<Rightarrow> u32 \<Rightarrow> (('priv, 'pub) ServerChannel, unit) act" where
  "server_open_first c validate nonce rnd now enc req rid = (\<lambda>ch.
     (let ch1 = ch\<lparr>ch_securityMode := oq_SecurityMode req\<rparr>
      in seqs [server_set_nonces nonce req,
           (\<lambda>ch. if mode_signs (ch_securityMode ch)
             then case ch_remoteCertificate ch of
                 None \<Rightarrow> (Err (Status BadSecurityChecksFailed), ch)
               | Some rc \<Rightarrow>
                   (case cr_ParseCertificates c rc of
                      Ok keys \<Rightarrow> (case validate rc of
                          Some e \<Rightarrow> (Err e, ch)
                        | None \<Rightarrow> (case keys of
                              RSAKey k # _ \<Rightarrow> (Ok (), ch\<lparr>ch_remotePublicKey := Some k\<rparr>)
                            | _ \<Rightarrow> (Panic, ch)))
                    | Panic \<Rightarrow> (Panic, ch) | NoFuel \<Rightarrow> (NoFuel, ch)
                    | Err _ \<Rightarrow> (Err (Status BadSecurityChecksFailed), ch))
             else (Ok (), ch)),
           bnd (server_new_token now req) (\<lambda>res.
             sendOpenSecureChannelResponse c rnd rid (enc res))] ch1))"

text \<open>The renewal of a token; any other type of request is refused.\<close>

definition SecurityTokenRequestTypeRenew :: u32 where "SecurityTokenRequestTypeRenew = 1"

definition handleOpenSecureChannel :: "('priv, 'pub) crypto \<Rightarrow> (nat \<Rightarrow> bytes) \<Rightarrow> (nat \<Rightarrow> bytes)
    \<Rightarrow> int \<Rightarrow> (open_response \<Rightarrow> bytes res) \<Rightarrow> open_request \<Rightarrow> u32 \<Rightarrow> (('priv, 'pub) ServerChannel, unit) act" where
  "handleOpenSecureChannel c nonce rnd now enc req rid =
     (if oq_RequestType req \<noteq> SecurityTokenRequestTypeRenew then throw (Status BadSecurityChecksFailed)
      else andthen (server_set_nonces nonce req)
             (bnd (server_new_token now req) (\<lambda>res.
               sendOpenSecureChannelResponse c rnd rid (enc res))))"

text \<open>
  The client's side of a renewal, once the response came: the token and both nonces.
  \<open>Open\<close> takes the channel id as well.
\<close>

definition client_token_issued :: "bytes \<Rightarrow> open_response \<Rightarrow> (('priv, 'pub) ClientChannel, unit) act" where
  "client_token_issued clientNonce res = (\<lambda>ch.
     if os_ServerProtocolVersion res < protocolVersion then (Err (Status BadProtocolVersionUnsupported), ch)
     else (Ok (), ch\<lparr>ch_tokenID := os_TokenID res, ch_localNonce := clientNonce,
                     ch_remoteNonce := os_ServerNonce res\<rparr>))"

definition client_token_opened :: "bytes \<Rightarrow> open_response \<Rightarrow> (('priv, 'pub) ClientChannel, unit) act" where
  "client_token_opened clientNonce res =
     andthen (client_token_issued clientNonce res) (\<lambda>ch. (Ok (), ch\<lparr>ch_channelID := os_ChannelID res\<rparr>))"

section \<open>Aborting\<close>

text \<open>\<open>Abort\<close>: the error message is written from the pooled buffer, then the connection closes.\<close>

definition server_abort :: "bytes \<Rightarrow> StatusCode \<Rightarrow> string \<Rightarrow> (('priv, 'pub) ServerChannel, unit) act" where
  "server_abort pool reason msg = (\<lambda>ch.
     if \<not> ch_connected ch then (Ok (), ch)
     else let w = put_u32s [MessageTypeError, word_of_nat (16 + length msg), reason] (NewWriter pool);
              w' = enc_put (WriteString writer_ops msg) w
          in (Ok (), ch\<lparr>ch_out := ch_out ch @ [Writer_Bytes w'], ch_connected := False\<rparr>))"

end
