(* ===== verification/Channel_Roundtrip.thy ===== *)
theory Channel_Roundtrip
  imports Channel_Open
begin

text \<open>
  What the writers of the secure channel put on the wire, that the sizes they choose fit
  the buffers of the receiver, and that the readers recover the body from it, in every
  security mode and however the transport cuts the bytes into segments.
\<close>

section \<open>The byte writer\<close>

text \<open>A writer with room for \<open>r\<close> more bytes that holds \<open>bs\<close>.\<close>

definition holds :: "Writer \<Rightarrow> bytes \<Rightarrow> nat \<Rightarrow> bool" where
  "holds w bs r \<longleftrightarrow> Writer_inv w \<and> Writer_Bytes w = bs \<and> Writer_room w = r"

lemma holds_New: "holds (NewWriter (replicate n 0)) [] n"
  by (simp add: holds_def)

lemma holds_put: "holds w bs r \<Longrightarrow> length p \<le> r \<Longrightarrow> holds (put p w) (bs @ p) (r - length p)"
  using Writer_Write_state [of w p] by (cases "Writer_Write p w") (auto simp: holds_def put_def)

lemma holds_Len: "holds w bs r \<Longrightarrow> Writer_Len w = length bs"
  by (auto simp: holds_def Writer_Len_def Writer_inv_def Writer_Bytes_def)

text \<open>\<open>put\<close> is what an encoder call leaves behind whose error is dropped.\<close>

lemma put_encoder: "enc_put (WriteUInt32 writer_ops v) w = put (le_bytes 4 v) w"
  "enc_put (WriteByte writer_ops b) w = put [b] w"
  by (auto simp: enc_put_def WriteUInt32_def WriteByte_def WriteRaw_def io_Write_def put_def orfail_def
      drop_count_def split: prod.splits option.splits)

lemma holds_put_n: "holds w bs r \<Longrightarrow> n \<le> r \<Longrightarrow> holds ((put [b] ^^ n) w) (bs @ replicate n b) (r - n)"
proof (induction n arbitrary: w bs r)
  case (Suc n)
  have "holds (put [b] w) (bs @ [b]) (r - 1)"
    using holds_put [OF Suc.prems(1), of "[b]"] Suc.prems(2) by simp
  from Suc.IH [OF this] Suc.prems(2) show ?case by (simp add: funpow_swap1)
qed simp

lemma holds_padding:
  assumes "holds w bs r" and "0 \<le> pad" and "nat pad + 1 \<le> r"
  shows "holds (put_padding 1 pad w) (bs @ replicate (nat pad + 1) (word_of_int pad)) (r - (nat pad + 1))"
proof -
  have "holds (put [word_of_int pad] w) (bs @ [word_of_int pad]) (r - 1)"
    using holds_put [OF assms(1), of "[word_of_int pad]"] assms(3) by simp
  from holds_put_n [OF this, of "nat pad"] assms(3) show ?thesis by (simp add: put_padding_def Let_def)
qed

lemma copy_body_holds:
  assumes "holds w bs r" and "0 < n" and "nat n \<le> length body" and "nat n \<le> r"
  shows "\<exists>w'. copy_body n body w = Ok w' \<and> holds w' (bs @ take (nat n) body) (r - nat n)"
proof -
  obtain k e w' where w: "Writer_Write (take (nat n) body) w = ((k, e), w')" 
    by (cases "Writer_Write (take (nat n) body) w") auto
  have "e = None"
    using Writer_Write_result [of w "take (nat n) body"] w assms by (auto simp: holds_def min_absorb2)
  with w assms Writer_Write_state [OF _ w] show ?thesis
    by (auto simp: copy_body_def holds_def min_absorb2)
qed

lemma write_signature_holds:
  assumes "holds w bs r" and "sg \<noteq> []" and "length sg \<le> r"
  shows "\<exists>w'. write_signature w sg = Ok w' \<and> holds w' (bs @ sg) (r - length sg)"
proof -
  obtain k e w' where w: "Writer_Write sg w = ((k, e), w')" by (cases "Writer_Write sg w") auto
  have "e = None"
    using Writer_Write_result [of w sg] w assms by (cases sg) (auto simp: holds_def)
  with w assms Writer_Write_state [OF _ w] show ?thesis
    by (auto simp: write_signature_def holds_def)
qed

section \<open>The sizes of a chunk\<close>

definition max_body :: "u32 \<Rightarrow> SecurityPolicy \<Rightarrow> u32 \<Rightarrow> int" where
  "max_body md p buf = cp_maxBodySize (plan_chunk md p buf 0)"

lemma plan_max: "cp_maxBodySize (plan_chunk md p buf n) = max_body md p buf"
  by (simp add: plan_chunk_def max_body_def Let_def)

lemma sdiv_block:
  assumes "0 < b" and "0 < (x sdiv b) * b - k" and "0 \<le> k"
  shows "(x sdiv b) * b \<le> (x :: int)"
proof (cases "0 \<le> x")
  case True
  then have eq: "x sdiv b = x div b" using assms(1) by (simp add: signed_divide_int_def sgn_if)
  show ?thesis
    unfolding eq using div_mult_mod_eq [of x b] pos_mod_sign [OF assms(1), of x] by linarith
next
  case False
  then have "x sdiv b = - ((- x) div b)" using assms(1) by (simp add: signed_divide_int_def sgn_if)
  moreover have "0 \<le> ((- x) div b) * b" using False assms(1) by (simp add: pos_imp_zdiv_nonneg_iff)
  ultimately show ?thesis using assms(2,3) by simp
qed

lemma block_not_large [simp]: "\<not> 256 < int (SymEncryptionBlockSize p)" "\<not> 256 < SymEncryptionBlockSize p"
  using block_size_small [of p] by linarith+

lemma int_mod_0: "int n mod int k = 0 \<Longrightarrow> n mod k = 0"
  by (simp flip: of_nat_mod)

lemma pad_mod: "0 < b \<Longrightarrow> (x + (b - x mod b) mod b) mod b = (0 :: int)"
  by (simp add: mod_simps)

lemma pad_fits:
  assumes "0 < b" and "x < m" and "b dvd m"
  shows "x + (b - x mod b) mod b \<le> (m :: int)"
proof -
  let ?y = "x + (b - x mod b) mod b"
  have y: "b dvd ?y" using pad_mod [OF assms(1), of x] by (simp add: mod_eq_0_iff_dvd)
  have "(b - x mod b) mod b < b" using assms(1) by simp
  then have less: "?y - m < b" using assms(2) by linarith
  show ?thesis
  proof (rule ccontr)
    assume "\<not> ?y \<le> m"
    then have "0 < ?y - m" by simp
    moreover have "b dvd ?y - m" using y assms(3) by (rule dvd_diff)
    ultimately have "b \<le> ?y - m" by (simp add: zdvd_imp_le)
    with less show False by simp
  qed
qed

lemma plan_facts:
  assumes "0 < n" and "0 < max_body md p buf" and "pl = plan_chunk md p buf n"
  shows "cp_bodySize pl = min n (max_body md p buf)" and "0 < cp_bodySize pl" and "cp_bodySize pl \<le> n"
    and "0 \<le> cp_paddingSize pl" and "cp_paddingSize pl < 256"
    and "cp_paddingHeaderSize pl = (if md = MessageSecurityModeSignAndEncrypt then 1 else 0)"
    and "md \<noteq> MessageSecurityModeSignAndEncrypt \<Longrightarrow> cp_paddingSize pl = 0"
    and "cp_chunkSize pl = 24 + cp_bodySize pl + cp_paddingSize pl + cp_paddingHeaderSize pl + int (SymSignatureSize p)"
    and "cp_chunkSize pl \<le> int (unat buf)"
    and "md = MessageSecurityModeSignAndEncrypt \<Longrightarrow> (cp_chunkSize pl - 16) mod int (SymEncryptionBlockSize p) = 0"
proof -
  let ?b = "int (SymEncryptionBlockSize p)" and ?s = "int (SymSignatureSize p)"
  have b: "0 < ?b" "?b \<le> 16" by simp_all
  have mod_lt: "x mod ?b < 256" for x using pos_mod_bound [OF b(1), of x] b(2) by linarith
  show size: "cp_bodySize pl = min n (max_body md p buf)"
    by (simp add: assms(3) plan_chunk_def max_body_def Let_def min_def)
  then show "0 < cp_bodySize pl" "cp_bodySize pl \<le> n" using assms(1,2) by simp_all
  show "0 \<le> cp_paddingSize pl" "cp_paddingSize pl < 256"
    using b(1) mod_lt by (simp_all add: assms(3) plan_chunk_def Let_def)
  show "cp_paddingHeaderSize pl = (if md = MessageSecurityModeSignAndEncrypt then 1 else 0)"
    by (simp add: assms(3) plan_chunk_def Let_def)
  show "md \<noteq> MessageSecurityModeSignAndEncrypt \<Longrightarrow> cp_paddingSize pl = 0"
    by (simp add: assms(3) plan_chunk_def Let_def)
  show "cp_chunkSize pl = 24 + cp_bodySize pl + cp_paddingSize pl + cp_paddingHeaderSize pl + ?s"
    by (simp add: assms(3) plan_chunk_def Let_def)
  let ?q = "(int (unat buf) - 16) sdiv ?b * ?b"
  have q: "max_body md p buf = ?q - 9 - ?s" if "md = MessageSecurityModeSignAndEncrypt"
    using that by (simp add: max_body_def plan_chunk_def Let_def)
  have q_le: "?q \<le> int (unat buf) - 16" if "md = MessageSecurityModeSignAndEncrypt"
    using sdiv_block [OF b(1), of _ "9 + ?s"] assms(2) q [OF that] by simp
  show "md = MessageSecurityModeSignAndEncrypt \<Longrightarrow> (cp_chunkSize pl - 16) mod ?b = 0"
    using q pad_mod [OF b(1), of "8 + n + 1 + ?s"]
    by (auto simp: assms(3) plan_chunk_def Let_def algebra_simps)
  show "cp_chunkSize pl \<le> int (unat buf)"
  proof (cases "md = MessageSecurityModeSignAndEncrypt")
    case True
    then show ?thesis
      using q q_le pad_fits [OF b(1), of "9 + n + ?s" ?q]
      by (auto simp: assms(3) plan_chunk_def Let_def algebra_simps)
  next
    case False
    then show ?thesis by (simp add: assms(3) plan_chunk_def Let_def)
  qed
qed

section \<open>The chunk on the wire\<close>

text \<open>
  The text of a chunk: the plain header with the token, the sequence header, a part of
  the body, the padding. Sealing appends the signature and encrypts all but the header.
\<close>

definition chunk_text :: "u32 \<Rightarrow> u32 \<Rightarrow> u32 \<Rightarrow> u32 \<Rightarrow> u32 \<Rightarrow> u32 \<Rightarrow> bytes \<Rightarrow> bytes \<Rightarrow> bytes" where
  "chunk_text mt sz chan tok sn rid part padding =
     ((le_bytes 4 mt @ le_bytes 4 sz @ le_bytes 4 chan @ le_bytes 4 tok) @ le_bytes 4 sn @ le_bytes 4 rid)
       @ part @ padding"

definition seal :: "('priv, 'pub) crypto \<Rightarrow> u32 \<Rightarrow> hasher \<Rightarrow> bytes \<Rightarrow> bytes \<Rightarrow> bytes \<Rightarrow> bytes" where
  "seal c md h key iv msg =
     (let signed = msg @ (if mode_signs md then hash_sum c h msg else [])
      in if md = MessageSecurityModeSignAndEncrypt
         then take 16 signed @ cbc_encrypt (cr_aes_encrypt c key) iv (drop 16 signed)
         else signed)"

definition plan_padding :: "u32 \<Rightarrow> chunk_plan \<Rightarrow> bytes" where
  "plan_padding md pl = (if md = MessageSecurityModeSignAndEncrypt
     then replicate (nat (cp_paddingSize pl) + 1) (word_of_int (cp_paddingSize pl)) else [])"

text \<open>
  The keys of one direction: a channel that does not sign has the policy without security,
  one that signs a hash of the policy's size, one that encrypts also a key of AES and one
  block of initialization vector.
\<close>

definition keys_ok :: "u32 \<Rightarrow> SecurityPolicy \<Rightarrow> hasher \<Rightarrow> bytes \<Rightarrow> bytes \<Rightarrow> bool" where
  "keys_ok md p h key iv \<longleftrightarrow>
     (if mode_signs md then p \<noteq> SecurityPolicyNone \<and> hash_size (fst h) = SymSignatureSize p
      else p = SecurityPolicyNone)
   \<and> (md = MessageSecurityModeSignAndEncrypt \<longrightarrow> length key \<in> {16, 24, 32} \<and> length iv = aes_BlockSize)"

definition sender_keys :: "('priv, 'pub, 'z) Channel_scheme \<Rightarrow> hasher \<Rightarrow> bytes \<Rightarrow> bytes \<Rightarrow> bool" where
  "sender_keys ch h key iv \<longleftrightarrow> keys_ok (ch_securityMode ch) (ch_securityPolicy ch) h key iv
   \<and> (mode_signs (ch_securityMode ch) \<longrightarrow> ch_symSignHMAC ch = Some h)
   \<and> (ch_securityMode ch = MessageSecurityModeSignAndEncrypt \<longrightarrow>
        ch_symEncryptingBlockCipher ch = Some key \<and> ch_localInitializationVector ch = iv)"

definition receiver_keys :: "('priv, 'pub, 'z) Channel_scheme \<Rightarrow> hasher \<Rightarrow> bytes \<Rightarrow> bytes \<Rightarrow> bool" where
  "receiver_keys ch h key iv \<longleftrightarrow> keys_ok (ch_securityMode ch) (ch_securityPolicy ch) h key iv
   \<and> (mode_signs (ch_securityMode ch) \<longrightarrow> ch_symVerifyHMAC ch = Some h)
   \<and> (ch_securityMode ch = MessageSecurityModeSignAndEncrypt \<longrightarrow>
        ch_symDecryptingBlockCipher ch = Some key \<and> ch_remoteInitializationVector ch = iv)"

lemma mode_se_signs [simp]: "mode_signs MessageSecurityModeSignAndEncrypt"
  by (simp add: mode_signs_def)

lemma res_bind_simps [simp]:
  "res_bind (Ok x) f = f x" "res_bind (Err e) f = Err e" "res_bind Panic f = Panic" "res_bind NoFuel f = NoFuel"
  by (simp_all add: res_bind_def)

lemma length_chunk_text: "length (chunk_text mt sz chan tok sn rid part padding) = 24 + length part + length padding"
  by (simp add: chunk_text_def)

lemma length_hash_sum: "crypto_ok c \<Longrightarrow> length (hash_sum c h m) = hash_size (fst h)"
  by (simp add: crypto_ok_def hash_sum_def)

lemma length_plan_padding:
  "0 \<le> cp_paddingSize pl \<Longrightarrow> cp_paddingHeaderSize pl = (if md = MessageSecurityModeSignAndEncrypt then 1 else 0) \<Longrightarrow>
   (md \<noteq> MessageSecurityModeSignAndEncrypt \<Longrightarrow> cp_paddingSize pl = 0) \<Longrightarrow>
   int (length (plan_padding md pl)) = cp_paddingSize pl + cp_paddingHeaderSize pl"
  by (auto simp: plan_padding_def)

lemma put_header_holds:
  assumes "16 \<le> n"
  shows "holds (put_header mt ch pl (NewWriter (replicate n 0)))
     (le_bytes 4 mt @ le_bytes 4 (word_of_int (cp_chunkSize pl) :: u32) @ le_bytes 4 (ch_channelID ch) @ le_bytes 4 (ch_tokenID ch))
     (n - 16)"
proof -
  have "holds (put (le_bytes 4 mt) (NewWriter (replicate n 0))) (le_bytes 4 mt) (n - 4)"
    using holds_put [OF holds_New, of "le_bytes 4 mt" n] assms by simp
  from holds_put [OF this, of "le_bytes 4 (word_of_int (cp_chunkSize pl) :: u32)"] assms
  have "holds (put (le_bytes 4 (word_of_int (cp_chunkSize pl) :: u32)) (put (le_bytes 4 mt) (NewWriter (replicate n 0))))
      (le_bytes 4 mt @ le_bytes 4 (word_of_int (cp_chunkSize pl) :: u32)) (n - 8)" by simp
  from holds_put [OF this, of "le_bytes 4 (ch_channelID ch)"] assms
  have "holds (put (le_bytes 4 (ch_channelID ch)) (put (le_bytes 4 (word_of_int (cp_chunkSize pl) :: u32)) (put (le_bytes 4 mt) (NewWriter (replicate n 0)))))
      (le_bytes 4 mt @ le_bytes 4 (word_of_int (cp_chunkSize pl) :: u32) @ le_bytes 4 (ch_channelID ch)) (n - 12)" by simp
  from holds_put [OF this, of "le_bytes 4 (ch_tokenID ch)"] assms
  show ?thesis by (simp add: put_header_def)
qed

lemma put_sequence_holds:
  assumes "holds w bs r" and "8 \<le> r"
  shows "holds (put_sequence sn rid w) (bs @ le_bytes 4 sn @ le_bytes 4 rid) (r - 8)"
proof -
  have "holds (put (le_bytes 4 sn) w) (bs @ le_bytes 4 sn) (r - 4)"
    using holds_put [OF assms(1), of "le_bytes 4 sn"] assms(2) by simp
  from holds_put [OF this, of "le_bytes 4 rid"] assms(2) show ?thesis by (simp add: put_sequence_def)
qed

text \<open>
  The common part of the writers, from the stream with the sequence header on: the body,
  the padding, and what is then left of the buffer.
\<close>

lemma text_holds:
  assumes "0 < n" and "n = int (length body)" and "0 < max_body md p buf" and pl: "pl = plan_chunk md p buf n"
    and "unat buf \<le> N" and ch: "ch_tokenID ch = tok" "ch_channelID ch = chan"
  shows "\<exists>w1. copy_body (cp_bodySize pl) body (put_sequence sn rid (put_header mt ch pl (NewWriter (replicate N 0)))) = Ok w1
     \<and> holds (if md = MessageSecurityModeSignAndEncrypt then put_padding (cp_paddingHeaderSize pl) (cp_paddingSize pl) w1 else w1)
         (chunk_text mt (word_of_int (cp_chunkSize pl)) chan tok sn rid (take (nat (cp_bodySize pl)) body) (plan_padding md pl))
         (N - nat (cp_chunkSize pl - int (SymSignatureSize p)))
     \<and> nat (cp_chunkSize pl) \<le> N"
proof -
  note facts = plan_facts [OF assms(1,3) pl]
  let ?s = "int (SymSignatureSize p)"
  have size: "nat (cp_chunkSize pl) \<le> N" using facts(9) assms(5) by linarith
  have parts: "24 + nat (cp_bodySize pl) + length (plan_padding md pl) + SymSignatureSize p = nat (cp_chunkSize pl)"
    using facts(8) facts(2) length_plan_padding [OF facts(4,6,7)] by linarith
  then have N: "24 + nat (cp_bodySize pl) + length (plan_padding md pl) \<le> N" using size by linarith
  then have hdr: "holds (put_sequence sn rid (put_header mt ch pl (NewWriter (replicate N 0))))
      ((le_bytes 4 mt @ le_bytes 4 (word_of_int (cp_chunkSize pl) :: u32) @ le_bytes 4 chan @ le_bytes 4 tok) @ le_bytes 4 sn @ le_bytes 4 rid)
      (N - 24)" (is "holds ?w0 ?bs _")
    using put_sequence_holds [OF put_header_holds [of N mt ch pl], of sn rid] ch by simp
  have le: "nat (cp_bodySize pl) \<le> length body" using facts(3) assms(2) by linarith
  have "nat (cp_bodySize pl) \<le> N - 24" using N by linarith
  from copy_body_holds [OF hdr facts(2) le this]
  obtain w1 where w1: "copy_body (cp_bodySize pl) body ?w0 = Ok w1"
    and h1: "holds w1 (?bs @ take (nat (cp_bodySize pl)) body) (N - 24 - nat (cp_bodySize pl))" by auto
  have room: "N - nat (cp_chunkSize pl - ?s) = N - 24 - nat (cp_bodySize pl) - length (plan_padding md pl)"
    using parts by linarith
  show ?thesis
  proof (cases "md = MessageSecurityModeSignAndEncrypt")
    case True
    then have pad: "plan_padding md pl = replicate (nat (cp_paddingSize pl) + 1) (word_of_int (cp_paddingSize pl))"
      by (simp add: plan_padding_def)
    from holds_padding [OF h1 facts(4)] N pad facts(6) True
    have "holds (put_padding (cp_paddingHeaderSize pl) (cp_paddingSize pl) w1)
        ((?bs @ take (nat (cp_bodySize pl)) body) @ plan_padding md pl)
        (N - 24 - nat (cp_bodySize pl) - length (plan_padding md pl))" by simp
    with w1 True size room show ?thesis by (simp add: chunk_text_def)
  next
    case False
    with w1 h1 size room show ?thesis by (simp add: chunk_text_def plan_padding_def)
  qed
qed

lemma keys_mac:
  assumes "keys_ok md p h key iv" and "crypto_ok c" and "mode_signs md"
  shows "length (hash_sum c h m) = SymSignatureSize p" and "0 < SymSignatureSize p"
proof -
  have "p \<noteq> SecurityPolicyNone" "hash_size (fst h) = SymSignatureSize p"
    using assms(1,3) by (simp_all add: keys_ok_def)
  then show "length (hash_sum c h m) = SymSignatureSize p" "0 < SymSignatureSize p"
    using length_hash_sum [OF assms(2), of h m] by (cases p; simp)+
qed

lemma keys_block:
  assumes "keys_ok md p h key iv" and "md = MessageSecurityModeSignAndEncrypt"
  shows "SymEncryptionBlockSize p = aes_BlockSize"
  using assms policy_cipher [of p] by (simp add: keys_ok_def)

text \<open>The length of a sealed chunk is the size its header announces.\<close>

lemma length_cbc:
  assumes "crypto_ok c" and "length key \<in> {16, 24, 32}" and "length iv = aes_BlockSize" and "length xs mod aes_BlockSize = 0"
  shows "length (cbc_encrypt (cr_aes_encrypt c key) iv xs) = length xs"
    and "cbc_decrypt (cr_aes_decrypt c key) iv (cbc_encrypt (cr_aes_encrypt c key) iv xs) = xs"
    and "CBC_encrypt c (Some key) iv xs = Ok (cbc_encrypt (cr_aes_encrypt c key) iv xs)"
  using CBC_roundtrip [OF assms] assms(3,4) by (auto simp: CBC_encrypt_def CBC_decrypt_def split: if_splits)

lemma length_seal:
  assumes "crypto_ok c" and "keys_ok md p h key iv" and "16 \<le> length msg"
    and "md = MessageSecurityModeSignAndEncrypt \<Longrightarrow> (length msg + SymSignatureSize p - 16) mod aes_BlockSize = 0"
  shows "length (seal c md h key iv msg) = length msg + SymSignatureSize p"
proof (cases "md = MessageSecurityModeSignAndEncrypt")
  case True
  then have l: "length (hash_sum c h msg) = SymSignatureSize p" using keys_mac(1) [OF assms(2,1)] by simp
  have "length key \<in> {16, 24, 32}" "length iv = aes_BlockSize" using assms(2) True by (simp_all add: keys_ok_def)
  moreover have "length (drop 16 (msg @ hash_sum c h msg)) mod aes_BlockSize = 0" using assms(4) [OF True] l assms(3) by simp
  ultimately show ?thesis
    using length_cbc(1) [OF assms(1)] True l assms(3) by (simp add: seal_def Let_def)
next
  case False
  then show ?thesis
    using keys_mac(1) [OF assms(2,1)] assms(2) by (auto simp: seal_def Let_def keys_ok_def)
qed

section \<open>What the writers send\<close>

lemma server_chunk_wire:
  assumes "crypto_ok c" and keys: "sender_keys ch h key iv"
    and "0 < n" and "n = int (length body)" and "0 < max_body (ch_securityMode ch) (ch_securityPolicy ch) (ch_sendBufferSize ch)"
    and pl: "pl = plan_chunk (ch_securityMode ch) (ch_securityPolicy ch) (ch_sendBufferSize ch) n"
    and sn: "sn = next_number (ch_sequenceNumber ch)"
    and msg: "msg = chunk_text (if n > cp_bodySize pl then MessageTypeChunk else MessageTypeFinal)
        (word_of_int (cp_chunkSize pl)) (ch_channelID ch) (ch_tokenID ch) sn rid
        (take (nat (cp_bodySize pl)) body) (plan_padding (ch_securityMode ch) pl)"
  shows "server_chunk c rid n body ch =
     (Ok (seal c (ch_securityMode ch) h key iv msg, cp_bodySize pl), ch\<lparr>ch_sequenceNumber := sn\<rparr>)"
proof -
  let ?md = "ch_securityMode ch" and ?p = "ch_securityPolicy ch"
  let ?se = "?md = MessageSecurityModeSignAndEncrypt"
  let ?N = "unat (ch_sendBufferSize ch)"
  let ?w0 = "put_header (if n > cp_bodySize pl then MessageTypeChunk else MessageTypeFinal) ch pl (NewWriter (replicate ?N 0))"
  note facts = plan_facts [OF assms(3,5) pl]
  have kok: "keys_ok ?md ?p h key iv" using keys by (simp add: sender_keys_def)
  from text_holds [OF assms(3,4,5) pl order_refl refl refl, of sn rid "if n > cp_bodySize pl then MessageTypeChunk else MessageTypeFinal"]
  obtain w1 where w1: "copy_body (cp_bodySize pl) body (put_sequence sn rid ?w0) = Ok w1"
    and w2: "holds (if ?se then put_padding (cp_paddingHeaderSize pl) (cp_paddingSize pl) w1 else w1) msg
               (?N - nat (cp_chunkSize pl - int (SymSignatureSize ?p)))" (is "holds ?w2 _ ?r")
    and size: "nat (cp_chunkSize pl) \<le> ?N"
    unfolding msg by blast
  have "24 \<le> nat (cp_chunkSize pl)" using facts(2,4,6,8) by (auto split: if_splits)
  then have "16 \<le> ?N" using size by linarith
  then have hdr: "Writer_Len ?w0 = 16" using holds_Len [OF put_header_holds [of ?N _ ch pl]] by simp
  have len_msg: "int (length msg) = cp_chunkSize pl - int (SymSignatureSize ?p)"
    using length_plan_padding [OF facts(4,6,7)] facts(2,3,8) assms(4) by (simp add: msg length_chunk_text)
  have room: "SymSignatureSize ?p \<le> ?r" using size len_msg by linarith
  have bytes2: "Writer_Bytes ?w2 = msg" using w2 by (simp add: holds_def)
  show ?thesis
  proof (cases "mode_signs ?md")
    case False
    then have "\<not> ?se" by (auto simp: mode_signs_def)
    with False w1 bytes2 hdr show ?thesis
      by (simp add: server_chunk_def Let_def getNextSequenceNumber_def bnd_def lift_res_def sn [symmetric] pl [symmetric] seal_def)
  next
    case True
    then have h: "ch_symSignHMAC ch = Some h" using keys by (simp add: sender_keys_def)
    let ?sg = "hash_sum c h msg"
    have sg: "length ?sg = SymSignatureSize ?p" "0 < SymSignatureSize ?p" using keys_mac [OF kok assms(1) True] by simp_all
    from sg have ne: "?sg \<noteq> []" and fits: "length ?sg \<le> ?r" using room by auto
    from write_signature_holds [OF w2 ne fits]
    obtain w3 where w3: "write_signature ?w2 ?sg = Ok w3" and b3: "Writer_Bytes w3 = msg @ ?sg"
      by (auto simp: holds_def)
    have hash: "stream_hash c (ch_symSignHMAC ch) ?w2 = Ok ?sg" by (simp add: stream_hash_def h bytes2)
    show ?thesis
    proof (cases ?se)
      case False
      with True w1 w3 b3 hash hdr show ?thesis
        by (simp add: server_chunk_def Let_def getNextSequenceNumber_def bnd_def lift_res_def sn [symmetric] pl [symmetric] seal_def)
    next
      case se: True
      have k: "length key \<in> {16, 24, 32}" "length iv = aes_BlockSize" using kok se by (simp_all add: keys_ok_def)
      have cip: "ch_symEncryptingBlockCipher ch = Some key" "ch_localInitializationVector ch = iv"
        using keys se by (simp_all add: sender_keys_def)
      have "int (length (drop 16 (msg @ ?sg))) = cp_chunkSize pl - 16"
        using len_msg sg by (simp add: msg length_chunk_text)
      then have "int (length (drop 16 (msg @ ?sg))) mod int aes_BlockSize = 0"
        using facts(10) [OF se] keys_block [OF kok se] by simp
      then have "length (drop 16 (msg @ ?sg)) mod aes_BlockSize = 0" by (rule int_mod_0)
      from length_cbc(3) [OF assms(1) k this]
      have "encrypt_stream c (ch_symEncryptingBlockCipher ch) (ch_localInitializationVector ch) w3
          = Ok (seal c ?md h key iv msg)"
        by (simp add: encrypt_stream_def b3 cip seal_def se)
      with se w1 w3 hash hdr show ?thesis
        by (simp add: server_chunk_def Let_def getNextSequenceNumber_def bnd_def lift_res_def sn [symmetric]
            pl [unfolded se, symmetric])
    qed
  qed
qed

lemma client_sending_token_simps [simp]:
  "ch_securityMode (client_sending_token c ch) = ch_securityMode ch"
  "ch_securityPolicy (client_sending_token c ch) = ch_securityPolicy ch"
  "ch_sequenceNumber (client_sending_token c ch) = ch_sequenceNumber ch"
  "ch_tokenID (client_sending_token c ch) = ch_tokenID ch"
  "ch_channelID (client_sending_token c ch) = ch_channelID ch"
  "ch_sendBufferSize (client_sending_token c ch) = ch_sendBufferSize ch"
  "ch_connected (client_sending_token c ch) = ch_connected ch"
  "ch_out (client_sending_token c ch) = ch_out ch"
  "ch_in (client_sending_token c ch) = ch_in ch"
  "ch_maxRequestChunkCount (client_sending_token c ch) = ch_maxRequestChunkCount ch"
  "cc_poolSize (client_sending_token c ch) = cc_poolSize ch"
  by (simp_all add: client_sending_token_def Let_def)

lemma client_sending_token_twice [simp]:
  "client_sending_token c (client_sending_token c ch) = client_sending_token c ch"
  by (simp add: client_sending_token_def Let_def)

lemma client_chunk_wire:
  assumes "crypto_ok c" and keys: "sender_keys (client_sending_token c ch) h key iv"
    and "0 < n" and "n = int (length body)" and "0 < max_body (ch_securityMode ch) (ch_securityPolicy ch) (ch_sendBufferSize ch)"
    and pl: "pl = plan_chunk (ch_securityMode ch) (ch_securityPolicy ch) (ch_sendBufferSize ch) n"
    and sn: "sn = next_number (ch_sequenceNumber ch)" and "unat (ch_sendBufferSize ch) \<le> cc_poolSize ch"
    and msg: "msg = chunk_text mt
        (word_of_int (cp_chunkSize pl)) (ch_channelID ch) (ch_tokenID ch) sn rid
        (take (nat (cp_bodySize pl)) body) (plan_padding (ch_securityMode ch) pl)"
  shows "client_chunk c mt rid n body ch =
     (Ok (seal c (ch_securityMode ch) h key iv msg, cp_bodySize pl),
      (client_sending_token c ch)\<lparr>ch_sequenceNumber := sn\<rparr>)"
proof -
  let ?md = "ch_securityMode ch" and ?p = "ch_securityPolicy ch"
  let ?se = "?md = MessageSecurityModeSignAndEncrypt" and ?ch = "client_sending_token c ch"
  let ?N = "cc_poolSize ch"
  let ?w0 = "put_header mt ch pl (NewWriter (replicate ?N 0))"
  note facts = plan_facts [OF assms(3,5) pl]
  have kok: "keys_ok ?md ?p h key iv" using keys by (simp add: sender_keys_def)
  from text_holds [OF assms(3,4,5) pl assms(8) refl refl, of sn rid mt]
  obtain w1 where w1: "copy_body (cp_bodySize pl) body (put_sequence sn rid ?w0) = Ok w1"
    and w2: "holds (if ?se then put_padding (cp_paddingHeaderSize pl) (cp_paddingSize pl) w1 else w1) msg
               (?N - nat (cp_chunkSize pl - int (SymSignatureSize ?p)))" (is "holds ?w2 _ ?r")
    and size: "nat (cp_chunkSize pl) \<le> ?N"
    unfolding msg by blast
  have len_msg: "int (length msg) = cp_chunkSize pl - int (SymSignatureSize ?p)"
    using length_plan_padding [OF facts(4,6,7)] facts(2,3,8) assms(4) by (simp add: msg length_chunk_text)
  have room: "SymSignatureSize ?p \<le> ?r" using size len_msg by linarith
  have bytes2: "Writer_Bytes ?w2 = msg" using w2 by (simp add: holds_def)
  show ?thesis
  proof (cases "mode_signs ?md")
    case False
    then have "\<not> ?se" by (auto simp: mode_signs_def)
    with False w1 bytes2 show ?thesis
      by (simp add: client_chunk_def Let_def getNextSequenceNumber_def bnd_def lift_res_def sn [symmetric] pl [symmetric] seal_def)
  next
    case True
    then have h: "ch_symSignHMAC ?ch = Some h" using keys by (simp add: sender_keys_def)
    let ?sg = "hash_sum c h msg"
    have sg: "length ?sg = SymSignatureSize ?p" using keys_mac [OF kok assms(1) True] by simp
    then have "length ?sg \<le> ?r" using room by simp
    from holds_put [OF w2 this] have b3: "Writer_Bytes (put ?sg ?w2) = msg @ ?sg" by (simp add: holds_def)
    have hash: "stream_hash c (ch_symSignHMAC ?ch) ?w2 = Ok ?sg" by (simp add: stream_hash_def h bytes2)
    show ?thesis
    proof (cases ?se)
      case False
      with True w1 b3 hash show ?thesis
        by (simp add: client_chunk_def Let_def getNextSequenceNumber_def bnd_def lift_res_def sn [symmetric] pl [symmetric] seal_def)
    next
      case se: True
      have k: "length key \<in> {16, 24, 32}" "length iv = aes_BlockSize" using kok se by (simp_all add: keys_ok_def)
      have cip: "ch_symEncryptingBlockCipher ?ch = Some key" "ch_localInitializationVector ?ch = iv"
        using keys se by (simp_all add: sender_keys_def)
      have "int (length (drop 16 (msg @ ?sg))) = cp_chunkSize pl - 16"
        using len_msg sg by (simp add: msg length_chunk_text)
      then have "int (length (drop 16 (msg @ ?sg))) mod int aes_BlockSize = 0"
        using facts(10) [OF se] keys_block [OF kok se] by simp
      then have blk: "length (drop 16 (msg @ ?sg)) mod aes_BlockSize = 0" by (rule int_mod_0)
      have "16 \<le> length (msg @ ?sg)" by (simp add: msg length_chunk_text)
      then have "client_encrypt c (Some key) iv w = Ok (seal c ?md h key iv msg)" if "Writer_Bytes w = msg @ ?sg" for w
        unfolding client_encrypt_def encrypt_stream_def that length_cbc(3) [OF assms(1) k blk]
        using blk by (simp add: seal_def Let_def se del: append_assoc drop_append take_append)
      from this [OF b3] have "client_encrypt c (ch_symEncryptingBlockCipher ?ch) (ch_localInitializationVector ?ch) (put ?sg ?w2)
          = Ok (seal c ?md h key iv msg)" unfolding cip .
      with se w1 hash show ?thesis
        by (simp add: client_chunk_def Let_def getNextSequenceNumber_def bnd_def lift_res_def sn [symmetric]
            pl [unfolded se, symmetric])
    qed
  qed
qed

section \<open>A message in chunks\<close>

text \<open>
  \<open>chunk_of\<close>: the bytes are a sealed chunk of type \<open>mt\<close> with the part of a body, of the
  length its header says.
\<close>

definition padding_ok :: "u32 \<Rightarrow> bytes \<Rightarrow> bool" where
  "padding_ok md pad \<longleftrightarrow> (if md = MessageSecurityModeSignAndEncrypt
     then \<exists>k < 256. pad = replicate (k + 1) (word_of_nat k) else pad = [])"

record direction =
  d_mode :: u32
  d_policy :: SecurityPolicy
  d_channelID :: u32
  d_tokenID :: u32
  d_hash :: hasher
  d_key :: bytes
  d_iv :: bytes
  d_size :: nat

definition chunk_of :: "('priv, 'pub) crypto \<Rightarrow> direction \<Rightarrow> u32 \<Rightarrow> u32 \<Rightarrow> bytes \<Rightarrow> bytes \<Rightarrow> bool" where
  "chunk_of c d rid mt x part \<longleftrightarrow> (\<exists>sn sz pad msg.
     msg = chunk_text mt sz (d_channelID d) (d_tokenID d) sn rid part pad
   \<and> x = seal c (d_mode d) (d_hash d) (d_key d) (d_iv d) msg
   \<and> padding_ok (d_mode d) pad
   \<and> unat sz = length x \<and> length x = length msg + SymSignatureSize (d_policy d) \<and> length x \<le> d_size d
   \<and> (d_mode d = MessageSecurityModeSignAndEncrypt \<longrightarrow> (length x - 16) mod aes_BlockSize = 0))"

lemma plan_chunk_of:
  assumes "crypto_ok c" and "keys_ok (d_mode d) (d_policy d) (d_hash d) (d_key d) (d_iv d)"
    and "0 < n" and "n = int (length body)" and "0 < max_body (d_mode d) (d_policy d) buf"
    and pl: "pl = plan_chunk (d_mode d) (d_policy d) buf n" and "unat buf \<le> d_size d"
  shows "chunk_of c d rid mt
     (seal c (d_mode d) (d_hash d) (d_key d) (d_iv d) (chunk_text mt (word_of_int (cp_chunkSize pl)) (d_channelID d)
        (d_tokenID d) sn rid (take (nat (cp_bodySize pl)) body) (plan_padding (d_mode d) pl)))
     (take (nat (cp_bodySize pl)) body)"
proof -
  note facts = plan_facts [OF assms(3,5) pl]
  let ?se = "d_mode d = MessageSecurityModeSignAndEncrypt"
  let ?msg = "chunk_text mt (word_of_int (cp_chunkSize pl)) (d_channelID d)
        (d_tokenID d) sn rid (take (nat (cp_bodySize pl)) body) (plan_padding (d_mode d) pl)"
  have len_msg: "int (length ?msg) = cp_chunkSize pl - int (SymSignatureSize (d_policy d))"
    using length_plan_padding [OF facts(4,6,7)] facts(2,3,8) assms(4) by (simp add: length_chunk_text)
  have blk: "(length ?msg + SymSignatureSize (d_policy d) - 16) mod aes_BlockSize = 0" if se: ?se
  proof (rule int_mod_0)
    have "int (length ?msg + SymSignatureSize (d_policy d) - 16) = cp_chunkSize pl - 16"
      using len_msg by (simp add: length_chunk_text)
    then show "int (length ?msg + SymSignatureSize (d_policy d) - 16) mod int aes_BlockSize = 0"
      using facts(10) [OF se] keys_block [OF assms(2) se] by simp
  qed
  have len: "length (seal c (d_mode d) (d_hash d) (d_key d) (d_iv d) ?msg) = length ?msg + SymSignatureSize (d_policy d)"
    by (rule length_seal [OF assms(1,2) _ blk]) (simp_all add: length_chunk_text)
  have pos: "0 \<le> cp_chunkSize pl" using facts(2,4,6,8) by (auto split: if_splits)
  then have sz: "int (unat (word_of_int (cp_chunkSize pl) :: u32)) = cp_chunkSize pl"
    using facts(9) uint_lt2p [of buf] by (simp add: unsigned_of_int take_bit_int_eq_self)
  have "padding_ok (d_mode d) (plan_padding (d_mode d) pl)"
    using facts(4,5) by (auto simp: padding_ok_def plan_padding_def intro!: exI [of _ "nat (cp_paddingSize pl)"])
  moreover have "int (length ?msg + SymSignatureSize (d_policy d)) = cp_chunkSize pl" using len_msg by simp
  moreover from this have "unat (word_of_int (cp_chunkSize pl) :: u32) = length ?msg + SymSignatureSize (d_policy d)"
    using sz by linarith
  moreover have "length ?msg + SymSignatureSize (d_policy d) \<le> d_size d"
    using calculation(2) facts(9) assms(7) by linarith
  ultimately show ?thesis
    unfolding chunk_of_def
    by (rule_tac exI [where x = sn], rule_tac exI [where x = "word_of_int (cp_chunkSize pl)"],
        rule_tac exI [where x = "plan_padding (d_mode d) pl"], rule_tac exI [where x = ?msg])
       (unfold len, intro conjI impI refl blk; assumption)
qed

section \<open>The writers' loops\<close>

text \<open>The number of chunks a body of \<open>n\<close> bytes takes with \<open>mx\<close> bytes in each.\<close>

definition chunk_number :: "int \<Rightarrow> int \<Rightarrow> int" where
  "chunk_number n mx = (n + mx - 1) div mx"

lemma chunk_number_last: "0 < n \<Longrightarrow> n \<le> mx \<Longrightarrow> chunk_number n mx = 1"
  unfolding chunk_number_def by (rule int_div_pos_eq [of _ _ _ "n - 1"]) simp_all

lemma chunk_number_more: "0 < mx \<Longrightarrow> chunk_number (n + mx) mx = chunk_number n mx + 1"
proof -
  assume "0 < mx"
  moreover have "n + mx + mx - 1 = (n + mx - 1) + 1 * mx" by simp
  ultimately show ?thesis unfolding chunk_number_def by (metis div_mult_self1 less_irrefl add.commute)
qed

lemma chunk_number_pos: "0 < n \<Longrightarrow> 0 < mx \<Longrightarrow> 0 < chunk_number n mx"
  by (simp add: chunk_number_def pos_imp_zdiv_pos_iff)

text \<open>The fields a writer of the direction \<open>d\<close> needs, in the state it writes with.\<close>

definition writes :: "direction \<Rightarrow> ('priv, 'pub, 'z) Channel_scheme \<Rightarrow> bool" where
  "writes d ch \<longleftrightarrow> ch_connected ch \<and> ch_securityMode ch = d_mode d \<and> ch_securityPolicy ch = d_policy d
   \<and> ch_channelID ch = d_channelID d \<and> ch_tokenID ch = d_tokenID d
   \<and> sender_keys ch (d_hash d) (d_key d) (d_iv d) \<and> unat (ch_sendBufferSize ch) \<le> d_size d
   \<and> 0 < max_body (d_mode d) (d_policy d) (ch_sendBufferSize ch)"

lemma writes_update [simp]:
  "writes d (ch\<lparr>ch_sequenceNumber := s\<rparr>) = writes d ch"
  "writes d (ch\<lparr>ch_out := out\<rparr>) = writes d ch"
  by (simp_all add: writes_def sender_keys_def)

lemma server_chunk_of:
  assumes "crypto_ok c" and "writes d ch" and "0 < n" and "n = int (length body)"
    and "mx = max_body (d_mode d) (d_policy d) (ch_sendBufferSize ch)"
  shows "\<exists>x. server_chunk c rid n body ch
       = (Ok (x, min n mx), ch\<lparr>ch_sequenceNumber := next_number (ch_sequenceNumber ch)\<rparr>)
     \<and> chunk_of c d rid (if mx < n then MessageTypeChunk else MessageTypeFinal) x (take (nat (min n mx)) body)"
proof -
  let ?pl = "plan_chunk (d_mode d) (d_policy d) (ch_sendBufferSize ch) n"
  have w: "ch_securityMode ch = d_mode d" "ch_securityPolicy ch = d_policy d" "ch_channelID ch = d_channelID d"
    "ch_tokenID ch = d_tokenID d" "sender_keys ch (d_hash d) (d_key d) (d_iv d)" "unat (ch_sendBufferSize ch) \<le> d_size d"
    "0 < mx" using assms(2,5) by (simp_all add: writes_def)
  have size: "cp_bodySize ?pl = min n mx"
    using plan_facts(1) [OF assms(3) _ refl, of "d_mode d" "d_policy d" "ch_sendBufferSize ch"] w(7) assms(5) by simp
  have lt: "(n > min n mx) = (mx < n)" by auto
  have "keys_ok (d_mode d) (d_policy d) (d_hash d) (d_key d) (d_iv d)" using w by (simp add: sender_keys_def)
  from plan_chunk_of [OF assms(1) this assms(3,4) _ refl w(6)] w(7) assms(5)
  have "chunk_of c d rid mt (seal c (d_mode d) (d_hash d) (d_key d) (d_iv d)
      (chunk_text mt (word_of_int (cp_chunkSize ?pl)) (d_channelID d) (d_tokenID d) sn rid
        (take (nat (min n mx)) body) (plan_padding (d_mode d) ?pl))) (take (nat (min n mx)) body)" for mt sn
    unfolding size by blast
  moreover from server_chunk_wire [OF assms(1) w(5) assms(3,4) _ refl refl refl, of rid] w assms(5)
  have "server_chunk c rid n body ch = (Ok (seal c (d_mode d) (d_hash d) (d_key d) (d_iv d)
      (chunk_text (if mx < n then MessageTypeChunk else MessageTypeFinal) (word_of_int (cp_chunkSize ?pl))
        (d_channelID d) (d_tokenID d) (next_number (ch_sequenceNumber ch)) rid
        (take (nat (min n mx)) body) (plan_padding (d_mode d) ?pl)), min n mx),
      ch\<lparr>ch_sequenceNumber := next_number (ch_sequenceNumber ch)\<rparr>)"
    unfolding w(1-4) size lt by blast
  ultimately show ?thesis by blast
qed

text \<open>A body in consecutive non-empty parts, one to a chunk, the last in a chunk of type \<open>mt\<close>.\<close>

fun chunks_of :: "(u32 \<Rightarrow> bytes \<Rightarrow> bytes \<Rightarrow> bool) \<Rightarrow> u32 \<Rightarrow> bytes list \<Rightarrow> bytes \<Rightarrow> bool" where
  "chunks_of P mt [] body = False"
| "chunks_of P mt [x] body = (body \<noteq> [] \<and> P mt x body)"
| "chunks_of P mt (x # y # xs) body = (\<exists>n. 0 < n \<and> n < length body
     \<and> P MessageTypeChunk x (take n body) \<and> chunks_of P mt (y # xs) (drop n body))"

lemma chunks_of_Cons:
  assumes "P MessageTypeChunk x (take n body)" and "chunks_of P mt xs (drop n body)" and "0 < n" and "n < length body"
  shows "chunks_of P mt (x # xs) body"
  using assms by (cases xs) auto

text \<open>
  What both writers' loops promise: a round writes a chunk with as much of the body as
  fits, unless the limit \<open>lm\<close> on the number of chunks is reached; the loop ends when the
  body is used up. \<open>emit x\<close> is the state after the chunk \<open>x\<close>.
\<close>

locale chunk_writer =
  fixes send :: "nat \<Rightarrow> u32 \<Rightarrow> int \<Rightarrow> int \<Rightarrow> bytes \<Rightarrow> 'ch \<Rightarrow> unit res \<times> 'ch"
    and emit :: "bytes \<Rightarrow> 'ch \<Rightarrow> 'ch"
    and ready :: "'ch \<Rightarrow> bool"
    and carries :: "u32 \<Rightarrow> u32 \<Rightarrow> bytes \<Rightarrow> bytes \<Rightarrow> bool"
    and too_large :: goerr
    and mx lm :: int
  assumes mx_pos: "ready ch \<Longrightarrow> 0 < mx"
    and lm_nonneg: "0 \<le> lm"
    and ready_emit: "ready ch \<Longrightarrow> ready (emit x ch)"
    and send_end: "send f rid k 0 body ch = (Ok (), ch)"
    and send_stop: "ready ch \<Longrightarrow> 0 < n \<Longrightarrow> 0 < lm \<Longrightarrow> lm < k + 1 \<Longrightarrow> send (Suc f) rid k n body ch = (Err too_large, ch)"
    and send_step: "ready ch \<Longrightarrow> body \<noteq> [] \<Longrightarrow> n = int (length body) \<Longrightarrow> \<not> (0 < lm \<and> lm < k + 1) \<Longrightarrow>
      \<exists>x. send (Suc f) rid k n body ch
           = send f rid (k + 1) (n - min n mx) (drop (nat (min n mx)) body) (emit x ch)
         \<and> carries rid (if mx < n then MessageTypeChunk else MessageTypeFinal) x (take (nat (min n mx)) body)"
begin

lemma send_chunks:
  assumes "ready ch" and "body \<noteq> []" and "length body \<le> fuel" and "0 \<le> k"
    and "cnt = chunk_number (int (length body)) mx"
  shows "if lm = 0 \<or> k + cnt \<le> lm
     then \<exists>xs. send fuel rid k (int (length body)) body ch = (Ok (), fold emit xs ch)
       \<and> chunks_of (carries rid) MessageTypeFinal xs body \<and> int (length xs) = cnt
     else \<exists>ch'. send fuel rid k (int (length body)) body ch = (Err too_large, ch')"
  using assms
proof (induction fuel arbitrary: k body ch cnt)
  case 0
  then show ?case by simp
next
  case (Suc f)
  let ?n = "int (length body)"
  have n: "0 < ?n" using Suc.prems(2) by simp
  have mx: "0 < mx" using mx_pos Suc.prems(1) by blast
  show ?case
  proof (cases "0 < lm \<and> lm < k + 1")
    case True
    then have "\<not> (lm = 0 \<or> k + cnt \<le> lm)" using chunk_number_pos [OF n mx] Suc.prems(5) by linarith
    with send_stop [OF Suc.prems(1) n] True show ?thesis by simp
  next
    case fits: False
    from send_step [OF Suc.prems(1,2) refl fits]
    obtain x where step: "send (Suc f) rid k ?n body ch
        = send f rid (k + 1) (?n - min ?n mx) (drop (nat (min ?n mx)) body) (emit x ch)"
      and of_x: "carries rid (if mx < ?n then MessageTypeChunk else MessageTypeFinal) x (take (nat (min ?n mx)) body)"
      by blast
    show ?thesis
    proof (cases "mx < ?n")
      case False
      then have one: "cnt = 1" using chunk_number_last [OF n] Suc.prems(5) by simp
      have "send (Suc f) rid k ?n body ch = (Ok (), fold emit [x] ch)"
        unfolding step using False by (simp add: send_end)
      moreover have "chunks_of (carries rid) MessageTypeFinal [x] body" using of_x False Suc.prems(2) by simp
      moreover have ok: "lm = 0 \<or> k + cnt \<le> lm" using fits one lm_nonneg by linarith
      moreover have "int (length [x]) = cnt" using one by simp
      ultimately show ?thesis unfolding if_P [OF ok] by blast
    next
      case True
      let ?m = "nat mx" and ?body = "drop (nat mx) body"
      have len: "?n - mx = int (length ?body)" and body: "?body \<noteq> []" "length ?body \<le> f" "0 < ?m" "?m < length body"
        using True mx Suc.prems(3) by auto
      have mn: "min ?n mx = mx" using True by simp
      have "chunk_number ?n mx = chunk_number (?n - mx) mx + 1"
        using chunk_number_more [OF mx, of "?n - mx"] by (simp only: diff_add_cancel)
      then have cnt: "cnt = chunk_number (int (length ?body)) mx + 1" unfolding Suc.prems(5) len .
      have step': "send (Suc f) rid k ?n body ch = send f rid (k + 1) (int (length ?body)) ?body (emit x ch)"
        unfolding step mn len ..
      have "0 \<le> k + 1" using Suc.prems(4) by simp
      note IH = Suc.IH [OF ready_emit [OF Suc.prems(1)] body(1,2) this refl, of x]
      show ?thesis
      proof (cases "lm = 0 \<or> k + cnt \<le> lm")
        case ok: True
        then have "lm = 0 \<or> k + 1 + chunk_number (int (length ?body)) mx \<le> lm" using cnt by linarith
        with IH obtain xs where xs: "send f rid (k + 1) (int (length ?body)) ?body (emit x ch) = (Ok (), fold emit xs (emit x ch))"
          and of_xs: "chunks_of (carries rid) MessageTypeFinal xs ?body" and num: "int (length xs) = chunk_number (int (length ?body)) mx"
          by auto
        have "carries rid MessageTypeChunk x (take ?m body)" using of_x True unfolding mn by simp
        from chunks_of_Cons [OF this of_xs body(3,4)] have "chunks_of (carries rid) MessageTypeFinal (x # xs) body" .
        moreover have "send (Suc f) rid k ?n body ch = (Ok (), fold emit (x # xs) ch)" unfolding step' xs by simp
        moreover have "int (length (x # xs)) = cnt" using num cnt by simp
        ultimately show ?thesis unfolding if_P [OF ok] by blast
      next
        case False
        then have "\<not> (lm = 0 \<or> k + 1 + chunk_number (int (length ?body)) mx \<le> lm)" using cnt by linarith
        with IH False show ?thesis unfolding step' by auto
      qed
    qed
  qed
qed

end

definition server_emit :: "bytes \<Rightarrow> ('priv, 'pub) ServerChannel \<Rightarrow> ('priv, 'pub) ServerChannel" where
  "server_emit x ch = ch\<lparr>ch_sequenceNumber := next_number (ch_sequenceNumber ch), ch_out := ch_out ch @ [x]\<rparr>"

definition client_emit :: "('priv, 'pub) crypto \<Rightarrow> bytes \<Rightarrow> ('priv, 'pub) ClientChannel \<Rightarrow> ('priv, 'pub) ClientChannel" where
  "client_emit c x ch = (client_sending_token c ch)
     \<lparr>ch_sequenceNumber := next_number (ch_sequenceNumber ch), ch_out := ch_out ch @ [x]\<rparr>"

definition server_ready :: "('priv, 'pub) crypto \<Rightarrow> direction \<Rightarrow> int \<Rightarrow> u32 \<Rightarrow> ('priv, 'pub) ServerChannel \<Rightarrow> bool" where
  "server_ready c d mx lm ch \<longleftrightarrow> crypto_ok c \<and> writes d ch
   \<and> mx = max_body (d_mode d) (d_policy d) (ch_sendBufferSize ch) \<and> lm = ch_maxResponseChunkCount ch"

definition client_ready :: "('priv, 'pub) crypto \<Rightarrow> direction \<Rightarrow> int \<Rightarrow> u32 \<Rightarrow> ('priv, 'pub) ClientChannel \<Rightarrow> bool" where
  "client_ready c d mx lm ch \<longleftrightarrow> crypto_ok c \<and> writes d (client_sending_token c ch)
   \<and> mx = max_body (d_mode d) (d_policy d) (ch_sendBufferSize ch) \<and> lm = ch_maxRequestChunkCount ch
   \<and> unat (ch_sendBufferSize ch) \<le> cc_poolSize ch"

lemma client_chunk_of:
  assumes "client_ready c d mx lm ch" and "0 < n" and "n = int (length body)"
  shows "\<exists>x. client_chunk c mt rid n body ch
       = (Ok (x, min n mx), (client_sending_token c ch)\<lparr>ch_sequenceNumber := next_number (ch_sequenceNumber ch)\<rparr>)
     \<and> chunk_of c d rid mt x (take (nat (min n mx)) body)" and "cp_bodySize (client_plan ch n) = min n mx"
proof -
  let ?pl = "plan_chunk (d_mode d) (d_policy d) (ch_sendBufferSize ch) n"
  have w: "ch_securityMode ch = d_mode d" "ch_securityPolicy ch = d_policy d" "ch_channelID ch = d_channelID d"
    "ch_tokenID ch = d_tokenID d" "sender_keys (client_sending_token c ch) (d_hash d) (d_key d) (d_iv d)"
    "unat (ch_sendBufferSize ch) \<le> d_size d" "0 < mx" "mx = max_body (d_mode d) (d_policy d) (ch_sendBufferSize ch)"
    "unat (ch_sendBufferSize ch) \<le> cc_poolSize ch" "crypto_ok c"
    using assms(1) by (simp_all add: client_ready_def writes_def)
  have size: "cp_bodySize ?pl = min n mx"
    using plan_facts(1) [OF assms(2) _ refl, of "d_mode d" "d_policy d" "ch_sendBufferSize ch"] w(7,8) by simp
  then show "cp_bodySize (client_plan ch n) = min n mx" by (simp add: client_plan_def w)
  have "keys_ok (d_mode d) (d_policy d) (d_hash d) (d_key d) (d_iv d)" using w by (simp add: sender_keys_def)
  from plan_chunk_of [OF w(10) this assms(2,3) _ refl w(6)] w(7,8)
  have "chunk_of c d rid mt (seal c (d_mode d) (d_hash d) (d_key d) (d_iv d)
      (chunk_text mt (word_of_int (cp_chunkSize ?pl)) (d_channelID d) (d_tokenID d) sn rid
        (take (nat (min n mx)) body) (plan_padding (d_mode d) ?pl))) (take (nat (min n mx)) body)" for sn
    unfolding size by blast
  moreover from client_chunk_wire [OF w(10,5) assms(2,3) _ refl refl w(9) refl, of mt rid] w
  have "client_chunk c mt rid n body ch = (Ok (seal c (d_mode d) (d_hash d) (d_key d) (d_iv d)
      (chunk_text mt (word_of_int (cp_chunkSize ?pl))
        (d_channelID d) (d_tokenID d) (next_number (ch_sequenceNumber ch)) rid
        (take (nat (min n mx)) body) (plan_padding (d_mode d) ?pl)), min n mx),
      (client_sending_token c ch)\<lparr>ch_sequenceNumber := next_number (ch_sequenceNumber ch)\<rparr>)"
    unfolding w(1-4) size by simp
  ultimately show "\<exists>x. client_chunk c mt rid n body ch
       = (Ok (x, min n mx), (client_sending_token c ch)\<lparr>ch_sequenceNumber := next_number (ch_sequenceNumber ch)\<rparr>)
     \<and> chunk_of c d rid mt x (take (nat (min n mx)) body)" by blast
qed

interpretation server_writer: chunk_writer "server_send c" server_emit "server_ready c d mx lm" "chunk_of c d"
  "Status BadResponseTooLarge" mx "int (unat lm)"
  for c d mx lm
proof
  fix ch :: "('a, 'b) ServerChannel" and n k :: int and body :: bytes and f :: nat and rid :: u32 and x :: bytes
  show "0 < mx" if "server_ready c d mx lm ch" using that by (simp add: server_ready_def writes_def)
  show "0 \<le> int (unat lm)" by simp
  show "server_ready c d mx lm (server_emit x ch)" if "server_ready c d mx lm ch"
    using that by (simp add: server_ready_def server_emit_def)
  show "server_send c f rid k 0 body ch = (Ok (), ch)" by (simp add: server_send.simps)
  show "server_send c (Suc f) rid k n body ch = (Err (Status BadResponseTooLarge), ch)"
    if "server_ready c d mx lm ch" "0 < n" "0 < int (unat lm)" "int (unat lm) < k + 1"
    using that by (simp add: server_send.simps [of c "Suc f"] server_ready_def)
  show "\<exists>x. server_send c (Suc f) rid k n body ch
           = server_send c f rid (k + 1) (n - min n mx) (drop (nat (min n mx)) body) (server_emit x ch)
         \<and> chunk_of c d rid (if mx < n then MessageTypeChunk else MessageTypeFinal) x (take (nat (min n mx)) body)"
    if r: "server_ready c d mx lm ch" and b: "body \<noteq> []" and n: "n = int (length body)"
      and l: "\<not> (0 < int (unat lm) \<and> int (unat lm) < k + 1)"
  proof -
    have ok: "crypto_ok c" "writes d ch" "mx = max_body (d_mode d) (d_policy d) (ch_sendBufferSize ch)"
      "lm = ch_maxResponseChunkCount ch" and conn: "ch_connected ch"
      using r by (simp_all add: server_ready_def writes_def)
    have pos: "0 < n" using b n by simp
    from server_chunk_of [OF ok(1,2) pos n ok(3), of rid]
    obtain x where x: "server_chunk c rid n body ch
        = (Ok (x, min n mx), ch\<lparr>ch_sequenceNumber := next_number (ch_sequenceNumber ch)\<rparr>)"
      and "chunk_of c d rid (if mx < n then MessageTypeChunk else MessageTypeFinal) x (take (nat (min n mx)) body)" by blast
    moreover have "server_send c (Suc f) rid k n body ch
           = server_send c f rid (k + 1) (n - min n mx) (drop (nat (min n mx)) body) (server_emit x ch)"
      unfolding server_send.simps [of c "Suc f" rid k n body ch] using pos l ok(4) conn
      by (auto simp: Let_def x bnd_def andthen_def chan_write_def server_emit_def)
    ultimately show ?thesis by blast
  qed
qed

interpretation client_writer: chunk_writer "client_send c" "client_emit c" "client_ready c d mx lm" "chunk_of c d"
  "Status BadRequestTooLarge" mx "int (unat lm)"
  for c d mx lm
proof
  fix ch :: "('a, 'b) ClientChannel" and n k :: int and body :: bytes and f :: nat and rid :: u32 and x :: bytes
  show "0 < mx" if "client_ready c d mx lm ch" using that by (simp add: client_ready_def writes_def)
  show "0 \<le> int (unat lm)" by simp
  have "client_sending_token c (client_emit c x ch)
      = (client_sending_token c ch)\<lparr>ch_sequenceNumber := next_number (ch_sequenceNumber ch), ch_out := ch_out ch @ [x]\<rparr>"
    by (simp add: client_emit_def client_sending_token_def Let_def)
  then show "client_ready c d mx lm (client_emit c x ch)" if "client_ready c d mx lm ch"
    using that by (simp add: client_ready_def) (simp add: client_emit_def)
  show "client_send c f rid k 0 body ch = (Ok (), ch)" by (simp add: client_send.simps)
  show "client_send c (Suc f) rid k n body ch = (Err (Status BadRequestTooLarge), ch)"
    if "client_ready c d mx lm ch" "0 < n" "0 < int (unat lm)" "int (unat lm) < k + 1"
    using that by (simp add: client_send.simps [of c "Suc f"] client_ready_def)
  show "\<exists>x. client_send c (Suc f) rid k n body ch
           = client_send c f rid (k + 1) (n - min n mx) (drop (nat (min n mx)) body) (client_emit c x ch)
         \<and> chunk_of c d rid (if mx < n then MessageTypeChunk else MessageTypeFinal) x (take (nat (min n mx)) body)"
    if r: "client_ready c d mx lm ch" and b: "body \<noteq> []" and n: "n = int (length body)"
      and l: "\<not> (0 < int (unat lm) \<and> int (unat lm) < k + 1)"
  proof -
    let ?mt = "if mx < n then MessageTypeChunk else MessageTypeFinal"
    have pos: "0 < n" using b n by simp
    have ok: "lm = ch_maxRequestChunkCount ch" and conn: "ch_connected ch"
      using r by (simp_all add: client_ready_def writes_def)
    have lt: "(n > cp_bodySize (client_plan ch n)) = (mx < n)"
      unfolding client_chunk_of(2) [OF r pos n] by auto
    from client_chunk_of(1) [OF r pos n, of ?mt rid]
    obtain x where x: "client_chunk c ?mt rid n body ch
        = (Ok (x, min n mx), (client_sending_token c ch)\<lparr>ch_sequenceNumber := next_number (ch_sequenceNumber ch)\<rparr>)"
      and "chunk_of c d rid ?mt x (take (nat (min n mx)) body)" by blast
    moreover have "client_send c (Suc f) rid k n body ch
           = client_send c f rid (k + 1) (n - min n mx) (drop (nat (min n mx)) body) (client_emit c x ch)"
      unfolding client_send.simps [of c "Suc f" rid k n body ch] lt using pos l ok conn
      by (auto simp: Let_def x bnd_def andthen_def chan_write_def client_emit_def)
    ultimately show ?thesis by blast
  qed
qed

section \<open>Reading from the connection\<close>

text \<open>The segments the transport delivers: none is empty.\<close>

definition stream_of :: "bytes list \<Rightarrow> bytes \<Rightarrow> bool" where
  "stream_of segs bs \<longleftrightarrow> [] \<notin> set segs \<and> concat segs = bs"

lemma conn_fill_stream:
  assumes "stream_of segs bs" and "length acc \<le> count" and "count \<le> length acc + length bs"
  shows "\<exists>segs'. conn_fill count acc segs = (acc @ take (count - length acc) bs, Filled, segs')
     \<and> stream_of segs' (drop (count - length acc) bs)"
  using assms
proof (induction count acc segs arbitrary: bs rule: conn_fill.induct)
  case (1 count acc)
  then show ?case by (simp add: stream_of_def)
next
  case (2 count acc s ss)
  let ?k = "count - length acc"
  have s: "s \<noteq> []" and ss: "stream_of ss (concat ss)" and bs: "bs = s @ concat ss"
    using "2.prems"(1) by (auto simp: stream_of_def)
  consider (full) "length acc = count" | (more) "length acc < count" "length s \<le> ?k" | (cut) "length acc < count" "?k < length s"
    using "2.prems"(2) by linarith
  then show ?case
  proof cases
    case full
    with "2.prems"(1) show ?thesis by (simp add: stream_of_def)
  next
    case more
    have "length (acc @ s) \<le> count" "count \<le> length (acc @ s) + length (concat ss)"
      using more "2.prems"(3) bs by simp_all
    from "2.IH" [OF more(1) s refl more(2) ss this] more s bs show ?thesis by (simp add: Let_def)
  next
    case cut
    then have "stream_of (drop ?k s # ss) (drop ?k bs)"
      using "2.prems"(1) bs by (auto simp: stream_of_def)
    with cut s bs show ?thesis by (simp add: Let_def)
  qed
qed

text \<open>
  A chunk that fits the buffer and whose header gives its length is read whole, however
  the transport cuts it, and what follows it stays in the connection.
\<close>

lemma conn_read_chunk:
  assumes "stream_of segs (x @ rest)" and "8 \<le> length x" and "length x \<le> cap"
    and "unat (le_word (take 4 (drop 4 x)) :: u32) = length x"
  shows "\<exists>segs'. conn_read cap segs = (Ok (x, None), segs') \<and> stream_of segs' rest"
proof -
  from conn_fill_stream [OF assms(1), of "[]" 8] assms(2)
  obtain s1 where s1: "conn_fill 8 [] segs = (take 8 x, Filled, s1)" and st1: "stream_of s1 (drop 8 x @ rest)" by auto
  from conn_fill_stream [OF st1, of "take 8 x" "length x"] assms(2)
  obtain s2 where s2: "conn_fill (length x) (take 8 x) s1 = (take 8 x @ drop 8 x, Filled, s2)" and st2: "stream_of s2 rest"
    by auto
  have "take 4 (drop 4 (take 8 x)) = take 4 (drop 4 x)" by (simp add: drop_take)
  with s1 s2 st2 assms show ?thesis by (simp add: conn_read_def)
qed

section \<open>What the readers recover\<close>

lemma unseal_decrypt:
  assumes "crypto_ok c" and r: "receiver_keys ch h key iv" and "16 \<le> length msg"
    and md: "md = ch_securityMode ch"
    and blk: "md = MessageSecurityModeSignAndEncrypt \<Longrightarrow> (length msg + SymSignatureSize (ch_securityPolicy ch) - 16) mod aes_BlockSize = 0"
  shows "sym_decrypt c ch (seal c md h key iv msg) = Ok (msg @ (if mode_signs md then hash_sum c h msg else []))"
proof (cases "md = MessageSecurityModeSignAndEncrypt")
  case True
  let ?sg = "hash_sum c h msg" and ?x = "drop 16 (msg @ hash_sum c h msg)"
  have kok: "keys_ok md (ch_securityPolicy ch) h key iv" using r md by (simp add: receiver_keys_def)
  then have k: "length key \<in> {16, 24, 32}" "length iv = aes_BlockSize" using True by (simp_all add: keys_ok_def)
  have sg: "length ?sg = SymSignatureSize (ch_securityPolicy ch)" using keys_mac(1) [OF kok assms(1)] True by simp
  have x: "length ?x mod aes_BlockSize = 0" using blk [OF True] sg assms(3) by simp
  note cbc = length_cbc [OF assms(1) k x]
  have cip: "ch_symDecryptingBlockCipher ch = Some key" "ch_remoteInitializationVector ch = iv"
    using r True md by (simp_all add: receiver_keys_def)
  have seal: "seal c md h key iv msg = take 16 msg @ cbc_encrypt (cr_aes_encrypt c key) iv ?x"
    using True assms(3) by (simp add: seal_def Let_def)
  have t: "take 16 (seal c md h key iv msg) = take 16 msg"
    and d: "drop 16 (seal c md h key iv msg) = cbc_encrypt (cr_aes_encrypt c key) iv ?x"
    unfolding seal using assms(3) by simp_all
  have len: "length (seal c md h key iv msg) - 16 = length ?x" unfolding seal using assms(3) cbc(1) by simp
  have dec: "CBC_decrypt c (Some key) iv (cbc_encrypt (cr_aes_encrypt c key) iv ?x) = Ok ?x"
    using k(2) cbc(1,2) x by (simp add: CBC_decrypt_def)
  have "take 16 msg @ ?x = msg @ ?sg" using assms(3) by simp
  moreover have "ch_securityMode ch = MessageSecurityModeSignAndEncrypt" using True md by simp
  ultimately show ?thesis unfolding sym_decrypt_def cip t d len dec using x True by simp
next
  case False
  then show ?thesis using md by (simp add: sym_decrypt_def seal_def Let_def)
qed

lemma unseal_verify:
  assumes "crypto_ok c" and r: "receiver_keys ch h key iv" and md: "md = ch_securityMode ch"
  shows "sym_verify c ch (msg @ (if mode_signs md then hash_sum c h msg else [])) = Ok ()"
proof (cases "mode_signs md")
  case True
  have kok: "keys_ok md (ch_securityPolicy ch) h key iv" using r md by (simp add: receiver_keys_def)
  have "length (hash_sum c h msg) = SymSignatureSize (ch_securityPolicy ch)"
    by (rule keys_mac(1) [OF kok assms(1) True])
  with True r md show ?thesis by (simp add: sym_verify_def receiver_keys_def Let_def)
next
  case False
  then show ?thesis using md by (simp add: sym_verify_def)
qed

lemma sym_body_padded:
  assumes "ch_securityMode ch = MessageSecurityModeSignAndEncrypt"
    and "int (length buf) - int (SymSignatureSize (ch_securityPolicy ch)) - 1 = int start"
    and "unat (le_word (take 1 (drop start buf)) :: u16) = k"
    and "int (length buf) - 16 - 8 - int k - 1 - int (SymSignatureSize (ch_securityPolicy ch)) = int n"
  shows "sym_body ch buf = Ok (take n (drop 24 buf))"
  unfolding sym_body_def Let_def
  by (simp only: assms(1) block_not_large if_True if_False simp_thms of_nat_1 assms(2) nat_int assms(3,4) of_nat_less_0_iff)

lemma sym_body_bare:
  assumes "ch_securityMode ch \<noteq> MessageSecurityModeSignAndEncrypt"
    and "int (length buf) - 16 - 8 - int (SymSignatureSize (ch_securityPolicy ch)) = int n"
  shows "sym_body ch buf = Ok (take n (drop 24 buf))"
  unfolding sym_body_def Let_def using assms(1) by (simp add: assms(2) [simplified])

lemma unseal_body:
  assumes sg: "length sg = SymSignatureSize (ch_securityPolicy ch)"
    and pad: "padding_ok (ch_securityMode ch) pad" and msg: "msg = chunk_text mt sz chan tok sn rid part pad"
  shows "sym_body ch (msg @ sg) = Ok part"
proof -
  have part: "take (length part) (drop 24 (msg @ sg)) = part" by (simp add: msg chunk_text_def)
  have len: "length (msg @ sg) = 24 + length part + length pad + SymSignatureSize (ch_securityPolicy ch)"
    by (simp add: msg length_chunk_text sg)
  show ?thesis
  proof (cases "ch_securityMode ch = MessageSecurityModeSignAndEncrypt")
    case True
    then obtain k where k: "k < 256" "pad = replicate (k + 1) (word_of_nat k)"
      using pad by (auto simp: padding_ok_def)
    let ?start = "24 + length part + k"
    have start: "int (length (msg @ sg)) - int (SymSignatureSize (ch_securityPolicy ch)) - 1 = int ?start"
      unfolding len using k(2) by simp
    have "pad = replicate k (word_of_nat k) @ [word_of_nat k]" by (simp add: k(2) replicate_append_same)
    then have "drop ?start (msg @ sg) = [word_of_nat k] @ sg" by (simp add: msg chunk_text_def)
    then have "take 1 (drop ?start (msg @ sg)) = [word_of_nat k]" by simp
    moreover have "unat (le_word [word_of_nat k :: byte] :: u16) = k"
      using k(1) by (simp add: unsigned_ucast_eq unat_of_nat take_bit_nat_eq_self)
    moreover have "int (length (msg @ sg)) - 16 - 8 - int k - 1 - int (SymSignatureSize (ch_securityPolicy ch)) = int (length part)"
      unfolding len using k(2) by simp
    ultimately show ?thesis using sym_body_padded [OF True start] part by metis
  next
    case False
    then have "pad = []" using pad by (simp add: padding_ok_def)
    then have "int (length (msg @ sg)) - 16 - 8 - int (SymSignatureSize (ch_securityPolicy ch)) = int (length part)"
      unfolding len by simp
    from sym_body_bare [OF False this] part show ?thesis by simp
  qed
qed

lemma unseal_sequence:
  assumes msg: "msg = chunk_text mt sz chan tok sn rid part pad"
  shows "read_sequence (drop 16 (msg @ sg)) = Ok rid"
  by (simp add: read_sequence_def msg chunk_text_def reads_ints bnd_Ok orfail_Ok)

text \<open>A sealed chunk: its plain header, and what a channel with the right keys recovers.\<close>

lemma seal_header:
  assumes "16 \<le> length msg"
  shows "\<exists>zs. seal c md h key iv msg = take 16 msg @ zs"
proof -
  have ex: "\<exists>zs. msg @ z = take 16 msg @ zs" for z by (metis append.assoc append_take_drop_id)
  from ex [of "hash_sum c h msg"] ex [of "[]"] assms show ?thesis by (auto simp: seal_def Let_def)
qed

definition opens :: "direction \<Rightarrow> ('priv, 'pub, 'z) Channel_scheme \<Rightarrow> bool" where
  "opens d ch \<longleftrightarrow> ch_securityMode ch = d_mode d \<and> ch_securityPolicy ch = d_policy d
   \<and> ch_channelID ch = d_channelID d \<and> receiver_keys ch (d_hash d) (d_key d) (d_iv d)"

lemma chunk_of_header:
  assumes "chunk_of c d rid mt x part"
  shows "\<exists>zs (sz :: u32). x = le_bytes 4 mt @ le_bytes 4 sz @ le_bytes 4 (d_channelID d) @ le_bytes 4 (d_tokenID d) @ zs
     \<and> unat sz = length x" and "length x \<le> d_size d"
proof -
  from assms obtain sn sz pad msg where msg: "msg = chunk_text mt sz (d_channelID d) (d_tokenID d) sn rid part pad"
    and x: "x = seal c (d_mode d) (d_hash d) (d_key d) (d_iv d) msg" and sz: "unat sz = length x" and "length x \<le> d_size d"
    unfolding chunk_of_def by blast
  then show "length x \<le> d_size d" by simp
  have "16 \<le> length msg" by (simp add: msg length_chunk_text)
  from seal_header [OF this, of c "d_mode d" "d_hash d" "d_key d" "d_iv d"] obtain zs where "x = take 16 msg @ zs"
    unfolding x by blast
  moreover have "take 16 msg = le_bytes 4 mt @ le_bytes 4 sz @ le_bytes 4 (d_channelID d) @ le_bytes 4 (d_tokenID d)"
    by (simp add: msg chunk_text_def)
  ultimately show "\<exists>zs (sz :: u32). x = le_bytes 4 mt @ le_bytes 4 sz @ le_bytes 4 (d_channelID d) @ le_bytes 4 (d_tokenID d) @ zs
     \<and> unat sz = length x" using sz by auto
qed

lemma chunk_of_open:
  assumes "crypto_ok c" and "chunk_of c d rid mt x part" and o: "opens d ch"
  shows "\<exists>b. sym_decrypt c ch x = Ok b \<and> length b = length x \<and> read_symmetric c ch b = Ok (part, rid)"
proof -
  from assms(2) obtain sn sz pad msg where msg: "msg = chunk_text mt sz (d_channelID d) (d_tokenID d) sn rid part pad"
    and x: "x = seal c (d_mode d) (d_hash d) (d_key d) (d_iv d) msg" and pad: "padding_ok (d_mode d) pad"
    and len: "length x = length msg + SymSignatureSize (d_policy d)"
    and blk': "d_mode d = MessageSecurityModeSignAndEncrypt \<longrightarrow> (length x - 16) mod aes_BlockSize = 0"
    unfolding chunk_of_def by (elim exE conjE)
  have blk: "(length x - 16) mod aes_BlockSize = 0" if "d_mode d = MessageSecurityModeSignAndEncrypt"
    using blk' that by (rule mp)
  have r: "receiver_keys ch (d_hash d) (d_key d) (d_iv d)" and md: "d_mode d = ch_securityMode ch"
    and p: "d_policy d = ch_securityPolicy ch" using o by (simp_all add: opens_def)
  let ?sg = "if mode_signs (d_mode d) then hash_sum c (d_hash d) msg else []"
  have kok: "keys_ok (d_mode d) (d_policy d) (d_hash d) (d_key d) (d_iv d)" using r md p by (simp add: receiver_keys_def)
  have sg: "length ?sg = SymSignatureSize (ch_securityPolicy ch)"
    using keys_mac(1) [OF kok assms(1)] kok p by (auto simp: keys_ok_def)
  have "16 \<le> length msg" by (simp add: msg length_chunk_text)
  moreover have "(length msg + SymSignatureSize (ch_securityPolicy ch) - 16) mod aes_BlockSize = 0"
    if "d_mode d = MessageSecurityModeSignAndEncrypt" using blk [OF that] unfolding len p .
  ultimately have dec: "sym_decrypt c ch x = Ok (msg @ ?sg)"
    unfolding x by (rule unseal_decrypt [OF assms(1) r _ md])
  have body: "sym_body ch (msg @ ?sg) = Ok part" by (rule unseal_body [OF sg _ msg]) (use pad md in simp)
  have "read_symmetric c ch (msg @ ?sg) = Ok (part, rid)"
    unfolding read_symmetric_def unseal_verify [OF assms(1) r md] unseal_sequence [OF msg] body by simp
  moreover have "length (msg @ ?sg) = length x" unfolding len p using sg by simp
  ultimately show ?thesis using dec by blast
qed

section \<open>The readers' loops\<close>

text \<open>The header fields a reader decodes from a chunk.\<close>

lemma header_reads:
  assumes "x = le_bytes 4 mt @ le_bytes 4 sz @ le_bytes 4 chan @ le_bytes 4 tok @ zs"
  shows "ReadUInt32 x = (Ok mt, le_bytes 4 sz @ le_bytes 4 chan @ le_bytes 4 tok @ zs)"
    and "ReadUInt32 (le_bytes 4 sz @ le_bytes 4 chan @ le_bytes 4 tok @ zs) = (Ok sz, le_bytes 4 chan @ le_bytes 4 tok @ zs)"
    and "ReadUInt32 (le_bytes 4 chan @ le_bytes 4 tok @ zs) = (Ok chan, le_bytes 4 tok @ zs)"
    and "ReadUInt32 (le_bytes 4 tok @ zs) = (Ok tok, zs)"
    and "le_word (take 4 (drop 4 x)) = sz" and "16 \<le> length x"
  unfolding assms by (simp_all add: reads_ints le_word_le_bytes)

text \<open>
  A channel ready to read the direction \<open>d\<close>: its receive buffer holds the largest chunk,
  and the token of the chunks gives it the keys of the direction.
\<close>

definition client_reads :: "('priv, 'pub) crypto \<Rightarrow> direction \<Rightarrow> ('priv, 'pub) ClientChannel \<Rightarrow> bool" where
  "client_reads c d ch \<longleftrightarrow> ch_connected ch \<and> 8 \<le> d_size d \<and> d_size d \<le> length (ch_receiveBuffer ch)
   \<and> opens d (client_receiving_token c (d_tokenID d) ch)"

definition server_reads :: "('priv, 'pub) crypto \<Rightarrow> direction \<Rightarrow> ('priv, 'pub) ServerChannel \<Rightarrow> bool" where
  "server_reads c d ch \<longleftrightarrow> ch_connected ch \<and> 8 \<le> d_size d \<and> d_size d \<le> length (ch_receiveBuffer ch)
   \<and> (\<exists>ch1. server_switch_token c (d_tokenID d) ch = (Ok (), ch1) \<and> opens d ch1)"

text \<open>The state \<open>ch1\<close> but for the connection and the receive buffer.\<close>

definition after_io :: "('priv, 'pub, 'z) Channel_scheme \<Rightarrow> ('priv, 'pub, 'z) Channel_scheme \<Rightarrow> bool" where
  "after_io ch1 ch \<longleftrightarrow> (\<exists>i r. ch = ch1\<lparr>ch_in := i, ch_receiveBuffer := r\<rparr>)"

lemma after_ioI: "after_io ch1 (ch1\<lparr>ch_in := i, ch_receiveBuffer := r\<rparr>)"
  "after_io ch1 (ch1\<lparr>ch_in := i, ch_receiveBuffer := r\<rparr>\<lparr>ch_receiveBuffer := r'\<rparr>)"
  by (auto simp: after_io_def)

lemma after_io_refl: "after_io ch1 ch1"
  unfolding after_io_def by (rule exI [of _ "ch_in ch1"], rule exI [of _ "ch_receiveBuffer ch1"]) simp

lemma after_ioE:
  assumes "after_io ch1 ch"
  obtains i r where "ch = ch1\<lparr>ch_in := i, ch_receiveBuffer := r\<rparr>"
  using assms unfolding after_io_def by blast

lemma after_io_trans: "after_io ch0 ch1 \<Longrightarrow> after_io ch1 ch2 \<Longrightarrow> after_io ch0 ch2"
  by (elim after_ioE) (simp add: after_ioI)

lemma ch_read_chunk:
  assumes "ch_connected ch" and "stream_of (ch_in ch) (x @ rest)" and "chunk_of c d rid mt x part"
    and "d_size d \<le> length (ch_receiveBuffer ch)"
  shows "\<exists>segs. ch_read ch = (Ok x, ch\<lparr>ch_in := segs, ch_receiveBuffer := x @ drop (length x) (ch_receiveBuffer ch)\<rparr>)
     \<and> stream_of segs rest"
proof -
  from chunk_of_header(1) [OF assms(3)] obtain zs and sz :: u32 where
    x: "x = le_bytes 4 mt @ le_bytes 4 sz @ le_bytes 4 (d_channelID d) @ le_bytes 4 (d_tokenID d) @ zs" and sz: "unat sz = length x"
    by blast
  from header_reads(6) [OF x] have "8 \<le> length x" by simp
  moreover have "length x \<le> length (ch_receiveBuffer ch)" using chunk_of_header(2) [OF assms(3)] assms(4) by simp
  moreover have "unat (le_word (take 4 (drop 4 x)) :: u32) = length x" unfolding header_reads(5) [OF x] by (rule sz)
  ultimately obtain segs where "conn_read (length (ch_receiveBuffer ch)) (ch_in ch) = (Ok (x, None), segs)" "stream_of segs rest"
    using conn_read_chunk [OF assms(2)] by blast
  with assms(1) show ?thesis by (auto simp: ch_read_def Let_def)
qed

lemma with_stream_Ok [simp]: "m s = (Ok x, s') \<Longrightarrow> with_stream s m ch = (Ok (x, s'), ch)"
  by (simp add: with_stream_def)

lemma decrypt_in_place_Ok:
  "sym_decrypt c ch x = Ok b \<Longrightarrow>
   decrypt_in_place c x ch = (Ok b, ch\<lparr>ch_receiveBuffer := b @ drop (length b) (ch_receiveBuffer ch)\<rparr>)"
  by (simp add: decrypt_in_place_def)

lemma read_symmetric_update [simp]:
  "read_symmetric c (ch\<lparr>ch_receiveBuffer := r\<rparr>) b = read_symmetric c ch b"
  "read_symmetric c (ch\<lparr>ch_in := i\<rparr>) b = read_symmetric c ch b"
  by (simp_all add: read_symmetric_def sym_verify_def sym_body_def cong: if_cong option.case_cong)

lemma sym_decrypt_update [simp]:
  "sym_decrypt c (ch\<lparr>ch_receiveBuffer := r\<rparr>) b = sym_decrypt c ch b"
  "sym_decrypt c (ch\<lparr>ch_in := i\<rparr>) b = sym_decrypt c ch b"
  by (simp_all add: sym_decrypt_def cong: if_cong)

lemma opens_update [simp]:
  "opens d (ch\<lparr>ch_in := i\<rparr>) = opens d ch" "opens d (ch\<lparr>ch_receiveBuffer := r\<rparr>) = opens d ch"
  by (simp_all add: opens_def receiver_keys_def)

lemma client_receiving_token_update [simp]:
  "client_receiving_token c tok (ch\<lparr>ch_in := i\<rparr>) = (client_receiving_token c tok ch)\<lparr>ch_in := i\<rparr>"
  "client_receiving_token c tok (ch\<lparr>ch_receiveBuffer := r\<rparr>) = (client_receiving_token c tok ch)\<lparr>ch_receiveBuffer := r\<rparr>"
  "ch_receiveBuffer (client_receiving_token c tok ch) = ch_receiveBuffer ch"
  "ch_in (client_receiving_token c tok ch) = ch_in ch"
  "ch_connected (client_receiving_token c tok ch) = ch_connected ch"
  "ch_channelID (client_receiving_token c tok ch) = ch_channelID ch"
  "ch_maxResponseChunkCount (client_receiving_token c tok ch) = ch_maxResponseChunkCount ch"
  "ch_maxResponseMessageSize (client_receiving_token c tok ch) = ch_maxResponseMessageSize ch"
  "client_receiving_token c tok (client_receiving_token c tok ch) = client_receiving_token c tok ch"
  by (simp_all add: client_receiving_token_def Let_def)

lemma message_types_distinct [simp]:
  "MessageTypeFinal \<noteq> MessageTypeChunk" "MessageTypeChunk \<noteq> MessageTypeFinal"
  "MessageTypeCloseFinal \<noteq> MessageTypeChunk" "MessageTypeCloseFinal \<noteq> MessageTypeFinal"
  "MessageTypeChunk \<noteq> MessageTypeCloseFinal" "MessageTypeFinal \<noteq> MessageTypeCloseFinal"
  by (simp_all add: message_types)

lemma client_read_chunk_ok:
  assumes "crypto_ok c" and "client_reads c d ch" and "stream_of (ch_in ch) (x @ rest)"
    and x: "chunk_of c d rid mt x part" and mt: "mt = MessageTypeChunk \<or> mt = MessageTypeFinal"
  shows "\<exists>ch'. client_read_chunk c ch = (Ok (part, mt = MessageTypeFinal), ch') \<and> client_reads c d ch'
     \<and> stream_of (ch_in ch') rest \<and> after_io (client_receiving_token c (d_tokenID d) ch) ch'"
proof -
  let ?tok = "d_tokenID d"
  let ?ch1 = "client_receiving_token c ?tok ch"
  have conn: "ch_connected ch" and cap: "8 \<le> d_size d" "d_size d \<le> length (ch_receiveBuffer ch)" and op: "opens d ?ch1"
    using assms(2) by (simp_all add: client_reads_def)
  from ch_read_chunk [OF conn assms(3) x cap(2)] obtain segs where
    rd: "ch_read ch = (Ok x, ch\<lparr>ch_in := segs, ch_receiveBuffer := x @ drop (length x) (ch_receiveBuffer ch)\<rparr>)"
    and st: "stream_of segs rest" by blast
  from chunk_of_header(1) [OF x] obtain zs and sz :: u32 where
    hd: "x = le_bytes 4 mt @ le_bytes 4 sz @ le_bytes 4 (d_channelID d) @ le_bytes 4 ?tok @ zs" and sz: "unat sz = length x"
    by blast
  note hr = header_reads [OF hd]
  let ?rb = "x @ drop (length x) (ch_receiveBuffer ch)"
  let ?ch2 = "?ch1\<lparr>ch_in := segs, ch_receiveBuffer := ?rb\<rparr>"
  have "opens d ?ch2" using op by simp
  from chunk_of_open [OF assms(1) x this] obtain b where dec: "sym_decrypt c ?ch2 x = Ok b" and lb: "length b = length x"
    and sym: "read_symmetric c ?ch2 b = Ok (part, rid)" by blast
  let ?ch3 = "?ch2\<lparr>ch_receiveBuffer := b @ drop (length b) ?rb\<rparr>"
  have sym3: "read_symmetric c ?ch3 b = Ok (part, rid)"
    using sym by simp
  have chan: "ch_channelID ch = d_channelID d" using op by (simp add: opens_def)
  have ne: "x \<noteq> []" using hr(6) by auto
  have lx: "length x \<le> length (ch_receiveBuffer ch)" using chunk_of_header(2) [OF x] cap(2) by simp
  have "client_read_chunk c ch = (Ok (part, mt = MessageTypeFinal), ?ch3)"
    using ne mt sz chan sym3
    by (simp add: client_read_chunk_def bnd_def orfail_def rd hr(1-4) with_stream_def andthen_def
        decrypt_in_place_Ok [OF dec]) 
  moreover have "client_reads c d ?ch3" using conn cap op lb lx by (simp add: client_reads_def)
  ultimately show ?thesis using st after_ioI(2) by (intro exI [of _ ?ch3] conjI) simp_all
qed

text \<open>
  Installing keys neither looks at the connection and the receive buffer nor changes them;
  after a switch the token is the channel's own.
\<close>

lemma install_remote_keys_io:
  "install_remote_keys c (ch\<lparr>ch_in := i, ch_receiveBuffer := r\<rparr>)
     = (fst (install_remote_keys c ch), (snd (install_remote_keys c ch))\<lparr>ch_in := i, ch_receiveBuffer := r\<rparr>)"
  by (simp add: install_remote_keys_def Let_def split: option.splits)

lemma install_local_keys_io:
  "install_local_keys c (ch\<lparr>ch_in := i, ch_receiveBuffer := r\<rparr>)
     = (fst (install_local_keys c ch), (snd (install_local_keys c ch))\<lparr>ch_in := i, ch_receiveBuffer := r\<rparr>)"
  by (simp add: install_local_keys_def Let_def split: option.splits)

definition same_io :: "('priv, 'pub) ServerChannel \<Rightarrow> ('priv, 'pub) ServerChannel \<Rightarrow> bool" where
  "same_io ch ch' \<longleftrightarrow> ch_connected ch' = ch_connected ch \<and> ch_receiveBuffer ch' = ch_receiveBuffer ch \<and> ch_in ch' = ch_in ch
    \<and> ch_channelID ch' = ch_channelID ch \<and> ch_maxRequestChunkCount ch' = ch_maxRequestChunkCount ch
    \<and> ch_maxRequestMessageSize ch' = ch_maxRequestMessageSize ch \<and> ch_maxResponseChunkCount ch' = ch_maxResponseChunkCount ch
    \<and> ch_maxResponseMessageSize ch' = ch_maxResponseMessageSize ch \<and> ch_securityMode ch' = ch_securityMode ch
    \<and> ch_securityPolicy ch' = ch_securityPolicy ch \<and> ch_sendBufferSize ch' = ch_sendBufferSize ch"

lemma install_frame:
  "same_io ch (snd (install_remote_keys c ch)) \<and> ch_tokenID (snd (install_remote_keys c ch)) = ch_tokenID ch"
  "same_io ch (snd (install_local_keys c ch)) \<and> ch_tokenID (snd (install_local_keys c ch)) = ch_tokenID ch"
  by (simp_all add: same_io_def install_remote_keys_def install_local_keys_def Let_def split: option.split)

lemma install_both:
  assumes "andthen (install_remote_keys c) (install_local_keys c) ch = (Ok (), ch1)"
  obtains ch0 where "install_remote_keys c ch = (Ok (), ch0)" and "install_local_keys c ch0 = (Ok (), ch1)"
  using assms by (auto simp: andthen_def bnd_def split: prod.splits res.splits)

lemma server_switch_token_cases:
  assumes "server_switch_token c tok ch = (Ok (), ch1)"
  obtains (same) "ch_tokenID ch = tok" "ch1 = ch"
  | (plain) "ch_tokenID ch \<noteq> tok" "tok = sc_pendingTokenID ch" "\<not> mode_signs (ch_securityMode ch)"
      "ch1 = ch\<lparr>ch_tokenID := tok, sc_tokenExpiration := sc_pendingTokenExpiration ch\<rparr>"
  | (keys) ch0 where "ch_tokenID ch \<noteq> tok" "tok = sc_pendingTokenID ch" "mode_signs (ch_securityMode ch)"
      "install_remote_keys c (ch\<lparr>ch_tokenID := tok, sc_tokenExpiration := sc_pendingTokenExpiration ch\<rparr>) = (Ok (), ch0)"
      "install_local_keys c ch0 = (Ok (), ch1)"
  using assms by (auto simp: server_switch_token_def Let_def split: if_splits elim: install_both)

lemma server_switch_token_frame:
  assumes "server_switch_token c tok ch = (Ok (), ch1)"
  shows "same_io ch ch1" and "ch_tokenID ch1 = tok"
proof -
  have "same_io ch ch1 \<and> ch_tokenID ch1 = tok"
    using assms
  proof (cases rule: server_switch_token_cases)
    case (keys ch0)
    let ?ch = "ch\<lparr>ch_tokenID := tok, sc_tokenExpiration := sc_pendingTokenExpiration ch\<rparr>"
    have "ch0 = snd (install_remote_keys c ?ch)" "ch1 = snd (install_local_keys c ch0)" using keys(4,5) by simp_all
    then show ?thesis using install_frame(1) [of ?ch c] install_frame(2) [of ch0 c] by (simp add: same_io_def)
  qed (simp_all add: same_io_def)
  then show "same_io ch ch1" "ch_tokenID ch1 = tok" by simp_all
qed

lemma server_switch_token_again:
  assumes "server_switch_token c tok ch = (Ok (), ch1)"
  shows "server_switch_token c tok (ch1\<lparr>ch_in := i, ch_receiveBuffer := r\<rparr>) = (Ok (), ch1\<lparr>ch_in := i, ch_receiveBuffer := r\<rparr>)"
  using server_switch_token_frame(2) [OF assms] by (simp add: server_switch_token_def)

lemma server_switch_token_io:
  assumes "server_switch_token c tok ch = (Ok (), ch1)"
  shows "server_switch_token c tok (ch\<lparr>ch_in := i, ch_receiveBuffer := r\<rparr>) = (Ok (), ch1\<lparr>ch_in := i, ch_receiveBuffer := r\<rparr>)"
  using assms
proof (cases rule: server_switch_token_cases)
  case (keys ch0)
  let ?ch = "ch\<lparr>ch_tokenID := tok, sc_tokenExpiration := sc_pendingTokenExpiration ch\<rparr>"
  let ?chi = "ch\<lparr>ch_in := i, ch_receiveBuffer := r, ch_tokenID := tok, sc_tokenExpiration := sc_pendingTokenExpiration ch\<rparr>"
  have e: "?chi = ?ch\<lparr>ch_in := i, ch_receiveBuffer := r\<rparr>" by (cases ch) simp
  have r: "install_remote_keys c ?chi = (Ok (), ch0\<lparr>ch_in := i, ch_receiveBuffer := r\<rparr>)"
    unfolding e using keys(4) by (subst install_remote_keys_io) simp
  have l: "install_local_keys c (ch0\<lparr>ch_in := i, ch_receiveBuffer := r\<rparr>) = (Ok (), ch1\<lparr>ch_in := i, ch_receiveBuffer := r\<rparr>)"
    using keys(5) by (subst install_local_keys_io) simp
  show ?thesis using keys(1-3) r l by (simp add: server_switch_token_def andthen_def bnd_def Let_def)
qed (simp_all add: server_switch_token_def)

lemma server_read_chunk_ok:
  assumes "crypto_ok c" and "server_reads c d ch" and "stream_of (ch_in ch) (x @ rest)"
    and sw: "server_switch_token c (d_tokenID d) ch = (Ok (), ch1)"
    and x: "chunk_of c d rid mt x part" and mt: "mt \<in> {MessageTypeChunk, MessageTypeFinal, MessageTypeCloseFinal}"
  shows "\<exists>ch'. server_read_chunk c ch = (Ok (part, rid, mt \<noteq> MessageTypeChunk), ch') \<and> server_reads c d ch'
     \<and> stream_of (ch_in ch') rest \<and> after_io ch1 ch'"
proof -
  let ?tok = "d_tokenID d"
  have op: "opens d ch1" using assms(2) sw by (auto simp: server_reads_def)
  have conn: "ch_connected ch" and cap: "8 \<le> d_size d" "d_size d \<le> length (ch_receiveBuffer ch)"
    using assms(2) by (simp_all add: server_reads_def)
  from ch_read_chunk [OF conn assms(3) x cap(2)] obtain segs where
    rd: "ch_read ch = (Ok x, ch\<lparr>ch_in := segs, ch_receiveBuffer := x @ drop (length x) (ch_receiveBuffer ch)\<rparr>)"
    and st: "stream_of segs rest" by blast
  from chunk_of_header(1) [OF x] obtain zs and sz :: u32 where
    hd: "x = le_bytes 4 mt @ le_bytes 4 sz @ le_bytes 4 (d_channelID d) @ le_bytes 4 ?tok @ zs" and sz: "unat sz = length x"
    by blast
  note hr = header_reads [OF hd]
  let ?rb = "x @ drop (length x) (ch_receiveBuffer ch)"
  let ?ch2 = "ch1\<lparr>ch_in := segs, ch_receiveBuffer := ?rb\<rparr>"
  note sw2 = server_switch_token_io [OF sw, where i = segs and r = ?rb]
  have "opens d ?ch2" using op by simp
  from chunk_of_open [OF assms(1) x this] obtain b where dec: "sym_decrypt c ?ch2 x = Ok b" and lb: "length b = length x"
    and sym: "read_symmetric c ?ch2 b = Ok (part, rid)" by blast
  let ?ch3 = "?ch2\<lparr>ch_receiveBuffer := b @ drop (length b) ?rb\<rparr>"
  have sym3: "read_symmetric c ?ch3 b = Ok (part, rid)" using sym by simp
  have chan: "ch_channelID ch = d_channelID d" using op server_switch_token_frame(1) [OF sw] by (simp add: opens_def same_io_def)
  have ne: "x \<noteq> []" using hr(6) by auto
  have lx: "length x \<le> length (ch_receiveBuffer ch)" using chunk_of_header(2) [OF x] cap(2) by simp
  have "server_read_chunk c ch = (Ok (part, rid, mt \<noteq> MessageTypeChunk), ?ch3)"
    using ne mt sz chan sym3
    by (simp add: server_read_chunk_def bnd_def orfail_def rd hr(1-4) with_stream_def andthen_def sw2
        decrypt_in_place_Ok [OF dec])
  moreover have "server_reads c d ?ch3"
    using conn cap op lb lx server_switch_token_frame [OF sw]
      server_switch_token_again [OF sw, where i = segs and r = "b @ drop (length b) ?rb"] by (simp add: server_reads_def same_io_def)
  ultimately show ?thesis using st after_ioI(2) by (intro exI [of _ ?ch3] conjI) simp_all
qed

text \<open>
  What both readers' loops promise of one chunk of the right direction; \<open>k\<close> counts the
  chunks read before it, \<open>climit\<close> and \<open>slimit\<close> limit the number of chunks and the size of
  the body.
\<close>

locale chunk_reader =
  fixes recv :: "nat \<Rightarrow> nat \<Rightarrow> bytes \<Rightarrow> 'ch \<Rightarrow> 'r res \<times> 'ch"
    and ready settled :: "'ch \<Rightarrow> bool"
    and inp :: "'ch \<Rightarrow> bytes list"
    and carries :: "u32 \<Rightarrow> u32 \<Rightarrow> bytes \<Rightarrow> bytes \<Rightarrow> bool"
    and finals :: "u32 set"
    and result :: "bytes \<Rightarrow> u32 \<Rightarrow> 'r"
    and too_large :: goerr
    and climit slimit :: int
  assumes recv_step: "ready ch \<Longrightarrow> stream_of (inp ch) (x @ rest) \<Longrightarrow> carries rid mt x part \<Longrightarrow>
      mt = MessageTypeChunk \<or> mt \<in> finals \<Longrightarrow> k + 1 < 2 ^ 31 \<Longrightarrow>
      \<exists>ch'. ready ch' \<and> settled ch' \<and> stream_of (inp ch') rest \<and>
        recv (Suc f) k acc ch =
          (if 0 < climit \<and> climit < int k + 1 then (Err too_large, ch)
           else if 0 < slimit \<and> slimit < int (length (acc @ part)) then (Err too_large, ch')
           else if mt \<noteq> MessageTypeChunk then (Ok (result (acc @ part) rid), ch')
           else recv f (k + 1) (acc @ part) ch')"
    and finals: "MessageTypeChunk \<notin> finals"
begin

text \<open>Within the limits, the whole body is read and what follows the chunks is left.\<close>

lemma recv_chunks:
  assumes "ready ch" and "chunks_of (carries rid) mt xs body" and "stream_of (inp ch) (concat xs @ rest)" and "mt \<in> finals"
    and "length xs \<le> fuel" and "k + length xs < 2 ^ 31"
    and "climit \<le> 0 \<or> int k + int (length xs) \<le> climit" and "slimit \<le> 0 \<or> int (length (acc @ body)) \<le> slimit"
  shows "\<exists>ch'. recv fuel k acc ch = (Ok (result (acc @ body) rid), ch') \<and> ready ch' \<and> settled ch'
     \<and> stream_of (inp ch') rest"
  using assms(1-3,5-8)
proof (induction xs arbitrary: ch body k acc fuel)
  case Nil
  then show ?case by simp
next
  case (Cons x xs)
  from Cons.prems(4) obtain f where f: "fuel = Suc f" by (cases fuel) auto
  have k: "k + 1 < 2 ^ 31" and lim: "\<not> (0 < climit \<and> climit < int k + 1)" using Cons.prems(5,6) by auto
  show ?case
  proof (cases xs)
    case Nil
    then have c: "carries rid mt x body" and st: "stream_of (inp ch) (x @ rest)" using Cons.prems(2,3) by simp_all
    have mt: "mt = MessageTypeChunk \<or> mt \<in> finals" "mt \<noteq> MessageTypeChunk" using assms(4) finals by auto
    have sl: "\<not> (0 < slimit \<and> slimit < int (length (acc @ body)))" using Cons.prems(7) by auto
    from recv_step [OF Cons.prems(1) st c mt(1) k, of f acc] show ?thesis
      unfolding f if_not_P [OF lim] if_not_P [OF sl] if_P [OF mt(2)] by blast
  next
    case (Cons y ys)
    then obtain n where n: "0 < n" "n < length body" and c: "carries rid MessageTypeChunk x (take n body)"
      and of_xs: "chunks_of (carries rid) mt xs (drop n body)" using Cons.prems(2) by auto
    have st: "stream_of (inp ch) (x @ concat xs @ rest)" using Cons.prems(3) by simp
    have sl: "\<not> (0 < slimit \<and> slimit < int (length (acc @ take n body)))" using Cons.prems(7) n by auto
    from recv_step [OF Cons.prems(1) st c _ k, of f acc] obtain ch' where r: "ready ch'" "stream_of (inp ch') (concat xs @ rest)"
      and step: "recv (Suc f) k acc ch = recv f (k + 1) (acc @ take n body) ch'"
      unfolding if_not_P [OF lim] if_not_P [OF sl] by auto
    have "(acc @ take n body) @ drop n body = acc @ body" by simp
    moreover have "length xs \<le> f" "k + 1 + length xs < 2 ^ 31" using Cons.prems(4,5) f by simp_all
    moreover have "climit \<le> 0 \<or> int (k + 1) + int (length xs) \<le> climit" using Cons.prems(6) by auto
    moreover have "slimit \<le> 0 \<or> int (length ((acc @ take n body) @ drop n body)) \<le> slimit" using Cons.prems(7) by simp
    ultimately show ?thesis unfolding f step using Cons.IH [OF r(1) of_xs r(2), of f "k + 1" "acc @ take n body"] by simp
  qed
qed

end

text \<open>A channel ready to read the direction \<open>d\<close>, in the state \<open>ch1\<close> once it has the keys.\<close>

definition client_receives :: "('priv, 'pub) crypto \<Rightarrow> direction \<Rightarrow> ('priv, 'pub) ClientChannel
    \<Rightarrow> ('priv, 'pub) ClientChannel \<Rightarrow> bool" where
  "client_receives c d ch1 ch \<longleftrightarrow> crypto_ok c \<and> client_reads c d ch \<and> after_io ch1 (client_receiving_token c (d_tokenID d) ch)"

definition server_receives :: "('priv, 'pub) crypto \<Rightarrow> direction \<Rightarrow> ('priv, 'pub) ServerChannel
    \<Rightarrow> ('priv, 'pub) ServerChannel \<Rightarrow> bool" where
  "server_receives c d ch1 ch \<longleftrightarrow> crypto_ok c \<and> server_reads c d ch
   \<and> (\<exists>ch2. server_switch_token c (d_tokenID d) ch = (Ok (), ch2) \<and> after_io ch1 ch2)"

interpretation client_reader: chunk_reader "\<lambda>f k. client_read_loop c f (int k)" "client_receives c d ch1" "after_io ch1" ch_in
  "chunk_of c d" "{MessageTypeFinal}" "\<lambda>body rid. body" "Status BadResponseTooLarge"
  "int (unat (ch_maxResponseChunkCount ch1))" "int (unat (ch_maxResponseMessageSize ch1))"
  for c d ch1
proof
  fix ch :: "('a, 'b) ClientChannel" and x rest part acc :: bytes and rid mt :: u32 and k f :: nat
  assume r: "client_receives c d ch1 ch" and st: "stream_of (ch_in ch) (x @ rest)" and ch: "chunk_of c d rid mt x part"
    and mt: "mt = MessageTypeChunk \<or> mt \<in> {MessageTypeFinal}"
  let ?ct = "int (unat (ch_maxResponseChunkCount ch1))" and ?st = "int (unat (ch_maxResponseMessageSize ch1))"
  have ok: "crypto_ok c" "client_reads c d ch" and io: "after_io ch1 (client_receiving_token c (d_tokenID d) ch)"
    using r by (simp_all add: client_receives_def)
  from client_read_chunk_ok [OF ok st ch] mt obtain ch' where rd: "client_read_chunk c ch = (Ok (part, mt = MessageTypeFinal), ch')"
    and ch': "client_reads c d ch'" "stream_of (ch_in ch') rest" "after_io (client_receiving_token c (d_tokenID d) ch) ch'"
    by auto
  have "after_io (client_receiving_token c (d_tokenID d) ch) (client_receiving_token c (d_tokenID d) ch')"
    using ch'(3) by (elim after_ioE) (simp add: after_ioI)
  then have io': "after_io ch1 ch'" and rec: "client_receives c d ch1 ch'"
    using after_io_trans [OF io] ch' ok by (auto simp: client_receives_def)
  have "ch_maxResponseChunkCount (client_receiving_token c (d_tokenID d) ch) = ch_maxResponseChunkCount ch1"
    using io by (auto simp: after_io_def simp del: client_receiving_token_update)
  then have lims: "ch_maxResponseChunkCount ch = ch_maxResponseChunkCount ch1"
    "ch_maxResponseMessageSize ch' = ch_maxResponseMessageSize ch1" using io' by (simp_all) (auto simp: after_io_def)
  have "client_read_loop c (Suc f) (int k) acc ch =
     (if 0 < ?ct \<and> ?ct < int k + 1 then (Err (Status BadResponseTooLarge), ch)
      else if 0 < ?st \<and> ?st < int (length (acc @ part)) then (Err (Status BadResponseTooLarge), ch')
      else if mt \<noteq> MessageTypeChunk then (Ok (acc @ part), ch')
      else client_read_loop c f (int (k + 1)) (acc @ part) ch')"
    using mt by (auto simp: bnd_def rd lims Let_def add.commute)
  then show "\<exists>ch'. client_receives c d ch1 ch' \<and> after_io ch1 ch' \<and> stream_of (ch_in ch') rest \<and>
     client_read_loop c (Suc f) (int k) acc ch =
     (if 0 < ?ct \<and> ?ct < int k + 1 then (Err (Status BadResponseTooLarge), ch)
      else if 0 < ?st \<and> ?st < int (length (acc @ part)) then (Err (Status BadResponseTooLarge), ch')
      else if mt \<noteq> MessageTypeChunk then (Ok (acc @ part), ch')
      else client_read_loop c f (int (k + 1)) (acc @ part) ch')" using rec io' ch'(2) by blast
next
  show "MessageTypeChunk \<notin> {MessageTypeFinal}" by simp
qed

interpretation server_reader: chunk_reader "\<lambda>f k. server_read_loop c f (word_of_nat k)" "server_receives c d ch1" "after_io ch1"
  ch_in "chunk_of c d" "{MessageTypeFinal, MessageTypeCloseFinal}" "\<lambda>body rid. (body, rid)" "Status BadRequestTooLarge"
  "sint (ch_maxRequestChunkCount ch1)" "int (unat (ch_maxRequestMessageSize ch1))"
  for c d ch1
proof
  fix ch :: "('a, 'b) ServerChannel" and x rest part acc :: bytes and rid mt :: u32 and k f :: nat
  assume r: "server_receives c d ch1 ch" and st: "stream_of (ch_in ch) (x @ rest)" and ch: "chunk_of c d rid mt x part"
    and mt: "mt = MessageTypeChunk \<or> mt \<in> {MessageTypeFinal, MessageTypeCloseFinal}" and k: "k + 1 < 2 ^ 31"
  let ?ct = "sint (ch_maxRequestChunkCount ch1)" and ?st = "int (unat (ch_maxRequestMessageSize ch1))"
  from r obtain ch2 where ok: "crypto_ok c" "server_reads c d ch" and sw: "server_switch_token c (d_tokenID d) ch = (Ok (), ch2)"
    and io: "after_io ch1 ch2" by (auto simp: server_receives_def)
  from server_read_chunk_ok [OF ok st sw ch] mt obtain ch' where rd: "server_read_chunk c ch = (Ok (part, rid, mt \<noteq> MessageTypeChunk), ch')"
    and ch': "server_reads c d ch'" "stream_of (ch_in ch') rest" "after_io ch2 ch'" by auto
  have io': "after_io ch1 ch'" by (rule after_io_trans [OF io ch'(3)])
  have "ch_tokenID ch' = d_tokenID d" using server_switch_token_frame(2) [OF sw] ch'(3) by (auto simp: after_io_def)
  then have rec: "server_receives c d ch1 ch'"
    using io' ch' ok(1) by (auto simp: server_receives_def server_switch_token_def)
  have lims: "ch_maxRequestChunkCount ch = ch_maxRequestChunkCount ch1" "ch_maxRequestMessageSize ch' = ch_maxRequestMessageSize ch1"
    using io io' server_switch_token_frame(1) [OF sw] by (auto simp: after_io_def same_io_def)
  have n: "word_of_nat k + 1 = (word_of_nat (k + 1) :: u32)" by simp
  have sn: "sint (word_of_nat (k + 1) :: u32) = int k + 1"
    using sint_int32_len [of "k + 1"] k by simp
  have "server_read_loop c (Suc f) (word_of_nat k) acc ch =
     (if 0 < ?ct \<and> ?ct < int k + 1 then (Err (Status BadRequestTooLarge), ch)
      else if 0 < ?st \<and> ?st < int (length (acc @ part)) then (Err (Status BadRequestTooLarge), ch')
      else if mt \<noteq> MessageTypeChunk then (Ok (acc @ part, rid), ch')
      else server_read_loop c f (word_of_nat (k + 1)) (acc @ part) ch')"
    unfolding server_read_loop.simps Let_def n sn using mt by (auto simp: bnd_def rd lims Let_def)
  then show "\<exists>ch'. server_receives c d ch1 ch' \<and> after_io ch1 ch' \<and> stream_of (ch_in ch') rest \<and>
     server_read_loop c (Suc f) (word_of_nat k) acc ch =
     (if 0 < ?ct \<and> ?ct < int k + 1 then (Err (Status BadRequestTooLarge), ch)
      else if 0 < ?st \<and> ?st < int (length (acc @ part)) then (Err (Status BadRequestTooLarge), ch')
      else if mt \<noteq> MessageTypeChunk then (Ok (acc @ part, rid), ch')
      else server_read_loop c f (word_of_nat (k + 1)) (acc @ part) ch')" using rec io' ch'(2) by blast
next
  show "MessageTypeChunk \<notin> {MessageTypeFinal, MessageTypeCloseFinal}" by simp
qed

end
