(* ===== verification/Channel_Delivery.thy ===== *)
theory Channel_Delivery
  imports Channel_Roundtrip
begin

text \<open>
  Whole messages between the two ends of a channel: what a client sends the server reads,
  and what the server answers the client reads, for as long as both sides keep what
  \<open>paired\<close> says; the issue of a token establishes it.
\<close>

section \<open>The two ends of a channel\<close>

text \<open>
  Server \<open>s\<close> and client \<open>cl\<close> agree on the direction \<open>d1\<close> of the requests and \<open>d2\<close> of the
  responses: each writes one and reads the other, in the state it has once it took the
  token up, and both have the same limits.
\<close>

definition paired :: "('priv, 'pub) crypto \<Rightarrow> direction \<Rightarrow> direction \<Rightarrow> ('priv, 'pub) ServerChannel
    \<Rightarrow> ('priv, 'pub) ClientChannel \<Rightarrow> bool" where
  "paired c d1 d2 s cl \<longleftrightarrow> crypto_ok c
   \<and> server_reads c d1 s \<and> (\<forall>s1. server_switch_token c (d_tokenID d1) s = (Ok (), s1) \<longrightarrow> writes d2 s1)
   \<and> client_reads c d2 cl \<and> writes d1 (client_sending_token c cl) \<and> unat (ch_sendBufferSize cl) \<le> cc_poolSize cl
   \<and> ch_maxRequestMessageSize cl = ch_maxRequestMessageSize s \<and> ch_maxRequestChunkCount cl = ch_maxRequestChunkCount s
   \<and> ch_maxResponseMessageSize cl = ch_maxResponseMessageSize s \<and> ch_maxResponseChunkCount cl = ch_maxResponseChunkCount s"

text \<open>A limit of zero is no limit.\<close>

definition allows :: "u32 \<Rightarrow> int \<Rightarrow> bool" where
  "allows lm n \<longleftrightarrow> lm = 0 \<or> n \<le> int (unat lm)"

lemma allows_int: "allows lm n \<longleftrightarrow> int (unat lm) = 0 \<or> n \<le> int (unat lm)"
  by (simp add: allows_def uint_0_iff)

lemma allows_sint: "allows lm n \<Longrightarrow> sint lm \<le> 0 \<or> n \<le> sint lm" for lm :: u32
proof -
  assume a: "allows lm n"
  show ?thesis
  proof (cases "sint lm \<le> 0")
    case False
    moreover have "sint lm < 2 ^ 31" using sint_lt [of lm] by simp
    ultimately have "take_bit 32 (sint lm) = sint lm" by (simp add: take_bit_int_eq_self)
    then have "sint lm = int (unat lm)" using uint_sint [of lm] by simp
    with a False show ?thesis by (auto simp: allows_def)
  qed simp
qed

definition request_chunks :: "('priv, 'pub, 'z) Channel_scheme \<Rightarrow> bytes \<Rightarrow> int" where
  "request_chunks ch body =
     chunk_number (int (length body)) (max_body (ch_securityMode ch) (ch_securityPolicy ch) (ch_sendBufferSize ch))"

text \<open>What the size of messages and chunks depends on; a message that fits.\<close>

definition limits :: "('priv, 'pub, 'z) Channel_scheme \<Rightarrow> u32 \<times> SecurityPolicy \<times> u32 \<times> u32 \<times> u32 \<times> u32 \<times> u32" where
  "limits ch = (ch_securityMode ch, ch_securityPolicy ch, ch_sendBufferSize ch, ch_maxRequestMessageSize ch,
     ch_maxRequestChunkCount ch, ch_maxResponseMessageSize ch, ch_maxResponseChunkCount ch)"

definition request_fits :: "('priv, 'pub, 'z) Channel_scheme \<Rightarrow> bytes \<Rightarrow> bool" where
  "request_fits ch q \<longleftrightarrow> q \<noteq> [] \<and> length q < 2 ^ 31 \<and> allows (ch_maxRequestMessageSize ch) (int (length q))
   \<and> allows (ch_maxRequestChunkCount ch) (request_chunks ch q)"

definition response_fits :: "('priv, 'pub, 'z) Channel_scheme \<Rightarrow> bytes \<Rightarrow> bool" where
  "response_fits ch r \<longleftrightarrow> r \<noteq> [] \<and> length r < 2 ^ 31 \<and> allows (ch_maxResponseMessageSize ch) (int (length r))
   \<and> allows (ch_maxResponseChunkCount ch) (request_chunks ch r)"

lemma fits_limits:
  assumes "limits ch = limits ch'"
  shows "request_fits ch q = request_fits ch' q" and "response_fits ch q = response_fits ch' q"
  using assms by (simp_all add: limits_def request_fits_def response_fits_def request_chunks_def)

lemma limits_updates [simp]:
  "limits (ch\<lparr>ch_in := i\<rparr>) = limits ch" "limits (ch\<lparr>ch_receiveBuffer := r\<rparr>) = limits ch"
  "limits (ch\<lparr>ch_out := out\<rparr>) = limits ch" "limits (ch\<lparr>ch_sequenceNumber := n\<rparr>) = limits ch"
  by (simp_all add: limits_def)

lemma limits_tokens [simp]:
  "limits (client_sending_token c cl) = limits cl" "limits (client_receiving_token c tok cl) = limits cl"
  by (simp_all add: limits_def client_sending_token_def client_receiving_token_def Let_def)

lemma client_sending_token_io:
  "client_sending_token c (ch\<lparr>ch_sequenceNumber := n, ch_out := out\<rparr>)
     = (client_sending_token c ch)\<lparr>ch_sequenceNumber := n, ch_out := out\<rparr>"
  by (simp add: client_sending_token_def Let_def)

lemma fold_server_emit:
  "\<exists>sn. fold server_emit xs s = s\<lparr>ch_sequenceNumber := sn, ch_out := ch_out s @ xs\<rparr>"
proof (induction xs arbitrary: s)
  case Nil
  show ?case by (rule exI [of _ "ch_sequenceNumber s"]) simp
next
  case (Cons x xs)
  from Cons.IH [of "server_emit x s"] show ?case by (auto simp: server_emit_def)
qed

lemma fold_client_emit:
  assumes "xs \<noteq> []"
  shows "\<exists>sn. fold (client_emit c) xs cl = (client_sending_token c cl)\<lparr>ch_sequenceNumber := sn, ch_out := ch_out cl @ xs\<rparr>"
  using assms
proof (induction xs arbitrary: cl)
  case (Cons x xs)
  have again: "client_sending_token c (client_emit c x cl) = client_emit c x cl"
    by (simp add: client_emit_def client_sending_token_io)
  have out: "ch_out (client_emit c x cl) = ch_out cl @ [x]" by (simp add: client_emit_def)
  show ?case
  proof (cases "xs = []")
    case True
    then show ?thesis by (auto simp: client_emit_def)
  next
    case False
    from Cons.IH [OF this, of "client_emit c x cl"] obtain sn where
      "fold (client_emit c) xs (client_emit c x cl) = (client_emit c x cl)\<lparr>ch_sequenceNumber := sn, ch_out := ch_out cl @ [x] @ xs\<rparr>"
      unfolding again out by auto
    then have "fold (client_emit c) (x # xs) cl = (client_emit c x cl)\<lparr>ch_sequenceNumber := sn, ch_out := ch_out cl @ [x] @ xs\<rparr>"
      by simp
    then show ?thesis by (intro exI [of _ sn]) (simp add: client_emit_def [of c x cl])
  qed
qed simp

lemma after_io_in: "after_io ch1 (ch1\<lparr>ch_in := i\<rparr>)"
proof -
  have "ch1\<lparr>ch_in := i\<rparr> = ch1\<lparr>ch_in := i, ch_receiveBuffer := ch_receiveBuffer ch1\<rparr>" by simp
  then show ?thesis unfolding after_io_def by blast
qed

section \<open>What keeps both ends paired\<close>

lemma writes_update2 [simp]:
  "writes d (ch\<lparr>ch_in := i\<rparr>) = writes d ch" "writes d (ch\<lparr>ch_receiveBuffer := r\<rparr>) = writes d ch"
  by (simp_all add: writes_def sender_keys_def)

lemma opens_out [simp]: "opens d (ch\<lparr>ch_sequenceNumber := n, ch_out := out\<rparr>) = opens d ch"
  by (simp add: opens_def receiver_keys_def)

text \<open>The client's two sides do not touch each other's keys.\<close>

lemma client_token_sides:
  "opens d (client_receiving_token c tok (client_sending_token c ch)) = opens d (client_receiving_token c tok ch)"
  "writes d (client_sending_token c (client_receiving_token c tok ch)) = writes d (client_sending_token c ch)"
  by (cases "ch_securityMode ch = MessageSecurityModeSignAndEncrypt",
      simp_all add: client_receiving_token_def client_sending_token_def Let_def opens_def writes_def receiver_keys_def
        sender_keys_def)+

lemma client_receiving_token_out:
  "client_receiving_token c tok (ch\<lparr>ch_sequenceNumber := n, ch_out := out\<rparr>)
     = (client_receiving_token c tok ch)\<lparr>ch_sequenceNumber := n, ch_out := out\<rparr>"
  by (simp add: client_receiving_token_def Let_def)

lemma client_reads_sent:
  "client_reads c d ((client_sending_token c ch)\<lparr>ch_sequenceNumber := n, ch_out := out\<rparr>) = client_reads c d ch"
proof -
  have "ch_receiveBuffer (client_sending_token c ch) = ch_receiveBuffer ch" by (simp add: client_sending_token_def Let_def)
  then show ?thesis by (simp add: client_reads_def client_receiving_token_out client_token_sides)
qed

lemma client_writes_read:
  assumes "after_io (client_receiving_token c tok cl) cl'"
  shows "writes d (client_sending_token c cl') = writes d (client_sending_token c cl)"
proof -
  have "client_sending_token c (ch\<lparr>ch_in := i, ch_receiveBuffer := r\<rparr>)
      = (client_sending_token c ch)\<lparr>ch_in := i, ch_receiveBuffer := r\<rparr>" for i r and ch :: "('a, 'b) ClientChannel"
    by (simp add: client_sending_token_def Let_def)
  with assms show ?thesis by (elim after_ioE) (simp add: client_token_sides)
qed

lemma chunks_of_length: "chunks_of P mt xs body \<Longrightarrow> length xs \<le> length body"
proof (induction P mt xs body rule: chunks_of.induct)
  case (2 P mt x body)
  then show ?case by (cases body) auto
next
  case (3 P mt x y xs body)
  then obtain n where "0 < n" "n < length body" "chunks_of P mt (y # xs) (drop n body)" by auto
  with 3(1) [of n] show ?case by auto
qed simp

text \<open>The server's side, with the segments \<open>segs\<close> on the connection.\<close>

lemma server_reads_in:
  assumes "server_reads c d s"
  obtains s1 where "server_switch_token c (d_tokenID d) s = (Ok (), s1)"
    and "server_switch_token c (d_tokenID d) (s\<lparr>ch_in := i\<rparr>) = (Ok (), s1\<lparr>ch_in := i\<rparr>)"
    and "server_reads c d (s\<lparr>ch_in := i\<rparr>)"
proof -
  from assms obtain s1 where sw: "server_switch_token c (d_tokenID d) s = (Ok (), s1)" and "opens d s1"
    by (auto simp: server_reads_def)
  have rb: "ch_receiveBuffer s1 = ch_receiveBuffer s" using server_switch_token_frame(1) [OF sw] by (simp add: same_io_def)
  have s1: "s1\<lparr>ch_in := i, ch_receiveBuffer := ch_receiveBuffer s\<rparr> = s1\<lparr>ch_in := i\<rparr>" unfolding rb [symmetric] by simp
  have s: "s\<lparr>ch_in := i, ch_receiveBuffer := ch_receiveBuffer s\<rparr> = s\<lparr>ch_in := i\<rparr>" by simp
  have sw': "server_switch_token c (d_tokenID d) (s\<lparr>ch_in := i\<rparr>) = (Ok (), s1\<lparr>ch_in := i\<rparr>)"
    using server_switch_token_io [OF sw, where i = i and r = "ch_receiveBuffer s"] unfolding s s1 .
  have "opens d (s1\<lparr>ch_in := i\<rparr>)" using \<open>opens d s1\<close> by simp
  with sw' have "\<exists>ch1. server_switch_token c (d_tokenID d) (s\<lparr>ch_in := i\<rparr>) = (Ok (), ch1) \<and> opens d ch1" by blast
  with assms have "server_reads c d (s\<lparr>ch_in := i\<rparr>)" by (simp add: server_reads_def)
  with sw sw' show thesis by (rule that)
qed

text \<open>The state of the server after it read, and those of both after they wrote.\<close>

lemma paired_server_read:
  assumes l: "paired c d1 d2 s cl" and sw: "server_switch_token c (d_tokenID d1) s = (Ok (), s0)"
    and s1: "server_receives c d1 s0 s1" "after_io s0 s1"
  shows "paired c d1 d2 s1 cl" and "writes d2 s1" and "ch_tokenID s1 = d_tokenID d1" and "limits s1 = limits s"
proof -
  have w: "writes d2 s0" using l sw by (simp add: paired_def)
  then show w1: "writes d2 s1" using s1(2) by (elim after_ioE) simp
  show tok: "ch_tokenID s1 = d_tokenID d1" using server_switch_token_frame(2) [OF sw] s1(2) by (elim after_ioE) simp
  have io: "same_io s s0" by (rule server_switch_token_frame(1) [OF sw])
  then show "limits s1 = limits s" using s1(2) by (elim after_ioE) (simp add: same_io_def limits_def)
  from io s1(2) have "ch_maxRequestMessageSize s1 = ch_maxRequestMessageSize s" "ch_maxRequestChunkCount s1 = ch_maxRequestChunkCount s"
    "ch_maxResponseMessageSize s1 = ch_maxResponseMessageSize s" "ch_maxResponseChunkCount s1 = ch_maxResponseChunkCount s"
    by (auto simp: same_io_def elim: after_ioE)
  moreover have "server_switch_token c (d_tokenID d1) s1 = (Ok (), s1)" using tok by (simp add: server_switch_token_def)
  ultimately show "paired c d1 d2 s1 cl" using l s1(1) w1 by (simp add: paired_def server_receives_def)
qed

lemma paired_client_sent:
  assumes "paired c d1 d2 s cl"
  shows "paired c d1 d2 s ((client_sending_token c cl)\<lparr>ch_sequenceNumber := n, ch_out := out\<rparr>)"
  using assms by (simp add: paired_def client_reads_sent client_sending_token_io) (simp add: client_sending_token_def Let_def)

lemma paired_server_sent:
  assumes "paired c d1 d2 s cl" and "ch_tokenID s = d_tokenID d1"
  shows "paired c d1 d2 (s\<lparr>ch_sequenceNumber := n, ch_out := out\<rparr>) cl"
proof -
  have sw: "server_switch_token c (d_tokenID d1) s = (Ok (), s)"
    and sw': "server_switch_token c (d_tokenID d1) (s\<lparr>ch_sequenceNumber := n, ch_out := out\<rparr>)
      = (Ok (), s\<lparr>ch_sequenceNumber := n, ch_out := out\<rparr>)" using assms(2) by (simp_all add: server_switch_token_def)
  show ?thesis using assms(1) by (simp add: paired_def server_reads_def sw sw')
qed

lemma paired_client_read:
  assumes l: "paired c d1 d2 s cl" and c1: "client_receives c d2 (client_receiving_token c (d_tokenID d2) cl) cl1"
    "after_io (client_receiving_token c (d_tokenID d2) cl) cl1"
  shows "paired c d1 d2 s cl1" and "limits cl1 = limits cl"
proof -
  show "limits cl1 = limits cl" using c1(2) by (elim after_ioE) simp
  have "unat (ch_sendBufferSize cl1) \<le> cc_poolSize cl1" "ch_maxRequestMessageSize cl1 = ch_maxRequestMessageSize cl"
    "ch_maxRequestChunkCount cl1 = ch_maxRequestChunkCount cl" "ch_maxResponseMessageSize cl1 = ch_maxResponseMessageSize cl"
    "ch_maxResponseChunkCount cl1 = ch_maxResponseChunkCount cl"
    using c1(2) l by (elim after_ioE, simp add: client_receiving_token_def Let_def paired_def)+
  with l c1(1) show "paired c d1 d2 s cl1" by (simp add: paired_def client_receives_def client_writes_read [OF c1(2)])
qed

section \<open>Delivery\<close>

text \<open>
  A request within the limits: the server reads the request and its id from the chunks,
  however they are cut into segments, leaves what follows them, and both ends stay paired.
\<close>

lemma request_body_delivered:
  assumes l: "paired c d1 d2 s cl" and f: "request_fits cl q" and q': "length q \<le> fuel"
  shows "\<exists>cl1 xs. sendServiceRequest c fuel rid (Ok q) cl = (Ok (), cl1) \<and> ch_out cl1 = ch_out cl @ xs
     \<and> int (length xs) = request_chunks cl q \<and> limits cl1 = limits cl
     \<and> (\<forall>segs rest. stream_of segs (concat xs @ rest) \<longrightarrow>
          (\<exists>s1. server_read_loop c fuel 0 [] (s\<lparr>ch_in := segs\<rparr>) = (Ok (q, rid), s1) \<and> stream_of (ch_in s1) rest
             \<and> ch_tokenID s1 = d_tokenID d1 \<and> paired c d1 d2 s1 cl1 \<and> limits s1 = limits s))"
proof -
  have q: "q \<noteq> []" "length q \<le> fuel" "length q < 2 ^ 31"
    and sz: "allows (ch_maxRequestMessageSize cl) (int (length q))"
    and ct: "allows (ch_maxRequestChunkCount cl) (request_chunks cl q)" using f q' by (simp_all add: request_fits_def)
  let ?md = "d_mode d1" and ?p = "d_policy d1" and ?lm = "ch_maxRequestChunkCount cl"
  have w: "writes d1 (client_sending_token c cl)" and ok: "crypto_ok c" and pool: "unat (ch_sendBufferSize cl) \<le> cc_poolSize cl"
    using l by (simp_all add: paired_def)
  then have md: "ch_securityMode cl = ?md" "ch_securityPolicy cl = ?p" by (simp_all add: writes_def)
  let ?mx = "max_body ?md ?p (ch_sendBufferSize cl)"
  have ready: "client_ready c d1 ?mx ?lm cl" using w ok pool by (simp add: client_ready_def)
  have cnt: "request_chunks cl q = chunk_number (int (length q)) ?mx" by (simp add: request_chunks_def md)
  have fits: "int (unat ?lm) = 0 \<or> 0 + request_chunks cl q \<le> int (unat ?lm)" using ct by (simp add: allows_int)
  from client_writer.send_chunks [OF ready q(1,2) order.refl cnt, of rid] fits
  obtain xs where send: "client_send c fuel rid 0 (int (length q)) q cl = (Ok (), fold (client_emit c) xs cl)"
    and xs: "chunks_of (chunk_of c d1 rid) MessageTypeFinal xs q" and num: "int (length xs) = request_chunks cl q" by auto
  have ne: "xs \<noteq> []" using xs by auto
  from fold_client_emit [OF this] obtain sn where
    cl1: "fold (client_emit c) xs cl = (client_sending_token c cl)\<lparr>ch_sequenceNumber := sn, ch_out := ch_out cl @ xs\<rparr>" (is "?cl1 = _")
    by blast
  have "sendServiceRequest c fuel rid (Ok q) cl = (Ok (), ?cl1)"
    using sz send by (auto simp: sendServiceRequest_def allows_def)
  moreover have "\<exists>s1. server_read_loop c fuel 0 [] (s\<lparr>ch_in := segs\<rparr>) = (Ok (q, rid), s1) \<and> stream_of (ch_in s1) rest
             \<and> ch_tokenID s1 = d_tokenID d1 \<and> paired c d1 d2 s1 ?cl1 \<and> limits s1 = limits s"
    if st: "stream_of segs (concat xs @ rest)" for segs rest
  proof -
    have reads: "server_reads c d1 s" and wr: "server_switch_token c (d_tokenID d1) s = (Ok (), s0) \<Longrightarrow> writes d2 s0" for s0
      using l by (simp_all add: paired_def)
    from server_reads_in [OF reads, where i = segs] obtain s0 where sw: "server_switch_token c (d_tokenID d1) s = (Ok (), s0)"
      and sw': "server_switch_token c (d_tokenID d1) (s\<lparr>ch_in := segs\<rparr>) = (Ok (), s0\<lparr>ch_in := segs\<rparr>)"
      and reads': "server_reads c d1 (s\<lparr>ch_in := segs\<rparr>)" by blast
    have rec: "server_receives c d1 s0 (s\<lparr>ch_in := segs\<rparr>)"
      using ok reads' sw' after_io_refl [of s0] after_ioI(1) [of s0, where i = segs and r = "ch_receiveBuffer s0"] by (simp add: server_receives_def)
    have lims: "ch_maxRequestChunkCount s0 = ?lm" "ch_maxRequestMessageSize s0 = ch_maxRequestMessageSize cl"
      using l server_switch_token_frame(1) [OF sw] by (simp_all add: paired_def same_io_def)
    have "sint (ch_maxRequestChunkCount s0) \<le> 0 \<or> int 0 + int (length xs) \<le> sint (ch_maxRequestChunkCount s0)"
      using allows_sint [OF ct] lims num by simp
    moreover have "int (unat (ch_maxRequestMessageSize s0)) \<le> 0 \<or> int (length ([] @ q)) \<le> int (unat (ch_maxRequestMessageSize s0))"
      using sz lims by (simp add: allows_int)
    moreover have "length xs \<le> fuel" "0 + length xs < 2 ^ 31" using chunks_of_length [OF xs] q by simp_all
    ultimately obtain s1 where rd: "server_read_loop c fuel 0 [] (s\<lparr>ch_in := segs\<rparr>) = (Ok (q, rid), s1)"
      and s1: "server_receives c d1 s0 s1" "after_io s0 s1" "stream_of (ch_in s1) rest"
      using server_reader.recv_chunks [OF rec xs, of rest fuel 0 "[]"] st by auto
    have "paired c d1 d2 s1 ?cl1" unfolding cl1 by (rule paired_client_sent [OF paired_server_read(1) [OF l sw s1(1,2)]])
    with paired_server_read(3,4) [OF l sw s1(1,2)] show ?thesis using rd s1(3) by blast
  qed
  ultimately show ?thesis using num cl1 by auto
qed

text \<open>A response likewise, once the server uses the token.\<close>

lemma response_body_delivered:
  assumes l: "paired c d1 d2 s cl" and tok: "ch_tokenID s = d_tokenID d1" and f: "response_fits s r" and r': "length r \<le> fuel"
  shows "\<exists>s1 xs. sendServiceResponse c fuel rid (Ok r) s = (Ok (), s1) \<and> ch_out s1 = ch_out s @ xs
     \<and> int (length xs) = request_chunks s r \<and> limits s1 = limits s \<and> ch_tokenID s1 = d_tokenID d1
     \<and> (\<forall>segs rest. stream_of segs (concat xs @ rest) \<longrightarrow>
          (\<exists>cl1. client_read_loop c fuel 0 [] (cl\<lparr>ch_in := segs\<rparr>) = (Ok r, cl1) \<and> stream_of (ch_in cl1) rest
             \<and> paired c d1 d2 s1 cl1 \<and> limits cl1 = limits cl))"
proof -
  have r: "r \<noteq> []" "length r \<le> fuel" "length r < 2 ^ 31"
    and sz: "allows (ch_maxResponseMessageSize s) (int (length r))"
    and ct: "allows (ch_maxResponseChunkCount s) (request_chunks s r)" using f r' by (simp_all add: response_fits_def)
  let ?md = "d_mode d2" and ?p = "d_policy d2" and ?lm = "ch_maxResponseChunkCount s"
  have sw: "server_switch_token c (d_tokenID d1) s = (Ok (), s)" using tok by (simp add: server_switch_token_def)
  then have w: "writes d2 s" and ok: "crypto_ok c" and reads: "client_reads c d2 cl" using l by (simp_all add: paired_def)
  then have md: "ch_securityMode s = ?md" "ch_securityPolicy s = ?p" by (simp_all add: writes_def)
  let ?mx = "max_body ?md ?p (ch_sendBufferSize s)"
  have ready: "server_ready c d2 ?mx ?lm s" using w ok by (simp add: server_ready_def)
  have cnt: "request_chunks s r = chunk_number (int (length r)) ?mx" by (simp add: request_chunks_def md)
  have fits: "int (unat ?lm) = 0 \<or> 0 + request_chunks s r \<le> int (unat ?lm)" using ct by (simp add: allows_int)
  from server_writer.send_chunks [OF ready r(1,2) order.refl cnt, of rid] fits
  obtain xs where send: "server_send c fuel rid 0 (int (length r)) r s = (Ok (), fold server_emit xs s)"
    and xs: "chunks_of (chunk_of c d2 rid) MessageTypeFinal xs r" and num: "int (length xs) = request_chunks s r" by auto
  from fold_server_emit obtain sn where
    s1: "fold server_emit xs s = s\<lparr>ch_sequenceNumber := sn, ch_out := ch_out s @ xs\<rparr>" (is "?s1 = _") by blast
  have "sendServiceResponse c fuel rid (Ok r) s = (Ok (), ?s1)"
    using sz send by (auto simp: sendServiceResponse_def allows_def)
  moreover have "\<exists>cl1. client_read_loop c fuel 0 [] (cl\<lparr>ch_in := segs\<rparr>) = (Ok r, cl1) \<and> stream_of (ch_in cl1) rest
             \<and> paired c d1 d2 ?s1 cl1 \<and> limits cl1 = limits cl"
    if st: "stream_of segs (concat xs @ rest)" for segs rest
  proof -
    let ?c0 = "client_receiving_token c (d_tokenID d2) cl"
    have "client_reads c d2 (cl\<lparr>ch_in := segs\<rparr>)" using reads by (simp add: client_reads_def)
    moreover have "after_io ?c0 (client_receiving_token c (d_tokenID d2) (cl\<lparr>ch_in := segs\<rparr>))"
      using after_io_in [of ?c0] by simp
    ultimately have rec: "client_receives c d2 ?c0 (cl\<lparr>ch_in := segs\<rparr>)" using ok by (simp add: client_receives_def)
    have lims: "ch_maxResponseChunkCount ?c0 = ?lm" "ch_maxResponseMessageSize ?c0 = ch_maxResponseMessageSize s"
      using l by (simp_all add: paired_def)
    have "int (unat (ch_maxResponseChunkCount ?c0)) \<le> 0 \<or> int 0 + int (length xs) \<le> int (unat (ch_maxResponseChunkCount ?c0))"
      using fits num unfolding lims by linarith
    moreover have "int (unat (ch_maxResponseMessageSize ?c0)) \<le> 0 \<or> int (length ([] @ r)) \<le> int (unat (ch_maxResponseMessageSize ?c0))"
      using sz unfolding lims by (auto simp: allows_int)
    moreover have "length xs \<le> fuel" "0 + length xs < 2 ^ 31" using chunks_of_length [OF xs] r by simp_all
    ultimately obtain cl1 where "client_read_loop c fuel 0 [] (cl\<lparr>ch_in := segs\<rparr>) = (Ok r, cl1)"
      and c1: "client_receives c d2 ?c0 cl1" "after_io ?c0 cl1" "stream_of (ch_in cl1) rest"
      using client_reader.recv_chunks [OF rec xs, of rest fuel 0 "[]"] st by auto
    moreover have "paired c d1 d2 ?s1 cl1" unfolding s1 by (rule paired_server_sent [OF paired_client_read(1) [OF l c1(1,2)] tok])
    moreover have "limits cl1 = limits cl" by (rule paired_client_read(2) [OF l c1(1,2)])
    ultimately show ?thesis by blast
  qed
  ultimately show ?thesis using num s1 tok by auto
qed

text \<open>The chunks of a response, and the error for one beyond the limits of the client.\<close>

lemma chunks_of_size: "chunks_of (chunk_of c d rid) mt xs body \<Longrightarrow> list_all (\<lambda>x. length x \<le> d_size d) xs"
proof (induction xs arbitrary: body)
  case (Cons x xs)
  show ?case
  proof (cases xs)
    case Nil
    then show ?thesis using Cons.prems chunk_of_header(2) by auto
  next
    case (Cons y ys)
    then obtain n where "chunk_of c d rid MessageTypeChunk x (take n body)" "chunks_of (chunk_of c d rid) mt xs (drop n body)"
      using Cons.prems by auto
    with Cons.IH show ?thesis using chunk_of_header(2) by auto
  qed
qed simp

lemma response_chunks_bounded:
  assumes "crypto_ok c" and w: "writes d s" and "r \<noteq> []" and "length r \<le> fuel"
  shows "if allows (ch_maxResponseMessageSize s) (int (length r)) \<and> allows (ch_maxResponseChunkCount s) (request_chunks s r)
     then \<exists>s1 xs. sendServiceResponse c fuel rid (Ok r) s = (Ok (), s1) \<and> ch_out s1 = ch_out s @ xs
        \<and> int (length xs) = request_chunks s r \<and> list_all (\<lambda>x. length x \<le> unat (ch_sendBufferSize s)) xs
     else \<exists>s1. sendServiceResponse c fuel rid (Ok r) s = (Err (Status BadResponseTooLarge), s1)"
proof -
  let ?d = "d\<lparr>d_size := unat (ch_sendBufferSize s)\<rparr>" and ?lm = "ch_maxResponseChunkCount s"
  let ?mx = "max_body (d_mode d) (d_policy d) (ch_sendBufferSize s)"
  have md: "ch_securityMode s = d_mode d" "ch_securityPolicy s = d_policy d" using w by (simp_all add: writes_def)
  have ready: "server_ready c ?d ?mx ?lm s" using w assms(1) by (simp add: server_ready_def writes_def)
  have cnt: "request_chunks s r = chunk_number (int (length r)) ?mx" by (simp add: request_chunks_def md)
  note sent = server_writer.send_chunks [OF ready assms(3,4) order.refl cnt, of rid]
  show ?thesis
  proof (cases "allows (ch_maxResponseMessageSize s) (int (length r))")
    case False
    then have "sendServiceResponse c fuel rid (Ok r) s = (Err (Status BadResponseTooLarge), s)"
      using uint_0_iff [of "ch_maxResponseMessageSize s"] uint_ge_0 [of "ch_maxResponseMessageSize s"]
      by (simp add: sendServiceResponse_def allows_def not_le less_le)
    with False show ?thesis by auto
  next
    case True
    then have send: "sendServiceResponse c fuel rid (Ok r) s = server_send c fuel rid 0 (int (length r)) r s"
      by (auto simp: sendServiceResponse_def allows_def)
    show ?thesis
    proof (cases "allows ?lm (request_chunks s r)")
      case fits: True
      then have "int (unat ?lm) = 0 \<or> 0 + request_chunks s r \<le> int (unat ?lm)" by (simp add: allows_int)
      with sent obtain xs where "server_send c fuel rid 0 (int (length r)) r s = (Ok (), fold server_emit xs s)"
        and xs: "chunks_of (chunk_of c ?d rid) MessageTypeFinal xs r" "int (length xs) = request_chunks s r" by auto
      moreover have "list_all (\<lambda>x. length x \<le> unat (ch_sendBufferSize s)) xs" using chunks_of_size [OF xs(1)] by simp
      moreover from fold_server_emit [of xs s] have "ch_out (fold server_emit xs s) = ch_out s @ xs" by auto
      ultimately show ?thesis using True fits send by auto
    next
      case fits: False
      then have "\<not> (int (unat ?lm) = 0 \<or> 0 + request_chunks s r \<le> int (unat ?lm))" by (simp add: allows_int)
      with sent have "\<exists>s1. server_send c fuel rid 0 (int (length r)) r s = (Err (Status BadResponseTooLarge), s1)" by simp
      with fits send show ?thesis by auto
    qed
  qed
qed

section \<open>Issuing a token\<close>

text \<open>
  What both ends agree on before a token is issued; and the directions of requests and
  responses its keys give. A channel signs if and only if it has a policy other than the
  one without security, and the buffers leave room for a body.
\<close>

definition agreed :: "('priv, 'pub) crypto \<Rightarrow> ('priv, 'pub) ServerChannel \<Rightarrow> ('priv, 'pub) ClientChannel \<Rightarrow> bool" where
  "agreed c s cl \<longleftrightarrow> crypto_ok c \<and> ch_connected s \<and> ch_connected cl
   \<and> ch_securityMode s = ch_securityMode cl \<and> ch_securityPolicy s = ch_securityPolicy cl
   \<and> ch_securityPolicyURI s = ch_securityPolicyURI cl \<and> ch_channelID s = ch_channelID cl
   \<and> (mode_signs (ch_securityMode cl) \<longleftrightarrow> ch_securityPolicy cl \<noteq> SecurityPolicyNone)
   \<and> 0 < max_body (ch_securityMode cl) (ch_securityPolicy cl) (ch_sendBufferSize cl)
   \<and> 0 < max_body (ch_securityMode cl) (ch_securityPolicy cl) (ch_sendBufferSize s)
   \<and> unat (ch_sendBufferSize cl) \<le> cc_poolSize cl \<and> unat (ch_sendBufferSize cl) \<le> length (ch_receiveBuffer s)
   \<and> unat (ch_sendBufferSize s) \<le> length (ch_receiveBuffer cl)
   \<and> ch_maxRequestMessageSize cl = ch_maxRequestMessageSize s \<and> ch_maxRequestChunkCount cl = ch_maxRequestChunkCount s
   \<and> ch_maxResponseMessageSize cl = ch_maxResponseMessageSize s \<and> ch_maxResponseChunkCount cl = ch_maxResponseChunkCount s"

definition keyed :: "('priv, 'pub) crypto \<Rightarrow> ('priv, 'pub, 'z) Channel_scheme \<Rightarrow> u32 \<Rightarrow> bytes \<Rightarrow> bytes \<Rightarrow> direction" where
  "keyed c ch tok secret seed =
     (let p = ch_securityPolicy ch; k = derive_keys c p (ch_securityPolicyURI ch) secret seed
      in \<lparr>d_mode = ch_securityMode ch, d_policy = p, d_channelID = ch_channelID ch, d_tokenID = tok,
          d_hash = (case SymHMACFactory p (sk_signing k) of Some h \<Rightarrow> h | None \<Rightarrow> (SHA1, [])),
          d_key = sk_encrypting k, d_iv = sk_iv k, d_size = unat (ch_sendBufferSize ch)\<rparr>)"

definition request_direction :: "('priv, 'pub) crypto \<Rightarrow> ('priv, 'pub) ClientChannel \<Rightarrow> direction" where
  "request_direction c cl = keyed c cl (ch_tokenID cl) (ch_remoteNonce cl) (ch_localNonce cl)"

definition response_direction :: "('priv, 'pub) crypto \<Rightarrow> ('priv, 'pub) ServerChannel \<Rightarrow> direction" where
  "response_direction c s = keyed c s (sc_pendingTokenID s) (ch_remoteNonce s) (ch_localNonce s)"

lemma max_body_room:
  assumes "0 < max_body md p buf"
  shows "24 < unat buf"
proof (rule ccontr)
  assume "\<not> 24 < unat buf"
  then have le: "int (unat buf) \<le> 24" by linarith
  show False
  proof (cases "md = MessageSecurityModeSignAndEncrypt")
    case True
    let ?b = "int (SymEncryptionBlockSize p)" and ?x = "int (unat buf) - 16"
    have "0 < (?x sdiv ?b) * ?b - 8 - 1 - int (SymSignatureSize p)"
      using assms True by (simp add: max_body_def plan_chunk_def Let_def)
    moreover from this have "(?x sdiv ?b) * ?b \<le> ?x"
      by (intro sdiv_block [where k = "9 + int (SymSignatureSize p)"]) simp_all
    ultimately show False using le by linarith
  next
    case False
    then show False using assms le by (simp add: max_body_def plan_chunk_def Let_def)
  qed
qed

lemma keyed_ok:
  assumes "crypto_ok c" and signs: "mode_signs (ch_securityMode ch) \<longleftrightarrow> ch_securityPolicy ch \<noteq> SecurityPolicyNone"
    and d: "d = keyed c ch tok secret seed"
  shows "keys_ok (d_mode d) (d_policy d) (d_hash d) (d_key d) (d_iv d)"
    and "mode_signs (ch_securityMode ch) \<Longrightarrow> SymHMACFactory (ch_securityPolicy ch)
        (sk_signing (derive_keys c (ch_securityPolicy ch) (ch_securityPolicyURI ch) secret seed)) = Some (d_hash d)"
    and "ch_securityMode ch = MessageSecurityModeSignAndEncrypt \<Longrightarrow> aes_NewCipher (d_key d) = Some (d_key d)"
proof -
  let ?md = "ch_securityMode ch" and ?p = "ch_securityPolicy ch"
  let ?k = "derive_keys c ?p (ch_securityPolicyURI ch) secret seed"
  have hash: "\<exists>h. SymHMACFactory ?p (sk_signing ?k) = Some (h, sk_signing ?k) \<and> hash_size h = SymSignatureSize ?p"
    if "mode_signs ?md" using policy_mac signs that by blast
  then show h: "SymHMACFactory ?p (sk_signing ?k) = Some (d_hash d)" if "mode_signs ?md"
    using that by (auto simp: d keyed_def Let_def)
  have sizes: "length (sk_encrypting ?k) \<in> {16, 24, 32}" "length (sk_iv ?k) = aes_BlockSize"
    if "?md = MessageSecurityModeSignAndEncrypt"
    using derive_keys_sizes [OF assms(1), of ?p] signs that by simp_all
  then show "aes_NewCipher (d_key d) = Some (d_key d)" if "?md = MessageSecurityModeSignAndEncrypt"
    using that by (simp add: d keyed_def Let_def aes_NewCipher_def)
  show "keys_ok (d_mode d) (d_policy d) (d_hash d) (d_key d) (d_iv d)"
  proof (cases "mode_signs ?md")
    case True
    with hash obtain g where "SymHMACFactory ?p (sk_signing ?k) = Some (g, sk_signing ?k)" "hash_size g = SymSignatureSize ?p" by blast
    with True sizes signs show ?thesis by (simp add: d keyed_def Let_def keys_ok_def)
  next
    case False
    then have "?md \<noteq> MessageSecurityModeSignAndEncrypt" by auto
    with False signs show ?thesis by (simp add: d keyed_def Let_def keys_ok_def)
  qed
qed

text \<open>
  The keys a side installs when it takes up the token are those of the direction, when the
  nonces of the two sides cross.
\<close>

lemma client_takes_token:
  assumes "crypto_ok c" and signs: "mode_signs (ch_securityMode cl) \<longleftrightarrow> ch_securityPolicy cl \<noteq> SecurityPolicyNone"
  shows "cc_sendingTokenID cl \<noteq> ch_tokenID cl \<Longrightarrow> d = request_direction c cl \<Longrightarrow>
      sender_keys (client_sending_token c cl) (d_hash d) (d_key d) (d_iv d)"
    and "cc_receivingTokenID cl \<noteq> tok \<Longrightarrow> d = keyed c cl tok (ch_localNonce cl) (ch_remoteNonce cl) \<Longrightarrow>
      receiver_keys (client_receiving_token c tok cl) (d_hash d) (d_key d) (d_iv d)"
proof -
  show "sender_keys (client_sending_token c cl) (d_hash d) (d_key d) (d_iv d)"
    if "cc_sendingTokenID cl \<noteq> ch_tokenID cl" and d: "d = request_direction c cl"
    using that(1) keyed_ok [OF assms d [unfolded request_direction_def]]
    by (auto simp: d request_direction_def sender_keys_def client_sending_token_def keyed_def Let_def)
  show "receiver_keys (client_receiving_token c tok cl) (d_hash d) (d_key d) (d_iv d)"
    if "cc_receivingTokenID cl \<noteq> tok" and d: "d = keyed c cl tok (ch_localNonce cl) (ch_remoteNonce cl)"
    using that(1) keyed_ok [OF assms d]
    by (auto simp: d receiver_keys_def client_receiving_token_def keyed_def Let_def)
qed

lemma install_keyed:
  assumes "crypto_ok c" and signs: "mode_signs (ch_securityMode s) \<longleftrightarrow> ch_securityPolicy s \<noteq> SecurityPolicyNone"
    and m: "mode_signs (ch_securityMode s)"
  shows "d = keyed c s tok (ch_localNonce s) (ch_remoteNonce s) \<Longrightarrow> install_remote_keys c s = (Ok (), s\<lparr>
        ch_remoteInitializationVector := d_iv d, ch_symVerifyHMAC := Some (d_hash d), ch_symDecryptingBlockCipher :=
          (if ch_securityMode s = MessageSecurityModeSignAndEncrypt then Some (d_key d) else ch_symDecryptingBlockCipher s)\<rparr>)"
    and "d = keyed c s tok (ch_remoteNonce s) (ch_localNonce s) \<Longrightarrow> install_local_keys c s = (Ok (), s\<lparr>
        ch_localInitializationVector := d_iv d, ch_symSignHMAC := Some (d_hash d), ch_symEncryptingBlockCipher :=
          (if ch_securityMode s = MessageSecurityModeSignAndEncrypt then Some (d_key d) else ch_symEncryptingBlockCipher s)\<rparr>)"
proof -
  have fields: "d_iv (keyed c s tok a b) = sk_iv (derive_keys c (ch_securityPolicy s) (ch_securityPolicyURI s) a b)"
    "d_key (keyed c s tok a b) = sk_encrypting (derive_keys c (ch_securityPolicy s) (ch_securityPolicyURI s) a b)" for a b
    by (simp_all add: keyed_def Let_def)
  show "install_remote_keys c s = (Ok (), s\<lparr>
        ch_remoteInitializationVector := d_iv d, ch_symVerifyHMAC := Some (d_hash d), ch_symDecryptingBlockCipher :=
          (if ch_securityMode s = MessageSecurityModeSignAndEncrypt then Some (d_key d) else ch_symDecryptingBlockCipher s)\<rparr>)"
    if d: "d = keyed c s tok (ch_localNonce s) (ch_remoteNonce s)"
    using keyed_ok(2,3) [OF assms(1) signs d] m
    by (simp add: install_remote_keys_def Let_def d fields)
  show "install_local_keys c s = (Ok (), s\<lparr>
        ch_localInitializationVector := d_iv d, ch_symSignHMAC := Some (d_hash d), ch_symEncryptingBlockCipher :=
          (if ch_securityMode s = MessageSecurityModeSignAndEncrypt then Some (d_key d) else ch_symEncryptingBlockCipher s)\<rparr>)"
    if d: "d = keyed c s tok (ch_remoteNonce s) (ch_localNonce s)"
    using keyed_ok(2,3) [OF assms(1) signs d] m
    by (simp add: install_local_keys_def Let_def d fields)
qed

lemma keyed_cong:
  assumes "ch_securityPolicy ch' = ch_securityPolicy ch" "ch_securityPolicyURI ch' = ch_securityPolicyURI ch"
    "ch_securityMode ch' = ch_securityMode ch" "ch_channelID ch' = ch_channelID ch" "ch_sendBufferSize ch' = ch_sendBufferSize ch"
  shows "keyed c ch' = keyed c ch"
  using assms by (simp add: keyed_def fun_eq_iff)

lemma server_takes_token:
  assumes "crypto_ok c" and signs: "mode_signs (ch_securityMode s) \<longleftrightarrow> ch_securityPolicy s \<noteq> SecurityPolicyNone"
    and "ch_tokenID s \<noteq> sc_pendingTokenID s" and d1: "d1 = keyed c s (sc_pendingTokenID s) (ch_localNonce s) (ch_remoteNonce s)"
    and d2: "d2 = response_direction c s"
  shows "\<exists>s1. server_switch_token c (sc_pendingTokenID s) s = (Ok (), s1)
     \<and> receiver_keys s1 (d_hash d1) (d_key d1) (d_iv d1) \<and> sender_keys s1 (d_hash d2) (d_key d2) (d_iv d2)"
proof -
  let ?s0 = "s\<lparr>ch_tokenID := sc_pendingTokenID s, sc_tokenExpiration := sc_pendingTokenExpiration s\<rparr>"
  have kok: "keys_ok (ch_securityMode s) (ch_securityPolicy s) (d_hash d1) (d_key d1) (d_iv d1)"
    "keys_ok (ch_securityMode s) (ch_securityPolicy s) (d_hash d2) (d_key d2) (d_iv d2)"
    using keyed_ok(1) [OF assms(1) signs d1] keyed_ok(1) [OF assms(1) signs d2 [unfolded response_direction_def]]
    by (simp_all add: d1 d2 response_direction_def keyed_def Let_def)
  show ?thesis
  proof (cases "mode_signs (ch_securityMode s)")
    case False
    then have "ch_securityMode s \<noteq> MessageSecurityModeSignAndEncrypt" by auto
    moreover have "server_switch_token c (sc_pendingTokenID s) s = (Ok (), ?s0)"
      using assms(3) False by (simp add: server_switch_token_def Let_def)
    ultimately show ?thesis using False kok by (simp add: receiver_keys_def sender_keys_def)
  next
    case True
    let ?s1 = "?s0\<lparr>ch_remoteInitializationVector := d_iv d1, ch_symVerifyHMAC := Some (d_hash d1), ch_symDecryptingBlockCipher :=
          (if ch_securityMode s = MessageSecurityModeSignAndEncrypt then Some (d_key d1) else ch_symDecryptingBlockCipher s)\<rparr>"
    let ?s2 = "?s1\<lparr>ch_localInitializationVector := d_iv d2, ch_symSignHMAC := Some (d_hash d2), ch_symEncryptingBlockCipher :=
          (if ch_securityMode s = MessageSecurityModeSignAndEncrypt then Some (d_key d2) else ch_symEncryptingBlockCipher s)\<rparr>"
    have signs': "mode_signs (ch_securityMode ?s0) \<longleftrightarrow> ch_securityPolicy ?s0 \<noteq> SecurityPolicyNone"
      "mode_signs (ch_securityMode ?s1) \<longleftrightarrow> ch_securityPolicy ?s1 \<noteq> SecurityPolicyNone" using signs by simp_all
    have d: "d1 = keyed c ?s0 (sc_pendingTokenID s) (ch_localNonce ?s0) (ch_remoteNonce ?s0)"
      "d2 = keyed c ?s1 (sc_pendingTokenID s) (ch_remoteNonce ?s1) (ch_localNonce ?s1)"
      using keyed_cong [of ?s0 s c] keyed_cong [of ?s1 s c] by (simp_all add: d1 d2 response_direction_def)
    have "install_remote_keys c ?s0 = (Ok (), ?s1)" using install_keyed(1) [OF assms(1) signs'(1) _ d(1)] True by simp
    moreover have "install_local_keys c ?s1 = (Ok (), ?s2)" using install_keyed(2) [OF assms(1) signs'(2) _ d(2)] True by simp
    ultimately have "server_switch_token c (sc_pendingTokenID s) s = (Ok (), ?s2)"
      using assms(3) True by (simp add: server_switch_token_def andthen_def bnd_def Let_def)
    moreover have "receiver_keys ?s2 (d_hash d1) (d_key d1) (d_iv d1)" "sender_keys ?s2 (d_hash d2) (d_key d2) (d_iv d2)"
      using kok by (simp_all add: receiver_keys_def sender_keys_def)
    ultimately show ?thesis by blast
  qed
qed

lemma token_paired:
  assumes a: "agreed c s cl" and nonces: "ch_localNonce s = ch_remoteNonce cl" "ch_remoteNonce s = ch_localNonce cl"
    and tok: "ch_tokenID cl = sc_pendingTokenID s"
    and fresh: "ch_tokenID s \<noteq> sc_pendingTokenID s" "cc_sendingTokenID cl \<noteq> sc_pendingTokenID s"
      "cc_receivingTokenID cl \<noteq> sc_pendingTokenID s"
  shows "paired c (request_direction c cl) (response_direction c s) s cl"
proof -
  let ?tok = "sc_pendingTokenID s" and ?d1 = "request_direction c cl" and ?d2 = "response_direction c s"
  let ?e1 = "keyed c s ?tok (ch_localNonce s) (ch_remoteNonce s)" and ?e2 = "keyed c cl ?tok (ch_localNonce cl) (ch_remoteNonce cl)"
  have ok: "crypto_ok c" and signs: "mode_signs (ch_securityMode s) \<longleftrightarrow> ch_securityPolicy s \<noteq> SecurityPolicyNone"
    "mode_signs (ch_securityMode cl) \<longleftrightarrow> ch_securityPolicy cl \<noteq> SecurityPolicyNone"
    and conn: "ch_connected s" "ch_connected cl" using a by (simp_all add: agreed_def)
  have pos: "0 < max_body (d_mode ?d1) (d_policy ?d1) (ch_sendBufferSize cl)" "0 < max_body (d_mode ?d2) (d_policy ?d2) (ch_sendBufferSize s)"
    and room: "d_size ?d1 \<le> length (ch_receiveBuffer s)" "d_size ?d2 \<le> length (ch_receiveBuffer cl)"
    and size: "d_size ?d1 = unat (ch_sendBufferSize cl)" "d_size ?d2 = unat (ch_sendBufferSize s)"
    and tokens: "d_tokenID ?d1 = ?tok" "d_tokenID ?d2 = ?tok"
    using a tok by (simp_all add: agreed_def request_direction_def response_direction_def keyed_def Let_def)
  have eq: "d_hash ?e1 = d_hash ?d1" "d_key ?e1 = d_key ?d1" "d_iv ?e1 = d_iv ?d1"
    "d_hash ?e2 = d_hash ?d2" "d_key ?e2 = d_key ?d2" "d_iv ?e2 = d_iv ?d2"
    using a nonces by (simp_all add: agreed_def request_direction_def response_direction_def keyed_def Let_def)
  from server_takes_token [OF ok signs(1) fresh(1) refl refl] obtain s1 where
    sw: "server_switch_token c ?tok s = (Ok (), s1)" and rk: "receiver_keys s1 (d_hash ?d1) (d_key ?d1) (d_iv ?d1)"
    and sk: "sender_keys s1 (d_hash ?d2) (d_key ?d2) (d_iv ?d2)" unfolding eq by blast
  have io: "same_io s s1" "ch_tokenID s1 = ?tok" by (rule server_switch_token_frame [OF sw])+
  have "writes ?d2 s1"
    using io sk pos(2) size(2) conn(1) by (simp add: writes_def same_io_def response_direction_def keyed_def Let_def)
  moreover have "opens ?d1 s1"
    using io rk a by (simp add: opens_def same_io_def agreed_def request_direction_def keyed_def Let_def)
  then have "server_reads c ?d1 s"
    using sw room(1) max_body_room [OF pos(1)] size(1) conn(1) by (simp add: server_reads_def tokens)
  moreover have "writes ?d1 (client_sending_token c cl)"
    using client_takes_token(1) [OF ok signs(2), of ?d1] fresh(2) tok pos(1) size(1) conn(2)
    by (simp add: writes_def request_direction_def keyed_def Let_def)
  moreover have "opens ?d2 (client_receiving_token c ?tok cl)"
    using client_takes_token(2) [OF ok signs(2) fresh(3) refl] a unfolding eq
    by (simp add: opens_def agreed_def response_direction_def keyed_def Let_def client_receiving_token_def)
  then have "client_reads c ?d2 cl"
    using room(2) max_body_room [OF pos(2)] size(2) conn(2) by (simp add: client_reads_def tokens)
  ultimately show ?thesis using a sw by (simp add: paired_def agreed_def tokens)
qed

lemma issued_paired:
  assumes a: "agreed c s cl"
    and srv: "andthen (server_set_nonces nonce req) (server_new_token now req) s = (Ok res, s1)"
    and cli: "client_token_issued (oq_ClientNonce req) res cl = (Ok (), cl1)"
    and fresh: "ch_tokenID s \<noteq> os_TokenID res" "cc_sendingTokenID cl \<noteq> os_TokenID res" "cc_receivingTokenID cl \<noteq> os_TokenID res"
  shows "paired c (request_direction c cl1) (response_direction c s1) s1 cl1"
proof -
  let ?s = "s\<lparr>ch_localNonce := (if mode_signs (ch_securityMode s) then nonce (NonceSize (ch_securityPolicy s)) else []),
               ch_remoteNonce := oq_ClientNonce req\<rparr>"
  from srv have s1: "s1 = ?s\<lparr>sc_lastTokenID := os_TokenID res, sc_pendingTokenID := os_TokenID res, sc_pendingTokenExpiration :=
      now + int (unat (revise_lifetime (oq_RequestedLifetime req))) * 1000000\<rparr>"
    and res: "os_ServerNonce res = ch_localNonce ?s"
    by (auto simp: andthen_def bnd_def server_set_nonces_def server_new_token_def getNextTokenID_def Let_def)
  from cli have cl1: "cl1 = cl\<lparr>ch_tokenID := os_TokenID res, ch_localNonce := oq_ClientNonce req, ch_remoteNonce := os_ServerNonce res\<rparr>"
    by (auto simp: client_token_issued_def split: if_splits)
  have "agreed c s1 cl1" using a unfolding s1 cl1 by (simp add: agreed_def)
  then show ?thesis by (rule token_paired) (use fresh res in \<open>simp_all add: s1 cl1\<close>)
qed

text \<open>A renewal leaves alone what is still on its way under the old token.\<close>

lemma renewal_keeps_reading:
  assumes "paired c d1 d2 s cl" and "ch_tokenID s = d_tokenID d1" and "cc_receivingTokenID cl = d_tokenID d2"
    and srv: "andthen (server_set_nonces nonce req) (server_new_token now req) s = (Ok res, s1)"
    and cli: "client_token_issued (oq_ClientNonce req) res cl = (Ok (), cl1)"
  shows "server_reads c d1 s1" and "client_reads c d2 cl1"
proof -
  from srv have "ch_tokenID s1 = ch_tokenID s" "ch_connected s1 = ch_connected s" "ch_receiveBuffer s1 = ch_receiveBuffer s"
    "opens d1 s1 = opens d1 s"
    by (auto simp: andthen_def bnd_def server_set_nonces_def server_new_token_def getNextTokenID_def Let_def opens_def receiver_keys_def)
  then show "server_reads c d1 s1"
    using assms(1,2) by (simp add: paired_def server_reads_def server_switch_token_def)
  from cli have "cc_receivingTokenID cl1 = cc_receivingTokenID cl" "ch_connected cl1 = ch_connected cl"
    "ch_receiveBuffer cl1 = ch_receiveBuffer cl" "opens d2 cl1 = opens d2 cl"
    by (auto simp: client_token_issued_def opens_def receiver_keys_def split: if_splits)
  then show "client_reads c d2 cl1"
    using assms(1,3) by (simp add: paired_def client_reads_def client_receiving_token_def)
qed

section \<open>Conversations\<close>

text \<open>
  Requests and responses in turn. The transport delivers what was written in the segments
  \<open>seg\<close> makes of it; the result are the requests with their ids as the server read them,
  and the responses as the client read them.
\<close>

fun exchange :: "('priv, 'pub) crypto \<Rightarrow> nat \<Rightarrow> (bytes \<Rightarrow> bytes list) \<Rightarrow> (u32 \<times> bytes \<times> bytes) list
    \<Rightarrow> ('priv, 'pub) ServerChannel \<Rightarrow> ('priv, 'pub) ClientChannel \<Rightarrow> ((bytes \<times> u32) \<times> bytes) list res" where
  "exchange c fuel seg [] s cl = Ok []"
| "exchange c fuel seg ((rid, q, r) # es) s cl =
     (case sendServiceRequest c fuel rid (Ok q) (cl\<lparr>ch_out := []\<rparr>) of
        (Ok _, cl1) \<Rightarrow>
          (case server_read_loop c fuel 0 [] (s\<lparr>ch_in := seg (concat (ch_out cl1))\<rparr>) of
             (Ok (q', rid'), s1) \<Rightarrow>
               (case sendServiceResponse c fuel rid' (Ok r) (s1\<lparr>ch_out := []\<rparr>) of
                  (Ok _, s2) \<Rightarrow>
                    (case client_read_loop c fuel 0 [] (cl1\<lparr>ch_in := seg (concat (ch_out s2))\<rparr>) of
                       (Ok r', cl2) \<Rightarrow> res_bind (exchange c fuel seg es s2 cl2) (\<lambda>rs. Ok (((q', rid'), r') # rs))
                     | (Err e, _) \<Rightarrow> Err e | (Panic, _) \<Rightarrow> Panic | (NoFuel, _) \<Rightarrow> NoFuel)
                | (Err e, _) \<Rightarrow> Err e | (Panic, _) \<Rightarrow> Panic | (NoFuel, _) \<Rightarrow> NoFuel)
           | (Err e, _) \<Rightarrow> Err e | (Panic, _) \<Rightarrow> Panic | (NoFuel, _) \<Rightarrow> NoFuel)
      | (Err e, _) \<Rightarrow> Err e | (Panic, _) \<Rightarrow> Panic | (NoFuel, _) \<Rightarrow> NoFuel)"

lemma paired_client_out: "paired c d1 d2 s (cl\<lparr>ch_out := out\<rparr>) = paired c d1 d2 s cl"
  using client_sending_token_io [where c = c and ch = cl and n = "ch_sequenceNumber cl" and out = out]
    client_receiving_token_out [where c = c and ch = cl and n = "ch_sequenceNumber cl" and out = out]
    opens_out [where d = d2 and ch = "client_receiving_token c (d_tokenID d2) cl" and n = "ch_sequenceNumber cl" and out = out]
  by (simp add: paired_def client_reads_def)

lemma paired_server_out:
  "ch_tokenID s = d_tokenID d1 \<Longrightarrow> paired c d1 d2 s cl \<Longrightarrow> paired c d1 d2 (s\<lparr>ch_out := out\<rparr>) cl"
  using paired_server_sent [where n = "ch_sequenceNumber s" and out = out and s = s] by simp

lemma conversation_delivered:
  assumes seg: "\<And>bs. stream_of (seg bs) bs"
    and "paired c d1 d2 s cl"
    and "list_all (\<lambda>(rid, q, r). request_fits cl q \<and> response_fits s r \<and> length q \<le> fuel \<and> length r \<le> fuel) es"
  shows "exchange c fuel seg es s cl = Ok (map (\<lambda>(rid, q, r). ((q, rid), r)) es)"
  using assms(2,3)
proof (induction es arbitrary: s cl)
  case (Cons e es)
  obtain rid q r where e: "e = (rid, q, r)" by (cases e) auto
  let ?cl = "cl\<lparr>ch_out := []\<rparr>"
  have l: "paired c d1 d2 s ?cl" using Cons.prems(1) by (simp add: paired_client_out)
  have fit: "request_fits ?cl q" "response_fits s r" "length q \<le> fuel" "length r \<le> fuel"
    using Cons.prems(2) fits_limits [of ?cl cl] by (simp_all add: e)
  from request_body_delivered [OF l fit(1,3), of rid] obtain cl1 xs where
    q1: "sendServiceRequest c fuel rid (Ok q) ?cl = (Ok (), cl1)" "ch_out cl1 = xs" "limits cl1 = limits cl"
    and rd: "\<And>segs rest. stream_of segs (concat xs @ rest) \<Longrightarrow>
          \<exists>s1. server_read_loop c fuel 0 [] (s\<lparr>ch_in := segs\<rparr>) = (Ok (q, rid), s1) \<and> stream_of (ch_in s1) rest
             \<and> ch_tokenID s1 = d_tokenID d1 \<and> paired c d1 d2 s1 cl1 \<and> limits s1 = limits s" by auto
  from rd [of "seg (concat xs)" "[]"] seg obtain s0 where
    s0: "server_read_loop c fuel 0 [] (s\<lparr>ch_in := seg (concat xs)\<rparr>) = (Ok (q, rid), s0)"
      "ch_tokenID s0 = d_tokenID d1" "paired c d1 d2 s0 cl1" "limits s0 = limits s" by auto
  let ?s0 = "s0\<lparr>ch_out := []\<rparr>"
  have "response_fits ?s0 r" using fit(2) fits_limits(2) [of ?s0 s] s0(4) by simp
  from response_body_delivered [OF paired_server_out [OF s0(2,3)] _ this fit(4), where rid = rid] s0(2) obtain s1 ys where
    r1: "sendServiceResponse c fuel rid (Ok r) ?s0 = (Ok (), s1)" "ch_out s1 = ys" "limits s1 = limits s0"
    and rd': "\<And>segs rest. stream_of segs (concat ys @ rest) \<Longrightarrow>
          \<exists>cl2. client_read_loop c fuel 0 [] (cl1\<lparr>ch_in := segs\<rparr>) = (Ok r, cl2) \<and> stream_of (ch_in cl2) rest
             \<and> paired c d1 d2 s1 cl2 \<and> limits cl2 = limits cl1" by auto
  from rd' [of "seg (concat ys)" "[]"] seg obtain cl2 where
    c2: "client_read_loop c fuel 0 [] (cl1\<lparr>ch_in := seg (concat ys)\<rparr>) = (Ok r, cl2)"
      "paired c d1 d2 s1 cl2" "limits cl2 = limits cl1" by auto
  have "limits cl2 = limits cl" "limits s1 = limits s" using q1(3) c2(3) r1(3) s0(4) by simp_all
  then have "request_fits cl2 = request_fits cl" "response_fits s1 = response_fits s"
    using fits_limits(1) [of cl2 cl] fits_limits(2) [of s1 s] by (simp_all add: fun_eq_iff)
  then have "exchange c fuel seg es s1 cl2 = Ok (map (\<lambda>(rid, q, r). ((q, rid), r)) es)"
    using Cons.IH [OF c2(2)] Cons.prems(2) by simp
  then show ?case by (simp add: e q1(1,2) s0(1) r1(1,2) c2(1))
qed simp

section \<open>Service messages\<close>

lemma request_id_numeric_the: "case sendServiceRequest_id k of None \<Rightarrow> True | Some n \<Rightarrow> \<exists>i. n = NodeIDNumeric 0 i \<and> i \<noteq> 0"
  by (cases k) simp_all

lemma response_id_numeric_the: "case sendServiceResponse_id k of None \<Rightarrow> True | Some n \<Rightarrow> \<exists>i. n = NodeIDNumeric 0 i \<and> i \<noteq> 0"
  by (cases k) simp_all

lemma request_decodes:
  assumes "sendServiceRequest_id k = Some n" and "request_type k = TStruct nm ts" and "ok_dyn True reg uris (VStruct nm ts vs)"
    and "length (wire_dyn reg uris (VStruct nm ts vs)) \<le> fuel"
  shows "decode_request reg uris fuel (wire_NodeID (Some n) @ wire_dyn reg uris (VStruct nm ts vs)) = Ok (k, VStruct nm ts vs)"
proof -
  from request_id_numeric_the [of k] assms(1) obtain i where "n = NodeIDNumeric 0 i" "i \<noteq> 0" by auto
  from decode_body_wire [where ty = request_type and k = k and new = readRequest_new, OF refl assms(3,2) request_codec this request_id_new [OF assms(1)] assms(4)]
  show ?thesis by (simp add: decode_request_def)
qed

lemma response_decodes:
  assumes "sendServiceResponse_id k = Some n" and "response_type k = TStruct nm ts" and "ok_dyn True reg uris (VStruct nm ts vs)"
    and "length (wire_dyn reg uris (VStruct nm ts vs)) \<le> fuel"
  shows "decode_response reg uris fuel (wire_NodeID (Some n) @ wire_dyn reg uris (VStruct nm ts vs)) = Ok (k, VStruct nm ts vs)"
proof -
  from response_id_numeric_the [of k] assms(1) obtain i where "n = NodeIDNumeric 0 i" "i \<noteq> 0" by auto
  from decode_body_wire [where ty = response_type and k = k and new = readResponse_new, OF refl assms(3,2) response_codec this response_id_new [OF assms(1)] assms(4)]
  show ?thesis by (simp add: decode_response_def)
qed

end
