(* ===== verification/Channel_Safety.thy ===== *)
theory Channel_Safety
  imports Channel_Delivery Codec_Safety
begin

text \<open>
  What the readers accept and how they fail: a chunk of a signing channel must carry its
  message authentication code, the server's loop over the chunks of a request ends, and
  the chunk that is shorter than its signature brings the server down.
\<close>

section \<open>Only authenticated chunks are accepted\<close>

lemma res_bind_Ok: "res_bind r f = Ok y \<longleftrightarrow> (\<exists>x. r = Ok x \<and> f x = Ok y)"
  by (cases r) (simp_all add: res_bind_def)

lemma sym_verify_mac:
  assumes "sym_verify c ch b = Ok ()" and "mode_signs (ch_securityMode ch)"
  shows "\<exists>h m. ch_symVerifyHMAC ch = Some h \<and> b = m @ hash_sum c h m
     \<and> length b = length m + SymSignatureSize (ch_securityPolicy ch)"
proof -
  let ?k = "length b - SymSignatureSize (ch_securityPolicy ch)"
  from assms obtain h where h: "ch_symVerifyHMAC ch = Some h" and le: "SymSignatureSize (ch_securityPolicy ch) \<le> length b"
    and mac: "hash_sum c h (take ?k b) = drop ?k b"
    by (auto simp: sym_verify_def Let_def nat_diff_distrib split: option.splits if_splits)
  then show ?thesis by (intro exI [of _ h] exI [of _ "take ?k b"]) simp
qed

lemma sym_body_slice:
  assumes "sym_body ch b = Ok part" and "length b = n + SymSignatureSize (ch_securityPolicy ch)"
  shows "part = take (length part) (drop 24 (take n b))"
proof -
  have slice: "part = take (length part) (drop 24 (take n b))"
    if "part = take k (drop 24 b)" "k + 24 \<le> n" for k
    using that assms(2) by (simp add: take_drop min_def)
  let ?pad = "unat (le_word (take (Suc 0) (drop (nat (int n - 1)) b)) :: u16)"
  have "part = take (nat (int n - 25 - int ?pad)) (drop 24 b) \<and> 0 \<le> int n - 25 - int ?pad
      \<or> part = take (nat (int n - 24)) (drop 24 b) \<and> 0 \<le> int n - 24"
    using assms by (auto simp: sym_body_def Let_def algebra_simps split: if_splits)
  then show ?thesis
  proof
    assume "part = take (nat (int n - 25 - int ?pad)) (drop 24 b) \<and> 0 \<le> int n - 25 - int ?pad"
    moreover have "nat (int n - 25 - int ?pad) + 24 \<le> n" if "0 \<le> int n - 25 - int ?pad" using that by linarith
    ultimately show ?thesis by (intro slice [of "nat (int n - 25 - int ?pad)"]) blast+
  next
    assume "part = take (nat (int n - 24)) (drop 24 b) \<and> 0 \<le> int n - 24"
    moreover have "nat (int n - 24) + 24 \<le> n" if "0 \<le> int n - 24" using that by linarith
    ultimately show ?thesis by (intro slice [of "nat (int n - 24)"]) blast+
  qed
qed

text \<open>
  An accepted part of a message under a key: the receive buffer holds the plain chunk, its
  authentication code and what was there before.
\<close>

definition authentic :: "('priv, 'pub) crypto \<Rightarrow> ('priv, 'pub, 'z) Channel_scheme \<Rightarrow> bytes \<Rightarrow> bool" where
  "authentic c ch part \<longleftrightarrow> (\<exists>h m rest. ch_symVerifyHMAC ch = Some h \<and> ch_receiveBuffer ch = m @ hash_sum c h m @ rest
     \<and> part = take (length part) (drop 24 m))"

lemma read_symmetric_authentic:
  assumes "decrypt_in_place c buf ch = (Ok b, ch')" and "read_symmetric c ch' b = Ok (part, rid)"
    and "mode_signs (ch_securityMode ch')"
  shows "authentic c ch' part"
proof -
  have rb: "ch_receiveBuffer ch' = b @ drop (length b) (ch_receiveBuffer ch)"
    using assms(1) by (auto simp: decrypt_in_place_def split: res.splits)
  from assms(2) have ok: "sym_verify c ch' b = Ok ()" and body: "sym_body ch' b = Ok part"
    by (auto simp: read_symmetric_def res_bind_Ok)
  from sym_verify_mac [OF ok assms(3)] obtain h m where h: "ch_symVerifyHMAC ch' = Some h" and b: "b = m @ hash_sum c h m"
    and len: "length b = length m + SymSignatureSize (ch_securityPolicy ch')" by blast
  have "part = take (length part) (drop 24 m)" using sym_body_slice [OF body len] by (simp add: b)
  with h rb show ?thesis unfolding authentic_def by (intro exI conjI) (simp_all add: b)
qed

text \<open>What \<open>with_stream\<close> and the token switch leave alone.\<close>

lemma with_stream_conv:
  "with_stream s m ch = (Ok y, ch') \<longleftrightarrow> (\<exists>x s'. m s = (Ok x, s') \<and> y = (x, s') \<and> ch' = ch)"
  by (auto simp: with_stream_def split: prod.splits res.splits)

lemma andthen_conv: "andthen m n s = (Ok y, s'') \<longleftrightarrow> (\<exists>s'. m s = (Ok (), s') \<and> n s' = (Ok y, s''))"
  by (auto simp: andthen_def bnd_eq_Ok_conv)

lemma server_read_chunk_cases:
  assumes "server_read_chunk c ch = (Ok (part, rid, fin), ch')"
  obtains (symmetric) buf ch0 tok ch1 b ch2 where "ch_read ch = (Ok buf, ch0)" "buf \<noteq> []"
      "server_switch_token c tok ch0 = (Ok (), ch1)" "decrypt_in_place c buf ch1 = (Ok b, ch2)"
      "read_symmetric c ch2 b = Ok (part, rid)" "ch' = ch2"
  | (opn) buf ch0 s1 where "ch_read ch = (Ok buf, ch0)" "buf \<noteq> []" "ReadUInt32 buf = (Ok MessageTypeOpenFinal, s1)"
      "server_open c (length buf) ch0 = (Ok (part, rid), ch')"
proof -
  from assms obtain buf ch0 where rd: "ch_read ch = (Ok buf, ch0)"
    and rest: "(if buf = [] then throw (Status BadSecureChannelClosed)
     else bnd (with_stream buf ReadUInt32) (\<lambda>(messageType, s1).
     bnd (with_stream s1 ReadUInt32) (\<lambda>(messageLength, s2).
     if length buf \<noteq> unat messageLength then throw (Status BadDecodingError)
     else if messageType \<in> {MessageTypeChunk, MessageTypeFinal, MessageTypeCloseFinal} then
       bnd (with_stream s2 (dec_try ReadUInt32)) (\<lambda>(channelID, s3).
       bnd (\<lambda>ch. (Ok (ch_channelID ch), ch)) (\<lambda>own.
       if channelID \<noteq> own then throw (Status BadTCPSecureChannelUnknown)
       else bnd (with_stream s3 (dec_try ReadUInt32)) (\<lambda>(newTokenID, _).
       andthen (server_switch_token c newTokenID)
         (bnd (decrypt_in_place c buf) (\<lambda>b.
          bnd (\<lambda>ch. (read_symmetric c ch b, ch)) (\<lambda>(part, rid).
            ret (part, rid, messageType \<noteq> MessageTypeChunk)))))))
     else if messageType = MessageTypeOpenFinal then
       bnd (server_open c (length buf)) (\<lambda>(part, rid). ret (part, rid, True))
     else if messageType \<in> {MessageTypeError, MessageTypeAbort} then read_error s2
     else throw (Status BadUnknownResponse)))) ch0 = (Ok (part, rid, fin), ch')"
    unfolding server_read_chunk_def bnd_eq_Ok_conv [of _ "\<lambda>buf. if buf = [] then _ else _ buf"] orfail_eq_Ok_conv by blast
  have ne: "buf \<noteq> []" using rest by auto
  from rest ne obtain mt s1 len s2 where mt: "ReadUInt32 buf = (Ok mt, s1)" and "ReadUInt32 s1 = (Ok len, s2)"
    and cases: "mt \<in> {MessageTypeChunk, MessageTypeFinal, MessageTypeCloseFinal} \<and>
       (\<exists>tok ch1 b ch2. server_switch_token c tok ch0 = (Ok (), ch1) \<and> decrypt_in_place c buf ch1 = (Ok b, ch2)
          \<and> read_symmetric c ch2 b = Ok (part, rid) \<and> ch' = ch2)
     \<or> mt = MessageTypeOpenFinal \<and> server_open c (length buf) ch0 = (Ok (part, rid), ch')"
    by (fastforce simp: bnd_eq_Ok_conv with_stream_conv andthen_conv read_error_def split: if_splits)
  from cases show thesis
  proof
    assume "mt \<in> {MessageTypeChunk, MessageTypeFinal, MessageTypeCloseFinal} \<and>
       (\<exists>tok ch1 b ch2. server_switch_token c tok ch0 = (Ok (), ch1) \<and> decrypt_in_place c buf ch1 = (Ok b, ch2)
          \<and> read_symmetric c ch2 b = Ok (part, rid) \<and> ch' = ch2)"
    then show thesis by (elim conjE exE) (rule symmetric [OF rd ne])
  next
    assume "mt = MessageTypeOpenFinal \<and> server_open c (length buf) ch0 = (Ok (part, rid), ch')"
    with mt show thesis by (elim conjE) (rule opn [OF rd ne], simp_all)
  qed
qed

text \<open>Whatever the server reads as part of a request is authentic, or came in an open message.\<close>

lemma decrypt_in_place_mode:
  assumes "decrypt_in_place c buf ch = (Ok b, ch')"
  shows "ch_securityMode ch' = ch_securityMode ch" and "ch_in ch' = ch_in ch"
  using assms by (auto simp: decrypt_in_place_def split: res.splits)

lemma ch_read_Ok:
  assumes "ch_read ch = (Ok buf, ch0)"
  obtains ss where "conn_read (length (ch_receiveBuffer ch)) (ch_in ch) = (Ok (buf, None), ss)"
    and "ch0 = ch\<lparr>ch_in := ss, ch_receiveBuffer := buf @ drop (length buf) (ch_receiveBuffer ch)\<rparr>"
  using assms by (auto simp: ch_read_def Let_def split: if_splits prod.splits res.splits option.splits)

lemma server_reads_authentic:
  assumes "server_read_chunk c ch = (Ok (part, rid, fin), ch')" and "mode_signs (ch_securityMode ch)"
  shows "authentic c ch' part
    \<or> (\<exists>buf ch0 s1. ch_read ch = (Ok buf, ch0) \<and> ReadUInt32 buf = (Ok MessageTypeOpenFinal, s1))"
  using assms(1)
proof (cases rule: server_read_chunk_cases)
  case (symmetric buf ch0 tok ch1 b ch2)
  from symmetric(1) have "ch_securityMode ch0 = ch_securityMode ch" by (elim ch_read_Ok) simp
  moreover have "ch_securityMode ch1 = ch_securityMode ch0"
    using server_switch_token_frame(1) [OF symmetric(3)] by (simp add: same_io_def)
  moreover have "ch_securityMode ch2 = ch_securityMode ch1" by (rule decrypt_in_place_mode(1) [OF symmetric(4)])
  ultimately show ?thesis using read_symmetric_authentic [OF symmetric(4,5)] symmetric(6) assms(2) by simp
next
  case (opn buf ch0 s1)
  then show ?thesis by blast
qed

section \<open>The loop of \<open>readRequest\<close> ends\<close>

lemma conn_fill_size:
  "conn_fill n acc segs = (b, st, ss) \<Longrightarrow> length (concat ss) + length b = length (concat segs) + length acc"
proof (induction n acc segs rule: conn_fill.induct)
  case (2 count acc s ss')
  then show ?case by (auto simp: Let_def split: if_splits)
qed (auto split: if_splits)

lemma conn_read_size: "conn_read cap segs = (Ok (b, e), ss) \<Longrightarrow> length (concat ss) + length b = length (concat segs)"
  by (auto simp: conn_read_def Let_def dest!: conn_fill_size split: if_splits prod.splits fill.splits)

lemma lift_res_apply [simp]: "snd (lift_res r s) = s" "fst (lift_res r s) = r"
  by (simp_all add: lift_res_def)

lemma server_open_in:
  fixes ch :: "('priv, 'pub) ServerChannel"
  shows "ch_in (snd (server_open c n ch)) = ch_in ch"
proof -
  have "ch_in (snd (server_open_secured c hdr n ch)) = ch_in ch" for hdr ch
    by (simp add: server_open_secured_def Let_def case_prod_beta split: option.split res.split)
  moreover have "ch_in (snd (server_open_plain hdr n ch)) = ch_in ch" for hdr and ch :: "('priv, 'pub) ServerChannel"
    by (simp add: server_open_plain_def Let_def)
  ultimately show ?thesis by (simp add: server_open_def Let_def split: prod.split res.split option.split)
qed

lemma server_read_chunk_shorter:
  assumes "server_read_chunk c ch = (Ok x, ch')"
  shows "length (concat (ch_in ch')) < length (concat (ch_in ch))"
proof -
  obtain part rid fin where x: "x = (part, rid, fin)" by (cases x) auto
  have step: "length (concat (ch_in ch0)) < length (concat (ch_in ch))" if "ch_read ch = (Ok buf, ch0)" "buf \<noteq> []" for buf ch0
    using that(1)
  proof (rule ch_read_Ok)
    fix ss
    assume "conn_read (length (ch_receiveBuffer ch)) (ch_in ch) = (Ok (buf, None), ss)"
      and ch0: "ch0 = ch\<lparr>ch_in := ss, ch_receiveBuffer := buf @ drop (length buf) (ch_receiveBuffer ch)\<rparr>"
    from conn_read_size [OF this(1)] that(2) have "length (concat ss) < length (concat (ch_in ch))" by (cases buf) auto
    then show "length (concat (ch_in ch0)) < length (concat (ch_in ch))" by (simp add: ch0)
  qed
  from assms [unfolded x] show ?thesis
  proof (cases rule: server_read_chunk_cases)
    case (symmetric buf ch0 tok ch1 b ch2)
    have "ch_in ch' = ch_in ch0"
      using server_switch_token_frame(1) [OF symmetric(3)] decrypt_in_place_mode(2) [OF symmetric(4)] symmetric(6)
      by (simp add: same_io_def)
    with step [OF symmetric(1,2)] show ?thesis by simp
  next
    case (opn buf ch0 s1)
    with step [OF opn(1,2)] server_open_in [of c "length buf" ch0] opn(4) show ?thesis by simp
  qed
qed

text \<open>The packages return: the certificate parser and the RSA primitives, on keys of a positive size.\<close>

definition crypto_returns :: "('priv, 'pub) crypto \<Rightarrow> bool" where
  "crypto_returns c \<longleftrightarrow> (\<forall>x. cr_ParseCertificates c x \<noteq> NoFuel) \<and> (\<forall>s k x. cr_decrypt c s k x \<noteq> NoFuel)
   \<and> (\<forall>k. 0 < cr_priv_Size c k)"

named_theorems returns

definition ends :: "('s, 'a) act \<Rightarrow> 's \<Rightarrow> bool" where
  "ends m s \<longleftrightarrow> fst (m s) \<noteq> NoFuel"

lemma ends_basic [returns]: "ends (ret x) s" "ends (throw e) s" "r \<noteq> NoFuel \<Longrightarrow> ends (lift_res r) s"
  by (simp_all add: ends_def)

lemma ends_bnd [returns]:
  assumes "ends m s" and "\<And>x s'. m s = (Ok x, s') \<Longrightarrow> ends (f x) s'"
  shows "ends (bnd m f) s"
  using assms by (cases "m s"; cases "fst (m s)") (auto simp: ends_def bnd_def)

lemma ends_andthen [returns]:
  assumes "ends m s" and "\<And>s'. m s = (Ok (), s') \<Longrightarrow> ends n s'"
  shows "ends (andthen m n) s"
  unfolding andthen_def by (rule ends_bnd [OF assms(1)]) (simp add: assms(2))

lemma ends_orfail [returns]: "ends m s \<Longrightarrow> ends (orfail e m) s"
  by (simp add: ends_def fst_orfail_NoFuel)

lemma ends_if [returns]: "(b \<Longrightarrow> ends m s) \<Longrightarrow> (\<not> b \<Longrightarrow> ends n s) \<Longrightarrow> ends (if b then m else n) s"
  by simp

lemma ends_case_prod [returns]: "(\<And>a b. x = (a, b) \<Longrightarrow> ends (f a b) s) \<Longrightarrow> ends (case x of (a, b) \<Rightarrow> f a b) s"
  by (cases x) simp

lemma ends_total: "total_reader m \<Longrightarrow> ends m s"
  by (simp add: ends_def total_reader_def)

lemma ends_with_stream [returns]: "total_reader m \<Longrightarrow> ends (with_stream bs m) s"
  using ends_total [of m bs] by (auto simp: ends_def with_stream_def split: prod.splits res.splits)

lemma res_bind_ends: "res_bind r f = NoFuel \<longleftrightarrow> r = NoFuel \<or> (\<exists>x. r = Ok x \<and> f x = NoFuel)"
  by (cases r) (simp_all add: res_bind_def)

lemma read_sequence_ends [simp]: "read_sequence bs \<noteq> NoFuel"
proof -
  have "ends (bnd (dec_try ReadUInt32) (\<lambda>_. dec_try ReadUInt32)) bs"
    by (rule ends_total) (intro total_intros)
  then show ?thesis by (simp add: read_sequence_def ends_def)
qed

lemma rsa_decrypt_loop_ends:
  assumes "crypto_returns c" and "0 < ct"
  shows "rsa_decrypt_loop c p priv ct len blk ii jj rb \<noteq> NoFuel"
  using assms
proof (induction c p priv ct len blk ii jj rb rule: rsa_decrypt_loop.induct)
  case (1 c p priv ct len blk ii jj rb)
  have "RSADecrypt c p priv x \<noteq> NoFuel" for x
    using 1(2) by (simp add: RSADecrypt_def crypto_returns_def split: option.split)
  with 1 show ?case
    by (subst rsa_decrypt_loop.simps) (auto simp: Let_def split: res.split prod.split)
qed

lemma asym_body_ends [simp]: "asym_body ct sg hdr len rb \<noteq> NoFuel"
  by (simp add: asym_body_def Let_def)

lemma RSAVerify_ends [simp]: "RSAVerify c p k m sg \<noteq> NoFuel"
  by (simp add: RSAVerify_def split: option.split)

lemma server_open_ends:
  assumes "crypto_returns c"
  shows "ends (server_open c n) ch"
proof -
  have dec: "rsa_decrypt_loop c p priv (cr_priv_Size c priv) len blk ii jj rb \<noteq> NoFuel" for p priv len blk ii jj rb
    by (rule rsa_decrypt_loop_ends [OF assms]) (use assms in \<open>simp add: crypto_returns_def\<close>)
  have "ends (server_open_secured c hdr n) ch" for hdr ch
    using dec assms
    by (auto simp: ends_def server_open_secured_def Let_def case_prod_beta res_bind_ends split: option.split res.split)
  moreover have "ends (server_open_plain hdr n) ch" for hdr and ch :: "('a, 'b) ServerChannel"
    by (auto simp: ends_def server_open_plain_def Let_def res_bind_ends)
  ultimately show ?thesis
    by (simp add: ends_def server_open_def Let_def split: prod.split res.split option.split)
qed

lemma server_switch_token_ends: "ends (server_switch_token c tok) ch"
  by (auto simp: ends_def server_switch_token_def andthen_def bnd_def install_remote_keys_def install_local_keys_def Let_def
      split: option.splits)

lemma decrypt_in_place_ends: "ends (decrypt_in_place c buf) ch"
  by (auto simp: ends_def decrypt_in_place_def sym_decrypt_def CBC_decrypt_def res_bind_ends split: res.splits option.splits if_splits)

lemma read_symmetric_ends [simp]: "read_symmetric c ch b \<noteq> NoFuel"
  by (auto simp: read_symmetric_def sym_verify_def sym_body_def Let_def res_bind_ends split: option.splits if_splits)

lemma ch_read_ends: "ends ch_read ch"
  by (auto simp: ends_def ch_read_def conn_read_def Let_def split: prod.splits fill.splits option.splits if_splits)

lemma server_read_chunk_ends:
  assumes "crypto_returns c"
  shows "ends (server_read_chunk c) ch"
proof -
  have sym: "ends (\<lambda>ch. (read_symmetric c ch b, ch)) s" "ends (\<lambda>ch. (Ok (ch_channelID ch), ch)) s"
    for b and s :: "('a, 'b) ServerChannel" by (simp_all add: ends_def)
  show ?thesis
    unfolding server_read_chunk_def read_error_def
    by (intro returns total_intros ch_read_ends server_switch_token_ends decrypt_in_place_ends server_open_ends [OF assms] sym)
qed

lemma server_read_loop_ends:
  assumes "crypto_returns c" and "length (concat (ch_in ch)) < fuel"
  shows "fst (server_read_loop c fuel k body ch) \<noteq> NoFuel"
  using assms(2)
proof (induction fuel arbitrary: k body ch)
  case (Suc f)
  have "fst (server_read_loop c f k' body' ch') \<noteq> NoFuel" if "server_read_chunk c ch = (Ok x, ch')" for x ch' k' body'
    using server_read_chunk_shorter [OF that] Suc.prems by (intro Suc.IH) simp
  moreover have "fst (server_read_chunk c ch) \<noteq> NoFuel" using server_read_chunk_ends [OF assms(1)] by (simp add: ends_def)
  ultimately show ?case
    by (cases "server_read_chunk c ch"; cases "fst (server_read_chunk c ch)") (auto simp: bnd_def Let_def split: if_splits)
qed simp

end
