(* ===== verification/Channel_Hello.thy ===== *)
theory Channel_Hello
  imports Channel_Safety
begin

text \<open>
  The messages without security: the negotiation of Hello and Acknowledge, the error
  message of an abort, and a chunk too short for its signature.
\<close>

section \<open>Writing the fields\<close>

lemma holds_NewWriter: "holds (NewWriter pool) [] (length pool)"
  by (simp add: holds_def Writer_inv_def NewWriter_def Writer_Bytes_def Writer_room_def)

lemma holds_u32s:
  "holds w bs r \<Longrightarrow> 4 * length vs \<le> r \<Longrightarrow> holds (put_u32s vs w) (bs @ concat (map (le_bytes 4) vs)) (r - 4 * length vs)"
proof (induction vs arbitrary: w bs r)
  case (Cons v vs)
  have "holds (put (le_bytes 4 v) w) (bs @ le_bytes 4 v) (r - 4)"
    using holds_put [OF Cons.prems(1), of "le_bytes 4 v"] Cons.prems(2) by simp
  from Cons.IH [OF this] Cons.prems(2) show ?case by (simp add: put_u32s_def)
qed (simp add: put_u32s_def)

lemma holds_String:
  assumes "holds w bs r" and "length (wire_String s) < r"
  shows "holds (enc_put (WriteString writer_ops s) w) (bs @ wire_String s) (r - length (wire_String s))"
proof -
  have "writer.sink_ok (BytesWriter w)" and "writer.room (BytesWriter w) = r" using assms(1)
    by (simp_all add: writer.sink_ok_def writer.room_def holds_def)
  from writer.emits_cases [OF writer.emits_String this(1), of s] obtain w' where
    "WriteString writer_ops s (BytesWriter w) = (Ok (), w')" "writer.wrote (BytesWriter w) w' (wire_String s)"
    using assms(2) \<open>writer.room (BytesWriter w) = r\<close> by (metis not_le)
  then show ?thesis using assms(1)
    by (auto simp: writer.wrote_def writer.same_kind_def writer.sink_ok_def writer.room_def writer.content_def holds_def enc_put_def
        split: io_writer.splits)
qed

lemma length_wire_String: "length (wire_String s) = 4 + length s"
  by (simp add: wire_String_def wire_ByteString_def str_bytes_def)

lemma unat_word_of_nat: "n < 2 ^ 32 \<Longrightarrow> unat (word_of_nat n :: u32) = n"
  by (simp add: unsigned_of_nat take_bit_nat_eq_self)

text \<open>A message of words, its length the second of them.\<close>

lemma words_size:
  assumes "x = concat (map (le_bytes 4) ((a :: u32) # word_of_nat n # vs)) @ ys" and "length x = n" and "n < 2 ^ 32"
  shows "unat (le_word (take 4 (drop 4 x)) :: u32) = length x" and "8 \<le> length x"
  using assms(2,3) unat_word_of_nat [OF assms(3)]
  by (simp_all add: assms(1) le_word_le_bytes del: length_concat length_map)

lemma bnd_word:
  "bnd (with_stream (le_bytes 4 (v :: u32) @ r) ReadUInt32) f ch = f (v, r) ch"
  "bnd (with_stream (le_bytes 4 (v :: u32) @ r) (orfail e ReadUInt32)) f ch = f (v, r) ch"
  by (simp_all add: bnd_def with_stream_def orfail_def reads_ints)

lemma bnd_string:
  assumes "len_ok s"
  shows "bnd (with_stream (wire_String s @ r) ReadString) f ch = f (s, r) ch"
    and "bnd (with_stream (wire_String s @ r) (orfail e ReadString)) f ch = f (s, r) ch"
  using reads_String [OF assms, of r] by (simp_all add: bnd_def with_stream_def orfail_def)

lemma min_if: "(if b < a then b else a) = min a b" for a b :: u32
  by (auto simp: min_def dest: leD)

section \<open>Hello and Acknowledge\<close>

definition hello_message :: "('priv, 'pub) ClientChannel \<Rightarrow> bytes" where
  "hello_message ch = concat (map (le_bytes 4) [MessageTypeHello, word_of_nat (32 + length (cc_endpointURL ch)), protocolVersion,
     cc_receiveBufferSize ch, ch_sendBufferSize ch, ch_maxResponseMessageSize ch, ch_maxResponseChunkCount ch])
     @ wire_String (cc_endpointURL ch)"

definition ack_message :: "u32 \<Rightarrow> u32 \<Rightarrow> u32 \<Rightarrow> u32 \<Rightarrow> bytes" where
  "ack_message rbs sbs ms mc = concat (map (le_bytes 4) [MessageTypeAck, 28, protocolVersion, rbs, sbs, ms, mc])"

lemma length_hello: "length (hello_message ch) = 32 + length (cc_endpointURL ch)"
  by (simp add: hello_message_def length_wire_String)

lemma client_sends_hello:
  assumes "ch_connected ch" and "32 + length (cc_endpointURL ch) < length pool"
  shows "client_send_hello pool ch = (Ok (), ch\<lparr>ch_out := ch_out ch @ [hello_message ch]\<rparr>)"
proof -
  let ?vs = "[MessageTypeHello, word_of_nat (32 + length (cc_endpointURL ch)), protocolVersion,
     cc_receiveBufferSize ch, ch_sendBufferSize ch, ch_maxResponseMessageSize ch, ch_maxResponseChunkCount ch]"
  have "holds (put_u32s ?vs (NewWriter pool)) (concat (map (le_bytes 4) ?vs)) (length pool - 28)"
    using holds_u32s [OF holds_NewWriter, of ?vs pool] assms(2) by simp
  then have "holds (enc_put (WriteString writer_ops (cc_endpointURL ch)) (put_u32s ?vs (NewWriter pool))) (hello_message ch)
      (length pool - 28 - length (wire_String (cc_endpointURL ch)))"
    unfolding hello_message_def by (rule holds_String) (use assms(2) in \<open>simp add: length_wire_String\<close>)
  then have "Writer_Bytes (enc_put (WriteString writer_ops (cc_endpointURL ch)) (put_u32s ?vs (NewWriter pool))) = hello_message ch"
    by (simp add: holds_def)
  then show ?thesis using assms(1) by (simp add: client_send_hello_def Let_def chan_write_def)
qed

lemma server_answers_hello:
  fixes ch :: "('priv, 'pub) ServerChannel" and cl :: "('priv2, 'pub2) ClientChannel"
  assumes conn: "ch_connected ch" and st: "stream_of (ch_in ch) (hello_message cl)"
    and len: "32 + length (cc_endpointURL cl) \<le> length pool" "length (cc_endpointURL cl) < 2 ^ 31"
  shows "\<exists>segs. server_hello pool ch = (Ok (), ch\<lparr>ch_in := segs, sc_endpointURL := cc_endpointURL cl,
       sc_receiveBufferSize := min (sc_receiveBufferSize ch) (ch_sendBufferSize cl),
       ch_sendBufferSize := min (ch_sendBufferSize ch) (cc_receiveBufferSize cl),
       ch_maxResponseMessageSize := ch_maxResponseMessageSize cl, ch_maxResponseChunkCount := ch_maxResponseChunkCount cl,
       ch_out := ch_out ch @ [ack_message (min (sc_receiveBufferSize ch) (ch_sendBufferSize cl))
         (min (ch_sendBufferSize ch) (cc_receiveBufferSize cl)) (ch_maxRequestMessageSize ch) (ch_maxRequestChunkCount ch)],
       ch_receiveBuffer := replicate (unat (min (sc_receiveBufferSize ch) (ch_sendBufferSize cl))) 0\<rparr>)"
proof -
  let ?h = "hello_message cl" and ?n = "32 + length (cc_endpointURL cl)"
  have sz: "unat (le_word (take 4 (drop 4 ?h)) :: u32) = length ?h" "8 \<le> length ?h"
    by (rule words_size [where n = ?n, OF hello_message_def], use len in \<open>simp_all add: length_hello\<close>)+
  from conn_read_chunk [where rest = "[]", OF _ sz(2) _ sz(1)] st len(1) obtain segs where
    rd: "conn_read (length pool) (ch_in ch) = (Ok (?h, None), segs)" by (auto simp: length_hello)
  let ?buf = "?h @ drop (length ?h) pool"
  have big: "\<not> word_of_nat ?n < (28 :: u32)" "length ?buf = length pool"
    using len unat_word_of_nat [of ?n] by (simp_all add: word_less_nat_alt length_hello)
  have ack: "Writer_Bytes (put_u32s [MessageTypeAck, 28, protocolVersion, a, b, e, f] (NewWriter ?buf)) = ack_message a b e f"
    for a b e f
    using holds_u32s [OF holds_NewWriter, of "[MessageTypeAck, 28, protocolVersion, a, b, e, f]" ?buf] len big(2)
    by (simp add: holds_def ack_message_def)
  have "len_ok (cc_endpointURL cl)" using len(2) by (simp add: len_ok_def)
  note string = bnd_string [OF this]
  have buf: "?buf = le_bytes 4 MessageTypeHello @ le_bytes 4 (word_of_nat ?n :: u32) @ le_bytes 4 protocolVersion
      @ le_bytes 4 (cc_receiveBufferSize cl) @ le_bytes 4 (ch_sendBufferSize cl) @ le_bytes 4 (ch_maxResponseMessageSize cl)
      @ le_bytes 4 (ch_maxResponseChunkCount cl) @ wire_String (cc_endpointURL cl) @ drop (length ?h) pool"
    by (simp add: hello_message_def)
  have "server_hello pool ch = (Ok (), ch\<lparr>ch_in := segs, sc_endpointURL := cc_endpointURL cl,
       sc_receiveBufferSize := min (sc_receiveBufferSize ch) (ch_sendBufferSize cl),
       ch_sendBufferSize := min (ch_sendBufferSize ch) (cc_receiveBufferSize cl),
       ch_maxResponseMessageSize := ch_maxResponseMessageSize cl, ch_maxResponseChunkCount := ch_maxResponseChunkCount cl,
       ch_out := ch_out ch @ [ack_message (min (sc_receiveBufferSize ch) (ch_sendBufferSize cl))
         (min (ch_sendBufferSize ch) (cc_receiveBufferSize cl)) (ch_maxRequestMessageSize ch) (ch_maxRequestChunkCount ch)],
       ch_receiveBuffer := replicate (unat (min (sc_receiveBufferSize ch) (ch_sendBufferSize cl))) 0\<rparr>)"
    unfolding server_hello_def rd prod.case res.case option.case
    using conn big(1) unfolding Let_def ack unfolding buf
    by (simp add: bnd_word string min_if protocolVersion_def bnd_Ok orfail_Ok chan_write_def)
  then show ?thesis ..
qed

lemma client_reads_ack:
  assumes "ch_connected ch" and st: "stream_of (ch_in ch) (ack_message rbs sbs ms mc)" and len: "28 \<le> length pool"
  shows "\<exists>segs. client_read_ack pool ch = (Ok (), ch\<lparr>ch_in := segs, ch_sendBufferSize := rbs, cc_receiveBufferSize := sbs,
       ch_maxRequestMessageSize := ms, ch_maxRequestChunkCount := mc\<rparr>)"
proof -
  let ?a = "ack_message rbs sbs ms mc"
  have "?a = concat (map (le_bytes 4) (MessageTypeAck # word_of_nat 28 # [protocolVersion, rbs, sbs, ms, mc])) @ []"
    by (simp add: ack_message_def)
  note sz = words_size [OF this, unfolded ack_message_def]
  have "unat (le_word (take 4 (drop 4 ?a)) :: u32) = length ?a" "8 \<le> length ?a" "length ?a = 28"
    using sz by (simp_all add: ack_message_def)
  from conn_read_chunk [where rest = "[]", OF _ this(2) _ this(1)] this(3) st len obtain segs where
    rd: "conn_read (length pool) (ch_in ch) = (Ok (?a, None), segs)" by auto
  have buf: "?a @ drop (length ?a) pool = le_bytes 4 MessageTypeAck @ le_bytes 4 (28 :: u32) @ le_bytes 4 protocolVersion
      @ le_bytes 4 rbs @ le_bytes 4 sbs @ le_bytes 4 ms @ le_bytes 4 mc @ drop (length ?a) pool"
    by (simp add: ack_message_def)
  have "client_read_ack pool ch = (Ok (), ch\<lparr>ch_in := segs, ch_sendBufferSize := rbs, cc_receiveBufferSize := sbs,
       ch_maxRequestMessageSize := ms, ch_maxRequestChunkCount := mc\<rparr>)"
    unfolding client_read_ack_def rd prod.case res.case option.case using assms(1) unfolding Let_def buf
    by (simp add: bnd_word protocolVersion_def andthen_Ok)
  then show ?thesis ..
qed

text \<open>
  The negotiation: each side sends at most what the other receives, both know the other's
  limits, and the server's receive buffer has the size of the client's largest chunk.
\<close>

lemma hello_negotiated:
  fixes s :: "('priv, 'pub) ServerChannel" and cl :: "('priv2, 'pub2) ClientChannel"
  assumes seg: "\<And>bs. stream_of (seg bs) bs" and conn: "ch_connected s" "ch_connected cl"
    and len: "32 + length (cc_endpointURL cl) < length cpool" "32 + length (cc_endpointURL cl) \<le> length spool"
      "length (cc_endpointURL cl) < 2 ^ 31"
  shows "\<exists>h cl1 s1 a cl2. client_send_hello cpool cl = (Ok (), cl1) \<and> ch_out cl1 = ch_out cl @ [h]
     \<and> server_hello spool (s\<lparr>ch_in := seg h\<rparr>) = (Ok (), s1) \<and> ch_out s1 = ch_out s @ [a]
     \<and> client_read_ack cpool (cl1\<lparr>ch_in := seg a\<rparr>) = (Ok (), cl2)
     \<and> sc_endpointURL s1 = cc_endpointURL cl
     \<and> ch_sendBufferSize s1 = min (ch_sendBufferSize s) (cc_receiveBufferSize cl) \<and> cc_receiveBufferSize cl2 = ch_sendBufferSize s1
     \<and> ch_sendBufferSize cl2 = min (sc_receiveBufferSize s) (ch_sendBufferSize cl)
     \<and> length (ch_receiveBuffer s1) = unat (ch_sendBufferSize cl2)
     \<and> ch_maxRequestMessageSize cl2 = ch_maxRequestMessageSize s1 \<and> ch_maxRequestChunkCount cl2 = ch_maxRequestChunkCount s1
     \<and> ch_maxResponseMessageSize cl2 = ch_maxResponseMessageSize s1 \<and> ch_maxResponseChunkCount cl2 = ch_maxResponseChunkCount s1"
proof -
  let ?cl1 = "cl\<lparr>ch_out := ch_out cl @ [hello_message cl]\<rparr>"
  have h: "client_send_hello cpool cl = (Ok (), ?cl1)" by (rule client_sends_hello [OF conn(2) len(1)])
  let ?s = "s\<lparr>ch_in := seg (hello_message cl)\<rparr>"
  have "stream_of (ch_in ?s) (hello_message cl)" "ch_connected ?s" using seg conn(1) by simp_all
  from server_answers_hello [OF this(2,1) len(2,3)] obtain s1 where s1: "server_hello spool ?s = (Ok (), s1)"
    and f: "ch_out s1 = ch_out s @ [ack_message (min (sc_receiveBufferSize s) (ch_sendBufferSize cl))
         (min (ch_sendBufferSize s) (cc_receiveBufferSize cl)) (ch_maxRequestMessageSize s) (ch_maxRequestChunkCount s)]"
      "sc_endpointURL s1 = cc_endpointURL cl" "ch_sendBufferSize s1 = min (ch_sendBufferSize s) (cc_receiveBufferSize cl)"
      "length (ch_receiveBuffer s1) = unat (min (sc_receiveBufferSize s) (ch_sendBufferSize cl))"
      "ch_maxRequestMessageSize s1 = ch_maxRequestMessageSize s" "ch_maxRequestChunkCount s1 = ch_maxRequestChunkCount s"
      "ch_maxResponseMessageSize s1 = ch_maxResponseMessageSize cl" "ch_maxResponseChunkCount s1 = ch_maxResponseChunkCount cl"
    by auto
  let ?a = "ack_message (min (sc_receiveBufferSize s) (ch_sendBufferSize cl))
         (min (ch_sendBufferSize s) (cc_receiveBufferSize cl)) (ch_maxRequestMessageSize s) (ch_maxRequestChunkCount s)"
  have "stream_of (ch_in (?cl1\<lparr>ch_in := seg ?a\<rparr>)) ?a" "ch_connected (?cl1\<lparr>ch_in := seg ?a\<rparr>)" "28 \<le> length cpool"
    using seg conn(2) len(1) by simp_all
  from client_reads_ack [OF this(2,1,3)] obtain cl2 where "client_read_ack cpool (?cl1\<lparr>ch_in := seg ?a\<rparr>) = (Ok (), cl2)"
    and "ch_sendBufferSize cl2 = min (sc_receiveBufferSize s) (ch_sendBufferSize cl)"
      "cc_receiveBufferSize cl2 = min (ch_sendBufferSize s) (cc_receiveBufferSize cl)"
      "ch_maxRequestMessageSize cl2 = ch_maxRequestMessageSize s" "ch_maxRequestChunkCount cl2 = ch_maxRequestChunkCount s"
      "ch_maxResponseMessageSize cl2 = ch_maxResponseMessageSize cl" "ch_maxResponseChunkCount cl2 = ch_maxResponseChunkCount cl"
    by auto
  with h s1 f show ?thesis by auto
qed

section \<open>Errors\<close>

lemma ch_read_words:
  assumes "ch_connected ch" and "stream_of (ch_in ch) (x @ rest)" and "length x \<le> length (ch_receiveBuffer ch)"
    and "unat (le_word (take 4 (drop 4 x)) :: u32) = length x" and "8 \<le> length x"
  shows "\<exists>ch'. (\<forall>f. bnd (orfail e ch_read) f ch = f x ch') \<and>
     (\<exists>segs. ch' = ch\<lparr>ch_in := segs, ch_receiveBuffer := x @ drop (length x) (ch_receiveBuffer ch)\<rparr>)"
proof -
  from conn_read_chunk [OF assms(2,5,3,4)] obtain segs where
    "conn_read (length (ch_receiveBuffer ch)) (ch_in ch) = (Ok (x, None), segs)" by blast
  with assms(1) have "ch_read ch = (Ok x, ch\<lparr>ch_in := segs, ch_receiveBuffer := x @ drop (length x) (ch_receiveBuffer ch)\<rparr>)"
    by (simp add: ch_read_def Let_def)
  then have "bnd (orfail e ch_read) f ch = f x (ch\<lparr>ch_in := segs, ch_receiveBuffer := x @ drop (length x) (ch_receiveBuffer ch)\<rparr>)" for f
    by (simp add: bnd_def orfail_def)
  then show ?thesis by blast
qed

text \<open>The error message of an abort.\<close>

definition error_message :: "StatusCode \<Rightarrow> string \<Rightarrow> bytes" where
  "error_message reason msg = concat (map (le_bytes 4) [MessageTypeError, word_of_nat (16 + length msg), reason]) @ wire_String msg"

lemma server_abort_writes:
  assumes "ch_connected ch" and "16 + length msg < length pool"
  shows "server_abort pool reason msg ch = (Ok (), ch\<lparr>ch_out := ch_out ch @ [error_message reason msg], ch_connected := False\<rparr>)"
proof -
  let ?vs = "[MessageTypeError, word_of_nat (16 + length msg), reason]"
  have "holds (put_u32s ?vs (NewWriter pool)) (concat (map (le_bytes 4) ?vs)) (length pool - 12)"
    using holds_u32s [OF holds_NewWriter, of ?vs pool] assms(2) by simp
  then have "holds (enc_put (WriteString writer_ops msg) (put_u32s ?vs (NewWriter pool))) (error_message reason msg)
      (length pool - 12 - length (wire_String msg))"
    unfolding error_message_def by (rule holds_String) (use assms(2) in \<open>simp add: length_wire_String\<close>)
  then have "Writer_Bytes (enc_put (WriteString writer_ops msg) (put_u32s ?vs (NewWriter pool))) = error_message reason msg"
    by (simp add: holds_def)
  then show ?thesis using assms(1) by (simp add: server_abort_def Let_def)
qed

lemma client_reads_error:
  assumes "ch_connected ch" and "stream_of (ch_in ch) (error_message reason msg @ rest)"
    and "16 + length msg \<le> length (ch_receiveBuffer ch)" and "length msg < 2 ^ 31"
  shows "fst (client_read_loop c (Suc f) 0 [] ch) = Err (Status reason)"
proof -
  let ?x = "error_message reason msg"
  have len: "length ?x = 16 + length msg" by (simp add: error_message_def length_wire_String)
  have sz: "unat (le_word (take 4 (drop 4 ?x)) :: u32) = length ?x" "8 \<le> length ?x"
    by (rule words_size [where n = "16 + length msg", OF error_message_def], use assms(4) len in simp_all)+
  from ch_read_words [OF assms(1,2) _ sz, of "Status BadSecureChannelClosed"] assms(3) len obtain ch1 where
    rd: "\<And>f :: bytes \<Rightarrow> (('a, 'b) ClientChannel, bytes \<times> bool) act.
        bnd (orfail (Status BadSecureChannelClosed) ch_read) f ch = f ?x ch1" by auto
  have "len_ok msg" using assms(4) by (simp add: len_ok_def)
  note string = bnd_string [OF this, where r = "[]", simplified]
  have x: "?x = le_bytes 4 MessageTypeError @ le_bytes 4 (word_of_nat (16 + length msg) :: u32) @ le_bytes 4 reason @ wire_String msg"
    by (simp add: error_message_def)
  have ne: "?x \<noteq> []" using len by auto
  have n: "length ?x = unat (word_of_nat (16 + length msg) :: u32)"
    using unat_word_of_nat [of "16 + length msg"] assms(4) len by simp
  have "fst (client_read_chunk c ch) = Err (Status reason)"
    unfolding client_read_chunk_def rd using ne n
    by (simp add: x bnd_word string read_error_def message_types)
  then have "\<exists>ch'. client_read_chunk c ch = (Err (Status reason), ch')" by (cases "client_read_chunk c ch") simp
  moreover have "\<not> (0 < int (unat lm) \<and> int (unat lm) < 1)" for lm :: u32 by auto
  ultimately show ?thesis by (auto simp: bnd_Err Let_def)
qed

text \<open>
  A chunk of 16 bytes: its header names the channel and the token in use, nothing follows,
  and the start of the signature is before that of the chunk.
\<close>

lemma server_short_chunk:
  assumes "ch_connected ch" and "ch_securityMode ch = MessageSecurityModeSign" and "16 < SymSignatureSize (ch_securityPolicy ch)"
    and "16 \<le> length (ch_receiveBuffer ch)"
    and "mt \<in> {MessageTypeChunk, MessageTypeFinal, MessageTypeCloseFinal}"
    and "stream_of (ch_in ch) (concat (map (le_bytes 4) [mt, 16, ch_channelID ch, ch_tokenID ch]) @ rest)"
  shows "fst (server_read_chunk c ch) = Panic"
proof -
  let ?x = "concat (map (le_bytes 4) [mt, 16, ch_channelID ch, ch_tokenID ch])"
  have len: "length ?x = 16" by simp
  have "?x = concat (map (le_bytes 4) (mt # word_of_nat 16 # [ch_channelID ch, ch_tokenID ch])) @ []" by simp
  note sz = words_size [OF this len]
  have sz: "unat (le_word (take 4 (drop 4 ?x)) :: u32) = length ?x" "8 \<le> length ?x" by (rule sz, simp)+
  from ch_read_words [OF assms(1,6) _ sz, of "Status BadSecureChannelClosed"] assms(4) len obtain ch1 segs where
    rd: "\<And>f :: bytes \<Rightarrow> (('a, 'b) ServerChannel, bytes \<times> u32 \<times> bool) act.
        bnd (orfail (Status BadSecureChannelClosed) ch_read) f ch = f ?x ch1"
    and ch1: "ch1 = ch\<lparr>ch_in := segs, ch_receiveBuffer := ?x @ drop (length ?x) (ch_receiveBuffer ch)\<rparr>" by auto
  have x: "?x = le_bytes 4 mt @ le_bytes 4 (16 :: u32) @ le_bytes 4 (ch_channelID ch) @ le_bytes 4 (ch_tokenID ch) @ []" by simp
  have ne: "?x \<noteq> []" "length ?x = unat (16 :: u32)" using len by auto
  have "fst (read_symmetric c ch' ?x, ch') = Panic"
    if "ch_securityMode ch' = ch_securityMode ch" "ch_securityPolicy ch' = ch_securityPolicy ch" for ch' :: "('a, 'b) ServerChannel"
    using assms(2,3) that len
    by (simp add: read_symmetric_def sym_verify_def mode_signs_def res_bind_def Let_def split: option.split)
  then have sym: "read_symmetric c ch1 ?x = Panic" by (simp add: ch1)
  have dec: "decrypt_in_place c ?x ch1 = (Ok ?x, ch1)" using assms(2) by (simp add: ch1 decrypt_in_place_def sym_decrypt_def)
  have sw: "server_switch_token c (ch_tokenID ch) ch1 = (Ok (), ch1)" by (simp add: ch1 server_switch_token_def)
  have own: "ch_channelID ch1 = ch_channelID ch" by (simp add: ch1)
  show ?thesis
    unfolding server_read_chunk_def rd if_not_P [OF ne(1)] unfolding x bnd_word prod.case
    using ne(2) assms(5) sw dec sym own unfolding x
    by (simp add: bnd_word andthen_Ok bnd_Ok bnd_def)
qed

end
