(* ===== verification/Channel_Examples.thy ===== *)
theory Channel_Examples
  imports Channel_Hello Examples
begin

text \<open>
  The two ends of a small channel that signs and encrypts, between the issue of its first
  token and the first message; a request and a response.
\<close>

definition demo_crypto :: "(unit, unit) crypto" where
  "demo_crypto = \<lparr>cr_hmac = (\<lambda>h key m. replicate (hash_size h) (sum_list key + sum_list m)),
     cr_aes_encrypt = (\<lambda>key b. rev b), cr_aes_decrypt = (\<lambda>key b. rev b),
     cr_priv_Size = (\<lambda>_. 256), cr_pub_Size = (\<lambda>_. 256),
     cr_sign = (\<lambda>_ _ _ _. Err ErrEOF), cr_verify = (\<lambda>_ _ _ _. False),
     cr_encrypt = (\<lambda>_ _ _ _. Err ErrEOF), cr_decrypt = (\<lambda>_ _ _. Err ErrEOF),
     cr_sha1 = (\<lambda>_. []), cr_ParseCertificates = (\<lambda>_. Err ErrEOF)\<rparr>"

lemma demo_crypto_ok: "crypto_ok demo_crypto" "crypto_returns demo_crypto"
  by (simp_all add: demo_crypto_def crypto_ok_def crypto_returns_def)

definition demo_server :: "(unit, unit) ServerChannel" where
  "demo_server = \<lparr>ch_securityPolicyURI = PolicyURI SecurityPolicyBasic256Sha256, ch_securityPolicy = SecurityPolicyBasic256Sha256,
     ch_securityMode = MessageSecurityModeSignAndEncrypt, ch_channelID = 7, ch_tokenID = 0, ch_sequenceNumber = 51,
     ch_localNonce = [], ch_remoteNonce = [], ch_localCertificate = None, ch_remoteCertificate = None,
     ch_localPrivateKey = None, ch_remotePublicKey = None, ch_symSignHMAC = None, ch_symVerifyHMAC = None,
     ch_symEncryptingBlockCipher = None, ch_symDecryptingBlockCipher = None, ch_localInitializationVector = [],
     ch_remoteInitializationVector = [], ch_sendBufferSize = 128, ch_receiveBuffer = replicate 160 0,
     ch_maxRequestMessageSize = 0, ch_maxRequestChunkCount = 4, ch_maxResponseMessageSize = 1000, ch_maxResponseChunkCount = 0,
     ch_connected = True, ch_in = [], ch_out = [], sc_lastTokenID = 0, sc_pendingTokenID = 0, sc_pendingTokenExpiration = 0,
     sc_tokenExpiration = 0, sc_remoteCertificateThumbprint = None, sc_receiveBufferSize = 160, sc_endpointURL = []\<rparr>"

definition demo_client :: "(unit, unit) ClientChannel" where
  "demo_client = \<lparr>ch_securityPolicyURI = PolicyURI SecurityPolicyBasic256Sha256, ch_securityPolicy = SecurityPolicyBasic256Sha256,
     ch_securityMode = MessageSecurityModeSignAndEncrypt, ch_channelID = 7, ch_tokenID = 0, ch_sequenceNumber = 3,
     ch_localNonce = [], ch_remoteNonce = [], ch_localCertificate = None, ch_remoteCertificate = None,
     ch_localPrivateKey = None, ch_remotePublicKey = None, ch_symSignHMAC = None, ch_symVerifyHMAC = None,
     ch_symEncryptingBlockCipher = None, ch_symDecryptingBlockCipher = None, ch_localInitializationVector = [],
     ch_remoteInitializationVector = [], ch_sendBufferSize = 160, ch_receiveBuffer = replicate 128 0,
     ch_maxRequestMessageSize = 0, ch_maxRequestChunkCount = 4, ch_maxResponseMessageSize = 1000, ch_maxResponseChunkCount = 0,
     ch_connected = True, ch_in = [], ch_out = [], cc_sendingTokenID = 0, cc_receivingTokenID = 0, cc_poolSize = 160,
     cc_receiveBufferSize = 128, cc_endpointURL = ''opc.tcp://demo'', cc_remoteThumbprint = []\<rparr>"

definition demo_open :: open_request where
  "demo_open = \<lparr>oq_RequestType = 0, oq_SecurityMode = MessageSecurityModeSignAndEncrypt, oq_ClientNonce = replicate 32 5,
     oq_RequestedLifetime = 60000, oq_RequestHandle = 1\<rparr>"

definition demo_nonce :: "nat \<Rightarrow> bytes" where "demo_nonce n = replicate n 9"

definition demo_issued :: open_response where
  "demo_issued = \<lparr>os_RequestHandle = 1, os_ServerProtocolVersion = 0, os_ChannelID = 7, os_TokenID = 1, os_CreatedAt = 0,
     os_RevisedLifetime = 300000, os_ServerNonce = replicate 32 9\<rparr>"

definition demo_server1 :: "(unit, unit) ServerChannel" where
  "demo_server1 = demo_server\<lparr>ch_localNonce := replicate 32 9, ch_remoteNonce := replicate 32 5, sc_lastTokenID := 1,
     sc_pendingTokenID := 1, sc_pendingTokenExpiration := 300000000000\<rparr>"

definition demo_client1 :: "(unit, unit) ClientChannel" where
  "demo_client1 = demo_client\<lparr>ch_tokenID := 1, ch_localNonce := replicate 32 5, ch_remoteNonce := replicate 32 9\<rparr>"

lemma demo_max_body:
  "max_body MessageSecurityModeSignAndEncrypt SecurityPolicyBasic256Sha256 160 = 103"
  "max_body MessageSecurityModeSignAndEncrypt SecurityPolicyBasic256Sha256 128 = 71"
  by (simp_all add: max_body_def plan_chunk_def signed_divide_int_def)

lemma demo_agreed: "agreed demo_crypto demo_server demo_client"
  by (simp add: agreed_def demo_crypto_ok demo_server_def demo_client_def demo_max_body)

lemma demo_issue:
  "andthen (server_set_nonces demo_nonce demo_open) (server_new_token 0 demo_open) demo_server = (Ok demo_issued, demo_server1)"
  "client_token_issued (oq_ClientNonce demo_open) demo_issued demo_client = (Ok (), demo_client1)"
  by (simp_all add: andthen_def bnd_def server_set_nonces_def server_new_token_def getNextTokenID_def next_number_def Let_def
      demo_server_def demo_server1_def demo_issued_def demo_open_def demo_nonce_def revise_lifetime_def maxTokenLifetime_def
      minTokenLifetime_def protocolVersion_def client_token_issued_def demo_client_def demo_client1_def)

lemma demo_paired: "paired demo_crypto (request_direction demo_crypto demo_client1) (response_direction demo_crypto demo_server1)
    demo_server1 demo_client1"
  by (rule issued_paired [OF demo_agreed demo_issue])
     (simp_all add: demo_server_def demo_client_def demo_issued_def)

text \<open>Every byte in a segment of its own.\<close>

definition bytewise :: "bytes \<Rightarrow> bytes list" where
  "bytewise bs = map (\<lambda>b. [b]) bs"

lemma stream_bytewise: "stream_of (bytewise bs) bs"
  by (auto simp: stream_of_def bytewise_def)

section \<open>A request and a response\<close>

definition demo_request :: goval where
  "demo_request = VStruct ''CloseSessionRequest'' [RequestHeader_type, TScalar KBool]
     [VStruct ''RequestHeader'' [TScalar KNodeID, TScalar KDateTime, TScalar KUint32, TScalar KUint32, TScalar KString,
          TScalar KUint32, TExtensionObject]
        [VScalar (SNodeID (Some (NodeIDNumeric 0 9))), VScalar (SDateTime (Time 0 0)), VScalar (SUint32 5), VScalar (SUint32 0),
         VScalar (SString ''a''), VScalar (SUint32 15000), VNil], VScalar (SBool True)]"

definition demo_response :: goval where
  "demo_response = VStruct ''CloseSessionResponse'' [ResponseHeader_type]
     [VStruct ''ResponseHeader'' [TScalar KDateTime, TScalar KUint32, TScalar KStatusCode, TDiagnosticInfo,
          TSlice (TScalar KString), TExtensionObject]
        [VScalar (SDateTime (Time 0 0)), VScalar (SUint32 5), VScalar (SStatusCode 0), VDiagnosticInfo (DiagnosticInfo None None None None None None None),
         VSlice (TScalar KString) (Some []), VNil]]"

lemmas demo_message_defs = demo_request_def demo_response_def RequestHeader_type_def ResponseHeader_type_def time_ok_def

lemma demo_messages_ok: "ok_dyn True demoRegistry [] demo_request" "ok_dyn True demoRegistry [] demo_response"
  by (simp_all add: demo_simps demo_message_defs wire_DiagnosticInfo.simps)

lemma demo_messages_length:
  "length (wire_NodeID (Some (NodeIDNumeric 0 473)) @ wire_dyn demoRegistry [] demo_request) = 35"
  "length (wire_NodeID (Some (NodeIDNumeric 0 476)) @ wire_dyn demoRegistry [] demo_response) = 28"
  by (simp_all add: demo_simps demo_message_defs wire_DiagnosticInfo.simps)

lemma demo_fits:
  "x \<noteq> [] \<Longrightarrow> length x \<le> 103 \<Longrightarrow> request_fits demo_client1 x"
  "x \<noteq> [] \<Longrightarrow> length x \<le> 71 \<Longrightarrow> response_fits demo_server1 x"
  using chunk_number_last [of "int (length x)" 103]
  by (simp_all add: request_fits_def response_fits_def allows_def request_chunks_def demo_client1_def demo_client_def
      demo_server1_def demo_server_def demo_max_body)

text \<open>The bodies of both messages.\<close>

definition demo_request_body :: bytes where
  "demo_request_body = wire_NodeID (Some (NodeIDNumeric 0 473)) @ wire_dyn demoRegistry [] demo_request"

definition demo_response_body :: bytes where
  "demo_response_body = wire_NodeID (Some (NodeIDNumeric 0 476)) @ wire_dyn demoRegistry [] demo_response"

lemma demo_bodies [simp]: "length demo_request_body = 35" "length demo_response_body = 28"
  using demo_messages_length by (simp_all add: demo_request_body_def demo_response_body_def)

lemma demo_bodies_fit: "request_fits demo_client1 demo_request_body" "response_fits demo_server1 demo_response_body"
proof -
  have "demo_request_body \<noteq> []" "demo_response_body \<noteq> []" using demo_bodies by (metis list.size(3) zero_neq_numeral)+
  then show "request_fits demo_client1 demo_request_body" "response_fits demo_server1 demo_response_body"
    by (simp_all add: demo_fits)
qed

text \<open>A channel without security; and a chunk as the client seals it, with what the server makes of it.\<close>

definition demo_plain :: "(unit, unit) ServerChannel" where
  "demo_plain = demo_server\<lparr>ch_securityMode := MessageSecurityModeNone, ch_securityPolicy := SecurityPolicyNone,
     ch_securityPolicyURI := SecurityPolicyURINone, ch_tokenID := 1\<rparr>"

lemma demo_plain_writes: "writes (keyed demo_crypto demo_plain 1 [] []) demo_plain"
  by (simp add: writes_def keyed_def Let_def demo_plain_def demo_server_def sender_keys_def keys_ok_def mode_signs_def
      max_body_def plan_chunk_def)

definition demo_sealed :: bytes where
  "demo_sealed =
     (let d = request_direction demo_crypto demo_client1; pl = plan_chunk (d_mode d) (d_policy d) 160 3
      in seal demo_crypto (d_mode d) (d_hash d) (d_key d) (d_iv d)
           (chunk_text MessageTypeFinal (word_of_int (cp_chunkSize pl)) (d_channelID d) (d_tokenID d) 4 5
              (take (nat (cp_bodySize pl)) [1, 2, 3]) (plan_padding (d_mode d) pl)))"

lemma writes_room:
  assumes "writes d ch"
  shows "keys_ok (d_mode d) (d_policy d) (d_hash d) (d_key d) (d_iv d)"
    and "0 < max_body (d_mode d) (d_policy d) (ch_sendBufferSize ch)" and "unat (ch_sendBufferSize ch) \<le> d_size d"
  using assms by (auto simp: writes_def sender_keys_def)

lemma demo_read: "\<exists>part ch'. server_read_chunk demo_crypto (demo_server1\<lparr>ch_in := [demo_sealed]\<rparr>) = (Ok (part, 5, True), ch')"
proof -
  let ?d = "request_direction demo_crypto demo_client1"
  have l: "server_reads demo_crypto ?d demo_server1" "writes ?d (client_sending_token demo_crypto demo_client1)"
    and size: "ch_sendBufferSize demo_client1 = 160"
    using demo_paired by (simp_all add: paired_def demo_client1_def demo_client_def)
  have "ch_sendBufferSize (client_sending_token demo_crypto demo_client1) = 160" using size by simp
  note w = writes_room [OF l(2), unfolded this]
  have "\<exists>part. chunk_of demo_crypto ?d 5 MessageTypeFinal demo_sealed part"
    unfolding demo_sealed_def Let_def
    by (rule exI, rule plan_chunk_of [OF demo_crypto_ok(1) w(1) _ _ w(2) refl w(3)]) simp_all
  then obtain part where ch: "chunk_of demo_crypto ?d 5 MessageTypeFinal demo_sealed part" by blast
  from chunk_of_header(1) [OF ch] have "demo_sealed \<noteq> []" by auto
  then have st: "stream_of (ch_in (demo_server1\<lparr>ch_in := [demo_sealed]\<rparr>)) (demo_sealed @ [])" by (simp add: stream_of_def)
  from server_reads_in [OF l(1), where i = "[demo_sealed]"] obtain s1 where
    sw: "server_switch_token demo_crypto (d_tokenID ?d) (demo_server1\<lparr>ch_in := [demo_sealed]\<rparr>) = (Ok (), s1)"
    and rd: "server_reads demo_crypto ?d (demo_server1\<lparr>ch_in := [demo_sealed]\<rparr>)" by blast
  from server_read_chunk_ok [OF demo_crypto_ok(1) rd st sw ch] show ?thesis by auto
qed

end
