(* ===== verification/Spec2Isabelle.thy ===== *)
theory Spec2Isabelle
  imports Server_Examples Node_Examples Event_Filter Channel_Examples
begin

text \<open>
  A verification of the OPC UA stack in Go under \<open>src/opcua\<close>: the binary codec of
  package \<open>ua\<close>, the secure channel between the packages \<open>client\<close> and \<open>server\<close>, and, of
  package \<open>server\<close>, the sessions, monitored items, subscriptions, the address space with
  its roles and permissions, and the services on them.

  \<^bold>\<open>The program.\<close> A client opens a secure channel
  (\<open>client/client_secure_channel.go\<close>, \<open>server/server_secure_channel.go\<close>): the two ends
  agree on buffer sizes, exchange nonces in asymmetrically protected messages and derive
  symmetric keys from them, renewed with every security token. A message is encoded in
  the OPC UA binary format and sent in chunks, padded, signed and encrypted as the
  security policy (\<open>ua/security_policy.go\<close>) and the mode ask. The server decodes requests (\<open>ua/binary_decoder.go\<close>) into
  structures found in a registry of encoding ids (\<open>ua/binary_registry.go\<close>) and
  encodes the responses (\<open>ua/binary_encoder.go\<close>) into a random-access buffer or,
  for nested bodies, a fixed-size byte writer (\<open>ua/bytes_writer.go\<close>). A session
  (\<open>server/session.go\<close>) parks publish requests and browse continuation points. A
  subscription (\<open>server/subscription.go\<close>) runs a publishing cycle on a ticker: it
  polls its items (\<open>server/datachange_monitored_item.go\<close>,
  \<open>server/event_monitored_item.go\<close>), takes a parked publish request of its session,
  answers it with the notifications, keeps the message for retransmission until the
  client acknowledges it, and expires when the client stops asking. The server keeps
  tables of both (\<open>server/session_manager.go\<close>, \<open>server/subscription_manager.go\<close>), and
  its handlers (\<open>server/server_service_set.go\<close>) find the session of a request by its
  token and act on the tables, or on the nodes of the address space
  (\<open>server/namespace_manager.go\<close> and the node types), as far as the roles of the user
  (\<open>server/roles_provider.go\<close>) permit. The operations of one such request run as tasks
  on a pool of goroutines.

  \<^bold>\<open>The theories.\<close>
  \<^item> \<open>Prelude\<close>: results with Go errors, panics and exhausted fuel, the state monad of
    fallible operations, little-endian bytes, \<open>io.ReadFull\<close>.
  \<^item> \<open>Bytes_Writer\<close>: the byte writer, and the locale \<open>buffer_at\<close> with what the
    encoder relies on of \<open>buffer.BufferAt\<close> (a package outside the repository); the
    byte writer interprets it. Inside the locale, \<open>emits m bs\<close> says that a writer
    operation appends \<open>bs\<close> or fails with \<open>BadEncodingError\<close> for lack of room.
  \<^item> \<open>Go_Text\<close>, \<open>Identifiers\<close>: decimal and base64 text, node ids, expanded node ids,
    qualified names, localized texts, their parsers and printers.
  \<^item> \<open>Wire_Primitives\<close>, \<open>Wire_Scalars\<close>: the readers and writers of the built-in types
    and of their arrays, the bytes they stand for, and that readers invert writers.
  \<^item> \<open>Codec\<close>: the registry and the mutually recursive encoder and decoder of
    structures, slices, variants, extension objects, data values and diagnostic infos.
    \<open>Codec_Wire\<close> gives the bytes of a value and shows that the encoder emits them;
    \<open>Codec_Roundtrip\<close> that the decoder reads them back; \<open>Codec_Safety\<close> that it ends.
  \<^item> \<open>Float64\<close>: binary64 arithmetic as rationals with rounding to even.
  \<^item> \<open>Session\<close>, \<open>Monitored_Item\<close>, \<open>Subscription\<close>: the state of each as a record, one
    function per method, the invariants and that every method keeps them. The two
    kinds of item share the locale \<open>notification_queue\<close>.
  \<^item> \<open>Managers\<close>: the state of the server, the two tables and the periodic checks. Both
    tables interpret the locale \<open>limited_table\<close>, a bounded map.
  \<^item> \<open>Publish_Service\<close>: the checks every handler begins with (\<open>with_session\<close>), the
    subscription services, the monitored item services that need no node, closing and
    cancelling, and the dispatcher \<open>handleRequest\<close>.
  \<^item> \<open>Service_Safety\<close>: the invariant of the server, that every handler, tick and check
    keeps it and none panics, and the reachable states (\<open>server_reach\<close>).
    \<open>Service_Access\<close>: what a request may change, and for whom.
  \<^item> \<open>Runes\<close>, \<open>Index_Range\<close>: strings as lists of runes, and the parts of values an index
    range reads and writes. Lists interpret the locale \<open>range_view\<close>, the laws of a lens.
  \<^item> \<open>Roles\<close>: which roles the mapping rules give an identity, and what they permit.
  \<^item> \<open>Address_Space\<close>: the table of nodes, lookups, supertypes, adding and deleting nodes.
    The invariants are that every reference has its inverse (\<open>symmetric\<close>) and that the
    cache of variant types is right (\<open>cache_ok\<close>).
  \<^item> \<open>Node_Access\<close>: reading and writing an attribute of a node, the checks on the type of a
    written value, and that variables keep their types (\<open>typed\<close>). \<open>Node_View\<close>: browsing a
    node and following a path. \<open>Write_Pool\<close>: the write tasks of a request as a small
    concurrent program.
  \<^item> \<open>Node_Service\<close>: the attribute and view services on the whole server (\<open>UAServer\<close>) and the
    dispatcher \<open>handleUARequest\<close> of all modelled services. \<open>Node_Service_Safety\<close>: what
    requests keep and what they may change, and the reachable states (\<open>ua_reach\<close>).
  \<^item> \<open>Event_Filter\<close>: the event structures, the fields a select clause takes from them,
    and the where clause.
  \<^item> \<open>Security_Policy\<close>: the policies, cipher block chaining over a block cipher, and the
    key derivation, equal to the \<open>P_hash\<close> of its standard. \<open>Ua_Structs\<close>: the generated
    structures as types of the codec, with their registration. \<open>Channel_Messages\<close>: the
    requests and responses, their encoding ids, and bodies.
  \<^item> \<open>Secure_Channel\<close>: both ends of a channel as records that share the fields of
    \<open>Channel\<close>, reading from and writing to a connection, and symmetric chunks.
    \<open>Channel_Open\<close>: asymmetric messages, the issue and renewal of tokens, reading whole
    messages, Hello and Acknowledge, and aborting.
  \<^item> \<open>Channel_Roundtrip\<close>: what a chunk is on the wire, that a writer produces it and a
    reader inverts it. The loops of the four writers and readers interpret the locales
    \<open>chunk_writer\<close> and \<open>chunk_reader\<close>. \<open>Channel_Delivery\<close>: two ends that hold the same keys
    (\<open>paired\<close>), how a token brings them there, and whole conversations (\<open>exchange\<close>).
    \<open>Channel_Safety\<close>: what an accepted chunk proves, and that reading ends.
    \<open>Channel_Hello\<close>: the negotiation, errors and aborts.
  \<^item> \<open>Examples\<close>, \<open>Server_Examples\<close>, \<open>Node_Examples\<close>, \<open>Channel_Examples\<close>: concrete values at
    which the properties are applied.

  \<^bold>\<open>How the code is read.\<close> A method is a function from the old state to the result and
  the new state. A Go panic is the result \<open>Panic\<close> (or \<open>Panicked\<close>), an operation on a
  nil channel that never returns is \<open>None\<close> (or \<open>Blocked\<close>). A nil map, slice or channel
  is \<open>None\<close>. Integers have their width and wrap. A value of the reflection-driven codec
  carries its Go type (\<open>gotype\<close>, \<open>goval\<close>). Locks are not modelled: a method runs
  alone, as its lock makes it. Instants are nanoseconds. A write task takes two steps, the
  computation of the new value and the setter, each under a lock of its own; a schedule,
  the list of the tasks in the order of their steps, is an argument of the handler, and
  the theorems hold for every schedule. Read handlers and write handlers of the
  application return a value and leave the address space as it is.

  \<^bold>\<open>Parameters.\<close> The random-access buffer (its laws are the locale \<open>buffer_at\<close>), the
  text form of a GUID, the write of a response to a secure channel, the value read
  for an item, whether two slices share memory, the order in which Go visits a map, the
  thumbprint of a certificate, the read and write handlers of a variable, the
  double-ended queue of the walk over children (its laws are \<open>deque_laws\<close>), the
  schedules, and the results of \<open>time.Now()\<close>. The cryptographic packages are the record
  \<open>crypto\<close>: \<open>crypto_ok\<close> says that a keyed hash has the size of its hash and that
  decrypting a block inverts encrypting it, \<open>crypto_returns\<close> that RSA and the parsing of
  certificates return. Random bytes, the validation of a certificate, the content of a
  pooled buffer before its use, and the segments in which the network delivers the bytes
  (\<open>seg\<close>, with \<open>stream_of\<close>: only their concatenation is given) are arguments as well.

  \<^bold>\<open>Fuel.\<close> The decoder recurses through variants and extension objects; each level
  reads at least one byte, so fuel above the number of bytes is never used up
  (\<open>decode_terminates\<close>). The walk over the children of a node has fuel, enough of
  which exists when no node is its own descendant (\<open>children_walk_ends\<close>). The loop that
  sends the chunks of a message takes the length of its body as fuel, as every chunk takes
  at least one byte; the loop that reads them more than the bytes on the connection
  (\<open>request_reading_ends\<close>). The where clause of an event filter ends when its elements do
  not refer to each other in a cycle (\<open>where_clause_ends\<close>). The search for
  a variant type is a partial function; when it ends is \<open>FindVariantType_terminates_iff\<close>.

  \<^bold>\<open>Not modelled.\<close> Sockets and their deadlines, the validation of certificates, the
  dispatch of responses to the callers of a client and its renewal timer, the loading of
  node sets, the nodes that show diagnostics, the creation of sessions and monitored
  items, method calls, history, the tables of constants the model does not name, the agent
  and the dashboard: input and output, or services whose effect on the modelled state is a
  step of the reachable states (\<open>server_reach\<close>, \<open>ua_reach\<close>).
\<close>

section \<open>The core theorems\<close>

text \<open>
  C1. Encoding any value the codec supports into a buffer with enough room succeeds, and
  decoding the appended bytes, whatever follows them, gives back the value and leaves what
  follows.
\<close>

theorem encode_decode:
  assumes "buffer_at ops bcontent broom binv" and "binv b"
    and "ok_dyn True reg uris v" and "type_of v = Some t" "codec_for t" "elem_type t = t"
    and "length (wire_dyn reg uris v) < broom b" and "length (wire_dyn reg uris v) \<le> fuel"
  shows "\<exists>b' out. Encode ops reg uris v (BufferAt b) = (Ok (), BufferAt b') \<and> binv b'
     \<and> bcontent b' = bcontent b @ out \<and> Decode reg uris fuel t (out @ rest) = (Ok v, rest)"
  using buffer_at.Encode_BufferAt [OF assms(1-4) _ assms(7)] reads_codec(5) [OF assms(3,8)] assms(4-6)
  by (auto simp: Decode_def)

theorem encode_decode_witness:
  "\<exists>b' out. Encode writer_ops demoRegistry [] demoVal (BufferAt (NewWriter (replicate 100 0))) = (Ok (), BufferAt b')
     \<and> Writer_inv b' \<and> Writer_Bytes b' = Writer_Bytes (NewWriter (replicate 100 0)) @ out
     \<and> Decode demoRegistry [] 72 demoType (out @ [7]) = (Ok demoVal, [7])"
  by (rule encode_decode [OF writer.buffer_at_axioms _ demo_ok demo_type]) (simp_all add: demo_length)

text \<open>
  C2. A publishing cycle that returns without error keeps the retransmission queue in order: at
  most 128 messages, numbered in increasing age below the next sequence number, no number twice.
\<close>

theorem publish_sequence_numbers:
  assumes "publish en tn now ord1 ord2 s sess = (Returned None, out, d, s', sess')" and "seq_inv s" and "young s"
  shows "seq_inv s' \<and> distinct (numbers s') \<and> length (numbers s') \<le> maxRetransmissionQueueLength"
proof -
  have "seq_inv s'" by (rule publish_seq_inv [OF assms])
  then show ?thesis
    by (auto simp: seq_inv_def numbers_def dest: queue_inv_distinct split: option.splits) (simp add: queue_inv_def)
qed

theorem publish_sequence_numbers_witness:
  "\<exists>out d s' sess'. publish env0 now0 now0 [5] [5] sub1 sess1 = (Returned None, out, d, s', sess')
     \<and> seq_inv s' \<and> numbers s' = [1]"
proof -
  obtain out d s' sess' where p: "publish env0 now0 now0 [5] [5] sub1 sess1 = (Returned None, out, d, s', sess')"
    and n: "numbers s' = [1]"
    by (simp add: cycle_simps) blast
  have "seq_inv sub1" "young sub1" by (simp_all add: cycle_simps)
  from publish_sequence_numbers [OF p this] p n show ?thesis by blast
qed



text \<open>
  C4. In every state the server reaches through requests, ticks of the publishing loops and
  periodic checks, the tables are within their limits, a token leads to the session that has it,
  whose queues are bounded, and a subscription is filed under its id, has revised parameters
  within bounds, and refers to a session object.
\<close>

theorem server_reachable_inv:
  assumes "server_reach srv"
  shows "(0 < maxSessionCount srv \<longrightarrow> int (SessionManager_Len srv) \<le> maxSessionCount srv)
    \<and> (0 < maxSubscriptionCount srv \<longrightarrow> int (SubscriptionManager_Len srv) \<le> maxSubscriptionCount srv)
    \<and> (\<forall>token a. map_of (sessionsByToken srv) token = Some a \<longrightarrow>
         (\<exists>s. session_at srv a = Some s \<and> authenticationToken s = token \<and> session_inv s))
    \<and> (\<forall>i s. SubscriptionManager_Get i srv = Some s \<longrightarrow>
         sub_id s = i \<and> params_ok s \<and> cancelPublishing s = OpenChan \<and> (\<exists>a. sub_session s = Some a \<and> session_at srv a \<noteq> None))"
proof -
  have inv: "server_inv srv" by (rule server_reach_inv [OF assms])
  have "\<exists>s. session_at srv a = Some s \<and> authenticationToken s = token \<and> session_inv s"
    if "map_of (sessionsByToken srv) token = Some a" for token a
    using inv that by (fastforce simp: server_inv_def tokens_ok_def sessions_ok_def)
  moreover have "sub_id s = i \<and> params_ok s \<and> cancelPublishing s = OpenChan \<and> (\<exists>a. sub_session s = Some a \<and> session_at srv a \<noteq> None)"
    if "SubscriptionManager_Get i srv = Some s" for i s
    using inv_subD [OF inv that] by (auto simp: sub_ok_def)
  ultimately show ?thesis using inv by (simp add: server_inv_def limits_ok_def)
qed

theorem server_reachable_inv_witness:
  "server_reach srv0 \<and> int (SessionManager_Len srv0) \<le> 10
     \<and> (\<exists>s. session_at srv0 1 = Some s \<and> authenticationToken s = tokB \<and> session_inv s)"
  using server_reachable_inv [OF srv0_reach] srv0_reach srv0_sessions(4,5) by simp







text \<open>
  C8. The in-place path of the encoder (length patched in a random-access buffer) and the
  fallback path (body in a pooled buffer, then copied) write the same bytes.
\<close>

theorem encode_same_bytes:
  assumes "buffer_at ops bcontent broom binv" and "binv b" and "Writer_inv w"
    and "ok_dyn c reg uris v" and "type_of v = Some t" and "codec_for (elem_type t)"
    and "length (wire_dyn reg uris v) < broom b" and "length (wire_dyn reg uris v) < Writer_room w"
  shows "\<exists>b' w' out. Encode ops reg uris v (BufferAt b) = (Ok (), BufferAt b')
     \<and> Encode ops reg uris v (BytesWriter w) = (Ok (), BytesWriter w')
     \<and> bcontent b' = bcontent b @ out \<and> Writer_Bytes w' = Writer_Bytes w @ out"
  using buffer_at.Encode_BufferAt [OF assms(1,2,4-7)] buffer_at.Encode_BytesWriter [OF assms(1,3,4-6,8)] by blast

theorem encode_same_bytes_witness:
  "\<exists>b' w' out. Encode writer_ops demoRegistry [] demoVal (BufferAt (NewWriter (replicate 100 0))) = (Ok (), BufferAt b')
     \<and> Encode writer_ops demoRegistry [] demoVal (BytesWriter (NewWriter (replicate 80 0))) = (Ok (), BytesWriter w')
     \<and> Writer_Bytes b' = Writer_Bytes (NewWriter (replicate 100 0)) @ out
     \<and> Writer_Bytes w' = Writer_Bytes (NewWriter (replicate 80 0)) @ out"
  by (rule encode_same_bytes [OF writer.buffer_at_axioms _ _ demo_ok demo_type(1)])
     (simp_all add: demo_type demo_length)

text \<open>
  C9. Decoding ends on every input: with more fuel than bytes it never runs out of it, and more
  fuel does not change the result.
\<close>

theorem decode_terminates:
  assumes "length bs < n"
  shows "fst (Decode reg uris n t bs) \<noteq> NoFuel \<and> (\<forall>k. n \<le> k \<longrightarrow> Decode reg uris k t bs = Decode reg uris n t bs)"
proof (intro conjI allI impI)
  show "fst (Decode reg uris n t bs) \<noteq> NoFuel" using fuelled_Decode [of n reg uris t] assms by (simp add: fuelled_def)
next
  fix k assume "n \<le> k"
  with assms show "Decode reg uris k t bs = Decode reg uris n t bs" by (intro Decode_fuel_irrelevant) simp_all
qed

theorem decode_terminates_witness:
  "fst (Decode demoRegistry [] 4 demoType [0, 13, 1]) \<noteq> NoFuel
   \<and> Decode demoRegistry [] 9 demoType [0, 13, 1] = Decode demoRegistry [] 4 demoType [0, 13, 1]"
proof -
  have "length [0, 13, 1 :: byte] < 4" and "4 \<le> (9 :: nat)" by simp_all
  with decode_terminates [OF this(1), of demoRegistry "[]" demoType] show ?thesis by blast
qed

text \<open>
  C10. The write tasks of a request on different nodes, interleaved by the worker pool in any
  order that runs each to its end, have each the result and the effect on its node that it has
  alone, and change no other node.
\<close>

theorem concurrent_writes_independent:
  assumes "distinct (map wv_NodeID wvs)" and "cache_ok m0" and "\<forall>k<length wvs. 2 \<le> count_list sched k"
    and "run_tasks re cap ts sess sched (map Waiting wvs, m0) = (tasks, m)"
  shows "(\<forall>k<length wvs. \<exists>r m1. tasks ! k = Finished r \<and> writeValue re cap (fst (ts k)) (snd (ts k)) sess (wvs ! k) m0 = (r, m1)
      \<and> nodes m (wv_NodeID (wvs ! k)) = nodes m1 (wv_NodeID (wvs ! k)))
    \<and> (\<forall>i. i \<notin> wv_NodeID ` set wvs \<longrightarrow> nodes m i = nodes m0 i)"
proof -
  have f: "list_all finished tasks" using run_tasks_finished [OF assms(3), of re cap ts sess m0] assms(4) by simp
  have l: "length tasks = length wvs" using run_tasks_length [of re cap ts sess sched "(map Waiting wvs, m0)"] assms(4) by simp
  have "\<exists>r m1. tasks ! k = Finished r \<and> writeValue re cap (fst (ts k)) (snd (ts k)) sess (wvs ! k) m0 = (r, m1)
      \<and> nodes m (wv_NodeID (wvs ! k)) = nodes m1 (wv_NodeID (wvs ! k))" if "k < length wvs" for k
  proof -
    have "finished (tasks ! k)" using f l that by (simp add: list_all_length)
    then obtain r where r: "tasks ! k = Finished r" by (cases "tasks ! k") auto
    obtain r0 m1 where w: "writeValue re cap (fst (ts k)) (snd (ts k)) sess (wvs ! k) m0 = (r0, m1)" by fastforce
    from run_tasks_independent(1) [OF assms(1, 2, 4) that r w] r w show ?thesis by auto
  qed
  moreover have "nodes m i = nodes m0 i" if "i \<notin> wv_NodeID ` set wvs" for i using run_tasks_others [OF assms(1, 2, 4) that] .
  ultimately show ?thesis by blast
qed

theorem concurrent_writes_independent_witness:
  "\<exists>r m1. fst (run_tasks reOp capU (\<lambda>_. (zeroTime, zeroTime)) (Some (0, userOp)) [0, 1, 1, 0]
       (map Waiting [write_levels [] (ints [4, 5]), (write_levels [] VNil)\<lparr>wv_NodeID := plantID\<rparr>], space0)) ! 0 = Finished r
    \<and> writeValue reOp capU zeroTime zeroTime (Some (0, userOp)) (write_levels [] (ints [4, 5])) space0 = (r, m1)"
  using concurrent_writes_independent [of "[write_levels [] (ints [4, 5]), (write_levels [] VNil)\<lparr>wv_NodeID := plantID\<rparr>]" space0
      "[0, 1, 1, 0]", OF _ _ _ surjective_pairing] space0_inv
  by (fastforce simp: id_defs space_inv_def less_Suc_eq)



section \<open>The secure channel\<close>

text \<open>
  C12. After the server has issued or renewed a token and the client has taken it, any sequence
  of requests and responses that fit the limits, with the network cutting the bytes at any
  points, arrives: the server reads each request with its id and the client reads each response,
  the first chunks switching both ends to the keys of the new token.
\<close>

theorem conversation_after_token:
  assumes "agreed c s cl"
    and "andthen (server_set_nonces nonce req) (server_new_token now req) s = (Ok res, s1)"
    and "client_token_issued (oq_ClientNonce req) res cl = (Ok (), cl1)"
    and "ch_tokenID s \<noteq> os_TokenID res" "cc_sendingTokenID cl \<noteq> os_TokenID res" "cc_receivingTokenID cl \<noteq> os_TokenID res"
    and "\<And>bs. stream_of (seg bs) bs"
    and "list_all (\<lambda>(rid, q, r). request_fits cl1 q \<and> response_fits s1 r \<and> length q \<le> fuel \<and> length r \<le> fuel) es"
  shows "exchange c fuel seg es s1 cl1 = Ok (map (\<lambda>(rid, q, r). ((q, rid), r)) es)"
  by (rule conversation_delivered [OF assms(7) issued_paired [OF assms(1-6)] assms(8)])

theorem conversation_after_token_witness:
  "exchange demo_crypto 100 bytewise [(1, replicate 100 7, [1, 2]), (2, [3], replicate 70 4)] demo_server1 demo_client1
     = Ok [((replicate 100 7, 1), [1, 2]), (([3], 2), replicate 70 4)]"
  using conversation_after_token [OF demo_agreed demo_issue _ _ _ stream_bytewise,
      where es = "[(1, replicate 100 7, [1, 2]), (2, [3], replicate 70 4)]" and fuel = 100]
  by (simp add: demo_fits demo_server_def demo_client_def demo_issued_def)





text \<open>
  C15. On a channel that signs, the server takes the body of a chunk only from bytes that carry
  the keyed hash of what precedes it, or from an open message.
\<close>

theorem accepted_chunk_authentic:
  assumes "server_read_chunk c ch = (Ok (part, rid, fin), ch')" and "mode_signs (ch_securityMode ch)"
  shows "(\<exists>h m rest. ch_symVerifyHMAC ch' = Some h \<and> ch_receiveBuffer ch' = m @ hash_sum c h m @ rest
       \<and> part = take (length part) (drop 24 m))
    \<or> (\<exists>buf ch0 s1. ch_read ch = (Ok buf, ch0) \<and> ReadUInt32 buf = (Ok MessageTypeOpenFinal, s1))"
  using server_reads_authentic [OF assms] by (simp add: authentic_def)

theorem accepted_chunk_authentic_witness:
  "\<exists>part ch'. server_read_chunk demo_crypto (demo_server1\<lparr>ch_in := [demo_sealed]\<rparr>) = (Ok (part, 5, True), ch')
    \<and> ((\<exists>h m rest. ch_symVerifyHMAC ch' = Some h \<and> ch_receiveBuffer ch' = m @ hash_sum demo_crypto h m @ rest
          \<and> part = take (length part) (drop 24 m))
       \<or> (\<exists>buf ch0 s1. ch_read (demo_server1\<lparr>ch_in := [demo_sealed]\<rparr>) = (Ok buf, ch0)
          \<and> ReadUInt32 buf = (Ok MessageTypeOpenFinal, s1)))"
proof -
  from demo_read obtain part ch' where rd: "server_read_chunk demo_crypto (demo_server1\<lparr>ch_in := [demo_sealed]\<rparr>) = (Ok (part, 5, True), ch')"
    by blast
  have "mode_signs (ch_securityMode (demo_server1\<lparr>ch_in := [demo_sealed]\<rparr>))" by (simp add: demo_server1_def demo_server_def)
  from accepted_chunk_authentic [OF rd this] rd show ?thesis by blast
qed

text \<open>
  C16. Writing a response succeeds exactly when its length and its number of chunks are within
  the limits of the client, and then no chunk is longer than the send buffer; otherwise the
  error is BadResponseTooLarge.
\<close>

theorem response_chunks:
  assumes "crypto_ok c" and "writes d s" and "r \<noteq> []" and "length r \<le> fuel"
  shows "if allows (ch_maxResponseMessageSize s) (int (length r)) \<and> allows (ch_maxResponseChunkCount s) (request_chunks s r)
     then \<exists>s1 xs. sendServiceResponse c fuel rid (Ok r) s = (Ok (), s1) \<and> ch_out s1 = ch_out s @ xs
        \<and> int (length xs) = request_chunks s r \<and> list_all (\<lambda>x. length x \<le> unat (ch_sendBufferSize s)) xs
     else \<exists>s1. sendServiceResponse c fuel rid (Ok r) s = (Err (Status BadResponseTooLarge), s1)"
  by (rule response_chunks_bounded [OF assms])

theorem response_chunks_witness:
  "\<exists>s1 xs. sendServiceResponse demo_crypto 200 12 (Ok (replicate 200 7)) demo_plain = (Ok (), s1) \<and> ch_out s1 = ch_out demo_plain @ xs
        \<and> int (length xs) = 2 \<and> list_all (\<lambda>x. length x \<le> unat (ch_sendBufferSize demo_plain)) xs"
proof -
  have "request_chunks demo_plain (replicate 200 7) = 2"
    by (simp add: request_chunks_def chunk_number_def max_body_def plan_chunk_def demo_plain_def demo_server_def)
  then show ?thesis
    using response_chunks [OF demo_crypto_ok(1) demo_plain_writes, of "replicate 200 7" 200 12]
    by (simp add: allows_def) (simp add: demo_plain_def demo_server_def)
qed

text \<open>
  C17. Reading a request ends on every input: each chunk takes bytes from the connection, so
  fuel above their number is never used up.
\<close>

theorem request_reading_ends:
  assumes "crypto_returns c" and "length (concat (ch_in ch)) < fuel"
  shows "fst (server_read_loop c fuel k body ch) \<noteq> NoFuel"
  by (rule server_read_loop_ends [OF assms])

theorem request_reading_ends_witness:
  "fst (server_read_loop demo_crypto 21 0 [] (demo_server1\<lparr>ch_in := [replicate 20 7]\<rparr>)) \<noteq> NoFuel"
  by (rule request_reading_ends [OF demo_crypto_ok(2)]) simp

text \<open>
  C18. After Hello and Acknowledge both ends have the same buffer sizes, each the smaller of the
  two ends' wishes, and the same limits on messages and chunks, and the server knows the
  endpoint the client asked for.
\<close>

theorem hello_agrees:
  fixes s :: "('priv, 'pub) ServerChannel" and cl :: "('priv2, 'pub2) ClientChannel"
  assumes "\<And>bs. stream_of (seg bs) bs" and "ch_connected s" and "ch_connected cl"
    and "32 + length (cc_endpointURL cl) < length cpool" and "32 + length (cc_endpointURL cl) \<le> length spool"
    and "length (cc_endpointURL cl) < 2 ^ 31"
  shows "\<exists>h cl1 s1 a cl2. client_send_hello cpool cl = (Ok (), cl1) \<and> ch_out cl1 = ch_out cl @ [h]
     \<and> server_hello spool (s\<lparr>ch_in := seg h\<rparr>) = (Ok (), s1) \<and> ch_out s1 = ch_out s @ [a]
     \<and> client_read_ack cpool (cl1\<lparr>ch_in := seg a\<rparr>) = (Ok (), cl2)
     \<and> sc_endpointURL s1 = cc_endpointURL cl
     \<and> ch_sendBufferSize s1 = min (ch_sendBufferSize s) (cc_receiveBufferSize cl) \<and> cc_receiveBufferSize cl2 = ch_sendBufferSize s1
     \<and> ch_sendBufferSize cl2 = min (sc_receiveBufferSize s) (ch_sendBufferSize cl)
     \<and> length (ch_receiveBuffer s1) = unat (ch_sendBufferSize cl2)
     \<and> ch_maxRequestMessageSize cl2 = ch_maxRequestMessageSize s1 \<and> ch_maxRequestChunkCount cl2 = ch_maxRequestChunkCount s1
     \<and> ch_maxResponseMessageSize cl2 = ch_maxResponseMessageSize s1 \<and> ch_maxResponseChunkCount cl2 = ch_maxResponseChunkCount s1"
  by (rule hello_negotiated [OF assms])

theorem hello_agrees_witness:
  "\<exists>h cl1 s1 a cl2. client_send_hello (replicate 64 255) demo_client = (Ok (), cl1) \<and> ch_out cl1 = ch_out demo_client @ [h]
     \<and> server_hello (replicate 64 255) (demo_server\<lparr>ch_in := bytewise h\<rparr>) = (Ok (), s1) \<and> ch_out s1 = ch_out demo_server @ [a]
     \<and> client_read_ack (replicate 64 255) (cl1\<lparr>ch_in := bytewise a\<rparr>) = (Ok (), cl2)
     \<and> sc_endpointURL s1 = cc_endpointURL demo_client
     \<and> ch_sendBufferSize s1 = min (ch_sendBufferSize demo_server) (cc_receiveBufferSize demo_client)
     \<and> cc_receiveBufferSize cl2 = ch_sendBufferSize s1
     \<and> ch_sendBufferSize cl2 = min (sc_receiveBufferSize demo_server) (ch_sendBufferSize demo_client)
     \<and> length (ch_receiveBuffer s1) = unat (ch_sendBufferSize cl2)
     \<and> ch_maxRequestMessageSize cl2 = ch_maxRequestMessageSize s1 \<and> ch_maxRequestChunkCount cl2 = ch_maxRequestChunkCount s1
     \<and> ch_maxResponseMessageSize cl2 = ch_maxResponseMessageSize s1 \<and> ch_maxResponseChunkCount cl2 = ch_maxResponseChunkCount s1"
  by (rule hello_agrees [OF stream_bytewise]) (simp_all add: demo_server_def demo_client_def)

text \<open>
  C19. The key derivation computes the pseudo-random function P_hash of the TLS standard, cut to
  the wanted size.
\<close>

theorem derived_keys_PSHA:
  assumes "crypto_ok c" and "sizeBytes \<le> k"
  shows "calculatePSHA c secret seed sizeBytes uri = take sizeBytes (P_hash (cr_hmac c (psha_alg uri) secret) seed seed k)"
  by (rule calculatePSHA_P_hash [OF assms])

theorem derived_keys_PSHA_witness:
  "calculatePSHA demo_crypto [1] [2] 3 [] = take 3 (P_hash (cr_hmac demo_crypto (psha_alg []) [1]) [2] [2] 3)"
  by (rule derived_keys_PSHA [OF demo_crypto_ok(1)]) simp

text \<open>
  C20. When the server aborts the channel, the connection is closed and the client's next read
  returns the status the server gave.
\<close>

theorem abort_reported:
  assumes "ch_connected s" and "ch_connected cl" and "16 + length msg < length pool" and "length msg < 2 ^ 31"
    and "16 + length msg \<le> length (ch_receiveBuffer cl)" and "\<And>bs. stream_of (seg bs) bs"
  shows "\<exists>x s1. server_abort pool reason msg s = (Ok (), s1) \<and> ch_out s1 = ch_out s @ [x] \<and> \<not> ch_connected s1
     \<and> fst (readResponse c reg uris (Suc fuel) dfuel (cl\<lparr>ch_in := seg (x @ rest)\<rparr>)) = Err (Status reason)"
proof -
  have "fst (client_read_loop c (Suc fuel) 0 [] (cl\<lparr>ch_in := seg (error_message reason msg @ rest)\<rparr>)) = Err (Status reason)"
    by (rule client_reads_error [where rest = rest, OF _ _ _ assms(4)]) (simp_all add: assms)
  then have "fst (readResponse c reg uris (Suc fuel) dfuel (cl\<lparr>ch_in := seg (error_message reason msg @ rest)\<rparr>)) = Err (Status reason)"
    by (cases "client_read_loop c (Suc fuel) 0 [] (cl\<lparr>ch_in := seg (error_message reason msg @ rest)\<rparr>)") (simp add: readResponse_def bnd_Err)
  then show ?thesis using server_abort_writes [OF assms(1,3)] by auto
qed

theorem abort_reported_witness:
  "\<exists>x s1. server_abort (replicate 64 0) BadSecurityChecksFailed ''no'' demo_server1 = (Ok (), s1) \<and> ch_out s1 = [x]
     \<and> \<not> ch_connected s1 \<and> fst (readResponse demo_crypto demoRegistry [] (Suc 0) 5 (demo_client1\<lparr>ch_in := bytewise (x @ [])\<rparr>))
        = Err (Status BadSecurityChecksFailed)"
  using abort_reported [of demo_server1 demo_client1 "''no''" "replicate 64 0" bytewise BadSecurityChecksFailed demo_crypto demoRegistry "[]"
      0 5 "[]", OF _ _ _ _ _ stream_bytewise]
  by (simp add: demo_server1_def demo_server_def demo_client1_def demo_client_def)

section \<open>The core theorems\<close>

text \<open>
  C21. In every state a session can reach, at most 64 publish requests are parked, the
  continuation points have distinct ids, and their number is within the limit of the session.
\<close>

theorem session_reachable_inv:
  assumes "session_reach s"
  shows "session_inv s"
  using assms by (rule session_reach_inv)

theorem session_reachable_inv_witness: "session_inv (snd (addBrowseContinuationPoint [1, 2] 1 sess0))"
  unfolding sess0_def by (rule session_reachable_inv [OF session_reach.add_cp [OF session_reach.new]])

text \<open>
  C22. Following the continuation points of a browse result to the end returns every reference
  once and in order.
\<close>

theorem browse_paging_complete:
  assumes "session_inv s" and "browseCPs s = Some m" and "map_of m i = Some \<lparr>cp_data = d, cp_max = mx\<rparr>"
    and "0 < mx" and "length d < n"
  shows "\<exists>s'. drain n (le_bytes 4 i) s = (Ok d, s')"
  using assms by (rule drain_all)

theorem browse_paging_complete_witness:
  "\<exists>s'. drain 6 (le_bytes 4 (1 :: u32)) (sess0\<lparr>browseCPs := Some [(1, \<lparr>cp_data = [1, 2, 3, 4, 5], cp_max = 2\<rparr>)]\<rparr>)
     = (Ok [1, 2, 3, 4, 5], s')"
  by (rule browse_paging_complete [where mx = 2 and m = "[(1, \<lparr>cp_data = [1, 2, 3, 4, 5], cp_max = 2\<rparr>)]"])
     (simp_all add: sess0_def NewSession_def session_inv_defs)



text \<open>
  C24. Whatever the client asks for, NaN and overflow included, the revised parameters of a new
  or modified subscription are within bounds: the interval between 125 ms and a minute, the
  keep-alive count from 1 to 481, the lifetime at least three times that.
\<close>

theorem subscription_revised_bounds:
  "params_ok (NewSubscription sess sid i iv lt ka mn en prio)
   \<and> (case Subscription_Modify iv lt ka mn prio s of (Ok _, s') \<Rightarrow> params_ok s' | _ \<Rightarrow> True)"
  using NewSubscription_params_ok [of sess sid i iv lt ka mn en prio] Modify_params_ok [of iv lt ka mn prio s]
  by (auto split: prod.splits res.splits)

section \<open>The services\<close>





text \<open>
  C27. An authorized Write request within the operation limit, without index ranges, where the
  data types of all variables resolve and every variable has a historian, is answered with one
  status per value under every schedule that runs each task to its end.
\<close>

theorem write_request_answered:
  assumes "authorized now c token (ua_srv u)" and "wvs \<noteq> []" and "length wvs \<le> unat (MaxNodesPerWrite (operationLimits u))"
    and "answerable (namespaceManager u)" and "\<forall>wv\<in>set wvs. wv_IndexRange wv = []" and "\<forall>k<length wvs. 2 \<le> count_list sched k"
    and "\<And>r. env_write en (cn_ch c) rid r = None"
  shows "\<exists>sts u'. handleWrite en now ts sched c rid h token wvs u = (Returned None, [(cn_ch c, rid, WriteResponse h sts)], u')
    \<and> length sts = length wvs"
  by (rule handleWrite_answers [OF assms, of ts h]) auto

theorem write_request_answered_witness:
  "\<exists>sts u'. handleWrite env0 0 (\<lambda>_. (zeroTime, zeroTime)) [0, 1, 1, 0] connA 7 9 tokA
      [write_levels [] (ints [4, 5]), write_levels [] VNil] uaServer
    = (Returned None, [(cn_ch connA, 7, WriteResponse 9 sts)], u') \<and> length sts = length [write_levels [] (ints [4, 5]), write_levels [] VNil]"
proof (rule write_request_answered)
  show "env_write env0 (cn_ch connA) 7 r = None" for r by (simp add: env0_def wr0_def)
qed (use srvU_authorized space0_inv in \<open>simp_all add: less_Suc_eq\<close>)

text \<open>
  C28. Under any sequence of insertions and deletions the tables of sessions and of
  subscriptions implement a finite map that ignores insertions while it holds the maximum number
  of entries.
\<close>

theorem tables_refine_bounded_map:
  assumes "session_table_ok srv" and "sub_table_ok srv"
  shows "map_of (sessionsByToken (run_table (\<lambda>(token, a). SessionManager_Add a token) drop_token ops srv))
       = table_spec fst snd (maxSessionCount srv) ops (map_of (sessionsByToken srv))
    \<and> map_of (subscriptionsByID (run_table SubscriptionManager_Add SubscriptionManager_Delete sops srv))
       = table_spec sub_id id (maxSubscriptionCount srv) sops (map_of (subscriptionsByID srv))"
  using session_table.run_refines [of srv ops] sub_table.run_refines [of srv sops] assms by simp

theorem tables_refine_bounded_map_witness:
  "map_of (sessionsByToken (run_table (\<lambda>(token, a). SessionManager_Add a token) drop_token
       [AddOp (tokA, 0), AddOp (tokB, 1)] (empty_server 1 1 True 0 :: nat Server))) = [tokA \<mapsto> 0]
   \<and> map_of (subscriptionsByID (run_table SubscriptionManager_Add SubscriptionManager_Delete
       [AddOp subA, DelOp 1] (empty_server 1 1 True 0 :: nat Server))) = Map.empty"
proof -
  let ?srv = "empty_server 1 1 True 0 :: nat Server"
  have spec: "table_spec fst snd (maxSessionCount ?srv) [AddOp (tokA, 0), AddOp (tokB, 1)] (map_of (sessionsByToken ?srv)) = [tokA \<mapsto> 0]"
    "table_spec sub_id id (maxSubscriptionCount ?srv) [AddOp subA, DelOp 1] (map_of (subscriptionsByID ?srv)) = Map.empty"
    by (simp_all add: empty_server_def subA_fields tokA_def tokB_def)
  have "session_table_ok ?srv" "sub_table_ok ?srv"
    by (simp_all add: session_table_ok_def sub_table_ok_def empty_server_def)
  from tables_refine_bounded_map [OF this, of "[AddOp (tokA, 0), AddOp (tokB, 1)]" "[AddOp subA, DelOp 1]"]
  show ?thesis unfolding spec .
qed

section \<open>The address space\<close>

text \<open>
  C29. Without the permission to browse and read the node, reading its value returns no value
  and a bad status.
\<close>

theorem read_needs_permission:
  assumes "\<not> can_read re m uid (rv_NodeID rv)" and "rv_AttributeID rv = 13"
  shows "Value (readValue re m t (Some (a, uid)) rv) = VNil \<and> IsBad (StatusCode_of (readValue re m t (Some (a, uid)) rv))"
  using read_denied [OF assms, of t a] by (auto simp: bad_value_def NewDataValue_def)

theorem read_needs_permission_witness:
  "Value (readValue reOp space0 zeroTime (Some (0, AnonymousIdentity))
     \<lparr>rv_NodeID = levelsID, rv_AttributeID = 13, rv_IndexRange = [], rv_DataEncoding = \<lparr>qn_NamespaceIndex = 0, qn_Name = []\<rparr>\<rparr>) = VNil"
proof -
  have "user_roles reOp AnonymousIdentity = Inl (Status BadUserAccessDenied)"
    by (simp add: user_roles_def GetRoles_def reOp_def ruleAll_def applies_def criterion_met_def)
  then have "\<not> can_read reOp space0 AnonymousIdentity levelsID" by (auto simp: can_read_def permitted_def)
  then show ?thesis by (intro read_needs_permission [THEN conjunct1]) simp_all
qed

text \<open>
  C30. A successful browse describes exactly the references of the node that have the wanted
  direction, type and class and whose target the user may browse, in order, and the user may
  browse the node.
\<close>

theorem browse_exactly_visible:
  assumes "browse_node re m uid d = Inr rds"
  shows "\<exists>n. nodes m (bd_NodeID d) = Some n \<and> permitted re (n_rolePermissions n) uid PermissionTypeBrowse
    \<and> rds = map (\<lambda>r. describe d r (the (nodes m (target_id m r)))) (filter (visible_ref re m uid d) (n_references n))"
proof -
  from assms obtain n where n: "nodes m (bd_NodeID d) = Some n" "permitted re (n_rolePermissions n) uid PermissionTypeBrowse"
    "browse_refs re m uid d (n_references n) = Inr rds"
    by (auto simp: browse_node_def FindNode_def node_permitted split: if_splits option.splits)
  then have "\<forall>r\<in>set (n_references n). wanted_ref m d r \<longrightarrow> nodes m (target_id m r) \<noteq> None"
    using browse_refs_dangling [of _ "n_references n" m d re uid] by fastforce
  with browse_refs_spec [OF this, of re uid] n show ?thesis by auto
qed

theorem browse_exactly_visible_witness:
  "\<exists>rds. browse_node reOp space0 userOp \<lparr>bd_NodeID = plantID, bd_BrowseDirection = 0, bd_ReferenceTypeID = None, bd_IncludeSubtypes = False,
       bd_NodeClassMask = 0, bd_ResultMask = 8\<rparr> = Inr rds \<and> map rd_BrowseName rds = [q_name ''Levels'']"
proof -
  let ?d = "\<lparr>bd_NodeID = plantID, bd_BrowseDirection = 0, bd_ReferenceTypeID = None, bd_IncludeSubtypes = False,
       bd_NodeClassMask = 0, bd_ResultMask = 8\<rparr>"
  have t: "target_id space0 (ref_to ReferenceTypeIDHasComponent False levelsID) = levelsID" by (simp add: space0_targets levelsID_def)
  have w: "wanted_ref space0 ?d (ref_to ReferenceTypeIDHasComponent False levelsID)" by (simp add: wanted_ref_def ref_to_def)
  have "\<exists>rds. browse_node reOp space0 userOp ?d = Inr rds"
    by (simp add: browse_node_def FindNode_def space0_nodes node_permitted op_permissions t w word_sless_alt)
  then obtain rds where b: "browse_node reOp space0 userOp ?d = Inr rds" by blast
  have v: "visible_ref reOp space0 userOp ?d (ref_to ReferenceTypeIDHasComponent False levelsID)"
    unfolding visible_ref_def t using w by (simp add: space0_nodes op_permissions)
  obtain n where n: "nodes space0 plantID = Some n" "rds = map (\<lambda>r. describe ?d r (the (nodes space0 (target_id space0 r))))
      (filter (visible_ref reOp space0 userOp ?d) (n_references n))" using browse_exactly_visible [OF b] by auto
  have "n = plant" using n(1) space0_nodes(1) by simp
  have "filter (visible_ref reOp space0 userOp ?d) (n_references plant) = [ref_to ReferenceTypeIDHasComponent False levelsID]"
    using v by simp
  then have "rds = [describe ?d (ref_to ReferenceTypeIDHasComponent False levelsID) levels]"
    unfolding n(2) \<open>n = plant\<close> by (simp add: t space0_nodes)
  then have "map rd_BrowseName rds = [q_name ''Levels'']" by (simp add: describe_def Let_def)
  with b show ?thesis by (intro exI [of _ rds] conjI)
qed

text \<open>
  C31. Writing the elements lo to hi of an array of any element type replaces these and no
  others, and reading the range gives back what was written.
\<close>

theorem range_write_in_place:
  assumes "range_type t" and "lo < hi" and "hi < length xs" and "length ys = hi - lo + 1" and "length xs < 2 ^ 31"
  shows "let r = show_nat lo @ CHR '':'' # show_nat hi; dv = NewDataValue (VSlice t (Some (take lo xs @ ys @ drop (hi + 1) xs))) (StatusCode_of new) t1 t2
    in writeRange t1 t2 (source\<lparr>Value := VSlice t (Some xs)\<rparr>) (new\<lparr>Value := VSlice t (Some ys)\<rparr>) r = Ok (dv, Good)
       \<and> Value (readRange dv r) = VSlice t (Some ys)"
proof -
  let ?r = "show_nat lo @ CHR '':'' # show_nat hi"
  note w = writeRange_slice [OF assms, of t1 t2 source new]
  from write_then_readRange [OF w] w show ?thesis by (simp add: Let_def no_comma)
qed

theorem range_write_in_place_witness:
  "writeRange zeroTime zeroTime (NilDataValue\<lparr>Value := VSlice (TScalar KBool) (Some [VScalar (SBool True), VScalar (SBool True), VScalar (SBool True)])\<rparr>)
     (NilDataValue\<lparr>Value := VSlice (TScalar KBool) (Some [VScalar (SBool False), VScalar (SBool False)])\<rparr>) ''0:1''
   = Ok (NewDataValue (VSlice (TScalar KBool) (Some [VScalar (SBool False), VScalar (SBool False), VScalar (SBool True)])) 0 zeroTime zeroTime, Good)"
  using range_write_in_place [of "TScalar KBool" 0 1 "[VScalar (SBool True), VScalar (SBool True), VScalar (SBool True)]"
      "[VScalar (SBool False), VScalar (SBool False)]" NilDataValue zeroTime zeroTime NilDataValue]
  unfolding range_texts by (simp add: Let_def NilDataValue_def NewDataValue_def)




section \<open>Identifiers, registry and writer\<close>

text \<open>
  C34. Parsing the text of a node id of any kind gives it back; i=0 in namespace 0 stands for
  nil.
\<close>

theorem NodeID_text_roundtrip:
  assumes "\<And>u. uparse (ushow u) = Some u" and "nodeid_canonical n"
  shows "ParseNodeID uparse (NodeID_String ushow n) = Some n"
  using assms by (rule ParseNodeID_String)

theorem NodeID_text_roundtrip_witness:
  "ParseNodeID raw_parse (NodeID_String raw_show (NodeIDString 2 ''Demo;ns=1'')) = Some (NodeIDString 2 ''Demo;ns=1'')"
  by (rule NodeID_text_roundtrip) (simp_all add: nodeid_canonical_def)

section \<open>Monitored items\<close>

text \<open>
  C35. Reading the fields selected from an event of each of the four kinds gives back the event.
\<close>

theorem event_fields_roundtrip:
  "BaseEvent_UnmarshalFields (map (BaseEvent_GetAttribute b) BaseEventSelectClauses) b0 = (None, b)
   \<and> Condition_UnmarshalFields (map (Condition_GetAttribute c) ConditionSelectClauses) c0 = (None, c)
   \<and> AcknowledgeableCondition_UnmarshalFields (map (AcknowledgeableCondition_GetAttribute a) AcknowledgeableConditionSelectClauses) a0
     = (None, a)
   \<and> AlarmCondition_UnmarshalFields (map (AlarmCondition_GetAttribute e) AlarmConditionSelectClauses) e0 = (None, e)"
  by (intro conjI base_roundtrip condition_roundtrip acknowledgeable_roundtrip alarm_roundtrip)

text \<open>
  C36. When the elements of a where clause refer to each other without a cycle, its evaluation
  ends, with a result that more fuel does not change.
\<close>

theorem where_clause_ends:
  assumes "wf (refers els)"
  shows "\<exists>k r. r \<noteq> NoFuel \<and> (\<forall>fuel. whereClause (k + fuel) m attr els idx = r)"
  by (rule whereClause_ends [OF assms])

theorem where_clause_ends_witness:
  "\<exists>k r. r \<noteq> NoFuel \<and> (\<forall>fuel. whereClause (k + fuel) space0 (\<lambda>_. a_bool True)
     [\<lparr>FilterOperator = 0, FilterOperands = [ElementOperand 1, LiteralOperand (a_bool True)]\<rparr>,
      \<lparr>FilterOperator = 0, FilterOperands = [LiteralOperand (a_bool True), LiteralOperand (a_bool False)]\<rparr>] 0 = r)"
proof (rule where_clause_ends)
  have "refers [\<lparr>FilterOperator = 0, FilterOperands = [ElementOperand 1, LiteralOperand (a_bool True)]\<rparr>,
      \<lparr>FilterOperator = 0, FilterOperands = [LiteralOperand (a_bool True), LiteralOperand (a_bool False)]\<rparr>] \<subseteq> {(1, 0)}"
    by (auto simp: refers_def less_Suc_eq)
  then show "wf (refers [\<lparr>FilterOperator = 0, FilterOperands = [ElementOperand 1, LiteralOperand (a_bool True)]\<rparr>,
      \<lparr>FilterOperator = 0, FilterOperands = [LiteralOperand (a_bool True), LiteralOperand (a_bool False)]\<rparr>])"
    by (rule wf_subset [rotated]) (simp add: wf_insert)
qed

section \<open>Where the code goes wrong\<close>

text \<open>
  C37. Two writes of the same variable whose tasks interleave both report success, and the
  variable has the value computed by the second from the old value: the first is lost.
\<close>

theorem interleaved_writes_lost:
  assumes "plan_write re cap (fst (ts 0)) (snd (ts 0)) sess w0 m = (Ok (WSetValue v0), m1)"
    and "plan_write re cap (fst (ts 1)) (snd (ts 1)) sess w1 m1 = (Ok (WSetValue v1), m2)"
    and "wv_NodeID w1 = wv_NodeID w0" and "nodes m (wv_NodeID w0) = Some n" and "n_attrs n = VariableNode va"
    and "\<not> va_historizing va \<or> va_historian va"
  shows "\<exists>m3. run_tasks re cap ts sess [0, 1, 0, 1] ([Waiting w0, Waiting w1], m) = ([Finished (Ok Good), Finished (Ok Good)], m3)
    \<and> nodes m3 (wv_NodeID w0) = Some (n\<lparr>n_attrs := VariableNode (va\<lparr>va_value := v1\<rparr>)\<rparr>)"
  by (rule lost_update [OF assms]) auto

theorem interleaved_writes_lost_witness:
  "\<exists>m3. run_tasks reOp capU (\<lambda>_. (zeroTime, zeroTime)) (Some (0, userOp)) [0, 1, 0, 1]
      ([Waiting (write_levels ''0:1'' (ints [7, 8])), Waiting (write_levels ''1:2'' (ints [5, 6]))], space0)
      = ([Finished (Ok Good), Finished (Ok Good)], m3)
    \<and> nodes m3 levelsID = Some (levels\<lparr>n_attrs := VariableNode (levelsVar\<lparr>va_value := NewDataValue (ints [1, 5, 6]) Good zeroTime zeroTime\<rparr>)\<rparr>)"
proof -
  let ?m = "space0\<lparr>variantTypeMap := [levelType \<mapsto> 6]\<rparr>"
  have p0: "plan_write reOp capU zeroTime zeroTime (Some (0, userOp)) (write_levels ''0:1'' (ints [7, 8])) space0
      = (Ok (WSetValue (NewDataValue (ints [7, 8, 3]) Good zeroTime zeroTime)), ?m)"
    using range_writes(1) by (intro plan_ints) (simp_all add: space0_nodes level_find)
  have p1: "plan_write reOp capU zeroTime zeroTime (Some (0, userOp)) (write_levels ''1:2'' (ints [5, 6])) ?m
      = (Ok (WSetValue (NewDataValue (ints [1, 5, 6]) Good zeroTime zeroTime)), ?m)"
    using range_writes(2) by (intro plan_ints) (simp_all add: space0_nodes FindVariantType_def)
  show ?thesis
    using interleaved_writes_lost [of reOp capU "\<lambda>_. (zeroTime, zeroTime)" "Some (0, userOp)", unfolded fst_conv snd_conv, OF p0 p1, of levels levelsVar] space0_nodes by simp
qed

text \<open>
  C38. A Write request with a null value and a valid index range panics in the worker pool of
  the server.
\<close>

theorem nil_range_write_panics:
  assumes "authorized now c token (ua_srv u)" and "map_of (sessionsByToken (ua_srv u)) token = Some a"
    and "0 < MaxNodesPerWrite (operationLimits u)"
    and "may_write (ua_roles u) (namespaceManager u) (Some (a, identity_of (ua_srv u) a)) wv" and "wv_AttributeID wv = 13"
    and "Value (wv_Value wv) = VNil"
    and "nodes (namespaceManager u) (wv_NodeID wv) = Some n" and "n_attrs n = VariableNode va" and "va_writeValueHandler va = None"
    and "FindVariantType (va_dataType va) (namespaceManager u) \<noteq> None"
    and "wv_IndexRange wv \<noteq> []" and "CHR '','' \<notin> set (wv_IndexRange wv)"
    and "\<not> IsBad (StatusCode_of (readRange ((va_value va)\<lparr>StatusCode_of := Good\<rparr>) (wv_IndexRange wv)))"
  shows "fst (handleWrite en now ts [0] c rid h token [wv] u) = Panicked"
proof (rule handleWrite_nil_panics [OF assms(1-10)])
  show "writeRange (fst (ts 0)) (snd (ts 0)) (va_value va) (wv_Value wv) (wv_IndexRange wv) = Panic"
    unfolding writeRange_panics [OF assms(12)] using assms(6, 11-13) nil_not_same_kind [of "va_value va" "wv_IndexRange wv"] by auto
qed

theorem nil_range_write_panics_witness:
  "fst (handleWrite env0 0 (\<lambda>_. (zeroTime, zeroTime)) [0] connA 7 9 tokA [write_levels ''0:1'' VNil] uaServer) = Panicked"
proof (rule nil_range_write_panics [where a = 0 and n = levels and va = levelsVar])
  show "\<not> IsBad (StatusCode_of (readRange ((va_value levelsVar)\<lparr>StatusCode_of := Good\<rparr>) (wv_IndexRange (write_levels ''0:1'' VNil))))"
    unfolding var_fields write_levels_fields by (rule range_read)
qed (use srvU_authorized srvU_session op_may_write space0_nodes level_find in \<open>simp_all add: NewDataValue_def\<close>)

text \<open>
  C39. On a channel that signs, a chunk with nothing after its security header panics before any
  signature is checked: the slice before the signature has a negative bound.
\<close>

theorem short_chunk_panics:
  assumes "ch_connected ch" and "ch_securityMode ch = MessageSecurityModeSign" and "ch_securityPolicy ch \<noteq> SecurityPolicyNone"
    and "16 \<le> length (ch_receiveBuffer ch)"
    and "mt \<in> {MessageTypeChunk, MessageTypeFinal, MessageTypeCloseFinal}"
    and "stream_of (ch_in ch) (concat (map (le_bytes 4) [mt, 16, ch_channelID ch, ch_tokenID ch]) @ rest)"
  shows "fst (server_read_chunk c ch) = Panic"
  by (rule server_short_chunk [OF assms(1,2) _ assms(4-6)]) (use assms(3) in \<open>cases "ch_securityPolicy ch"; simp\<close>)

theorem short_chunk_panics_witness:
  "fst (server_read_chunk demo_crypto (demo_server\<lparr>ch_securityMode := MessageSecurityModeSign, ch_tokenID := 1,
      ch_in := [concat (map (le_bytes 4) [MessageTypeFinal, 16, 7, 1])]\<rparr>)) = Panic"
  by (rule short_chunk_panics [where mt = MessageTypeFinal and rest = "[]"]) (simp_all add: demo_server_def stream_of_def)

text \<open>
  C40. The evaluation of a where clause that compares elements in a cycle never ends.
\<close>

theorem where_clause_cycle:
  assumes "\<forall>i\<in>C. i < length els \<and> FilterOperator (els ! i) = 0
      \<and> (\<exists>j. operand (els ! i) 0 = Some (ElementOperand j) \<and> unat j \<in> C)"
    and "idx \<in> C"
  shows "whereClause fuel m attr els idx = NoFuel"
  by (rule whereClause_cycle [OF assms])

theorem where_clause_cycle_witness:
  "whereClause 100 space0 (\<lambda>_. a_bool True) [\<lparr>FilterOperator = 0, FilterOperands = [ElementOperand 0, LiteralOperand (a_bool True)]\<rparr>] 0 = NoFuel"
  by (rule where_clause_cycle [where C = "{0}"]) (simp_all add: operand_def)

section \<open>Further results\<close>

text \<open>
  Encoding into a buffer with too little room returns BadEncodingError.
\<close>

theorem encode_no_room:
  assumes "buffer_at ops bcontent broom binv" and "binv b"
    and "ok_dyn c reg uris v" and "type_of v = Some t" and "codec_for (elem_type t)"
    and "broom b < length (wire_dyn reg uris v)"
  shows "\<exists>w'. Encode ops reg uris v (BufferAt b) = (Err (Status BadEncodingError), w')"
  using buffer_at.emits_no_room [OF assms(1) buffer_at.emits_Encode [OF assms(1,3-5)], of "BufferAt b"] assms(1,2,6)
  by (simp add: buffer_at.sink_ok_def buffer_at.room_def)

theorem encode_no_room_witness:
  "\<exists>w'. Encode writer_ops demoRegistry [] demoVal (BufferAt (NewWriter (replicate 20 0)))
     = (Err (Status BadEncodingError), w')"
  by (rule encode_no_room [OF writer.buffer_at_axioms _ demo_ok demo_type(1)]) (simp_all add: demo_type demo_length)

text \<open>
  The readers of scalars and of their arrays never panic, whatever the bytes, and consume a
  prefix of them.
\<close>

theorem scalar_readers_safe:
  "fst (dec_kind k bs) \<noteq> Panic \<and> fst (dec_kind k bs) \<noteq> NoFuel \<and> suffix (snd (dec_kind k bs)) bs
   \<and> fst (ReadVariantScalar m bs) \<noteq> Panic \<and> fst (ReadScalarArray m bs) \<noteq> Panic"
  using total_dec_kind [of k] total_ReadVariantScalar [of m] total_ReadScalarArray [of m]
  by (auto simp: total_reader_def consumes_def)

text \<open>
  Only a diagnostic info without any field decodes; every field is stored through a nil pointer.
\<close>

theorem ReadDiagnosticInfo_empty_only:
  assumes "ReadDiagnosticInfo fuel (b # bs) = (Ok d, bs')"
  shows "b AND 0x7F = 0 \<and> bs' = bs \<and> d = DiagnosticInfo None None None None None None None"
  using assms by (rule ReadDiagnosticInfo_Ok)

theorem ReadDiagnosticInfo_empty_only_witness:
  "ReadDiagnosticInfo 1 [0] = (Ok (DiagnosticInfo None None None None None None None), [])
   \<and> (0 :: byte) AND 0x7F = 0"
proof -
  have r: "ReadDiagnosticInfo 1 [0] = (Ok (DiagnosticInfo None None None None None None None), [])"
    by code_simp
  from ReadDiagnosticInfo_empty_only [OF r] r show ?thesis by simp
qed

text \<open>
  Splitting the values of a two-dimensional variant panics exactly when a dimension is negative
  or the dimensions ask for more values than there are.
\<close>

theorem split2D_panics_iff:
  "split2D e d0 d1 vals = None \<longleftrightarrow> d0 < 0 \<or> 0 < d0 \<and> (d1 < 0 \<or> int (length vals) < d0 * d1)"
  by (rule split2D_None_iff)

text \<open>
  The bytes written for an expanded node id without node id are read as the nil id, and the URI
  and the server index are left in the stream.
\<close>

theorem ExpandedNodeID_nil_loses_rest:
  assumes "en_NodeID v = None"
  shows "ReadExpandedNodeID (wire_ExpandedNodeID v @ rest) =
    (Ok NilExpandedNodeID,
     (if en_NamespaceURI v \<noteq> [] then wire_String (en_NamespaceURI v) else [])
      @ (if en_ServerIndex v > 0 then le_bytes 4 (en_ServerIndex v) else []) @ rest)"
  using assms by (rule reads_ExpandedNodeID_nil)

theorem ExpandedNodeID_nil_loses_rest_witness:
  "ReadExpandedNodeID (wire_ExpandedNodeID \<lparr>en_ServerIndex = 1, en_NamespaceURI = [], en_NodeID = None\<rparr> @ [9])
     = (Ok NilExpandedNodeID, le_bytes 4 (1 :: u32) @ [9])"
  using ExpandedNodeID_nil_loses_rest [of "\<lparr>en_ServerIndex = 1, en_NamespaceURI = [], en_NodeID = None\<rparr>" "[9]"] by simp

text \<open>
  Parsing the text of an expanded node id gives it back, when its URI has no semicolon.
\<close>

theorem ExpandedNodeID_text_roundtrip:
  assumes "\<And>u. uparse (ushow u) = Some u" and "\<And>n. en_NodeID e = Some n \<Longrightarrow> nodeid_canonical n"
    and "CHR '';'' \<notin> set (en_NamespaceURI e)"
  shows "ParseExpandedNodeID uparse (ExpandedNodeID_String ushow e) = e"
  using assms by (rule ParseExpandedNodeID_String)

theorem ExpandedNodeID_text_roundtrip_witness:
  "ParseExpandedNodeID raw_parse (ExpandedNodeID_String raw_show
      \<lparr>en_ServerIndex = 3, en_NamespaceURI = ''urn:x'', en_NodeID = Some (NodeIDGUID 0 nilGuid)\<rparr>)
     = \<lparr>en_ServerIndex = 3, en_NamespaceURI = ''urn:x'', en_NodeID = Some (NodeIDGUID 0 nilGuid)\<rparr>"
  by (rule ExpandedNodeID_text_roundtrip) (auto simp: nodeid_canonical_def)

text \<open>
  Parsing the text of a qualified name gives it back.
\<close>

theorem QualifiedName_text_roundtrip: "ParseQualifiedName (QualifiedName_String a) = a"
  by (rule ParseQualifiedName_String)

text \<open>
  Replacing the namespace index of a node id by its URI and back gives the node id, for a table
  of distinct URIs.
\<close>

theorem namespace_table_roundtrip:
  assumes "distinct uris" and "[] \<notin> set uris" and "length uris < 65536"
  shows "ToNodeID (ToExpandedNodeID n uris) uris = n"
  using assms by (rule ToNodeID_ToExpandedNodeID)

theorem namespace_table_roundtrip_witness:
  "ToNodeID (ToExpandedNodeID (Some (NodeIDNumeric 1 7)) [''a'', ''b'']) [''a'', ''b''] = Some (NodeIDNumeric 1 7)"
  by (rule namespace_table_roundtrip) simp_all

text \<open>
  The two maps of the registry stay inverse to each other; a registration that conflicts with
  neither map is found under both keys, a conflicting one panics and changes nothing.
\<close>

theorem registry_register_lookup:
  assumes "registry_inv r"
  shows "registry_inv (snd (RegisterBinaryEncodingID typ i r))
    \<and> (if conflicts r typ i then RegisterBinaryEncodingID typ i r = (Panic, r)
       else fst (RegisterBinaryEncodingID typ i r) = Ok ()
          \<and> FindTypeForBinaryEncodingID (snd (RegisterBinaryEncodingID typ i r)) i = Some typ
          \<and> FindBinaryEncodingIDForType (snd (RegisterBinaryEncodingID typ i r)) typ = Some i)"
  using Register_inv [OF assms] Register_conflict [OF assms] Register_fresh [OF assms]
  by (auto simp: FindTypeForBinaryEncodingID_def FindBinaryEncodingIDForType_def)

theorem registry_register_lookup_witness:
  "FindTypeForBinaryEncodingID demoRegistry demoID = Some demoType
   \<and> FindBinaryEncodingIDForType demoRegistry demoType = Some demoID \<and> registry_inv demoRegistry"
proof -
  have "\<not> conflicts emptyRegistry demoType demoID" by (simp add: conflicts_def emptyRegistry_def)
  with registry_register_lookup [OF registry_inv_empty, of demoType demoID] show ?thesis
    by (simp add: demoRegistry_def)
qed

text \<open>
  Writing to the byte writer never exceeds its slice, appends the prefix that fits and reports a
  short write exactly when something is left out or nothing fits.
\<close>

theorem Writer_Write_bounds:
  assumes "Writer_inv w" and "Writer_Write p w = ((n, e), w')"
  shows "Writer_inv w' \<and> Writer_Size w' = Writer_Size w \<and> n = min (Writer_room w) (length p)
    \<and> Writer_Bytes w' = Writer_Bytes w @ take n p
    \<and> (e = None \<longleftrightarrow> 0 < Writer_room w \<and> length p \<le> Writer_room w)"
  using Writer_Write_state [OF assms] Writer_Write_result [OF assms(1), of p] assms(2)
  by (auto simp: min_def not_le)

theorem Writer_Write_bounds_witness:
  "Writer_Write [1, 2, 3] (NewWriter [0, 0]) = ((2, Some ErrShortWrite), \<lparr>w_s = [1, 2], w_i = 2\<rparr>)
   \<and> Writer_Bytes \<lparr>w_s = [1, 2], w_i = 2\<rparr> = [1, 2]"
proof -
  have w: "Writer_Write [1, 2, 3] (NewWriter [0, 0]) = ((2, Some ErrShortWrite), \<lparr>w_s = [1, 2], w_i = 2\<rparr>)"
    by (simp add: Writer_Write_def NewWriter_def copy_at_def Let_def)
  from Writer_Write_bounds [OF NewWriter_simps(1) w] w show ?thesis by simp
qed

text \<open>
  Adding a publish request to a full queue answers the oldest with BadTooManyPublishRequests and
  appends the new one.
\<close>

theorem addPublishRequest_full:
  assumes "publishRequests s = Some (op # q)" and "length (op # q) = queue_cap"
    and "wr (op_ch op) (op_requestId op) (ServiceFault (pr_RequestHandle (op_req op)) BadTooManyPublishRequests) = None"
  shows "addPublishRequest wr x s = Some (None,
     [(op_ch op, op_requestId op, ServiceFault (pr_RequestHandle (op_req op)) BadTooManyPublishRequests)],
     s\<lparr>publishRequests := Some (q @ [x])\<rparr>)"
  using assms by (simp add: addPublishRequest_def add_publish_full Let_def)

theorem addPublishRequest_full_witness:
  "addPublishRequest wr0 (pub0 65) (sess0\<lparr>publishRequests := Some (pub0 1 # replicate 63 (pub0 2))\<rparr>) = Some (None,
     [(1, 1, ServiceFault 1 BadTooManyPublishRequests)],
     sess0\<lparr>publishRequests := Some (replicate 63 (pub0 2) @ [pub0 65])\<rparr>)"
  using addPublishRequest_full [of "sess0\<lparr>publishRequests := Some (pub0 1 # replicate 63 (pub0 2))\<rparr>" "pub0 1"
      "replicate 63 (pub0 2)" wr0 "pub0 65"]
  by (simp add: queue_cap_def wr0_def pub0_def req0_def)

text \<open>
  Taking a publish request answers every expired request at the front of the queue with
  BadTimeout and returns the first one that is not expired.
\<close>

theorem removePublishRequest_expired:
  assumes "publishRequests s = Some q"
    and "\<And>op. op \<in> set (takeWhile (op_expired now) q) \<Longrightarrow>
      wr (op_ch op) (op_requestId op) (ServiceFault (pr_RequestHandle (op_req op)) BadTimeout) = None"
  shows "removePublishRequest wr now s =
    ((case dropWhile (op_expired now) q of [] \<Rightarrow> None | op # _ \<Rightarrow> Some op, None),
     map timeout_fault (takeWhile (op_expired now) q),
     s\<lparr>publishRequests := Some (tl (dropWhile (op_expired now) q))\<rparr>)"
  using remove_publish_spec [of now q wr, OF assms(2)] assms(1) by (simp add: removePublishRequest_def)

theorem removePublishRequest_expired_witness:
  "removePublishRequest wr0 (2 ^ 70) (sess0\<lparr>publishRequests := Some [pub0 1, pub0 2]\<rparr>) =
     ((None, None), [(1, 1, ServiceFault 1 BadTimeout), (1, 2, ServiceFault 2 BadTimeout)], sess0\<lparr>publishRequests := Some []\<rparr>)"
  using removePublishRequest_expired [of "sess0\<lparr>publishRequests := Some [pub0 1, pub0 2]\<rparr>" "[pub0 1, pub0 2]" "2 ^ 70" wr0]
  by (simp add: wr0_def pub0_def req0_def op_expired_def timeout_fault_def instant_of_def t0_def zeroTime_def)

text \<open>
  BrowseNext with a continuation point of one to three bytes panics.
\<close>

theorem short_continuation_point_panics:
  assumes "length bs < 4" and "bs \<noteq> []"
  shows "browseNext release bs s = (Panic, s)"
  using assms by (simp add: browseNext_def bnd_def removeBrowse_short)

theorem short_continuation_point_panics_witness: "browseNext False [1, 0] sess0 = (Panic, sess0)"
  by (rule short_continuation_point_panics) simp_all

text \<open>
  In every state an item can reach, its queue size is from 1 to the maximum and the queue is not
  longer.
\<close>

theorem monitored_item_bounds:
  assumes "data_item_reach mi"
  shows "1 \<le> dc_queueSize mi \<and> dc_queueSize mi \<le> maxQueueSize \<and> length (dc_queue mi) \<le> unat (dc_queueSize mi)"
  using data_item_reach_ok [OF assms] by (simp add: data_item_ok_def)

theorem monitored_item_bounds_witness:
  "1 \<le> dc_queueSize item0 \<and> dc_queueSize item0 \<le> maxQueueSize \<and> length (dc_queue item0) \<le> unat (dc_queueSize item0)"
  unfolding item0_def by (rule monitored_item_bounds [OF data_item_reach.new])

text \<open>
  Taking notifications from an item returns the front of its queue in order, at most as many as
  asked for, and reports whether some are left.
\<close>

theorem notifications_fifo:
  assumes "DataChange_notifications mx mi = (out, mr, mi')"
  shows "out @ dc_queue mi' = dc_queue mi \<and> int (length out) \<le> max 0 mx \<and> (mr \<longleftrightarrow> dc_queue mi' \<noteq> [])"
  using data_queue.pull_fifo [OF assms] data_queue.pull_law [OF assms] by simp

theorem notifications_fifo_witness:
  "\<exists>out mr mi'. DataChange_notifications 1 (item0\<lparr>dc_queue := [val0, initialValue]\<rparr>) = (out, mr, mi')
     \<and> out @ dc_queue mi' = [val0, initialValue] \<and> length out \<le> 1"
proof -
  obtain out mr mi' where d: "DataChange_notifications 1 (item0\<lparr>dc_queue := [val0, initialValue]\<rparr>) = (out, mr, mi')"
    by (cases "DataChange_notifications 1 (item0\<lparr>dc_queue := [val0, initialValue]\<rparr>)")
  from notifications_fifo [OF d] d show ?thesis by simp
qed

text \<open>
  Queueing a value puts no other value into the queue: the overflow bit the code sets is set on
  a copy and lost.
\<close>

theorem overflow_not_marked:
  "set (dc_queue (fst (DataChange_enqueue v mi))) \<subseteq> insert v (set (dc_queue mi))"
  by (rule enqueue_unmarked)

text \<open>
  A decrease of an unsigned value is always reported as a change, however large the absolute
  deadband.
\<close>

theorem deadband_unsigned_decrease:
  assumes "a < b" and "db < 2 ^ 53"
  shows "\<not> equalDeadbandAbsolute shared (VScalar (SUint32 a)) (VScalar (SUint32 b)) (Fin db)"
  using assms by (rule deadband_uint32_decrease)

theorem deadband_unsigned_decrease_witness:
  "\<not> equalDeadbandAbsolute False (VScalar (SUint32 99)) (VScalar (SUint32 100)) (Fin 5)"
  by (rule deadband_unsigned_decrease) simp_all

text \<open>
  When the write of a data message fails, the message stays in the retransmission queue under
  the number the next message will have.
\<close>

theorem publish_write_error_keeps_number:
  assumes "publish_data en tn ord ch rid req results s = (Some (Some e, mr, n, s1), out)"
  shows "nextSequenceNumber s1 = nextSequenceNumber s \<and> nextSequenceNumber s1 \<in> set (numbers s1) \<and> \<not> seq_inv s1 \<and> out = []"
proof -
  from assms obtain q where q: "retransmissionQueue s = Some q"
    by (auto simp: publish_data_def split: option.splits prod.splits)
  from publish_data_cases [OF assms q] obtain nm where
    "nm_SequenceNumber nm = nextSequenceNumber s" "retransmissionQueue s1 = Some (push_retransmission nm q)"
    "nextSequenceNumber s1 = nextSequenceNumber s" "out = []" by auto
  then show ?thesis by (auto simp: numbers_def seq_inv_def queue_inv_def push_retransmission_def age_def)
qed

theorem publish_write_error_keeps_number_witness:
  "\<exists>mr n s1. publish_data (env0\<lparr>env_write := (\<lambda>_ _ _. Some ErrEOF)\<rparr>) now0 [5] 1 1 (req0 1) [] sub1 = (Some (Some ErrEOF, mr, n, s1), [])
     \<and> nextSequenceNumber s1 \<in> set (numbers s1)"
proof -
  obtain mr n s1 where p: "publish_data (env0\<lparr>env_write := (\<lambda>_ _ _. Some ErrEOF)\<rparr>) now0 [5] 1 1 (req0 1) [] sub1
      = (Some (Some ErrEOF, mr, n, s1), [])"
    by (simp add: cycle_simps) blast
  from publish_write_error_keeps_number [OF p] p show ?thesis by blast
qed

text \<open>
  Acknowledging a sequence number reports whether it was in the retransmission queue and removes
  exactly that number.
\<close>

theorem acknowledge_removes_one:
  assumes "seq_inv s" and "retransmissionQueue s \<noteq> None"
  shows "\<exists>s'. acknowledge n s = (Ok (n \<in> set (numbers s)), s') \<and> seq_inv s'
     \<and> numbers s' = filter (\<lambda>k. k \<noteq> n) (numbers s)"
  using assms by (rule acknowledge_spec)

theorem acknowledge_removes_one_witness:
  "\<exists>s'. acknowledge 2 (sub0\<lparr>retransmissionQueue := Some [msg0 1, msg0 2], nextSequenceNumber := 3\<rparr>) = (Ok True, s')
     \<and> numbers s' = [1]"
proof -
  let ?s = "sub0\<lparr>retransmissionQueue := Some [msg0 1, msg0 2], nextSequenceNumber := 3\<rparr>"
  have "seq_inv ?s" "retransmissionQueue ?s \<noteq> None" "numbers ?s = [1, 2]"
    by (simp_all add: seq_inv_def queue_inv_def age_def msg0_def numbers_def maxRetransmissionQueueLength_def)
  with acknowledge_removes_one [of ?s 2] show ?thesis by auto
qed

text \<open>
  Appending and deleting items keep the diagnostic counts of items and of disabled items equal
  to what the table of items holds.
\<close>

theorem item_counts_kept:
  assumes "counts_ok s"
  shows "counts_ok (snd (DeleteItem i s)) \<and> (case AppendItem it s of (Ok _, s') \<Rightarrow> counts_ok s' | _ \<Rightarrow> True)"
  using counts_ok_Delete [OF assms] counts_ok_Append [OF assms] by (auto split: prod.splits res.splits)

theorem item_counts_kept_witness: "counts_ok sub0 \<and> counts_ok (snd (DeleteItem 5 (sub1\<lparr>monitoredItemCount := 1\<rparr>)))"
proof -
  have "counts_ok sub0" "counts_ok (sub1\<lparr>monitoredItemCount := 1\<rparr>)"
    by (simp_all add: cycle_simps counts_ok_def disabled_items_def)
  with item_counts_kept show ?thesis by blast
qed

text \<open>
  Changing the mode of an item keeps the count of disabled items right exactly when one of the
  two modes is Disabled.
\<close>

theorem set_mode_counts:
  assumes "counts_ok s" and "FindItem i s = Some it" and "item_mode it \<noteq> mode"
  shows "counts_ok (setItemMode en now i mode s) \<longleftrightarrow> item_mode it = Disabled \<or> mode = Disabled"
  using assms by (rule setItemMode_counts)

theorem set_mode_counts_witness: "\<not> counts_ok (setItemMode env0 0 5 Sampling (sub1\<lparr>monitoredItemCount := 1\<rparr>))"
proof -
  have "counts_ok (sub1\<lparr>monitoredItemCount := 1\<rparr>)" "FindItem 5 (sub1\<lparr>monitoredItemCount := 1\<rparr>) = Some (EventItem event0)"
    "item_mode (EventItem event0) = Reporting"
    by (simp_all add: cycle_simps counts_ok_def disabled_items_def FindItem_def)
  with set_mode_counts [of "sub1\<lparr>monitoredItemCount := 1\<rparr>" 5 "EventItem event0" Sampling env0 0] show ?thesis by simp
qed

text \<open>
  DeleteSubscriptions deletes exactly the listed subscriptions that belong to the session of the
  caller and leaves every other as it was.
\<close>

theorem delete_only_own:
  assumes "server_inv srv" and "authorized now c token srv" and "map_of (sessionsByToken srv) token = Some a"
    and "handleDeleteSubscriptions en now ord c rid h token ids srv = (r, out, srv')"
  shows "SubscriptionManager_Get i srv' = (case SubscriptionManager_Get i srv of
      None \<Rightarrow> None | Some s \<Rightarrow> if i \<in> set ids \<and> sub_sessionId s = session_id_of srv a then None else Some s)"
  by (rule handleDelete_owned [OF assms])

theorem delete_only_own_witness:
  "SubscriptionManager_Get 1 (snd (snd (handleDeleteSubscriptions env0 0 [1] connA 1 4 tokA [1] srv1))) = None
   \<and> SubscriptionManager_Get 1 (snd (snd (handleDeleteSubscriptions env0 0 [1] connB 2 4 tokB [1] srv1))) = Some subA"
proof -
  let ?a = "handleDeleteSubscriptions env0 0 [1] connA 1 4 tokA [1] srv1"
  let ?b = "handleDeleteSubscriptions env0 0 [1] connB 2 4 tokB [1] srv1"
  have ids: "session_id_of srv1 0 = Some (NodeIDNumeric 1 1)" "session_id_of srv1 1 = Some (NodeIDNumeric 1 2)"
    using srv0_sessions(1,2) by (auto simp: srv1_tables session_id_of_def)
  have tok: "map_of (sessionsByToken srv1) tokA = Some 0" "map_of (sessionsByToken srv1) tokB = Some 1"
    using srv0_sessions(3,4) by (simp_all add: srv1_tables)
  have "?a = (fst ?a, fst (snd ?a), snd (snd ?a))" "?b = (fst ?b, fst (snd ?b), snd (snd ?b))" by simp_all
  from delete_only_own [OF srv1_inv srv1_authorized(1) tok(1) this(1), of 1]
    delete_only_own [OF srv1_inv srv1_authorized(2) tok(2) this(2), of 1] ids
  show ?thesis by (simp add: srv1_tables subA_fields)
qed

text \<open>
  The periodic check removes exactly the sessions that have expired.
\<close>

theorem expired_sessions_dropped:
  assumes "server_inv srv"
  shows "map_of (sessionsByToken (checkForExpiredSessions now srv)) token =
    (case map_of (sessionsByToken srv) token of
       None \<Rightarrow> None
     | Some a \<Rightarrow> (case session_at srv a of Some s \<Rightarrow> if Session_IsExpired now s then None else Some a | None \<Rightarrow> Some a))"
  using checkForExpiredSessions_spec [of srv now token] assms
  by (auto simp: server_inv_def limits_ok_def stale_def split: option.splits)

theorem expired_sessions_dropped_witness:
  "map_of (sessionsByToken (checkForExpiredSessions 0 srv1)) tokA = Some 0"
  using expired_sessions_dropped [OF srv1_inv, of 0 tokA] srv0_sessions(1,3) by (auto simp: srv1_tables)

text \<open>
  Republish sends the message of any subscription to whoever asks, and removes it from the
  retransmission queue of its owner.
\<close>

theorem republish_not_owner:
  assumes "server_inv srv" and "authorized now c token srv" and "SubscriptionManager_Get i srv = Some s"
    and "retransmissionQueue s = Some q" and "find_message n q = Some m"
    and "env_write en (cn_ch c) rid (RepublishResponse h m) = None"
  shows "\<exists>srv' s'. handleRepublish en now c rid h token i n srv = (Returned None, [(cn_ch c, rid, RepublishResponse h m)], srv')
    \<and> SubscriptionManager_Get i srv' = Some s' \<and> retransmissionQueue s' = remove_seq n q"
  by (rule republish_to_anyone [OF assms])

theorem republish_not_owner_witness:
  "sub_session subA = Some 0 \<and> map_of (sessionsByToken srv1) tokB = Some 1
   \<and> (\<exists>srv' s'. handleRepublish env0 0 connB 2 4 tokB 1 1 srv1 = (Returned None, [(6, 2, RepublishResponse 4 (msg0 1))], srv')
        \<and> SubscriptionManager_Get 1 srv' = Some s' \<and> retransmissionQueue s' = Some [])"
  using republish_not_owner [OF srv1_inv srv1_authorized(2), of 1 subA "[msg0 1]" 1 "msg0 1" env0 2 4]
    srv0_sessions(4)
  by (simp add: srv1_tables subA_fields msg0_def env0_def wr0_def connB_def)

text \<open>
  A publish request acknowledges messages of a subscription of another session.
\<close>

theorem acknowledge_not_owner:
  assumes "server_inv srv" and "authorized now c token srv"
    and "SubscriptionManager_Get i srv = Some s" and "seq_inv s"
    and "sub_session s \<noteq> map_of (sessionsByToken srv) token"
    and "pr_SubscriptionAcknowledgements req = [(i, n)]"
    and "handlePublish en now ord o1 o2 c rid token req srv = (r, out, srv')"
  shows "\<exists>s'. SubscriptionManager_Get i srv' = Some s' \<and> numbers s' = filter (\<lambda>k. k \<noteq> n) (numbers s)"
  by (rule publish_acknowledges_others [OF assms])

theorem acknowledge_not_owner_witness:
  "\<exists>s'. SubscriptionManager_Get 1 (snd (snd (handlePublish env0 0 [1] (\<lambda>_. [5]) (\<lambda>_. [5]) connB 2 tokB
       ((req0 4)\<lparr>pr_SubscriptionAcknowledgements := [(1, 1)]\<rparr>) srv1))) = Some s' \<and> numbers s' = []"
proof -
  let ?x = "handlePublish env0 0 [1] (\<lambda>_. [5]) (\<lambda>_. [5]) connB 2 tokB
    ((req0 4)\<lparr>pr_SubscriptionAcknowledgements := [(1, 1)]\<rparr>) srv1"
  have "?x = (fst ?x, fst (snd ?x), snd (snd ?x))" by simp
  from acknowledge_not_owner [OF srv1_inv srv1_authorized(2) _ subA_fields(7) _ _ this, of 1 1]
  show ?thesis using srv0_sessions(4) by (simp add: srv1_tables subA_fields)
qed

text \<open>
  When every step of a browse path but the last has a single match, following the path finds
  exactly the nodes it leads to.
\<close>

theorem paths_found:
  assumes "single_steps m i es" and "reaches m i es x"
  shows "\<exists>ts. follow m i es = Inr ts \<and> bt_TargetID ` set ts = {y. reaches m i es y} \<and> (\<forall>t\<in>set ts. RemainingPathIndex t = MaxUint32)"
proof -
  obtain ts where f: "follow m i es = Inr ts" using follow_complete [OF assms(2, 1)] by blast
  have "bt_TargetID ` set ts = {y. reaches m i es y}"
  proof (intro equalityI subsetI)
    fix y assume "y \<in> {y. reaches m i es y}"
    then show "y \<in> bt_TargetID ` set ts" using follow_complete [of m i es y] assms(1) f by auto
  qed (use follow_sound [OF f] in auto)
  with f follow_sound [OF f] show ?thesis by auto
qed

theorem paths_found_witness:
  "\<exists>ts. follow space0 plantID [\<lparr>pe_ReferenceTypeID = None, pe_IsInverse = False, pe_IncludeSubtypes = False, pe_TargetName = q_name ''Levels''\<rparr>] = Inr ts
    \<and> NewExpandedNodeID levelsID \<in> bt_TargetID ` set ts"
proof -
  let ?e = "\<lparr>pe_ReferenceTypeID = None, pe_IsInverse = False, pe_IncludeSubtypes = False, pe_TargetName = q_name ''Levels''\<rparr>"
  have t: "target_id space0 (ref_to ReferenceTypeIDHasComponent False levelsID) = levelsID" by (simp add: space0_targets levelsID_def)
  have "step_ref space0 ?e (ref_to ReferenceTypeIDHasComponent False levelsID)"
    by (simp add: step_ref_def t FindNode_def space0_nodes) (simp add: ref_to_def)
  then have r: "reaches space0 plantID [?e] (NewExpandedNodeID levelsID)" by (simp add: space0_nodes) (simp add: ref_to_def)
  from paths_found [OF _ r] r show ?thesis by auto
qed

text \<open>
  The bounds of an index range, whatever the text, are those of a non-empty part of the array,
  or the status is an error.
\<close>

theorem parseBounds_in_bounds:
  "case parseBounds s n of (i, j, st) \<Rightarrow> st = BadIndexRangeInvalid \<or> st = BadIndexRangeNoData \<or> st = Good \<and> 0 \<le> i \<and> i < j \<and> j \<le> int n"
proof -
  obtain i j st where p: "parseBounds s n = (i, j, st)" by (cases "parseBounds s n")
  from parseBounds_status [OF p] parseBounds_bounds [OF p] p show ?thesis by auto
qed

text \<open>
  For a type with at most 101 supertypes, IsSubtype decides the transitive closure of the
  supertype relation.
\<close>

theorem IsSubtype_transitive_closure:
  assumes "\<nexists>j. (supertype m ^^ 102) subtype j"
  shows "IsSubtype m subtype super \<longleftrightarrow> (supertype m)\<^sup>+\<^sup>+ subtype super"
  using assms by (rule IsSubtype_tranclp)

theorem IsSubtype_transitive_closure_witness: "IsSubtype space0 levelType (num_id 6) \<longleftrightarrow> (supertype space0)\<^sup>+\<^sup>+ levelType (num_id 6)"
proof -
  have s: "super_ref space0 levelType = Some (num_id 6)" "super_ref space0 (num_id 6) = None"
    by (simp_all add: super_ref_def space0_nodes space0_targets) (simp_all add: ref_to_def space0_def id_defs)
  have "\<not> (supertype space0 ^^ Suc k) (num_id 6) j" for k j using relpowp_det [of k space0 "num_id 6" j] s by auto
  then have "\<nexists>j. (supertype space0 ^^ Suc (Suc k)) levelType j" for k using relpowp_det [of "Suc k" space0 levelType] s by (metis option.inject)
  from this [of 100] have "\<nexists>j. (supertype space0 ^^ 102) levelType j" by (simp add: numeral_eq_Suc)
  then show ?thesis by (rule IsSubtype_transitive_closure)
qed

text \<open>
  When no node is its own descendant, the walk over the children of a node ends and returns
  exactly its descendants.
\<close>

theorem children_walk_ends:
  assumes "deque_laws dq xs_of" and "wf (child_rel m types)"
  shows "\<exists>k cs. (\<forall>fuel. GetChildren (k + fuel) dq m types n = Some cs) \<and> set cs = {c. (c, n) \<in> (child_rel m types)\<^sup>+}"
  using assms by (rule GetChildren_ends)

theorem children_walk_ends_witness:
  "\<exists>k cs. (\<forall>fuel. GetChildren (k + fuel) list_deque space0 (Some hasChildandSubtypes) plant = Some cs)
    \<and> set cs = {c. (c, plant) \<in> (child_rel space0 (Some hasChildandSubtypes))\<^sup>+}"
  by (rule children_walk_ends [OF list_deque_laws space0_wf])

text \<open>
  The walk over the children of a node on a cycle never ends, whatever the fuel.
\<close>

theorem children_walk_cycle:
  assumes "deque_laws dq xs_of" and "(n, n) \<in> (child_rel m types)\<^sup>+"
  shows "GetChildren fuel dq m types n = None"
  using assms by (rule GetChildren_cycle)

text \<open>
  The roles of a user come only from the rules before the first that does not fit the
  application and the endpoint: the loop ends there instead of going on with the next rule.
\<close>

theorem roles_from_leading_rules:
  assumes "uid \<noteq> NoIdentity" and "GetRoles thumb rules uid app ep = Inr roles"
  shows "set roles = rule_NodeID ` {rule \<in> set (takeWhile (fits app ep) rules). grants thumb uid rule}"
  using GetRoles_spec(1) [OF assms] .

theorem roles_from_leading_rules_witness:
  "\<exists>roles. GetRoles (\<lambda>_. []) [ruleAll, ruleAll\<lparr>ApplicationsExclude := False, rule_NodeID := None\<rparr>, ruleAll\<lparr>rule_NodeID := None\<rparr>] userOp [] [] = Inr roles
    \<and> set roles = {roleOp}"
proof -
  let ?rules = "[ruleAll, ruleAll\<lparr>ApplicationsExclude := False, rule_NodeID := None\<rparr>, ruleAll\<lparr>rule_NodeID := None\<rparr>]"
  have g: "GetRoles (\<lambda>_. []) ?rules userOp [] [] = Inr [roleOp]"
    by (simp add: GetRoles_def ruleAll_def userOp_def applies_def criterion_met_def)
  have "userOp \<noteq> NoIdentity" by (simp add: userOp_def)
  from roles_from_leading_rules [OF this g] g show ?thesis by simp
qed

text \<open>
  The user access level has a bit of the access level exactly when the user has a role and, for
  current read, current write and history read, one of the roles has the permission.
\<close>

theorem user_access_level_bits:
  "bit (UserAccessLevel re rps lvl uid) k \<longleftrightarrow> bit lvl k \<and> (\<exists>roles. user_roles re uid = Inr roles)
     \<and> (if k = 0 then permitted re rps uid PermissionTypeRead else if k = 1 then permitted re rps uid PermissionTypeWrite
        else if k = 2 then permitted re rps uid PermissionTypeReadHistory else True)"
  by (auto simp: UserAccessLevel_bits)

text \<open>
  The second index range of a write to an array of strings or byte strings is ignored.
\<close>

theorem second_range_ignored:
  assumes "t = TScalar KString \<or> t = TScalar KByteString"
  shows "write_variant [r, q] new (VSlice t vs) = write_variant [r] new (VSlice t vs)"
  using assms by (intro write_ignores_second) (auto simp: is_text_def)

end
